(* ===== verification/Prelude.thy ===== *)
theory Prelude
  imports Complex_Main "HOL-Library.AList" "HOL-Library.Char_ord" "HOL-Library.List_Lexorder"
    "HOL-Library.Multiset"
begin

section \<open>Shared types, error results and dictionaries\<close>

text \<open>
  What every component of the development shares:
  \<^item> instants and durations (\<open>datetime\<close>, \<open>timedelta\<close>) as integers counting microseconds;
  \<^item> results of fallible code, \<open>'e + 'a\<close> with \<open>Inl\<close> the raised error, and their
    sequencing \<open>bind_result\<close> (the first error ends the computation, as an exception does);
  \<^item> Python dictionaries with their insertion order, as association lists: a store to a key
    that is present replaces the value in place, a new key goes to the end
    (\<open>AList.update\<close>), \<open>pop\<close> is \<open>AList.delete\<close>, \<open>get\<close> is \<open>map_of\<close>;
  \<^item> the dictionary interface as a locale and what its clients derive from it: the totals
    idiom \<open>totals[k] = totals.get(k, 0) + v\<close> and the grouping idiom
    \<open>groups.setdefault(k, []).append(x)\<close>;
  \<^item> selection by a key (\<open>max(xs, key=...)\<close>) and facts on \<open>filter\<close> and \<open>sort_key\<close>.
  Strings are \<open>string\<close>, ordered lexicographically by character as Python's are.
\<close>

named_theorems queue_simps \<open>equations that evaluate the job table operations\<close>

type_synonym instant = int
type_synonym ('k, 'v) dict = "('k \<times> 'v) list"

subsection \<open>Results\<close>

definition bind_result :: "'e + 'a \<Rightarrow> ('a \<Rightarrow> 'e + 'b) \<Rightarrow> 'e + 'b" where
  "bind_result r f = (case r of Inl e \<Rightarrow> Inl e | Inr a \<Rightarrow> f a)"

lemma bind_result_simps [simp]:
  "bind_result (Inl e) f = Inl e" "bind_result (Inr a) f = f a"
  by (simp_all add: bind_result_def)

lemma bind_result_Inr_iff:
  "bind_result r f = Inr b \<longleftrightarrow> (\<exists>a. r = Inr a \<and> f a = Inr b)"
  by (cases r) auto

subsection \<open>The dictionary interface\<close>

locale dictionary =
  fixes get :: "'d \<Rightarrow> 'k \<Rightarrow> 'v option"
    and put :: "'k \<Rightarrow> 'v \<Rightarrow> 'd \<Rightarrow> 'd"
    and new :: "'d"
  assumes get_new: "get new k = None"
    and get_put: "get (put k v d) k' = (if k' = k then Some v else get d k')"
begin

text \<open>\<open>for x in xs: d[key(x)] = d.get(key(x), zero) + value(x)\<close>, for any accumulation.\<close>

definition accumulate :: "('v \<Rightarrow> 'x \<Rightarrow> 'v) \<Rightarrow> 'v \<Rightarrow> ('x \<Rightarrow> 'k) \<Rightarrow> 'x list \<Rightarrow> 'd \<Rightarrow> 'd" where
  "accumulate step start key xs d =
     fold (\<lambda>x d. put (key x) (step (case get d (key x) of None \<Rightarrow> start | Some v \<Rightarrow> v) x) d) xs d"

lemma accumulate_Cons:
  "accumulate step start key (x # xs) d =
     accumulate step start key xs
       (put (key x) (step (case get d (key x) of None \<Rightarrow> start | Some v \<Rightarrow> v) x) d)"
  by (simp add: accumulate_def)

lemma get_accumulate_from:
  "get (accumulate step start key xs d) k =
     (if (\<exists>x \<in> set xs. key x = k) \<or> get d k \<noteq> None
      then Some (foldl step (case get d k of None \<Rightarrow> start | Some v \<Rightarrow> v) (filter (\<lambda>x. key x = k) xs))
      else None)"
proof (induction xs arbitrary: d)
  case Nil
  then show ?case by (auto simp: accumulate_def)
next
  case (Cons x xs)
  show ?case by (auto simp: accumulate_Cons Cons.IH get_put)
qed

lemma get_accumulate:
  "get (accumulate step start key xs new) k =
     (if \<exists>x \<in> set xs. key x = k
      then Some (foldl step start (filter (\<lambda>x. key x = k) xs)) else None)"
  by (simp add: get_accumulate_from get_new)

end

interpretation alist: dictionary map_of AList.update "[] :: ('k, 'v) dict"
  by unfold_locales (simp_all add: update_conv)

subsection \<open>Totals and groups over association lists\<close>

definition add_totals :: "('x \<Rightarrow> 'k) \<Rightarrow> ('x \<Rightarrow> int) \<Rightarrow> 'x list \<Rightarrow> ('k, int) dict" where
  "add_totals key val xs =
     fold (\<lambda>x d. AList.update (key x)
            ((case map_of d (key x) of None \<Rightarrow> 0 | Some v \<Rightarrow> v) + val x) d) xs []"

definition dict_get :: "('k, 'v) dict \<Rightarrow> 'k \<Rightarrow> 'v \<Rightarrow> 'v" where
  "dict_get d k v = (case map_of d k of None \<Rightarrow> v | Some w \<Rightarrow> w)"

lemma foldl_add_start: "foldl (\<lambda>s x. s + f x) (a :: int) xs = a + sum_list (map f xs)"
  by (induction xs arbitrary: a) simp_all

lemma dict_get_add_totals:
  "dict_get (add_totals key val xs) k 0 = sum_list (map val (filter (\<lambda>x. key x = k) xs))"
proof -
  have "add_totals key val xs = alist.accumulate (\<lambda>s x. s + val x) 0 key xs []"
    by (simp add: add_totals_def alist.accumulate_def)
  then have "map_of (add_totals key val xs) k =
     (if \<exists>x \<in> set xs. key x = k
      then Some (foldl (\<lambda>s x. s + val x) 0 (filter (\<lambda>x. key x = k) xs)) else None)"
    by (simp add: alist.get_accumulate)
  then show ?thesis
    by (auto simp: dict_get_def foldl_add_start filter_empty_conv)
qed

definition group_by :: "('x \<Rightarrow> 'k) \<Rightarrow> 'x list \<Rightarrow> ('k, 'x list) dict" where
  "group_by key xs =
     fold (\<lambda>x d. AList.update (key x)
            ((case map_of d (key x) of None \<Rightarrow> [] | Some v \<Rightarrow> v) @ [x]) d) xs []"

lemma foldl_snoc: "foldl (\<lambda>s x. s @ [x]) a xs = a @ xs"
  by (induction xs arbitrary: a) simp_all

lemma map_of_group_by:
  "map_of (group_by key xs) k =
     (if \<exists>x \<in> set xs. key x = k then Some (filter (\<lambda>x. key x = k) xs) else None)"
proof -
  have "group_by key xs = alist.accumulate (\<lambda>s x. s @ [x]) [] key xs []"
    by (simp add: group_by_def alist.accumulate_def)
  then show ?thesis by (simp add: alist.get_accumulate foldl_snoc)
qed

lemma distinct_keys_fold_update:
  "distinct (map fst d) \<Longrightarrow>
   distinct (map fst (fold (\<lambda>x d. AList.update (key x) (f x d) d) xs d))"
  by (induction xs arbitrary: d) (simp_all add: distinct_update)

lemma map_of_fold_put:
  "map_of (fold (\<lambda>x. AList.update (key x) (val x)) xs d) k =
     (case find (\<lambda>x. key x = k) (rev xs) of Some x \<Rightarrow> Some (val x) | None \<Rightarrow> map_of d k)"
  by (induction xs rule: rev_induct) (simp_all add: alist.get_put)

lemma distinct_keys_group_by: "distinct (map fst (group_by key xs))"
  unfolding group_by_def by (rule distinct_keys_fold_update) simp

subsection \<open>Selecting by a key\<close>

text \<open>\<open>max(xs, key=k)\<close>: the first of the elements with the greatest key.\<close>

fun max_by :: "('a \<Rightarrow> 'k :: linorder) \<Rightarrow> 'a \<Rightarrow> 'a list \<Rightarrow> 'a" where
  "max_by k best [] = best"
| "max_by k best (x # xs) = (if k best < k x then max_by k x xs else max_by k best xs)"

lemma max_by_in: "max_by k best xs \<in> insert best (set xs)"
  by (induction xs arbitrary: best) auto

lemma max_by_ge: "x \<in> insert best (set xs) \<Longrightarrow> k x \<le> k (max_by k best xs)"
proof (induction xs arbitrary: best x)
  case (Cons y ys)
  have "k best \<le> k (max_by k best ys)" and "k y \<le> k (max_by k y ys)" using Cons.IH by blast+
  then show ?case using Cons by fastforce
qed simp

lemma find_filter_hd: "find P xs = (case filter P xs of [] \<Rightarrow> None | y # _ \<Rightarrow> Some y)"
  by (induction xs) auto

lemma map_sort_key: "map k (sort_key k xs) = sort (map k xs)"
  by (rule properties_for_sort[symmetric]) simp_all

lemma sort_key_inj_cong:
  assumes "inj_on k (set xs)" "mset xs = mset ys"
  shows "sort_key k xs = sort_key k ys"
proof -
  have set: "set xs = set ys" using assms(2) by (metis set_mset_mset)
  have "sort (map k xs) = sort (map k ys)"
    using assms(2) by (intro properties_for_sort) simp_all
  then have "map k (sort_key k xs) = map k (sort_key k ys)" by (simp only: map_sort_key)
  then show ?thesis using assms(1) set by (simp add: inj_on_map_eq_map)
qed

subsection \<open>Loops that may raise\<close>

fun traverse :: "('a \<Rightarrow> 'e + 'b) \<Rightarrow> 'a list \<Rightarrow> 'e + 'b list" where
  "traverse f [] = Inr []"
| "traverse f (x # xs) = bind_result (f x) (\<lambda>y. bind_result (traverse f xs) (\<lambda>ys. Inr (y # ys)))"

lemma traverse_Inr: "traverse f xs = Inr ys \<longleftrightarrow> list_all2 (\<lambda>x y. f x = Inr y) xs ys"
  by (induction xs arbitrary: ys) (auto simp: bind_result_Inr_iff list_all2_Cons1)

end
