(* ===== verification/Float64.thy ===== *)
theory Float64
  imports Prelude "HOL-Library.Log_Nat"
begin

section \<open>Python floats: IEEE 754 doubles\<close>

text \<open>
  A finite Python \<open>float\<close> is the rational number it denotes. Every arithmetic operation on
  floats rounds its exact result to the nearest double, ties to even: \<open>fl\<close> computes that
  rounding (53 significant bits, gradual underflow below \<open>2 ^ -1022\<close>), so \<open>a * b\<close> of the
  source is \<open>fl (a * b)\<close> here, a float literal \<open>0.1\<close> is \<open>fl (1 / 10)\<close>, and the true
  division of two ints is \<open>fl\<close> of the exact quotient, as Python rounds it correctly. Overflow
  to infinity and NaN inputs are not modelled: every quantity of the program that reaches these
  operations (seconds, scores, bytes, tokens) is far below \<open>2 ^ 1024\<close>; where the source uses
  infinity on purpose the model has an explicit case for it.

  \<open>fsum\<close> is the built-in \<open>sum\<close> on floats, which since Python 3.12 compensates
  (Neumaier). \<open>timedelta_seconds\<close> and \<open>total_seconds\<close> convert between seconds and
  the microseconds of an instant the way \<open>datetime\<close> does.

  The clients need only the laws of the locale \<open>rounding\<close>: rounding is monotone and keeps
  the integers of up to 53 bits. \<open>double\<close> interprets it on \<open>fl\<close>.
\<close>

type_synonym float64 = rat

definition ilog2 :: "rat \<Rightarrow> int" where
  "ilog2 x = (case quotient_of x of (a, b) \<Rightarrow>
     (let e = bitlen a - bitlen b in if 2 powi e \<le> x then e else e - 1))"

definition round_half_even :: "rat \<Rightarrow> int" where
  "round_half_even y =
     (let f = \<lfloor>y\<rfloor>; d = y - of_int f in
      if d < 1 / 2 then f else if d > 1 / 2 then f + 1 else if even f then f else f + 1)"

definition ulp_exponent :: "rat \<Rightarrow> int" where
  "ulp_exponent x = max (ilog2 x) (-1022) - 52"

definition round_pos :: "rat \<Rightarrow> rat" where
  "round_pos x =
     of_int (round_half_even (x / 2 powi ulp_exponent x)) * 2 powi ulp_exponent x"

definition fl :: "rat \<Rightarrow> float64" where
  "fl x = (if x = 0 then 0 else if x < 0 then - round_pos (- x) else round_pos x)"

definition trunc :: "rat \<Rightarrow> int" where
  "trunc x = (if x < 0 then \<lceil>x\<rceil> else \<lfloor>x\<rfloor>)"

definition fsum_step :: "float64 \<times> float64 \<Rightarrow> float64 \<Rightarrow> float64 \<times> float64" where
  "fsum_step = (\<lambda>(s, c) x.
     (let t = fl (s + x) in
      (t, if \<bar>s\<bar> \<ge> \<bar>x\<bar> then fl (c + fl (fl (s - t) + x)) else fl (c + fl (fl (x - t) + s)))))"

definition fsum :: "float64 list \<Rightarrow> float64" where
  "fsum xs = (case foldl fsum_step (0, 0) xs of (s, c) \<Rightarrow> if c \<noteq> 0 then fl (s + c) else s)"

definition timedelta_seconds :: "float64 \<Rightarrow> int" where
  "timedelta_seconds s =
     trunc s * 1000000 + round_half_even (fl ((s - of_int (trunc s)) * 1000000))"

definition total_seconds :: "int \<Rightarrow> float64" where
  "total_seconds us = fl (of_int us / 1000000)"

subsection \<open>Rounding is monotone and exact on small integers\<close>

lemma bitlen_powi_bounds:
  assumes "0 < a"
  shows "2 powi (bitlen a - 1) \<le> (of_int a :: rat)" and "(of_int a :: rat) < 2 powi bitlen a"
proof -
  have pos: "0 < bitlen a"
    using assms bitlen_nonneg[of a] bitlen_eq_zero_iff[of a] by linarith
  then obtain k where k: "bitlen a = int k + 1" using zero_less_imp_eq_int[OF pos]
    by (metis Suc_pred of_nat_0_less_iff of_nat_Suc add.commute)
  have "2 ^ nat (bitlen a - 1) \<le> a" and "a < 2 ^ nat (bitlen a)"
    using bitlen_bounds[OF assms] by auto
  then have le: "2 ^ k \<le> a" and lt: "a < 2 ^ (k + 1)"
    using k by (auto simp: nat_add_distrib)
  have "of_int (2 ^ k) \<le> (of_int a :: rat)" using le by (simp only: of_int_le_iff)
  then show "2 powi (bitlen a - 1) \<le> (of_int a :: rat)" using k by simp
  have "(of_int a :: rat) < of_int (2 ^ (k + 1))" using lt by (simp only: of_int_less_iff)
  then show "(of_int a :: rat) < 2 powi bitlen a" using k by (simp add: power_int_add)
qed

lemma ilog2_bounds:
  assumes "0 < x"
  shows "2 powi ilog2 x \<le> x \<and> x < 2 powi (ilog2 x + 1)"
proof -
  obtain a b where q: "quotient_of x = (a, b)" by (cases "quotient_of x")
  have b: "0 < b" using quotient_of_denom_pos[OF q] .
  have x: "x = of_int a / of_int b" using quotient_of_div[OF q] .
  have a: "0 < a" using assms b x by (simp add: zero_less_divide_iff)
  define e where "e = bitlen a - bitlen b"
  note A = bitlen_powi_bounds[OF a] and B = bitlen_powi_bounds[OF b]
  have "2 powi (bitlen a - 1) / 2 powi bitlen b \<le> x"
    unfolding x using A B a b by (intro frac_le) auto
  then have low: "2 powi (e - 1) \<le> x"
    by (simp add: e_def power_int_diff)
  have "x < 2 powi bitlen a / 2 powi (bitlen b - 1)"
    unfolding x using A B a b by (intro frac_less) (auto simp: zero_less_power_int)
  then have high: "x < 2 powi (e + 1)"
    by (simp add: e_def power_int_diff power_int_add)
  have "ilog2 x = (if 2 powi e \<le> x then e else e - 1)"
    by (simp add: ilog2_def q e_def Let_def)
  then show ?thesis using low high by auto
qed

lemma two_powi_less_iff: "(2 :: rat) powi m < 2 powi n \<longleftrightarrow> m < n"
  using power_int_strict_increasing[of m n "2 :: rat"] power_int_increasing[of n m "2 :: rat"]
  by (meson linorder_not_le not_less_iff_gr_or_eq one_le_numeral one_less_numeral_iff
      order_less_imp_not_less semiring_norm(76) leD)

lemma ilog2_mono:
  assumes "0 < x" "x \<le> y"
  shows "ilog2 x \<le> ilog2 y"
proof -
  have "2 powi ilog2 x < (2 :: rat) powi (ilog2 y + 1)"
    using ilog2_bounds[of x] ilog2_bounds[of y] assms by linarith
  then show ?thesis by (simp add: two_powi_less_iff)
qed

lemma round_half_even_int [simp]: "round_half_even (of_int n) = n"
  by (simp add: round_half_even_def)

lemma round_half_even_bounds:
  "\<lfloor>y\<rfloor> \<le> round_half_even y \<and> round_half_even y \<le> \<lceil>y\<rceil>"
proof (cases "y = of_int \<lfloor>y\<rfloor>")
  case True
  then show ?thesis by (metis ceiling_of_int floor_of_int order_refl round_half_even_int)
next
  case False
  then have "\<lceil>y\<rceil> = \<lfloor>y\<rfloor> + 1" by (metis ceiling_altdef)
  then show ?thesis by (simp add: round_half_even_def Let_def)
qed

lemma round_half_even_mono:
  assumes "x \<le> y" shows "round_half_even x \<le> round_half_even y"
proof (cases "\<lfloor>x\<rfloor> = \<lfloor>y\<rfloor>")
  case True
  with assms show ?thesis by (auto simp: round_half_even_def Let_def)
next
  case False
  with assms have "\<lfloor>x\<rfloor> + 1 \<le> \<lfloor>y\<rfloor>" using floor_mono[OF assms] by linarith
  moreover have "round_half_even x \<le> \<lfloor>x\<rfloor> + 1"
    by (simp add: round_half_even_def Let_def)
  moreover have "\<lfloor>y\<rfloor> \<le> round_half_even y" using round_half_even_bounds by blast
  ultimately show ?thesis by linarith
qed

lemma le_round_half_even: "of_int n \<le> y \<Longrightarrow> n \<le> round_half_even y"
  using round_half_even_mono[of "of_int n" y] by simp

lemma round_half_even_le: "y \<le> of_int n \<Longrightarrow> round_half_even y \<le> n"
  using round_half_even_mono[of y "of_int n"] by simp

lemma round_pos_le_grid:
  assumes "0 < x" "x \<le> of_int n * 2 powi ulp_exponent x"
  shows "round_pos x \<le> of_int n * 2 powi ulp_exponent x"
proof -
  have "x / 2 powi ulp_exponent x \<le> of_int n"
    using assms by (simp add: pos_divide_le_eq zero_less_power_int)
  then have "round_half_even (x / 2 powi ulp_exponent x) \<le> n" by (rule round_half_even_le)
  then show ?thesis unfolding round_pos_def
    by (intro mult_right_mono) (auto simp: zero_le_power_int)
qed

lemma grid_le_round_pos:
  assumes "0 < x" "of_int n * 2 powi ulp_exponent x \<le> x"
  shows "of_int n * 2 powi ulp_exponent x \<le> round_pos x"
proof -
  have "of_int n \<le> x / 2 powi ulp_exponent x"
    using assms by (simp add: pos_le_divide_eq zero_less_power_int)
  then have "n \<le> round_half_even (x / 2 powi ulp_exponent x)" by (rule le_round_half_even)
  then show ?thesis unfolding round_pos_def
    by (intro mult_right_mono) (auto simp: zero_le_power_int)
qed

lemma round_pos_nonneg: "0 < x \<Longrightarrow> 0 \<le> round_pos x"
  using grid_le_round_pos[of x 0] by simp

lemma two_powi_scale: "(2 :: rat) powi (e + int k) = of_int (2 ^ k) * 2 powi e"
  by (simp add: power_int_add)

lemma round_pos_mono:
  assumes "0 < x" "x \<le> y"
  shows "round_pos x \<le> round_pos y"
proof (cases "ulp_exponent x = ulp_exponent y")
  case True
  have "x / 2 powi ulp_exponent x \<le> y / 2 powi ulp_exponent x"
    using assms by (intro divide_right_mono) (auto simp: zero_le_power_int)
  then have "round_half_even (x / 2 powi ulp_exponent x) \<le> round_half_even (y / 2 powi ulp_exponent x)"
    by (rule round_half_even_mono)
  then show ?thesis unfolding round_pos_def True[symmetric]
    by (intro mult_right_mono) (auto simp: zero_le_power_int)
next
  case False
  then have lt: "ulp_exponent x < ulp_exponent y" and ey: "ulp_exponent y = ilog2 y - 52"
    using ilog2_mono[OF assms] by (auto simp: ulp_exponent_def)
  have ex: "ilog2 x \<le> ulp_exponent x + 52" by (simp add: ulp_exponent_def)
  have "x < 2 powi (ilog2 x + 1)" using ilog2_bounds[OF assms(1)] by simp
  also have "\<dots> \<le> 2 powi (ulp_exponent x + int 53)"
    using ex by (intro power_int_increasing) auto
  finally have "round_pos x \<le> 2 powi (ulp_exponent x + int 53)"
    using round_pos_le_grid[OF assms(1), of "2 ^ 53"] by (simp only: two_powi_scale)
  also have "\<dots> \<le> 2 powi (ulp_exponent y + int 52)"
    using lt by (intro power_int_increasing) auto
  also have "\<dots> \<le> round_pos y"
  proof -
    have "2 powi (ulp_exponent y + int 52) \<le> y" using ilog2_bounds[of y] assms ey by simp
    then show ?thesis using grid_le_round_pos[of y "2 ^ 52"] assms by (simp only: two_powi_scale)
  qed
  finally show ?thesis .
qed

lemma fl_0 [simp]: "fl 0 = 0"
  by (simp add: fl_def)

lemma fl_minus: "fl (- x) = - fl x"
  by (simp add: fl_def)

lemma fl_pos: "0 < x \<Longrightarrow> fl x = round_pos x"
  by (simp add: fl_def)

lemma fl_nonneg: "0 \<le> x \<Longrightarrow> 0 \<le> fl x"
  by (cases "x = 0") (auto simp: fl_pos round_pos_nonneg)

lemma fl_nonpos: "x \<le> 0 \<Longrightarrow> fl x \<le> 0"
  using fl_nonneg[of "- x"] by (simp add: fl_minus)

lemma fl_mono_pos: "0 < x \<Longrightarrow> x \<le> y \<Longrightarrow> fl x \<le> fl y"
  by (simp add: fl_pos round_pos_mono)

lemma fl_mono: "x \<le> y \<Longrightarrow> fl x \<le> fl y"
proof -
  assume le: "x \<le> y"
  consider "0 < x" | "x \<le> 0" "0 \<le> y" | "y < 0" by linarith
  then show ?thesis
  proof cases
    case 2
    then show ?thesis using fl_nonpos[of x] fl_nonneg[of y] by linarith
  next
    case 3
    then have "fl (- y) \<le> fl (- x)" using le by (intro fl_mono_pos) auto
    then show ?thesis by (simp add: fl_minus)
  qed (use le fl_mono_pos in auto)
qed

lemma fl_grid:
  assumes "0 < x" "x = of_int n * 2 powi ulp_exponent x"
  shows "fl x = x"
proof -
  have "x / 2 powi ulp_exponent x = of_int n" using assms(2)
    by (metis nonzero_mult_div_cancel_right power_int_not_zero zero_neq_numeral)
  then show ?thesis using assms by (simp add: fl_pos round_pos_def)
qed

lemma fl_of_pos_int:
  assumes "0 < n" "n \<le> 2 ^ 53"
  shows "fl (of_int n) = of_int n"
proof (cases "n = 2 ^ 53")
  case True
  have "fl (2 ^ 53) = 2 ^ 53" by code_simp
  then show ?thesis using True by simp
next
  case False
  let ?x = "of_int n :: rat"
  have pos: "0 < ?x" and one: "1 \<le> ?x" and lt: "n < 2 ^ 53"
    using assms False by auto
  have "(2::rat) powi ilog2 ?x < 2 powi 53"
  proof -
    have "?x < of_int (2 ^ 53)" using lt by (simp only: of_int_less_iff)
    then show ?thesis using ilog2_bounds[OF pos] by simp
  qed
  then have hi: "ilog2 ?x < 53" by (simp only: two_powi_less_iff)
  have "(2::rat) powi 0 < 2 powi (ilog2 ?x + 1)"
    using ilog2_bounds[OF pos] one by simp
  then have lo: "0 \<le> ilog2 ?x" by (simp only: two_powi_less_iff)
  define k where "k = nat (52 - ilog2 ?x)"
  have k: "ulp_exponent ?x = - int k" using hi lo by (simp add: ulp_exponent_def k_def)
  have "?x = of_int (n * 2 ^ k) * 2 powi ulp_exponent ?x"
    by (simp add: k power_int_minus)
  then show ?thesis using fl_grid[OF pos] by blast
qed

lemma fl_of_int: "\<bar>n\<bar> \<le> 2 ^ 53 \<Longrightarrow> fl (of_int n) = of_int n"
  using fl_of_pos_int[of n] fl_of_pos_int[of "- n"] fl_minus[of "of_int n"]
  by (cases n "0 :: int" rule: linorder_cases) auto


subsection \<open>What the clients use of rounding\<close>

locale rounding =
  fixes rnd :: "rat \<Rightarrow> rat"
  assumes rnd_mono: "x \<le> y \<Longrightarrow> rnd x \<le> rnd y"
    and rnd_int: "\<bar>n\<bar> \<le> 2 ^ 53 \<Longrightarrow> rnd (of_int n) = of_int n"
begin

lemma rnd_0 [simp]: "rnd 0 = 0"
  using rnd_int[of 0] by simp

lemma rnd_1 [simp]: "rnd 1 = 1"
  using rnd_int[of 1] by simp

lemma rnd_nonneg: "0 \<le> x \<Longrightarrow> 0 \<le> rnd x"
  using rnd_mono[of 0 x] by simp

lemma rnd_nonpos: "x \<le> 0 \<Longrightarrow> rnd x \<le> 0"
  using rnd_mono[of x 0] by simp

lemma rnd_le_1: "x \<le> 1 \<Longrightarrow> rnd x \<le> 1"
  using rnd_mono[of x 1] by simp

lemma rnd_ge_int: "of_int n \<le> x \<Longrightarrow> \<bar>n\<bar> \<le> 2 ^ 53 \<Longrightarrow> of_int n \<le> rnd x"
  using rnd_mono[of "of_int n" x] rnd_int[of n] by simp

lemma rnd_le_int: "x \<le> of_int n \<Longrightarrow> \<bar>n\<bar> \<le> 2 ^ 53 \<Longrightarrow> rnd x \<le> of_int n"
  using rnd_mono[of x "of_int n"] rnd_int[of n] by simp

lemma rnd_between: "a \<le> x \<Longrightarrow> x \<le> b \<Longrightarrow> rnd a = a \<Longrightarrow> rnd b = b \<Longrightarrow> a \<le> rnd x \<and> rnd x \<le> b"
  using rnd_mono[of a x] rnd_mono[of x b] by simp

lemma unit_mult:
  assumes "0 \<le> a" "a \<le> 1" "0 \<le> b" "b \<le> 1"
  shows "0 \<le> rnd (a * b) \<and> rnd (a * b) \<le> 1"
  using assms by (simp add: rnd_nonneg rnd_le_1 mult_le_one)

lemma ratio_in_unit:
  assumes "0 \<le> a" "a \<le> b"
  shows "0 \<le> rnd (of_int a / of_int b) \<and> rnd (of_int a / of_int b) \<le> 1"
proof -
  have "of_int a / of_int b \<le> (1 :: rat)" using assms by (cases "b = 0") (auto simp: divide_le_eq)
  then show ?thesis using assms by (simp add: rnd_nonneg rnd_le_1)
qed

end

interpretation double: rounding fl
  by unfold_locales (simp_all add: fl_mono fl_of_int)

lemma fl_eval [simp]: "fl 1 = 1" "fl (1 / 2) = 1 / 2"
  by (simp, code_simp)

lemma floor_fl_ge: "of_int n \<le> x \<Longrightarrow> \<bar>n\<bar> \<le> 2 ^ 53 \<Longrightarrow> n \<le> \<lfloor>fl x\<rfloor>"
  by (simp add: le_floor_iff double.rnd_ge_int)

lemma floor_fl_mono: "x \<le> y \<Longrightarrow> \<lfloor>fl x\<rfloor> \<le> \<lfloor>fl y\<rfloor>"
  by (intro floor_mono fl_mono)

lemma timedelta_of_int [simp]: "timedelta_seconds (of_int n) = n * 1000000"
  by (simp add: timedelta_seconds_def trunc_def round_half_even_def)

lemma timedelta_numeral [simp]: "timedelta_seconds (numeral n) = numeral n * 1000000"
  using timedelta_of_int[of "numeral n"] by simp

subsection \<open>Dyadic fractions are exact\<close>

lemma fl_dyadic:
  assumes "\<bar>n\<bar> < 2 ^ 53" "j \<le> 1000"
  shows "fl (of_int n / 2 ^ j) = of_int n / 2 ^ j"
proof -
  have pos: "fl (of_int m / 2 ^ j) = of_int m / 2 ^ j" if m: "0 < m" "m < 2 ^ 53" for m :: int
  proof -
    let ?x = "of_int m / 2 ^ j :: rat"
    have x: "0 < ?x" using m by simp
    have lt: "of_int m < (2 :: rat) ^ 53" using m(2) by (metis of_int_less_iff of_int_numeral of_int_power)
    have "(2 :: rat) powi ilog2 ?x < 2 powi (53 - int j)"
    proof -
      have "?x < 2 ^ 53 / 2 ^ j" using lt by (simp add: divide_strict_right_mono)
      also have "\<dots> = 2 powi (53 - int j)" by (simp add: power_int_diff)
      finally show ?thesis using ilog2_bounds[OF x] by linarith
    qed
    then have hi: "ilog2 ?x < 53 - int j" by (simp only: two_powi_less_iff)
    define k where "k = nat (- int j - ulp_exponent ?x)"
    have "ulp_exponent ?x \<le> - int j" using hi assms(2) by (auto simp: ulp_exponent_def)
    then have e: "ulp_exponent ?x = - int j - int k" by (simp add: k_def)
    have "?x = of_int (m * 2 ^ k) * 2 powi ulp_exponent ?x"
      unfolding e by (simp add: power_int_diff power_int_minus divide_inverse)
    then show ?thesis using fl_grid[OF x] by blast
  qed
  consider "0 < n" | "n = 0" | "0 < - n" by linarith
  then show ?thesis
  proof cases
    case 1
    then show ?thesis using pos assms by simp
  next
    case 3
    then have "fl (- (of_int n / 2 ^ j)) = - (of_int n / 2 ^ j)" using pos[of "- n"] assms by simp
    then show ?thesis by (simp only: fl_minus neg_equal_iff_equal)
  qed simp
qed

lemma fl_half: "\<bar>n\<bar> < 2 ^ 53 \<Longrightarrow> fl (of_int n / 2) = of_int n / 2"
  using fl_dyadic[of n 1] by simp

text \<open>A sum of halves is exact: no rounding and no compensation happens.\<close>

lemma fsum_halves:
  assumes "\<forall>x \<in> set xs. \<exists>k. x = of_int k / 2 \<and> 0 \<le> k \<and> k \<le> 2" "2 * int (length xs) < 2 ^ 53"
  shows "fsum xs = sum_list xs"
proof -
  have "foldl fsum_step (of_int s / 2, 0) ys = (of_int s / 2 + sum_list ys, 0)"
    if "\<forall>x \<in> set ys. \<exists>k. x = of_int k / 2 \<and> 0 \<le> k \<and> k \<le> 2" "0 \<le> s" "s + 2 * int (length ys) < 2 ^ 53"
    for s ys
    using that
  proof (induction ys arbitrary: s)
    case (Cons y ys)
    then obtain k where k: "y = of_int k / 2" "0 \<le> k" "k \<le> 2" by auto
    have t: "fl (of_int s / 2 + of_int k / 2) = of_int s / 2 + of_int k / 2"
      using fl_half[of "s + k"] Cons.prems k by (simp add: add_divide_distrib)
    have d: "fl (- (of_int k / 2)) = - (of_int k / 2)" "fl (- (of_int s / 2)) = - (of_int s / 2)"
      using fl_half[of k] fl_half[of s] Cons.prems k by (simp_all only: fl_minus) simp_all
    have "fsum_step (of_int s / 2, 0) (of_int k / 2) = (of_int s / 2 + of_int k / 2, 0)"
      by (simp add: fsum_step_def Let_def t d)
    then have "fsum_step (of_int s / 2, 0) y = (of_int (s + k) / 2, 0)"
      by (simp only: k(1)) (simp add: add_divide_distrib)
    moreover have "foldl fsum_step (of_int (s + k) / 2, 0) ys = (of_int (s + k) / 2 + sum_list ys, 0)"
      using Cons.prems k(2,3) by (intro Cons.IH) auto
    moreover have "of_int (s + k) / 2 = of_int s / 2 + y" by (simp only: k(1)) (simp add: add_divide_distrib)
    ultimately show ?case by (simp only: foldl_Cons sum_list.Cons add.assoc)
  qed simp
  from this[of xs 0] assms show ?thesis by (simp add: fsum_def)
qed

subsection \<open>Square root\<close>

function isqrt :: "int \<Rightarrow> int" where
  "isqrt n = (if n \<le> 0 then 0 else let r = 2 * isqrt (n div 4) in if (r + 1) ^ 2 \<le> n then r + 1 else r)"
  by pat_completeness auto
termination by (relation "measure nat") auto

declare isqrt.simps [simp del]

lemma isqrt_bounds: "0 \<le> n \<Longrightarrow> 0 \<le> isqrt n \<and> isqrt n ^ 2 \<le> n \<and> n < (isqrt n + 1) ^ 2"
proof (induction n rule: isqrt.induct)
  case (1 n)
  show ?case
  proof (cases "n = 0")
    case False
    define r where "r = isqrt (n div 4)"
    have r: "0 \<le> r" "r ^ 2 \<le> n div 4" "n div 4 < (r + 1) ^ 2" using 1 False by (auto simp: r_def)
    have "(2 * r) ^ 2 \<le> n" using r(2) by (simp add: power2_eq_square)
    moreover have "n < (2 * r + 1 + 1) ^ 2" using r(3) by (simp add: power2_eq_square algebra_simps)
    moreover have "isqrt n = (if (2 * r + 1) ^ 2 \<le> n then 2 * r + 1 else 2 * r)"
      using False 1 by (subst isqrt.simps) (simp add: r_def Let_def)
    ultimately show ?thesis using r(1) by (simp split: if_splits)
  qed (simp add: isqrt.simps)
qed

text \<open>
  \<open>math.sqrt\<close>, correctly rounded: the integer square root of the argument scaled to at least
  56 significant bits, with a sticky bit for the discarded remainder, rounded once.
\<close>

definition fl_sqrt :: "float64 \<Rightarrow> float64" where
  "fl_sqrt x =
     (if x \<le> 0 then 0
      else (let j = nat (max 0 (60 - ilog2 x div 2));
                y = x * 4 ^ j;
                m = isqrt \<lfloor>y\<rfloor>;
                sticky = (if of_int (m ^ 2) = y then 0 else 1 / 2)
            in fl ((of_int m + sticky) / 2 ^ j)))"

end
