(* ===== verification/Retry_Policy.thy ===== *)
theory Retry_Policy
  imports Float64
begin

section \<open>The failure table: retry, fall back or stop\<close>

text \<open>
  Models \<^verbatim>\<open>src/src/loadcoach/domain/retry_policy.py\<close>: the rows of the failure table, the decision
  after a failed attempt, the choice of the next candidate and the backoff before a retry.
  Provider errors belong to the ModelRack package: an error is a value of a type parameter and
  \<open>isinstance\<close> against the five classes the table names is the argument
  \<open>is_instance\<close>. A retry's jitter is an argument, as in the code.
\<close>

definition PROTOCOL_ERROR_RETRIES :: int where
  "PROTOCOL_ERROR_RETRIES = 1"

datatype FailureKind = TIMEOUT | CONNECTION | PROTOCOL | VALIDATION | CONTEXT_LIMIT
  | FAILURE_CANCELLED | REJECTED

datatype Action = RETRY_SAME | FALLBACK | STOP

record Decision =
  action :: Action
  decision_reason :: string
  larger_context_only :: bool

datatype provider_exception = GenerationCancelled | ProviderTimeout | ProviderUnavailable
  | ProviderProtocolError | ContextLimitExceeded

definition classify_failure :: "('e \<Rightarrow> provider_exception \<Rightarrow> bool) \<Rightarrow> 'e \<Rightarrow> FailureKind" where
  "classify_failure is_instance error =
     (if is_instance error GenerationCancelled then FAILURE_CANCELLED
      else if is_instance error ProviderTimeout then TIMEOUT
      else if is_instance error ProviderUnavailable then CONNECTION
      else if is_instance error ProviderProtocolError then PROTOCOL
      else if is_instance error ContextLimitExceeded then CONTEXT_LIMIT
      else REJECTED)"

definition decision :: "Action \<Rightarrow> string \<Rightarrow> Decision" where
  "decision a r = \<lparr>action = a, decision_reason = r, larger_context_only = False\<rparr>"

fun next_action :: "FailureKind \<Rightarrow> int \<Rightarrow> int \<Rightarrow> Decision" where
  "next_action FAILURE_CANCELLED attempts_on_candidate per_candidate_limit =
     decision STOP ''cancelled''"
| "next_action TIMEOUT attempts_on_candidate per_candidate_limit =
     (if attempts_on_candidate < per_candidate_limit then decision RETRY_SAME ''timeout''
      else decision FALLBACK ''timeout_retries_exhausted'')"
| "next_action CONNECTION attempts_on_candidate per_candidate_limit =
     decision FALLBACK ''connection_error''"
| "next_action PROTOCOL attempts_on_candidate per_candidate_limit =
     (if attempts_on_candidate \<le> PROTOCOL_ERROR_RETRIES then decision RETRY_SAME ''protocol_error''
      else decision FALLBACK ''protocol_error_retries_exhausted'')"
| "next_action VALIDATION attempts_on_candidate per_candidate_limit =
     (if attempts_on_candidate < per_candidate_limit then decision RETRY_SAME ''corrective_retry''
      else decision FALLBACK ''validation_retries_exhausted'')"
| "next_action CONTEXT_LIMIT attempts_on_candidate per_candidate_limit =
     \<lparr>action = FALLBACK, decision_reason = ''context_limit_exceeded'', larger_context_only = True\<rparr>"
| "next_action REJECTED attempts_on_candidate per_candidate_limit =
     decision FALLBACK ''provider_rejected''"

datatype index_error = IndexError

text \<open>The loop over \<open>range(current + 1, len(served_contexts))\<close>, from the index \<open>i\<close> on.\<close>

function candidate_from :: "int list \<Rightarrow> int option \<Rightarrow> nat \<Rightarrow> nat option" where
  "candidate_from served floor_context i =
     (if i < length served then
        (if (case floor_context of None \<Rightarrow> True | Some f \<Rightarrow> served ! i > f) then Some i
         else candidate_from served floor_context (Suc i))
      else None)"
  by pat_completeness auto
termination by (relation "measure (\<lambda>(served, _, i). length served - i)") auto

declare candidate_from.simps [simp del]

definition next_candidate_index :: "int list \<Rightarrow> nat \<Rightarrow> bool \<Rightarrow> index_error + nat option" where
  "next_candidate_index served_contexts current larger =
     (if larger \<and> length served_contexts \<le> current then Inl IndexError
      else Inr (candidate_from served_contexts
                  (if larger then Some (served_contexts ! current) else None) (Suc current)))"

definition backoff_seconds :: "float64 \<Rightarrow> int \<Rightarrow> float64 \<Rightarrow> float64" where
  "backoff_seconds base_seconds retry_number jitter =
     (if base_seconds \<le> 0 then 0
      else (let step = fl (base_seconds * 2 ^ nat (max (retry_number - 1) 0))
            in fl (step * fl (fl (1 / 2) + max (min jitter 1) 0))))"

subsection \<open>The table\<close>

lemma next_action_retry:
  "action (next_action kind n limit) = RETRY_SAME \<longleftrightarrow>
     kind \<in> {TIMEOUT, VALIDATION} \<and> n < limit \<or> kind = PROTOCOL \<and> n \<le> 1"
  by (cases kind) (simp_all add: decision_def PROTOCOL_ERROR_RETRIES_def)

lemma next_action_stop: "action (next_action kind n limit) = STOP \<longleftrightarrow> kind = FAILURE_CANCELLED"
  by (cases kind) (simp_all add: decision_def)

lemma next_action_larger: "larger_context_only (next_action kind n limit) \<longleftrightarrow> kind = CONTEXT_LIMIT"
  by (cases kind) (simp_all add: decision_def)

text \<open>The failures of one candidate in order; how many attempts it gets before the table moves on.\<close>

fun attempts_granted :: "int \<Rightarrow> int \<Rightarrow> FailureKind list \<Rightarrow> int" where
  "attempts_granted n limit [] = n"
| "attempts_granted n limit (kind # kinds) =
     (if action (next_action kind (n + 1) limit) = RETRY_SAME then attempts_granted (n + 1) limit kinds
      else n + 1)"

lemma attempts_granted_bound:
  "n + 1 \<le> max limit 2 \<Longrightarrow> attempts_granted n limit kinds \<le> max limit 2"
proof (induction kinds arbitrary: n)
  case (Cons kind kinds)
  show ?case
  proof (cases "action (next_action kind (n + 1) limit) = RETRY_SAME")
    case True
    then have "n + 1 < limit \<or> n + 1 \<le> 1" by (auto simp: next_action_retry)
    then show ?thesis using True Cons.IH[of "n + 1"] by auto
  qed (use Cons.prems in simp)
qed simp

text \<open>
  Whatever sequence of failures one candidate produces, the table grants it at most
  \<open>max(limit, 2)\<close> attempts: the profile's limit, or the one extra attempt of a protocol
  error. A cancellation is the only failure that stops, and the fallback of a context overflow
  is the only one that asks for a larger context.
\<close>

theorem failure_table:
  "attempts_granted 0 limit kinds \<le> max limit 2 \<and>
   (action (next_action kind n limit) = STOP \<longleftrightarrow> kind = FAILURE_CANCELLED) \<and>
   (larger_context_only (next_action kind n limit) \<longleftrightarrow> kind = CONTEXT_LIMIT) \<and>
   (action (next_action kind n limit) = RETRY_SAME \<longleftrightarrow>
      kind \<in> {TIMEOUT, VALIDATION} \<and> n < limit \<or> kind = PROTOCOL \<and> n \<le> 1)"
  using attempts_granted_bound[of 0 limit kinds]
  by (simp add: next_action_stop next_action_larger next_action_retry)

subsection \<open>The next candidate\<close>

lemma candidate_from_Some:
  "candidate_from served f i = Some j \<longleftrightarrow>
     i \<le> j \<and> j < length served \<and> (case f of None \<Rightarrow> True | Some c \<Rightarrow> served ! j > c) \<and>
     (\<forall>k. i \<le> k \<and> k < j \<longrightarrow> \<not> (case f of None \<Rightarrow> True | Some c \<Rightarrow> served ! k > c))"
proof (induction served f i rule: candidate_from.induct)
  case (1 served f i)
  let ?ok = "\<lambda>k. case f of None \<Rightarrow> True | Some c \<Rightarrow> served ! k > c"
  show ?case
  proof (cases "i < length served \<and> \<not> ?ok i")
    case True
    then have "candidate_from served f i = candidate_from served f (Suc i)"
      by (subst candidate_from.simps) simp
    then show ?thesis using 1 True
      by (auto simp: Suc_le_eq) (metis le_neq_implies_less less_or_eq_imp_le)+
  next
    case False
    then show ?thesis by (subst candidate_from.simps) (auto dest: le_antisym intro: leI)
  qed
qed

lemma candidate_from_None:
  "candidate_from served f i = None \<longleftrightarrow>
     (\<forall>k. i \<le> k \<and> k < length served \<longrightarrow> \<not> (case f of None \<Rightarrow> True | Some c \<Rightarrow> served ! k > c))"
proof (induction served f i rule: candidate_from.induct)
  case (1 served f i)
  show ?case
    by (subst candidate_from.simps)
      (use 1 in \<open>auto simp: Suc_le_eq, metis le_neq_implies_less\<close>)
qed

text \<open>
  The next candidate is the first one after the failed one that qualifies: its index is
  larger and in range, after a context overflow it serves strictly more context than the one
  that failed, no candidate between them qualifies, and no candidate is returned exactly when
  none after the failed one qualifies.
\<close>

theorem next_candidate_first:
  assumes "current < length served"
  shows "(\<forall>j. next_candidate_index served current larger = Inr (Some j) \<longleftrightarrow>
       current < j \<and> j < length served \<and> (larger \<longrightarrow> served ! current < served ! j) \<and>
       (\<forall>k. current < k \<and> k < j \<longrightarrow> larger \<and> served ! k \<le> served ! current)) \<and>
    (next_candidate_index served current larger = Inr None \<longleftrightarrow>
       (\<forall>k. current < k \<and> k < length served \<longrightarrow> larger \<and> served ! k \<le> served ! current))"
  using assms
  by (auto simp: next_candidate_index_def candidate_from_Some candidate_from_None Suc_le_eq
      not_less split: option.splits)

theorem next_candidate_first_witness:
  "next_candidate_index [8, 4, 8, 32] 0 True = Inr (Some 3)"
proof -
  have small: "k = 1 \<or> k = 2" if "0 < k" "k < 3" for k :: nat using that by linarith
  show ?thesis
    using next_candidate_first[of 0 "[8, 4, 8, 32]" True, THEN conjunct1, rule_format, of 3]
    by (auto dest!: small)
qed

subsection \<open>Backoff\<close>

text \<open>
  The backoff before a retry lies between half and one and a half times the exponential
  step, up to the rounding of those two bounds, for any draw of the jitter, and it is never
  negative.
\<close>

theorem backoff_bounds:
  fixes base jitter :: float64 and n :: int
  assumes "0 < base"
  defines "step \<equiv> fl (base * 2 ^ nat (max (n - 1) 0))"
  shows "fl (step / 2) \<le> backoff_seconds base n jitter \<and>
    backoff_seconds base n jitter \<le> fl (step * (3 / 2)) \<and> 0 \<le> backoff_seconds base n jitter"
proof -
  let ?j = "fl (1 / 2 + max (min jitter 1) 0)"
  have "fl (1 / 2) \<le> ?j" and "?j \<le> fl (3 / 2)" by (intro fl_mono; simp)+
  moreover have "fl (3 / 2) = 3 / 2" by code_simp
  ultimately have j: "1 / 2 \<le> ?j" "?j \<le> 3 / 2" by simp_all
  have s: "0 \<le> step" unfolding step_def using assms by (intro fl_nonneg) simp
  have eq: "backoff_seconds base n jitter = fl (step * ?j)"
    using assms by (simp add: backoff_seconds_def Let_def)
  have "step * (1 / 2) \<le> step * ?j" and "step * ?j \<le> step * (3 / 2)"
    using j s by (intro mult_left_mono; simp)+
  then have "fl (step / 2) \<le> fl (step * ?j)" and "fl (step * ?j) \<le> fl (step * (3 / 2))"
    by (intro fl_mono; simp)+
  moreover have "0 \<le> fl (step * ?j)" using s j by (intro fl_nonneg) simp
  ultimately show ?thesis unfolding eq by blast
qed

theorem backoff_bounds_witness:
  "fl (fl (2 * 2 ^ nat (max (3 - 1) 0)) / 2) \<le> backoff_seconds 2 3 (1 / 4) \<and>
   backoff_seconds 2 3 (1 / 4) = 6"
proof -
  have "backoff_seconds 2 3 (1 / 4) = 6" by code_simp
  then show ?thesis using backoff_bounds[of 2 3 "1 / 4"] by simp
qed

end
