(* ===== verification/Authorization.thy ===== *)
theory Authorization
  imports Prelude
begin

section \<open>Principals and cumulative scopes\<close>

text \<open>
  Models \<^verbatim>\<open>src/src/loadcoach/domain/authorization.py\<close>: who is calling, and the one rule the route
  layer and every mutating service apply. Scopes are strings, as in the code, so that a stored
  scope the program does not know is part of the model.
\<close>

definition SCOPES :: "(string, int) dict" where
  "SCOPES = [(''read'', 0), (''write'', 1), (''admin'', 2)]"

datatype principal_source = FromToken | FromLoopback | FromInternal

record Principal =
  principal_name :: string
  scope :: string
  source :: principal_source

definition grants :: "Principal \<Rightarrow> string \<Rightarrow> bool" where
  "grants caller required \<longleftrightarrow>
     dict_get SCOPES (scope caller) (- 1) \<ge> dict_get SCOPES required 99"

definition LOCAL :: Principal where
  "LOCAL = \<lparr>principal_name = ''local'', scope = ''admin'', source = FromInternal\<rparr>"

datatype authorization_error =
    UnknownScope string
  | InsufficientScope string string string

definition authorize :: "Principal option \<Rightarrow> string \<Rightarrow> authorization_error + Principal option" where
  "authorize caller required =
     (if required \<notin> fst ` set SCOPES then Inl (UnknownScope required)
      else (case caller of
              None \<Rightarrow> Inr None
            | Some p \<Rightarrow>
                if grants p required then Inr (Some p)
                else Inl (InsufficientScope required (scope p) (principal_name p))))"

lemma scope_names: "fst ` set SCOPES = {''read'', ''write'', ''admin''}"
  by (simp add: SCOPES_def)

lemma grants_iff:
  "grants p r \<longleftrightarrow>
     r = ''read'' \<and> scope p \<in> {''read'', ''write'', ''admin''} \<or>
     r = ''write'' \<and> scope p \<in> {''write'', ''admin''} \<or>
     r = ''admin'' \<and> scope p = ''admin''"
  by (auto simp: grants_def dict_get_def SCOPES_def)

lemma authorize_Inr:
  "authorize p r = Inr q \<longleftrightarrow>
     q = p \<and> r \<in> {''read'', ''write'', ''admin''} \<and> (\<forall>x. p = Some x \<longrightarrow> grants x r)"
  by (auto simp: authorize_def scope_names split: option.splits)

text \<open>
  The service-layer check is the cumulative rule and nothing else: a principal passes
  exactly when its scope contains the required one (\<open>admin\<close> contains \<open>write\<close>
  contains \<open>read\<close>), so whoever may write may read and whoever may administer may do
  both; a principal with a scope the program does not know is refused everything; a required
  scope that does not exist is an error for every caller, the internal ones included.
\<close>

theorem authorize_cumulative:
  "(authorize (Some p) r = Inr (Some p) \<longleftrightarrow>
      (r, scope p) \<in> {(''read'', ''read''), (''read'', ''write''), (''read'', ''admin''),
        (''write'', ''write''), (''write'', ''admin''), (''admin'', ''admin'')}) \<and>
   (authorize (Some p) ''admin'' = Inr (Some p) \<longrightarrow> authorize (Some p) ''write'' = Inr (Some p)) \<and>
   (authorize (Some p) ''write'' = Inr (Some p) \<longrightarrow> authorize (Some p) ''read'' = Inr (Some p)) \<and>
   (\<forall>q. r \<notin> {''read'', ''write'', ''admin''} \<longrightarrow> authorize q r = Inl (UnknownScope r)) \<and>
   authorize None ''admin'' = Inr None"
  by (auto simp: authorize_Inr grants_iff) (simp add: authorize_def scope_names)

theorem authorize_cumulative_witness:
  "authorize (Some LOCAL) ''admin'' = Inr (Some LOCAL) \<and>
   authorize (Some LOCAL) ''write'' = Inr (Some LOCAL) \<and>
   authorize None ''root'' = Inl (UnknownScope ''root'')"
  using authorize_cumulative[of LOCAL "''admin''"] authorize_cumulative[of LOCAL "''root''"]
  by (auto simp: LOCAL_def)

end
