(* ===== verification/Circuit_Breaker.thy ===== *)
theory Circuit_Breaker
  imports Float64
begin

section \<open>The per-model circuit breaker\<close>

text \<open>
  Models \<^verbatim>\<open>src/src/loadcoach/domain/circuit_breaker.py\<close>: the verdict of one model, its next verdict
  from a window of attempt outcomes (\<open>evaluate\<close>), and the registry \<open>CircuitBreakers\<close>
  with its operations, as explicit state passing over a dictionary of verdicts. The lock makes
  every registry operation atomic, so interleavings are sequences of operations.
  The reason strings are a datatype with one constructor per format string and its arguments.
  Formatting \<open>None\<close> with \<open>:.0%\<close> raises \<open>TypeError\<close>: \<open>evaluate\<close> is fallible.
\<close>

definition DEFAULT_WINDOW_SECONDS :: float64 where "DEFAULT_WINDOW_SECONDS = 600"
definition DEFAULT_MIN_SAMPLES :: int where "DEFAULT_MIN_SAMPLES = 5"
definition DEFAULT_FAILURE_RATE :: float64 where "DEFAULT_FAILURE_RATE = fl (1 / 2)"
definition DEFAULT_COOLDOWN_SECONDS :: float64 where "DEFAULT_COOLDOWN_SECONDS = 300"

datatype BreakerState = CLOSED | OPEN | HALF_OPEN

record AttemptSample =
  sample_at :: instant
  succeeded :: bool

datatype breaker_reason =
    FailedInWindow int int int float64 "instant option"
  | ProbeInFlight
  | OneProbeAllowed
  | ClosedNoSamples
  | ClosedWithRate int int float64

record BreakerVerdict =
  breaker_canonical_id :: string
  breaker_state :: BreakerState
  failure_rate :: "float64 option"
  breaker_samples :: int
  opened_at :: "instant option"
  expires_at :: "instant option"
  breaker_reason :: breaker_reason
  probe_in_flight :: bool
  closed_at :: "instant option"
  probe_started_at :: "instant option"

definition excludes :: "BreakerVerdict \<Rightarrow> bool" where
  "excludes v \<longleftrightarrow> breaker_state v = OPEN \<or> (breaker_state v = HALF_OPEN \<and> probe_in_flight v)"

record breaker_config =
  window_seconds :: float64
  min_samples :: int
  failure_rate_threshold :: float64
  cooldown_seconds :: float64

definition default_config :: breaker_config where
  "default_config = \<lparr>window_seconds = DEFAULT_WINDOW_SECONDS, min_samples = DEFAULT_MIN_SAMPLES,
     failure_rate_threshold = DEFAULT_FAILURE_RATE, cooldown_seconds = DEFAULT_COOLDOWN_SECONDS\<rparr>"

datatype breaker_error = TypeErrorNoneFormat

subsection \<open>Evaluation\<close>

text \<open>The local variables of \<open>evaluate\<close> that its steps assign.\<close>

record breaker_vars =
  v_state :: BreakerState
  v_opened :: "instant option"
  v_expires :: "instant option"
  v_probe :: bool
  v_probe_started :: "instant option"
  v_closed :: "instant option"
  v_recent :: "AttemptSample list"

definition count_failures :: "AttemptSample list \<Rightarrow> int" where
  "count_failures recent = int (length (filter (\<lambda>s. \<not> succeeded s) recent))"

definition rate_of :: "AttemptSample list \<Rightarrow> float64 option" where
  "rate_of recent =
     (if recent = [] then None
      else Some (fl (of_int (count_failures recent) / of_int (int (length recent)))))"

definition evaluate_start :: "breaker_config \<Rightarrow> AttemptSample list \<Rightarrow> instant \<Rightarrow>
    BreakerVerdict option \<Rightarrow> breaker_vars" where
  "evaluate_start cfg samples now previous =
     (let horizon = now - timedelta_seconds (window_seconds cfg);
          closed = (case previous of None \<Rightarrow> None | Some p \<Rightarrow> closed_at p);
          origin = (case closed of None \<Rightarrow> horizon | Some c \<Rightarrow> max horizon c);
          recent = sort_key sample_at (filter (\<lambda>s. sample_at s > origin \<and> sample_at s \<le> now) samples)
      in (case previous of
            None \<Rightarrow> \<lparr>v_state = CLOSED, v_opened = None, v_expires = None, v_probe = False,
                     v_probe_started = None, v_closed = closed, v_recent = recent\<rparr>
          | Some p \<Rightarrow> \<lparr>v_state = breaker_state p, v_opened = opened_at p, v_expires = expires_at p,
                     v_probe = probe_in_flight p, v_probe_started = probe_started_at p,
                     v_closed = closed, v_recent = recent\<rparr>))"

definition evaluate_cooldown :: "instant \<Rightarrow> breaker_vars \<Rightarrow> breaker_vars" where
  "evaluate_cooldown now x =
     (case v_expires x of
        Some e \<Rightarrow>
          if v_state x = OPEN \<and> now \<ge> e
          then x\<lparr>v_state := HALF_OPEN, v_probe := False, v_probe_started := None\<rparr> else x
      | None \<Rightarrow> x)"

definition evaluate_lost_probe :: "breaker_config \<Rightarrow> instant \<Rightarrow> breaker_vars \<Rightarrow> breaker_vars" where
  "evaluate_lost_probe cfg now x =
     (case v_probe_started x of
        Some b \<Rightarrow>
          if v_state x = HALF_OPEN \<and> v_probe x \<and> now \<ge> b + timedelta_seconds (cooldown_seconds cfg)
          then x\<lparr>v_probe := False, v_probe_started := None\<rparr> else x
      | None \<Rightarrow> x)"

definition evaluate_probe :: "breaker_config \<Rightarrow> breaker_vars \<Rightarrow> breaker_vars" where
  "evaluate_probe cfg x =
     (case v_opened x of
        None \<Rightarrow> x
      | Some opened \<Rightarrow>
          if v_state x \<noteq> HALF_OPEN then x
          else (let after = filter (\<lambda>s. sample_at s > opened) (v_recent x) in
            if after = [] then x
            else if succeeded (last after) then
              x\<lparr>v_state := CLOSED, v_closed := Some (sample_at (last after)),
                v_recent := filter (\<lambda>s. sample_at s > sample_at (last after)) (v_recent x),
                v_opened := None, v_expires := None, v_probe := False, v_probe_started := None\<rparr>
            else
              x\<lparr>v_state := OPEN, v_opened := Some (sample_at (last after)),
                v_expires := Some (sample_at (last after) + timedelta_seconds (cooldown_seconds cfg)),
                v_probe := False, v_probe_started := None\<rparr>))"

definition evaluate_open :: "breaker_config \<Rightarrow> breaker_vars \<Rightarrow> breaker_vars" where
  "evaluate_open cfg x =
     (case rate_of (v_recent x) of
        None \<Rightarrow> x
      | Some rate \<Rightarrow>
          if v_state x = CLOSED \<and> int (length (v_recent x)) \<ge> min_samples cfg
             \<and> rate \<ge> failure_rate_threshold cfg
          then x\<lparr>v_state := OPEN, v_opened := Some (sample_at (last (v_recent x))),
                 v_expires := Some (sample_at (last (v_recent x)) + timedelta_seconds (cooldown_seconds cfg)),
                 v_probe := False\<rparr>
          else x)"

definition evaluate_reason :: "breaker_config \<Rightarrow> breaker_vars \<Rightarrow> breaker_error + breaker_reason" where
  "evaluate_reason cfg x =
     (let failures = count_failures (v_recent x); count = int (length (v_recent x)) in
      (case v_state x of
         OPEN \<Rightarrow>
           (case rate_of (v_recent x) of
              None \<Rightarrow> Inl TypeErrorNoneFormat
            | Some rate \<Rightarrow>
                Inr (FailedInWindow failures count (trunc (window_seconds cfg)) rate (v_expires x)))
       | HALF_OPEN \<Rightarrow> Inr (if v_probe x then ProbeInFlight else OneProbeAllowed)
       | CLOSED \<Rightarrow>
           Inr (case rate_of (v_recent x) of
                  None \<Rightarrow> ClosedNoSamples
                | Some rate \<Rightarrow> ClosedWithRate failures count rate)))"

definition evaluate_vars :: "breaker_config \<Rightarrow> AttemptSample list \<Rightarrow> instant \<Rightarrow>
    BreakerVerdict option \<Rightarrow> breaker_vars" where
  "evaluate_vars cfg samples now previous =
     evaluate_open cfg (evaluate_probe cfg (evaluate_lost_probe cfg now
       (evaluate_cooldown now (evaluate_start cfg samples now previous))))"

definition evaluate :: "breaker_config \<Rightarrow> string \<Rightarrow> AttemptSample list \<Rightarrow> instant \<Rightarrow>
    BreakerVerdict option \<Rightarrow> breaker_error + BreakerVerdict" where
  "evaluate cfg canonical_id samples now previous =
     (let x = evaluate_vars cfg samples now previous in
      bind_result (evaluate_reason cfg x) (\<lambda>reason.
        Inr \<lparr>breaker_canonical_id = canonical_id, breaker_state = v_state x,
             failure_rate = rate_of (v_recent x), breaker_samples = int (length (v_recent x)),
             opened_at = v_opened x, expires_at = v_expires x, breaker_reason = reason,
             probe_in_flight = v_probe x, closed_at = v_closed x,
             probe_started_at = v_probe_started x\<rparr>))"

subsection \<open>The registry\<close>

type_synonym breakers = "(string, BreakerVerdict) dict"

text \<open>
  \<open>update\<close> iterates over a set of names, in an order Python does not fix: the loop runs over
  any list \<open>names\<close> that enumerates it. An error in the middle leaves the verdicts assigned
  before it in place.
\<close>

fun update_breakers :: "breaker_config \<Rightarrow> (string, AttemptSample list) dict \<Rightarrow> instant \<Rightarrow>
    string list \<Rightarrow> breakers \<Rightarrow> breakers \<times> breaker_error option" where
  "update_breakers cfg samples_by_model now [] verdicts = (verdicts, None)"
| "update_breakers cfg samples_by_model now (canonical_id # names) verdicts =
     (case evaluate cfg canonical_id (dict_get samples_by_model canonical_id []) now
             (map_of verdicts canonical_id) of
        Inl e \<Rightarrow> (verdicts, Some e)
      | Inr v \<Rightarrow> update_breakers cfg samples_by_model now names (AList.update canonical_id v verdicts))"

definition update_names :: "(string, AttemptSample list) dict \<Rightarrow> breakers \<Rightarrow> string set" where
  "update_names samples_by_model verdicts = fst ` set samples_by_model \<union> fst ` set verdicts"

definition excluded :: "breakers \<Rightarrow> string set" where
  "excluded verdicts = {cid. \<exists>v. map_of verdicts cid = Some v \<and> excludes v}"

definition allow_probe :: "breakers \<Rightarrow> string \<Rightarrow> instant \<Rightarrow> bool \<times> breakers" where
  "allow_probe verdicts canonical_id now =
     (case map_of verdicts canonical_id of
        None \<Rightarrow> (False, verdicts)
      | Some v \<Rightarrow>
          if breaker_state v \<noteq> HALF_OPEN then (False, verdicts)
          else if probe_in_flight v then (False, verdicts)
          else (True, AList.update canonical_id
                  (v\<lparr>probe_in_flight := True, probe_started_at := Some now,
                     breaker_reason := ProbeInFlight\<rparr>) verdicts))"

definition probe_busy :: "breakers \<Rightarrow> string \<Rightarrow> bool" where
  "probe_busy verdicts canonical_id =
     (case map_of verdicts canonical_id of
        None \<Rightarrow> False
      | Some v \<Rightarrow> breaker_state v = HALF_OPEN \<and> probe_in_flight v)"

definition release_probe :: "breakers \<Rightarrow> string \<Rightarrow> bool \<times> breakers" where
  "release_probe verdicts canonical_id =
     (case map_of verdicts canonical_id of
        None \<Rightarrow> (False, verdicts)
      | Some v \<Rightarrow>
          if \<not> probe_in_flight v then (False, verdicts)
          else (True, AList.update canonical_id
                  (v\<lparr>probe_in_flight := False, probe_started_at := None,
                     breaker_reason := OneProbeAllowed\<rparr>) verdicts))"

definition breaker_details :: "breakers \<Rightarrow> breakers" where
  "breaker_details verdicts = filter (\<lambda>(cid, v). excludes v) verdicts"

subsection \<open>Well-formed verdicts\<close>

text \<open>
  The invariant of the state machine: a closed breaker carries no opening and no probe, an open
  or half-open one carries the instant it opened, later than its last closing, and an expiry one
  cool-down after it, and only a half-open one has a probe, with the instant it started.
\<close>

definition state_ok :: "breaker_config \<Rightarrow> BreakerState \<Rightarrow> instant option \<Rightarrow> instant option \<Rightarrow>
    bool \<Rightarrow> instant option \<Rightarrow> instant option \<Rightarrow> bool" where
  "state_ok cfg st opened expires probe started last_closed \<longleftrightarrow>
     (case opened of
        None \<Rightarrow> st = CLOSED \<and> expires = None
      | Some b \<Rightarrow> st \<noteq> CLOSED \<and> expires = Some (b + timedelta_seconds (cooldown_seconds cfg)) \<and>
          (case last_closed of None \<Rightarrow> True | Some c \<Rightarrow> c < b)) \<and>
     (probe \<longrightarrow> st = HALF_OPEN) \<and> (probe \<longleftrightarrow> started \<noteq> None)"

definition breaker_ok :: "breaker_config \<Rightarrow> BreakerVerdict \<Rightarrow> bool" where
  "breaker_ok cfg v \<longleftrightarrow> state_ok cfg (breaker_state v) (opened_at v) (expires_at v)
     (probe_in_flight v) (probe_started_at v) (closed_at v)"

definition vars_ok :: "breaker_config \<Rightarrow> breaker_vars \<Rightarrow> bool" where
  "vars_ok cfg x \<longleftrightarrow> state_ok cfg (v_state x) (v_opened x) (v_expires x) (v_probe x)
     (v_probe_started x) (v_closed x) \<and>
     (\<forall>s \<in> set (v_recent x). case v_closed x of None \<Rightarrow> True | Some c \<Rightarrow> c < sample_at s)"

lemma last_filter_in: "filter P xs \<noteq> [] \<Longrightarrow> last (filter P xs) \<in> set xs \<and> P (last (filter P xs))"
  using last_in_set[of "filter P xs"] by auto

lemma evaluate_start_ok:
  "(\<And>p. previous = Some p \<Longrightarrow> breaker_ok cfg p) \<Longrightarrow> vars_ok cfg (evaluate_start cfg samples now previous)"
  by (auto simp: vars_ok_def evaluate_start_def breaker_ok_def state_ok_def Let_def split: option.splits)

lemma evaluate_cooldown_ok: "vars_ok cfg x \<Longrightarrow> vars_ok cfg (evaluate_cooldown now x)"
  by (auto simp: vars_ok_def evaluate_cooldown_def state_ok_def split: option.splits)

lemma evaluate_lost_probe_ok: "vars_ok cfg x \<Longrightarrow> vars_ok cfg (evaluate_lost_probe cfg now x)"
  by (auto simp: vars_ok_def evaluate_lost_probe_def state_ok_def split: option.splits)

lemma evaluate_probe_ok: "vars_ok cfg x \<Longrightarrow> vars_ok cfg (evaluate_probe cfg x)"
  by (auto simp: vars_ok_def evaluate_probe_def state_ok_def Let_def split: option.splits
      dest!: last_filter_in)

lemma evaluate_open_ok: "vars_ok cfg x \<Longrightarrow> vars_ok cfg (evaluate_open cfg x)"
  by (auto simp: vars_ok_def evaluate_open_def rate_of_def state_ok_def split: option.splits if_splits)

lemma evaluate_vars_ok:
  "(\<And>p. previous = Some p \<Longrightarrow> breaker_ok cfg p) \<Longrightarrow> vars_ok cfg (evaluate_vars cfg samples now previous)"
  unfolding evaluate_vars_def
  by (intro evaluate_open_ok evaluate_probe_ok evaluate_lost_probe_ok evaluate_cooldown_ok
      evaluate_start_ok)

lemma evaluate_Inr:
  "evaluate cfg cid samples now previous = Inr v \<Longrightarrow>
     (let x = evaluate_vars cfg samples now previous in
      breaker_state v = v_state x \<and> opened_at v = v_opened x \<and> expires_at v = v_expires x \<and>
      probe_in_flight v = v_probe x \<and> probe_started_at v = v_probe_started x \<and>
      closed_at v = v_closed x \<and> failure_rate v = rate_of (v_recent x) \<and>
      breaker_samples v = int (length (v_recent x)))"
  by (auto simp: evaluate_def Let_def bind_result_Inr_iff)

lemma evaluate_ok:
  assumes "evaluate cfg cid samples now previous = Inr v"
    and "\<And>p. previous = Some p \<Longrightarrow> breaker_ok cfg p"
  shows "breaker_ok cfg v"
  using evaluate_Inr[OF assms(1)] evaluate_vars_ok[of previous cfg samples now] assms(2)
  by (auto simp: breaker_ok_def vars_ok_def Let_def)

subsection \<open>Registry operations keep the invariant\<close>

definition breakers_ok :: "breaker_config \<Rightarrow> breakers \<Rightarrow> bool" where
  "breakers_ok cfg verdicts \<longleftrightarrow> (\<forall>cid v. map_of verdicts cid = Some v \<longrightarrow> breaker_ok cfg v)"

lemma breakers_ok_update:
  "breakers_ok cfg verdicts \<Longrightarrow> breaker_ok cfg v \<Longrightarrow> breakers_ok cfg (AList.update cid v verdicts)"
  by (auto simp: breakers_ok_def alist.get_put split: if_splits)

lemma update_breakers_ok:
  "breakers_ok cfg verdicts \<Longrightarrow>
   breakers_ok cfg (fst (update_breakers cfg samples_by_model now names verdicts))"
proof (induction names arbitrary: verdicts)
  case (Cons cid names)
  show ?case
  proof (cases "evaluate cfg cid (dict_get samples_by_model cid []) now (map_of verdicts cid)")
    case (Inr v)
    then have "breaker_ok cfg v"
      using Cons.prems by (intro evaluate_ok[OF Inr]) (auto simp: breakers_ok_def)
    then show ?thesis using Inr Cons by (simp add: breakers_ok_update)
  qed (use Cons.prems in simp)
qed simp

lemma breaker_ok_probe:
  "breaker_ok cfg v \<Longrightarrow> breaker_state v = HALF_OPEN \<Longrightarrow>
     breaker_ok cfg (v\<lparr>probe_in_flight := True, probe_started_at := Some now, breaker_reason := r\<rparr>)"
  "breaker_ok cfg v \<Longrightarrow>
     breaker_ok cfg (v\<lparr>probe_in_flight := False, probe_started_at := None, breaker_reason := r\<rparr>)"
  by (auto simp: breaker_ok_def state_ok_def)

lemma allow_probe_ok: "breakers_ok cfg verdicts \<Longrightarrow> breakers_ok cfg (snd (allow_probe verdicts cid now))"
  by (auto simp: allow_probe_def intro!: breakers_ok_update breaker_ok_probe split: option.splits)
    (auto simp: breakers_ok_def)

lemma release_probe_ok: "breakers_ok cfg verdicts \<Longrightarrow> breakers_ok cfg (snd (release_probe verdicts cid))"
  by (auto simp: release_probe_def intro!: breakers_ok_update breaker_ok_probe split: option.splits)
    (auto simp: breakers_ok_def)

text \<open>The registries a process can reach by any interleaving of the operations.\<close>

inductive reachable_breakers :: "breaker_config \<Rightarrow> breakers \<Rightarrow> bool" for cfg where
  start: "reachable_breakers cfg []"
| update: "reachable_breakers cfg b \<Longrightarrow> set names = update_names samples_by_model b \<Longrightarrow>
    reachable_breakers cfg (fst (update_breakers cfg samples_by_model now names b))"
| allow: "reachable_breakers cfg b \<Longrightarrow> reachable_breakers cfg (snd (allow_probe b cid now))"
| release: "reachable_breakers cfg b \<Longrightarrow> reachable_breakers cfg (snd (release_probe b cid))"

lemma reachable_breakers_ok: "reachable_breakers cfg b \<Longrightarrow> breakers_ok cfg b"
  by (induction rule: reachable_breakers.induct)
    (simp_all add: update_breakers_ok allow_probe_ok release_probe_ok, simp add: breakers_ok_def)

text \<open>
  C28. In every registry the process can reach, whatever the interleaving of updates, probes and
  releases and even after a failed update, an open or half-open breaker knows when it opened and
  expires exactly one cool-down later, a closed one has neither, and a probe is in flight only
  on a half-open model, with its starting instant recorded.
\<close>

theorem breakers_invariant:
  assumes "reachable_breakers cfg b" "map_of b cid = Some v"
  shows "(breaker_state v = CLOSED \<longleftrightarrow> opened_at v = None) \<and>
    expires_at v = map_option (\<lambda>t. t + timedelta_seconds (cooldown_seconds cfg)) (opened_at v) \<and>
    (probe_in_flight v \<longrightarrow> breaker_state v = HALF_OPEN) \<and>
    (probe_in_flight v \<longleftrightarrow> probe_started_at v \<noteq> None)"
  using reachable_breakers_ok[OF assms(1)] assms(2)
  by (fastforce simp: breakers_ok_def breaker_ok_def state_ok_def split: option.splits)

subsection \<open>When evaluation fails\<close>

lemma evaluate_error_vars:
  "evaluate cfg cid samples now previous = Inl e \<longleftrightarrow>
     e = TypeErrorNoneFormat \<and> v_state (evaluate_vars cfg samples now previous) = OPEN \<and>
     v_recent (evaluate_vars cfg samples now previous) = []"
  by (cases e)
    (auto simp: evaluate_def Let_def evaluate_reason_def bind_result_def rate_of_def
      split: BreakerState.splits sum.splits option.splits if_splits)

lemma evaluate_open_empty:
  "v_state (evaluate_open cfg x) = OPEN \<and> v_recent (evaluate_open cfg x) = [] \<longleftrightarrow>
   v_state x = OPEN \<and> v_recent x = []"
  by (auto simp: evaluate_open_def rate_of_def split: option.splits if_splits)

lemma evaluate_probe_empty:
  "v_state (evaluate_probe cfg x) = OPEN \<and> v_recent (evaluate_probe cfg x) = [] \<longleftrightarrow>
   v_state x = OPEN \<and> v_recent x = []"
  by (auto simp: evaluate_probe_def Let_def split: option.splits if_splits)

lemma evaluate_lost_probe_empty:
  "v_state (evaluate_lost_probe cfg now x) = v_state x" "v_recent (evaluate_lost_probe cfg now x) = v_recent x"
  by (auto simp: evaluate_lost_probe_def split: option.splits)

lemma evaluate_cooldown_empty:
  "v_recent (evaluate_cooldown now x) = v_recent x"
  "v_state (evaluate_cooldown now x) = OPEN \<longleftrightarrow>
     v_state x = OPEN \<and> (case v_expires x of None \<Rightarrow> True | Some e \<Rightarrow> now < e)"
  by (auto simp: evaluate_cooldown_def split: option.splits)

text \<open>The samples \<open>evaluate\<close> counts: in the window, after the last closing, not in the future.\<close>

definition counted :: "breaker_config \<Rightarrow> instant \<Rightarrow> BreakerVerdict option \<Rightarrow> AttemptSample \<Rightarrow> bool" where
  "counted cfg now previous s \<longleftrightarrow>
     now - timedelta_seconds (window_seconds cfg) < sample_at s \<and> sample_at s \<le> now \<and>
     (case previous of None \<Rightarrow> True
      | Some p \<Rightarrow> (case closed_at p of None \<Rightarrow> True | Some c \<Rightarrow> c < sample_at s))"

lemma evaluate_start_fields [simp]:
  "v_state (evaluate_start cfg samples now (Some p)) = breaker_state p"
  "v_opened (evaluate_start cfg samples now (Some p)) = opened_at p"
  "v_expires (evaluate_start cfg samples now (Some p)) = expires_at p"
  "v_probe (evaluate_start cfg samples now (Some p)) = probe_in_flight p"
  "v_probe_started (evaluate_start cfg samples now (Some p)) = probe_started_at p"
  "v_state (evaluate_start cfg samples now None) = CLOSED"
  "v_opened (evaluate_start cfg samples now None) = None"
  "v_expires (evaluate_start cfg samples now None) = None"
  "v_probe_started (evaluate_start cfg samples now None) = None"
  by (simp_all add: evaluate_start_def Let_def)

lemma evaluate_start_recent:
  "v_recent (evaluate_start cfg samples now previous) = sort_key sample_at (filter (counted cfg now previous) samples)"
  unfolding evaluate_start_def Let_def counted_def
  by (auto split: option.splits intro!: arg_cong[where f = "sort_key sample_at"] filter_cong)

lemma sort_key_Nil_iff: "sort_key f xs = [] \<longleftrightarrow> xs = []"
  by (metis length_0_conv length_sort)

lemma evaluate_error_iff:
  "evaluate cfg cid samples now previous = Inl e \<longleftrightarrow>
     e = TypeErrorNoneFormat \<and> (\<forall>s \<in> set samples. \<not> counted cfg now previous s) \<and>
     (\<exists>p. previous = Some p \<and> breaker_state p = OPEN \<and>
        (case expires_at p of None \<Rightarrow> True | Some x \<Rightarrow> now < x))"
proof -
  have "v_state (evaluate_start cfg samples now previous) = OPEN \<longleftrightarrow>
      (\<exists>p. previous = Some p \<and> breaker_state p = OPEN)"
    "\<And>p. previous = Some p \<Longrightarrow> v_expires (evaluate_start cfg samples now previous) = expires_at p"
    by (auto simp: evaluate_start_def Let_def split: option.splits)
  then show ?thesis
    by (auto simp: evaluate_error_vars evaluate_vars_def evaluate_open_empty evaluate_probe_empty
        evaluate_lost_probe_empty evaluate_cooldown_empty evaluate_start_recent sort_key_Nil_iff
        filter_empty_conv)
qed

text \<open>
  Evaluation fails in exactly one situation: the model's breaker is open, its cool-down has
  not elapsed, and no sample counts any more (the failure rate is then \<open>None\<close> and
  cannot be formatted). A caller that keeps passing the sample that opened the breaker, with a
  window no shorter than the cool-down and a clock that has not stepped back behind the opening,
  always gets a verdict.
\<close>

theorem evaluate_total:
  "(evaluate cfg cid samples now previous = Inl TypeErrorNoneFormat \<longleftrightarrow>
      (\<forall>s \<in> set samples. \<not> counted cfg now previous s) \<and>
      (\<exists>p. previous = Some p \<and> breaker_state p = OPEN \<and>
        (case expires_at p of None \<Rightarrow> True | Some x \<Rightarrow> now < x))) \<and>
   (\<forall>p t s. previous = Some p \<and> breaker_ok cfg p \<and> opened_at p = Some t \<and> t \<le> now \<and>
      s \<in> set samples \<and> sample_at s = t \<and>
      timedelta_seconds (cooldown_seconds cfg) \<le> timedelta_seconds (window_seconds cfg) \<longrightarrow>
      (\<exists>v. evaluate cfg cid samples now previous = Inr v))"
proof -
  have "evaluate cfg cid samples now (Some p) \<noteq> Inl e"
    if "breaker_ok cfg p" "opened_at p = Some t" "t \<le> now" "s \<in> set samples" "sample_at s = t"
      "timedelta_seconds (cooldown_seconds cfg) \<le> timedelta_seconds (window_seconds cfg)" for p t s e
    using that by (auto simp: evaluate_error_iff counted_def breaker_ok_def state_ok_def
        split: option.splits intro!: bexI[of _ s])
  then have total: "\<exists>v. evaluate cfg cid samples now (Some p) = Inr v"
    if "breaker_ok cfg p" "opened_at p = Some t" "t \<le> now" "s \<in> set samples" "sample_at s = t"
      "timedelta_seconds (cooldown_seconds cfg) \<le> timedelta_seconds (window_seconds cfg)" for p t s
    using that by (cases "evaluate cfg cid samples now (Some p)") blast+
  show ?thesis by (intro conjI allI impI) (simp add: evaluate_error_iff, blast intro: total)
qed

definition failing_samples :: "AttemptSample list" where
  "failing_samples = map (\<lambda>t. \<lparr>sample_at = t, succeeded = False\<rparr>) [1, 2, 3, 4, 5]"

definition opened_verdict :: BreakerVerdict where
  "opened_verdict = \<lparr>breaker_canonical_id = ''m'', breaker_state = OPEN, failure_rate = Some 1,
     breaker_samples = 5, opened_at = Some 5, expires_at = Some 300000005,
     breaker_reason = FailedInWindow 5 5 600 1 (Some 300000005), probe_in_flight = False,
     closed_at = None, probe_started_at = None\<rparr>"

lemma opened_verdict_ok: "breaker_ok default_config opened_verdict"
  by (simp add: breaker_ok_def opened_verdict_def state_ok_def default_config_def
      DEFAULT_COOLDOWN_SECONDS_def)

lemma opened_verdict_evaluated: "evaluate default_config ''m'' failing_samples 10 None = Inr opened_verdict"
  by code_simp

theorem breakers_invariant_witness:
  "expires_at opened_verdict =
     map_option (\<lambda>t. t + timedelta_seconds (cooldown_seconds default_config)) (opened_at opened_verdict)"
proof -
  have "reachable_breakers default_config
      (fst (update_breakers default_config [(''m'', failing_samples)] 10 [''m''] []))"
    by (intro reachable_breakers.intros) (simp add: update_names_def)
  then have "reachable_breakers default_config [(''m'', opened_verdict)]"
    by (simp add: dict_get_def opened_verdict_evaluated)
  then show ?thesis by (rule breakers_invariant[THEN conjunct2, THEN conjunct1]) simp
qed

theorem evaluate_total_witness:
  "evaluate default_config ''m'' [] 20 (Some opened_verdict) = Inl TypeErrorNoneFormat \<and>
   (\<exists>v. evaluate default_config ''m'' failing_samples 20 (Some opened_verdict) = Inr v)"
proof
  show "evaluate default_config ''m'' [] 20 (Some opened_verdict) = Inl TypeErrorNoneFormat"
    using evaluate_total[of default_config "''m''" "[]" 20 "Some opened_verdict"]
    by (simp add: opened_verdict_def)
  show "\<exists>v. evaluate default_config ''m'' failing_samples 20 (Some opened_verdict) = Inr v"
    using evaluate_total[of default_config "''m''" failing_samples 20 "Some opened_verdict",
        THEN conjunct2, rule_format, of opened_verdict 5 "\<lparr>sample_at = 5, succeeded = False\<rparr>"]
      opened_verdict_ok
    by (simp add: opened_verdict_def failing_samples_def default_config_def
        DEFAULT_COOLDOWN_SECONDS_def DEFAULT_WINDOW_SECONDS_def)
qed

subsection \<open>When a breaker opens\<close>

lemma rate_of_sort [simp]: "rate_of (sort_key f xs) = rate_of xs"
  by (simp add: rate_of_def count_failures_def sort_key_Nil_iff filter_sort)

lemma evaluate_closed_vars:
  assumes "\<And>p. previous = Some p \<Longrightarrow> breaker_ok cfg p \<and> breaker_state p = CLOSED"
  shows "evaluate_vars cfg samples now previous = evaluate_open cfg (evaluate_start cfg samples now previous)"
    and "v_state (evaluate_start cfg samples now previous) = CLOSED"
proof -
  define x where "x = evaluate_start cfg samples now previous"
  have x: "v_state x = CLOSED" "v_opened x = None" "v_expires x = None" "v_probe_started x = None"
    using assms unfolding x_def
    by (cases previous; fastforce simp: breaker_ok_def state_ok_def split: option.splits)+
  then show "evaluate_vars cfg samples now previous = evaluate_open cfg (evaluate_start cfg samples now previous)"
    by (simp add: evaluate_vars_def evaluate_cooldown_def evaluate_lost_probe_def evaluate_probe_def
        flip: x_def)
  show "v_state (evaluate_start cfg samples now previous) = CLOSED" using x by (simp add: x_def)
qed

text \<open>
  A closed (or unknown) model's breaker opens exactly when enough samples count and their
  failure rate reaches the threshold; samples outside the window, from the future, or from
  before the probe that last closed it count for nothing, and the order of the samples is
  irrelevant.
\<close>

theorem breaker_opens_iff:
  assumes "\<And>p. previous = Some p \<Longrightarrow> breaker_ok cfg p \<and> breaker_state p = CLOSED"
  shows "\<exists>v. evaluate cfg cid samples now previous = Inr v \<and>
    (let recent = filter (counted cfg now previous) samples in
     breaker_state v = (if min_samples cfg \<le> int (length recent) \<and>
       (\<exists>r. rate_of recent = Some r \<and> failure_rate_threshold cfg \<le> r) then OPEN else CLOSED))"
proof -
  obtain v where v: "evaluate cfg cid samples now previous = Inr v"
    using assms by (cases "evaluate cfg cid samples now previous") (force simp: evaluate_error_iff)+
  show ?thesis
    using evaluate_Inr[OF v] v evaluate_closed_vars[OF assms]
    by (auto simp: Let_def evaluate_open_def evaluate_start_recent split: option.splits)
qed

theorem breaker_opens_iff_witness:
  "\<exists>v. evaluate default_config ''m'' failing_samples 10 None = Inr v \<and> breaker_state v = OPEN"
  using breaker_opens_iff[of None default_config "''m''" failing_samples 10]
    opened_verdict_evaluated by (simp add: opened_verdict_def)

subsection \<open>No model is excluded for ever\<close>

text \<open>The instant at which an exclusion ends by itself.\<close>

definition release_at :: "breaker_config \<Rightarrow> BreakerVerdict \<Rightarrow> instant option" where
  "release_at cfg v =
     (if breaker_state v = OPEN then expires_at v
      else map_option (\<lambda>t. t + timedelta_seconds (cooldown_seconds cfg)) (probe_started_at v))"

text \<open>
  An excluded model is not excluded for ever: there is an instant (the end of the cool-down,
  or one cool-down after the probe started) from which, if no attempt newer than the opening has
  been reported, every evaluation succeeds and admits the model again, half-open with one probe
  allowed, however the probe was lost.
\<close>

theorem no_permanent_exclusion:
  assumes "breaker_ok cfg p" "excludes p"
  shows "\<exists>t. release_at cfg p = Some t \<and>
    (\<forall>now samples. t \<le> now \<and>
       (\<forall>s \<in> set samples. counted cfg now (Some p) s \<longrightarrow> (\<exists>b. opened_at p = Some b \<and> sample_at s \<le> b)) \<longrightarrow>
       (\<exists>v. evaluate cfg cid samples now (Some p) = Inr v \<and> breaker_state v = HALF_OPEN \<and>
         \<not> excludes v))"
proof -
  obtain b where b: "opened_at p = Some b" "expires_at p = Some (b + timedelta_seconds (cooldown_seconds cfg))"
    "breaker_state p \<noteq> CLOSED" "probe_in_flight p \<longleftrightarrow> probe_started_at p \<noteq> None"
    "probe_in_flight p \<longrightarrow> breaker_state p = HALF_OPEN"
    using assms by (auto simp: breaker_ok_def state_ok_def excludes_def split: option.splits)
  then obtain t where t: "release_at cfg p = Some t"
    using assms(2) by (auto simp: release_at_def excludes_def)
  moreover have "\<exists>v. evaluate cfg cid samples now (Some p) = Inr v \<and> breaker_state v = HALF_OPEN \<and> \<not> excludes v"
    if now: "t \<le> now" and old: "\<And>s. s \<in> set samples \<Longrightarrow> counted cfg now (Some p) s \<Longrightarrow> sample_at s \<le> b"
    for now samples
  proof -
    define x where "x = evaluate_start cfg samples now (Some p)"
    define y where "y = evaluate_lost_probe cfg now (evaluate_cooldown now x)"
    have none: "filter (\<lambda>s. b < sample_at s) (v_recent x) = []"
      using old by (force simp: x_def evaluate_start_recent filter_empty_conv)
    have y: "v_state y = HALF_OPEN \<and> \<not> v_probe y \<and> v_opened y = Some b \<and> v_recent y = v_recent x"
      using b t now assms(2)
      by (cases "breaker_state p")
        (auto simp: y_def x_def evaluate_cooldown_def evaluate_lost_probe_def release_at_def excludes_def)
    have "evaluate_vars cfg samples now (Some p) = y"
      using y none
      by (simp add: evaluate_vars_def evaluate_probe_def evaluate_open_def Let_def
          flip: x_def y_def split: option.splits)
    with y have "v_state (evaluate_vars cfg samples now (Some p)) = HALF_OPEN \<and>
        \<not> v_probe (evaluate_vars cfg samples now (Some p))" by simp
    moreover from this obtain v where v: "evaluate cfg cid samples now (Some p) = Inr v"
      by (cases "evaluate cfg cid samples now (Some p)") (simp_all add: evaluate_error_vars)
    ultimately show ?thesis
      using evaluate_Inr[OF v] by (auto simp: excludes_def Let_def)
  qed
  ultimately show ?thesis using b(1) by auto
qed

theorem no_permanent_exclusion_witness:
  "\<exists>v. evaluate default_config ''m'' failing_samples 300000005 (Some opened_verdict) = Inr v \<and>
     breaker_state v = HALF_OPEN \<and> \<not> excludes v"
proof -
  have ex: "excludes opened_verdict" by (simp add: excludes_def opened_verdict_def)
  have "release_at default_config opened_verdict = Some 300000005"
    by (simp add: release_at_def opened_verdict_def)
  moreover have "\<forall>s \<in> set failing_samples. \<exists>b. opened_at opened_verdict = Some b \<and> sample_at s \<le> b"
    by (simp add: failing_samples_def opened_verdict_def)
  ultimately show ?thesis
    using no_permanent_exclusion[OF opened_verdict_ok ex, of "''m''"] by auto
qed

subsection \<open>One probe at a time\<close>

datatype probe_op = AllowProbe string instant | ReleaseProbe string

fun probe_step :: "probe_op \<Rightarrow> breakers \<Rightarrow> bool \<times> breakers" where
  "probe_step (AllowProbe cid now) b = allow_probe b cid now"
| "probe_step (ReleaseProbe cid) b = release_probe b cid"

text \<open>The probes granted to a model minus those given back, over a sequence of operations.\<close>

fun probes_out :: "string \<Rightarrow> probe_op list \<Rightarrow> breakers \<Rightarrow> int" where
  "probes_out cid [] b = 0"
| "probes_out cid (x # xs) b =
     (case x of AllowProbe c now \<Rightarrow> of_bool (c = cid \<and> fst (probe_step x b))
      | ReleaseProbe c \<Rightarrow> - of_bool (c = cid \<and> fst (probe_step x b))) +
     probes_out cid xs (snd (probe_step x b))"

fun run_probes :: "probe_op list \<Rightarrow> breakers \<Rightarrow> breakers" where
  "run_probes [] b = b"
| "run_probes (x # xs) b = run_probes xs (snd (probe_step x b))"

definition probe_flag :: "breakers \<Rightarrow> string \<Rightarrow> int" where
  "probe_flag b cid = (case map_of b cid of None \<Rightarrow> 0 | Some v \<Rightarrow> of_bool (probe_in_flight v))"

lemma probe_flag_step:
  "probe_flag (snd (probe_step x b)) cid - probe_flag b cid =
     (case x of AllowProbe c now \<Rightarrow> of_bool (c = cid \<and> fst (probe_step x b))
      | ReleaseProbe c \<Rightarrow> - of_bool (c = cid \<and> fst (probe_step x b)))"
  by (cases x) (auto simp: allow_probe_def release_probe_def probe_flag_def alist.get_put
      split: option.splits)

lemma probes_out_flag: "probes_out cid xs b = probe_flag (run_probes xs b) cid - probe_flag b cid"
proof (induction xs arbitrary: b)
  case (Cons x xs)
  show ?case
    unfolding probes_out.simps run_probes.simps Cons.IH probe_flag_step[symmetric] by simp
qed simp

lemma probe_flag_range: "probe_flag b cid \<in> {0, 1}"
  by (auto simp: probe_flag_def split: option.splits)

text \<open>
  Of a half-open model at most one probe is out at any time: over any interleaving of
  \<open>allow_probe\<close> and \<open>release_probe\<close> calls the probes granted exceed those given back by
  at most one, and by exactly the difference between the registry's own flag after and before.
  Right after a grant the model is busy and excluded, and a second request is refused.
\<close>

theorem single_probe:
  "probes_out cid ops b \<le> 1 \<and>
   probes_out cid ops b = probe_flag (run_probes ops b) cid - probe_flag b cid \<and>
   (fst (allow_probe b cid now) \<longrightarrow>
      probe_busy (snd (allow_probe b cid now)) cid \<and> cid \<in> excluded (snd (allow_probe b cid now)) \<and>
      \<not> fst (allow_probe (snd (allow_probe b cid now)) cid now'))"
proof -
  have "probes_out cid ops b \<le> 1"
    using probe_flag_range[of "run_probes ops b" cid] probe_flag_range[of b cid]
    by (auto simp: probes_out_flag)
  moreover have "probe_busy (snd (allow_probe b cid now)) cid \<and>
      cid \<in> excluded (snd (allow_probe b cid now)) \<and>
      \<not> fst (allow_probe (snd (allow_probe b cid now)) cid now')"
    if granted: "fst (allow_probe b cid now)"
  proof -
    obtain v where "map_of b cid = Some v" "breaker_state v = HALF_OPEN" "\<not> probe_in_flight v"
      using granted by (auto simp: allow_probe_def split: option.splits if_splits)
    then show ?thesis
      by (simp add: allow_probe_def probe_busy_def excluded_def excludes_def alist.get_put)
  qed
  ultimately show ?thesis by (simp add: probes_out_flag)
qed

definition half_open_verdict :: BreakerVerdict where
  "half_open_verdict = opened_verdict\<lparr>breaker_state := HALF_OPEN, breaker_reason := OneProbeAllowed\<rparr>"

theorem single_probe_witness:
  "fst (allow_probe [(''m'', half_open_verdict)] ''m'' 7) \<and>
   \<not> fst (allow_probe (snd (allow_probe [(''m'', half_open_verdict)] ''m'' 7)) ''m'' 8)"
proof -
  have "fst (allow_probe [(''m'', half_open_verdict)] ''m'' 7)"
    by (simp add: allow_probe_def half_open_verdict_def opened_verdict_def)
  then show ?thesis using single_probe[of "''m''" "[]" "[(''m'', half_open_verdict)]" 7 8] by simp
qed

subsection \<open>An update does not depend on the order of the models\<close>

lemma update_breakers_lookup:
  assumes "update_breakers cfg samples_by_model now names b = (b', None)" "distinct names"
  shows "map_of b' cid =
    (if cid \<in> set names
     then Some (projr (evaluate cfg cid (dict_get samples_by_model cid []) now (map_of b cid)))
     else map_of b cid)"
  using assms
proof (induction names arbitrary: b)
  case (Cons c names)
  then obtain v where v: "evaluate cfg c (dict_get samples_by_model c []) now (map_of b c) = Inr v"
    and rest: "update_breakers cfg samples_by_model now names (AList.update c v b) = (b', None)"
    by (auto split: sum.splits)
  show ?case using Cons.IH[OF rest] Cons.prems(2) v by (auto simp: alist.get_put)
qed simp

text \<open>
  The set of names \<open>update\<close> iterates over has no order, and it does not matter: two
  updates that go through the same models in different orders and succeed leave the same verdict
  for every model, and so exclude the same models.
\<close>

theorem update_order_irrelevant:
  assumes "update_breakers cfg samples_by_model now names b = (b1, None)"
    and "update_breakers cfg samples_by_model now names' b = (b2, None)"
    and "distinct names" "distinct names'" "set names = set names'"
  shows "map_of b1 = map_of b2 \<and> excluded b1 = excluded b2"
proof -
  have "map_of b1 = map_of b2"
    using update_breakers_lookup[OF assms(1,3)] update_breakers_lookup[OF assms(2,4)] assms(5)
    by (intro ext) simp
  then show ?thesis by (simp add: excluded_def)
qed

theorem update_order_irrelevant_witness:
  "excluded (fst (update_breakers default_config [(''m'', failing_samples)] 10 [''m'', ''n''] [])) =
   excluded (fst (update_breakers default_config [(''m'', failing_samples)] 10 [''n'', ''m''] []))"
proof -
  have n: "evaluate default_config ''n'' [] 10 None =
      Inr \<lparr>breaker_canonical_id = ''n'', breaker_state = CLOSED, failure_rate = None,
        breaker_samples = 0, opened_at = None, expires_at = None, breaker_reason = ClosedNoSamples,
        probe_in_flight = False, closed_at = None, probe_started_at = None\<rparr>" by code_simp
  show ?thesis
    by (rule update_order_irrelevant[THEN conjunct2, of default_config "[(''m'', failing_samples)]" 10
          "[''m'', ''n'']" "[]" _ "[''n'', ''m'']"])
      (auto simp: n dict_get_def opened_verdict_evaluated)
qed

end
