(* ===== verification/Values.thy ===== *)
theory Values
  imports Float64
begin

section \<open>Python text, JSON values and telemetry snapshots\<close>

text \<open>
  The values the components exchange. Strings are character lists (code points below 256);
  \<open>str\<close> of an int, \<open>repr\<close> of a string, \<open>strip\<close>, \<open>lower\<close>, \<open>join\<close> and the
  fixed-point formats of f-strings are written out. \<open>json\<close> is the value an explanation, an
  event payload or a stored document holds, with Python's rules for truth, \<open>.get\<close> and
  \<open>isinstance\<close> (a \<open>bool\<close> is an \<open>int\<close>). The telemetry snapshot has the fields of
  the SweatMeter package that LoadCoach reads; a reading that is not supported is \<open>None\<close>.
\<close>

subsection \<open>Text\<close>

fun digits :: "nat \<Rightarrow> string" where
  "digits n = (if n < 10 then [char_of (48 + n)] else digits (n div 10) @ [char_of (48 + n mod 10)])"

declare digits.simps [simp del]

definition str_int :: "int \<Rightarrow> string" where
  "str_int i = (if i < 0 then ''-'' @ digits (nat (- i)) else digits (nat i))"

definition str_bool :: "bool \<Rightarrow> string" where
  "str_bool b = (if b then ''True'' else ''False'')"

definition hex_digit :: "nat \<Rightarrow> char" where
  "hex_digit n = (if n < 10 then char_of (48 + n) else char_of (87 + n))"

text \<open>\<open>repr\<close> of a string: quoted with \<open>'\<close> unless it holds one and no double quote.\<close>

definition repr_char :: "char \<Rightarrow> char \<Rightarrow> string" where
  "repr_char quote c =
     (let n = of_char c :: nat in
      if c = quote \<or> n = 92 then [char_of (92 :: nat), c]
      else if n = 9 then [char_of (92 :: nat), CHR ''t'']
      else if n = 10 then [char_of (92 :: nat), CHR ''n'']
      else if n = 13 then [char_of (92 :: nat), CHR ''r'']
      else if n < 32 \<or> (127 \<le> n \<and> n \<le> 160) \<or> n = 173
        then [char_of (92 :: nat), CHR ''x'', hex_digit (n div 16), hex_digit (n mod 16)]
      else [c])"

definition repr_str :: "string \<Rightarrow> string" where
  "repr_str s =
     (let quote = (if char_of (39 :: nat) \<in> set s \<and> char_of (34 :: nat) \<notin> set s
                   then char_of (34 :: nat) else char_of (39 :: nat))
      in [quote] @ concat (map (repr_char quote) s) @ [quote])"

definition repr_opt_str :: "string option \<Rightarrow> string" where
  "repr_opt_str x = (case x of None \<Rightarrow> ''None'' | Some s \<Rightarrow> repr_str s)"

definition str_opt :: "string option \<Rightarrow> string" where
  "str_opt x = (case x of None \<Rightarrow> ''None'' | Some s \<Rightarrow> s)"

text \<open>\<open>f"{x:.kf}"\<close>: the exact value rounded half to even at \<open>k\<close> decimals.\<close>

fun pad_left :: "nat \<Rightarrow> string \<Rightarrow> string" where
  "pad_left k s = replicate (k - length s) (CHR ''0'') @ s"

definition fmt_fixed :: "nat \<Rightarrow> float64 \<Rightarrow> string" where
  "fmt_fixed k x =
     (let n = nat (round_half_even (\<bar>x\<bar> * 10 ^ k));
          s = pad_left (Suc k) (digits n);
          body = (if k = 0 then s else take (length s - k) s @ ''.'' @ drop (length s - k) s)
      in if x < 0 then ''-'' @ body else body)"

definition fmt_percent :: "nat \<Rightarrow> float64 \<Rightarrow> string" where
  "fmt_percent k x = fmt_fixed k (fl (x * 100)) @ ''%''"

definition is_space :: "char \<Rightarrow> bool" where
  "is_space c \<longleftrightarrow> (let n = of_char c :: nat in
     (9 \<le> n \<and> n \<le> 13) \<or> (28 \<le> n \<and> n \<le> 32) \<or> n = 133 \<or> n = 160)"

definition strip :: "string \<Rightarrow> string" where
  "strip s = rev (dropWhile is_space (rev (dropWhile is_space s)))"

definition lower_char :: "char \<Rightarrow> char" where
  "lower_char c =
     (let n = of_char c :: nat in
      if (65 \<le> n \<and> n \<le> 90) \<or> (192 \<le> n \<and> n \<le> 222 \<and> n \<noteq> 215) then char_of (n + 32) else c)"

definition lower :: "string \<Rightarrow> string" where
  "lower s = map lower_char s"

fun join :: "string \<Rightarrow> string list \<Rightarrow> string" where
  "join sep [] = ''''"
| "join sep [s] = s"
| "join sep (s # t # ss) = s @ sep @ join sep (t # ss)"

text \<open>\<open>dict.fromkeys(xs)\<close>: the elements without repetitions, in order of first occurrence.\<close>

definition fromkeys :: "'a list \<Rightarrow> 'a list" where
  "fromkeys xs = rev (remdups (rev xs))"

lemma set_fromkeys [simp]: "set (fromkeys xs) = set xs"
  by (simp add: fromkeys_def)

lemma distinct_fromkeys [simp]: "distinct (fromkeys xs)"
  by (simp add: fromkeys_def)

lemma digits_inj: "digits m = digits n \<longleftrightarrow> m = n"
proof -
  have c: "(char_of (48 + i) = char_of (48 + j)) = (i = j)" if "i < 10" "j < 10" for i j :: nat
    using that by (auto simp: char_of_eq_iff take_bit_nat_eq_self)
  show ?thesis
  proof (induction m arbitrary: n rule: digits.induct)
    case (1 m)
    have ne: "digits k \<noteq> []" for k by (subst digits.simps) simp
    show ?case
    proof (cases "m < 10 \<or> n < 10")
      case True
      then show ?thesis using ne ne[symmetric]
        by (subst (1 2) digits.simps) (auto simp: c)
    next
      case False
      then have "digits m = digits n \<longleftrightarrow> m div 10 = n div 10 \<and> m mod 10 = n mod 10"
        using 1[of "n div 10"] by (subst (1 2) digits.simps) (auto simp: c)
      then show ?thesis by (metis div_mult_mod_eq)
    qed
  qed
qed

lemma digits_no_minus: "hd (digits n) \<noteq> CHR ''-'' \<and> digits n \<noteq> []"
proof (induction n rule: digits.induct)
  case (1 n)
  have "char_of (48 + n) \<noteq> CHR ''-''" if "n < 10"
    using that by (auto simp: char_of_eq_iff take_bit_nat_eq_self)
  then show ?case using 1 by (subst (1 2) digits.simps) auto
qed

lemma str_int_inj [simp]: "str_int i = str_int j \<longleftrightarrow> i = j"
proof -
  have ne: "CHR ''-'' # xs \<noteq> digits n" for xs n using digits_no_minus[of n] by (metis list.sel(1))
  consider "i < 0" "j < 0" | "i < 0" "0 \<le> j" | "0 \<le> i" "j < 0" | "0 \<le> i" "0 \<le> j" by linarith
  then show ?thesis
    by cases (simp_all add: str_int_def digits_inj ne ne[symmetric] eq_nat_nat_iff)
qed

subsection \<open>JSON values\<close>

datatype json = JNull | JBool bool | JInt int | JFloat float64 | JStr string
  | is_JList: JList "json list" | is_JObj: JObj "(string \<times> json) list"

fun json_true :: "json \<Rightarrow> bool" where
  "json_true JNull = False"
| "json_true (JBool b) = b"
| "json_true (JInt i) = (i \<noteq> 0)"
| "json_true (JFloat x) = (x \<noteq> 0)"
| "json_true (JStr s) = (s \<noteq> [])"
| "json_true (JList xs) = (xs \<noteq> [])"
| "json_true (JObj d) = (d \<noteq> [])"

text \<open>\<open>mapping.get(key)\<close>, \<open>None\<close> when absent.\<close>

definition json_get :: "(string \<times> json) list \<Rightarrow> string \<Rightarrow> json" where
  "json_get d k = (case map_of d k of None \<Rightarrow> JNull | Some v \<Rightarrow> v)"

text \<open>\<open>isinstance(v, int)\<close> and the integer, \<open>isinstance(v, str)\<close> and the string.\<close>

fun as_int :: "json \<Rightarrow> int option" where
  "as_int (JInt i) = Some i"
| "as_int (JBool b) = Some (of_bool b)"
| "as_int _ = None"

fun as_str :: "json \<Rightarrow> string option" where
  "as_str (JStr s) = Some s"
| "as_str _ = None"

definition of_opt_int :: "int option \<Rightarrow> json" where
  "of_opt_int x = (case x of None \<Rightarrow> JNull | Some i \<Rightarrow> JInt i)"

definition of_opt_str :: "string option \<Rightarrow> json" where
  "of_opt_str x = (case x of None \<Rightarrow> JNull | Some s \<Rightarrow> JStr s)"

definition of_opt_float :: "float64 option \<Rightarrow> json" where
  "of_opt_float x = (case x of None \<Rightarrow> JNull | Some r \<Rightarrow> JFloat r)"

lemma as_int_of_opt_int [simp]: "as_int (of_opt_int x) = x"
  by (cases x) (simp_all add: of_opt_int_def)

lemma as_str_of_opt_str [simp]: "as_str (of_opt_str x) = x"
  by (cases x) (simp_all add: of_opt_str_def)

subsection \<open>Telemetry\<close>

record gpu_reading =
  gpu_index :: int
  vram_used_bytes :: "int option"
  vram_total_bytes :: "int option"

record telemetry_snapshot =
  gpus :: "gpu_reading list"
  ram_available_bytes :: "int option"

subsection \<open>Equality of values, dates\<close>

text \<open>\<open>==\<close> on JSON values: numbers compare by value whatever their type, dictionaries by content.\<close>

fun num_of :: "json \<Rightarrow> rat option" where
  "num_of (JBool b) = Some (of_bool b)"
| "num_of (JInt i) = Some (of_int i)"
| "num_of (JFloat x) = Some x"
| "num_of _ = None"

lemma size_json_mem [termination_simp]:
  "x \<in> set xs \<Longrightarrow> size x < Suc (size_list size xs)"
  "(k, x) \<in> set d \<Longrightarrow> size x < Suc (size_list (size_prod (\<lambda>_. 0) size) d)"
  "(x, y) \<in> set (zip xs ys) \<Longrightarrow> size x < Suc (size_list size xs)"
  using size_list_estimation'[of x xs "size x" size]
    size_list_estimation'[of "(k, x)" d "size x" "size_prod (\<lambda>_. 0) size"] set_zip_leftD[of x y xs ys]
  by (auto simp: le_imp_less_Suc)

function py_eq :: "json \<Rightarrow> json \<Rightarrow> bool" where
  "py_eq v w =
     (case (num_of v, num_of w) of
        (Some x, Some y) \<Rightarrow> x = y
      | (None, None) \<Rightarrow>
          (case (v, w) of
             (JNull, JNull) \<Rightarrow> True
           | (JStr s, JStr t) \<Rightarrow> s = t
           | (JList xs, JList ys) \<Rightarrow>
               length xs = length ys \<and> (\<forall>(x, y) \<in> set (zip xs ys). py_eq x y)
           | (JObj d, JObj e) \<Rightarrow>
               length d = length e \<and>
               (\<forall>(k, x) \<in> set d. case map_of e k of None \<Rightarrow> False | Some y \<Rightarrow> py_eq x y)
           | _ \<Rightarrow> False)
      | _ \<Rightarrow> False)"
  by pat_completeness auto

termination
  by (relation "measure (\<lambda>(v, w). size v)") (auto simp: size_json_mem)

declare py_eq.simps [simp del]

text \<open>\<open>instant.date().isoformat()\<close>: the civil date of an instant, in UTC.\<close>

definition iso_date :: "instant \<Rightarrow> string" where
  "iso_date t =
     (let z = t div 86400000000 + 719468;
          era = z div 146097;
          doe = z mod 146097;
          yoe = (doe - doe div 1460 + doe div 36524 - doe div 146096) div 365;
          doy = doe - (365 * yoe + yoe div 4 - yoe div 100);
          mp = (5 * doy + 2) div 153;
          d = doy - (153 * mp + 2) div 5 + 1;
          m = (if mp < 10 then mp + 3 else mp - 9);
          y = yoe + era * 400 + (if m \<le> 2 then 1 else 0)
      in pad_left 4 (str_int y) @ ''-'' @ pad_left 2 (str_int m) @ ''-'' @ pad_left 2 (str_int d))"

text \<open>\<open>s.partition(".")\<close>, as the text before the first dot and, if there is one, the text after.\<close>

definition partition_dot :: "string \<Rightarrow> string \<times> string option" where
  "partition_dot s =
     (let before = takeWhile (\<lambda>c. c \<noteq> CHR ''.'') s in
      (before, if length before < length s then Some (drop (Suc (length before)) s) else None))"

fun split_dot :: "string \<Rightarrow> string list" where
  "split_dot [] = [[]]"
| "split_dot (c # s) =
     (if c = CHR ''.'' then [] # split_dot s
      else (case split_dot s of [] \<Rightarrow> [[c]] | p # ps \<Rightarrow> (c # p) # ps))"

lemma split_dot_ne [simp]: "split_dot s \<noteq> []"
  by (induction s) (auto split: list.splits)

end
