(* ===== verification/Admission.thy ===== *)
theory Admission
  imports Values
begin

section \<open>Admission around the VRAM estimator\<close>

text \<open>
  Models \<^verbatim>\<open>src/src/loadcoach/domain/admission.py\<close>: reservations per device, the snapshot admission
  evaluates against, the choice between deferring and failing a job that routing could not
  place, and the check that re-queues a deferred job. The rejected entries of an explanation are
  JSON mappings read with \<open>.get\<close>; a \<open>detail\<close> that is neither empty nor a mapping raises
  \<open>AttributeError\<close>. \<open>str_other\<close> is \<open>str\<close> of a value that is not a string.
\<close>

definition RESOURCE_REJECTION_REASONS :: "string set" where
  "RESOURCE_REJECTION_REASONS = {''insufficient_vram'', ''insufficient_ram''}"

record Reservation =
  reservation_job_id :: string
  reservation_gpu_index :: int
  reservation_bytes :: int

definition reserved_bytes_by_device :: "Reservation list \<Rightarrow> (int, int) dict" where
  "reserved_bytes_by_device reservations =
     add_totals reservation_gpu_index (\<lambda>r. max (reservation_bytes r) 0) reservations"

definition adjust_gpu :: "(int, int) dict \<Rightarrow> (int, int) dict \<Rightarrow> gpu_reading \<Rightarrow> gpu_reading" where
  "adjust_gpu reserved evictable gpu =
     (case (vram_used_bytes gpu, vram_total_bytes gpu) of
        (Some used, Some capacity) \<Rightarrow>
          (let adjusted = used + dict_get reserved (gpu_index gpu) 0 - dict_get evictable (gpu_index gpu) 0
           in gpu\<lparr>vram_used_bytes := Some (min (max adjusted 0) capacity)\<rparr>)
      | _ \<Rightarrow> gpu\<lparr>vram_used_bytes := None\<rparr>)"

definition adjust_snapshot :: "telemetry_snapshot option \<Rightarrow> (int, int) dict \<Rightarrow> (int, int) dict option \<Rightarrow>
    telemetry_snapshot option" where
  "adjust_snapshot snapshot reserved evictable =
     (case snapshot of
        None \<Rightarrow> None
      | Some s \<Rightarrow>
          Some (s\<lparr>gpus := map (adjust_gpu reserved (case evictable of None \<Rightarrow> [] | Some e \<Rightarrow> e)) (gpus s)\<rparr>))"

record AdmissionVerdict =
  defer_job :: bool
  verdict_required_bytes :: "int option"
  verdict_headroom_bytes :: "int option"
  verdict_free_bytes_by_gpu :: "(string, int option) dict"
  unknown_reasons :: "string list"
  verdict_candidates :: "string list"
  probe_candidates :: "string list"

definition verdict_json :: "AdmissionVerdict \<Rightarrow> (string \<times> json) list" where
  "verdict_json v =
     [(''required_bytes'', of_opt_int (verdict_required_bytes v)),
      (''headroom_bytes'', of_opt_int (verdict_headroom_bytes v)),
      (''free_bytes_by_gpu'', JObj (map (\<lambda>(k, x). (k, of_opt_int x)) (verdict_free_bytes_by_gpu v))),
      (''unknown_reasons'', JList (map JStr (unknown_reasons v))),
      (''candidates'', JList (map JStr (verdict_candidates v))),
      (''probe_candidates'', JList (map JStr (probe_candidates v)))]"

subsection \<open>Defer or fail\<close>

datatype admission_error = AttributeErrorGet | TypeErrorUnhashable

text \<open>\<open>x or {}\<close> followed by \<open>.get\<close> calls.\<close>

definition or_empty :: "json \<Rightarrow> json" where
  "or_empty v = (if json_true v then v else JObj [])"

definition str_of :: "(json \<Rightarrow> string) \<Rightarrow> json \<Rightarrow> string" where
  "str_of str_other v = (case v of JStr s \<Rightarrow> s | _ \<Rightarrow> str_other v)"

text \<open>The accumulators of the loop.\<close>

record rejection_scan =
  scan_required :: "int option"
  scan_headroom :: "int option"
  scan_free :: "(string, int option) dict"
  scan_unknown :: "string list"
  scan_candidates :: "string list"
  scan_probe :: "string list"

definition scan_start :: rejection_scan where
  "scan_start = \<lparr>scan_required = None, scan_headroom = None, scan_free = [], scan_unknown = [],
     scan_candidates = [], scan_probe = []\<rparr>"

definition is_probe_in_flight :: "json \<Rightarrow> bool" where
  "is_probe_in_flight detail =
     (case detail of
        JObj d \<Rightarrow> json_get d ''state'' = JStr ''half_open'' \<and> json_get d ''probe_in_flight'' = JBool True
      | _ \<Rightarrow> False)"

definition scan_resource_detail :: "(string \<times> json) list \<Rightarrow> rejection_scan \<Rightarrow> rejection_scan" where
  "scan_resource_detail d x =
     (let x1 = (case as_int (json_get d ''estimated_bytes'') of
                  None \<Rightarrow> x
                | Some e \<Rightarrow> x\<lparr>scan_required :=
                    Some (case scan_required x of None \<Rightarrow> e | Some r \<Rightarrow> min r e)\<rparr>);
          x2 = (case or_empty (json_get d ''estimate'') of
                  JObj estimate \<Rightarrow>
                    (case as_str (json_get estimate ''unknown_reason'') of
                       None \<Rightarrow> x1 | Some reason \<Rightarrow> x1\<lparr>scan_unknown := scan_unknown x1 @ [reason]\<rparr>)
                | _ \<Rightarrow> x1);
          x3 = (case as_int (json_get d ''headroom_bytes'') of
                  None \<Rightarrow> x2 | Some h \<Rightarrow> x2\<lparr>scan_headroom := Some h\<rparr>)
      in (case json_get d ''free_bytes_by_gpu'' of
            JObj by_gpu \<Rightarrow>
              x3\<lparr>scan_free := fold (\<lambda>(index, v). AList.update index (as_int v)) by_gpu (scan_free x3)\<rparr>
          | _ \<Rightarrow> x3))"

definition scan_item :: "(json \<Rightarrow> string) \<Rightarrow> (string \<times> json) list \<Rightarrow> rejection_scan \<Rightarrow>
    admission_error + rejection_scan" where
  "scan_item str_other item x =
     (let reason = json_get item ''reason''; detail = or_empty (json_get item ''detail'');
          cid = str_of str_other (json_get item ''canonical_id'') in
      if reason = JStr ''recently_failing'' then
        Inr (if is_probe_in_flight detail then x\<lparr>scan_probe := scan_probe x @ [cid]\<rparr> else x)
      else if is_JList reason \<or> is_JObj reason then Inl TypeErrorUnhashable
      else if reason \<notin> JStr ` RESOURCE_REJECTION_REASONS then Inr x
      else (case detail of
              JObj d \<Rightarrow> Inr (scan_resource_detail d (x\<lparr>scan_candidates := scan_candidates x @ [cid]\<rparr>))
            | _ \<Rightarrow> Inl AttributeErrorGet))"

fun scan_rejections :: "(json \<Rightarrow> string) \<Rightarrow> (string \<times> json) list list \<Rightarrow> rejection_scan \<Rightarrow>
    admission_error + rejection_scan" where
  "scan_rejections str_other [] x = Inr x"
| "scan_rejections str_other (item # items) x =
     bind_result (scan_item str_other item x) (scan_rejections str_other items)"

definition classify_rejections :: "(json \<Rightarrow> string) \<Rightarrow> (string \<times> json) list list \<Rightarrow>
    admission_error + AdmissionVerdict" where
  "classify_rejections str_other rejected =
     bind_result (scan_rejections str_other rejected scan_start) (\<lambda>x.
       Inr \<lparr>defer_job = (scan_candidates x \<noteq> [] \<or> scan_probe x \<noteq> []),
            verdict_required_bytes = scan_required x,
            verdict_headroom_bytes = scan_headroom x,
            verdict_free_bytes_by_gpu = scan_free x,
            unknown_reasons = fromkeys (scan_unknown x),
            verdict_candidates = scan_candidates x,
            probe_candidates = fromkeys (scan_probe x)\<rparr>)"

subsection \<open>Re-evaluation of a deferred job\<close>

definition waiting_job_can_proceed :: "int option \<Rightarrow> int \<Rightarrow> (int, int option) dict \<Rightarrow> int set \<Rightarrow> bool" where
  "waiting_job_can_proceed required_bytes headroom_bytes free_bytes_by_gpu resident_on =
     (if resident_on \<inter> fst ` set free_bytes_by_gpu \<noteq> {} then True
      else (case required_bytes of
              None \<Rightarrow> False
            | Some required \<Rightarrow>
                list_ex (\<lambda>(_, free). case free of None \<Rightarrow> False | Some f \<Rightarrow> required + headroom_bytes \<le> f)
                  free_bytes_by_gpu))"

subsection \<open>Per-device accounting\<close>

lemma reserved_on_device:
  "dict_get (reserved_bytes_by_device rs) i 0 =
     sum_list (map (\<lambda>r. max (reservation_bytes r) 0) (filter (\<lambda>r. reservation_gpu_index r = i) rs))"
  by (simp add: reserved_bytes_by_device_def dict_get_add_totals)

text \<open>
  The snapshot admission sees has the same devices, and on each of them the used memory is
  the reported one plus exactly the reservations of in-flight jobs on that device, minus what is
  evictable on it, kept between 0 and the device's total; reservations of other devices never
  enter. A device that did not report both numbers stays unreported.
\<close>

theorem adjust_snapshot_per_device:
  assumes "adjust_snapshot (Some s) (reserved_bytes_by_device rs) evictable = Some s'"
  shows "map gpu_index (gpus s') = map gpu_index (gpus s) \<and>
    (\<forall>k < length (gpus s).
       (case (vram_used_bytes (gpus s ! k), vram_total_bytes (gpus s ! k)) of
          (Some u, Some cap) \<Rightarrow>
            vram_used_bytes (gpus s' ! k) = Some (min (max (u
              + (\<Sum>r \<leftarrow> filter (\<lambda>r. reservation_gpu_index r = gpu_index (gpus s ! k)) rs.
                   max (reservation_bytes r) 0)
              - (case evictable of None \<Rightarrow> 0 | Some e \<Rightarrow> dict_get e (gpu_index (gpus s ! k)) 0)) 0) cap) \<and>
            vram_total_bytes (gpus s' ! k) = Some cap
        | _ \<Rightarrow> vram_used_bytes (gpus s' ! k) = None))"
proof -
  have idx: "gpu_index (adjust_gpu r e g) = gpu_index g" for r e g
    by (auto simp: adjust_gpu_def Let_def split: option.splits)
  have s': "gpus s' = map (adjust_gpu (reserved_bytes_by_device rs) (case evictable of None \<Rightarrow> [] | Some e \<Rightarrow> e)) (gpus s)"
    using assms by (auto simp: adjust_snapshot_def)

  show ?thesis unfolding s'
    by (simp add: idx comp_def)
      (auto simp: adjust_gpu_def Let_def dict_get_def[of "[]"] reserved_on_device split: option.splits)
qed

definition two_gpus :: telemetry_snapshot where
  "two_gpus = \<lparr>gpus = [\<lparr>gpu_index = 0, vram_used_bytes = Some 10, vram_total_bytes = Some 24\<rparr>,
     \<lparr>gpu_index = 1, vram_used_bytes = Some 3, vram_total_bytes = Some 8\<rparr>], ram_available_bytes = None\<rparr>"

theorem adjust_snapshot_per_device_witness:
  "vram_used_bytes (gpus (the (adjust_snapshot (Some two_gpus) (reserved_bytes_by_device
     [\<lparr>reservation_job_id = ''a'', reservation_gpu_index = 0, reservation_bytes = 6\<rparr>,
      \<lparr>reservation_job_id = ''b'', reservation_gpu_index = 0, reservation_bytes = - 2\<rparr>,
      \<lparr>reservation_job_id = ''c'', reservation_gpu_index = 1, reservation_bytes = 9\<rparr>]) None)) ! 0) = Some 16"
  (is "vram_used_bytes (gpus (the (adjust_snapshot _ (reserved_bytes_by_device ?rs) None)) ! 0) = _")
proof -
  obtain s' where "adjust_snapshot (Some two_gpus) (reserved_bytes_by_device ?rs) None = Some s'"
    by (simp add: adjust_snapshot_def)
  then show ?thesis
    using adjust_snapshot_per_device[of two_gpus ?rs None s', THEN conjunct2, rule_format, of 0]
    by (simp add: two_gpus_def)
qed

subsection \<open>The verdict\<close>

definition resource_item :: "(string \<times> json) list \<Rightarrow> bool" where
  "resource_item item \<longleftrightarrow> json_get item ''reason'' \<in> JStr ` RESOURCE_REJECTION_REASONS"

definition probe_item :: "(string \<times> json) list \<Rightarrow> bool" where
  "probe_item item \<longleftrightarrow> json_get item ''reason'' = JStr ''recently_failing'' \<and>
     is_probe_in_flight (or_empty (json_get item ''detail''))"

definition item_estimate :: "(string \<times> json) list \<Rightarrow> int option" where
  "item_estimate item =
     (case or_empty (json_get item ''detail'') of
        JObj d \<Rightarrow> as_int (json_get d ''estimated_bytes'') | _ \<Rightarrow> None)"

definition estimates :: "(string \<times> json) list list \<Rightarrow> int list" where
  "estimates items = List.map_filter item_estimate (filter resource_item items)"

lemma scan_resource_detail_fields [simp]:
  "scan_candidates (scan_resource_detail d x) = scan_candidates x"
  "scan_probe (scan_resource_detail d x) = scan_probe x"
  "scan_required (scan_resource_detail d x) =
     (case as_int (json_get d ''estimated_bytes'') of None \<Rightarrow> scan_required x
      | Some e \<Rightarrow> Some (case scan_required x of None \<Rightarrow> e | Some r \<Rightarrow> min r e))"
  by (simp_all add: scan_resource_detail_def Let_def split: option.splits json.splits)

lemma recently_failing_not_resource [simp]: "''recently_failing'' \<notin> RESOURCE_REJECTION_REASONS"
  by (simp add: RESOURCE_REJECTION_REASONS_def)

lemma resource_probe_disjoint: "resource_item item \<Longrightarrow> \<not> probe_item item"
  by (auto simp: resource_item_def probe_item_def RESOURCE_REJECTION_REASONS_def)

lemma scan_item_fields:
  assumes "scan_item str_other item x = Inr y"
  shows "scan_candidates y = scan_candidates x @
      (if resource_item item then [str_of str_other (json_get item ''canonical_id'')] else [])"
    and "scan_probe y = scan_probe x @
      (if probe_item item then [str_of str_other (json_get item ''canonical_id'')] else [])"
    and "scan_required y =
      (if resource_item item
       then (case item_estimate item of None \<Rightarrow> scan_required x
             | Some e \<Rightarrow> Some (case scan_required x of None \<Rightarrow> e | Some r \<Rightarrow> min r e))
       else scan_required x)"
  using assms resource_probe_disjoint[of item]
  by (auto simp: scan_item_def Let_def resource_item_def probe_item_def item_estimate_def
      split: if_splits json.splits option.splits)

lemma scan_rejections_fields:
  "scan_rejections str_other items x = Inr y \<Longrightarrow>
   scan_candidates y = scan_candidates x @
     map (\<lambda>i. str_of str_other (json_get i ''canonical_id'')) (filter resource_item items) \<and>
   scan_probe y = scan_probe x @
     map (\<lambda>i. str_of str_other (json_get i ''canonical_id'')) (filter probe_item items) \<and>
   scan_required y =
     (case scan_required x of
        None \<Rightarrow> (case estimates items of [] \<Rightarrow> None | e # es \<Rightarrow> Some (foldl min e es))
      | Some r \<Rightarrow> Some (foldl min r (estimates items)))"
proof (induction items arbitrary: x)
  case Nil
  then show ?case by (auto simp: estimates_def List.map_filter_simps split: option.splits)
next
  case (Cons item items)
  then obtain z where z: "scan_item str_other item x = Inr z" "scan_rejections str_other items z = Inr y"
    by (auto simp: bind_result_Inr_iff)
  show ?case
    using Cons.IH[OF z(2)] scan_item_fields[OF z(1)]
    by (auto simp: estimates_def List.map_filter_simps split: option.splits list.splits)
qed

lemma foldl_min_Min: "foldl min (a :: 'b :: linorder) xs = Min (set (a # xs))"
proof (induction xs arbitrary: a)
  case (Cons x xs)
  show ?case using Cons.IH[of "min a x"] by (cases "xs = []") (simp_all add: Min_insert ac_simps)
qed simp

text \<open>
  A job that routing could not place is deferred exactly when at least one rejection is
  resource-shaped or is a half-open breaker whose probe is in flight; the recorded requirement
  is the smallest estimate among the resource-shaped rejections, and it is unknown exactly when
  none of them has one.
\<close>

theorem classify_rejections_verdict:
  assumes "classify_rejections str_other items = Inr v"
  shows "(defer_job v \<longleftrightarrow> (\<exists>i \<in> set items. resource_item i \<or> probe_item i)) \<and>
    verdict_required_bytes v =
      (if estimates items = [] then None else Some (Min (set (estimates items)))) \<and>
    set (probe_candidates v) =
      (\<lambda>i. str_of str_other (json_get i ''canonical_id'')) ` {i \<in> set items. probe_item i} \<and>
    length (verdict_candidates v) = length (filter resource_item items)"
proof -
  obtain y where y: "scan_rejections str_other items scan_start = Inr y"
    and v: "defer_job v \<longleftrightarrow> scan_candidates y \<noteq> [] \<or> scan_probe y \<noteq> []"
    "verdict_required_bytes v = scan_required y" "probe_candidates v = fromkeys (scan_probe y)"
    "verdict_candidates v = scan_candidates y"
    using assms by (auto simp: classify_rejections_def bind_result_Inr_iff)
  show ?thesis
    using scan_rejections_fields[OF y] unfolding v
    by (cases "estimates items") (auto simp: scan_start_def filter_empty_conv foldl_min_Min)
qed

definition vram_item :: "int \<Rightarrow> (string \<times> json) list" where
  "vram_item n = [(''reason'', JStr ''insufficient_vram''), (''canonical_id'', JStr ''m''),
     (''detail'', JObj [(''estimated_bytes'', JInt n)])]"

theorem classify_rejections_verdict_witness:
  "\<exists>v. classify_rejections (\<lambda>_. []) [vram_item 9, vram_item 7] = Inr v \<and> defer_job v \<and>
     verdict_required_bytes v = Some 7"
proof -
  have items: "resource_item (vram_item n)" "item_estimate (vram_item n) = Some n" for n
    by (simp_all add: vram_item_def resource_item_def RESOURCE_REJECTION_REASONS_def json_get_def
        item_estimate_def or_empty_def)
  obtain v where v: "classify_rejections (\<lambda>_. []) [vram_item 9, vram_item 7] = Inr v"
    by (simp add: classify_rejections_def scan_item_def vram_item_def json_get_def or_empty_def
        RESOURCE_REJECTION_REASONS_def Let_def)
  show ?thesis
    using classify_rejections_verdict[OF v] v items
    by (simp add: estimates_def List.map_filter_simps)
qed

lemma waiting_iff:
  "waiting_job_can_proceed required headroom free resident_on \<longleftrightarrow>
     (\<exists>i \<in> resident_on. i \<in> fst ` set free) \<or>
     (\<exists>n i f. required = Some n \<and> (i, Some f) \<in> set free \<and> n + headroom \<le> f)"
  by (cases required) (force simp: waiting_job_can_proceed_def list_ex_iff split: option.splits)+

end
