(* ===== verification/Context_Budget.thy ===== *)
theory Context_Budget
  imports Values
begin

section \<open>Fitting a request into the served context\<close>

text \<open>
  Models \<^verbatim>\<open>src/src/loadcoach/domain/routing/context_budget.py\<close>. A prompt is only measured by its
  length; the estimate is a float division rounded up. The budget never touches the input: it may
  only reduce the output allowance, down to the profile's floor.
\<close>

definition CHARS_PER_TOKEN :: float64 where "CHARS_PER_TOKEN = 4"
definition SAFETY_MARGIN_TOKENS :: int where "SAFETY_MARGIN_TOKENS = 256"

datatype budget_error = CharsPerTokenNotPositive

definition estimate_input_tokens :: "string \<Rightarrow> float64 \<Rightarrow> budget_error + int" where
  "estimate_input_tokens prompt chars_per_token =
     (if chars_per_token \<le> 0 then Inl CharsPerTokenNotPositive
      else Inr \<lceil>fl (fl (of_int (int (length prompt))) / chars_per_token)\<rceil>)"

record ContextBudget =
  fits :: bool
  budget_input_tokens :: int
  budget_output_tokens :: int
  requested_output_tokens :: int
  reduced :: bool
  budget_margin_tokens :: int
  budget_required_context :: int
  budget_served_context :: int
  budget_context_source :: string
  input_estimate_source :: string
  budget_chars_per_token :: "float64 option"
  shortfall_tokens :: int

definition budget_json :: "ContextBudget \<Rightarrow> (string \<times> json) list" where
  "budget_json b =
     [(''fits'', JBool (fits b)), (''estimated_input_tokens'', JInt (budget_input_tokens b)),
      (''max_output_tokens'', JInt (budget_output_tokens b)),
      (''requested_output_tokens'', JInt (requested_output_tokens b)), (''reduced'', JBool (reduced b)),
      (''safety_margin_tokens'', JInt (budget_margin_tokens b)),
      (''required_context'', JInt (budget_required_context b)),
      (''served_context'', JInt (budget_served_context b)),
      (''served_context_source'', JStr (budget_context_source b)),
      (''input_estimate_source'', JStr (input_estimate_source b)),
      (''chars_per_token'', of_opt_float (budget_chars_per_token b)),
      (''shortfall_tokens'', JInt (shortfall_tokens b))]"

definition budget_context :: "int \<Rightarrow> int \<Rightarrow> int \<Rightarrow> string \<Rightarrow> int option \<Rightarrow> int \<Rightarrow> string \<Rightarrow> float64 option \<Rightarrow>
    ContextBudget" where
  "budget_context input allowance served source floor_tokens margin estimate_source chars_per_token =
     (let required = input + allowance + margin;
          room = served - input - margin;
          start = \<lparr>fits = True, budget_input_tokens = input, budget_output_tokens = allowance,
            requested_output_tokens = allowance, reduced = False, budget_margin_tokens = margin,
            budget_required_context = required, budget_served_context = served,
            budget_context_source = source, input_estimate_source = estimate_source,
            budget_chars_per_token = chars_per_token, shortfall_tokens = 0\<rparr>
      in if required \<le> served then start
         else if (case floor_tokens of None \<Rightarrow> False | Some f \<Rightarrow> room \<ge> f) then
           start\<lparr>budget_output_tokens := min allowance room, reduced := True,
             budget_required_context := input + min allowance room + margin\<rparr>
         else start\<lparr>fits := False, shortfall_tokens := required - served\<rparr>)"

text \<open>
  A budget that fits never exceeds the served context, and a reduced output allowance is
  the largest that fits: one more token would overflow. The allowance is never raised, and when
  it is reduced it stays at or above the profile's floor. A budget fails exactly when the request
  does not fit and no reduction down to the floor (if the profile permits any) makes it fit; the
  shortfall is then the exact excess. The input is never shortened.
\<close>

theorem budget_context_fits:
  fixes input allowance served margin :: int and source estimate_source :: string
    and floor_tokens :: "int option" and chars :: "float64 option"
  defines "b \<equiv> budget_context input allowance served source floor_tokens margin estimate_source chars"
  shows "(fits b \<longrightarrow> budget_required_context b \<le> served \<and>
      budget_required_context b = input + budget_output_tokens b + margin) \<and>
    budget_output_tokens b \<le> allowance \<and> budget_input_tokens b = input \<and>
    (reduced b \<longrightarrow> (\<exists>f. floor_tokens = Some f \<and> f \<le> served - input - margin \<and>
       budget_output_tokens b = served - input - margin \<and> budget_output_tokens b < allowance)) \<and>
    (\<not> fits b \<longleftrightarrow> input + allowance + margin > served \<and>
       (\<forall>f. floor_tokens = Some f \<longrightarrow> input + f + margin > served)) \<and>
    (\<not> fits b \<longrightarrow> shortfall_tokens b = input + allowance + margin - served \<and> 0 < shortfall_tokens b)"
  by (auto simp: b_def budget_context_def Let_def split: option.splits)

theorem budget_context_fits_witness:
  "budget_output_tokens (budget_context 3000 2000 4096 ''reported'' (Some 256) 256 ''caller'' None) = 840"
proof -
  have "reduced (budget_context 3000 2000 4096 ''reported'' (Some 256) 256 ''caller'' None)"
    by (simp add: budget_context_def Let_def)
  then show ?thesis
    using budget_context_fits[of 3000 2000 4096 "''reported''" "Some 256" 256 "''caller''" None] by simp
qed

end
