(* ===== verification/Evidence_Policy.thy ===== *)
theory Evidence_Policy
  imports Values "HOL-Library.Product_Lexorder"
begin

section \<open>The rules imported evidence obeys\<close>

text \<open>
  Models \<^verbatim>\<open>src/src/loadcoach/domain/evidence_policy.py\<close>: what an evidence record binds to, when it is
  stale, whether it describes this machine, and which of several records for one subject scores.
  \<open>0.5 ** x\<close> is the C library's \<open>pow\<close>: the argument \<open>pow_half\<close>. The capability
  vocabulary belongs to the SetSpec package: the argument \<open>is_known\<close>. Python's
  \<open>isdigit\<close> accepts superscript digits that \<open>int\<close> rejects, so ordering policy versions is
  fallible. Tuples compare lexicographically.
\<close>

subsection \<open>Constants\<close>

definition MATCH_STATES :: "string set" where
  "MATCH_STATES = {''bound'', ''unmatched'', ''ambiguous_name_only''}"

definition USER_CAPABILITY_ROOT :: string where "USER_CAPABILITY_ROOT = ''user''"
definition QUALITY_HALF_LIFE_DAYS :: int where "QUALITY_HALF_LIFE_DAYS = 90"
definition PERFORMANCE_HALF_LIFE_DAYS :: int where "PERFORMANCE_HALF_LIFE_DAYS = 30"
definition FRESHNESS_FLOOR :: float64 where "FRESHNESS_FLOOR = fl (3 / 10)"
definition STALE_BELOW_FRESHNESS :: float64 where "STALE_BELOW_FRESHNESS = fl (1 / 2)"

definition PERFORMANCE_CAPABILITY_ROOTS :: "string set" where
  "PERFORMANCE_CAPABILITY_ROOTS = {''speed'', ''latency'', ''memory_efficiency'', ''energy_efficiency''}"

definition EVIDENCE_PROFILE_MISMATCH :: string where
  "EVIDENCE_PROFILE_MISMATCH = ''evidence_profile_mismatch''"
definition EVIDENCE_FOREIGN_MACHINE :: string where
  "EVIDENCE_FOREIGN_MACHINE = ''evidence_foreign_machine''"
definition EVIDENCE_UNBOUND :: string where
  "EVIDENCE_UNBOUND = ''evidence_unbound''"

definition EVIDENCE_EXCLUSIONS :: "string set" where
  "EVIDENCE_EXCLUSIONS = {EVIDENCE_PROFILE_MISMATCH, EVIDENCE_FOREIGN_MACHINE, EVIDENCE_UNBOUND}"

definition DRIFT_FIELDS_ALL :: "string list" where
  "DRIFT_FIELDS_ALL = [''provider_kind'', ''provider_version'']"

definition DRIFT_FIELDS_PERFORMANCE :: "string list" where
  "DRIFT_FIELDS_PERFORMANCE = [''gpu_driver_version'', ''cuda_version'']"

text \<open>The section sign of the notes.\<close>

definition SECT :: string where "SECT = [char_of (167 :: nat)]"

subsection \<open>Binding an identity\<close>

record EvidenceIdentity =
  ei_provider_kind :: string
  ei_provider_model_name :: string
  ei_artifact_digest :: "string option"
  ei_canonical_id :: string
  ei_adapter_name :: "string option"
  ei_adapter_artifact_digest :: "string option"

definition is_name_only :: "EvidenceIdentity \<Rightarrow> bool" where
  "is_name_only i \<longleftrightarrow> ei_artifact_digest i = None"

definition is_adapter_bearing :: "EvidenceIdentity \<Rightarrow> bool" where
  "is_adapter_bearing i \<longleftrightarrow> ei_adapter_artifact_digest i \<noteq> None"

record LocalModel =
  lm_model_id :: string
  lm_provider_kind :: string
  lm_provider_model_name :: string
  lm_artifact_digest :: "string option"
  lm_canonical_id :: string

record LocalAdapter =
  la_adapter_id :: string
  la_artifact_digest :: string
  la_name :: string

record Binding =
  bi_match_state :: string
  bi_model_id :: "string option"
  bi_upgrade_model_id :: "string option"
  bi_upgrade_digest :: "string option"
  bi_note :: string
  bi_adapter_id :: "string option"

definition is_bound :: "Binding \<Rightarrow> bool" where
  "is_bound b \<longleftrightarrow> bi_match_state b = ''bound''"

definition unmatched_binding :: "string \<Rightarrow> string \<Rightarrow> Binding" where
  "unmatched_binding state note = \<lparr>bi_match_state = state, bi_model_id = None,
     bi_upgrade_model_id = None, bi_upgrade_digest = None, bi_note = note, bi_adapter_id = None\<rparr>"

definition same_name :: "EvidenceIdentity \<Rightarrow> LocalModel \<Rightarrow> bool" where
  "same_name i row \<longleftrightarrow> lm_provider_kind row = ei_provider_kind i \<and>
     lm_provider_model_name row = ei_provider_model_name i"

definition bind_base :: "EvidenceIdentity \<Rightarrow> LocalModel list \<Rightarrow> Binding" where
  "bind_base i registry =
     (let rows = filter (same_name i) registry in
      (case find (\<lambda>row. lm_artifact_digest row = ei_artifact_digest i) rows of
         Some row \<Rightarrow> \<lparr>bi_match_state = ''bound'', bi_model_id = Some (lm_model_id row),
             bi_upgrade_model_id = None, bi_upgrade_digest = None,
             bi_note = ''identity triple matches a discovered model exactly'', bi_adapter_id = None\<rparr>
       | None \<Rightarrow>
           (case ei_artifact_digest i of
              Some digest \<Rightarrow>
                (case find (\<lambda>row. lm_artifact_digest row = None) rows of
                   Some row \<Rightarrow> \<lparr>bi_match_state = ''bound'', bi_model_id = Some (lm_model_id row),
                       bi_upgrade_model_id = Some (lm_model_id row), bi_upgrade_digest = Some digest,
                       bi_note = ''the bundle carried a digest for a model this registry knew by name '' @
                         ''only; the registry row was upgraded to '' @ digest, bi_adapter_id = None\<rparr>
                 | None \<Rightarrow> unmatched_binding ''unmatched''
                     (''no discovered model carries this identity; retained and bound automatically '' @
                      ''when discovery next produces a match''))
            | None \<Rightarrow>
                if rows \<noteq> [] then unmatched_binding ''ambiguous_name_only''
                  (''the bundle identified the model by name only, and this registry holds a digest '' @
                   ''for that name; the measured weights cannot be proven to be the installed ones'')
                else unmatched_binding ''unmatched''
                  (''no discovered model carries this identity; retained and bound automatically when '' @
                   ''discovery next produces a match''))))"

definition adapter_label :: "EvidenceIdentity \<Rightarrow> string option" where
  "adapter_label i = (case ei_adapter_name i of
     Some name \<Rightarrow> if name \<noteq> [] then Some name else ei_adapter_artifact_digest i
   | None \<Rightarrow> ei_adapter_artifact_digest i)"

definition bind_identity :: "EvidenceIdentity \<Rightarrow> LocalModel list \<Rightarrow> LocalAdapter list \<Rightarrow> Binding" where
  "bind_identity i registry adapters =
     (let base = bind_base i registry; label = repr_opt_str (adapter_label i) in
      if \<not> is_adapter_bearing i then base
      else (case find (\<lambda>row. Some (la_artifact_digest row) = ei_adapter_artifact_digest i) adapters of
              None \<Rightarrow> unmatched_binding ''unmatched''
                (''measured under adapter '' @ label @ '', which this adapter registry does not hold; '' @
                 ''retained and bound automatically when a directory scan next finds it'')
            | Some resolved \<Rightarrow>
                if \<not> is_bound base then unmatched_binding (bi_match_state base)
                  (''the adapter '' @ label @ '' resolved, but the base did not: '' @ bi_note base)
                else base\<lparr>bi_adapter_id := Some (la_adapter_id resolved),
                  bi_note := bi_note base @ ''; measured under adapter '' @ label @
                    '', which this registry holds at the same artifact digest, so the evidence binds '' @
                    ''to that subject and to no other''\<rparr>))"

subsection \<open>Capabilities, freshness, drift\<close>

definition is_user_capability :: "string \<Rightarrow> bool" where
  "is_user_capability capability_id =
     (case partition_dot capability_id of
        (start, Some slug) \<Rightarrow> start = USER_CAPABILITY_ROOT \<and> slug \<noteq> []
      | (start, None) \<Rightarrow> False)"

definition user_goal_slug :: "string \<Rightarrow> string option" where
  "user_goal_slug capability_id =
     (if \<not> is_user_capability capability_id then None else snd (partition_dot capability_id))"

definition weights_admit :: "string \<Rightarrow> (string, float64) dict \<Rightarrow> bool" where
  "weights_admit capability_id weights =
     (if \<not> is_user_capability capability_id then True else capability_id \<in> fst ` set weights)"

definition is_performance_capability :: "string \<Rightarrow> bool" where
  "is_performance_capability capability_id \<longleftrightarrow>
     fst (partition_dot capability_id) \<in> PERFORMANCE_CAPABILITY_ROOTS"

definition capability_half_life_days :: "string \<Rightarrow> int" where
  "capability_half_life_days capability_id =
     (if is_performance_capability capability_id then PERFORMANCE_HALF_LIFE_DAYS
      else QUALITY_HALF_LIFE_DAYS)"

definition freshness_factor :: "(float64 \<Rightarrow> float64) \<Rightarrow> instant \<Rightarrow> instant \<Rightarrow> string \<Rightarrow> float64" where
  "freshness_factor pow_half measured_at now capability_id =
     (let age_days = max 0 (fl (total_seconds (now - measured_at) / 86400));
          decayed = pow_half (fl (age_days / of_int (capability_half_life_days capability_id)))
      in max FRESHNESS_FLOOR (min 1 decayed))"

fun first_drift :: "string list \<Rightarrow> (string \<times> json) list \<Rightarrow> (string \<times> json) list \<Rightarrow> string option" where
  "first_drift [] measured current = None"
| "first_drift (field # rest) measured current =
     (let before = json_get measured field; after = json_get current field in
      if before = JNull \<or> after = JNull then first_drift rest measured current
      else if \<not> py_eq before after then Some field
      else first_drift rest measured current)"

definition environment_drift :: "(string \<times> json) list option \<Rightarrow> (string \<times> json) list option \<Rightarrow> string \<Rightarrow>
    string option" where
  "environment_drift measured current capability_id =
     (case (measured, current) of
        (Some m, Some c) \<Rightarrow>
          if m = [] \<or> c = [] then None
          else first_drift (DRIFT_FIELDS_ALL @
                 (if is_performance_capability capability_id then DRIFT_FIELDS_PERFORMANCE else [])) m c
      | _ \<Rightarrow> None)"

datatype profile_value = PInt int | PBool bool | PStr string

fun str_profile_value :: "profile_value \<Rightarrow> string" where
  "str_profile_value (PInt i) = str_int i"
| "str_profile_value (PBool b) = str_bool b"
| "str_profile_value (PStr s) = s"

fun repr_profile_value :: "profile_value \<Rightarrow> string" where
  "repr_profile_value (PStr s) = repr_str s"
| "repr_profile_value v = str_profile_value v"

definition REMEDY_FLAGS :: "(string, string) dict" where
  "REMEDY_FLAGS = [(''context_size'', ''--context-size'')]"

definition freeweight_remedy :: "(string, profile_value) dict \<Rightarrow> string" where
  "freeweight_remedy profile_fields =
     (let ordered = sort_key fst profile_fields;
          flags = concat (map (\<lambda>(name, v). case map_of REMEDY_FLAGS name of
                    None \<Rightarrow> [] | Some flag \<Rightarrow> '' '' @ flag @ '' '' @ str_profile_value v) ordered);
          configured = filter (\<lambda>(name, v). map_of REMEDY_FLAGS name = None) ordered;
          command = ''freeweight run start --model <this model> --suite <the suite>'' @ flags
      in if configured = [] then command
         else command @ ''   # and set FreeWeight'' @ [char_of (39 :: nat)] @ ''s [runtime] '' @
           join '', '' (map (\<lambda>(name, v). name @ '' = '' @ repr_profile_value v) configured) @
           '', or clear the same setting here: every field of the runtime profile is part of the '' @
           ''subject hash (ADR-0023 '' @ SECT @ ''2)'')"

record Staleness =
  st_stale :: bool
  st_reason :: "string option"
  st_age_days :: int
  st_freshness_factor :: float64
  st_half_life_days :: int

definition evaluate_staleness :: "(float64 \<Rightarrow> float64) \<Rightarrow> instant \<Rightarrow> instant \<Rightarrow> string \<Rightarrow> string option \<Rightarrow>
    bool \<Rightarrow> bool \<Rightarrow> Staleness" where
  "evaluate_staleness pow_half measured_at now capability_id drift_field superseded source_unreachable =
     (let age_days = max 0 \<lfloor>total_seconds (now - measured_at) / 86400\<rfloor>;
          factor = freshness_factor pow_half measured_at now capability_id;
          half_life = capability_half_life_days capability_id;
          reason = (if superseded then Some ''superseded''
                    else if source_unreachable then Some ''source_unreachable''
                    else (case drift_field of
                            Some f \<Rightarrow> Some (''environment_drift:'' @ f)
                          | None \<Rightarrow> if factor < STALE_BELOW_FRESHNESS then Some ''freshness'' else None))
      in \<lparr>st_stale = (reason \<noteq> None), st_reason = reason, st_age_days = age_days,
          st_freshness_factor = factor, st_half_life_days = half_life\<rparr>)"

definition machine_admits :: "string \<Rightarrow> string option \<Rightarrow> string \<Rightarrow> bool" where
  "machine_admits evidence_fingerprint local_fingerprint capability_id =
     (if local_fingerprint = None \<or> Some evidence_fingerprint = local_fingerprint then True
      else \<not> is_performance_capability capability_id)"

definition profile_admits :: "string \<Rightarrow> string \<Rightarrow> bool" where
  "profile_admits evidence_profile_hash candidate_profile_hash \<longleftrightarrow>
     evidence_profile_hash = candidate_profile_hash"

subsection \<open>Policy versions\<close>

datatype evidence_error = ValueErrorInt string

definition isdigit_char :: "char \<Rightarrow> bool" where
  "isdigit_char c \<longleftrightarrow> (let n = of_char c :: nat in (48 \<le> n \<and> n \<le> 57) \<or> n \<in> {178, 179, 185})"

definition isdigit :: "string \<Rightarrow> bool" where
  "isdigit s \<longleftrightarrow> s \<noteq> [] \<and> list_all isdigit_char s"

definition int_of_digits :: "string \<Rightarrow> evidence_error + int" where
  "int_of_digits s =
     (if list_all (\<lambda>c. 48 \<le> (of_char c :: nat) \<and> (of_char c :: nat) \<le> 57) s
      then Inr (foldl (\<lambda>n c. 10 * n + int (of_char c - 48)) 0 s)
      else Inl (ValueErrorInt s))"

definition policy_version_key :: "string \<Rightarrow> evidence_error + (int list \<times> string)" where
  "policy_version_key policy_version =
     (let parts = split_dot policy_version in
      if list_all isdigit parts
      then bind_result (traverse int_of_digits parts) (\<lambda>ns. Inr (ns, policy_version))
      else Inr ([], policy_version))"

record CalibrationFacts =
  cf_kappa_w :: float64
  cf_n_holdout :: int
  cf_graded_by :: string
  cf_measured_at :: instant

definition user_capability_note :: "string \<Rightarrow> CalibrationFacts option \<Rightarrow> string" where
  "user_capability_note capability_id calibration =
     (let slug = (case user_goal_slug capability_id of None \<Rightarrow> capability_id
                  | Some s \<Rightarrow> if s \<noteq> [] then s else capability_id);
          opening = ''user-defined goal '' @ repr_str slug @
            '', weighted because this task profile names it explicitly (ADR-0032 '' @ SECT @ ''6)''
      in (case calibration of
            None \<Rightarrow> opening @ ''; scored entirely by rules, so no judge agreement was measured''
          | Some c \<Rightarrow> opening @ ''; judge agreement kappa_w '' @ fmt_fixed 2 (cf_kappa_w c) @ '' over '' @
              str_int (cf_n_holdout c) @ '' held-out samples graded by '' @ cf_graded_by c @ '' on '' @
              iso_date (cf_measured_at c)))"

subsection \<open>The evidence store as a whole\<close>

record EvidenceOverview =
  eo_configured :: bool
  eo_source_status :: "string option"
  eo_rows :: int
  eo_bound :: int
  eo_unmatched :: int
  eo_ambiguous :: int
  eo_stale :: int
  eo_imported_at :: "instant option"
  eo_generated_at :: "instant option"
  eo_oldest_measured_at :: "instant option"
  eo_newest_measured_at :: "instant option"
  eo_bundle_schema_version :: "string option"
  eo_policy_version :: "string option"
  eo_vocabulary_version :: "string option"
  eo_error_text :: "string option"

definition overview_status :: "EvidenceOverview \<Rightarrow> string" where
  "overview_status o' =
     (if \<not> eo_configured o' \<and> eo_rows o' = 0 then ''not_configured''
      else if eo_source_status o' \<in> Some ` {''unreachable'', ''refused'', ''incompatible'', ''failed''}
        then the (eo_source_status o')
      else if eo_rows o' = 0 then ''none'' else ''ok'')"

definition overview_note :: "EvidenceOverview \<Rightarrow> string" where
  "overview_note o' =
     (let status = overview_status o';
          detail = (case eo_error_text o' of None \<Rightarrow> ''no detail recorded''
                    | Some t \<Rightarrow> if t \<noteq> [] then t else ''no detail recorded'')
      in if status = ''not_configured'' then
           ''No evidence source is configured ([evidence] freeweight_url is empty), so '' @
           ''routing ranks on declared capabilities and priors and says so.''
         else if status = ''none'' then
           ''An evidence source is configured but nothing has been imported from it yet; '' @
           ''routing ranks on declared capabilities and priors.''
         else if status = ''unreachable'' then
           (if eo_rows o' = 0 then
              ''FreeWeight could not be reached and nothing has been imported from it yet; '' @
              ''routing ranks on declared capabilities and priors.''
            else ''FreeWeight could not be reached, so the last import is retained and marked '' @
              ''stale ('' @ str_int (eo_stale o') @ '' of '' @ str_int (eo_rows o') @
              '' records); routing continues on it and on its priors.'')
         else if status \<in> {''refused'', ''incompatible'', ''failed''} then
           (if eo_rows o' = 0 then
              ''The last refresh was '' @ status @ '': '' @ detail @ ''. Nothing has been imported '' @
              ''yet; routing ranks on declared capabilities and priors.''
            else ''The last refresh was '' @ status @ '': '' @ detail @ ''. The previous import'' @
              [char_of (39 :: nat)] @ ''s '' @ str_int (eo_rows o') @ '' records are retained and still in use.'')
         else str_int (eo_bound o') @ '' of '' @ str_int (eo_rows o') @
           '' imported records are bound to a discovered model ('' @ str_int (eo_stale o') @ '' stale, '' @
           str_int (eo_unmatched o') @ '' unmatched, '' @ str_int (eo_ambiguous o') @ '' ambiguous).'')"

subsection \<open>Selecting the record that scores\<close>

record EvidenceCandidate =
  ec_row_id :: string
  ec_capability_id :: string
  ec_runtime_profile_hash :: string
  ec_machine_fingerprint :: string
  ec_policy_version :: string
  ec_measured_at :: instant
  ec_score :: float64
  ec_confidence :: float64
  ec_sample_count :: int
  ec_benchmark_versions :: "(string \<times> string) list"
  ec_calibration :: "CalibrationFacts option"

type_synonym selection = "int \<times> (int list \<times> string) \<times> instant \<times> string"

definition selection_key :: "string option \<Rightarrow> EvidenceCandidate \<Rightarrow> evidence_error + selection" where
  "selection_key local_machine_fingerprint c =
     (let is_local = (local_machine_fingerprint = None \<or>
                      Some (ec_machine_fingerprint c) = local_machine_fingerprint)
      in bind_result (policy_version_key (ec_policy_version c)) (\<lambda>v.
           Inr (if is_local then 1 else 0, v, ec_measured_at c, ec_row_id c)))"

definition best_of :: "string option \<Rightarrow> EvidenceCandidate list \<Rightarrow> evidence_error + EvidenceCandidate" where
  "best_of local_machine_fingerprint rows =
     bind_result (traverse (selection_key local_machine_fingerprint) rows) (\<lambda>keys.
       (case zip rows keys of
          [] \<Rightarrow> Inl (ValueErrorInt ''max() arg is an empty sequence'')
        | p # ps \<Rightarrow> Inr (fst (max_by snd p ps))))"

definition evidence_group :: "EvidenceCandidate \<Rightarrow> string \<times> string" where
  "evidence_group c = (ec_capability_id c, ec_runtime_profile_hash c)"

definition collapse_evidence :: "EvidenceCandidate list \<Rightarrow> string option \<Rightarrow>
    evidence_error + EvidenceCandidate list" where
  "collapse_evidence candidates local_machine_fingerprint =
     traverse (\<lambda>(_, rows). best_of local_machine_fingerprint rows)
       (sort_key fst (group_by evidence_group candidates))"

definition known_capability :: "(string \<Rightarrow> bool) \<Rightarrow> string \<Rightarrow> bool" where
  "known_capability is_known capability_id \<longleftrightarrow> is_known capability_id"

subsection \<open>Binding is sound and independent of the order of the registry\<close>

lemma find_None_iff_ex: "find P xs = None \<longleftrightarrow> \<not> (\<exists>x \<in> set xs. P x)"
  by (auto simp: find_None_iff)

lemma find_SomeD: "find P xs = Some x \<Longrightarrow> x \<in> set xs \<and> P x"
  by (auto simp: find_Some_iff)

lemma find_set_cong:
  assumes "set xs = set ys" "\<And>x y. x \<in> set xs \<Longrightarrow> y \<in> set xs \<Longrightarrow> P x \<Longrightarrow> P y \<Longrightarrow> x = y"
  shows "find P xs = find P ys"
proof (cases "find P xs")
  case None
  then show ?thesis using assms(1) by (metis find_None_iff_ex)
next
  case (Some x)
  then obtain y where "find P ys = Some y" using assms(1) find_SomeD find_None_iff_ex by (metis option.exhaust)
  then show ?thesis using Some assms find_SomeD by metis
qed

definition exact_row :: "EvidenceIdentity \<Rightarrow> LocalModel \<Rightarrow> bool" where
  "exact_row i row \<longleftrightarrow> same_name i row \<and> lm_artifact_digest row = ei_artifact_digest i"

definition upgradable_row :: "EvidenceIdentity \<Rightarrow> LocalModel \<Rightarrow> bool" where
  "upgradable_row i row \<longleftrightarrow> same_name i row \<and> ei_artifact_digest i \<noteq> None \<and> lm_artifact_digest row = None"

lemma bind_base_cases:
  obtains (exact) row where "row \<in> set registry" "exact_row i row" "bi_match_state (bind_base i registry) = ''bound''"
      "bi_model_id (bind_base i registry) = Some (lm_model_id row)" "bi_upgrade_model_id (bind_base i registry) = None"
  | (upgrade) row where "\<forall>r \<in> set registry. \<not> exact_row i r" "row \<in> set registry" "upgradable_row i row"
      "bi_match_state (bind_base i registry) = ''bound''" "bi_model_id (bind_base i registry) = Some (lm_model_id row)"
      "bi_upgrade_model_id (bind_base i registry) = Some (lm_model_id row)"
      "bi_upgrade_digest (bind_base i registry) = ei_artifact_digest i"
  | (neither) "\<forall>r \<in> set registry. \<not> exact_row i r \<and> \<not> upgradable_row i r"
      "bi_match_state (bind_base i registry) =
         (if is_name_only i \<and> (\<exists>r \<in> set registry. same_name i r) then ''ambiguous_name_only'' else ''unmatched'')"
      "bi_model_id (bind_base i registry) = None" "bi_upgrade_model_id (bind_base i registry) = None"
proof (cases "find (\<lambda>row. lm_artifact_digest row = ei_artifact_digest i) (filter (same_name i) registry)")
  case (Some row)
  then show ?thesis using find_SomeD[OF Some] exact[of row] by (auto simp: bind_base_def exact_row_def Let_def)
next
  case None
  then have none: "\<forall>r \<in> set registry. \<not> exact_row i r" by (auto simp: find_None_iff_ex exact_row_def)
  show ?thesis
  proof (cases "ei_artifact_digest i")
    case (Some digest)
    show ?thesis
    proof (cases "find (\<lambda>row. lm_artifact_digest row = None) (filter (same_name i) registry)")
      case (Some row)
      then show ?thesis
        using \<open>ei_artifact_digest i = Some digest\<close> None none find_SomeD[OF Some] upgrade[of row]
        by (auto simp: bind_base_def upgradable_row_def Let_def)
    next
      case None': None
      then have "\<forall>r \<in> set registry. \<not> upgradable_row i r" by (auto simp: find_None_iff_ex upgradable_row_def)
      then show ?thesis
        using neither none Some None None' by (auto simp: bind_base_def Let_def unmatched_binding_def is_name_only_def)
    qed
  next
    case None'': None
    then show ?thesis
      using neither none None
      by (auto simp: bind_base_def Let_def unmatched_binding_def is_name_only_def upgradable_row_def filter_empty_conv)
  qed
qed

definition held_adapter :: "EvidenceIdentity \<Rightarrow> LocalAdapter list \<Rightarrow> bool" where
  "held_adapter i adapters \<longleftrightarrow> (\<exists>a \<in> set adapters. Some (la_artifact_digest a) = ei_adapter_artifact_digest i)"

lemma bind_identity_fields:
  "bi_match_state (bind_identity i registry adapters) =
     (if is_adapter_bearing i \<and> \<not> held_adapter i adapters then ''unmatched''
      else bi_match_state (bind_base i registry))"
  "bi_model_id (bind_identity i registry adapters) =
     (if is_adapter_bearing i \<and> (\<not> held_adapter i adapters \<or> \<not> is_bound (bind_base i registry)) then None
      else bi_model_id (bind_base i registry))"
  "bi_upgrade_model_id (bind_identity i registry adapters) =
     (if is_adapter_bearing i \<and> (\<not> held_adapter i adapters \<or> \<not> is_bound (bind_base i registry)) then None
      else bi_upgrade_model_id (bind_base i registry))"
  by (auto simp: bind_identity_def Let_def unmatched_binding_def held_adapter_def
      split: option.splits dest!: find_SomeD simp: find_None_iff_ex)

text \<open>
  A record is bound exactly when its base resolves, to a row with the same identity triple
  or, for evidence with a digest, to a row known by name only, and the adapter it was measured
  under, if any, is held at the same digest. An exact row always wins over an upgrade, an upgrade
  only ever names a row that has no digest, and evidence known by name only never binds to
  weights with a digest: it is ambiguous.
\<close>

theorem bind_identity_sound:
  "(is_bound (bind_identity i registry adapters) \<longleftrightarrow>
      (\<exists>r \<in> set registry. exact_row i r \<or> upgradable_row i r) \<and>
      (is_adapter_bearing i \<longrightarrow> held_adapter i adapters)) \<and>
   bi_match_state (bind_identity i registry adapters) \<in> MATCH_STATES \<and>
   (\<forall>m. bi_model_id (bind_identity i registry adapters) = Some m \<longrightarrow>
      (\<exists>r \<in> set registry. lm_model_id r = m \<and>
        (if \<exists>x \<in> set registry. exact_row i x then exact_row i r else upgradable_row i r))) \<and>
   (bi_upgrade_model_id (bind_identity i registry adapters) \<noteq> None \<longrightarrow>
      \<not> (\<exists>x \<in> set registry. exact_row i x)) \<and>
   (is_name_only i \<and> (\<exists>r \<in> set registry. same_name i r) \<and>
      (\<forall>r \<in> set registry. same_name i r \<longrightarrow> lm_artifact_digest r \<noteq> None) \<longrightarrow>
      \<not> is_bound (bind_identity i registry adapters))"
proof -
  have ambiguous: "\<not> exact_row i r \<and> \<not> upgradable_row i r"
    if "is_name_only i" "\<forall>r \<in> set registry. same_name i r \<longrightarrow> lm_artifact_digest r \<noteq> None" "r \<in> set registry" for r
    using that by (auto simp: exact_row_def upgradable_row_def is_name_only_def)
  have iff: "is_bound (bind_identity i registry adapters) \<longleftrightarrow>
      (\<exists>r \<in> set registry. exact_row i r \<or> upgradable_row i r) \<and> (is_adapter_bearing i \<longrightarrow> held_adapter i adapters)"
    by (cases rule: bind_base_cases[of registry i]) (auto simp: bind_identity_fields is_bound_def)
  have state: "bi_match_state (bind_identity i registry adapters) \<in> MATCH_STATES"
    by (cases rule: bind_base_cases[of registry i]) (simp_all add: bind_identity_fields MATCH_STATES_def)
  have model: "\<exists>r \<in> set registry. lm_model_id r = m \<and>
        (if \<exists>x \<in> set registry. exact_row i x then exact_row i r else upgradable_row i r)"
    if "bi_model_id (bind_identity i registry adapters) = Some m" for m
    using that by (cases rule: bind_base_cases[of registry i]) (auto simp: bind_identity_fields split: if_splits)
  have upgrade: "bi_upgrade_model_id (bind_identity i registry adapters) \<noteq> None \<Longrightarrow> \<not> (\<exists>x \<in> set registry. exact_row i x)"
    by (cases rule: bind_base_cases[of registry i]) (auto simp: bind_identity_fields split: if_splits)
  show ?thesis using iff state model upgrade ambiguous by blast
qed

theorem bind_identity_sound_witness:
  "\<not> is_bound (bind_identity \<lparr>ei_provider_kind = ''ollama'', ei_provider_model_name = ''m'',
     ei_artifact_digest = None, ei_canonical_id = ''c'', ei_adapter_name = None, ei_adapter_artifact_digest = None\<rparr>
     [\<lparr>lm_model_id = ''1'', lm_provider_kind = ''ollama'', lm_provider_model_name = ''m'',
       lm_artifact_digest = Some ''d'', lm_canonical_id = ''c''\<rparr>] [])"
  (is "\<not> is_bound (bind_identity ?i ?r [])")
  by (rule bind_identity_sound[of ?i ?r "[]", THEN conjunct2, THEN conjunct2, THEN conjunct2, THEN conjunct2, rule_format])
    (simp add: is_name_only_def same_name_def)

text \<open>
  The order of the registry and of the adapters does not affect a binding, as long as no two
  rows share an identity triple and no two adapters share a digest.
\<close>

theorem bind_identity_order:
  assumes "set registry = set registry'" "set adapters = set adapters'"
    and "inj_on (\<lambda>r. (lm_provider_kind r, lm_provider_model_name r, lm_artifact_digest r)) (set registry)"
    and "inj_on la_artifact_digest (set adapters)"
  shows "bind_identity i registry adapters = bind_identity i registry' adapters'"
proof -
  have f: "set (filter (same_name i) registry) = set (filter (same_name i) registry')" using assms(1) by simp
  have d: "find (\<lambda>r. lm_artifact_digest r = d) (filter (same_name i) registry) =
      find (\<lambda>r. lm_artifact_digest r = d) (filter (same_name i) registry')" for d
    using assms(3) by (intro find_set_cong[OF f]) (auto simp: same_name_def inj_on_def)
  have a: "find (\<lambda>r. Some (la_artifact_digest r) = d) adapters = find (\<lambda>r. Some (la_artifact_digest r) = d) adapters'" for d
    using assms(2,4) by (intro find_set_cong) (auto simp: inj_on_def)
  have e: "filter (same_name i) registry = [] \<longleftrightarrow> filter (same_name i) registry' = []"
    using f by (metis set_empty)
  have b: "bind_base i registry = bind_base i registry'"
    unfolding bind_base_def Let_def d e by simp
  show ?thesis unfolding bind_identity_def Let_def a b by (rule refl)
qed

definition sample_rows :: "LocalModel list" where
  "sample_rows = [\<lparr>lm_model_id = ''1'', lm_provider_kind = ''ollama'', lm_provider_model_name = ''m'',
       lm_artifact_digest = Some ''d'', lm_canonical_id = ''c''\<rparr>,
     \<lparr>lm_model_id = ''2'', lm_provider_kind = ''ollama'', lm_provider_model_name = ''m'',
       lm_artifact_digest = None, lm_canonical_id = ''c''\<rparr>]"

theorem bind_identity_order_witness:
  "bind_identity \<lparr>ei_provider_kind = ''ollama'', ei_provider_model_name = ''m'',
     ei_artifact_digest = Some ''d'', ei_canonical_id = ''c'', ei_adapter_name = None, ei_adapter_artifact_digest = None\<rparr>
     sample_rows [] =
   bind_identity \<lparr>ei_provider_kind = ''ollama'', ei_provider_model_name = ''m'',
     ei_artifact_digest = Some ''d'', ei_canonical_id = ''c'', ei_adapter_name = None, ei_adapter_artifact_digest = None\<rparr>
     (rev sample_rows) []"
  by (rule bind_identity_order) (auto simp: sample_rows_def inj_on_def)

subsection \<open>Selection never invents a number\<close>

lemma best_of_spec:
  assumes "best_of loc rows = Inr b"
  shows "b \<in> set rows \<and> (\<forall>r \<in> set rows. \<exists>k kb. selection_key loc r = Inr k \<and> selection_key loc b = Inr kb \<and> k \<le> kb)"
proof -
  obtain keys p ps where keys: "list_all2 (\<lambda>r k. selection_key loc r = Inr k) rows keys"
    and z: "zip rows keys = p # ps" and b: "b = fst (max_by snd p ps)"
  proof -
    obtain keys where k: "list_all2 (\<lambda>r k. selection_key loc r = Inr k) rows keys"
      and c: "(case zip rows keys of [] \<Rightarrow> Inl (ValueErrorInt ''max() arg is an empty sequence'')
        | p # ps \<Rightarrow> Inr (fst (max_by snd p ps))) = Inr b"
      using assms by (auto simp only: best_of_def bind_result_Inr_iff traverse_Inr)
    show ?thesis using that[OF k] c by (cases "zip rows keys") auto
  qed
  have mem: "max_by snd p ps \<in> set (zip rows keys)" using max_by_in[of snd p ps] z by simp
  have key: "selection_key loc (fst q) = Inr (snd q)" if "q \<in> set (zip rows keys)" for q
    using keys that by (auto simp: list_all2_iff)
  have "\<exists>k. (r, k) \<in> set (zip rows keys)" if "r \<in> set rows" for r
    using that keys by (metis in_set_impl_in_set_zip1 list_all2_lengthD)
  moreover have "snd q \<le> snd (max_by snd p ps)" if "q \<in> set (zip rows keys)" for q
    using max_by_ge[of q p ps snd] that z by simp
  ultimately show ?thesis
    using mem key[OF mem] key unfolding b by (metis fst_conv set_zip_leftD snd_conv surjective_pairing)
qed

lemma collapse_groups:
  assumes "collapse_evidence cands loc = Inr out"
  shows "list_all2 (\<lambda>g x. best_of loc (filter (\<lambda>c. evidence_group c = g) cands) = Inr x)
    (map fst (sort_key fst (group_by evidence_group cands))) out"
proof -
  let ?G = "sort_key fst (group_by evidence_group cands)"
  have rows: "rows = filter (\<lambda>c. evidence_group c = g) cands" if "(g, rows) \<in> set ?G" for g rows
    using that map_of_is_SomeI[OF distinct_keys_group_by, of g rows evidence_group cands]
    by (auto simp: map_of_group_by split: if_splits)
  have "list_all2 (\<lambda>(g, rows) x. best_of loc rows = Inr x) ?G out"
    using assms by (simp add: collapse_evidence_def traverse_Inr case_prod_unfold)
  then show ?thesis
    unfolding list_all2_map1
    by (rule list.rel_mono_strong) (use rows in \<open>force simp: case_prod_unfold\<close>)
qed

lemma evidence_groups: "fst ` set (group_by evidence_group cands) = evidence_group ` set cands"
proof -
  have "g \<in> fst ` set (group_by evidence_group cands) \<longleftrightarrow> map_of (group_by evidence_group cands) g \<noteq> None" for g
    by (simp add: map_of_eq_None_iff)
  then have "g \<in> fst ` set (group_by evidence_group cands) \<longleftrightarrow> (\<exists>x \<in> set cands. evidence_group x = g)" for g
    by (simp add: map_of_group_by)
  then show ?thesis by (intro set_eqI) (simp add: image_iff eq_commute)
qed

text \<open>
  Collapsing the evidence of a model selects and never merges: the result holds exactly one
  record for each pair of capability and runtime profile that has any, in order of those pairs,
  every one of them a record that was stored, and none of the pair's records precedes it in the
  order: this machine first, then the highest policy version, then the latest measurement, then
  the row id.
\<close>

theorem collapse_selects:
  assumes "collapse_evidence cands loc = Inr out"
  shows "set out \<subseteq> set cands \<and> evidence_group ` set out = evidence_group ` set cands \<and>
    distinct (map evidence_group out) \<and> sorted (map evidence_group out) \<and>
    (\<forall>x \<in> set out. \<forall>c \<in> set cands. evidence_group c = evidence_group x \<longrightarrow>
       (\<exists>k kx. selection_key loc c = Inr k \<and> selection_key loc x = Inr kx \<and> k \<le> kx))"
proof -
  let ?gs = "map fst (sort_key fst (group_by evidence_group cands))"
  have all: "list_all2 (\<lambda>g x. best_of loc (filter (\<lambda>c. evidence_group c = g) cands) = Inr x) ?gs out"
    using collapse_groups[OF assms] .
  have gs: "?gs = map evidence_group out"
    using all by (induction rule: list_all2_induct) (auto dest!: best_of_spec)
  have "evidence_group ` set out = evidence_group ` set cands"
    using arg_cong[OF gs, of set] evidence_groups[of cands] by (simp add: image_image)
  moreover have "distinct (map evidence_group out)"
    unfolding gs[symmetric] using distinct_keys_group_by[of evidence_group cands]
    by (simp add: map_sort_key)
  moreover have "sorted (map evidence_group out)" unfolding gs[symmetric] by simp
  moreover have "x \<in> set cands \<and> (\<forall>c \<in> set cands. evidence_group c = evidence_group x \<longrightarrow>
       (\<exists>k kx. selection_key loc c = Inr k \<and> selection_key loc x = Inr kx \<and> k \<le> kx))"
    if "x \<in> set out" for x
  proof -
    obtain g where "best_of loc (filter (\<lambda>c. evidence_group c = g) cands) = Inr x"
    proof -
      obtain k where "k < length out" "out ! k = x" using \<open>x \<in> set out\<close> by (auto simp: in_set_conv_nth)
      then show ?thesis using that list_all2_nthD2[OF all, of k] by blast
    qed
    from best_of_spec[OF this] show ?thesis by auto
  qed
  ultimately show ?thesis by blast
qed

definition evidence_row :: "string \<Rightarrow> string \<Rightarrow> string \<Rightarrow> EvidenceCandidate" where
  "evidence_row rid machine version = \<lparr>ec_row_id = rid, ec_capability_id = ''speed'', ec_runtime_profile_hash = ''h'',
     ec_machine_fingerprint = machine, ec_policy_version = version, ec_measured_at = 0, ec_score = 1,
     ec_confidence = 1, ec_sample_count = 3, ec_benchmark_versions = [], ec_calibration = None\<rparr>"

theorem collapse_selects_witness:
  "\<exists>out. collapse_evidence [evidence_row ''1'' ''here'' ''1.9.0'', evidence_row ''2'' ''here'' ''1.10.0''] (Some ''here'') = Inr out \<and>
     set out \<subseteq> {evidence_row ''1'' ''here'' ''1.9.0'', evidence_row ''2'' ''here'' ''1.10.0''} \<and>
     distinct (map evidence_group out)"
proof -
  have "collapse_evidence [evidence_row ''1'' ''here'' ''1.9.0'', evidence_row ''2'' ''here'' ''1.10.0''] (Some ''here'')
      = Inr [evidence_row ''2'' ''here'' ''1.10.0'']" by code_simp
  from this collapse_selects[OF this] show ?thesis by auto
qed

subsection \<open>Freshness and staleness\<close>

lemma freshness_range: "FRESHNESS_FLOOR \<le> freshness_factor pow_half m now c \<and> freshness_factor pow_half m now c \<le> 1"
proof -
  have "FRESHNESS_FLOOR \<le> 1" unfolding FRESHNESS_FLOOR_def by (intro double.rnd_le_1) simp
  then show ?thesis by (simp add: freshness_factor_def Let_def)
qed

lemma policy_version_superscript:
  "policy_version_key [char_of (178 :: nat)] = Inl (ValueErrorInt [char_of (178 :: nat)])"
  by code_simp

end
