(* ===== verification/Subject.thy ===== *)
theory Subject
  imports Evidence_Policy
begin

section \<open>The execution subject a routing decision scores\<close>

text \<open>
  Models \<^verbatim>\<open>src/src/loadcoach/domain/routing/subject.py\<close>: the facts routing consumes, the resolution of a
  runtime profile through its levels, the refusal of a profile its provider cannot serve as
  stated, and the derivation of the context a candidate will be served. \<open>RuntimeProfile\<close>,
  \<open>AdapterIdentity\<close> and \<open>DataClassification\<close> belong to the BaseAICore package: the
  profile's fields are a record, and what the code calls of the package (the profile's hash, an
  adapter's canonical suffix, the rank of a classification) is the record \<open>packages\<close> passed
  to the definitions that use it.
\<close>

record RuntimeProfile =
  context_size :: "int option"
  kv_cache_precision :: "string option"
  gpu_layers :: "int option"
  flash_attention :: "bool option"
  threads :: "int option"
  batch_size :: "int option"
  keep_alive :: "string option"
  provider_options :: "(string, json) dict"
  profile_adapters_registered :: "bool option"

definition empty_profile :: RuntimeProfile where
  "empty_profile = \<lparr>context_size = None, kv_cache_precision = None, gpu_layers = None,
     flash_attention = None, threads = None, batch_size = None, keep_alive = None,
     provider_options = [], profile_adapters_registered = None\<rparr>"

record packages =
  profile_hash :: "RuntimeProfile \<Rightarrow> string"
  canonical_suffix :: "string \<Rightarrow> string \<Rightarrow> string"
  classification_rank :: "string \<Rightarrow> int option"

record ModelFacts =
  model_id :: string
  canonical_id :: string
  provider_kind :: string
  provider_model_name :: string
  artifact_digest :: "string option"
  available :: bool
  unavailable_reason :: "string option"
  enabled :: bool
  max_context :: "int option"
  size_bytes :: "int option"
  parameter_count :: "int option"
  layers :: "int option"
  kv_heads :: "int option"
  head_dim :: "int option"
  is_remote :: bool
  provider_name :: string

record ProviderFacts =
  healthy :: bool
  context_configurable :: bool
  reported_served_context :: "int option"
  supports_tool_use :: bool
  supports_structured_output :: bool
  supports_streaming :: bool
  supports_thinking_control :: bool
  provider_is_remote :: bool
  adapter_hot_swap :: bool
  adapters_registered :: "bool option"

record AdapterFacts =
  adapter_id :: string
  adapter_name :: string
  adapter_artifact_digest :: string
  base_model_name :: string
  base_artifact_digest :: "string option"
  base_confidence :: string
  declared_capabilities :: "string list"
  data_classification :: string

definition adapter_suffix :: "packages \<Rightarrow> AdapterFacts \<Rightarrow> string" where
  "adapter_suffix pkg a = canonical_suffix pkg (adapter_name a) (adapter_artifact_digest a)"

record CapabilitySignal =
  sig_capability_id :: string
  sig_source :: string
  sig_score :: float64
  sig_confidence :: float64
  sig_runtime_profile_hash :: "string option"
  sig_machine_fingerprint :: "string option"
  sig_measured_at :: "instant option"
  sig_sample_count :: "int option"
  sig_match_state :: "string option"
  sig_age_days :: "int option"
  sig_stale :: bool
  sig_stale_reason :: "string option"
  sig_calibration :: "CalibrationFacts option"

record ServedContext =
  tokens :: int
  context_source :: string

record RuntimeOverrides =
  override_model :: "string option"
  override_adapter :: "string option"
  override_profile :: "RuntimeProfile option"
  disallow_fallback :: bool
  require_evidence :: bool
  ignore_residency :: bool

record ExecutionSubject =
  facts :: ModelFacts
  subject_provider :: ProviderFacts
  runtime_profile :: RuntimeProfile
  served_context :: ServedContext
  signals :: "CapabilitySignal list"
  adapter :: "AdapterFacts option"

definition runtime_profile_hash :: "packages \<Rightarrow> ExecutionSubject \<Rightarrow> string" where
  "runtime_profile_hash pkg s = profile_hash pkg (runtime_profile s)"

definition subject_canonical_id :: "packages \<Rightarrow> ExecutionSubject \<Rightarrow> string" where
  "subject_canonical_id pkg s =
     (case adapter s of None \<Rightarrow> canonical_id (facts s)
      | Some a \<Rightarrow> canonical_id (facts s) @ adapter_suffix pkg a)"

subsection \<open>Resolving a runtime profile\<close>

definition first_of :: "'a option \<Rightarrow> 'a option \<Rightarrow> 'a option" where
  "first_of preferred fallback = (if preferred = None then fallback else preferred)"

definition merge :: "RuntimeProfile \<Rightarrow> RuntimeProfile option \<Rightarrow> RuntimeProfile" where
  "merge base layer =
     (case layer of None \<Rightarrow> base
      | Some l \<Rightarrow> \<lparr>context_size = first_of (context_size l) (context_size base),
          kv_cache_precision = first_of (kv_cache_precision l) (kv_cache_precision base),
          gpu_layers = first_of (gpu_layers l) (gpu_layers base),
          flash_attention = first_of (flash_attention l) (flash_attention base),
          threads = first_of (threads l) (threads base),
          batch_size = first_of (batch_size l) (batch_size base),
          keep_alive = first_of (keep_alive l) (keep_alive base),
          provider_options = fold (\<lambda>(k, v). AList.update k v) (provider_options l) (provider_options base),
          profile_adapters_registered = None\<rparr>)"

definition apply_task_profile_context :: "RuntimeProfile \<Rightarrow> int \<Rightarrow> bool \<Rightarrow> RuntimeProfile" where
  "apply_task_profile_context profile min_context_tokens configurable =
     (if min_context_tokens \<le> 0 \<or> \<not> configurable \<or> context_size profile \<noteq> None then profile
      else profile\<lparr>context_size := Some min_context_tokens, profile_adapters_registered := None\<rparr>)"

definition resolve_runtime_profile :: "RuntimeProfile \<Rightarrow> RuntimeProfile option \<Rightarrow> int \<Rightarrow> bool \<Rightarrow>
    RuntimeProfile option \<Rightarrow> bool option \<Rightarrow> RuntimeProfile" where
  "resolve_runtime_profile defaults per_model min_context_tokens configurable overriding registered =
     (let resolved = merge defaults per_model;
          resolved2 = apply_task_profile_context resolved min_context_tokens configurable;
          resolved3 = merge resolved2 overriding
      in (case registered of None \<Rightarrow> resolved3
          | Some b \<Rightarrow> resolved3\<lparr>profile_adapters_registered := Some b\<rparr>))"

text \<open>\<open>reason\<close> and \<open>detail\<close> of the refusal, the first stated field winning.\<close>

definition runtime_profile_refusal :: "RuntimeProfile \<Rightarrow> string \<Rightarrow> (string \<times> (string \<times> json) list) option" where
  "runtime_profile_refusal profile kind =
     (let stated = (case flash_attention profile of None \<Rightarrow> [] | Some b \<Rightarrow> [(''flash_attention'', JBool b)]) @
                   (case kv_cache_precision profile of None \<Rightarrow> [] | Some p \<Rightarrow> [(''kv_cache_precision'', JStr p)])
      in if kind = ''ollama'' \<and> stated \<noteq> [] then
           Some (''runtime_setting_unhonoured'',
             [(''field'', JStr (fst (hd stated))), (''value'', snd (hd stated)), (''provider_kind'', JStr kind)])
         else if kv_cache_precision profile \<in> Some ` {''q8_0'', ''q4_0''} \<and> flash_attention profile \<noteq> Some True then
           Some (''kv_cache_needs_flash_attention'',
             [(''kv_cache_precision'', of_opt_str (kv_cache_precision profile)),
              (''flash_attention'', (case flash_attention profile of None \<Rightarrow> JNull | Some b \<Rightarrow> JBool b))])
         else None)"

definition resolve_served_context :: "RuntimeProfile \<Rightarrow> ProviderFacts \<Rightarrow> int option \<Rightarrow> ServedContext option" where
  "resolve_served_context profile provider advertised =
     (case context_size profile of
        Some c \<Rightarrow> if context_configurable provider then Some \<lparr>tokens = c, context_source = ''configured''\<rparr>
          else (case reported_served_context provider of
                  Some r \<Rightarrow> Some \<lparr>tokens = r, context_source = ''reported''\<rparr>
                | None \<Rightarrow> map_option (\<lambda>m. \<lparr>tokens = m, context_source = ''assumed''\<rparr>) advertised)
      | None \<Rightarrow> (case reported_served_context provider of
                  Some r \<Rightarrow> Some \<lparr>tokens = r, context_source = ''reported''\<rparr>
                | None \<Rightarrow> map_option (\<lambda>m. \<lparr>tokens = m, context_source = ''assumed''\<rparr>) advertised))"

definition signals_by_capability :: "CapabilitySignal list \<Rightarrow> (string, CapabilitySignal list) dict" where
  "signals_by_capability sigs = group_by sig_capability_id sigs"

subsection \<open>Precedence\<close>

lemma first_of_simps [simp]:
  "first_of None y = y" "first_of (Some x) y = Some x"
  by (simp_all add: first_of_def)

lemma map_of_fold_update:
  "map_of (fold (\<lambda>(k, v). AList.update k v) xs d) k =
     (case map_of (rev xs) k of None \<Rightarrow> map_of d k | Some v \<Rightarrow> Some v)"
  by (induction xs arbitrary: d) (auto simp: alist.get_put map_add_def split: option.splits)

definition stated :: "(RuntimeProfile \<Rightarrow> 'a option) \<Rightarrow> RuntimeProfile option \<Rightarrow> 'a option" where
  "stated f p = (case p of None \<Rightarrow> None | Some q \<Rightarrow> f q)"

text \<open>
  Each setting of a resolved profile is the one of the most specific level that states it:
  the request, then the model's own section, then the defaults; a level that says nothing keeps
  what an earlier one said. The task profile's context requirement is applied only where the
  provider can be configured and neither the model's section nor the defaults state a context,
  and a request still overrides it.
\<close>

theorem resolve_precedence:
  fixes defaults :: RuntimeProfile and per_model overriding :: "RuntimeProfile option"
    and min_context :: int and configurable :: bool and registered :: "bool option"
  defines "r \<equiv> resolve_runtime_profile defaults per_model min_context configurable overriding registered"
  shows "context_size r = first_of (stated context_size overriding)
      (first_of (first_of (stated context_size per_model) (context_size defaults))
        (if configurable \<and> 0 < min_context then Some min_context else None)) \<and>
    kv_cache_precision r = first_of (stated kv_cache_precision overriding)
      (first_of (stated kv_cache_precision per_model) (kv_cache_precision defaults)) \<and>
    gpu_layers r = first_of (stated gpu_layers overriding) (first_of (stated gpu_layers per_model) (gpu_layers defaults)) \<and>
    flash_attention r = first_of (stated flash_attention overriding)
      (first_of (stated flash_attention per_model) (flash_attention defaults)) \<and>
    threads r = first_of (stated threads overriding) (first_of (stated threads per_model) (threads defaults)) \<and>
    batch_size r = first_of (stated batch_size overriding) (first_of (stated batch_size per_model) (batch_size defaults)) \<and>
    keep_alive r = first_of (stated keep_alive overriding) (first_of (stated keep_alive per_model) (keep_alive defaults)) \<and>
    (\<forall>b. registered = Some b \<longrightarrow> profile_adapters_registered r = Some b)"
proof -
  have m: "context_size (merge p l) = first_of (stated context_size l) (context_size p)"
    "kv_cache_precision (merge p l) = first_of (stated kv_cache_precision l) (kv_cache_precision p)"
    "gpu_layers (merge p l) = first_of (stated gpu_layers l) (gpu_layers p)"
    "flash_attention (merge p l) = first_of (stated flash_attention l) (flash_attention p)"
    "threads (merge p l) = first_of (stated threads l) (threads p)"
    "batch_size (merge p l) = first_of (stated batch_size l) (batch_size p)"
    "keep_alive (merge p l) = first_of (stated keep_alive l) (keep_alive p)" for p l
    by (auto simp: merge_def stated_def split: option.splits)
  have t: "kv_cache_precision (apply_task_profile_context p n c) = kv_cache_precision p"
    "gpu_layers (apply_task_profile_context p n c) = gpu_layers p"
    "flash_attention (apply_task_profile_context p n c) = flash_attention p"
    "threads (apply_task_profile_context p n c) = threads p"
    "batch_size (apply_task_profile_context p n c) = batch_size p"
    "keep_alive (apply_task_profile_context p n c) = keep_alive p"
    "context_size (apply_task_profile_context p n c) =
       first_of (context_size p) (if c \<and> 0 < n then Some n else None)" for p n c
    by (auto simp: apply_task_profile_context_def first_of_def)
  show ?thesis
    by (cases registered) (simp_all add: r_def resolve_runtime_profile_def Let_def m t)
qed

theorem resolve_precedence_witness:
  "profile_adapters_registered (resolve_runtime_profile empty_profile
     (Some (empty_profile\<lparr>context_size := Some 4096\<rparr>)) 16384 True None (Some True)) = Some True"
  using resolve_precedence[of empty_profile "Some (empty_profile\<lparr>context_size := Some 4096\<rparr>)" 16384 True None "Some True"]
  by blast

text \<open>
  A served context is reported as configured only when the profile states it and the
  provider accepts it; a provider's own report beats the advertised maximum; the advertised
  maximum is used only when nothing else is known, and is then marked as assumed; no context is
  ever invented.
\<close>

theorem served_context_source:
  "resolve_served_context p provider advertised = Some c \<Longrightarrow>
     (context_source c = ''configured'' \<longleftrightarrow> context_size p = Some (tokens c) \<and> context_configurable provider) \<and>
     (context_source c = ''reported'' \<longrightarrow> reported_served_context provider = Some (tokens c)) \<and>
     (context_source c = ''assumed'' \<longrightarrow>
        advertised = Some (tokens c) \<and> reported_served_context provider = None \<and>
        (context_size p = None \<or> \<not> context_configurable provider)) \<and>
     context_source c \<in> {''configured'', ''reported'', ''assumed''}"
  by (auto simp: resolve_served_context_def split: option.splits if_splits)

definition plain_provider :: ProviderFacts where
  "plain_provider = \<lparr>healthy = True, context_configurable = False, reported_served_context = None,
     supports_tool_use = False, supports_structured_output = False, supports_streaming = False,
     supports_thinking_control = False, provider_is_remote = False, adapter_hot_swap = False,
     adapters_registered = None\<rparr>"

theorem served_context_source_witness:
  "context_source (the (resolve_served_context (empty_profile\<lparr>context_size := Some 8192\<rparr>) plain_provider (Some 4096)))
     \<noteq> ''configured''"
proof -
  have "resolve_served_context (empty_profile\<lparr>context_size := Some 8192\<rparr>) plain_provider (Some 4096) =
      Some \<lparr>tokens = 4096, context_source = ''assumed''\<rparr>"
    by (simp add: resolve_served_context_def plain_provider_def)
  from served_context_source[OF this] this show ?thesis by (simp add: plain_provider_def)
qed

end
