(* ===== verification/Reliability.thy ===== *)
theory Reliability
  imports Values
begin

section \<open>Production reliability statistics\<close>

text \<open>
  Models \<^verbatim>\<open>src/src/loadcoach/domain/reliability.py\<close>: the rolling windows, the statistics of one window
  computed from scratch, the ledger that folds samples and trims what left the window, the
  reliability factor routing multiplies a score with, and the regression verdict.
  Means and rates are Python floats: int division rounds once, \<open>sum\<close> of floats is the
  compensated \<open>fsum\<close>. The lines a factor or a verdict prints are datatypes holding the values
  they format.
\<close>

subsection \<open>Constants and windows\<close>

definition PRODUCTION_MINIMUM_SAMPLES :: int where "PRODUCTION_MINIMUM_SAMPLES = 20"
definition MINIMUM_RATE_SAMPLES :: int where "MINIMUM_RATE_SAMPLES = 5"
definition MINIMUM_MEAN_SAMPLES :: int where "MINIMUM_MEAN_SAMPLES = 5"
definition MINIMUM_PERCENTILE_SAMPLES :: int where "MINIMUM_PERCENTILE_SAMPLES = 20"
definition RELIABILITY_FACTOR_FLOOR :: float64 where "RELIABILITY_FACTOR_FLOOR = fl (1 / 2)"
definition FEEDBACK_WEIGHT :: float64 where "FEEDBACK_WEIGHT = fl (1 / 2)"
definition EDITED_ACCEPTANCE_CREDIT :: float64 where "EDITED_ACCEPTANCE_CREDIT = fl (1 / 2)"
definition REGRESSION_MINIMUM_SAMPLES :: int where "REGRESSION_MINIMUM_SAMPLES = 20"
definition REGRESSION_MINIMUM_DROP :: float64 where "REGRESSION_MINIMUM_DROP = fl (15 / 100)"
definition REGRESSION_Z_THRESHOLD :: float64 where "REGRESSION_Z_THRESHOLD = 2"

definition SUCCESS_OUTCOMES :: "string set" where
  "SUCCESS_OUTCOMES = {''completed'', ''validation_failed''}"

definition TIMEOUT_OUTCOMES :: "string set" where "TIMEOUT_OUTCOMES = {''timeout''}"
definition CANCELLED_OUTCOMES :: "string set" where "CANCELLED_OUTCOMES = {''cancelled''}"
definition VALIDATED_OUTCOME :: string where "VALIDATED_OUTCOME = ''completed''"

record Window =
  window_name :: string
  window_length :: "float64 option"

definition horizon :: "Window \<Rightarrow> instant \<Rightarrow> instant option" where
  "horizon window now = map_option (\<lambda>s. now - timedelta_seconds s) (window_length window)"

definition WINDOW_7D :: Window where
  "WINDOW_7D = \<lparr>window_name = ''7d'', window_length = Some (7 * 86400)\<rparr>"

definition WINDOW_30D :: Window where
  "WINDOW_30D = \<lparr>window_name = ''30d'', window_length = Some (30 * 86400)\<rparr>"

definition WINDOW_ALL :: Window where
  "WINDOW_ALL = \<lparr>window_name = ''all'', window_length = None\<rparr>"

definition WINDOWS :: "Window list" where "WINDOWS = [WINDOW_7D, WINDOW_30D, WINDOW_ALL]"

definition FACTOR_WINDOWS :: "Window list" where "FACTOR_WINDOWS = [WINDOW_7D, WINDOW_30D]"

datatype stats_error = UnknownWindow string | PercentileOfEmpty | PercentileRange float64

definition window_named :: "string \<Rightarrow> stats_error + Window" where
  "window_named name =
     (case find (\<lambda>w. window_name w = name) WINDOWS of
        None \<Rightarrow> Inl (UnknownWindow name) | Some w \<Rightarrow> Inr w)"

definition in_window :: "Window \<Rightarrow> instant \<Rightarrow> instant \<Rightarrow> bool" where
  "in_window window now t =
     (if t > now then False
      else (case horizon window now of None \<Rightarrow> True | Some h \<Rightarrow> t > h))"

subsection \<open>Samples\<close>

record AttemptOutcome =
  att_at :: instant
  att_outcome :: string
  att_latency_ms :: "int option"
  att_output_tokens :: "int option"

definition att_counted :: "AttemptOutcome \<Rightarrow> bool" where
  "att_counted a \<longleftrightarrow> att_outcome a \<notin> CANCELLED_OUTCOMES"

definition att_tokens_per_second :: "AttemptOutcome \<Rightarrow> float64 option" where
  "att_tokens_per_second a =
     (case (att_latency_ms a, att_output_tokens a) of
        (Some l, Some n) \<Rightarrow>
          if l \<le> 0 then None else Some (fl (fl (of_int n) / fl (fl (of_int l) / 1000)))
      | _ \<Rightarrow> None)"

record FeedbackOutcome =
  fb_at :: instant
  fb_accepted :: bool
  fb_quality_score :: "float64 option"
  fb_edited :: bool
  fb_validation_passed :: "bool option"

definition counts_as_success :: "string \<Rightarrow> bool" where
  "counts_as_success outcome \<longleftrightarrow> outcome \<in> SUCCESS_OUTCOMES"

definition acceptance_credit :: "FeedbackOutcome \<Rightarrow> float64" where
  "acceptance_credit f =
     (if fb_validation_passed f = Some False \<or> \<not> fb_accepted f then 0
      else if fb_edited f then EDITED_ACCEPTANCE_CREDIT else 1)"

text \<open>A computed rank of 0 would index the last element, as Python's \<open>ordered[-1]\<close> does.\<close>

definition percentile :: "int list \<Rightarrow> float64 \<Rightarrow> stats_error + int" where
  "percentile vals q =
     (if vals = [] then Inl PercentileOfEmpty
      else if \<not> (0 < q \<and> q \<le> 1) then Inl (PercentileRange q)
      else (let ordered = sort vals;
                rank = \<lceil>fl (q * fl (of_int (int (length ordered))))\<rceil>
            in Inr (if rank = 0 then last ordered else ordered ! nat (rank - 1))))"

subsection \<open>Statistics of one window\<close>

record Statistic =
  stat_value :: "float64 option"
  stat_samples :: int
  stat_minimum :: int

definition bounded :: "float64 option \<Rightarrow> int \<Rightarrow> int \<Rightarrow> Statistic" where
  "bounded v samples minimum =
     \<lparr>stat_value = (if samples < minimum then None else v), stat_samples = samples,
      stat_minimum = minimum\<rparr>"

definition stat_reason :: "Statistic \<Rightarrow> string option" where
  "stat_reason s =
     (if stat_value s \<noteq> None then None
      else Some (str_int (stat_samples s) @ '' sample(s); '' @ str_int (stat_minimum s) @ '' needed''))"

record WindowStats =
  ws_window :: string
  ws_attempts :: int
  ws_successes :: int
  ws_validation_passes :: int
  ws_errors :: int
  ws_timeouts :: int
  ws_cancellations :: int
  ws_latency_count :: int
  ws_p50_latency_ms :: "int option"
  ws_p95_latency_ms :: "int option"
  ws_output_token_count :: int
  ws_mean_output_tokens :: "float64 option"
  ws_tokens_per_second_count :: int
  ws_mean_tokens_per_second :: "float64 option"
  ws_feedback_count :: int
  ws_acceptance_rate :: "float64 option"
  ws_quality_count :: int
  ws_mean_quality :: "float64 option"

definition counted_attempts :: "WindowStats \<Rightarrow> int" where
  "counted_attempts w = ws_attempts w - ws_cancellations w"

definition failures :: "WindowStats \<Rightarrow> int" where
  "failures w = ws_errors w + ws_timeouts w"

definition ratio :: "int \<Rightarrow> int \<Rightarrow> float64 option" where
  "ratio a b = (if b = 0 then None else Some (fl (of_int a / of_int b)))"

definition success_rate :: "WindowStats \<Rightarrow> Statistic" where
  "success_rate w = bounded (ratio (ws_successes w) (counted_attempts w)) (counted_attempts w) MINIMUM_RATE_SAMPLES"

definition validation_pass_rate :: "WindowStats \<Rightarrow> Statistic" where
  "validation_pass_rate w = bounded (ratio (ws_validation_passes w) (ws_successes w)) (ws_successes w) MINIMUM_RATE_SAMPLES"

definition validated_success_rate :: "WindowStats \<Rightarrow> Statistic" where
  "validated_success_rate w =
     bounded (ratio (ws_validation_passes w) (counted_attempts w)) (counted_attempts w) MINIMUM_RATE_SAMPLES"

definition error_rate :: "WindowStats \<Rightarrow> Statistic" where
  "error_rate w = bounded (ratio (ws_errors w) (counted_attempts w)) (counted_attempts w) MINIMUM_RATE_SAMPLES"

definition timeout_rate :: "WindowStats \<Rightarrow> Statistic" where
  "timeout_rate w = bounded (ratio (ws_timeouts w) (counted_attempts w)) (counted_attempts w) MINIMUM_RATE_SAMPLES"

definition mean_of :: "float64 \<Rightarrow> nat \<Rightarrow> int \<Rightarrow> float64 option" where
  "mean_of s n minimum = (if int n < minimum then None else Some (fl (s / of_int (int n))))"

definition window_percentile :: "int list \<Rightarrow> float64 \<Rightarrow> stats_error + int option" where
  "window_percentile latencies q =
     (if int (length latencies) < MINIMUM_PERCENTILE_SAMPLES then Inr None
      else map_sum id Some (percentile latencies q))"

definition compute_stats :: "AttemptOutcome list \<Rightarrow> FeedbackOutcome list \<Rightarrow> Window \<Rightarrow> instant \<Rightarrow>
    stats_error + WindowStats" where
  "compute_stats attempts feedback window now =
     (let counted = filter (\<lambda>a. in_window window now (att_at a)) attempts;
          heard = filter (\<lambda>f. in_window window now (fb_at f)) feedback;
          successes = int (length (filter (\<lambda>a. counts_as_success (att_outcome a)) counted));
          passes = int (length (filter (\<lambda>a. att_outcome a = VALIDATED_OUTCOME) counted));
          timeouts = int (length (filter (\<lambda>a. att_outcome a \<in> TIMEOUT_OUTCOMES) counted));
          cancellations = int (length (filter (\<lambda>a. att_outcome a \<in> CANCELLED_OUTCOMES) counted));
          latencies = List.map_filter att_latency_ms counted;
          tokens = List.map_filter att_output_tokens counted;
          throughputs = List.map_filter att_tokens_per_second counted;
          creds = map acceptance_credit heard;
          qualities = List.map_filter fb_quality_score heard
      in bind_result (window_percentile latencies (fl (1 / 2))) (\<lambda>p50.
         bind_result (window_percentile latencies (fl (95 / 100))) (\<lambda>p95.
         Inr \<lparr>ws_window = window_name window, ws_attempts = int (length counted),
              ws_successes = successes, ws_validation_passes = passes,
              ws_errors = int (length counted) - successes - timeouts - cancellations,
              ws_timeouts = timeouts, ws_cancellations = cancellations,
              ws_latency_count = int (length latencies), ws_p50_latency_ms = p50, ws_p95_latency_ms = p95,
              ws_output_token_count = int (length tokens),
              ws_mean_output_tokens = mean_of (of_int (sum_list tokens)) (length tokens) MINIMUM_MEAN_SAMPLES,
              ws_tokens_per_second_count = int (length throughputs),
              ws_mean_tokens_per_second = mean_of (fsum throughputs) (length throughputs) MINIMUM_MEAN_SAMPLES,
              ws_feedback_count = int (length creds),
              ws_acceptance_rate = mean_of (fsum creds) (length creds) MINIMUM_RATE_SAMPLES,
              ws_quality_count = int (length qualities),
              ws_mean_quality = mean_of (fsum qualities) (length qualities) MINIMUM_MEAN_SAMPLES\<rparr>)))"

record ReliabilityLedger =
  ledger_window :: Window
  ledger_attempts :: "AttemptOutcome list"
  ledger_feedback :: "FeedbackOutcome list"

definition with_attempt :: "ReliabilityLedger \<Rightarrow> AttemptOutcome \<Rightarrow> ReliabilityLedger" where
  "with_attempt l a = l\<lparr>ledger_attempts := ledger_attempts l @ [a]\<rparr>"

definition with_feedback :: "ReliabilityLedger \<Rightarrow> FeedbackOutcome \<Rightarrow> ReliabilityLedger" where
  "with_feedback l f = l\<lparr>ledger_feedback := ledger_feedback l @ [f]\<rparr>"

definition trimmed :: "ReliabilityLedger \<Rightarrow> instant \<Rightarrow> ReliabilityLedger" where
  "trimmed l now =
     (case horizon (ledger_window l) now of
        None \<Rightarrow> l
      | Some h \<Rightarrow> l\<lparr>ledger_attempts := filter (\<lambda>a. att_at a > h) (ledger_attempts l),
                   ledger_feedback := filter (\<lambda>f. fb_at f > h) (ledger_feedback l)\<rparr>)"

definition ledger_stats :: "ReliabilityLedger \<Rightarrow> instant \<Rightarrow> stats_error + WindowStats" where
  "ledger_stats l now = compute_stats (ledger_attempts l) (ledger_feedback l) (ledger_window l) now"

subsection \<open>The factor\<close>

datatype factor_reason =
    NeutralReason "(string, int) dict"
  | LiveReason string int int float64 int float64 "float64 option" int float64

record ReliabilityFactor =
  rf_value :: float64
  rf_window :: "string option"
  rf_attempts :: int
  rf_reason :: factor_reason
  rf_success_rate :: "float64 option"
  rf_validation_pass_rate :: "float64 option"
  rf_error_rate :: "float64 option"
  rf_timeout_rate :: "float64 option"
  rf_acceptance_rate :: "float64 option"
  rf_feedback_count :: int

definition rf_neutral :: "ReliabilityFactor \<Rightarrow> bool" where
  "rf_neutral f \<longleftrightarrow> rf_window f = None"

definition neutral_factor :: "(string, int) dict \<Rightarrow> ReliabilityFactor" where
  "neutral_factor attempts_by_window =
     \<lparr>rf_value = 1, rf_window = None,
      rf_attempts = (case map snd attempts_by_window of [] \<Rightarrow> 0 | x # xs \<Rightarrow> foldl max x xs),
      rf_reason = NeutralReason attempts_by_window, rf_success_rate = None,
      rf_validation_pass_rate = None, rf_error_rate = None, rf_timeout_rate = None,
      rf_acceptance_rate = None, rf_feedback_count = 0\<rparr>"

definition live_factor :: "string \<Rightarrow> WindowStats \<Rightarrow> ReliabilityFactor" where
  "live_factor name stats =
     (let n = counted_attempts stats;
          success = fl (of_int (ws_successes stats) / of_int n);
          validation = (if ws_successes stats = 0 then 1
                        else fl (of_int (ws_validation_passes stats) / of_int (ws_successes stats)));
          acceptance = (if ws_feedback_count stats \<ge> MINIMUM_RATE_SAMPLES then ws_acceptance_rate stats else None);
          feedback_term = (case acceptance of None \<Rightarrow> 1
                           | Some a \<Rightarrow> fl (1 - fl (FEEDBACK_WEIGHT * fl (1 - a))));
          v = fl (RELIABILITY_FACTOR_FLOOR
                + fl (fl (1 - RELIABILITY_FACTOR_FLOOR) * fl (fl (success * validation) * feedback_term)))
      in \<lparr>rf_value = v, rf_window = Some name, rf_attempts = n,
          rf_reason = LiveReason name (ws_successes stats) n success (ws_validation_passes stats) validation
            acceptance (ws_feedback_count stats) v,
          rf_success_rate = Some success,
          rf_validation_pass_rate = (if ws_successes stats = 0 then None else Some validation),
          rf_error_rate = Some (fl (of_int (ws_errors stats) / of_int n)),
          rf_timeout_rate = Some (fl (of_int (ws_timeouts stats) / of_int n)),
          rf_acceptance_rate = acceptance, rf_feedback_count = ws_feedback_count stats\<rparr>)"

definition reliability_factor :: "(string, WindowStats) dict \<Rightarrow> ReliabilityFactor" where
  "reliability_factor stats_by_window =
     (let counts = List.map_filter (\<lambda>w. map_option (\<lambda>s. (window_name w, counted_attempts s))
                     (map_of stats_by_window (window_name w))) FACTOR_WINDOWS;
          qualifies = (\<lambda>w. case map_of stats_by_window (window_name w) of
                              None \<Rightarrow> False
                            | Some s \<Rightarrow> \<not> counted_attempts s < PRODUCTION_MINIMUM_SAMPLES)
      in (case find qualifies FACTOR_WINDOWS of
            None \<Rightarrow> neutral_factor counts
          | Some w \<Rightarrow> live_factor (window_name w) (the (map_of stats_by_window (window_name w)))))"

subsection \<open>Regression\<close>

datatype regression_status = Regressed | Stable | InsufficientSamples

datatype regression_reason = NotEvaluated int int | Compared bool float64 int float64 int float64 float64

record RegressionVerdict =
  rv_status :: regression_status
  rv_recent_rate :: "float64 option"
  rv_baseline_rate :: "float64 option"
  rv_drop :: "float64 option"
  rv_z_score :: "float64 option"
  rv_recent_samples :: int
  rv_baseline_samples :: int
  rv_reason :: regression_reason

definition detect_regression :: "WindowStats \<Rightarrow> WindowStats \<Rightarrow> RegressionVerdict" where
  "detect_regression recent all_time =
     (let recent_n = counted_attempts recent;
          baseline_n = counted_attempts all_time - counted_attempts recent;
          baseline_passes = ws_validation_passes all_time - ws_validation_passes recent
      in if recent_n < REGRESSION_MINIMUM_SAMPLES \<or> baseline_n < REGRESSION_MINIMUM_SAMPLES then
           \<lparr>rv_status = InsufficientSamples,
            rv_recent_rate = ratio (ws_validation_passes recent) recent_n,
            rv_baseline_rate = (if baseline_n \<le> 0 then None else ratio baseline_passes baseline_n),
            rv_drop = None, rv_z_score = None, rv_recent_samples = recent_n,
            rv_baseline_samples = max baseline_n 0,
            rv_reason = NotEvaluated recent_n (max baseline_n 0)\<rparr>
         else
           (let recent_rate = fl (of_int (ws_validation_passes recent) / of_int recent_n);
                baseline_rate = fl (of_int baseline_passes / of_int baseline_n);
                drop = fl (baseline_rate - recent_rate);
                pooled = fl (of_int (ws_validation_passes recent + baseline_passes) / of_int (recent_n + baseline_n));
                variance = fl (fl (pooled * fl (1 - pooled))
                             * fl (fl (1 / fl (of_int recent_n)) + fl (1 / fl (of_int baseline_n))));
                z_score = (if variance = 0 then 0 else fl (drop / fl_sqrt variance));
                regressed = (drop \<ge> REGRESSION_MINIMUM_DROP \<and> z_score \<ge> REGRESSION_Z_THRESHOLD)
            in \<lparr>rv_status = (if regressed then Regressed else Stable),
                rv_recent_rate = Some recent_rate, rv_baseline_rate = Some baseline_rate,
                rv_drop = Some drop, rv_z_score = Some z_score, rv_recent_samples = recent_n,
                rv_baseline_samples = baseline_n,
                rv_reason = Compared regressed recent_rate recent_n baseline_rate baseline_n drop z_score\<rparr>))"

subsection \<open>The nearest-rank percentile\<close>

lemma percentile_rank_bounds:
  assumes "0 < n" "int n \<le> 2 ^ 53" "0 < q" "q \<le> 1"
  shows "0 \<le> \<lceil>fl (q * fl (of_int (int n)))\<rceil> \<and> \<lceil>fl (q * fl (of_int (int n)))\<rceil> \<le> int n"
proof -
  have n: "fl (of_int (int n)) = of_int (int n)" using assms by (intro fl_of_int) simp
  have "q * of_int (int n) \<le> of_int (int n)" using assms by (simp add: mult_left_le_one_le)
  then have "fl (q * of_int (int n)) \<le> of_int (int n)" using assms by (intro double.rnd_le_int) auto
  moreover have "0 \<le> fl (q * of_int (int n))" using assms by (intro fl_nonneg) simp
  ultimately show ?thesis unfolding n by (simp add: ceiling_le_iff le_ceiling_iff)
qed

lemma length_filter_le_nth:
  assumes "sorted xs" "k < length xs"
  shows "Suc k \<le> length (filter (\<lambda>x. x \<le> xs ! k) xs) \<and> length xs - k \<le> length (filter (\<lambda>x. xs ! k \<le> x) xs)"
proof -
  have "filter (\<lambda>x. x \<le> xs ! k) (take (Suc k) xs) = take (Suc k) xs"
    using assms by (auto simp: filter_id_conv in_set_conv_nth sorted_nth_mono)
  moreover have "filter (\<lambda>x. xs ! k \<le> x) (drop k xs) = drop k xs"
    using assms by (auto simp: filter_id_conv in_set_conv_nth sorted_nth_mono)
  moreover have "length (filter P ys) \<le> length (filter P (ys @ zs))"
    "length (filter P zs) \<le> length (filter P (ys @ zs))" for P and ys zs :: "'a list" by simp_all
  ultimately show ?thesis
    using assms(2) append_take_drop_id[of "Suc k" xs] append_take_drop_id[of k xs]
    by (metis (no_types, lifting) Suc_leI length_drop length_take min.absorb2)
qed

text \<open>
  A percentile is a value that was measured, and it has the rank it claims: with
  \<open>r\<close> the rounded-up product of the quantile and the number of values, at least \<open>r\<close>
  values are at most the result and at least \<open>n - r + 1\<close> values are at least the result. The
  only errors are an empty sequence and a quantile outside \<open>(0, 1]\<close>.
\<close>

theorem percentile_nearest_rank:
  assumes "vals \<noteq> []" "int (length vals) \<le> 2 ^ 53" "0 < q" "q \<le> 1"
    and "r = nat \<lceil>fl (q * fl (of_int (int (length vals))))\<rceil>" "0 < r"
  shows "\<exists>p. percentile vals q = Inr p \<and> p \<in> set vals \<and>
    r \<le> length (filter (\<lambda>x. x \<le> p) vals) \<and> length vals - r + 1 \<le> length (filter (\<lambda>x. p \<le> x) vals)"
proof -
  define p where "p = sort vals ! (r - 1)"
  have r: "r \<le> length vals"
    using percentile_rank_bounds[of "length vals" q] assms by auto
  then have k: "r - 1 < length (sort vals)" using assms(6) by simp
  have "\<lceil>fl (q * fl (of_int (int (length (sort vals)))))\<rceil> = int r"
    using assms(5,6) by simp
  then have "percentile vals q = Inr p"
    using assms(1,3,4,6) by (simp add: percentile_def Let_def p_def nat_diff_distrib del: of_int_of_nat_eq length_sort)
  moreover have "p \<in> set vals" using k by (metis p_def nth_mem set_sort)
  moreover have "length (filter P (sort vals)) = length (filter P vals)" for P
    by (metis filter_sort length_sort)
  ultimately show ?thesis
    using length_filter_le_nth[OF sorted_sort k] r assms(6) by (auto simp: p_def)
qed

theorem percentile_nearest_rank_witness:
  "\<exists>p. percentile [30, 10, 20] (fl (1 / 2)) = Inr p \<and> p \<in> {30, 10, 20} \<and>
     2 \<le> length (filter (\<lambda>x. x \<le> p) [30, 10, 20])"
proof -
  have "fl (fl (1 / 2) * fl 3) = 3 / 2" by code_simp
  moreover have "nat \<lceil>3 / 2 :: rat\<rceil> = 2" by code_simp
  ultimately have "nat \<lceil>fl (fl (1 / 2) * fl 3)\<rceil> = 2" by (simp only:)
  then have "2 = nat \<lceil>fl (fl (1 / 2) * fl (of_int (int (length [30, 10, 20 :: int]))))\<rceil>" by simp
  from percentile_nearest_rank[of "[30, 10, 20]" "fl (1 / 2)" 2, OF _ _ _ _ this]
  obtain p where "percentile [30, 10, 20] (fl (1 / 2)) = Inr p" "p \<in> set [30, 10, 20]"
    "2 \<le> length (filter (\<lambda>x. x \<le> p) [30, 10, 20])" by auto
  then show ?thesis by (intro exI[of _ p]) (simp only: list.set simp_thms)
qed

subsection \<open>Statistics: total and consistent\<close>

lemma compute_stats_total: "\<exists>w. compute_stats attempts feedback window now = Inr w"
proof -
  have "\<exists>p. window_percentile ls q = Inr p" if "0 < q" "q \<le> 1" for ls q
    using that by (auto simp: window_percentile_def percentile_def Let_def MINIMUM_PERCENTILE_SAMPLES_def)
  moreover have "0 < fl (1 / 2)" "fl (1 / 2) \<le> 1" "0 < fl (95 / 100)" "fl (95 / 100) \<le> 1"
    by (simp, simp, code_simp, code_simp)
  ultimately obtain f g where
    p: "\<And>ls. window_percentile ls (fl (1 / 2)) = Inr (f ls)"
    "\<And>ls. window_percentile ls (fl (95 / 100)) = Inr (g ls)" by metis
  show ?thesis unfolding compute_stats_def Let_def p by simp
qed

definition stats_ok :: "WindowStats \<Rightarrow> bool" where
  "stats_ok w \<longleftrightarrow>
     0 \<le> ws_validation_passes w \<and> ws_validation_passes w \<le> ws_successes w \<and>
     0 \<le> ws_errors w \<and> 0 \<le> ws_timeouts w \<and> 0 \<le> ws_cancellations w \<and>
     ws_attempts w = ws_successes w + ws_errors w + ws_timeouts w + ws_cancellations w \<and>
     (case ws_acceptance_rate w of None \<Rightarrow> True | Some a \<Rightarrow> 0 \<le> a \<and> a \<le> 1)"

lemma credit_halves: "\<exists>k. acceptance_credit f = of_int k / 2 \<and> 0 \<le> k \<and> k \<le> 2"
  by (auto simp: acceptance_credit_def EDITED_ACCEPTANCE_CREDIT_def
      intro: exI[of _ 0] exI[of _ 1] exI[of _ 2])

lemma acceptance_mean_unit:
  assumes "2 * int (length fs) < 2 ^ 53" "mean_of (fsum (map acceptance_credit fs)) (length fs) m = Some a"
  shows "0 \<le> a \<and> a \<le> 1"
proof -
  let ?s = "sum_list (map acceptance_credit fs)"
  have "fsum (map acceptance_credit fs) = ?s"
    using credit_halves assms(1) by (intro fsum_halves) auto
  then have a: "a = fl (?s / of_int (int (length fs)))"
    using assms(2) by (auto simp: mean_of_def split: if_splits)
  have c: "0 \<le> acceptance_credit f \<and> acceptance_credit f \<le> 1" for f
    by (simp add: acceptance_credit_def EDITED_ACCEPTANCE_CREDIT_def)
  have "0 \<le> ?s \<and> ?s \<le> of_int (int (length fs))"
    by (induction fs) (use c in \<open>auto simp: add_nonneg_nonneg intro: add_mono\<close>)
  then have "0 \<le> ?s / of_int (int (length fs)) \<and> ?s / of_int (int (length fs)) \<le> 1"
    by (cases "fs = []") (auto simp: divide_le_eq)
  then show ?thesis unfolding a by (simp add: fl_nonneg double.rnd_le_1)
qed

lemma outcome_partition:
  "length xs = length (filter (\<lambda>a. counts_as_success (att_outcome a)) xs)
     + length (filter (\<lambda>a. att_outcome a \<in> TIMEOUT_OUTCOMES) xs)
     + length (filter (\<lambda>a. att_outcome a \<in> CANCELLED_OUTCOMES) xs)
     + length (filter (\<lambda>a. \<not> counts_as_success (att_outcome a) \<and> att_outcome a \<notin> TIMEOUT_OUTCOMES
         \<and> att_outcome a \<notin> CANCELLED_OUTCOMES) xs)"
  by (induction xs)
    (auto simp: counts_as_success_def SUCCESS_OUTCOMES_def TIMEOUT_OUTCOMES_def CANCELLED_OUTCOMES_def)

lemma validated_le_success:
  "length (filter (\<lambda>a. att_outcome a = VALIDATED_OUTCOME) xs) \<le>
   length (filter (\<lambda>a. counts_as_success (att_outcome a)) xs)"
  by (induction xs) (auto simp: counts_as_success_def SUCCESS_OUTCOMES_def VALIDATED_OUTCOME_def)

lemma compute_stats_ok:
  assumes "compute_stats attempts feedback window now = Inr w" "2 * int (length feedback) < 2 ^ 53"
  shows "stats_ok w"
proof -
  define xs where "xs = filter (\<lambda>a. in_window window now (att_at a)) attempts"
  define fs where "fs = filter (\<lambda>f. in_window window now (fb_at f)) feedback"
  have "2 * int (length fs) < 2 ^ 53"
    using assms(2) length_filter_le[of _ feedback] unfolding fs_def
    by (metis (no_types, lifting) mult_left_mono of_nat_le_iff order_le_less_trans zero_le_numeral)
  then have acc: "mean_of (fsum (map acceptance_credit fs)) (length fs) m = Some a \<Longrightarrow> 0 \<le> a \<and> a \<le> 1" for a m
    by (rule acceptance_mean_unit)
  have "ws_attempts w = int (length xs)"
    "ws_successes w = int (length (filter (\<lambda>a. counts_as_success (att_outcome a)) xs))"
    "ws_validation_passes w = int (length (filter (\<lambda>a. att_outcome a = VALIDATED_OUTCOME) xs))"
    "ws_timeouts w = int (length (filter (\<lambda>a. att_outcome a \<in> TIMEOUT_OUTCOMES) xs))"
    "ws_cancellations w = int (length (filter (\<lambda>a. att_outcome a \<in> CANCELLED_OUTCOMES) xs))"
    "ws_errors w = ws_attempts w - ws_successes w - ws_timeouts w - ws_cancellations w"
    "ws_acceptance_rate w = mean_of (fsum (map acceptance_credit fs)) (length fs) MINIMUM_RATE_SAMPLES"
    using assms(1) by (auto simp: compute_stats_def Let_def bind_result_Inr_iff xs_def fs_def)
  then show ?thesis
    using outcome_partition[of xs] validated_le_success[of xs]
    by (auto simp: stats_ok_def acc split: option.splits)
qed

subsection \<open>The ledger\<close>

datatype ledger_event = FoldAttempt AttemptOutcome | FoldFeedback FeedbackOutcome | TrimAt instant

fun ledger_step :: "ReliabilityLedger \<Rightarrow> ledger_event \<Rightarrow> ReliabilityLedger" where
  "ledger_step l (FoldAttempt a) = with_attempt l a"
| "ledger_step l (FoldFeedback f) = with_feedback l f"
| "ledger_step l (TrimAt t) = trimmed l t"

definition event_attempts :: "ledger_event list \<Rightarrow> AttemptOutcome list" where
  "event_attempts es = List.map_filter (\<lambda>e. case e of FoldAttempt a \<Rightarrow> Some a | _ \<Rightarrow> None) es"

definition event_feedback :: "ledger_event list \<Rightarrow> FeedbackOutcome list" where
  "event_feedback es = List.map_filter (\<lambda>e. case e of FoldFeedback f \<Rightarrow> Some f | _ \<Rightarrow> None) es"

lemma ledger_window_step [simp]: "ledger_window (ledger_step l e) = ledger_window l"
  by (cases e) (auto simp: with_attempt_def with_feedback_def trimmed_def split: option.splits)

lemma filter_in_window_trim:
  "horizon w t = Some h \<Longrightarrow> t \<le> now \<Longrightarrow>
   filter (\<lambda>x. in_window w now (f x)) (filter (\<lambda>x. h < f x) xs) = filter (\<lambda>x. in_window w now (f x)) xs"
  by (auto simp: filter_filter in_window_def horizon_def split: option.splits intro!: filter_cong)

lemma ledger_step_visible:
  assumes "\<And>t. e = TrimAt t \<Longrightarrow> t \<le> now"
  shows "filter (\<lambda>a. in_window (ledger_window l) now (att_at a)) (ledger_attempts (ledger_step l e)) =
      filter (\<lambda>a. in_window (ledger_window l) now (att_at a)) (ledger_attempts l @ event_attempts [e])"
    and "filter (\<lambda>f. in_window (ledger_window l) now (fb_at f)) (ledger_feedback (ledger_step l e)) =
      filter (\<lambda>f. in_window (ledger_window l) now (fb_at f)) (ledger_feedback l @ event_feedback [e])"
proof (atomize (full), cases e)
  case (TrimAt t)
  then show "filter (\<lambda>a. in_window (ledger_window l) now (att_at a)) (ledger_attempts (ledger_step l e)) =
      filter (\<lambda>a. in_window (ledger_window l) now (att_at a)) (ledger_attempts l @ event_attempts [e]) \<and>
    filter (\<lambda>f. in_window (ledger_window l) now (fb_at f)) (ledger_feedback (ledger_step l e)) =
      filter (\<lambda>f. in_window (ledger_window l) now (fb_at f)) (ledger_feedback l @ event_feedback [e])"
    using assms[OF TrimAt]
    by (cases "horizon (ledger_window l) t")
      (simp_all add: trimmed_def event_attempts_def event_feedback_def List.map_filter_simps
        filter_in_window_trim del: filter_filter)
qed (simp_all add: with_attempt_def with_feedback_def event_attempts_def event_feedback_def
    List.map_filter_simps)

lemma ledger_visible:
  assumes "\<And>t. TrimAt t \<in> set es \<Longrightarrow> t \<le> now"
  shows "filter (\<lambda>a. in_window (ledger_window l) now (att_at a)) (ledger_attempts (foldl ledger_step l es)) =
      filter (\<lambda>a. in_window (ledger_window l) now (att_at a)) (ledger_attempts l @ event_attempts es) \<and>
    filter (\<lambda>f. in_window (ledger_window l) now (fb_at f)) (ledger_feedback (foldl ledger_step l es)) =
      filter (\<lambda>f. in_window (ledger_window l) now (fb_at f)) (ledger_feedback l @ event_feedback es) \<and>
    ledger_window (foldl ledger_step l es) = ledger_window l"
  using assms
proof (induction es arbitrary: l)
  case Nil
  then show ?case by (simp add: event_attempts_def event_feedback_def List.map_filter_simps)
next
  case (Cons e es)
  have split: "event_attempts (e # es) = event_attempts [e] @ event_attempts es"
    "event_feedback (e # es) = event_feedback [e] @ event_feedback es"
    by (auto simp: event_attempts_def event_feedback_def List.map_filter_simps split: option.splits)
  show ?case
    using Cons.IH[of "ledger_step l e"] Cons.prems ledger_step_visible[of e now l]
    by (simp add: split)
qed

lemma compute_stats_visible:
  "filter (\<lambda>a. in_window w now (att_at a)) as = filter (\<lambda>a. in_window w now (att_at a)) as' \<Longrightarrow>
   filter (\<lambda>f. in_window w now (fb_at f)) fs = filter (\<lambda>f. in_window w now (fb_at f)) fs' \<Longrightarrow>
   compute_stats as fs w now = compute_stats as' fs' w now"
  by (simp only: compute_stats_def)

text \<open>
  Folding samples one at a time and trimming whenever convenient computes the same
  statistics as computing them from scratch over everything ever folded, for every field, at
  every instant not before the last trim; neither ever fails.
\<close>

theorem ledger_equals_scratch:
  assumes "\<And>t. TrimAt t \<in> set events \<Longrightarrow> t \<le> now"
  shows "ledger_stats (foldl ledger_step \<lparr>ledger_window = w, ledger_attempts = [], ledger_feedback = []\<rparr> events) now
      = compute_stats (event_attempts events) (event_feedback events) w now \<and>
    (\<exists>s. compute_stats (event_attempts events) (event_feedback events) w now = Inr s)"
proof -
  let ?l = "\<lparr>ledger_window = w, ledger_attempts = [], ledger_feedback = []\<rparr>"
  have "ledger_stats (foldl ledger_step ?l events) now =
      compute_stats (event_attempts events) (event_feedback events) w now"
    unfolding ledger_stats_def using ledger_visible[where l = ?l, OF assms]
    by (simp only: ReliabilityLedger.simps append_Nil) (intro compute_stats_visible; blast)
  then show ?thesis using compute_stats_total by simp
qed

definition ledger_run :: "ledger_event list" where
  "ledger_run = [FoldAttempt \<lparr>att_at = 0, att_outcome = ''timeout'', att_latency_ms = Some 5, att_output_tokens = None\<rparr>,
     TrimAt 604800000000,
     FoldAttempt \<lparr>att_at = 604800000001, att_outcome = ''completed'', att_latency_ms = Some 9, att_output_tokens = Some 3\<rparr>]"

theorem ledger_equals_scratch_witness:
  "ledger_stats (foldl ledger_step \<lparr>ledger_window = WINDOW_7D, ledger_attempts = [], ledger_feedback = []\<rparr>
     ledger_run) 604800000001
   = compute_stats (event_attempts ledger_run) (event_feedback ledger_run) WINDOW_7D 604800000001"
  by (rule ledger_equals_scratch[THEN conjunct1]) (auto simp: ledger_run_def)

subsection \<open>The factor stays in its range\<close>

lemma live_factor_range:
  assumes "stats_ok w" "0 < counted_attempts w"
  shows "1 / 2 \<le> rf_value (live_factor name w) \<and> rf_value (live_factor name w) \<le> 1"
proof -
  define s where "s = fl (of_int (ws_successes w) / of_int (counted_attempts w))"
  define v where "v = (if ws_successes w = 0 then 1
    else fl (of_int (ws_validation_passes w) / of_int (ws_successes w)))"
  define acc where "acc = (if ws_feedback_count w \<ge> MINIMUM_RATE_SAMPLES then ws_acceptance_rate w else None)"
  define f where "f = (case acc of None \<Rightarrow> 1 | Some a \<Rightarrow> fl (1 - fl (FEEDBACK_WEIGHT * fl (1 - a))))"
  define p where "p = fl (fl (s * v) * f)"
  have s: "0 \<le> s \<and> s \<le> 1" unfolding s_def
    using assms by (intro double.ratio_in_unit) (auto simp: stats_ok_def counted_attempts_def)
  have v: "0 \<le> v \<and> v \<le> 1" unfolding v_def
    using assms by (auto simp: stats_ok_def intro: double.ratio_in_unit[THEN conjunct1] double.ratio_in_unit[THEN conjunct2])
  have f: "0 \<le> f \<and> f \<le> 1"
  proof (cases acc)
    case (Some a)
    then have a: "0 \<le> a \<and> a \<le> 1" using assms by (auto simp: acc_def stats_ok_def split: if_splits)
    have b: "0 \<le> fl (1 - a) \<and> fl (1 - a) \<le> 1" using a by (simp add: fl_nonneg double.rnd_le_1)
    have "0 \<le> fl (1 / 2 * fl (1 - a)) \<and> fl (1 / 2 * fl (1 - a)) \<le> 1" using b by (intro double.unit_mult) auto
    then show ?thesis using Some by (simp add: f_def FEEDBACK_WEIGHT_def fl_nonneg double.rnd_le_1)
  qed (simp add: f_def)
  have "0 \<le> p \<and> p \<le> 1" unfolding p_def using s v f double.unit_mult by (simp add: double.unit_mult)
  then have h: "0 \<le> fl (1 / 2 * p) \<and> fl (1 / 2 * p) \<le> 1 / 2"
    using fl_mono[of "1 / 2 * p" "1 / 2"] by (auto intro: fl_nonneg)
  have "rf_value (live_factor name w) = fl (1 / 2 + fl (1 / 2 * p))"
    by (simp add: live_factor_def Let_def p_def s_def v_def f_def acc_def RELIABILITY_FACTOR_FLOOR_def)
  moreover have "1 / 2 \<le> fl (1 / 2 + fl (1 / 2 * p))"
    using h fl_mono[of "1 / 2" "1 / 2 + fl (1 / 2 * p)"] by simp
  moreover have "fl (1 / 2 + fl (1 / 2 * p)) \<le> 1" using h by (intro double.rnd_le_1) simp
  ultimately show ?thesis by simp
qed

text \<open>
  The reliability factor of statistics computed from any attempts and any feedback lies in
  \<open>[0.5, 1]\<close> even after rounding, without a clamp; and it is exactly 1 and neutral when
  neither of the 7-day and 30-day windows holds 20 counted attempts.
\<close>

theorem reliability_factor_range:
  assumes "\<And>name s. map_of stats name = Some s \<Longrightarrow>
      \<exists>as fs w now. compute_stats as fs w now = Inr s \<and> 2 * int (length fs) < 2 ^ 53"
  shows "1 / 2 \<le> rf_value (reliability_factor stats) \<and> rf_value (reliability_factor stats) \<le> 1 \<and>
    ((\<forall>s. map_of stats ''7d'' = Some s \<longrightarrow> counted_attempts s < 20) \<and>
     (\<forall>s. map_of stats ''30d'' = Some s \<longrightarrow> counted_attempts s < 20) \<longleftrightarrow>
       rf_neutral (reliability_factor stats)) \<and>
    (rf_neutral (reliability_factor stats) \<longrightarrow> rf_value (reliability_factor stats) = 1)"
proof -
  have ok: "stats_ok s" if "map_of stats name = Some s" for name s
    using assms[OF that] compute_stats_ok by blast
  have "1 / 2 \<le> rf_value (live_factor name s) \<and> rf_value (live_factor name s) \<le> 1"
    if "map_of stats n = Some s" "20 \<le> counted_attempts s" for n name s
    using live_factor_range[OF ok[OF that(1)]] that(2) by simp
  moreover have "rf_window (live_factor name s) = Some name" for name s
    by (simp add: live_factor_def Let_def)
  ultimately show ?thesis
    by (simp add: reliability_factor_def Let_def FACTOR_WINDOWS_def WINDOW_7D_def WINDOW_30D_def
        PRODUCTION_MINIMUM_SAMPLES_def neutral_factor_def rf_neutral_def not_less split: option.splits)
qed

definition busy_week :: "AttemptOutcome list" where
  "busy_week = replicate 15 \<lparr>att_at = 5, att_outcome = ''completed'', att_latency_ms = None, att_output_tokens = None\<rparr>
     @ replicate 5 \<lparr>att_at = 6, att_outcome = ''provider_error'', att_latency_ms = None, att_output_tokens = None\<rparr>"

theorem reliability_factor_range_witness:
  "\<exists>s. compute_stats busy_week [] WINDOW_7D 10 = Inr s \<and>
     1 / 2 \<le> rf_value (reliability_factor [(''7d'', s)]) \<and> rf_value (reliability_factor [(''7d'', s)]) \<le> 1"
proof -
  obtain s where s: "compute_stats busy_week [] WINDOW_7D 10 = Inr s" using compute_stats_total by blast
  have "\<exists>as fs w now. compute_stats as fs w now = Inr t \<and> 2 * int (length fs) < 2 ^ 53"
    if "map_of [(''7d'', s)] name = Some t" for name t
  proof -
    have "t = s" using that by (simp split: if_splits)
    then have "compute_stats busy_week [] WINDOW_7D 10 = Inr t \<and> 2 * int (length ([] :: FeedbackOutcome list)) < 2 ^ 53"
      using s by simp
    then show ?thesis by blast
  qed
  with reliability_factor_range[of "[(''7d'', s)]"] s show ?thesis by blast
qed

subsection \<open>Regression needs a real drop\<close>

text \<open>
  A regression is reported only on enough samples of both the recent window and the history
  before it, and only for a rounded drop of at least 15 points; with fewer samples the verdict is
  \<open>InsufficientSamples\<close>, never \<open>Stable\<close>. A model whose recent rate is not below
  its own baseline is never reported.
\<close>

theorem regression_verdict:
  "(rv_status (detect_regression recent all_time) = InsufficientSamples \<longleftrightarrow>
      counted_attempts recent < 20 \<or> counted_attempts all_time - counted_attempts recent < 20) \<and>
   (rv_status (detect_regression recent all_time) = Regressed \<longrightarrow>
      (\<exists>d r b. rv_drop (detect_regression recent all_time) = Some d \<and> fl (15 / 100) \<le> d \<and>
         rv_recent_rate (detect_regression recent all_time) = Some r \<and>
         rv_baseline_rate (detect_regression recent all_time) = Some b \<and> d = fl (b - r) \<and> r < b))"
proof -
  have pos: "0 < fl (15 / 100)" by code_simp
  have "r < b" if "fl (15 / 100) \<le> fl (b - r)" for r b
    using that pos fl_nonpos[of "b - r"] by linarith
  then show ?thesis
    by (simp add: detect_regression_def Let_def REGRESSION_MINIMUM_SAMPLES_def REGRESSION_MINIMUM_DROP_def)
qed

end
