(* ===== verification/Scoring.thy ===== *)
theory Scoring
  imports Subject Reliability
begin

section \<open>Capability scoring and the adjustment factors\<close>

text \<open>
  Models \<^verbatim>\<open>src/src/loadcoach/domain/routing/scoring.py\<close>: the parameter-band priors, the choice of the one
  signal that scores a capability, the weighted mean over the present capabilities, and the four
  factors that adjust it. All arithmetic is on floats; \<open>sum\<close> is the compensated sum.
\<close>

definition DECLARED_PRIOR_SCORE :: float64 where "DECLARED_PRIOR_SCORE = fl (1 / 2)"
definition DECLARED_PRIOR_CONFIDENCE :: float64 where "DECLARED_PRIOR_CONFIDENCE = fl (3 / 10)"
definition PARAMETER_BAND_PRIOR_FLOOR :: float64 where "PARAMETER_BAND_PRIOR_FLOOR = fl (40 / 100)"
definition PARAMETER_BAND_PRIOR_CEILING :: float64 where "PARAMETER_BAND_PRIOR_CEILING = fl (60 / 100)"

definition MEASURED_SOURCES :: "string set" where
  "MEASURED_SOURCES = {''benchmark'', ''production'', ''manual''}"

definition SOURCE_PRECEDENCE :: "string list" where
  "SOURCE_PRECEDENCE = [''benchmark'', ''production'', ''manual'', ''declared'']"

record CapabilityScore =
  cs_capability_id :: string
  cs_weight :: float64
  cs_score :: "float64 option"
  cs_confidence :: "float64 option"
  cs_source :: string
  cs_note :: "string option"
  cs_remedy :: "string option"
  cs_evidence_age_days :: "int option"
  cs_sample_count :: "int option"
  cs_measured_profile_hash :: "string option"
  cs_measured_machine_fingerprint :: "string option"
  cs_stale :: bool
  cs_stale_reason :: "string option"

definition present :: "CapabilityScore \<Rightarrow> bool" where
  "present c \<longleftrightarrow> cs_score c \<noteq> None \<and> cs_confidence c \<noteq> None"

definition measured :: "CapabilityScore \<Rightarrow> bool" where
  "measured c \<longleftrightarrow> present c \<and> cs_source c \<in> MEASURED_SOURCES"

definition plain_score :: "string \<Rightarrow> float64 \<Rightarrow> float64 option \<Rightarrow> float64 option \<Rightarrow> string \<Rightarrow> string option \<Rightarrow> CapabilityScore" where
  "plain_score capability_id weight score confidence src note =
     \<lparr>cs_capability_id = capability_id, cs_weight = weight, cs_score = score, cs_confidence = confidence,
      cs_source = src, cs_note = note, cs_remedy = None, cs_evidence_age_days = None, cs_sample_count = None,
      cs_measured_profile_hash = None, cs_measured_machine_fingerprint = None, cs_stale = False,
      cs_stale_reason = None\<rparr>"

definition score_json :: "CapabilityScore \<Rightarrow> (string \<times> json) list" where
  "score_json c =
     [(''capability'', JStr (cs_capability_id c)), (''weight'', JFloat (cs_weight c)),
      (''score'', of_opt_float (cs_score c)), (''confidence'', of_opt_float (cs_confidence c)),
      (''source'', JStr (cs_source c))] @
     filter (\<lambda>(k, v). v \<noteq> JNull)
       [(''note'', of_opt_str (cs_note c)), (''remedy'', of_opt_str (cs_remedy c)),
        (''evidence_age_days'', of_opt_int (cs_evidence_age_days c)),
        (''sample_count'', of_opt_int (cs_sample_count c)),
        (''measured_profile_hash'', of_opt_str (cs_measured_profile_hash c)),
        (''measured_machine_fingerprint'', of_opt_str (cs_measured_machine_fingerprint c)),
        (''stale_reason'', of_opt_str (cs_stale_reason c))] @
     (if cs_stale c then [(''stale'', JBool True)] else [])"

record TaskFit =
  task_fit :: float64
  fit_capabilities :: "CapabilityScore list"
  present_weight :: float64
  measured_weight :: float64

definition mean_confidence :: "TaskFit \<Rightarrow> float64" where
  "mean_confidence f =
     (let confidences = List.map_filter cs_confidence (fit_capabilities f) in
      if confidences = [] then 0 else fl (fsum confidences / of_int (int (length confidences))))"

record ScoringInputs =
  weights :: "(string, float64) dict"
  min_confidence :: float64
  parameter_priors :: "(string, float64) dict option"
  score_require_evidence :: bool
  scoring_machine_fingerprint :: "string option"

subsection \<open>Priors\<close>

definition parameter_band_priors :: "(string, int option) dict \<Rightarrow> (string, float64) dict" where
  "parameter_band_priors parameter_counts =
     (let known = List.map_filter (\<lambda>(name, count). map_option (Pair name) count) parameter_counts;
          distinct_counts = sorted_list_of_set (set (map snd known));
          midpoint = fl (fl (PARAMETER_BAND_PRIOR_FLOOR + PARAMETER_BAND_PRIOR_CEILING) / 2);
          span = fl (PARAMETER_BAND_PRIOR_CEILING - PARAMETER_BAND_PRIOR_FLOOR);
          n = length distinct_counts;
          position = map_of (map (\<lambda>(i, count). (count, fl (of_int (int i) / of_int (int n - 1))))
                       (zip [0..<n] distinct_counts))
      in if known = [] then []
         else if n = 1 then map (\<lambda>(name, _). (name, midpoint)) known
         else map (\<lambda>(name, count). (name, fl (PARAMETER_BAND_PRIOR_FLOOR + fl (span * the (position count))))) known)"

subsection \<open>Resolving one capability\<close>

definition unbound_score :: "string \<Rightarrow> float64 \<Rightarrow> CapabilitySignal \<Rightarrow> CapabilityScore" where
  "unbound_score capability_id weight signal =
     plain_score capability_id weight None None ''evidence_unbound''
       (Some (''evidence match_state is '' @ repr_opt_str (sig_match_state signal) @ '', not '' @
          repr_str ''bound'' @ ''; it does not describe a model this registry has identified''))"

definition foreign_score :: "string \<Rightarrow> float64 \<Rightarrow> (string, profile_value) dict \<Rightarrow> CapabilitySignal \<Rightarrow> CapabilityScore" where
  "foreign_score capability_id weight profile_fields signal =
     (plain_score capability_id weight None None ''evidence_foreign_machine''
       (Some (''this is a performance measurement taken on machine '' @ str_opt (sig_machine_fingerprint signal) @
          '', not on this one; throughput, memory and energy describe the card they were measured on (ADR-0017)'')))
       \<lparr>cs_remedy := Some (freeweight_remedy profile_fields @ ''   # on this machine''),
        cs_measured_machine_fingerprint := sig_machine_fingerprint signal\<rparr>"

definition mismatch_score :: "string \<Rightarrow> float64 \<Rightarrow> (string, profile_value) dict \<Rightarrow> string \<Rightarrow> CapabilitySignal \<Rightarrow> CapabilityScore" where
  "mismatch_score capability_id weight profile_fields hash signal =
     (plain_score capability_id weight None None ''evidence_profile_mismatch''
       (Some (''evidence measured under runtime profile '' @ str_opt (sig_runtime_profile_hash signal) @
          '', executing under '' @ hash)))
       \<lparr>cs_remedy := Some (freeweight_remedy profile_fields),
        cs_measured_profile_hash := sig_runtime_profile_hash signal\<rparr>"

datatype signal_use = Skip | Exclude CapabilityScore | Use

definition classify_signal :: "string \<Rightarrow> float64 \<Rightarrow> (string, profile_value) dict \<Rightarrow> string \<Rightarrow> float64 \<Rightarrow>
    string option \<Rightarrow> CapabilitySignal \<Rightarrow> signal_use" where
  "classify_signal capability_id weight profile_fields hash minimum machine signal =
     (if sig_confidence signal < minimum then Skip
      else if sig_source signal = ''benchmark'' \<and> sig_match_state signal \<noteq> None \<and>
              sig_match_state signal \<noteq> Some ''bound''
        then Exclude (unbound_score capability_id weight signal)
      else if sig_source signal = ''benchmark'' \<and>
              (case sig_machine_fingerprint signal of None \<Rightarrow> False
               | Some f \<Rightarrow> \<not> machine_admits f machine capability_id)
        then Exclude (foreign_score capability_id weight profile_fields signal)
      else if sig_source signal = ''benchmark'' \<and> sig_runtime_profile_hash signal \<noteq> Some hash
        then Exclude (mismatch_score capability_id weight profile_fields hash signal)
      else if sig_source signal = ''production'' \<and>
              (case sig_sample_count signal of None \<Rightarrow> True | Some n \<Rightarrow> n < PRODUCTION_MINIMUM_SAMPLES)
        then Skip
      else Use)"

text \<open>The loop: the first usable signal of each source, and the first exclusion.\<close>

definition scan_signal :: "(CapabilitySignal \<Rightarrow> signal_use) \<Rightarrow> CapabilitySignal \<Rightarrow>
    (string, CapabilitySignal) dict \<times> CapabilityScore option \<Rightarrow> (string, CapabilitySignal) dict \<times> CapabilityScore option" where
  "scan_signal classify signal = (\<lambda>(usable, excl).
     (case classify signal of
        Skip \<Rightarrow> (usable, excl)
      | Exclude c \<Rightarrow> (usable, if excl = None then Some c else excl)
      | Use \<Rightarrow> (if map_of usable (sig_source signal) = None
                then AList.update (sig_source signal) signal usable else usable, excl)))"

fun choose_source :: "bool \<Rightarrow> (string, CapabilitySignal) dict \<Rightarrow> string list \<Rightarrow> (string \<times> CapabilitySignal) option" where
  "choose_source required usable [] = None"
| "choose_source required usable (src # srcs) =
     (case map_of usable src of
        None \<Rightarrow> choose_source required usable srcs
      | Some chosen \<Rightarrow>
          if src \<in> {''declared'', ''manual''} \<and> required then None else Some (src, chosen))"

definition chosen_score :: "string \<Rightarrow> float64 \<Rightarrow> string option \<Rightarrow> string \<Rightarrow> CapabilitySignal \<Rightarrow> CapabilityScore" where
  "chosen_score capability_id weight machine src chosen =
     (if src = ''declared'' then
        plain_score capability_id weight (Some DECLARED_PRIOR_SCORE) (Some DECLARED_PRIOR_CONFIDENCE) ''declared''
          (Some (''provider-declared flag, scored as a neutral prior (routing '' @ SECT @ ''5.1)''))
      else
        (let foreign = (sig_machine_fingerprint chosen \<noteq> None \<and> machine \<noteq> None \<and> sig_machine_fingerprint chosen \<noteq> machine);
             note = (if is_user_capability capability_id
                     then Some (user_capability_note capability_id (sig_calibration chosen))
                     else if foreign then Some (''quality measured on machine '' @ str_opt (sig_machine_fingerprint chosen) @
                       '', not on this one; retained with a machine badge (ADR-0017)'')
                     else None)
         in (plain_score capability_id weight (Some (sig_score chosen)) (Some (sig_confidence chosen)) src note)
              \<lparr>cs_evidence_age_days := sig_age_days chosen, cs_sample_count := sig_sample_count chosen,
               cs_measured_machine_fingerprint := (if foreign then sig_machine_fingerprint chosen else None),
               cs_stale := sig_stale chosen, cs_stale_reason := sig_stale_reason chosen\<rparr>))"

definition resolve_capability :: "string \<Rightarrow> float64 \<Rightarrow> CapabilitySignal list \<Rightarrow> string \<Rightarrow>
    (string, profile_value) dict \<Rightarrow> float64 \<Rightarrow> float64 option \<Rightarrow> bool \<Rightarrow> string option \<Rightarrow> CapabilityScore" where
  "resolve_capability capability_id weight sigs hash profile_fields minimum band_prior required machine =
     (case fold (scan_signal (classify_signal capability_id weight profile_fields hash minimum machine)) sigs ([], None) of
        (usable, excl) \<Rightarrow>
          (case choose_source required usable SOURCE_PRECEDENCE of
             Some (src, chosen) \<Rightarrow> chosen_score capability_id weight machine src chosen
           | None \<Rightarrow>
               (case (if required then None else band_prior) of
                  Some prior \<Rightarrow>
                    (case excl of
                       Some c \<Rightarrow> c\<lparr>cs_score := Some prior, cs_confidence := Some DECLARED_PRIOR_CONFIDENCE\<rparr>
                     | None \<Rightarrow> plain_score capability_id weight (Some prior) (Some DECLARED_PRIOR_CONFIDENCE) ''prior''
                         (Some (''parameter-count band relative to the installed set (routing '' @ SECT @ ''5.1)'')))
                | None \<Rightarrow>
                    (case excl of
                       Some c \<Rightarrow> c
                     | None \<Rightarrow> plain_score capability_id weight None None ''absent''
                         (Some ''no evidence; excluded from the weighted mean'')))))"

subsection \<open>Scoring a subject\<close>

definition profile_fields_of :: "RuntimeProfile \<Rightarrow> (string, profile_value) dict" where
  "profile_fields_of p =
     List.map_filter (\<lambda>(name, v). map_option (Pair name) v)
       [(''context_size'', map_option PInt (context_size p)),
        (''kv_cache_precision'', map_option PStr (kv_cache_precision p)),
        (''gpu_layers'', map_option PInt (gpu_layers p)),
        (''flash_attention'', map_option PBool (flash_attention p)),
        (''threads'', map_option PInt (threads p)),
        (''batch_size'', map_option PInt (batch_size p)),
        (''keep_alive'', map_option PStr (keep_alive p))]"

definition contribution :: "CapabilityScore \<Rightarrow> float64 option" where
  "contribution s =
     (case (cs_score s, cs_confidence s) of
        (Some score, Some confidence) \<Rightarrow> Some (fl (fl (cs_weight s * score) * confidence))
      | _ \<Rightarrow> None)"

definition fit_of_scores :: "CapabilityScore list \<Rightarrow> TaskFit" where
  "fit_of_scores scores =
     (let numerator = fsum (List.map_filter contribution scores);
          weight_present = fsum (map cs_weight (filter present scores));
          weight_measured = fsum (map cs_weight (filter measured scores))
      in \<lparr>task_fit = (if weight_present > 0 then fl (numerator / weight_present) else 0),
          fit_capabilities = scores, present_weight = weight_present, measured_weight = weight_measured\<rparr>)"

definition score_subject :: "packages \<Rightarrow> ExecutionSubject \<Rightarrow> ScoringInputs \<Rightarrow> TaskFit" where
  "score_subject pkg subject inputs =
     (let grouped = signals_by_capability (signals subject);
          priors = (case parameter_priors inputs of None \<Rightarrow> [] | Some p \<Rightarrow> p);
          band_prior = map_of priors (canonical_id (facts subject))
      in fit_of_scores (map (\<lambda>(capability_id, weight).
           resolve_capability capability_id weight (dict_get grouped capability_id [])
             (runtime_profile_hash pkg subject) (profile_fields_of (runtime_profile subject))
             (min_confidence inputs) band_prior (score_require_evidence inputs) (scoring_machine_fingerprint inputs))
           (sort_key fst (weights inputs))))"

subsection \<open>Adjustment factors\<close>

record residency_detail =
  residency_level :: string
  resident_bases :: "string list"
  detail_prefer_resident_bonus :: float64
  detail_base_switch_penalty :: float64
  detail_ignore_residency :: bool

record AdjustmentFactors =
  reliability :: float64
  availability :: float64
  residency :: float64
  cost :: float64
  factors_reliability_detail :: "ReliabilityFactor option"
  factors_residency_detail :: "residency_detail option"

definition factors_product :: "AdjustmentFactors \<Rightarrow> float64" where
  "factors_product f = fl (fl (fl (reliability f * availability f) * residency f) * cost f)"

definition residency_term :: "ExecutionSubject \<Rightarrow> string list \<Rightarrow> float64 \<Rightarrow> float64 \<Rightarrow> bool \<Rightarrow> float64 \<times> string" where
  "residency_term subject resident_models bonus penalty ignored =
     (if ignored then (1, ''ignored'')
      else if canonical_id (facts subject) \<in> set resident_models then (fl (1 + bonus), ''resident_base'')
      else if resident_models \<noteq> [] then (fl (1 - penalty), ''base_switch'')
      else (1, ''nothing_resident''))"

definition adjustment_factors :: "ExecutionSubject \<Rightarrow> string list \<Rightarrow> float64 \<Rightarrow> float64 \<Rightarrow> bool \<Rightarrow> float64 \<Rightarrow>
    float64 + ReliabilityFactor \<Rightarrow> float64 \<Rightarrow> AdjustmentFactors" where
  "adjustment_factors subject resident_models bonus penalty ignored remote_cost_factor rel avail =
     (case residency_term subject resident_models bonus penalty ignored of
        (term, level) \<Rightarrow>
          \<lparr>reliability = (case rel of Inl x \<Rightarrow> x | Inr f \<Rightarrow> rf_value f), availability = avail,
           residency = term, cost = (if is_remote (facts subject) then remote_cost_factor else 1),
           factors_reliability_detail = (case rel of Inl _ \<Rightarrow> None | Inr f \<Rightarrow> Some f),
           factors_residency_detail = Some \<lparr>residency_level = level, resident_bases = sort resident_models,
             detail_prefer_resident_bonus = bonus, detail_base_switch_penalty = penalty,
             detail_ignore_residency = ignored\<rparr>\<rparr>)"

subsection \<open>What the loop over signals keeps\<close>

definition excluded_signal :: "(CapabilitySignal \<Rightarrow> signal_use) \<Rightarrow> CapabilitySignal \<Rightarrow> bool" where
  "excluded_signal classify s \<longleftrightarrow> (\<exists>c. classify s = Exclude c)"

lemma scan_usable:
  "map_of (fst (fold (scan_signal classify) sigs (u, e))) src =
     (case map_of u src of
        Some s \<Rightarrow> Some s
      | None \<Rightarrow> find (\<lambda>s. classify s = Use \<and> sig_source s = src) sigs)"
proof (induction sigs arbitrary: u e)
  case (Cons s sigs)
  show ?case
    using Cons.IH
    by (cases "classify s"; cases "map_of u src") (auto simp: scan_signal_def alist.get_put split: if_splits)
qed (simp split: option.splits)

lemma scan_excluded:
  "snd (fold (scan_signal classify) sigs (u, e)) =
     (case e of Some c \<Rightarrow> Some c
      | None \<Rightarrow> (case List.map_filter (\<lambda>s. case classify s of Exclude c \<Rightarrow> Some c | _ \<Rightarrow> None) sigs of
                  [] \<Rightarrow> None | c # _ \<Rightarrow> Some c))"
proof (induction sigs arbitrary: u e)
  case (Cons s sigs)
  then show ?case
    by (cases "classify s") (auto simp: scan_signal_def List.map_filter_simps split: option.splits)
qed (simp add: List.map_filter_simps split: option.splits)

lemma find_filter_skip:
  "find (\<lambda>s. classify s = Use \<and> sig_source s = src) (filter (\<lambda>s. \<not> excluded_signal classify s) sigs) =
   find (\<lambda>s. classify s = Use \<and> sig_source s = src) sigs"
  by (induction sigs) (auto simp: excluded_signal_def)

lemma choose_source_cong:
  "(\<And>src. src \<in> set srcs \<Longrightarrow> map_of u src = map_of u' src) \<Longrightarrow>
   choose_source required u srcs = choose_source required u' srcs"
  by (induction srcs) (auto split: option.splits)

lemma classify_exclude_absent:
  assumes "classify_signal cap w pf hash mn machine s = Exclude c"
  shows "cs_score c = None \<and> cs_confidence c = None \<and> cs_source c \<in> EVIDENCE_EXCLUSIONS \<and> cs_weight c = w"
  using assms
  by (auto simp: classify_signal_def unbound_score_def foreign_score_def mismatch_score_def plain_score_def
      EVIDENCE_EXCLUSIONS_def EVIDENCE_PROFILE_MISMATCH_def EVIDENCE_FOREIGN_MACHINE_def EVIDENCE_UNBOUND_def
      split: if_splits)

lemma in_set_map_filter: "y \<in> set (List.map_filter f xs) \<longleftrightarrow> (\<exists>x \<in> set xs. f x = Some y)"
  by (induction xs) (auto simp: List.map_filter_simps split: option.splits)

lemma map_filter_Nil_iff: "List.map_filter f xs = [] \<longleftrightarrow> (\<forall>x \<in> set xs. f x = None)"
  by (induction xs) (auto simp: List.map_filter_simps split: option.splits)

lemma exclusion_absent:
  assumes "snd (fold (scan_signal (classify_signal cap w pf hash mn machine)) sigs ([], None)) = Some c"
  shows "cs_score c = None \<and> cs_confidence c = None \<and> cs_source c \<in> EVIDENCE_EXCLUSIONS \<and> cs_weight c = w"
proof -
  have "c \<in> set (List.map_filter (\<lambda>s. case classify_signal cap w pf hash mn machine s of Exclude c \<Rightarrow> Some c | _ \<Rightarrow> None) sigs)"
    using assms by (auto simp: scan_excluded split: list.splits)
  then obtain x where "(case classify_signal cap w pf hash mn machine x of Exclude c \<Rightarrow> Some c | _ \<Rightarrow> None) = Some c"
    by (auto simp only: in_set_map_filter)
  then show ?thesis
    using classify_exclude_absent[of cap w pf hash mn machine x]
    by (cases "classify_signal cap w pf hash mn machine x") simp_all
qed

lemma exclusions_not_measured: "EVIDENCE_EXCLUSIONS \<inter> MEASURED_SOURCES = {}"
  by (auto simp: EVIDENCE_EXCLUSIONS_def EVIDENCE_PROFILE_MISMATCH_def EVIDENCE_FOREIGN_MACHINE_def
      EVIDENCE_UNBOUND_def MEASURED_SOURCES_def)

text \<open>The signal the loops choose, in terms of the signals given.\<close>

definition choice :: "(CapabilitySignal \<Rightarrow> signal_use) \<Rightarrow> bool \<Rightarrow> CapabilitySignal list \<Rightarrow> (string \<times> CapabilitySignal) option" where
  "choice classify required sigs =
     choose_source required (fst (fold (scan_signal classify) sigs ([], None))) SOURCE_PRECEDENCE"

lemma choice_filter: "choice classify required (filter (\<lambda>s. \<not> excluded_signal classify s) sigs) = choice classify required sigs"
  unfolding choice_def by (rule choose_source_cong) (simp add: scan_usable find_filter_skip)

lemma resolve_capability_choice:
  "resolve_capability cap w sigs hash pf mn band required machine =
     (let cl = classify_signal cap w pf hash mn machine;
          excl = snd (fold (scan_signal cl) sigs ([], None)) in
      (case choice cl required sigs of
         Some (src, chosen) \<Rightarrow> chosen_score cap w machine src chosen
       | None \<Rightarrow>
           (case (if required then None else band) of
              Some prior \<Rightarrow>
                (case excl of
                   Some c \<Rightarrow> c\<lparr>cs_score := Some prior, cs_confidence := Some DECLARED_PRIOR_CONFIDENCE\<rparr>
                 | None \<Rightarrow> plain_score cap w (Some prior) (Some DECLARED_PRIOR_CONFIDENCE) ''prior''
                     (Some (''parameter-count band relative to the installed set (routing '' @ SECT @ ''5.1)'')))
            | None \<Rightarrow>
                (case excl of
                   Some c \<Rightarrow> c
                 | None \<Rightarrow> plain_score cap w None None ''absent'' (Some ''no evidence; excluded from the weighted mean'')))))"
  by (simp add: resolve_capability_def choice_def Let_def case_prod_unfold)

lemma plain_score_simps [simp]:
  "cs_score (plain_score cap w s c src n) = s" "cs_confidence (plain_score cap w s c src n) = c"
  "cs_source (plain_score cap w s c src n) = src" "cs_weight (plain_score cap w s c src n) = w"
  by (simp_all add: plain_score_def)

text \<open>
  An excluded measurement (unbound, taken on another machine, or under another runtime
  profile) never changes a number: the score, the confidence and whether the capability counts
  as measured are those of the same signals without it. It is not scored zero, and it does not
  displace the prior.
\<close>

theorem excluded_scores_displaced_prior:
  defines "kept cap w pf hash mn machine sigs \<equiv>
    filter (\<lambda>s. \<not> excluded_signal (classify_signal cap w pf hash mn machine) s) sigs"
  shows "cs_score (resolve_capability cap w sigs hash pf mn band required machine) =
      cs_score (resolve_capability cap w (kept cap w pf hash mn machine sigs) hash pf mn band required machine) \<and>
    cs_confidence (resolve_capability cap w sigs hash pf mn band required machine) =
      cs_confidence (resolve_capability cap w (kept cap w pf hash mn machine sigs) hash pf mn band required machine) \<and>
    measured (resolve_capability cap w sigs hash pf mn band required machine) =
      measured (resolve_capability cap w (kept cap w pf hash mn machine sigs) hash pf mn band required machine)"
proof -
  have "List.map_filter (\<lambda>s. case classify_signal cap w pf hash mn machine s of Exclude c \<Rightarrow> Some c | _ \<Rightarrow> None)
      (kept cap w pf hash mn machine sigs) = []"
    by (auto simp: map_filter_Nil_iff kept_def excluded_signal_def split: signal_use.splits)
  then have none: "snd (fold (scan_signal (classify_signal cap w pf hash mn machine)) (kept cap w pf hash mn machine sigs) ([], None)) = None"
    by (simp add: scan_excluded)
  have same: "choice (classify_signal cap w pf hash mn machine) required (kept cap w pf hash mn machine sigs) =
      choice (classify_signal cap w pf hash mn machine) required sigs"
    by (simp add: kept_def choice_filter)
  note choices = resolve_capability_choice[of cap w sigs hash pf mn band required machine]
    resolve_capability_choice[of cap w "kept cap w pf hash mn machine sigs" hash pf mn band required machine]
  have prior: "''prior'' \<notin> MEASURED_SOURCES" by (simp add: MEASURED_SOURCES_def)
  show ?thesis
  proof (cases "choice (classify_signal cap w pf hash mn machine) required sigs")
    case (Some p)
    then show ?thesis using same by (cases p) (simp add: choices Let_def)
  next
    case None
    show ?thesis
    proof (cases "snd (fold (scan_signal (classify_signal cap w pf hash mn machine)) sigs ([], None))")
      case (Some c)
      have c: "cs_score c = None" "cs_confidence c = None" "cs_source c \<notin> MEASURED_SOURCES"
        using exclusion_absent[OF Some] exclusions_not_measured by auto
      show ?thesis
        by (cases "if required then None else band")
          (simp_all add: choices Let_def same None Some none c measured_def present_def prior)
    next
      case no: None
      show ?thesis
        by (simp only: choices Let_def same None no none)
    qed
  qed
qed

lemma choose_source_SomeD:
  "choose_source required u srcs = Some (src, s) \<Longrightarrow>
   src \<in> set srcs \<and> map_of u src = Some s \<and> \<not> (src \<in> {''declared'', ''manual''} \<and> required)"
  by (induction srcs) (auto split: option.splits if_splits)

lemma choice_benchmark:
  "choice classify required sigs =
     (case find (\<lambda>s. classify s = Use \<and> sig_source s = ''benchmark'') sigs of
        Some s \<Rightarrow> Some (''benchmark'', s)
      | None \<Rightarrow> choose_source required (fst (fold (scan_signal classify) sigs ([], None))) [''production'', ''manual'', ''declared''])"
  unfolding choice_def SOURCE_PRECEDENCE_def by (simp add: scan_usable split: option.splits)

lemma classify_Use:
  assumes "classify_signal cap w pf hash mn machine s = Use"
  shows "mn \<le> sig_confidence s"
    and "sig_source s = ''benchmark'' \<Longrightarrow> sig_match_state s \<in> {None, Some ''bound''} \<and>
      sig_runtime_profile_hash s = Some hash \<and>
      (is_performance_capability cap \<longrightarrow> machine = None \<or> sig_machine_fingerprint s \<in> {None, machine})"
    and "sig_source s = ''production'' \<Longrightarrow> \<exists>n \<ge> 20. sig_sample_count s = Some n"
proof -
  show "mn \<le> sig_confidence s" using assms by (simp add: classify_signal_def split: if_splits)
  show "\<exists>n \<ge> 20. sig_sample_count s = Some n" if "sig_source s = ''production''"
    using assms that by (cases "sig_sample_count s") (auto simp: classify_signal_def PRODUCTION_MINIMUM_SAMPLES_def split: if_splits)
  show "sig_match_state s \<in> {None, Some ''bound''} \<and> sig_runtime_profile_hash s = Some hash \<and>
      (is_performance_capability cap \<longrightarrow> machine = None \<or> sig_machine_fingerprint s \<in> {None, machine})"
    if "sig_source s = ''benchmark''"
    using assms that
    by (cases "sig_machine_fingerprint s") (auto simp: classify_signal_def machine_admits_def split: if_splits)
qed

text \<open>
  A capability counts as measured only on the strength of one signal: a usable one of the
  source named, whose score and confidence are carried over unchanged; for a benchmark that means
  bound, taken under the runtime profile that will execute and, for a performance capability, on
  this machine, and for production evidence at least 20 samples. A usable benchmark always wins,
  and when evidence is required no hand-entered score or declared flag is used.
\<close>

theorem measured_from_one_signal:
  defines "use cap w pf hash mn machine s \<equiv> classify_signal cap w pf hash mn machine s = Use"
  assumes "measured (resolve_capability cap w sigs hash pf mn band required machine)"
  shows "\<exists>s \<in> set sigs. use cap w pf hash mn machine s \<and>
    sig_source s = cs_source (resolve_capability cap w sigs hash pf mn band required machine) \<and>
    cs_score (resolve_capability cap w sigs hash pf mn band required machine) = Some (sig_score s) \<and>
    cs_confidence (resolve_capability cap w sigs hash pf mn band required machine) = Some (sig_confidence s) \<and>
    mn \<le> sig_confidence s \<and>
    (sig_source s = ''benchmark'' \<longrightarrow>
       sig_match_state s \<in> {None, Some ''bound''} \<and> sig_runtime_profile_hash s = Some hash \<and>
       (is_performance_capability cap \<longrightarrow> machine = None \<or> sig_machine_fingerprint s \<in> {None, machine})) \<and>
    (sig_source s = ''production'' \<longrightarrow> (\<exists>n \<ge> 20. sig_sample_count s = Some n)) \<and>
    (sig_source s = ''manual'' \<longrightarrow> \<not> required) \<and>
    (sig_source s = ''benchmark'' \<or>
       \<not> (\<exists>b \<in> set sigs. use cap w pf hash mn machine b \<and> sig_source b = ''benchmark''))"
proof -
  let ?cl = "classify_signal cap w pf hash mn machine"
  let ?r = "resolve_capability cap w sigs hash pf mn band required machine"
  have src: "cs_source ?r \<in> MEASURED_SOURCES" using assms(2) by (simp add: measured_def)
  have "choice ?cl required sigs \<noteq> None"
  proof
    assume "choice ?cl required sigs = None"
    then have "cs_source ?r \<in> insert ''prior'' (insert ''absent'' EVIDENCE_EXCLUSIONS)"
      using exclusion_absent[of cap w pf hash mn machine sigs]
      by (cases "snd (fold (scan_signal ?cl) sigs ([], None))"; cases "if required then None else band")
        (simp_all add: resolve_capability_choice Let_def)
    then show False using src exclusions_not_measured by (auto simp: MEASURED_SOURCES_def)
  qed
  then obtain sr s where c: "choice ?cl required sigs = Some (sr, s)" by (metis option.exhaust surj_pair)
  have r: "?r = chosen_score cap w machine sr s" using c by (simp add: resolve_capability_choice Let_def)
  have map: "map_of (fst (fold (scan_signal ?cl) sigs ([], None))) sr = Some s" and req: "\<not> (sr \<in> {''declared'', ''manual''} \<and> required)"
    using choose_source_SomeD[OF c[unfolded choice_def]] by auto
  then have s: "s \<in> set sigs" "?cl s = Use" "sig_source s = sr"
    by (auto simp: scan_usable dest!: find_SomeD)
  have "sr \<noteq> ''declared''" using src r by (auto simp: chosen_score_def MEASURED_SOURCES_def)
  then have fields: "cs_source ?r = sr" "cs_score ?r = Some (sig_score s)" "cs_confidence ?r = Some (sig_confidence s)"
    unfolding r by (simp_all add: chosen_score_def Let_def)
  have "sr = ''benchmark'' \<or> find (\<lambda>s. ?cl s = Use \<and> sig_source s = ''benchmark'') sigs = None"
    using c unfolding choice_benchmark
    by (cases "find (\<lambda>s. ?cl s = Use \<and> sig_source s = ''benchmark'') sigs") (simp_all only: option.case option.inject prod.inject simp_thms)
  moreover have "mn \<le> sig_confidence s \<and>
      (sr = ''benchmark'' \<longrightarrow> sig_match_state s \<in> {None, Some ''bound''} \<and> sig_runtime_profile_hash s = Some hash \<and>
        (is_performance_capability cap \<longrightarrow> machine = None \<or> sig_machine_fingerprint s \<in> {None, machine})) \<and>
      (sr = ''production'' \<longrightarrow> (\<exists>n \<ge> 20. sig_sample_count s = Some n))"
    using classify_Use[OF s(2)] s(3) by blast
  moreover have "sr = ''manual'' \<longrightarrow> \<not> required" using req by auto
  ultimately show ?thesis
    unfolding use_def fields(2,3) using s fields(1) by (intro bexI[of _ s]) (simp_all add: find_None_iff_ex)
qed

definition bench_signal :: "float64 \<Rightarrow> string \<Rightarrow> CapabilitySignal" where
  "bench_signal score hash = \<lparr>sig_capability_id = ''code_review'', sig_source = ''benchmark'', sig_score = score,
     sig_confidence = 1 / 2, sig_runtime_profile_hash = Some hash, sig_machine_fingerprint = None,
     sig_measured_at = None, sig_sample_count = Some 3, sig_match_state = Some ''bound'', sig_age_days = None,
     sig_stale = False, sig_stale_reason = None, sig_calibration = None\<rparr>"

theorem measured_from_one_signal_witness:
  "\<exists>s \<in> set [bench_signal (1 / 4) ''other'', bench_signal (3 / 4) ''h''].
     cs_score (resolve_capability ''code_review'' 1 [bench_signal (1 / 4) ''other'', bench_signal (3 / 4) ''h'']
       ''h'' [] (1 / 20) None False None) = Some (sig_score s) \<and> sig_runtime_profile_hash s = Some ''h''"
proof -
  have m: "measured (resolve_capability ''code_review'' 1 [bench_signal (1 / 4) ''other'', bench_signal (3 / 4) ''h'']
      ''h'' [] (1 / 20) None False None)"
    by (simp add: resolve_capability_def classify_signal_def scan_signal_def bench_signal_def SOURCE_PRECEDENCE_def
        chosen_score_def measured_def present_def MEASURED_SOURCES_def Let_def)
  have "sig_source s = ''benchmark''" if "s \<in> set [bench_signal (1 / 4) ''other'', bench_signal (3 / 4) ''h'']" for s
    using that by (auto simp: bench_signal_def)
  with measured_from_one_signal[OF m] show ?thesis by blast
qed

subsection \<open>The weighted mean and the priors\<close>

lemma contribution_present: "contribution s = None \<longleftrightarrow> \<not> present s"
  by (auto simp: contribution_def present_def split: option.splits)

lemma map_filter_filter:
  "(\<And>x. f x \<noteq> None \<Longrightarrow> P x) \<Longrightarrow> List.map_filter f (filter P xs) = List.map_filter f xs"
  by (induction xs) (auto simp: List.map_filter_simps split: option.splits)

text \<open>
  Absence of evidence is not evidence of incapacity: a capability with nothing behind it
  changes neither the fit nor the weights nor the tie-breaking confidence, whatever its weight;
  and the fit is 0 when no capability is present.
\<close>

theorem absent_capabilities_ignored:
  "task_fit (fit_of_scores scores) = task_fit (fit_of_scores (filter present scores)) \<and>
   present_weight (fit_of_scores scores) = present_weight (fit_of_scores (filter present scores)) \<and>
   measured_weight (fit_of_scores scores) = measured_weight (fit_of_scores (filter present scores)) \<and>
   (filter present scores = [] \<longrightarrow> task_fit (fit_of_scores scores) = 0)"
proof -
  have c: "List.map_filter contribution (filter present scores) = List.map_filter contribution scores"
    by (rule map_filter_filter) (metis contribution_present)
  have m: "filter (\<lambda>s. present s \<and> measured s) scores = filter measured scores"
    by (auto simp: measured_def intro: filter_cong)
  show ?thesis by (simp add: fit_of_scores_def Let_def c m) (simp add: fsum_def)
qed

theorem absent_capabilities_ignored_witness:
  "task_fit (fit_of_scores [plain_score ''a'' 5 None None ''absent'' None]) = 0"
  using absent_capabilities_ignored[of "[plain_score ''a'' 5 None None ''absent'' None]"]
  by (simp add: present_def)

lemma map_of_zip_index:
  assumes "distinct ys" "k < length ys"
  shows "map_of (map (\<lambda>(i, y). (y, g i)) (zip [0..<length ys] ys)) (ys ! k) = Some (g k)"
proof -
  have "map fst (map (\<lambda>(i, y). (y, g i)) (zip [0..<length ys] ys)) = ys"
    by (simp add: comp_def case_prod_unfold)
  moreover have "(ys ! k, g k) \<in> set (map (\<lambda>(i, y). (y, g i)) (zip [0..<length ys] ys))"
    using assms(2) by (force simp: set_zip image_iff)
  ultimately show ?thesis using assms(1) by (metis map_of_is_SomeI)
qed

definition band_value :: "nat \<Rightarrow> nat \<Rightarrow> float64" where
  "band_value n i = fl (PARAMETER_BAND_PRIOR_FLOOR +
     fl (fl (PARAMETER_BAND_PRIOR_CEILING - PARAMETER_BAND_PRIOR_FLOOR) * fl (of_int (int i) / of_int (int n - 1))))"

lemma band_constants:
  "0 \<le> fl (PARAMETER_BAND_PRIOR_CEILING - PARAMETER_BAND_PRIOR_FLOOR)"
  "fl (fl (PARAMETER_BAND_PRIOR_CEILING - PARAMETER_BAND_PRIOR_FLOOR)) = fl (PARAMETER_BAND_PRIOR_CEILING - PARAMETER_BAND_PRIOR_FLOOR)"
  "fl (PARAMETER_BAND_PRIOR_FLOOR + fl (PARAMETER_BAND_PRIOR_CEILING - PARAMETER_BAND_PRIOR_FLOOR)) \<le> PARAMETER_BAND_PRIOR_CEILING"
  "fl PARAMETER_BAND_PRIOR_FLOOR = PARAMETER_BAND_PRIOR_FLOOR"
  by code_simp+

lemma band_value_bounds:
  assumes "i < n"
  shows "PARAMETER_BAND_PRIOR_FLOOR \<le> band_value n i \<and> band_value n i \<le> PARAMETER_BAND_PRIOR_CEILING"
proof -
  let ?span = "fl (PARAMETER_BAND_PRIOR_CEILING - PARAMETER_BAND_PRIOR_FLOOR)"
  let ?p = "fl (of_int (int i) / of_int (int n - 1))"
  have p: "0 \<le> ?p \<and> ?p \<le> 1" using assms double.ratio_in_unit[of "int i" "int n - 1"] by simp
  have "?span * ?p \<le> ?span" using p band_constants(1) by (simp add: mult_left_le)
  then have hi: "fl (?span * ?p) \<le> ?span" using fl_mono band_constants(2) by metis
  have lo: "0 \<le> fl (?span * ?p)" using p band_constants(1) by (intro fl_nonneg) simp
  have "fl PARAMETER_BAND_PRIOR_FLOOR \<le> band_value n i" unfolding band_value_def using lo by (intro fl_mono) simp
  moreover have "band_value n i \<le> fl (PARAMETER_BAND_PRIOR_FLOOR + ?span)"
    unfolding band_value_def using hi by (intro fl_mono) simp
  ultimately show ?thesis using band_constants(3,4) by simp
qed

lemma band_value_mono:
  assumes "i \<le> j" "1 < n"
  shows "band_value n i \<le> band_value n j"
  unfolding band_value_def using assms band_constants(1)
  by (intro fl_mono add_left_mono mult_left_mono divide_right_mono) auto

text \<open>The counts that were reported, and the sorted distinct ones.\<close>

definition known_counts :: "(string, int option) dict \<Rightarrow> (string \<times> int) list" where
  "known_counts d = List.map_filter (\<lambda>(name, count). map_option (Pair name) count) d"

lemma band_priors_known:
  assumes "known_counts d \<noteq> []"
  defines "ds \<equiv> sorted_list_of_set (set (map snd (known_counts d)))"
  shows "parameter_band_priors d =
    (if length ds = 1
     then map (\<lambda>(name, _). (name, fl (fl (PARAMETER_BAND_PRIOR_FLOOR + PARAMETER_BAND_PRIOR_CEILING) / 2))) (known_counts d)
     else map (\<lambda>(name, count). (name, band_value (length ds) (THE k. k < length ds \<and> ds ! k = count))) (known_counts d))"
proof -
  have dist: "distinct ds" by (simp add: ds_def)
  have pos: "map_of (map (\<lambda>(i, count). (count, fl (of_int (int i) / of_int (int (length ds) - 1)))) (zip [0..<length ds] ds)) count
      = Some (fl (of_int (int (THE k. k < length ds \<and> ds ! k = count)) / of_int (int (length ds) - 1)))"
    if "(name, count) \<in> set (known_counts d)" for name count
  proof -
    have "count \<in> set ds" using that by (force simp: ds_def)
    then obtain k where k: "k < length ds" "ds ! k = count" by (auto simp: in_set_conv_nth)
    then have "(THE k. k < length ds \<and> ds ! k = count) = k" using dist by (auto intro!: the_equality simp: nth_eq_iff_index_eq)
    then show ?thesis using map_of_zip_index[OF dist k(1)] k(2) by simp
  qed
  show ?thesis
    unfolding parameter_band_priors_def Let_def known_counts_def[symmetric] ds_def[symmetric]
    using assms(1) pos by (auto simp: band_value_def intro!: map_cong)
qed

lemma band_priors_function:
  "\<exists>f. parameter_band_priors d = map (\<lambda>(name, count). (name, f count)) (known_counts d) \<and>
     (\<forall>c \<in> snd ` set (known_counts d). PARAMETER_BAND_PRIOR_FLOOR \<le> f c \<and> f c \<le> PARAMETER_BAND_PRIOR_CEILING) \<and>
     (\<forall>c \<in> snd ` set (known_counts d). \<forall>c' \<in> snd ` set (known_counts d). c \<le> c' \<longrightarrow> f c \<le> f c')"
proof (cases "known_counts d = []")
  case True
  then show ?thesis by (simp add: parameter_band_priors_def Let_def known_counts_def)
next
  case False
  define ds where "ds = sorted_list_of_set (set (map snd (known_counts d)))"
  define pos where "pos c = (THE k. k < length ds \<and> ds ! k = c)" for c
  have ds: "distinct ds" "sorted ds" "set ds = snd ` set (known_counts d)" by (simp_all add: ds_def)
  have pos: "pos c < length ds \<and> ds ! pos c = c" if "c \<in> snd ` set (known_counts d)" for c
  proof -
    have "c \<in> set ds" using that by (simp only: ds(3))
    then obtain k where "k < length ds" "ds ! k = c" unfolding in_set_conv_nth by blast
    moreover from this have "pos c = k" unfolding pos_def using ds(1)
      by (intro the_equality) (auto simp: nth_eq_iff_index_eq)
    ultimately show ?thesis by simp
  qed
  show ?thesis
  proof (cases "length ds = 1")
    case True
    let ?m = "fl (fl (PARAMETER_BAND_PRIOR_FLOOR + PARAMETER_BAND_PRIOR_CEILING) / 2)"
    have m: "PARAMETER_BAND_PRIOR_FLOOR \<le> ?m" "?m \<le> PARAMETER_BAND_PRIOR_CEILING" by code_simp+
    have "parameter_band_priors d = map (\<lambda>(name, count). (name, ?m)) (known_counts d)"
      unfolding band_priors_known[OF False] using True[unfolded ds_def] by (rule if_P)
    then show ?thesis using m by (intro exI[of _ "\<lambda>_. ?m"] conjI ballI impI order_refl)
  next
    case multi: False
    have "ds \<noteq> []" using ds(3) False by auto
    then have one: "1 < length ds" using multi by (cases ds) auto
    have mono: "pos c \<le> pos c'"
      if "c \<in> snd ` set (known_counts d)" "c' \<in> snd ` set (known_counts d)" "c \<le> c'" for c c'
    proof (rule ccontr)
      assume "\<not> pos c \<le> pos c'"
      then have "c' \<le> c" using sorted_nth_mono[OF ds(2), of "pos c'" "pos c"] pos[OF that(1)] pos[OF that(2)] by simp
      then have "c = c'" using that(3) by simp
      then show False using \<open>\<not> pos c \<le> pos c'\<close> by simp
    qed
    have "parameter_band_priors d = map (\<lambda>(name, count). (name, band_value (length ds) (pos count))) (known_counts d)"
      unfolding pos_def ds_def band_priors_known[OF False] using multi[unfolded ds_def] by (rule if_not_P)
    moreover have "\<forall>c \<in> snd ` set (known_counts d). PARAMETER_BAND_PRIOR_FLOOR \<le> band_value (length ds) (pos c) \<and>
        band_value (length ds) (pos c) \<le> PARAMETER_BAND_PRIOR_CEILING"
      using pos band_value_bounds by blast
    moreover have "\<forall>c \<in> snd ` set (known_counts d). \<forall>c' \<in> snd ` set (known_counts d). c \<le> c' \<longrightarrow>
        band_value (length ds) (pos c) \<le> band_value (length ds) (pos c')"
      using mono one band_value_mono by blast
    ultimately show ?thesis by (intro exI[of _ "\<lambda>c. band_value (length ds) (pos c)"] conjI)
  qed
qed

text \<open>
  The parameter-band prior is a small capped nudge: every prior lies between 0.4 and 0.6
  after rounding, a model that reports at least as many parameters as another never gets a
  smaller prior, and a model that reported no count gets none.
\<close>

theorem band_priors_capped:
  assumes "distinct (map fst d)"
  shows "(\<forall>name p. map_of (parameter_band_priors d) name = Some p \<longrightarrow>
      fl (4 / 10) \<le> p \<and> p \<le> fl (6 / 10) \<and> (\<exists>count. map_of d name = Some (Some count))) \<and>
    (\<forall>n n' c c'. map_of d n = Some (Some c) \<and> map_of d n' = Some (Some c') \<and> c \<le> c' \<longrightarrow>
      (\<exists>p p'. map_of (parameter_band_priors d) n = Some p \<and> map_of (parameter_band_priors d) n' = Some p' \<and> p \<le> p'))"
proof -
  obtain f where f: "parameter_band_priors d = map (\<lambda>(name, count). (name, f count)) (known_counts d)"
    "\<forall>c \<in> snd ` set (known_counts d). PARAMETER_BAND_PRIOR_FLOOR \<le> f c \<and> f c \<le> PARAMETER_BAND_PRIOR_CEILING"
    "\<forall>c \<in> snd ` set (known_counts d). \<forall>c' \<in> snd ` set (known_counts d). c \<le> c' \<longrightarrow> f c \<le> f c'"
    using band_priors_function[of d] by blast
  have known: "(n, c) \<in> set (known_counts d) \<longleftrightarrow> map_of d n = Some (Some c)" for n c
    using assms by (auto simp: known_counts_def in_set_map_filter map_of_eq_Some_iff intro!: bexI[of _ "(n, Some c)"])
  have lookup: "map_of (parameter_band_priors d) n = (case map_of d n of Some (Some c) \<Rightarrow> Some (f c) | _ \<Rightarrow> None)" for n
  proof -
    have dk: "distinct (map fst (known_counts d))"
      using assms unfolding known_counts_def
      by (induction d) (fastforce simp: List.map_filter_simps in_set_map_filter image_iff split: option.splits)+
    have "map_of (parameter_band_priors d) n = map_option f (map_of (known_counts d) n)"
      unfolding f(1) map_of_map by simp
    moreover have k: "map_of (known_counts d) n = Some c \<longleftrightarrow> map_of d n = Some (Some c)" for c
      using dk known by (simp add: map_of_eq_Some_iff)
    ultimately show ?thesis
    proof (cases "map_of (known_counts d) n")
      case None
      then have "map_of d n \<noteq> Some (Some c)" for c using k[of c] by simp
      then show ?thesis using \<open>map_of (parameter_band_priors d) n = _\<close> None
        by (cases "map_of d n"; cases "the (map_of d n)") simp_all
    next
      case (Some c)
      then show ?thesis using \<open>map_of (parameter_band_priors d) n = _\<close> k[of c] by simp
    qed
  qed
  have c: "fl (4 / 10) = PARAMETER_BAND_PRIOR_FLOOR" "fl (6 / 10) = PARAMETER_BAND_PRIOR_CEILING"
    by (simp_all add: PARAMETER_BAND_PRIOR_FLOOR_def PARAMETER_BAND_PRIOR_CEILING_def)
  have mem: "map_of d n = Some (Some c) \<Longrightarrow> c \<in> snd ` set (known_counts d)" for n c
    using known by force
  have "PARAMETER_BAND_PRIOR_FLOOR \<le> p \<and> p \<le> PARAMETER_BAND_PRIOR_CEILING \<and> (\<exists>count. map_of d n = Some (Some count))"
    if "map_of (parameter_band_priors d) n = Some p" for n p
    using that f(2) mem[of n] by (auto simp: lookup split: option.splits)
  moreover have "\<exists>p p'. map_of (parameter_band_priors d) n = Some p \<and> map_of (parameter_band_priors d) n' = Some p' \<and> p \<le> p'"
    if "map_of d n = Some (Some c)" "map_of d n' = Some (Some c')" "c \<le> c'" for n n' c c'
    using that(1,2) f(3)[rule_format, OF mem[OF that(1)] mem[OF that(2)] that(3)] by (simp add: lookup)
  ultimately show ?thesis unfolding c by blast
qed

theorem band_priors_capped_witness:
  "\<exists>p p'. map_of (parameter_band_priors [(''a'', Some 7), (''b'', None), (''c'', Some 70)]) ''a'' = Some p \<and>
     map_of (parameter_band_priors [(''a'', Some 7), (''b'', None), (''c'', Some 70)]) ''c'' = Some p' \<and> p \<le> p'"
  using band_priors_capped[of "[(''a'', Some 7), (''b'', None), (''c'', Some 70)]"] by auto

end
