(* ===== verification/Constraints.thy ===== *)
theory Constraints
  imports Scoring
begin

section \<open>The VRAM estimator and the hard constraint filter\<close>

text \<open>
  Models \<^verbatim>\<open>src/src/loadcoach/domain/routing/constraints.py\<close>: the memory estimate of a model under a runtime
  profile, the independent check of every device, and the constraints in the order the code
  applies them, with the rejection each failure records. A rejection's detail is the JSON mapping
  the explanation carries. Sets the code only tests for membership are lists here.
\<close>

definition LOADING_OVERHEAD_FACTOR :: float64 where "LOADING_OVERHEAD_FACTOR = fl (105 / 100)"
definition ACTIVATION_OVERHEAD_BYTES :: int where "ACTIVATION_OVERHEAD_BYTES = 256 * 1024 * 1024"
definition ASSUMED_KV_CACHE_PRECISION :: string where "ASSUMED_KV_CACHE_PRECISION = ''f16''"
definition DEFAULT_VRAM_HEADROOM_BYTES :: int where "DEFAULT_VRAM_HEADROOM_BYTES = 512 * 1024 * 1024"

definition BYTES_PER_ELEMENT :: "(string, float64) dict" where
  "BYTES_PER_ELEMENT =
     [(''f32'', 4), (''fp32'', 4), (''f16'', 2), (''fp16'', 2), (''bf16'', 2), (''q8_0'', 1), (''q8'', 1),
      (''q5_1'', 5 / 8), (''q5_0'', 5 / 8), (''q4_0'', 1 / 2), (''q4_1'', 1 / 2), (''q4'', 1 / 2)]"

record VramEstimate =
  total_bytes :: "int option"
  weights_bytes :: "int option"
  kv_bytes :: "int option"
  activation_bytes :: int
  est_kv_bytes_per_token :: "float64 option"
  kv_source :: string
  kv_precision_assumed :: bool
  est_served_context :: int
  unknown_reason :: "string option"

definition estimate_json :: "VramEstimate \<Rightarrow> (string \<times> json) list" where
  "estimate_json e =
     [(''total_bytes'', of_opt_int (total_bytes e)), (''weights_bytes'', of_opt_int (weights_bytes e)),
      (''kv_bytes'', of_opt_int (kv_bytes e)), (''activation_bytes'', JInt (activation_bytes e)),
      (''kv_bytes_per_token'', of_opt_float (est_kv_bytes_per_token e)), (''kv_source'', JStr (kv_source e)),
      (''kv_precision_assumed'', JBool (kv_precision_assumed e)),
      (''served_context'', JInt (est_served_context e)), (''unknown_reason'', of_opt_str (unknown_reason e))]"

record DeviceFit =
  fit_gpu_index :: int
  fit_free_bytes :: "int option"
  fit_required_bytes :: "int option"
  fit_headroom_bytes :: int
  device_ok :: bool

subsection \<open>The estimator\<close>

definition kv_bytes_per_token :: "int option \<Rightarrow> int option \<Rightarrow> int option \<Rightarrow> string option \<Rightarrow> float64 option \<Rightarrow>
    float64 option \<times> string \<times> bool" where
  "kv_bytes_per_token n_layers n_kv_heads n_head_dim precision observed =
     (case observed of
        Some x \<Rightarrow> (Some x, ''observed'', False)
      | None \<Rightarrow>
          (case (n_layers, n_kv_heads, n_head_dim) of
             (Some l, Some h, Some d) \<Rightarrow>
               (let stated = (case precision of Some p \<Rightarrow> if p \<noteq> [] then p else ASSUMED_KV_CACHE_PRECISION
                              | None \<Rightarrow> ASSUMED_KV_CACHE_PRECISION)
                in (case map_of BYTES_PER_ELEMENT (lower (strip stated)) of
                      None \<Rightarrow> (None, ''unknown'', False)
                    | Some b \<Rightarrow>
                        (Some (fl (fl (fl (fl (2 * fl (of_int l)) * fl (of_int h)) * fl (of_int d)) * b)),
                         ''theoretical'', precision = None)))
           | _ \<Rightarrow> (None, ''unknown'', False)))"

definition estimate_vram :: "int option \<Rightarrow> int \<Rightarrow> int option \<Rightarrow> int option \<Rightarrow> int option \<Rightarrow> string option \<Rightarrow>
    float64 option \<Rightarrow> float64 \<Rightarrow> int \<Rightarrow> VramEstimate" where
  "estimate_vram n_bytes served n_layers n_kv_heads n_head_dim precision observed factor activation =
     (case kv_bytes_per_token n_layers n_kv_heads n_head_dim precision observed of
        (per_token, kv_src, assumed) \<Rightarrow>
          (let weights = map_option (\<lambda>s. trunc (fl (fl (of_int s) * factor))) n_bytes;
               kv = map_option (\<lambda>p. trunc (fl (p * fl (of_int served)))) per_token;
               reason = (case (n_bytes, per_token) of
                   (None, None) \<Rightarrow>
                     Some ''the provider reported neither a weight size nor the geometry a KV figure needs''
                 | (None, Some _) \<Rightarrow> Some ''the provider reported no weight size for this model''
                 | (Some _, None) \<Rightarrow> Some (''no measured KV figure exists and the provider reported no '' @
                     ''layers/kv_heads/head_dim to compute a theoretical one'')
                 | _ \<Rightarrow> None);
               total_est = (case (weights, kv) of (Some w, Some k) \<Rightarrow> Some (w + k + activation) | _ \<Rightarrow> None)
           in \<lparr>total_bytes = total_est, weights_bytes = weights, kv_bytes = kv, activation_bytes = activation,
               est_kv_bytes_per_token = per_token, kv_source = kv_src, kv_precision_assumed = assumed,
               est_served_context = served, unknown_reason = reason\<rparr>))"

definition free_of_gpu :: "gpu_reading \<Rightarrow> int option" where
  "free_of_gpu gpu =
     (case (vram_total_bytes gpu, vram_used_bytes gpu) of
        (Some capacity, Some used) \<Rightarrow> Some (max (capacity - used) 0)
      | _ \<Rightarrow> None)"

definition free_vram_by_gpu :: "telemetry_snapshot \<Rightarrow> (int, int option) dict" where
  "free_vram_by_gpu snapshot = fold (\<lambda>gpu. AList.update (gpu_index gpu) (free_of_gpu gpu)) (gpus snapshot) []"

definition device_fits :: "VramEstimate \<Rightarrow> telemetry_snapshot \<Rightarrow> int \<Rightarrow> DeviceFit list" where
  "device_fits estimate snapshot headroom =
     map (\<lambda>(index, free). \<lparr>fit_gpu_index = index, fit_free_bytes = free,
            fit_required_bytes = total_bytes estimate, fit_headroom_bytes = headroom,
            device_ok = (case (total_bytes estimate, free) of
               (Some required, Some f) \<Rightarrow> required + headroom \<le> f | _ \<Rightarrow> False)\<rparr>)
       (sort_key fst (free_vram_by_gpu snapshot))"

subsection \<open>The filter\<close>

record Rejection =
  reason :: string
  detail :: "(string \<times> json) list"

definition reject :: "string \<Rightarrow> (string \<times> json) list \<Rightarrow> Rejection option" where
  "reject r d = Some \<lparr>reason = r, detail = d\<rparr>"

record ConstraintInputs =
  min_context_tokens :: int
  requires_capabilities :: "string list"
  min_capability_scores :: "(string, float64) dict option"
  exclude_models :: "string list"
  allow_remote_providers :: bool
  required_context :: "int option"
  resolved_capabilities :: "(string, CapabilityScore) dict option"
  snapshot :: "telemetry_snapshot option"
  vram_headroom_bytes :: int
  open_circuit_breakers :: "string list"
  resident_devices :: "(string, int list) dict"
  circuit_breaker_details :: "(string, (string \<times> json) list) dict"
  request_capabilities :: "string list"
  requires_thinking_control :: "string option"
  require_adapter_evidence :: bool
  top_weighted_capability :: "string option"
  caller_data_classification :: "string option"

definition GATE_MEASURED_SOURCES :: "string set" where
  "GATE_MEASURED_SOURCES = {''benchmark'', ''production''}"

text \<open>\<open>_CAPABILITY_SUPPORT_ATTRIBUTE\<close> and the \<open>getattr\<close> on the provider.\<close>

definition CAPABILITY_SUPPORT_ATTRIBUTE :: "(string, ProviderFacts \<Rightarrow> bool) dict" where
  "CAPABILITY_SUPPORT_ATTRIBUTE =
     [(''tool_use'', supports_tool_use), (''structured_output'', supports_structured_output)]"

definition adapter_unmeasured_detail :: "string \<Rightarrow> string \<Rightarrow> CapabilityScore option \<Rightarrow> string \<Rightarrow> (string \<times> json) list" where
  "adapter_unmeasured_detail name capability resolved executing_profile_hash =
     (let src = (case resolved of None \<Rightarrow> ''absent'' | Some r \<Rightarrow> cs_source r);
          problem = (if src \<in> EVIDENCE_EXCLUSIONS then
              ''the only measurement of '' @ repr_str capability @ '' on this adapter subject does not describe '' @
              ''this execution ('' @ src @ ''); routed selection needs one that does, a pin does not''
            else if src = ''absent'' then
              ''no measured evidence for '' @ repr_str capability @ '' on this adapter subject; '' @
              ''routed selection needs a measurement, a pin does not''
            else repr_str capability @ '' is scored on a '' @ src @ '' value, which is a claim and not a '' @
              ''measurement; routed selection needs a measurement, a pin does not'')
      in [(''adapter'', JStr name), (''capability'', JStr capability), (''require_adapter_evidence'', JBool True),
          (''resolved_source'', JStr src), (''problem'', JStr problem)] @
         (case resolved of
            None \<Rightarrow> []
          | Some r \<Rightarrow>
              (if src \<in> EVIDENCE_EXCLUSIONS then [(''executing_profile_hash'', JStr executing_profile_hash)] else []) @
              filter (\<lambda>(k, v). v \<noteq> JNull)
                [(''note'', of_opt_str (cs_note r)), (''remedy'', of_opt_str (cs_remedy r)),
                 (''measured_profile_hash'', of_opt_str (cs_measured_profile_hash r)),
                 (''measured_machine_fingerprint'', of_opt_str (cs_measured_machine_fingerprint r))]))"

definition join_classification :: "packages \<Rightarrow> string option \<Rightarrow> string \<Rightarrow> string" where
  "join_classification pkg caller adapter_class =
     (case classification_rank pkg adapter_class of
        None \<Rightarrow> adapter_class
      | Some a \<Rightarrow>
          (case caller of
             None \<Rightarrow> adapter_class
           | Some c \<Rightarrow>
               (case classification_rank pkg c of
                  None \<Rightarrow> adapter_class
                | Some k \<Rightarrow> if a > k then adapter_class else c)))"

definition resolved_entry :: "ConstraintInputs \<Rightarrow> string \<Rightarrow> CapabilityScore option" where
  "resolved_entry inputs capability =
     map_of (case resolved_capabilities inputs of None \<Rightarrow> [] | Some d \<Rightarrow> d) capability"

definition gate_measured :: "CapabilityScore option \<Rightarrow> bool" where
  "gate_measured resolved =
     (case resolved of None \<Rightarrow> False | Some r \<Rightarrow> present r \<and> cs_source r \<in> GATE_MEASURED_SOURCES)"

definition check_adapter_egress :: "packages \<Rightarrow> ExecutionSubject \<Rightarrow> ConstraintInputs \<Rightarrow> AdapterFacts \<Rightarrow> Rejection option" where
  "check_adapter_egress pkg subject inputs a =
     (if is_remote (facts subject) \<or> provider_is_remote (subject_provider subject) then
        reject ''adapter_classification_conflict''
          [(''adapter'', JStr (adapter_name a)), (''adapter_classification'', JStr (data_classification a)),
           (''caller_classification'', of_opt_str (caller_data_classification inputs)),
           (''effective_classification'', JStr (join_classification pkg (caller_data_classification inputs) (data_classification a))),
           (''provider_name'', JStr (provider_name (facts subject))), (''provider_remote'', JBool True),
           (''problem'', JStr (''an adapter is a local-only artifact (ADR-0065 rule 3), and this candidate '' @
              ''would be served by a remote registration; no flag makes it eligible''))]
      else None)"

definition check_adapter :: "packages \<Rightarrow> ExecutionSubject \<Rightarrow> ConstraintInputs \<Rightarrow> Rejection option" where
  "check_adapter pkg subject inputs =
     (case adapter subject of
        None \<Rightarrow> None
      | Some a \<Rightarrow>
          if \<not> adapter_hot_swap (subject_provider subject) then
            reject ''adapter_incompatible''
              [(''adapter'', JStr (adapter_name a)), (''provider_name'', JStr (provider_name (facts subject))),
               (''provider_kind'', JStr (provider_kind (facts subject))),
               (''problem'', JStr ''this provider declares no adapter_hot_swap, so it can serve no adapter'')]
          else if base_artifact_digest a \<noteq> None \<and> artifact_digest (facts subject) \<noteq> None \<and>
                  base_artifact_digest a \<noteq> artifact_digest (facts subject) then
            reject ''adapter_incompatible''
              [(''adapter'', JStr (adapter_name a)), (''declared_base_name'', JStr (base_model_name a)),
               (''declared_base_digest'', of_opt_str (base_artifact_digest a)),
               (''served_base_digest'', of_opt_str (artifact_digest (facts subject))),
               (''problem'', JStr (''the manifest declares a different base artifact than this candidate serves; '' @
                  ''applying it would run weights nobody trained this adapter against''))]
          else (case (if require_adapter_evidence inputs then top_weighted_capability inputs else None) of
             Some capability \<Rightarrow>
               if \<not> gate_measured (resolved_entry inputs capability) then
                 reject ''adapter_unmeasured'' (adapter_unmeasured_detail (adapter_name a) capability
                   (resolved_entry inputs capability) (runtime_profile_hash pkg subject))
               else check_adapter_egress pkg subject inputs a
           | None \<Rightarrow> check_adapter_egress pkg subject inputs a))"

definition check_host_ram :: "VramEstimate \<Rightarrow> telemetry_snapshot \<Rightarrow> Rejection option" where
  "check_host_ram estimate snap =
     (case (total_bytes estimate, ram_available_bytes snap) of
        (Some required, Some free) \<Rightarrow>
          if required > free then
            reject ''insufficient_ram'' [(''estimated_bytes'', JInt required), (''free_bytes'', JInt free)]
          else None
      | _ \<Rightarrow> None)"

text \<open>The constraints before the memory check: the first failure, if any.\<close>

definition check_capabilities :: "ExecutionSubject \<Rightarrow> ConstraintInputs \<Rightarrow> Rejection option" where
  "check_capabilities subject inputs =
     (case find (\<lambda>c. case map_of CAPABILITY_SUPPORT_ATTRIBUTE c of None \<Rightarrow> False
                     | Some supports \<Rightarrow> \<not> supports (subject_provider subject)) (requires_capabilities inputs) of
        None \<Rightarrow> None
      | Some c \<Rightarrow> reject ''capability_unsupported''
          [(''capability'', JStr c), (''provider_kind'', JStr (provider_kind (facts subject))),
           (''required_by'', JStr (if c \<in> set (request_capabilities inputs) then ''request'' else ''task_profile''))])"

definition check_identity :: "ExecutionSubject \<Rightarrow> ConstraintInputs \<Rightarrow> Rejection option" where
  "check_identity subject inputs =
     (let f = facts subject; served = served_context subject; provider = subject_provider subject in
      if \<not> enabled f then reject ''model_disabled'' [(''enabled'', JBool False)]
      else (case runtime_profile_refusal (runtime_profile subject) (provider_kind f) of
        Some (r, d) \<Rightarrow> reject r d
      | None \<Rightarrow>
        if \<not> available f \<or> \<not> healthy provider then
          reject ''model_unavailable''
            [(''available'', JBool (available f)), (''provider_healthy'', JBool (healthy provider)),
             (''reason'', of_opt_str (unavailable_reason f))]
        else if min_context_tokens inputs > 0 \<and> tokens served < min_context_tokens inputs then
          reject ''context_too_small''
            [(''served_context'', JInt (tokens served)), (''served_context_source'', JStr (context_source served)),
             (''min_context_tokens'', JInt (min_context_tokens inputs)),
             (''advertised_max_context'', of_opt_int (max_context f))]
        else if context_size (runtime_profile subject) \<noteq> None \<and> \<not> context_configurable provider \<and>
                context_size (runtime_profile subject) \<noteq> Some (tokens served) then
          reject ''context_not_configurable''
            [(''requested_context'', of_opt_int (context_size (runtime_profile subject))),
             (''served_context'', JInt (tokens served)), (''served_context_source'', JStr (context_source served)),
             (''min_context_tokens'', JInt (min_context_tokens inputs)), (''context_configurable'', JBool False)]
        else if (case required_context inputs of None \<Rightarrow> False | Some n \<Rightarrow> n > tokens served) then
          reject ''context_limit_exceeded''
            [(''required_context'', of_opt_int (required_context inputs)), (''served_context'', JInt (tokens served)),
             (''served_context_source'', JStr (context_source served))]
        else (case check_capabilities subject inputs of
          Some r \<Rightarrow> Some r
        | None \<Rightarrow>
          (case requires_thinking_control inputs of
             Some who \<Rightarrow>
               if \<not> supports_thinking_control provider then
                 reject ''capability_unsupported''
                   [(''capability'', JStr ''thinking_control''), (''provider_kind'', JStr (provider_kind f)),
                    (''required_by'', JStr who)]
               else None
           | None \<Rightarrow> None))))"

text \<open>The memory check: a rejection, or the device that will hold the model.\<close>

definition check_memory :: "ExecutionSubject \<Rightarrow> VramEstimate \<Rightarrow> ConstraintInputs \<Rightarrow>
    Rejection option \<times> DeviceFit list \<times> int option" where
  "check_memory subject estimate inputs =
     (case snapshot inputs of
        None \<Rightarrow> (None, [], None)
      | Some snap \<Rightarrow>
          (let fit_list = device_fits estimate snap (vram_headroom_bytes inputs);
               resident_on = dict_get (resident_devices inputs) (canonical_id (facts subject)) [];
               resident_here = filter (\<lambda>fit. fit_gpu_index fit \<in> set resident_on) fit_list;
               satisfying = filter device_ok fit_list
           in if fit_list \<noteq> [] then
                (if resident_here \<noteq> [] then (None, fit_list, Some (fit_gpu_index (hd resident_here)))
                 else if satisfying = [] then
                   (reject ''insufficient_vram''
                      [(''estimated_bytes'', of_opt_int (total_bytes estimate)),
                       (''free_bytes_by_gpu'',
                          JObj (map (\<lambda>fit. (str_int (fit_gpu_index fit), of_opt_int (fit_free_bytes fit))) fit_list)),
                       (''headroom_bytes'', JInt (vram_headroom_bytes inputs)),
                       (''estimate'', JObj (estimate_json estimate))], fit_list, None)
                 else (None, fit_list, Some (fit_gpu_index (hd satisfying))))
              else (check_host_ram estimate snap, fit_list, None)))"

text \<open>The constraints after it.\<close>

definition check_floors :: "ConstraintInputs \<Rightarrow> Rejection option" where
  "check_floors inputs =
     (let floors = (case min_capability_scores inputs of None \<Rightarrow> [] | Some d \<Rightarrow> d);
          score_of = (\<lambda>c. case resolved_entry inputs c of None \<Rightarrow> None | Some e \<Rightarrow> cs_score e)
      in (case find (\<lambda>(c, floor_score). case score_of c of None \<Rightarrow> False | Some s \<Rightarrow> s < floor_score) (sort_key fst floors) of
            None \<Rightarrow> None
          | Some (c, floor_score) \<Rightarrow> reject ''below_minimum_score''
              [(''capability'', JStr c), (''score'', of_opt_float (score_of c)), (''minimum'', JFloat floor_score)]))"

definition check_policy :: "packages \<Rightarrow> ExecutionSubject \<Rightarrow> ConstraintInputs \<Rightarrow> Rejection option" where
  "check_policy pkg subject inputs =
     (case check_floors inputs of
        Some r \<Rightarrow> Some r
      | None \<Rightarrow>
        if canonical_id (facts subject) \<in> set (exclude_models inputs) then
          reject ''excluded_by_policy'' [(''rule'', JStr ''exclude_models'')]
        else if is_remote (facts subject) \<and> \<not> allow_remote_providers inputs then
          reject ''excluded_by_policy''
            [(''rule'', JStr ''allow_remote_providers''), (''provider_kind'', JStr (provider_kind (facts subject)))]
        else (case check_adapter pkg subject inputs of
          Some r \<Rightarrow> Some r
        | None \<Rightarrow>
          if subject_canonical_id pkg subject \<in> set (open_circuit_breakers inputs) then
            reject ''recently_failing''
              (fold (\<lambda>(k, v). AList.update k v)
                 (dict_get (circuit_breaker_details inputs) (subject_canonical_id pkg subject) [])
                 [(''circuit_breaker'', JStr ''open'')])
          else None))"

definition evaluate_constraints :: "packages \<Rightarrow> ExecutionSubject \<Rightarrow> VramEstimate \<Rightarrow> ConstraintInputs \<Rightarrow>
    Rejection option \<times> DeviceFit list \<times> int option" where
  "evaluate_constraints pkg subject estimate inputs =
     (case check_identity subject inputs of
        Some r \<Rightarrow> (Some r, [], None)
      | None \<Rightarrow>
          (case check_memory subject estimate inputs of
             (Some r, fit_list, target) \<Rightarrow> (Some r, fit_list, None)
           | (None, fit_list, target) \<Rightarrow>
               (case check_policy pkg subject inputs of
                  Some r \<Rightarrow> (Some r, fit_list, None)
                | None \<Rightarrow> (None, fit_list, target))))"

datatype sort_estimate = Finite float64 | Infinity

definition sortable_estimate :: "VramEstimate \<Rightarrow> sort_estimate" where
  "sortable_estimate estimate =
     (case total_bytes estimate of None \<Rightarrow> Infinity | Some n \<Rightarrow> Finite (fl (of_int n)))"

subsection \<open>Devices are judged one by one\<close>

lemma map_of_free_vram:
  "map_of (free_vram_by_gpu snap) i =
     map_option free_of_gpu (find (\<lambda>g. gpu_index g = i) (rev (gpus snap)))"
  using map_of_fold_put[of gpu_index free_of_gpu "gpus snap" "[]" i]
  by (simp add: free_vram_by_gpu_def split: option.splits)

lemma distinct_free_vram: "distinct (map fst (free_vram_by_gpu snap))"
  unfolding free_vram_by_gpu_def by (rule distinct_keys_fold_update) simp

definition fit_of :: "VramEstimate \<Rightarrow> int \<Rightarrow> int \<Rightarrow> int option \<Rightarrow> DeviceFit" where
  "fit_of e h i free = \<lparr>fit_gpu_index = i, fit_free_bytes = free, fit_required_bytes = total_bytes e,
     fit_headroom_bytes = h, device_ok = (case (total_bytes e, free) of
       (Some required, Some f) \<Rightarrow> required + h \<le> f | _ \<Rightarrow> False)\<rparr>"

lemma fit_of_simps [simp]:
  "fit_gpu_index (fit_of e h i free) = i" "fit_free_bytes (fit_of e h i free) = free"
  "device_ok (fit_of e h i free) \<longleftrightarrow> (\<exists>n f. total_bytes e = Some n \<and> free = Some f \<and> n + h \<le> f)"
  by (auto simp: fit_of_def split: option.splits)

lemma set_device_fits:
  "set (device_fits e snap h) = {fit_of e h i free | i free. map_of (free_vram_by_gpu snap) i = Some free}"
proof -
  have "device_fits e snap h = map (\<lambda>(i, free). fit_of e h i free) (sort_key fst (free_vram_by_gpu snap))"
    by (simp add: device_fits_def fit_of_def)
  then show ?thesis by (auto simp: map_of_eq_Some_iff[OF distinct_free_vram] image_iff)
qed

lemma find_Some_ex: "(\<exists>y. map_option g (find P xs) = Some y) \<longleftrightarrow> (\<exists>x \<in> set xs. P x)"
  by (induction xs) auto

lemma device_fits_Nil: "device_fits e snap h = [] \<longleftrightarrow> gpus snap = []"
proof -
  have "device_fits e snap h = [] \<longleftrightarrow> free_vram_by_gpu snap = []"
    by (metis (no_types, lifting) device_fits_def length_map length_sort length_0_conv)
  also have "\<dots> \<longleftrightarrow> (\<forall>i. \<not> (\<exists>free. map_of (free_vram_by_gpu snap) i = Some free))"
    by (cases "free_vram_by_gpu snap") auto
  also have "\<dots> \<longleftrightarrow> gpus snap = []"
    unfolding map_of_free_vram find_Some_ex by (cases "gpus snap") auto
  finally show ?thesis .
qed

text \<open>
  What one device offers: the memory of the device itself, never of another one.
\<close>

definition device_holds :: "telemetry_snapshot \<Rightarrow> VramEstimate \<Rightarrow> int \<Rightarrow> int \<Rightarrow> bool" where
  "device_holds snap e h i \<longleftrightarrow>
     (\<exists>n f. total_bytes e = Some n \<and> map_of (free_vram_by_gpu snap) i = Some (Some f) \<and> n + h \<le> f)"

definition visible_gpu :: "telemetry_snapshot \<Rightarrow> int \<Rightarrow> bool" where
  "visible_gpu snap i \<longleftrightarrow> (\<exists>g \<in> set (gpus snap). gpu_index g = i)"

lemma visible_gpu_iff: "visible_gpu snap i \<longleftrightarrow> (\<exists>free. map_of (free_vram_by_gpu snap) i = Some free)"
  unfolding map_of_free_vram find_Some_ex by (simp add: visible_gpu_def)

lemma device_fits_ok:
  "(\<exists>fit \<in> set (device_fits e snap h). fit_gpu_index fit = i) \<longleftrightarrow> visible_gpu snap i"
  "(\<exists>fit \<in> set (device_fits e snap h). fit_gpu_index fit = i \<and> device_ok fit) \<longleftrightarrow> device_holds snap e h i"
  by (force simp: set_device_fits visible_gpu_iff device_holds_def)+

lemma hd_filter: "filter P xs \<noteq> [] \<Longrightarrow> hd (filter P xs) \<in> set xs \<and> P (hd (filter P xs))"
  using hd_in_set[of "filter P xs"] by auto

lemma check_memory_sound:
  fixes subject :: ExecutionSubject
  assumes "snapshot inputs = Some snap"
  defines "res \<equiv> set (dict_get (resident_devices inputs) (canonical_id (facts subject)) [])"
  shows "(\<forall>i. snd (snd (check_memory subject e inputs)) = Some i \<longrightarrow>
      visible_gpu snap i \<and> (i \<in> res \<or> device_holds snap e (vram_headroom_bytes inputs) i)) \<and>
    (fst (check_memory subject e inputs) \<noteq> None \<longleftrightarrow>
      (if gpus snap \<noteq> []
       then (\<forall>i. visible_gpu snap i \<longrightarrow> i \<notin> res \<and> \<not> device_holds snap e (vram_headroom_bytes inputs) i)
       else (\<exists>n f. total_bytes e = Some n \<and> ram_available_bytes snap = Some f \<and> f < n))) \<and>
    (fst (check_memory subject e inputs) = None \<and> gpus snap \<noteq> [] \<longrightarrow>
      (\<exists>i. snd (snd (check_memory subject e inputs)) = Some i))"
proof -
  let ?h = "vram_headroom_bytes inputs" and ?fl = "device_fits e snap (vram_headroom_bytes inputs)"
  let ?here = "filter (\<lambda>fit. fit_gpu_index fit \<in> res) ?fl"
  have ok: "\<And>i. (\<exists>fit \<in> set ?fl. fit_gpu_index fit = i) \<longleftrightarrow> visible_gpu snap i"
    "\<And>i. (\<exists>fit \<in> set ?fl. fit_gpu_index fit = i \<and> device_ok fit) \<longleftrightarrow> device_holds snap e ?h i"
    by (rule device_fits_ok)+
  define r where "r = the (fst (check_memory subject e inputs))"
  have m: "check_memory subject e inputs =
      (if gpus snap \<noteq> [] then
         (if ?here \<noteq> [] then (None, ?fl, Some (fit_gpu_index (hd ?here)))
          else if filter device_ok ?fl = [] then (Some r, ?fl, None)
          else (None, ?fl, Some (fit_gpu_index (hd (filter device_ok ?fl)))))
       else (check_host_ram e snap, ?fl, None))"
    using assms(1) by (simp add: r_def check_memory_def Let_def res_def device_fits_Nil reject_def)
  have ram: "check_host_ram e snap \<noteq> None \<longleftrightarrow>
      (\<exists>n f. total_bytes e = Some n \<and> ram_available_bytes snap = Some f \<and> f < n)"
    by (auto simp: check_host_ram_def reject_def split: option.splits)
  consider "gpus snap = []" | "gpus snap \<noteq> []" "?here \<noteq> []" | "gpus snap \<noteq> []" "?here = []" "filter device_ok ?fl = []"
    | "gpus snap \<noteq> []" "?here = []" "filter device_ok ?fl \<noteq> []" by blast
  then show ?thesis
  proof cases
    case 1
    then show ?thesis unfolding m using ram by (simp add: visible_gpu_def)
  next
    case 2
    have "visible_gpu snap (fit_gpu_index (hd ?here)) \<and> fit_gpu_index (hd ?here) \<in> res"
      using hd_filter[OF 2(2)] ok(1) by blast
    then show ?thesis unfolding m using 2 by auto
  next
    case 3
    have "i \<notin> res" if "visible_gpu snap i" for i
      using 3(2) that ok(1)[of i] unfolding filter_empty_conv by blast
    moreover have "\<not> device_holds snap e ?h i" for i
      using 3(3) ok(2)[of i] unfolding filter_empty_conv by blast
    ultimately show ?thesis unfolding m using 3 by auto
  next
    case 4
    have "visible_gpu snap (fit_gpu_index (hd (filter device_ok ?fl))) \<and>
        device_holds snap e ?h (fit_gpu_index (hd (filter device_ok ?fl)))"
      using hd_filter[OF 4(3)] ok by blast
    then show ?thesis unfolding m using 4 by auto
  qed
qed

text \<open>
  The memory check places a model on one device or on none. It names a target device only
  if the model is already resident on that visible device, or if the estimate plus the reserve
  fits in what that device alone has free; it rejects for VRAM exactly when devices are visible,
  the model is resident on none of them, and none of them holds it by itself, however much they
  have free together; with no device visible it rejects only a known estimate above the free RAM.
  An unknown estimate fits nowhere.
\<close>

theorem memory_check_per_device:
  fixes subject :: ExecutionSubject
  assumes "snapshot inputs = Some snap"
  defines "res \<equiv> set (dict_get (resident_devices inputs) (canonical_id (facts subject)) [])"
  shows "(\<forall>i. snd (snd (check_memory subject e inputs)) = Some i \<longrightarrow>
      visible_gpu snap i \<and> (i \<in> res \<or> device_holds snap e (vram_headroom_bytes inputs) i)) \<and>
    (fst (check_memory subject e inputs) \<noteq> None \<longleftrightarrow>
      (if gpus snap \<noteq> []
       then (\<forall>i. visible_gpu snap i \<longrightarrow> i \<notin> res \<and> \<not> device_holds snap e (vram_headroom_bytes inputs) i)
       else (\<exists>n f. total_bytes e = Some n \<and> ram_available_bytes snap = Some f \<and> f < n))) \<and>
    (fst (check_memory subject e inputs) = None \<and> gpus snap \<noteq> [] \<longrightarrow>
      (\<exists>i. snd (snd (check_memory subject e inputs)) = Some i))"
  unfolding res_def by (rule check_memory_sound[OF assms(1)])

definition plain_model :: ModelFacts where
  "plain_model = \<lparr>model_id = ''1'', canonical_id = ''ollama/m'', provider_kind = ''ollama'', provider_model_name = ''m'',
     artifact_digest = None, available = True, unavailable_reason = None, enabled = True, max_context = Some 8192,
     size_bytes = Some 14, parameter_count = None, layers = None, kv_heads = None, head_dim = None,
     is_remote = False, provider_name = []\<rparr>"

definition plain_subject :: ExecutionSubject where
  "plain_subject = \<lparr>facts = plain_model, subject_provider = plain_provider, runtime_profile = empty_profile,
     served_context = \<lparr>tokens = 8192, context_source = ''assumed''\<rparr>, signals = [], adapter = None\<rparr>"

definition plain_inputs :: "telemetry_snapshot option \<Rightarrow> ConstraintInputs" where
  "plain_inputs snap = \<lparr>min_context_tokens = 0, requires_capabilities = [], min_capability_scores = None,
     exclude_models = [], allow_remote_providers = False, required_context = None, resolved_capabilities = None,
     snapshot = snap, vram_headroom_bytes = 1, open_circuit_breakers = [], resident_devices = [],
     circuit_breaker_details = [], request_capabilities = [], requires_thinking_control = None,
     require_adapter_evidence = True, top_weighted_capability = None, caller_data_classification = None\<rparr>"

definition plain_estimate :: "int \<Rightarrow> VramEstimate" where
  "plain_estimate n = \<lparr>total_bytes = Some n, weights_bytes = Some n, kv_bytes = Some 0, activation_bytes = 0,
     est_kv_bytes_per_token = Some 0, kv_source = ''observed'', kv_precision_assumed = False,
     est_served_context = 8192, unknown_reason = None\<rparr>"

definition two_devices :: telemetry_snapshot where
  "two_devices = \<lparr>gpus = [\<lparr>gpu_index = 0, vram_used_bytes = Some 0, vram_total_bytes = Some 8\<rparr>,
     \<lparr>gpu_index = 1, vram_used_bytes = Some 0, vram_total_bytes = Some 8\<rparr>], ram_available_bytes = None\<rparr>"

theorem memory_check_per_device_witness:
  "fst (check_memory plain_subject (plain_estimate 14) (plain_inputs (Some two_devices))) \<noteq> None"
proof -
  have "\<not> device_holds two_devices (plain_estimate 14) 1 i" for i
    by (auto simp: device_holds_def plain_estimate_def map_of_free_vram two_devices_def free_of_gpu_def split: if_splits)
  then show ?thesis
    using memory_check_per_device[of "plain_inputs (Some two_devices)" two_devices plain_subject "plain_estimate 14"]
    by (simp add: plain_inputs_def two_devices_def dict_get_def)
qed

subsection \<open>Eligibility\<close>

text \<open>What the filter demands of a candidate, as one condition per constraint.\<close>

definition eligible_identity :: "ExecutionSubject \<Rightarrow> ConstraintInputs \<Rightarrow> bool" where
  "eligible_identity s inputs \<longleftrightarrow>
     enabled (facts s) \<and> available (facts s) \<and> healthy (subject_provider s) \<and>
     runtime_profile_refusal (runtime_profile s) (provider_kind (facts s)) = None \<and>
     (0 < min_context_tokens inputs \<longrightarrow> min_context_tokens inputs \<le> tokens (served_context s)) \<and>
     (\<forall>c. context_size (runtime_profile s) = Some c \<longrightarrow>
        context_configurable (subject_provider s) \<or> c = tokens (served_context s)) \<and>
     (\<forall>n. required_context inputs = Some n \<longrightarrow> n \<le> tokens (served_context s)) \<and>
     (''tool_use'' \<in> set (requires_capabilities inputs) \<longrightarrow> supports_tool_use (subject_provider s)) \<and>
     (''structured_output'' \<in> set (requires_capabilities inputs) \<longrightarrow> supports_structured_output (subject_provider s)) \<and>
     (requires_thinking_control inputs \<noteq> None \<longrightarrow> supports_thinking_control (subject_provider s))"

definition eligible_policy :: "packages \<Rightarrow> ExecutionSubject \<Rightarrow> ConstraintInputs \<Rightarrow> bool" where
  "eligible_policy pkg s inputs \<longleftrightarrow>
     (\<forall>c m e x. (c, m) \<in> set (case min_capability_scores inputs of None \<Rightarrow> [] | Some d \<Rightarrow> d) \<longrightarrow>
        resolved_entry inputs c = Some e \<longrightarrow> cs_score e = Some x \<longrightarrow> m \<le> x) \<and>
     canonical_id (facts s) \<notin> set (exclude_models inputs) \<and>
     (is_remote (facts s) \<longrightarrow> allow_remote_providers inputs) \<and>
     subject_canonical_id pkg s \<notin> set (open_circuit_breakers inputs) \<and>
     (\<forall>a. adapter s = Some a \<longrightarrow>
        adapter_hot_swap (subject_provider s) \<and> \<not> is_remote (facts s) \<and> \<not> provider_is_remote (subject_provider s) \<and>
        (\<forall>d d'. base_artifact_digest a = Some d \<longrightarrow> artifact_digest (facts s) = Some d' \<longrightarrow> d = d') \<and>
        (\<forall>c. require_adapter_evidence inputs \<and> top_weighted_capability inputs = Some c \<longrightarrow>
           gate_measured (resolved_entry inputs c)))"

lemma find_None_ball: "find P xs = None \<longleftrightarrow> (\<forall>x \<in> set xs. \<not> P x)"
  by (auto simp: find_None_iff_ex)

lemma check_capabilities_None:
  "check_capabilities s inputs = None \<longleftrightarrow>
     (''tool_use'' \<in> set (requires_capabilities inputs) \<longrightarrow> supports_tool_use (subject_provider s)) \<and>
     (''structured_output'' \<in> set (requires_capabilities inputs) \<longrightarrow> supports_structured_output (subject_provider s))"
proof -
  have "check_capabilities s inputs = None \<longleftrightarrow> find (\<lambda>c. case map_of CAPABILITY_SUPPORT_ATTRIBUTE c of None \<Rightarrow> False
      | Some supports \<Rightarrow> \<not> supports (subject_provider s)) (requires_capabilities inputs) = None"
    by (simp add: check_capabilities_def reject_def split: option.splits)
  also have "\<dots> \<longleftrightarrow> (\<forall>c \<in> set (requires_capabilities inputs).
      (c = ''tool_use'' \<longrightarrow> supports_tool_use (subject_provider s)) \<and>
      (c = ''structured_output'' \<longrightarrow> supports_structured_output (subject_provider s)))"
    unfolding find_None_ball by (intro ball_cong refl) (simp add: CAPABILITY_SUPPORT_ATTRIBUTE_def)
  finally show ?thesis by blast
qed

lemma reject_neq_None [simp]: "reject r d \<noteq> None" "reject r d = None \<longleftrightarrow> False"
  by (simp_all add: reject_def)

lemma if_reject_None: "(if b then reject r d else x) = None \<longleftrightarrow> \<not> b \<and> x = None" by simp

lemma case_Some_None: "(case x of None \<Rightarrow> y | Some r \<Rightarrow> Some r) = None \<longleftrightarrow> x = None \<and> y = None"
  by (simp split: option.splits)

lemma check_identity_None: "check_identity s inputs = None \<longleftrightarrow> eligible_identity s inputs"
proof -
  have refusal: "(case x of None \<Rightarrow> y | Some (r, d) \<Rightarrow> reject r d) = None \<longleftrightarrow> x = None \<and> y = None"
    for x :: "(string \<times> (string \<times> json) list) option" and y by (auto simp: reject_def split: option.splits)
  have thinking: "(case x of None \<Rightarrow> None | Some who \<Rightarrow> if b then reject r (d who) else None) = None \<longleftrightarrow>
      (x \<noteq> None \<longrightarrow> \<not> b)" for x :: "string option" and b r d by (simp split: option.splits)
  have needed: "\<not> (case x of None \<Rightarrow> False | Some n \<Rightarrow> n > k) \<longleftrightarrow> (\<forall>n. x = Some n \<longrightarrow> n \<le> k)"
    for x :: "int option" and k by (auto split: option.splits)
  have set_size: "\<not> (x \<noteq> None \<and> \<not> b \<and> x \<noteq> Some k) \<longleftrightarrow> (\<forall>c. x = Some c \<longrightarrow> b \<or> c = k)"
    for x :: "int option" and b k by (cases x) auto
  have least: "\<not> (m > 0 \<and> k < m) \<longleftrightarrow> (0 < m \<longrightarrow> m \<le> k)" for m k :: int by auto
  have up: "\<not> (\<not> a \<or> \<not> h) \<longleftrightarrow> a \<and> h" for a h by blast
  show ?thesis
    unfolding check_identity_def eligible_identity_def Let_def if_reject_None refusal case_Some_None thinking
      needed set_size least up check_capabilities_None not_not
    by argo
qed

lemma check_floors_None:
  "check_floors inputs = None \<longleftrightarrow>
     (\<forall>c m e x. (c, m) \<in> set (case min_capability_scores inputs of None \<Rightarrow> [] | Some d \<Rightarrow> d) \<longrightarrow>
        resolved_entry inputs c = Some e \<longrightarrow> cs_score e = Some x \<longrightarrow> m \<le> x)"
proof -
  have "check_floors inputs = None \<longleftrightarrow>
      find (\<lambda>(c, m). case (case resolved_entry inputs c of None \<Rightarrow> None | Some e \<Rightarrow> cs_score e) of None \<Rightarrow> False | Some s \<Rightarrow> s < m)
        (sort_key fst (case min_capability_scores inputs of None \<Rightarrow> [] | Some d \<Rightarrow> d)) = None"
    by (simp add: check_floors_def Let_def reject_def split: option.splits prod.splits)
  also have "\<dots> \<longleftrightarrow> (\<forall>(c, m) \<in> set (case min_capability_scores inputs of None \<Rightarrow> [] | Some d \<Rightarrow> d).
      \<forall>e x. resolved_entry inputs c = Some e \<longrightarrow> cs_score e = Some x \<longrightarrow> m \<le> x)"
    unfolding find_None_ball set_sort by (intro ball_cong refl) (auto simp: not_less split: option.splits)
  finally show ?thesis by (simp only: Ball_def split_paired_All prod.case) blast
qed

lemma check_adapter_None:
  "check_adapter pkg s inputs = None \<longleftrightarrow>
     (\<forall>a. adapter s = Some a \<longrightarrow>
        adapter_hot_swap (subject_provider s) \<and> \<not> is_remote (facts s) \<and> \<not> provider_is_remote (subject_provider s) \<and>
        (\<forall>d d'. base_artifact_digest a = Some d \<longrightarrow> artifact_digest (facts s) = Some d' \<longrightarrow> d = d') \<and>
        (\<forall>c. require_adapter_evidence inputs \<and> top_weighted_capability inputs = Some c \<longrightarrow>
           gate_measured (resolved_entry inputs c)))"
  by (cases "adapter s"; cases "if require_adapter_evidence inputs then top_weighted_capability inputs else None")
    (auto simp: check_adapter_def check_adapter_egress_def reject_def split: if_splits)

lemma check_policy_None: "check_policy pkg s inputs = None \<longleftrightarrow> eligible_policy pkg s inputs"
  unfolding check_policy_def eligible_policy_def case_Some_None if_reject_None check_floors_None check_adapter_None
  by blast



end
