(* ===== verification/Ranking.thy ===== *)
theory Ranking
  imports Constraints "HOL-Library.Product_Lexorder"
begin

section \<open>The total order over candidates and the choice of fallbacks\<close>

text \<open>
  Models \<^verbatim>\<open>src/src/loadcoach/domain/routing/ranking.py\<close>: the key every surviving candidate is sorted by, the
  ranks, the primary and its fallbacks. An estimate that could not be made sorts after every
  estimate, as \<^verbatim>\<open>float("inf")\<close> does.
\<close>

instantiation sort_estimate :: linorder
begin

fun less_eq_sort_estimate :: "sort_estimate \<Rightarrow> sort_estimate \<Rightarrow> bool" where
  "less_eq_sort_estimate (Finite x) (Finite y) = (x \<le> y)"
| "less_eq_sort_estimate x Infinity = True"
| "less_eq_sort_estimate Infinity (Finite y) = False"

definition less_sort_estimate :: "sort_estimate \<Rightarrow> sort_estimate \<Rightarrow> bool" where
  "less_sort_estimate x y = (x \<le> y \<and> \<not> y \<le> x)"

instance
proof
  fix x y z :: sort_estimate
  show "(x < y) = (x \<le> y \<and> \<not> y \<le> x)" by (rule less_sort_estimate_def)
  show "x \<le> x" by (cases x) simp_all
  show "x \<le> y \<Longrightarrow> y \<le> z \<Longrightarrow> x \<le> z" by (cases x; cases y; cases z) simp_all
  show "x \<le> y \<Longrightarrow> y \<le> x \<Longrightarrow> x = y" by (cases x; cases y) simp_all
  show "x \<le> y \<or> y \<le> x" by (cases x; cases y) auto
qed

end

record RankedCandidate =
  cand_subject :: ExecutionSubject
  fit :: TaskFit
  factors :: AdjustmentFactors
  estimated_vram_bytes :: "int option"
  target_gpu_index :: "int option"
  resident :: bool
  rank :: int

definition final_score :: "RankedCandidate \<Rightarrow> float64" where
  "final_score c = fl (task_fit (fit c) * factors_product (factors c))"

type_synonym order_keys = "float64 \<times> float64 \<times> int \<times> sort_estimate \<times> string \<times> string"

definition order_key :: "RankedCandidate \<Rightarrow> order_keys" where
  "order_key c =
     (- final_score c, - mean_confidence (fit c), if resident c then 0 else 1,
      case estimated_vram_bytes c of None \<Rightarrow> Infinity | Some n \<Rightarrow> Finite (fl (of_int n)),
      canonical_id (facts (cand_subject c)), model_id (facts (cand_subject c)))"

record Ranking =
  ordered :: "RankedCandidate list"
  primary :: "RankedCandidate option"
  fallbacks :: "RankedCandidate list"

text \<open>\<^verbatim>\<open>sorted(candidates, key=...)\<close> is stable, as \<^const>\<open>sort_key\<close> is; \<^verbatim>\<open>enumerate\<close> starts at 1.\<close>

definition rank_candidates :: "RankedCandidate list \<Rightarrow> int \<Rightarrow> bool \<Rightarrow> Ranking" where
  "rank_candidates candidates fallback_depth no_fallback =
     (let ord = map (\<lambda>(position, c). c\<lparr>rank := int position\<rparr>) (enumerate 1 (sort_key order_key candidates)) in
      case ord of
        [] \<Rightarrow> \<lparr>ordered = [], primary = None, fallbacks = []\<rparr>
      | first # others \<Rightarrow>
          (let depth = (if no_fallback then 0 else max fallback_depth 0)
           in \<lparr>ordered = ord, primary = Some first, fallbacks = take (nat depth) others\<rparr>))"

subsection \<open>Ranked is sorted\<close>

lemma order_key_rank [simp]: "order_key (c\<lparr>rank := r\<rparr>) = order_key c"
  by (simp add: order_key_def final_score_def)

lemma ordered_rank_candidates:
  "ordered (rank_candidates cs d b) =
     map (\<lambda>(position, c). c\<lparr>rank := int position\<rparr>) (enumerate 1 (sort_key order_key cs))"
  by (simp add: rank_candidates_def Let_def split: list.splits)

lemma map_key_ordered: "map order_key (ordered (rank_candidates cs d b)) = map order_key (sort_key order_key cs)"
  by (simp add: ordered_rank_candidates comp_def case_prod_beta flip: map_map[of order_key snd, unfolded comp_def])

lemma ordered_nth:
  "i < length cs \<Longrightarrow> ordered (rank_candidates cs d b) ! i = (sort_key order_key cs ! i)\<lparr>rank := int (i + 1)\<rparr>"
  by (simp add: ordered_rank_candidates nth_enumerate_eq)

lemma length_ordered [simp]: "length (ordered (rank_candidates cs d b)) = length cs"
  by (simp add: ordered_rank_candidates)

lemma primary_fallbacks:
  "primary (rank_candidates cs d b) = (case ordered (rank_candidates cs d b) of [] \<Rightarrow> None | c # _ \<Rightarrow> Some c)"
  "fallbacks (rank_candidates cs d b) = take (if b then 0 else nat d) (tl (ordered (rank_candidates cs d b)))"
  by (auto simp: rank_candidates_def Let_def max_def split: list.splits)

text \<open>The order the documentation states, spelled out on two candidates.\<close>

definition vram_key :: "RankedCandidate \<Rightarrow> sort_estimate" where
  "vram_key c = (case estimated_vram_bytes c of None \<Rightarrow> Infinity | Some n \<Rightarrow> Finite (fl (of_int n)))"

definition beats :: "RankedCandidate \<Rightarrow> RankedCandidate \<Rightarrow> bool" where
  "beats x y \<longleftrightarrow>
     final_score x > final_score y \<or> final_score x = final_score y \<and>
     (mean_confidence (fit x) > mean_confidence (fit y) \<or> mean_confidence (fit x) = mean_confidence (fit y) \<and>
      (resident x \<and> \<not> resident y \<or> resident x = resident y \<and>
       (vram_key x < vram_key y \<or> vram_key x = vram_key y \<and>
        (canonical_id (facts (cand_subject x)) < canonical_id (facts (cand_subject y)) \<or>
         canonical_id (facts (cand_subject x)) = canonical_id (facts (cand_subject y)) \<and>
         model_id (facts (cand_subject x)) < model_id (facts (cand_subject y))))))"

lemma order_key_less: "order_key x < order_key y \<longleftrightarrow> beats x y"
  by (auto simp: order_key_def beats_def vram_key_def)

lemma order_key_inj: "order_key x = order_key y \<Longrightarrow>
    model_id (facts (cand_subject x)) = model_id (facts (cand_subject y))"
  by (simp add: order_key_def)

lemma ranks_ordered: "map rank (ordered (rank_candidates cs d b)) = map int [1..<Suc (length cs)]"
  by (rule nth_equalityI) (simp_all add: ordered_nth del: upt_Suc)

lemma unranked_ordered:
  "map (rank_update (\<lambda>_. 0)) (ordered (rank_candidates cs d b)) = map (rank_update (\<lambda>_. 0)) (sort_key order_key cs)"
  by (rule nth_equalityI) (simp_all add: ordered_nth)

lemma sorted_ordered: "sorted_wrt (\<lambda>x y. \<not> beats y x) (ordered (rank_candidates cs d b))"
proof -
  have "sorted (map order_key (ordered (rank_candidates cs d b)))"
    unfolding map_key_ordered by (rule sorted_sort_key)
  then show ?thesis by (simp add: sorted_map not_less flip: order_key_less)
qed

text \<open>
  C11. The ranking is a sorted permutation of the candidates: nothing is lost, added or changed
  but the rank, the ranks count from 1 in order, no candidate is beaten by one that comes later
  (higher final score, then higher confidence, then resident, then the smaller estimate with an
  unknown one last, then the identifiers), the primary is rank 1 whenever there is a candidate,
  and the fallbacks are the ranks 2 up to one more than the depth, none when the request
  disallows them or the depth is negative.
\<close>

theorem ranking_sorted:
  "mset (map (rank_update (\<lambda>_. 0)) (ordered (rank_candidates cs d b))) = mset (map (rank_update (\<lambda>_. 0)) cs) \<and>
   map rank (ordered (rank_candidates cs d b)) = map int [1..<Suc (length cs)] \<and>
   sorted_wrt (\<lambda>x y. \<not> beats y x) (ordered (rank_candidates cs d b)) \<and>
   primary (rank_candidates cs d b) = (case ordered (rank_candidates cs d b) of [] \<Rightarrow> None | c # _ \<Rightarrow> Some c) \<and>
   fallbacks (rank_candidates cs d b) = take (if b then 0 else nat d) (tl (ordered (rank_candidates cs d b)))"
  by (simp only: unranked_ordered ranks_ordered sorted_ordered primary_fallbacks mset_map mset_sort simp_thms)

text \<open>
  The ranking is a function of the set of candidates: with distinct model identifiers (the
  rows' primary keys) no tie is left, so any two orders of the same candidates rank identically.
\<close>

theorem ranking_deterministic:
  assumes "distinct (map (\<lambda>c. model_id (facts (cand_subject c))) cs)"
    and "mset cs' = mset cs"
  shows "rank_candidates cs' d b = rank_candidates cs d b"
proof -
  have keys: "distinct (map order_key cs)"
    using assms(1) order_key_inj by (metis (no_types, lifting) distinct_map inj_on_def)
  have inj: "inj_on order_key (set cs)" and "distinct cs" using keys by (simp_all add: distinct_map)
  moreover have "distinct cs'" using \<open>distinct cs\<close> assms(2) by (metis mset_eq_imp_distinct_iff)
  moreover have "set cs' = set cs" using assms(2) by (metis set_mset_mset)
  ultimately have "sort_key order_key cs' = sort_key order_key cs"
    by (intro map_sorted_distinct_set_unique[where f = order_key]) (simp_all add: distinct_map)
  then show ?thesis by (simp add: rank_candidates_def)
qed

definition plain_candidate :: "string \<Rightarrow> float64 \<Rightarrow> RankedCandidate" where
  "plain_candidate i score =
     \<lparr>cand_subject = plain_subject\<lparr>facts := plain_model\<lparr>model_id := i\<rparr>\<rparr>,
      fit = \<lparr>task_fit = score, fit_capabilities = [], present_weight = 0, measured_weight = 0\<rparr>,
      factors = \<lparr>reliability = 1, availability = 1, residency = 1, cost = 1, factors_reliability_detail = None,
                 factors_residency_detail = None\<rparr>,
      estimated_vram_bytes = None, target_gpu_index = None, resident = False, rank = 0\<rparr>"

theorem ranking_deterministic_witness:
  "rank_candidates [plain_candidate ''a'' 1, plain_candidate ''b'' 1] 1 False =
   rank_candidates [plain_candidate ''b'' 1, plain_candidate ''a'' 1] 1 False"
  by (rule ranking_deterministic) (simp_all add: plain_candidate_def)

end
