(* ===== verification/Queue_State.thy ===== *)
theory Queue_State
  imports Prelude
begin

section \<open>The job state machine\<close>

text \<open>
  Models \<^verbatim>\<open>src/src/loadcoach/domain/queue_state.py\<close>: the eleven job states, the sets of states the
  services select on, the transition table and the functions that decide where recovery and
  cancellation move a job. \<open>run\<close> is the step relation of the table as histories of states,
  newest first; the properties say that the targets recovery and cancellation compute are always
  edges of the table, and that no history reaches \<open>COMPLETED\<close> without leasing, admission,
  execution and validation.
\<close>

subsection \<open>States and sets of states\<close>

datatype JobState = QUEUED | LEASED | ADMITTED | WAITING_RESOURCES | EXECUTING | VALIDATING
  | RETRYING | CANCELLING | COMPLETED | FAILED | CANCELLED

fun state_value :: "JobState \<Rightarrow> string" where
  "state_value QUEUED = ''queued''"
| "state_value LEASED = ''leased''"
| "state_value ADMITTED = ''admitted''"
| "state_value WAITING_RESOURCES = ''waiting_resources''"
| "state_value EXECUTING = ''executing''"
| "state_value VALIDATING = ''validating''"
| "state_value RETRYING = ''retrying''"
| "state_value CANCELLING = ''cancelling''"
| "state_value COMPLETED = ''completed''"
| "state_value FAILED = ''failed''"
| "state_value CANCELLED = ''cancelled''"

definition TERMINAL_STATES :: "JobState set" where
  "TERMINAL_STATES = {COMPLETED, FAILED, CANCELLED}"

definition WAITING_STATES :: "JobState set" where
  "WAITING_STATES = {QUEUED, WAITING_RESOURCES}"

definition LEASE_HOLDING_STATES :: "JobState set" where
  "LEASE_HOLDING_STATES = {LEASED, ADMITTED, EXECUTING, VALIDATING, RETRYING}"

definition IN_FLIGHT_STATES :: "JobState set" where
  "IN_FLIGHT_STATES = LEASE_HOLDING_STATES \<union> {CANCELLING}"

definition ACTIVE_STATES :: "JobState set" where
  "ACTIVE_STATES = WAITING_STATES \<union> IN_FLIGHT_STATES"

definition CANCELLABLE_STATES :: "JobState set" where
  "CANCELLABLE_STATES = ACTIVE_STATES"

definition TRANSITIONS :: "(JobState \<times> JobState) set" where
  "TRANSITIONS = {
     (QUEUED, LEASED),
     (LEASED, ADMITTED),
     (LEASED, WAITING_RESOURCES),
     (LEASED, CANCELLING),
     (WAITING_RESOURCES, QUEUED),
     (ADMITTED, EXECUTING),
     (EXECUTING, VALIDATING),
     (VALIDATING, COMPLETED),
     (VALIDATING, RETRYING),
     (EXECUTING, RETRYING),
     (RETRYING, ADMITTED),
     (EXECUTING, CANCELLING),
     (VALIDATING, CANCELLING),
     (ADMITTED, CANCELLING),
     (QUEUED, CANCELLED),
     (WAITING_RESOURCES, CANCELLED),
     (CANCELLING, CANCELLED),
     (EXECUTING, FAILED),
     (VALIDATING, FAILED),
     (QUEUED, FAILED),
     (WAITING_RESOURCES, FAILED),
     (LEASED, QUEUED),
     (LEASED, FAILED),
     (EXECUTING, QUEUED),
     (ADMITTED, QUEUED),
     (ADMITTED, FAILED),
     (VALIDATING, QUEUED),
     (RETRYING, QUEUED),
     (RETRYING, FAILED),
     (RETRYING, CANCELLING)}"

lemmas state_set_defs = TERMINAL_STATES_def WAITING_STATES_def LEASE_HOLDING_STATES_def
  IN_FLIGHT_STATES_def ACTIVE_STATES_def CANCELLABLE_STATES_def

subsection \<open>Operations\<close>

datatype transition_error = IllegalTransition JobState JobState

definition is_legal :: "JobState \<Rightarrow> JobState \<Rightarrow> bool" where
  "is_legal current target \<longleftrightarrow> (current, target) \<in> TRANSITIONS"

definition check_transition :: "JobState \<Rightarrow> JobState \<Rightarrow> transition_error + unit" where
  "check_transition current target =
     (if \<not> is_legal current target then Inl (IllegalTransition current target) else Inr ())"

definition successors :: "JobState \<Rightarrow> JobState set" where
  "successors state = snd ` {edge \<in> TRANSITIONS. fst edge = state}"

definition recovery_target :: "JobState \<Rightarrow> bool \<Rightarrow> JobState option" where
  "recovery_target state idempotent =
     (if state \<in> LEASE_HOLDING_STATES then Some (if idempotent then QUEUED else FAILED)
      else if state = CANCELLING then Some CANCELLED
      else None)"

definition cancel_target :: "JobState \<Rightarrow> JobState option" where
  "cancel_target state =
     (if state \<in> WAITING_STATES then Some CANCELLED
      else if state \<in> LEASE_HOLDING_STATES then Some CANCELLING
      else None)"

definition event_type_for :: "JobState \<Rightarrow> string" where
  "event_type_for state = ''job.'' @ state_value state"

subsection \<open>Facts the services use\<close>

lemma state_value_inj [simp]: "state_value s = state_value t \<longleftrightarrow> s = t"
  by (cases s; cases t) simp_all

lemma event_type_for_inj [simp]: "event_type_for s = event_type_for t \<longleftrightarrow> s = t"
  by (simp add: event_type_for_def)

lemma active_iff_not_terminal: "s \<in> ACTIVE_STATES \<longleftrightarrow> s \<notin> TERMINAL_STATES"
  by (cases s) (simp_all add: state_set_defs)

lemma in_flight_iff: "s \<in> IN_FLIGHT_STATES \<longleftrightarrow> s \<notin> WAITING_STATES \<and> s \<notin> TERMINAL_STATES"
  by (cases s) (simp_all add: state_set_defs)

lemma recovery_target_defined: "recovery_target s i \<noteq> None \<longleftrightarrow> s \<in> IN_FLIGHT_STATES"
  by (cases s; cases i) (simp_all add: recovery_target_def state_set_defs)

lemma recovery_target_legal: "recovery_target s i = Some t \<Longrightarrow> is_legal s t"
  by (cases s; cases i) (auto simp: recovery_target_def is_legal_def TRANSITIONS_def state_set_defs)

lemma cancel_target_legal: "cancel_target s = Some t \<Longrightarrow> is_legal s t"
  by (cases s) (auto simp: cancel_target_def is_legal_def TRANSITIONS_def state_set_defs)

lemma terminal_no_move: "s \<in> TERMINAL_STATES \<Longrightarrow> \<not> is_legal s t"
  by (cases s) (auto simp: is_legal_def TRANSITIONS_def state_set_defs)

lemma to_in_flight_source:
  "is_legal s t \<Longrightarrow> t \<in> IN_FLIGHT_STATES \<Longrightarrow> s \<in> IN_FLIGHT_STATES \<or> (s = QUEUED \<and> t = LEASED)"
  by (cases s; cases t) (auto simp: is_legal_def TRANSITIONS_def state_set_defs)

subsection \<open>Histories\<close>

inductive run :: "JobState list \<Rightarrow> bool" where
  created: "run [QUEUED]"
| moved: "run (s # h) \<Longrightarrow> check_transition s t = Inr () \<Longrightarrow> run (t # s # h)"

inductive_cases run_Cons: "run (t # h)"

lemma check_transition_iff: "check_transition s t = Inr () \<longleftrightarrow> is_legal s t"
  by (simp add: check_transition_def)

text \<open>What a history that ends in a state must contain besides that state.\<close>

fun visited_before :: "JobState \<Rightarrow> JobState set" where
  "visited_before QUEUED = {}"
| "visited_before LEASED = {QUEUED}"
| "visited_before WAITING_RESOURCES = {QUEUED, LEASED}"
| "visited_before ADMITTED = {QUEUED, LEASED}"
| "visited_before EXECUTING = {QUEUED, LEASED, ADMITTED}"
| "visited_before VALIDATING = {QUEUED, LEASED, ADMITTED, EXECUTING}"
| "visited_before RETRYING = {QUEUED, LEASED, ADMITTED, EXECUTING}"
| "visited_before CANCELLING = {QUEUED, LEASED}"
| "visited_before COMPLETED = {QUEUED, LEASED, ADMITTED, EXECUTING, VALIDATING}"
| "visited_before FAILED = {QUEUED}"
| "visited_before CANCELLED = {QUEUED}"

lemma visited_before_step:
  "is_legal s t \<Longrightarrow> visited_before t \<subseteq> insert s (visited_before s) \<union> {QUEUED}"
  by (cases s; cases t) (auto simp: is_legal_def TRANSITIONS_def)

lemma run_visited: "run h \<Longrightarrow> visited_before (hd h) \<subseteq> set (tl h) \<and> QUEUED \<in> set h"
proof (induction rule: run.induct)
  case (moved s h t)
  then show ?case
    using visited_before_step[of s t] by (auto simp: check_transition_iff)
qed simp

lemma run_tail_active: "run (t # h) \<Longrightarrow> s \<in> set h \<Longrightarrow> s \<in> ACTIVE_STATES"
proof (induction h arbitrary: t)
  case (Cons u h)
  from Cons.prems(1) have "run (u # h)" and "check_transition u t = Inr ()"
    by (auto elim: run_Cons)
  then show ?case
    using Cons terminal_no_move[of u t] by (auto simp: check_transition_iff active_iff_not_terminal)
qed simp

text \<open>
  A job that reaches \<open>COMPLETED\<close> has been leased, admitted, executed and validated, and
  every state before the last one of any history is active: a terminal state is never left.
\<close>

theorem completed_was_validated:
  assumes "run (t # h)"
  shows "set h \<subseteq> ACTIVE_STATES \<and>
    (t = COMPLETED \<longrightarrow> {LEASED, ADMITTED, EXECUTING, VALIDATING} \<subseteq> set h)"
  using run_tail_active[OF assms] run_visited[OF assms] by auto

lemma run_example: "run [COMPLETED, VALIDATING, EXECUTING, ADMITTED, LEASED, QUEUED]"
  by (intro run.intros) (simp_all add: check_transition_iff is_legal_def TRANSITIONS_def)

theorem completed_was_validated_witness:
  "{LEASED, ADMITTED, EXECUTING, VALIDATING} \<subseteq> set [VALIDATING, EXECUTING, ADMITTED, LEASED, QUEUED]"
  using completed_was_validated[OF run_example] by simp

text \<open>
  Recovery and cancellation only ever ask for edges of the table. Recovery is defined exactly
  for the states in which a worker may be touching the job, cancellation exactly for the active
  states other than \<open>CANCELLING\<close> (where it is idempotent), and both lead to states without a
  lease or, for a cancellation under a lease, to \<open>CANCELLING\<close>, whose only successor is
  \<open>CANCELLED\<close>.
\<close>

theorem recovery_and_cancel_targets:
  "(\<forall>t. recovery_target s i = Some t \<longrightarrow> is_legal s t \<and> t \<notin> IN_FLIGHT_STATES) \<and>
   (\<forall>t. cancel_target s = Some t \<longrightarrow> is_legal s t \<and> (t = CANCELLED \<or> t = CANCELLING)) \<and>
   (recovery_target s i \<noteq> None \<longleftrightarrow> s \<in> IN_FLIGHT_STATES) \<and>
   (cancel_target s \<noteq> None \<longleftrightarrow> s \<in> CANCELLABLE_STATES - {CANCELLING}) \<and>
   successors CANCELLING = {CANCELLED}"
proof -
  have "successors CANCELLING = {CANCELLED}"
    by (force simp: successors_def TRANSITIONS_def image_iff)
  moreover have "recovery_target s i = Some t \<Longrightarrow> t \<notin> IN_FLIGHT_STATES" for t
    by (auto simp: recovery_target_def state_set_defs split: if_splits)
  moreover have "cancel_target s = Some t \<Longrightarrow> t = CANCELLED \<or> t = CANCELLING" for t
    by (auto simp: cancel_target_def split: if_splits)
  moreover have "cancel_target s \<noteq> None \<longleftrightarrow> s \<in> CANCELLABLE_STATES - {CANCELLING}"
    by (cases s) (simp_all add: cancel_target_def state_set_defs)
  ultimately show ?thesis
    using recovery_target_legal cancel_target_legal recovery_target_defined by blast
qed

theorem recovery_and_cancel_targets_witness:
  "recovery_target EXECUTING True = Some QUEUED \<and> is_legal EXECUTING QUEUED \<and>
   cancel_target RETRYING = Some CANCELLING \<and> is_legal RETRYING CANCELLING"
proof -
  have r: "recovery_target EXECUTING True = Some QUEUED" and c: "cancel_target RETRYING = Some CANCELLING"
    by (simp_all add: recovery_target_def cancel_target_def state_set_defs)
  show ?thesis
    using r c recovery_and_cancel_targets[of EXECUTING True] recovery_and_cancel_targets[of RETRYING True]
    by blast
qed

end
