(* ===== verification/Job_Events.thy ===== *)
theory Job_Events
  imports Queue_State Values
begin

section \<open>The event table and the live stream of a job\<close>

text \<open>
  Models \<^verbatim>\<open>src/src/loadcoach/services/job_events.py\<close>: the rows of \<open>job_events\<close>, the sink's in-memory counter and
  live buffer per job, and the frames handed to the broker. A write stages its events; \<open>commit\<close>
  publishes them and forgets a finished job. \<open>replay\<close> is what a reconnecting client reads. The
  properties: persisted sequence numbers of a job strictly increase in the order of the writes,
  whatever live frames, restarts and finished jobs come between; and a replay is exactly the
  first frames of the merged stream after the client's position. Row identifiers (drawn by the
  suite's \<open>new_id\<close>, read by nothing here) are left out. \<open>EventStore\<close> is extended by the job
  table in \<open>Job_Queue\<close>.
\<close>

definition LIVE_BUFFER_SIZE :: nat where "LIVE_BUFFER_SIZE = 4096"
definition THINKING_EVENT :: string where "THINKING_EVENT = ''thinking''"
definition TERMINAL_JOB_EVENTS :: "string set" where
  "TERMINAL_JOB_EVENTS = {''job.completed'', ''job.failed'', ''job.cancelled''}"
definition TERMINAL_STREAM_EVENTS :: "string set" where
  "TERMINAL_STREAM_EVENTS = TERMINAL_JOB_EVENTS \<union> {''result'', ''error''}"

type_synonym json_obj = "(string \<times> json) list"

record JobEvent =
  je_job_id :: string
  je_sequence :: int
  je_timestamp :: instant
  je_type :: string
  je_message :: "string option"
  je_data :: json_obj

text \<open>The envelope's payload: an event object for a \<open>job.*\<close> event, the bare document otherwise.\<close>

datatype payload = EventObject string instant "string option" json_obj | Document json_obj

record Event =
  ev_sequence :: int
  ev_type :: string
  ev_payload :: payload

definition is_job_event :: "string \<Rightarrow> bool" where
  "is_job_event event_type \<longleftrightarrow> take 4 event_type = ''job.''"

definition event_payload :: "string \<Rightarrow> instant \<Rightarrow> string \<Rightarrow> string option \<Rightarrow> json_obj \<Rightarrow> payload" where
  "event_payload job timestamp event_type message data =
     (if is_job_event event_type then EventObject job timestamp message data else Document data)"

definition event_of_row :: "JobEvent \<Rightarrow> Event" where
  "event_of_row row = \<lparr>ev_sequence = je_sequence row, ev_type = je_type row,
     ev_payload = event_payload (je_job_id row) (je_timestamp row) (je_type row) (je_message row) (je_data row)\<rparr>"

record EventStore =
  job_events :: "JobEvent list"
  high :: "(string, int) dict"
  live :: "(string, Event list) dict"
  staged :: "(string \<times> Event) list"
  published :: "(string \<times> Event) list"

subsection \<open>Operations\<close>

definition stored_max :: "string \<Rightarrow> JobEvent list \<Rightarrow> int" where
  "stored_max job rows = fold max (map je_sequence (filter (\<lambda>r. je_job_id r = job) rows)) 0"

definition next_sequence :: "string \<Rightarrow> 'a EventStore_scheme \<Rightarrow> int \<times> 'a EventStore_scheme" where
  "next_sequence job w =
     (let sequence = max (stored_max job (job_events w)) (dict_get (high w) job 0) + 1
      in (sequence, w\<lparr>high := AList.update job sequence (high w)\<rparr>))"

definition append_event :: "string \<Rightarrow> string \<Rightarrow> instant \<Rightarrow> string option \<Rightarrow> json_obj \<Rightarrow>
    'a EventStore_scheme \<Rightarrow> 'a EventStore_scheme" where
  "append_event job event_type now message data w =
     (case next_sequence job w of
        (sequence, w') \<Rightarrow>
          (let row = \<lparr>je_job_id = job, je_sequence = sequence, je_timestamp = now, je_type = event_type,
                      je_message = message, je_data = data\<rparr>
           in w'\<lparr>job_events := job_events w' @ [row], staged := staged w' @ [(job, event_of_row row)]\<rparr>))"

definition forget :: "string \<Rightarrow> 'a EventStore_scheme \<Rightarrow> 'a EventStore_scheme" where
  "forget job w = w\<lparr>high := AList.delete job (high w), live := AList.delete job (live w)\<rparr>"

text \<open>The end of \<open>JobEventSink.write\<close>: the transaction has committed.\<close>

definition publish_staged :: "string \<times> Event \<Rightarrow> 'a EventStore_scheme \<Rightarrow> 'a EventStore_scheme" where
  "publish_staged item w =
     (let w' = w\<lparr>published := published w @ [item]\<rparr>
      in if ev_type (snd item) \<in> TERMINAL_STREAM_EVENTS then forget (fst item) w' else w')"

definition commit :: "'a EventStore_scheme \<Rightarrow> 'a EventStore_scheme" where
  "commit w = (fold publish_staged (staged w) w)\<lparr>staged := []\<rparr>"

definition push_live :: "Event \<Rightarrow> Event list \<Rightarrow> Event list" where
  "push_live e q = drop (Suc (length q) - LIVE_BUFFER_SIZE) (q @ [e])"

definition publish_live :: "string \<Rightarrow> string \<Rightarrow> json_obj \<Rightarrow> 'a EventStore_scheme \<Rightarrow> 'a EventStore_scheme" where
  "publish_live job event_type data w =
     (let sequence = dict_get (high w) job 0 + 1;
          event = \<lparr>ev_sequence = sequence, ev_type = event_type, ev_payload = Document data\<rparr>
      in w\<lparr>high := AList.update job sequence (high w),
           live := AList.update job (push_live event (dict_get (live w) job [])) (live w),
           published := published w @ [(job, event)]\<rparr>)"

text \<open>A new process starts with an empty sink over the stored rows.\<close>

definition restart_sink :: "'a EventStore_scheme \<Rightarrow> 'a EventStore_scheme" where
  "restart_sink w = w\<lparr>high := [], live := [], staged := []\<rparr>"

definition replay :: "string \<Rightarrow> int \<Rightarrow> nat \<Rightarrow> 'a EventStore_scheme \<Rightarrow> Event list" where
  "replay job after_sequence limit w =
     (let persisted = map event_of_row (take limit (sort_key je_sequence
            (filter (\<lambda>r. je_job_id r = job \<and> je_sequence r > after_sequence) (job_events w))));
          buffered = filter (\<lambda>e. ev_sequence e > after_sequence) (dict_get (live w) job [])
      in if buffered = [] then persisted
         else (let merged = fold (\<lambda>e. AList.update (ev_sequence e) e) (buffered @ persisted) []
               in take limit (map (\<lambda>s. the (map_of merged s)) (sort (map fst merged)))))"

subsection \<open>Sequence numbers\<close>

lemma fold_max_start: "(a :: int) \<le> fold max xs a"
  by (induction xs arbitrary: a) (auto intro: order_trans[OF max.cobounded2])

lemma fold_max_ge: "x \<in> set xs \<Longrightarrow> (x :: int) \<le> fold max xs a"
  by (induction xs arbitrary: a) (auto intro: order_trans[OF max.cobounded1 fold_max_start])

lemma stored_max_ge: "r \<in> set rows \<Longrightarrow> je_job_id r = job \<Longrightarrow> je_sequence r \<le> stored_max job rows"
  unfolding stored_max_def by (rule fold_max_ge) auto

lemma job_events_append_event:
  "\<exists>s. job_events (append_event job t now m d w) = job_events w @
     [\<lparr>je_job_id = job, je_sequence = s, je_timestamp = now, je_type = t, je_message = m, je_data = d\<rparr>] \<and>
   (\<forall>r \<in> set (job_events w). je_job_id r = job \<longrightarrow> je_sequence r < s) \<and> dict_get (high w) job 0 < s \<and> 0 < s"
proof -
  have "\<forall>r \<in> set (job_events w). je_job_id r = job \<longrightarrow>
      je_sequence r < max (stored_max job (job_events w)) (dict_get (high w) job 0) + 1"
    using stored_max_ge[of _ "job_events w" job] by fastforce
  moreover have "0 \<le> stored_max job (job_events w)" unfolding stored_max_def by (rule fold_max_start)
  ultimately show ?thesis by (simp add: append_event_def next_sequence_def Let_def)
qed

text \<open>The events of each job carry strictly increasing positive sequence numbers, in table order.\<close>

definition ordered_events :: "JobEvent list \<Rightarrow> bool" where
  "ordered_events rows \<longleftrightarrow>
     sorted_wrt (\<lambda>r r'. je_job_id r = je_job_id r' \<longrightarrow> je_sequence r < je_sequence r') rows \<and>
     (\<forall>r \<in> set rows. 0 < je_sequence r)"

lemma ordered_append_event:
  assumes "ordered_events (job_events w)"
  shows "ordered_events (job_events (append_event job t now m d w))"
  using job_events_append_event[of job t now m d w] assms
  by (auto simp: ordered_events_def sorted_wrt_append)

lemma forget_simps [simp]:
  "job_events (forget job w) = job_events w" "published (forget job w) = published w"
  "staged (forget job w) = staged w" "EventStore.more (forget job w) = EventStore.more w"
  by (simp_all add: forget_def)

lemma publish_staged_simps [simp]:
  "job_events (publish_staged item w) = job_events w"
  "published (publish_staged item w) = published w @ [item]"
  "EventStore.more (publish_staged item w) = EventStore.more w"
  by (simp_all add: publish_staged_def Let_def)

lemma fold_publish_staged [simp]:
  "job_events (fold publish_staged items w) = job_events w"
  "published (fold publish_staged items w) = published w @ items"
  "EventStore.more (fold publish_staged items w) = EventStore.more w"
  by (induction items arbitrary: w) simp_all

lemma commit_simps [simp]:
  "job_events (commit w) = job_events w" "published (commit w) = published w @ staged w" "staged (commit w) = []"
  "EventStore.more (commit w) = EventStore.more w"
  by (simp_all add: commit_def)

lemma publish_live_simps [simp]:
  "job_events (publish_live job t d w) = job_events w" "EventStore.more (publish_live job t d w) = EventStore.more w"
  by (simp_all add: publish_live_def Let_def)

lemma append_event_more [simp]: "EventStore.more (append_event job t now m d w) = EventStore.more w"
  by (simp add: append_event_def next_sequence_def Let_def)

text \<open>What happens to a store: events are staged, committed, streamed, and processes restart.\<close>

inductive sink_step :: "EventStore \<Rightarrow> EventStore \<Rightarrow> bool" where
  step_append: "sink_step w (append_event job t now m d w)"
| step_commit: "sink_step w (commit w)"
| step_live: "sink_step w (publish_live job t d w)"
| step_restart: "sink_step w (restart_sink w)"

lemma ordered_sink_step: "sink_step w w' \<Longrightarrow> ordered_events (job_events w) \<Longrightarrow> ordered_events (job_events w')"
  by (induction rule: sink_step.induct) (simp_all add: ordered_append_event restart_sink_def)

lemma ordered_sink_steps:
  "sink_step\<^sup>*\<^sup>* w w' \<Longrightarrow> ordered_events (job_events w) \<Longrightarrow> ordered_events (job_events w')"
  by (induction rule: rtranclp_induct) (simp_all add: ordered_sink_step)

text \<open>
  Whatever is appended, committed, streamed live or restarted in between, the stored events
  of a job carry strictly increasing positive sequence numbers in the order they were written,
  and the next one is above every stored one and above every number this process handed out: a
  client that resumes after the last sequence it saw misses none and reads none twice.
\<close>

theorem event_sequences_increase:
  assumes "ordered_events (job_events w)" "sink_step\<^sup>*\<^sup>* w w'"
  shows "ordered_events (job_events w') \<and>
    (\<forall>r \<in> set (job_events w'). je_job_id r = job \<longrightarrow> je_sequence r < fst (next_sequence job w')) \<and>
    dict_get (high w') job 0 < fst (next_sequence job w')"
  using ordered_sink_steps[OF assms(2,1)] stored_max_ge[of _ "job_events w'" job]
  by (fastforce simp: next_sequence_def Let_def)

definition empty_store :: EventStore where
  "empty_store = \<lparr>job_events = [], high = [], live = [], staged = [], published = []\<rparr>"

theorem event_sequences_increase_witness:
  "ordered_events (job_events (append_event ''j'' ''job.failed'' 7 None []
     (publish_live ''j'' ''token'' [] (append_event ''j'' ''job.leased'' 5 None [] empty_store))))"
proof -
  have "sink_step\<^sup>*\<^sup>* empty_store (append_event ''j'' ''job.failed'' 7 None []
     (publish_live ''j'' ''token'' [] (append_event ''j'' ''job.leased'' 5 None [] empty_store)))"
    by (rule rtranclp.rtrancl_into_rtrancl[OF rtranclp.rtrancl_into_rtrancl[OF r_into_rtranclp]])
      (rule sink_step.intros)+
  then show ?thesis using event_sequences_increase[of empty_store] by (simp add: ordered_events_def empty_store_def)
qed

subsection \<open>Replay\<close>

text \<open>The merged stream of a job: at each position the stored event, else the buffered frame.\<close>

definition stream_at :: "string \<Rightarrow> 'a EventStore_scheme \<Rightarrow> int \<Rightarrow> Event option" where
  "stream_at job w s =
     (case find (\<lambda>r. je_job_id r = job \<and> je_sequence r = s) (job_events w) of
        Some r \<Rightarrow> Some (event_of_row r)
      | None \<Rightarrow> find (\<lambda>e. ev_sequence e = s) (rev (dict_get (live w) job [])))"

definition stream_positions :: "string \<Rightarrow> int \<Rightarrow> 'a EventStore_scheme \<Rightarrow> int set" where
  "stream_positions job a w =
     {s. a < s \<and> (s \<in> je_sequence ` {r \<in> set (job_events w). je_job_id r = job} \<or>
                  s \<in> ev_sequence ` set (dict_get (live w) job []))}"

lemma finite_stream_positions: "finite (stream_positions job a w)"
  by (rule finite_subset[of _ "je_sequence ` set (job_events w) \<union> ev_sequence ` set (dict_get (live w) job [])"])
    (auto simp: stream_positions_def)

lemma sorted_list_of_set_split:
  assumes "finite (U :: int set)"
  shows "sorted_list_of_set U = sorted_list_of_set {u \<in> U. u \<le> t} @ sorted_list_of_set {u \<in> U. t < u}"
  by (rule sorted_distinct_set_unique) (use assms in \<open>auto simp: sorted_append\<close>)

lemma take_sorted_threshold:
  assumes "finite (U :: int set)" "finite V" "{u \<in> U. u \<le> t} = {u \<in> V. u \<le> t}" "n \<le> card {u \<in> U. u \<le> t}"
  shows "take n (sorted_list_of_set U) = take n (sorted_list_of_set V)"
    and "s \<in> set (take n (sorted_list_of_set U)) \<Longrightarrow> s \<le> t"
proof -
  have U: "take n (sorted_list_of_set U) = take n (sorted_list_of_set {u \<in> U. u \<le> t})"
    using assms(4) by (subst sorted_list_of_set_split[OF assms(1), of t]) simp
  have V: "take n (sorted_list_of_set V) = take n (sorted_list_of_set {u \<in> V. u \<le> t})"
    using assms(3,4) by (subst sorted_list_of_set_split[OF assms(2), of t]) simp
  show "take n (sorted_list_of_set U) = take n (sorted_list_of_set V)" unfolding U V assms(3) ..
  show "s \<le> t" if "s \<in> set (take n (sorted_list_of_set U))"
    using in_set_takeD[OF that[unfolded U]] assms(1) by simp
qed

text \<open>The rows a replay reads, and where they stand in the stream.\<close>

definition rows_after :: "string \<Rightarrow> int \<Rightarrow> 'a EventStore_scheme \<Rightarrow> JobEvent list" where
  "rows_after job a w = filter (\<lambda>r. je_job_id r = job \<and> a < je_sequence r) (job_events w)"

lemma sorted_rows_after:
  assumes "ordered_events (job_events w)" shows "sorted_wrt (<) (map je_sequence (rows_after job a w))"
proof -
  have "sorted_wrt (\<lambda>r r'. je_job_id r = je_job_id r' \<longrightarrow> je_sequence r < je_sequence r') (rows_after job a w)"
    using assms unfolding rows_after_def ordered_events_def by (blast intro: sorted_wrt_filter)
  then show ?thesis unfolding sorted_wrt_map
    by (rule sorted_wrt_mono_rel[rotated]) (auto simp: rows_after_def)
qed

lemma find_unique: "distinct (map k xs) \<Longrightarrow> x \<in> set xs \<Longrightarrow> find (\<lambda>y. k y = k x) xs = Some x"
  by (induction xs) auto

lemma find_append: "find P (xs @ ys) = (case find P xs of None \<Rightarrow> find P ys | Some x \<Rightarrow> Some x)"
  by (induction xs) auto

lemma find_mapped: "find P (map f xs) = map_option f (find (\<lambda>x. P (f x)) xs)"
  by (induction xs) auto

lemma find_filter_neutral: "(\<And>x. P x \<Longrightarrow> Q x) \<Longrightarrow> find P (filter Q xs) = find P xs"
  by (induction xs) auto

lemma stream_at_row:
  assumes "ordered_events (job_events w)" "r \<in> set (rows_after job a w)"
  shows "stream_at job w (je_sequence r) = Some (event_of_row r)"
proof -
  have "find (\<lambda>y. je_sequence y = je_sequence r) (rows_after job a w) = Some r"
    using sorted_rows_after[OF assms(1), of job a] assms(2)
    by (intro find_unique) (auto simp: strict_sorted_iff)
  then have "find (\<lambda>y. je_job_id y = job \<and> je_sequence y = je_sequence r) (rows_after job a w) = Some r"
    using assms(2) by (auto simp: rows_after_def find_Some_iff)
  then have "find (\<lambda>y. je_job_id y = job \<and> je_sequence y = je_sequence r) (job_events w) = Some r"
    using assms(2) unfolding rows_after_def by (subst (asm) find_filter_neutral) auto
  then show ?thesis by (simp add: stream_at_def)
qed

lemma stream_at_buffered:
  assumes "a < s" "s \<notin> je_sequence ` set (rows_after job a w)"
  shows "stream_at job w s = find (\<lambda>e. ev_sequence e = s) (rev (filter (\<lambda>e. a < ev_sequence e) (dict_get (live w) job [])))"
proof -
  have "find (\<lambda>r. je_job_id r = job \<and> je_sequence r = s) (job_events w) = None"
    using assms by (auto simp: find_None_iff rows_after_def)
  moreover have "find (\<lambda>e. ev_sequence e = s) (rev (filter (\<lambda>e. a < ev_sequence e) xs)) =
      find (\<lambda>e. ev_sequence e = s) (rev xs)" for xs :: "Event list"
    unfolding rev_filter by (rule find_filter_neutral) (use assms(1) in simp)
  ultimately show ?thesis by (simp add: stream_at_def)
qed

lemma take_strict_threshold:
  assumes "sorted_wrt (<) (ys :: int list)" "0 < n" "n < length ys"
  shows "{b \<in> set ys. b \<le> ys ! (n - 1)} = set (take n ys)"
proof -
  obtain m where m: "n = Suc m" using assms(2) by (cases n) auto
  have t: "take n ys = take m ys @ [ys ! m]" using assms(3) m by (simp add: take_Suc_conv_app_nth)
  have split: "sorted_wrt (<) (take n ys @ drop n ys)" using assms(1) by simp
  have below: "x \<le> ys ! m" if "x \<in> set (take n ys)" for x
    using split that unfolding t by (auto simp: sorted_wrt_append)
  have above: "ys ! m < x" if "x \<in> set (drop n ys)" for x
    using split that t by (auto simp: sorted_wrt_append)
  have "set ys = set (take n ys) \<union> set (drop n ys)" by (metis append_take_drop_id set_append)
  then show ?thesis using below above m by (auto simp: not_le[symmetric])
qed

lemma take_rows_threshold:
  assumes "sorted_wrt (<) (map je_sequence rows)" "0 < n" "n < length rows"
  shows "{b \<in> je_sequence ` set rows. b \<le> je_sequence (rows ! (n - 1))} = je_sequence ` set (take n rows)"
    and "card (je_sequence ` set (take n rows)) = n"
proof -
  show "{b \<in> je_sequence ` set rows. b \<le> je_sequence (rows ! (n - 1))} = je_sequence ` set (take n rows)"
    using take_strict_threshold[OF assms(1,2)] assms(3) by (simp add: take_map)
  have "distinct (take n (map je_sequence rows))" using assms(1) by (simp add: strict_sorted_iff)
  then show "card (je_sequence ` set (take n rows)) = n"
    using distinct_card[of "take n (map je_sequence rows)"] assms(3) by (simp add: take_map)
qed

definition buffered_after :: "string \<Rightarrow> int \<Rightarrow> 'a EventStore_scheme \<Rightarrow> Event list" where
  "buffered_after job a w = filter (\<lambda>e. a < ev_sequence e) (dict_get (live w) job [])"

definition merged_frames :: "string \<Rightarrow> int \<Rightarrow> nat \<Rightarrow> 'a EventStore_scheme \<Rightarrow> (int, Event) dict" where
  "merged_frames job a n w = fold (\<lambda>e. AList.update (ev_sequence e) e)
     (buffered_after job a w @ map event_of_row (take n (rows_after job a w))) []"

lemma replay_unfold:
  assumes "ordered_events (job_events w)"
  shows "replay job a n w =
    (if buffered_after job a w = [] then map event_of_row (take n (rows_after job a w))
     else take n (map (\<lambda>s. the (map_of (merged_frames job a n w) s)) (sort (map fst (merged_frames job a n w)))))"
proof -
  have "sort_key je_sequence (rows_after job a w) = rows_after job a w"
    using sorted_rows_after[OF assms, of job a] by (intro sort_key_id_if_sorted) (simp add: strict_sorted_iff)
  then show ?thesis
    by (simp add: replay_def Let_def rows_after_def buffered_after_def merged_frames_def)
qed

lemma positions_eq:
  "stream_positions job a w = ev_sequence ` set (buffered_after job a w) \<union> je_sequence ` set (rows_after job a w)"
  by (auto simp: stream_positions_def buffered_after_def rows_after_def)

lemma ev_sequence_event_of_row [simp]: "ev_sequence (event_of_row r) = je_sequence r"
  by (simp add: event_of_row_def)

lemma merged_keys:
  "sort (map fst (merged_frames job a n w)) =
     sorted_list_of_set (ev_sequence ` set (buffered_after job a w) \<union> je_sequence ` set (take n (rows_after job a w)))"
proof -
  have "distinct (map fst (merged_frames job a n w))"
    unfolding merged_frames_def by (rule distinct_keys_fold_update) simp
  moreover have "set (map fst (merged_frames job a n w)) =
      ev_sequence ` set (buffered_after job a w) \<union> je_sequence ` set (take n (rows_after job a w))"
    unfolding merged_frames_def dom_map_of_conv_image_fst[symmetric] set_map
    by (auto simp: map_of_fold_put find_None_iff dom_def image_iff split: option.splits)
  ultimately show ?thesis
    by (metis sorted_list_of_set_sort_remdups distinct_remdups_id)
qed

lemma merged_lookup:
  assumes "ordered_events (job_events w)" "a < s"
    and "s \<in> je_sequence ` set (rows_after job a w) \<Longrightarrow> s \<in> je_sequence ` set (take n (rows_after job a w))"
  shows "map_of (merged_frames job a n w) s = stream_at job w s"
proof (cases "s \<in> je_sequence ` set (rows_after job a w)")
  case True
  then obtain r where r: "r \<in> set (take n (rows_after job a w))" "s = je_sequence r" using assms(3) by blast
  have "distinct (map je_sequence (rows_after job a w))"
    using sorted_rows_after[OF assms(1), of job a] by (simp add: strict_sorted_iff)
  then have "distinct (map je_sequence (rev (take n (rows_after job a w))))"
    unfolding rev_map[symmetric] take_map[symmetric] by simp
  then have "find (\<lambda>y. je_sequence y = s) (rev (take n (rows_after job a w))) = Some r"
    using r by (simp add: find_unique)
  then show ?thesis
    using r stream_at_row[OF assms(1), of r job a] in_set_takeD[OF r(1)]
    by (simp add: merged_frames_def map_of_fold_put rev_map find_append find_mapped)
next
  case False
  then have "s \<notin> je_sequence ` set (take n (rows_after job a w))" by (auto dest: in_set_takeD)
  then have "find (\<lambda>e. ev_sequence e = s) (rev (map event_of_row (take n (rows_after job a w)))) = None"
    by (auto simp: find_None_iff)
  then show ?thesis
    using stream_at_buffered[OF assms(2) False]
    by (simp add: merged_frames_def map_of_fold_put find_append buffered_after_def split: option.splits)
qed

text \<open>
  A replay is the merged stream, cut to the batch: for every position and every batch size
  it returns the first \<open>limit\<close> frames after the client's position, in ascending order, stored
  events and still-buffered live frames interleaved by sequence, each position once, the stored
  event where both exist. Cutting the query at \<open>limit\<close> rows before merging loses nothing.
\<close>

theorem replay_is_stream:
  assumes "ordered_events (job_events w)"
  shows "replay job a n w =
    take n (map (\<lambda>s. the (stream_at job w s)) (sorted_list_of_set (stream_positions job a w)))"
proof -
  let ?R = "rows_after job a w" and ?A = "ev_sequence ` set (buffered_after job a w)"
  let ?B = "je_sequence ` set ?R" and ?T = "je_sequence ` set (take n ?R)"
  note sorted = sorted_rows_after[OF assms, of job a]
  show ?thesis
  proof (cases "buffered_after job a w = []")
    case True
    have "sorted_list_of_set (stream_positions job a w) = map je_sequence ?R"
      using sorted True by (intro sorted_distinct_set_unique) (auto simp: positions_eq strict_sorted_iff)
    then show ?thesis
      using stream_at_row[OF assms, of _ job a] in_set_takeD[of _ n ?R]
      by (simp add: replay_unfold[OF assms] True take_map)
  next
    case False
    have cut: "take n (sorted_list_of_set (?A \<union> ?T)) = take n (sorted_list_of_set (?A \<union> ?B)) \<and>
        (\<forall>s \<in> set (take n (sorted_list_of_set (?A \<union> ?B))). s \<in> ?B \<longrightarrow> s \<in> ?T)"
    proof (cases "0 < n \<and> n < length ?R")
      case True
      note th = take_rows_threshold[OF sorted, of n]
      define t where "t = je_sequence (?R ! (n - 1))"
      have T: "{b \<in> ?B. b \<le> t} = ?T" "card ?T = n" using th True by (simp_all add: t_def)
      have eq: "{u \<in> ?A \<union> ?B. u \<le> t} = {u \<in> ?A \<union> ?T. u \<le> t}" using T(1) by blast
      have "?T \<subseteq> {u \<in> ?A \<union> ?B. u \<le> t}" using T(1) by blast
      then have "n \<le> card {u \<in> ?A \<union> ?B. u \<le> t}" using T(2) card_mono[of "{u \<in> ?A \<union> ?B. u \<le> t}" ?T] by simp
      from take_sorted_threshold[OF _ _ eq this] show ?thesis using T(1) by auto
    qed auto
    have "map (\<lambda>s. the (map_of (merged_frames job a n w) s)) (take n (sorted_list_of_set (?A \<union> ?B))) =
        map (\<lambda>s. the (stream_at job w s)) (take n (sorted_list_of_set (?A \<union> ?B)))"
    proof (rule map_cong[OF refl])
      fix s assume s: "s \<in> set (take n (sorted_list_of_set (?A \<union> ?B)))"
      then have "s \<in> ?A \<union> ?B" using in_set_takeD[OF s] by simp
      then have "a < s" by (auto simp: buffered_after_def rows_after_def)
      then show "the (map_of (merged_frames job a n w) s) = the (stream_at job w s)"
        using merged_lookup[OF assms, of a s job n] cut s by simp
    qed
    then show ?thesis using False cut by (simp add: replay_unfold[OF assms] merged_keys take_map positions_eq)
  qed
qed

theorem replay_is_stream_witness:
  "map ev_sequence (replay ''j'' 0 1 (publish_live ''j'' ''token'' []
     (append_event ''j'' ''job.leased'' 5 None [] empty_store))) = [1]"
proof -
  define v where "v = append_event ''j'' ''job.leased'' 5 None [] empty_store"
  define w where "w = publish_live ''j'' ''token'' [] v"
  have v: "job_events v = [\<lparr>je_job_id = ''j'', je_sequence = 1, je_timestamp = 5, je_type = ''job.leased'',
       je_message = None, je_data = []\<rparr>]" "high v = [(''j'', 1)]" "live v = []"
    by (simp_all add: v_def append_event_def next_sequence_def empty_store_def Let_def dict_get_def stored_max_def)
  have ord: "ordered_events (job_events w)"
    unfolding w_def publish_live_simps v_def by (rule ordered_append_event) (simp add: ordered_events_def empty_store_def)
  have w: "job_events w = job_events v"
    "dict_get (live w) ''j'' [] = [\<lparr>ev_sequence = 2, ev_type = ''token'', ev_payload = Document []\<rparr>]"
    by (simp_all add: w_def publish_live_def Let_def v dict_get_def push_live_def LIVE_BUFFER_SIZE_def)
  have "stream_positions ''j'' 0 w = {2} \<union> {1}"
    by (simp add: positions_eq rows_after_def buffered_after_def w v)
  then have "stream_positions ''j'' 0 w = {1, 2}" by auto
  moreover have "sorted_list_of_set {1, 2 :: int} = [1, 2]" by code_simp
  moreover have "stream_at ''j'' w 1 = Some (event_of_row (hd (job_events w)))" by (simp add: stream_at_def w v)
  ultimately have "replay ''j'' 0 1 w = [event_of_row (hd (job_events w))]"
    using replay_is_stream[OF ord, of "''j''" 0 1] by simp
  then have "map ev_sequence (replay ''j'' 0 1 w) = [1]" by (simp add: w v)
  then show ?thesis unfolding w_def v_def .
qed

end
