(* ===== verification/Validation.thy ===== *)
theory Validation
  imports Values "HOL-Library.Sublist"
begin

section \<open>Validating a model's output\<close>

text \<open>
  Models \<^verbatim>\<open>src/src/loadcoach/domain/validation.py\<close>: the JSON Schema subset, the five kinds of check and the
  policy that runs them. \<open>json.loads\<close> and \<open>re.search\<close> are the parameters \<open>loads\<close>
  and \<open>search\<close>, which return the text of the error they raise as \<open>Inl\<close>; the messages
  of the checks are values with one constructor per format, and a path such as \<open>$.a[0]\<close> is
  the list of its steps. Exceptions the code does not catch (a schema keyword of the wrong type)
  are the error \<open>PyError\<close>. \<open>conforms\<close> is the meaning of a schema, without problems,
  paths or an order of checks; the property is that the validator decides it.
\<close>

type_synonym loader = "string \<Rightarrow> string + json"
type_synonym searcher = "string \<Rightarrow> string \<Rightarrow> string + bool"
type_synonym schema = "(string \<times> json) list"

datatype step = Field json | Index nat | Items

datatype problem =
    ExpectedType "json list" string
  | OneOf json
  | MustEqual json
  | ShorterThan json
  | LongerThan json
  | NoMatch json
  | Bound string json
  | FewerThan json
  | MoreThan json
  | RequiredMissing
  | NotAllowed

datatype validation_error =
    SchemaUnsupported "string list" "step list"
  | PyError
  | RegexError string

datatype check_detail =
    NoDetail
  | NotJson string string
  | FieldProblems "(step list \<times> problem) list"
  | NotAnObject string
  | MissingFields "string list"
  | InvalidPattern string
  | PatternUnmatched string
  | TooLong int int

record ValidationCheck =
  check_kind :: string
  check_passed :: bool
  check_detail :: check_detail

record ValidationOutcome =
  val_performed :: bool
  val_passed :: "bool option"
  val_checks :: "ValidationCheck list"
  val_parsed :: json

definition SUPPORTED_SCHEMA_KEYWORDS :: "string list" where
  "SUPPORTED_SCHEMA_KEYWORDS = [''$schema'', ''$comment'', ''title'', ''description'', ''type'', ''properties'',
     ''required'', ''additionalProperties'', ''items'', ''enum'', ''const'', ''minimum'', ''maximum'',
     ''exclusiveMinimum'', ''exclusiveMaximum'', ''minLength'', ''maxLength'', ''minItems'', ''maxItems'', ''pattern'']"

definition check_failures :: "ValidationOutcome \<Rightarrow> ValidationCheck list" where
  "check_failures v = filter (\<lambda>c. \<not> check_passed c) (val_checks v)"

definition passed_check :: "string \<Rightarrow> ValidationCheck" where
  "passed_check k = \<lparr>check_kind = k, check_passed = True, check_detail = NoDetail\<rparr>"

definition failed_check :: "string \<Rightarrow> check_detail \<Rightarrow> ValidationCheck" where
  "failed_check k d = \<lparr>check_kind = k, check_passed = False, check_detail = d\<rparr>"

subsection \<open>JSON and the schema\<close>

definition validate_json :: "loader \<Rightarrow> string \<Rightarrow> ValidationCheck \<times> json" where
  "validate_json loads txt =
     (case loads txt of
        Inl problem \<Rightarrow> (failed_check ''json'' (NotJson problem (take 200 txt)), JNull)
      | Inr v \<Rightarrow> (passed_check ''json'', v))"

text \<open>The first error of a loop whose bodies return nothing.\<close>

fun first_error :: "('e + unit) list \<Rightarrow> 'e + unit" where
  "first_error [] = Inr ()"
| "first_error (Inl e # rs) = Inl e"
| "first_error (Inr u # rs) = first_error rs"

lemma first_error_Inr: "first_error rs = Inr u \<longleftrightarrow> (\<forall>r \<in> set rs. \<exists>v. r = Inr v)"
  by (induction rs rule: first_error.induct) auto

lemma size_in_obj:
  "(k, JObj e) \<in> set d \<Longrightarrow> size_list (size_prod (\<lambda>_. 0) size) e < size_list (size_prod (\<lambda>_. 0) size) d"
  using size_json_mem(2)[of k "JObj e" d] by simp

lemma size_json_obj:
  "(k, JObj e) \<in> set d \<Longrightarrow> (n, s) \<in> set e \<Longrightarrow> size s < Suc (size_list (size_prod (\<lambda>_. 0) size) d)"
  using size_json_mem(2)[of n s e] size_json_mem(2)[of k "JObj e" d] by simp

lemma size_found:
  "Some x = map_of d k \<Longrightarrow> size x < Suc (size_list (size_prod (\<lambda>_. 0) size) d)"
  using size_json_mem(2)[of k x d] by (metis map_of_SomeD)

function reject_unsupported :: "json \<Rightarrow> step list \<Rightarrow> validation_error + unit" where
  "reject_unsupported s path =
     (case s of
        JObj d \<Rightarrow>
          (let unsupported = sort (remdups (filter (\<lambda>k. k \<notin> set SUPPORTED_SCHEMA_KEYWORDS) (map fst d))) in
           if unsupported \<noteq> [] then Inl (SchemaUnsupported unsupported path)
           else first_error (map (\<lambda>(k, v).
             (case v of
                JObj e \<Rightarrow>
                  if k = ''properties'' then first_error (map (\<lambda>(n, sub). reject_unsupported sub (path @ [Field (JStr n)])) e)
                  else if k \<in> {''items'', ''additionalProperties''} then reject_unsupported v (path @ [Items])
                  else Inr ()
              | _ \<Rightarrow> Inr ())) d))
      | _ \<Rightarrow> Inr ())"
  by pat_completeness auto

termination
  by (relation "measure (\<lambda>(s, path). size s)") (auto dest: size_in_obj size_json_obj)

declare reject_unsupported.simps [simp del]

fun type_name :: "json \<Rightarrow> string" where
  "type_name JNull = ''NoneType''"
| "type_name (JBool _) = ''bool''"
| "type_name (JInt _) = ''int''"
| "type_name (JFloat _) = ''float''"
| "type_name (JStr _) = ''str''"
| "type_name (JList _) = ''list''"
| "type_name (JObj _) = ''dict''"

fun type_matches :: "json \<Rightarrow> string \<Rightarrow> bool" where
  "type_matches v expected =
     (case v of
        JNull \<Rightarrow> expected = ''null''
      | JBool _ \<Rightarrow> expected = ''boolean''
      | JInt _ \<Rightarrow> expected \<in> {''integer'', ''number''}
      | JFloat _ \<Rightarrow> expected = ''number''
      | JStr _ \<Rightarrow> expected = ''string''
      | JList _ \<Rightarrow> expected = ''array''
      | JObj _ \<Rightarrow> expected = ''object'')"

text \<open>\<open>any(_type_matches(value, option) for option in options)\<close>: an option that is no string matches
  nothing, and one that cannot be hashed raises.\<close>

fun any_type :: "json \<Rightarrow> json list \<Rightarrow> validation_error + bool" where
  "any_type v [] = Inr False"
| "any_type v (JStr s # rest) = (if type_matches v s then Inr True else any_type v rest)"
| "any_type v (JList _ # rest) = Inl PyError"
| "any_type v (JObj _ # rest) = Inl PyError"
| "any_type v (_ # rest) = any_type v rest"

definition type_options :: "json \<Rightarrow> validation_error + json list" where
  "type_options expected =
     (case expected of
        JStr s \<Rightarrow> Inr [expected]
      | JList xs \<Rightarrow> Inr xs
      | JObj d \<Rightarrow> Inr (map (JStr \<circ> fst) d)
      | _ \<Rightarrow> Inl PyError)"

definition is_text :: "json \<Rightarrow> bool" where
  "is_text v \<longleftrightarrow> as_str v \<noteq> None"

text \<open>The problem of the wrong type, if any; \<open>'|'.join\<close> raises unless every option is a string.\<close>

definition check_type :: "json \<Rightarrow> schema \<Rightarrow> validation_error + problem option" where
  "check_type v s =
     (case json_get s ''type'' of
        JNull \<Rightarrow> Inr None
      | expected \<Rightarrow>
          bind_result (type_options expected) (\<lambda>options.
          bind_result (any_type v options) (\<lambda>ok.
            if ok then Inr None
            else if list_all is_text options then Inr (Some (ExpectedType options (type_name v)))
            else Inl PyError)))"

text \<open>\<open>value in container\<close>\<close>

fun contained :: "json \<Rightarrow> json \<Rightarrow> validation_error + bool" where
  "contained v (JList xs) = Inr (\<exists>x \<in> set xs. py_eq v x)"
| "contained v (JStr t) = (case v of JStr s \<Rightarrow> Inr (sublist s t) | _ \<Rightarrow> Inl PyError)"
| "contained v (JObj d) =
     (case v of JStr s \<Rightarrow> Inr (s \<in> fst ` set d) | JList _ \<Rightarrow> Inl PyError | JObj _ \<Rightarrow> Inl PyError | _ \<Rightarrow> Inr False)"
| "contained v _ = Inl PyError"

definition check_values :: "json \<Rightarrow> schema \<Rightarrow> validation_error + problem list" where
  "check_values v s =
     bind_result (case map_of s ''enum'' of None \<Rightarrow> Inr [] | Some e \<Rightarrow>
         bind_result (contained v e) (\<lambda>ok. Inr (if ok then [] else [OneOf e]))) (\<lambda>ps.
     Inr (ps @ (case map_of s ''const'' of None \<Rightarrow> [] | Some c \<Rightarrow> if py_eq v c then [] else [MustEqual c])))"

text \<open>A comparison with a keyword's value, which raises unless that is a number.\<close>

definition compare_with :: "schema \<Rightarrow> string \<Rightarrow> (rat \<Rightarrow> bool) \<Rightarrow> (json \<Rightarrow> problem) \<Rightarrow> validation_error + problem list" where
  "compare_with s keyword bad mk =
     (case map_of s keyword of
        None \<Rightarrow> Inr []
      | Some m \<Rightarrow> (case num_of m of None \<Rightarrow> Inl PyError | Some x \<Rightarrow> Inr (if bad x then [mk m] else [])))"

definition check_pattern :: "searcher \<Rightarrow> string \<Rightarrow> schema \<Rightarrow> validation_error + problem list" where
  "check_pattern search t s =
     (case map_of s ''pattern'' of
        None \<Rightarrow> Inr []
      | Some p \<Rightarrow>
          (case as_str p of
             None \<Rightarrow> Inl PyError
           | Some pat \<Rightarrow>
               (case search pat t of Inl e \<Rightarrow> Inl (RegexError e) | Inr found \<Rightarrow> Inr (if found then [] else [NoMatch p]))))"

definition check_string :: "searcher \<Rightarrow> string \<Rightarrow> schema \<Rightarrow> validation_error + problem list" where
  "check_string search t s =
     bind_result (compare_with s ''minLength'' (\<lambda>m. of_nat (length t) < m) ShorterThan) (\<lambda>p1.
     bind_result (compare_with s ''maxLength'' (\<lambda>m. of_nat (length t) > m) LongerThan) (\<lambda>p2.
     bind_result (check_pattern search t s) (\<lambda>p3. Inr (p1 @ p2 @ p3))))"

definition check_number :: "rat \<Rightarrow> schema \<Rightarrow> validation_error + problem list" where
  "check_number x s =
     bind_result (compare_with s ''minimum'' (\<lambda>m. \<not> x \<ge> m) (Bound ''below the minimum'')) (\<lambda>p1.
     bind_result (compare_with s ''maximum'' (\<lambda>m. \<not> x \<le> m) (Bound ''above the maximum'')) (\<lambda>p2.
     bind_result (compare_with s ''exclusiveMinimum'' (\<lambda>m. \<not> x > m) (Bound ''not above the exclusive minimum'')) (\<lambda>p3.
     bind_result (compare_with s ''exclusiveMaximum'' (\<lambda>m. \<not> x < m) (Bound ''not below the exclusive maximum'')) (\<lambda>p4.
       Inr (p1 @ p2 @ p3 @ p4)))))"

text \<open>The names \<open>schema.get("required", [])\<close> iterates over, and whether a dictionary lacks one.\<close>

definition required_names :: "schema \<Rightarrow> validation_error + json list" where
  "required_names s =
     (case map_of s ''required'' of
        None \<Rightarrow> Inr []
      | Some (JList xs) \<Rightarrow> Inr xs
      | Some (JStr t) \<Rightarrow> Inr (map (\<lambda>c. JStr [c]) t)
      | Some (JObj d) \<Rightarrow> Inr (map (JStr \<circ> fst) d)
      | Some _ \<Rightarrow> Inl PyError)"

definition lacks :: "(string \<times> json) list \<Rightarrow> json \<Rightarrow> validation_error + bool" where
  "lacks d name = bind_result (contained name (JObj d)) (\<lambda>b. Inr (\<not> b))"

definition check_required :: "(string \<times> json) list \<Rightarrow> schema \<Rightarrow> step list \<Rightarrow> validation_error + (step list \<times> problem) list" where
  "check_required d s path =
     bind_result (required_names s) (\<lambda>names.
     bind_result (traverse (\<lambda>n. bind_result (lacks d n) (\<lambda>b. Inr (if b then [(path @ [Field n], RequiredMissing)] else []))) names) (\<lambda>pss.
       Inr (concat pss)))"

definition schema_properties :: "schema \<Rightarrow> validation_error + (string \<times> json) list" where
  "schema_properties s =
     (case map_of s ''properties'' of None \<Rightarrow> Inr [] | Some (JObj ps) \<Rightarrow> Inr ps | Some _ \<Rightarrow> Inl PyError)"

definition check_additional :: "(string \<times> json) list \<Rightarrow> schema \<Rightarrow> (string \<times> json) list \<Rightarrow> step list \<Rightarrow> (step list \<times> problem) list" where
  "check_additional d s properties path =
     (if map_of s ''additionalProperties'' = Some (JBool False)
      then map (\<lambda>n. (path @ [Field (JStr n)], NotAllowed)) (filter (\<lambda>n. n \<notin> fst ` set properties) (map fst d))
      else [])"

lemma traverse_cong [fundef_cong]:
  "xs = ys \<Longrightarrow> (\<And>x. x \<in> set ys \<Longrightarrow> f x = g x) \<Longrightarrow> traverse f xs = traverse g ys"
  by (induction xs arbitrary: ys) auto

definition at_path :: "step list \<Rightarrow> problem list \<Rightarrow> (step list \<times> problem) list" where
  "at_path path ps = map (Pair path) ps"

text \<open>The part of a node after its type: strings, numbers, then what lies inside.\<close>

function check_node :: "searcher \<Rightarrow> json \<Rightarrow> schema \<Rightarrow> step list \<Rightarrow> validation_error + (step list \<times> problem) list" where
  "check_node search v s path =
     bind_result (check_type v s) (\<lambda>wrong.
       (case wrong of
          Some p \<Rightarrow> Inr [(path, p)]
        | None \<Rightarrow>
            bind_result (check_values v s) (\<lambda>ps.
            bind_result
              (case v of
                 JStr t \<Rightarrow> bind_result (check_string search t s) (\<lambda>qs. Inr (at_path path qs))
               | JInt i \<Rightarrow> bind_result (check_number (of_int i) s) (\<lambda>qs. Inr (at_path path qs))
               | JFloat x \<Rightarrow> bind_result (check_number x s) (\<lambda>qs. Inr (at_path path qs))
               | JList xs \<Rightarrow>
                   bind_result (compare_with s ''minItems'' (\<lambda>m. of_nat (length xs) < m) FewerThan) (\<lambda>p1.
                   bind_result (compare_with s ''maxItems'' (\<lambda>m. of_nat (length xs) > m) MoreThan) (\<lambda>p2.
                   bind_result
                     (case json_get s ''items'' of
                        JObj item \<Rightarrow> traverse (\<lambda>(i, x). check_node search x item (path @ [Index i])) (enumerate 0 xs)
                      | _ \<Rightarrow> Inr []) (\<lambda>pss.
                     Inr (at_path path (p1 @ p2) @ concat pss))))
               | JObj d \<Rightarrow>
                   bind_result (schema_properties s) (\<lambda>properties.
                   bind_result (check_required d s path) (\<lambda>missing.
                   bind_result
                     (traverse (\<lambda>(n, sub). case (map_of d n, sub) of
                        (Some x, JObj sub') \<Rightarrow> check_node search x sub' (path @ [Field (JStr n)])
                      | _ \<Rightarrow> Inr []) properties) (\<lambda>pss.
                     Inr (missing @ check_additional d s properties path @ concat pss))))
               | _ \<Rightarrow> Inr []) (\<lambda>rest.
              Inr (at_path path ps @ rest)))))"
  by pat_completeness auto

termination
  by (relation "measure (\<lambda>(search, v, s, path). size v)")
    (auto simp: size_json_mem size_found in_set_enumerate_eq)

declare check_node.simps [simp del]

definition validate_schema :: "searcher \<Rightarrow> json \<Rightarrow> schema \<Rightarrow> validation_error + ValidationCheck" where
  "validate_schema search v s =
     bind_result (reject_unsupported (JObj s) []) (\<lambda>_.
     bind_result (check_node search v s []) (\<lambda>problems.
       Inr (if problems \<noteq> [] then failed_check ''json_schema'' (FieldProblems problems) else passed_check ''json_schema'')))"

subsection \<open>The other checks and the policy\<close>

definition validate_required_fields :: "json \<Rightarrow> string list \<Rightarrow> ValidationCheck" where
  "validate_required_fields v names =
     (case v of
        JObj d \<Rightarrow>
          (let missing = filter (\<lambda>n. n \<notin> fst ` set d) names in
           if missing \<noteq> [] then failed_check ''required_fields'' (MissingFields missing) else passed_check ''required_fields'')
      | _ \<Rightarrow> failed_check ''required_fields'' (NotAnObject (type_name v)))"

definition validate_regex :: "searcher \<Rightarrow> string \<Rightarrow> string \<Rightarrow> ValidationCheck" where
  "validate_regex search txt pattern =
     (case search pattern txt of
        Inl e \<Rightarrow> failed_check ''regex'' (InvalidPattern e)
      | Inr found \<Rightarrow> if \<not> found then failed_check ''regex'' (PatternUnmatched pattern) else passed_check ''regex'')"

definition validate_length :: "string \<Rightarrow> int \<Rightarrow> ValidationCheck" where
  "validate_length txt maximum_chars =
     (if int (length txt) > maximum_chars then failed_check ''length'' (TooLong (int (length txt)) maximum_chars)
      else passed_check ''length'')"

definition json_checks :: "loader \<Rightarrow> searcher \<Rightarrow> string \<Rightarrow> bool \<Rightarrow> schema option \<Rightarrow> string list \<Rightarrow>
    validation_error + (ValidationCheck list \<times> json)" where
  "json_checks loads search txt require_valid_json s names =
     (if require_valid_json \<or> s \<noteq> None \<or> names \<noteq> [] then
        (case validate_json loads txt of
           (json_check, v) \<Rightarrow>
             if check_passed json_check then
               bind_result (case s of None \<Rightarrow> Inr [] | Some sch \<Rightarrow> bind_result (validate_schema search v sch) (\<lambda>c. Inr [c])) (\<lambda>cs.
                 Inr ([json_check] @ cs @ (if names \<noteq> [] then [validate_required_fields v names] else []), v))
             else Inr ([json_check], v))
      else Inr ([], JNull))"

definition validate_output :: "loader \<Rightarrow> searcher \<Rightarrow> string \<Rightarrow> bool \<Rightarrow> schema option \<Rightarrow> string list \<Rightarrow> string option \<Rightarrow>
    int option \<Rightarrow> validation_error + ValidationOutcome" where
  "validate_output loads search txt require_valid_json s names pattern max_output_chars =
     bind_result (json_checks loads search txt require_valid_json s names) (\<lambda>(cs, v).
       (let all_checks = cs @ (case pattern of None \<Rightarrow> [] | Some p \<Rightarrow> [validate_regex search txt p]) @
              (case max_output_chars of None \<Rightarrow> [] | Some m \<Rightarrow> [validate_length txt m])
        in if all_checks = [] then Inr \<lparr>val_performed = False, val_passed = None, val_checks = [], val_parsed = JNull\<rparr>
           else Inr \<lparr>val_performed = True, val_passed = Some (list_all check_passed all_checks), val_checks = all_checks,
                     val_parsed = v\<rparr>))"

subsection \<open>The meaning of a schema\<close>

definition type_ok :: "json \<Rightarrow> schema \<Rightarrow> bool" where
  "type_ok v s \<longleftrightarrow> (case json_get s ''type'' of
     JNull \<Rightarrow> True | JStr t \<Rightarrow> type_matches v t | JList ts \<Rightarrow> \<exists>t \<in> set ts. case t of JStr u \<Rightarrow> type_matches v u | _ \<Rightarrow> False
   | _ \<Rightarrow> False)"

definition keyword_holds :: "schema \<Rightarrow> string \<Rightarrow> (json \<Rightarrow> bool) \<Rightarrow> bool" where
  "keyword_holds s k P \<longleftrightarrow> (case map_of s k of None \<Rightarrow> True | Some m \<Rightarrow> P m)"

definition number_holds :: "schema \<Rightarrow> string \<Rightarrow> (rat \<Rightarrow> bool) \<Rightarrow> bool" where
  "number_holds s k P \<longleftrightarrow> keyword_holds s k (\<lambda>m. case num_of m of None \<Rightarrow> False | Some x \<Rightarrow> P x)"

definition string_conforms :: "searcher \<Rightarrow> string \<Rightarrow> schema \<Rightarrow> bool" where
  "string_conforms search t s \<longleftrightarrow>
     number_holds s ''minLength'' (\<lambda>m. m \<le> of_nat (length t)) \<and> number_holds s ''maxLength'' (\<lambda>m. of_nat (length t) \<le> m) \<and>
     keyword_holds s ''pattern'' (\<lambda>p. case as_str p of None \<Rightarrow> False | Some pat \<Rightarrow> search pat t = Inr True)"

definition number_conforms :: "rat \<Rightarrow> schema \<Rightarrow> bool" where
  "number_conforms x s \<longleftrightarrow>
     number_holds s ''minimum'' (\<lambda>m. m \<le> x) \<and> number_holds s ''maximum'' (\<lambda>m. x \<le> m) \<and>
     number_holds s ''exclusiveMinimum'' (\<lambda>m. m < x) \<and> number_holds s ''exclusiveMaximum'' (\<lambda>m. x < m)"

definition property_schemas :: "schema \<Rightarrow> (string \<times> json) list" where
  "property_schemas s = (case json_get s ''properties'' of JObj ps \<Rightarrow> ps | _ \<Rightarrow> [])"

definition required_ok :: "(string \<times> json) list \<Rightarrow> schema \<Rightarrow> bool" where
  "required_ok d s \<longleftrightarrow> keyword_holds s ''required'' (\<lambda>r. case r of
     JList ns \<Rightarrow> (\<forall>n \<in> set ns. case n of JStr k \<Rightarrow> k \<in> fst ` set d | _ \<Rightarrow> False) | _ \<Rightarrow> False)"

function conforms :: "searcher \<Rightarrow> schema \<Rightarrow> json \<Rightarrow> bool" where
  "conforms search s v \<longleftrightarrow>
     type_ok v s \<and> keyword_holds s ''enum'' (\<lambda>e. case e of JList xs \<Rightarrow> \<exists>x \<in> set xs. py_eq v x | _ \<Rightarrow> False) \<and>
     keyword_holds s ''const'' (py_eq v) \<and>
     (case v of
        JStr t \<Rightarrow> string_conforms search t s
      | JInt i \<Rightarrow> number_conforms (of_int i) s
      | JFloat x \<Rightarrow> number_conforms x s
      | JList xs \<Rightarrow>
          number_holds s ''minItems'' (\<lambda>m. m \<le> of_nat (length xs)) \<and> number_holds s ''maxItems'' (\<lambda>m. of_nat (length xs) \<le> m) \<and>
          (case json_get s ''items'' of JObj item \<Rightarrow> \<forall>x \<in> set xs. conforms search item x | _ \<Rightarrow> True)
      | JObj d \<Rightarrow>
          required_ok d s \<and>
          (map_of s ''additionalProperties'' = Some (JBool False) \<longrightarrow> fst ` set d \<subseteq> fst ` set (property_schemas s)) \<and>
          (\<forall>(n, sub) \<in> set (property_schemas s). case (map_of d n, sub) of
             (Some x, JObj sub') \<Rightarrow> conforms search sub' x | _ \<Rightarrow> True)
      | _ \<Rightarrow> True)"
  by pat_completeness auto

termination
  by (relation "measure (\<lambda>(search, s, v). size v)") (auto simp: size_json_mem size_found)

declare conforms.simps [simp del]

text \<open>A schema every keyword of which has a value of its type, with patterns that compile.\<close>

definition keywords_ok :: "searcher \<Rightarrow> schema \<Rightarrow> bool" where
  "keywords_ok search s \<longleftrightarrow>
     (case json_get s ''type'' of JNull \<Rightarrow> True | JStr _ \<Rightarrow> True | JList ts \<Rightarrow> list_all is_text ts | _ \<Rightarrow> False) \<and>
     keyword_holds s ''enum'' is_JList \<and> keyword_holds s ''properties'' is_JObj \<and>
     keyword_holds s ''required'' (\<lambda>r. case r of JList ns \<Rightarrow> list_all is_text ns | _ \<Rightarrow> False) \<and>
     keyword_holds s ''pattern'' (\<lambda>p. case as_str p of None \<Rightarrow> False | Some pat \<Rightarrow> \<forall>t. \<not> isl (search pat t)) \<and>
     list_all (\<lambda>k. keyword_holds s k (\<lambda>m. num_of m \<noteq> None)) [''minLength'', ''maxLength'', ''minimum'', ''maximum'',
       ''exclusiveMinimum'', ''exclusiveMaximum'', ''minItems'', ''maxItems'']"

inductive schema_ok :: "searcher \<Rightarrow> schema \<Rightarrow> bool" for search where
  "keywords_ok search s \<Longrightarrow>
   (\<And>item. json_get s ''items'' = JObj item \<Longrightarrow> schema_ok search item) \<Longrightarrow>
   (\<And>n sub. (n, JObj sub) \<in> set (property_schemas s) \<Longrightarrow> schema_ok search sub) \<Longrightarrow> schema_ok search s"

inductive_simps schema_ok_unfold: "schema_ok search s"

subsection \<open>The validator decides the schema\<close>

text \<open>A result that does not raise, and is empty exactly when a condition holds.\<close>

definition decides :: "'e + 'p list \<Rightarrow> bool \<Rightarrow> bool" where
  "decides r P \<longleftrightarrow> (\<exists>ps. r = Inr ps \<and> (ps = [] \<longleftrightarrow> P))"

lemma decides_Inr [simp]: "decides (Inr ps) P \<longleftrightarrow> (ps = [] \<longleftrightarrow> P)"
  by (simp add: decides_def)

lemma decides_append:
  "decides r P \<Longrightarrow> (\<And>ps. decides (f ps) Q) \<Longrightarrow> (\<And>ps qs. (h ps qs = []) = (ps = [] \<and> qs = [])) \<Longrightarrow>
   decides (bind_result r (\<lambda>ps. bind_result (f ps) (\<lambda>qs. Inr (h ps qs)))) (P \<and> Q)"
proof -
  assume r: "decides r P" and f: "\<And>ps. decides (f ps) Q" and h: "\<And>ps qs. (h ps qs = []) = (ps = [] \<and> qs = [])"
  obtain ps where ps: "r = Inr ps" "ps = [] \<longleftrightarrow> P" using r unfolding decides_def by blast
  obtain qs where "f ps = Inr qs" "qs = [] \<longleftrightarrow> Q" using f[of ps] unfolding decides_def by blast
  then show ?thesis using ps by (simp add: h)
qed

lemma decides_map: "decides r P \<Longrightarrow> (\<And>ps. (h ps = []) = (ps = [])) \<Longrightarrow> decides (bind_result r (\<lambda>ps. Inr (h ps))) P"
  by (cases r) (auto simp: decides_def)

lemma decides_traverse:
  assumes "\<And>x. x \<in> set xs \<Longrightarrow> decides (f x) (P x)"
  shows "decides (bind_result (traverse f xs) (\<lambda>pss. Inr (concat pss))) (\<forall>x \<in> set xs. P x)"
  using assms
proof (induction xs)
  case (Cons x xs)
  obtain ps where ps: "f x = Inr ps" "ps = [] \<longleftrightarrow> P x" using Cons.prems[of x] by (auto simp: decides_def)
  have "decides (bind_result (traverse f xs) (\<lambda>pss. Inr (concat pss))) (\<forall>x \<in> set xs. P x)"
    using Cons.prems by (intro Cons.IH) simp
  then obtain qss where "traverse f xs = Inr qss" "concat qss = [] \<longleftrightarrow> (\<forall>x \<in> set xs. P x)"
    by (cases "traverse f xs") (simp_all add: decides_def del: concat_eq_Nil_conv)
  then show ?case using ps by (simp del: concat_eq_Nil_conv)
qed simp

lemma decides_compare:
  assumes "keyword_holds s k (\<lambda>m. num_of m \<noteq> None)"
  shows "decides (compare_with s k bad mk) (number_holds s k (\<lambda>x. \<not> bad x))"
  using assms by (auto simp: compare_with_def number_holds_def keyword_holds_def split: option.splits)

lemma decides_type:
  assumes "keywords_ok search s"
  shows "\<exists>wrong. check_type v s = Inr wrong \<and> (wrong = None \<longleftrightarrow> type_ok v s)"
proof -
  have any: "\<exists>b. any_type v ts = Inr b \<and> (b \<longleftrightarrow> (\<exists>t \<in> set ts. case t of JStr u \<Rightarrow> type_matches v u | _ \<Rightarrow> False))"
    if "list_all is_text ts" for ts
    using that by (induction v ts rule: any_type.induct) (auto simp: is_text_def simp del: type_matches.simps)
  have ok: "case json_get s ''type'' of JNull \<Rightarrow> True | JStr _ \<Rightarrow> True | JList ts \<Rightarrow> list_all is_text ts | _ \<Rightarrow> False"
    using assms by (simp add: keywords_ok_def)
  show ?thesis
  proof (cases "json_get s ''type''")
    case (JList ts)
    then have texts: "list_all is_text ts" using ok by simp
    then obtain b where "any_type v ts = Inr b" "b \<longleftrightarrow> (\<exists>t \<in> set ts. case t of JStr u \<Rightarrow> type_matches v u | _ \<Rightarrow> False)"
      using any by blast
    then show ?thesis using JList texts by (auto simp: check_type_def type_options_def type_ok_def)
  qed (use ok in \<open>auto simp: check_type_def type_options_def type_ok_def is_text_def simp del: type_matches.simps\<close>)
qed

lemma decides_values:
  assumes "keywords_ok search s"
  shows "decides (check_values v s) (keyword_holds s ''enum'' (\<lambda>e. case e of JList xs \<Rightarrow> \<exists>x \<in> set xs. py_eq v x | _ \<Rightarrow> False) \<and>
    keyword_holds s ''const'' (py_eq v))"
proof -
  have e: "keyword_holds s ''enum'' is_JList" using assms by (simp add: keywords_ok_def)
  have enum: "decides (case map_of s ''enum'' of None \<Rightarrow> Inr [] | Some e \<Rightarrow>
         bind_result (contained v e) (\<lambda>ok. Inr (if ok then [] else [OneOf e])))
       (keyword_holds s ''enum'' (\<lambda>e. case e of JList xs \<Rightarrow> \<exists>x \<in> set xs. py_eq v x | _ \<Rightarrow> False))"
  proof (cases "map_of s ''enum''")
    case (Some m)
    then obtain xs where "m = JList xs" using e by (auto simp: keyword_holds_def is_JList_def)
    then show ?thesis using Some by (simp add: keyword_holds_def)
  qed (simp add: keyword_holds_def)
  have const: "decides (Inr (case map_of s ''const'' of None \<Rightarrow> [] | Some c \<Rightarrow> if py_eq v c then [] else [MustEqual c]))
       (keyword_holds s ''const'' (py_eq v))"
    by (simp add: keyword_holds_def split: option.splits)
  show ?thesis
    using decides_append[OF enum const, of append] by (simp add: check_values_def)
qed

lemma decides_pattern:
  assumes "keywords_ok search s"
  shows "decides (check_pattern search t s)
    (keyword_holds s ''pattern'' (\<lambda>p. case as_str p of None \<Rightarrow> False | Some pat \<Rightarrow> search pat t = Inr True))"
proof (cases "map_of s ''pattern''")
  case (Some p)
  have "keyword_holds s ''pattern'' (\<lambda>p. case as_str p of None \<Rightarrow> False | Some pat \<Rightarrow> \<forall>t. \<not> isl (search pat t))"
    using assms by (simp add: keywords_ok_def)
  then obtain pat where pat: "as_str p = Some pat" "\<not> isl (search pat t)"
    using Some by (auto simp: keyword_holds_def split: option.splits)
  then obtain b where "search pat t = Inr b" by (cases "search pat t") auto
  then show ?thesis using Some pat by (simp add: check_pattern_def keyword_holds_def)
qed (simp add: check_pattern_def keyword_holds_def)

lemma decides_string:
  assumes "keywords_ok search s"
  shows "decides (check_string search t s) (string_conforms search t s)"
proof -
  have len: "keyword_holds s ''minLength'' (\<lambda>m. num_of m \<noteq> None)" "keyword_holds s ''maxLength'' (\<lambda>m. num_of m \<noteq> None)"
    using assms by (simp_all add: keywords_ok_def)
  obtain p1 where p1: "compare_with s ''minLength'' (\<lambda>m. of_nat (length t) < m) ShorterThan = Inr p1"
      "p1 = [] \<longleftrightarrow> number_holds s ''minLength'' (\<lambda>m. \<not> of_nat (length t) < m)"
    using decides_compare[OF len(1)] unfolding decides_def by blast
  obtain p2 where p2: "compare_with s ''maxLength'' (\<lambda>m. of_nat (length t) > m) LongerThan = Inr p2"
      "p2 = [] \<longleftrightarrow> number_holds s ''maxLength'' (\<lambda>m. \<not> of_nat (length t) > m)"
    using decides_compare[OF len(2)] unfolding decides_def by blast
  obtain p3 where p3: "check_pattern search t s = Inr p3"
     "p3 = [] \<longleftrightarrow> keyword_holds s ''pattern'' (\<lambda>p. case as_str p of None \<Rightarrow> False | Some pat \<Rightarrow> search pat t = Inr True)"
    using decides_pattern[OF assms] unfolding decides_def by blast
  show ?thesis
    unfolding check_string_def p1(1) p2(1) p3(1) bind_result_simps decides_Inr append_is_Nil_conv p1(2) p2(2) p3(2)
      string_conforms_def not_less ..
qed

lemma decides_number:
  assumes "keywords_ok search s"
  shows "decides (check_number x s) (number_conforms x s)"
proof -
  have num: "keyword_holds s k (\<lambda>m. num_of m \<noteq> None)" if "k \<in> {''minimum'', ''maximum'', ''exclusiveMinimum'', ''exclusiveMaximum''}" for k
    using assms that unfolding keywords_ok_def by (elim insertE emptyE) simp_all
  have cmp: "\<exists>ps. compare_with s k bad mk = Inr ps \<and> (ps = [] \<longleftrightarrow> number_holds s k (\<lambda>x. \<not> bad x))"
    if "k \<in> {''minimum'', ''maximum'', ''exclusiveMinimum'', ''exclusiveMaximum''}" for k bad and mk :: "json \<Rightarrow> problem"
    using decides_compare[OF num[OF that]] unfolding decides_def by blast
  obtain p1 where p1: "compare_with s ''minimum'' (\<lambda>m. \<not> x \<ge> m) (Bound ''below the minimum'') = Inr p1"
    "p1 = [] \<longleftrightarrow> number_holds s ''minimum'' (\<lambda>m. \<not> \<not> x \<ge> m)" using cmp[of "''minimum''"] by blast
  obtain p2 where p2: "compare_with s ''maximum'' (\<lambda>m. \<not> x \<le> m) (Bound ''above the maximum'') = Inr p2"
    "p2 = [] \<longleftrightarrow> number_holds s ''maximum'' (\<lambda>m. \<not> \<not> x \<le> m)" using cmp[of "''maximum''"] by blast
  obtain p3 where p3: "compare_with s ''exclusiveMinimum'' (\<lambda>m. \<not> x > m) (Bound ''not above the exclusive minimum'') = Inr p3"
    "p3 = [] \<longleftrightarrow> number_holds s ''exclusiveMinimum'' (\<lambda>m. \<not> \<not> x > m)" using cmp[of "''exclusiveMinimum''"] by blast
  obtain p4 where p4: "compare_with s ''exclusiveMaximum'' (\<lambda>m. \<not> x < m) (Bound ''not below the exclusive maximum'') = Inr p4"
    "p4 = [] \<longleftrightarrow> number_holds s ''exclusiveMaximum'' (\<lambda>m. \<not> \<not> x < m)" using cmp[of "''exclusiveMaximum''"] by blast
  show ?thesis
    unfolding check_number_def p1(1) p2(1) p3(1) p4(1) bind_result_simps decides_Inr append_is_Nil_conv p1(2) p2(2) p3(2) p4(2)
      number_conforms_def not_not ..
qed

lemma decides_required:
  assumes "keywords_ok search s"
  shows "decides (check_required d s path) (required_ok d s)"
proof -
  have r: "keyword_holds s ''required'' (\<lambda>r. case r of JList ns \<Rightarrow> list_all is_text ns | _ \<Rightarrow> False)"
    using assms by (simp add: keywords_ok_def)
  show ?thesis
  proof (cases "map_of s ''required''")
    case (Some m)
    then obtain ns where m: "m = JList ns" and ns: "list_all is_text ns"
      using r by (cases m) (simp_all add: keyword_holds_def)
    have "decides (bind_result (lacks d n) (\<lambda>b. Inr (if b then [(path @ [Field n], RequiredMissing)] else [])))
        (case n of JStr k \<Rightarrow> k \<in> fst ` set d | _ \<Rightarrow> False)" if "n \<in> set ns" for n
      using ns that by (cases n) (auto simp: list_all_iff is_text_def lacks_def)
    from decides_traverse[where f = "\<lambda>n. bind_result (lacks d n) (\<lambda>b. Inr (if b then [(path @ [Field n], RequiredMissing)] else []))", OF this]
    show ?thesis using Some m by (simp add: check_required_def required_names_def required_ok_def keyword_holds_def)
  qed (simp add: check_required_def required_names_def required_ok_def keyword_holds_def)
qed

lemma at_path_Nil [simp]: "at_path path ps = [] \<longleftrightarrow> ps = []"
  by (simp add: at_path_def)

lemma decides_items:
  assumes "keywords_ok search s"
    and "\<And>item x path. json_get s ''items'' = JObj item \<Longrightarrow> x \<in> set xs \<Longrightarrow> decides (check_node search x item path) (conforms search item x)"
  shows "decides (bind_result (compare_with s ''minItems'' (\<lambda>m. of_nat (length xs) < m) FewerThan) (\<lambda>p1.
       bind_result (compare_with s ''maxItems'' (\<lambda>m. of_nat (length xs) > m) MoreThan) (\<lambda>p2.
       bind_result (case json_get s ''items'' of
            JObj item \<Rightarrow> traverse (\<lambda>(i, x). check_node search x item (path @ [Index i])) (enumerate 0 xs)
          | _ \<Rightarrow> Inr []) (\<lambda>pss. Inr (at_path path (p1 @ p2) @ concat pss)))))
     (number_holds s ''minItems'' (\<lambda>m. m \<le> of_nat (length xs)) \<and> number_holds s ''maxItems'' (\<lambda>m. of_nat (length xs) \<le> m) \<and>
      (case json_get s ''items'' of JObj item \<Rightarrow> \<forall>x \<in> set xs. conforms search item x | _ \<Rightarrow> True))"
proof -
  have len: "keyword_holds s ''minItems'' (\<lambda>m. num_of m \<noteq> None)" "keyword_holds s ''maxItems'' (\<lambda>m. num_of m \<noteq> None)"
    using assms(1) by (simp_all add: keywords_ok_def)
  obtain p1 where p1: "compare_with s ''minItems'' (\<lambda>m. of_nat (length xs) < m) FewerThan = Inr p1"
      "p1 = [] \<longleftrightarrow> number_holds s ''minItems'' (\<lambda>m. \<not> of_nat (length xs) < m)"
    using decides_compare[OF len(1)] unfolding decides_def by blast
  obtain p2 where p2: "compare_with s ''maxItems'' (\<lambda>m. of_nat (length xs) > m) MoreThan = Inr p2"
      "p2 = [] \<longleftrightarrow> number_holds s ''maxItems'' (\<lambda>m. \<not> of_nat (length xs) > m)"
    using decides_compare[OF len(2)] unfolding decides_def by blast
  have "decides (bind_result (case json_get s ''items'' of
            JObj item \<Rightarrow> traverse (\<lambda>(i, x). check_node search x item (path @ [Index i])) (enumerate 0 xs)
          | _ \<Rightarrow> Inr []) (\<lambda>pss. Inr (concat pss)))
      (case json_get s ''items'' of JObj item \<Rightarrow> \<forall>x \<in> set xs. conforms search item x | _ \<Rightarrow> True)"
  proof (cases "json_get s ''items''")
    case (JObj item)
    have "decides ((\<lambda>(i, x). check_node search x item (path @ [Index i])) p) (conforms search item (snd p))"
      if "p \<in> set (enumerate 0 xs)" for p
    proof -
      obtain i x where p: "p = (i, x)" by fastforce
      then have "x \<in> set xs" using that by (auto simp: in_set_enumerate_eq)
      then show ?thesis using assms(2)[OF JObj] by (simp add: p)
    qed
    from decides_traverse[where P = "\<lambda>p. conforms search item (snd p)", OF this]
    have "decides (bind_result (traverse (\<lambda>(i, x). check_node search x item (path @ [Index i])) (enumerate 0 xs))
        (\<lambda>pss. Inr (concat pss))) (\<forall>p \<in> set (enumerate 0 xs). conforms search item (snd p))" .
    moreover have "(\<forall>p \<in> set (enumerate 0 xs). conforms search item (snd p)) \<longleftrightarrow> (\<forall>x \<in> set xs. conforms search item x)"
      by (metis (no_types, lifting) image_iff map_snd_enumerate set_map)
    ultimately show ?thesis using JObj by simp
  qed simp_all
  then obtain pss where pss: "(case json_get s ''items'' of
            JObj item \<Rightarrow> traverse (\<lambda>(i, x). check_node search x item (path @ [Index i])) (enumerate 0 xs)
          | _ \<Rightarrow> Inr []) = Inr pss"
      "concat pss = [] \<longleftrightarrow> (case json_get s ''items'' of JObj item \<Rightarrow> \<forall>x \<in> set xs. conforms search item x | _ \<Rightarrow> True)"
    unfolding decides_def bind_result_Inr_iff by blast
  show ?thesis
    unfolding p1(1) p2(1) bind_result_simps pss(1) decides_Inr append_is_Nil_conv at_path_Nil p1(2) p2(2) pss(2) not_less
    by simp
qed

lemma decides_properties:
  assumes "keywords_ok search s"
    and "\<And>n sub x path. (n, JObj sub) \<in> set (property_schemas s) \<Longrightarrow> map_of d n = Some x \<Longrightarrow>
      decides (check_node search x sub path) (conforms search sub x)"
  shows "decides (bind_result (schema_properties s) (\<lambda>properties.
       bind_result (check_required d s path) (\<lambda>missing.
       bind_result (traverse (\<lambda>(n, sub). case (map_of d n, sub) of
            (Some x, JObj sub') \<Rightarrow> check_node search x sub' (path @ [Field (JStr n)])
          | _ \<Rightarrow> Inr []) properties) (\<lambda>pss.
         Inr (missing @ check_additional d s properties path @ concat pss)))))
     (required_ok d s \<and>
      (map_of s ''additionalProperties'' = Some (JBool False) \<longrightarrow> fst ` set d \<subseteq> fst ` set (property_schemas s)) \<and>
      (\<forall>(n, sub) \<in> set (property_schemas s). case (map_of d n, sub) of
         (Some x, JObj sub') \<Rightarrow> conforms search sub' x | _ \<Rightarrow> True))"
proof -
  let ?ps = "property_schemas s"
  have props: "schema_properties s = Inr ?ps"
  proof -
    have "keyword_holds s ''properties'' is_JObj" using assms(1) by (simp add: keywords_ok_def)
    then show ?thesis
      by (auto simp: schema_properties_def property_schemas_def json_get_def keyword_holds_def is_JObj_def split: option.splits)
  qed
  obtain missing where missing: "check_required d s path = Inr missing" "missing = [] \<longleftrightarrow> required_ok d s"
    using decides_required[OF assms(1)] unfolding decides_def by blast
  have add: "check_additional d s ?ps path = [] \<longleftrightarrow>
      (map_of s ''additionalProperties'' = Some (JBool False) \<longrightarrow> fst ` set d \<subseteq> fst ` set ?ps)"
    by (auto simp: check_additional_def filter_empty_conv)
  let ?f = "\<lambda>(n, sub). case (map_of d n, sub) of
            (Some x, JObj sub') \<Rightarrow> check_node search x sub' (path @ [Field (JStr n)]) | _ \<Rightarrow> Inr []"
  let ?P = "\<lambda>(n, sub). case (map_of d n, sub) of (Some x, JObj sub') \<Rightarrow> conforms search sub' x | _ \<Rightarrow> True"
  have "decides (?f p) (?P p)" if "p \<in> set ?ps" for p
    using assms(2) that by (cases p) (auto split: option.splits json.splits)
  from decides_traverse[where P = ?P, OF this]
  obtain pss where pss: "traverse ?f ?ps = Inr pss" "concat pss = [] \<longleftrightarrow> (\<forall>p \<in> set ?ps. ?P p)"
    unfolding decides_def bind_result_Inr_iff by blast
  show ?thesis
    unfolding props missing(1) bind_result_simps pss(1) decides_Inr append_is_Nil_conv missing(2) add pss(2) ..
qed

lemma check_node_decides:
  "schema_ok search s \<Longrightarrow> decides (check_node search v s path) (conforms search s v)"
proof (induction search s v arbitrary: path rule: conforms.induct)
  case (1 search s v)
  have kw: "keywords_ok search s" and item: "\<And>item. json_get s ''items'' = JObj item \<Longrightarrow> schema_ok search item"
    and sub: "\<And>n sub. (n, JObj sub) \<in> set (property_schemas s) \<Longrightarrow> schema_ok search sub"
    using 1(3) unfolding schema_ok_unfold[of search s] by blast+
  obtain wrong where wrong: "check_type v s = Inr wrong" "wrong = None \<longleftrightarrow> type_ok v s"
    using decides_type[OF kw] by blast
  show ?case
  proof (cases wrong)
    case (Some p)
    then show ?thesis using wrong by (simp add: check_node.simps[of search v s] conforms.simps[of search s v])
  next
    case None
    then have ok: "type_ok v s" using wrong(2) by simp
    obtain ps where ps: "check_values v s = Inr ps"
      "ps = [] \<longleftrightarrow> keyword_holds s ''enum'' (\<lambda>e. case e of JList xs \<Rightarrow> \<exists>x \<in> set xs. py_eq v x | _ \<Rightarrow> False) \<and> keyword_holds s ''const'' (py_eq v)"
      using decides_values[OF kw] unfolding decides_def by blast
    let ?R = "(case v of
                           JStr t \<Rightarrow> bind_result (check_string search t s) (\<lambda>qs. Inr (at_path path qs))
                         | JInt i \<Rightarrow> bind_result (check_number (of_int i) s) (\<lambda>qs. Inr (at_path path qs))
                         | JFloat x \<Rightarrow> bind_result (check_number x s) (\<lambda>qs. Inr (at_path path qs))
                         | JList xs \<Rightarrow>
                             bind_result (compare_with s ''minItems'' (\<lambda>m. of_nat (length xs) < m) FewerThan) (\<lambda>p1.
                             bind_result (compare_with s ''maxItems'' (\<lambda>m. of_nat (length xs) > m) MoreThan) (\<lambda>p2.
                             bind_result
                               (case json_get s ''items'' of
                                  JObj item \<Rightarrow> traverse (\<lambda>(i, x). check_node search x item (path @ [Index i])) (enumerate 0 xs)
                                | _ \<Rightarrow> Inr []) (\<lambda>pss.
                               Inr (at_path path (p1 @ p2) @ concat pss))))
                         | JObj d \<Rightarrow>
                             bind_result (schema_properties s) (\<lambda>properties.
                             bind_result (check_required d s path) (\<lambda>missing.
                             bind_result
                               (traverse (\<lambda>(n, sub). case (map_of d n, sub) of
                                  (Some x, JObj sub') \<Rightarrow> check_node search x sub' (path @ [Field (JStr n)])
                                | _ \<Rightarrow> Inr []) properties) (\<lambda>pss.
                               Inr (missing @ check_additional d s properties path @ concat pss))))
                         | _ \<Rightarrow> Inr [])"
    let ?Q = "(case v of
                  JStr t \<Rightarrow> string_conforms search t s
                | JInt i \<Rightarrow> number_conforms (of_int i) s
                | JFloat x \<Rightarrow> number_conforms x s
                | JList xs \<Rightarrow>
                    number_holds s ''minItems'' (\<lambda>m. m \<le> of_nat (length xs)) \<and> number_holds s ''maxItems'' (\<lambda>m. of_nat (length xs) \<le> m) \<and>
                    (case json_get s ''items'' of JObj item \<Rightarrow> \<forall>x \<in> set xs. conforms search item x | _ \<Rightarrow> True)
                | JObj d \<Rightarrow>
                    required_ok d s \<and>
                    (map_of s ''additionalProperties'' = Some (JBool False) \<longrightarrow> fst ` set d \<subseteq> fst ` set (property_schemas s)) \<and>
                    (\<forall>(n, sub) \<in> set (property_schemas s). case (map_of d n, sub) of
                       (Some x, JObj sub') \<Rightarrow> conforms search sub' x | _ \<Rightarrow> True)
                | _ \<Rightarrow> True)"
    have "decides ?R ?Q"
    proof (cases v)
      case (JStr t)
      show ?thesis unfolding JStr json.case by (rule decides_map[OF decides_string[OF kw]]) simp
    next
      case (JInt i)
      show ?thesis unfolding JInt json.case by (rule decides_map[OF decides_number[OF kw]]) simp
    next
      case (JFloat x)
      show ?thesis unfolding JFloat json.case by (rule decides_map[OF decides_number[OF kw]]) simp
    next
      case (JList xs)
      show ?thesis unfolding JList json.case
        by (rule decides_items[OF kw]) (rule 1(1)[OF JList], assumption, assumption, erule item)
    next
      case (JObj d)
      show ?thesis unfolding JObj json.case
        by (rule decides_properties[OF kw]) (rule 1(2)[OF JObj _ refl], assumption, auto dest: sub)
    qed simp_all
    then obtain rest where rest: "?R = Inr rest" "rest = [] \<longleftrightarrow> ?Q" unfolding decides_def by blast
    have "check_node search v s path = Inr (at_path path ps @ rest)"
      unfolding check_node.simps[of search v s path] wrong(1) None bind_result_simps option.case ps(1) rest(1) ..
    then show ?thesis
      unfolding conforms.simps[of search s v] using ps(2) rest(2) ok by (simp only: decides_Inr append_is_Nil_conv at_path_Nil) blast
  qed
qed

subsection \<open>What a schema may not use\<close>

inductive all_supported :: "json \<Rightarrow> bool" where
  not_obj: "\<not> is_JObj v \<Longrightarrow> all_supported v"
| obj: "fst ` set d \<subseteq> set SUPPORTED_SCHEMA_KEYWORDS \<Longrightarrow>
    (\<And>e n sub. (''properties'', JObj e) \<in> set d \<Longrightarrow> (n, sub) \<in> set e \<Longrightarrow> all_supported sub) \<Longrightarrow>
    (\<And>k e. k \<in> {''items'', ''additionalProperties''} \<Longrightarrow> (k, JObj e) \<in> set d \<Longrightarrow> all_supported (JObj e)) \<Longrightarrow>
    all_supported (JObj d)"

inductive_simps all_supported_obj: "all_supported (JObj d)"

lemma reject_other: "\<not> is_JObj v \<Longrightarrow> reject_unsupported v path = Inr ()"
  by (subst reject_unsupported.simps) (cases v; simp)

lemma ball_pairs: "(\<forall>x \<in> S. P x) \<longleftrightarrow> (\<forall>(k, v) \<in> S. P (k, v))"
  by auto

lemma entries_split:
  "(\<forall>(k, v) \<in> S. \<forall>e. v = JObj e \<longrightarrow> (k = p \<longrightarrow> (\<forall>(n, sub) \<in> set e. A n sub)) \<and> (k \<in> K \<longrightarrow> B v)) \<longleftrightarrow>
   (\<forall>e n sub. (p, JObj e) \<in> S \<and> (n, sub) \<in> set e \<longrightarrow> A n sub) \<and> (\<forall>k e. k \<in> K \<and> (k, JObj e) \<in> S \<longrightarrow> B (JObj e))"
  by fastforce

lemma reject_obj:
  "reject_unsupported (JObj d) path = Inr u \<longleftrightarrow>
     fst ` set d \<subseteq> set SUPPORTED_SCHEMA_KEYWORDS \<and>
     (\<forall>e n sub. (''properties'', JObj e) \<in> set d \<and> (n, sub) \<in> set e \<longrightarrow> (\<exists>u. reject_unsupported sub (path @ [Field (JStr n)]) = Inr u)) \<and>
     (\<forall>k e. k \<in> {''items'', ''additionalProperties''} \<and> (k, JObj e) \<in> set d \<longrightarrow> (\<exists>u. reject_unsupported (JObj e) (path @ [Items]) = Inr u))"
proof -
  have "sort (remdups (filter (\<lambda>k. k \<notin> set SUPPORTED_SCHEMA_KEYWORDS) (map fst d))) = [] \<longleftrightarrow>
      fst ` set d \<subseteq> set SUPPORTED_SCHEMA_KEYWORDS" (is "?l = [] \<longleftrightarrow> ?r")
  proof -
    have "?l = [] \<longleftrightarrow> set ?l = {}" by (simp only: set_empty)
    also have "\<dots> \<longleftrightarrow> ?r" by auto
    finally show ?thesis .
  qed
  note keys = this
  let ?entry = "\<lambda>(k, v). case v of
      JObj e \<Rightarrow> if k = ''properties'' then first_error (map (\<lambda>(n, sub). reject_unsupported sub (path @ [Field (JStr n)])) e)
        else if k \<in> {''items'', ''additionalProperties''} then reject_unsupported v (path @ [Items]) else Inr ()
    | _ \<Rightarrow> Inr ()"
  have unf: "reject_unsupported (JObj d) path = (if fst ` set d \<subseteq> set SUPPORTED_SCHEMA_KEYWORDS then first_error (map ?entry d)
      else Inl (SchemaUnsupported (sort (remdups (filter (\<lambda>k. k \<notin> set SUPPORTED_SCHEMA_KEYWORDS) (map fst d)))) path))"
    by (subst reject_unsupported.simps) (simp add: keys)
  have entry: "(\<exists>u. ?entry (k, v) = Inr u) \<longleftrightarrow> (\<forall>e. v = JObj e \<longrightarrow>
      (k = ''properties'' \<longrightarrow> (\<forall>(n, sub) \<in> set e. \<exists>u. reject_unsupported sub (path @ [Field (JStr n)]) = Inr u)) \<and>
      (k \<in> {''items'', ''additionalProperties''} \<longrightarrow> (\<exists>u. reject_unsupported v (path @ [Items]) = Inr u)))" for k v
  proof (cases v)
    case (JObj e)
    have "(\<exists>u. ?entry (k, v) = Inr u) \<longleftrightarrow>
      (if k = ''properties'' then \<exists>u. first_error (map (\<lambda>(n, sub). reject_unsupported sub (path @ [Field (JStr n)])) e) = Inr u
       else k \<in> {''items'', ''additionalProperties''} \<longrightarrow> (\<exists>u. reject_unsupported v (path @ [Items]) = Inr u))"
      by (simp add: JObj)
    also have "(\<exists>u. first_error (map (\<lambda>(n, sub). reject_unsupported sub (path @ [Field (JStr n)])) e) = Inr u) \<longleftrightarrow>
      (\<forall>(n, sub) \<in> set e. \<exists>u. reject_unsupported sub (path @ [Field (JStr n)]) = Inr u)"
      unfolding first_error_Inr by (simp add: case_prod_beta)
    finally show ?thesis by (simp add: JObj)
  qed simp_all
  have "first_error (map ?entry d) = Inr u \<longleftrightarrow> (\<forall>(k, v) \<in> set d. \<exists>u. ?entry (k, v) = Inr u)"
    unfolding first_error_Inr set_map ball_simps by (rule ball_pairs)
  also have "\<dots> \<longleftrightarrow> (\<forall>e n sub. (''properties'', JObj e) \<in> set d \<and> (n, sub) \<in> set e \<longrightarrow> (\<exists>u. reject_unsupported sub (path @ [Field (JStr n)]) = Inr u)) \<and>
     (\<forall>k e. k \<in> {''items'', ''additionalProperties''} \<and> (k, JObj e) \<in> set d \<longrightarrow> (\<exists>u. reject_unsupported (JObj e) (path @ [Items]) = Inr u))"
    unfolding entry by (rule entries_split)
  finally show ?thesis unfolding unf by simp
qed

lemma reject_exact: "reject_unsupported v path = Inr () \<longleftrightarrow> all_supported v"
proof (induction "size v" arbitrary: v path rule: less_induct)
  case less
  show ?case
  proof (cases v)
    case (JObj d)
    have p: "reject_unsupported sub pth = Inr () \<longleftrightarrow> all_supported sub"
      if "(''properties'', JObj e) \<in> set d" "(n, sub) \<in> set e" for e n sub pth
      using less size_json_obj[OF that] by (simp add: JObj)
    have i: "reject_unsupported (JObj e) pth = Inr () \<longleftrightarrow> all_supported (JObj e)" if "(k, JObj e) \<in> set d" for k e pth
      using less size_in_obj[OF that] by (simp add: JObj)
    have unit: "(\<exists>u. r = Inr u) \<longleftrightarrow> r = Inr ()" for r :: "validation_error + unit" by auto
    have ps: "(\<forall>e n sub. (''properties'', JObj e) \<in> set d \<and> (n, sub) \<in> set e \<longrightarrow> reject_unsupported sub (path @ [Field (JStr n)]) = Inr ()) \<longleftrightarrow>
        (\<forall>e n sub. (''properties'', JObj e) \<in> set d \<longrightarrow> (n, sub) \<in> set e \<longrightarrow> all_supported sub)" by (metis p)
    have its: "(\<forall>k e. k \<in> {''items'', ''additionalProperties''} \<and> (k, JObj e) \<in> set d \<longrightarrow> reject_unsupported (JObj e) (path @ [Items]) = Inr ()) \<longleftrightarrow>
        (\<forall>k e. k \<in> {''items'', ''additionalProperties''} \<longrightarrow> (k, JObj e) \<in> set d \<longrightarrow> all_supported (JObj e))" by (metis i)
    show ?thesis unfolding JObj reject_obj[of d path "()"] all_supported_obj[of d] unit ps its by simp
  qed (auto simp: reject_other intro: all_supported.intros)
qed

subsection \<open>The policy\<close>

lemma validate_schema_decides:
  assumes "schema_ok search s" "reject_unsupported (JObj s) [] = Inr ()"
  shows "\<exists>c. validate_schema search v s = Inr c \<and> (check_passed c \<longleftrightarrow> conforms search s v)"
proof -
  obtain ps where "check_node search v s [] = Inr ps" "ps = [] \<longleftrightarrow> conforms search s v"
    using check_node_decides[OF assms(1)] unfolding decides_def by blast
  then show ?thesis using assms(2) by (auto simp: validate_schema_def failed_check_def passed_check_def)
qed

definition needs_json :: "bool \<Rightarrow> schema option \<Rightarrow> string list \<Rightarrow> bool" where
  "needs_json require_valid_json s names \<longleftrightarrow> require_valid_json \<or> s \<noteq> None \<or> names \<noteq> []"

definition json_accepts :: "loader \<Rightarrow> searcher \<Rightarrow> string \<Rightarrow> schema option \<Rightarrow> string list \<Rightarrow> bool" where
  "json_accepts loads search output s names \<longleftrightarrow>
     (\<exists>j. loads output = Inr j \<and> (\<forall>sch. s = Some sch \<longrightarrow> conforms search sch j) \<and>
          (names \<noteq> [] \<longrightarrow> (\<exists>d. j = JObj d \<and> set names \<subseteq> fst ` set d)))"

lemma required_fields_passed:
  "check_passed (validate_required_fields j names) \<longleftrightarrow> (\<exists>d. j = JObj d \<and> set names \<subseteq> fst ` set d)"
  by (cases j) (auto simp: validate_required_fields_def failed_check_def passed_check_def filter_empty_conv)

lemma json_checks_decide:
  assumes "\<forall>sch. s = Some sch \<longrightarrow> schema_ok search sch \<and> reject_unsupported (JObj sch) [] = Inr ()"
  shows "\<exists>cs v. json_checks loads search output require_valid_json s names = Inr (cs, v) \<and>
    (cs = [] \<longleftrightarrow> \<not> needs_json require_valid_json s names) \<and>
    (list_all check_passed cs \<longleftrightarrow> (needs_json require_valid_json s names \<longrightarrow> json_accepts loads search output s names))"
proof (cases "needs_json require_valid_json s names")
  case True
  show ?thesis
  proof (cases "loads output")
    case (Inl e)
    then show ?thesis using True by (simp add: json_checks_def needs_json_def validate_json_def failed_check_def json_accepts_def)
  next
    case (Inr j)
    obtain cs where cs: "(case s of None \<Rightarrow> Inr [] | Some sch \<Rightarrow> bind_result (validate_schema search j sch) (\<lambda>c. Inr [c])) = Inr cs"
      "list_all check_passed cs \<longleftrightarrow> (\<forall>sch. s = Some sch \<longrightarrow> conforms search sch j)"
    proof (cases s)
      case (Some sch)
      then obtain c where "validate_schema search j sch = Inr c" "check_passed c \<longleftrightarrow> conforms search sch j"
        using validate_schema_decides assms by metis
      then show ?thesis using that[of "[c]"] Some by simp
    qed (use that[of "[]"] in simp)
    have "json_checks loads search output require_valid_json s names =
        Inr ([passed_check ''json''] @ cs @ (if names \<noteq> [] then [validate_required_fields j names] else []), j)"
      using True Inr cs(1) by (simp add: json_checks_def needs_json_def validate_json_def passed_check_def)
    then show ?thesis using True cs(2) Inr
      by (simp add: json_accepts_def passed_check_def required_fields_passed)
  qed
qed (simp add: json_checks_def needs_json_def)


definition answer_schema :: schema where
  "answer_schema = [(''type'', JStr ''object''), (''required'', JList [JStr ''n'']),
     (''properties'', JObj [(''n'', JObj [(''type'', JStr ''integer''), (''minimum'', JInt 1)])])]"

lemma answer_schema_ok: "schema_ok search answer_schema"
proof (rule schema_ok.intros)
  show "keywords_ok search answer_schema" by (simp add: keywords_ok_def answer_schema_def json_get_def keyword_holds_def is_text_def)
  fix n sub assume "(n, JObj sub) \<in> set (property_schemas answer_schema)"
  then have "sub = [(''type'', JStr ''integer''), (''minimum'', JInt 1)]" by (simp add: property_schemas_def answer_schema_def json_get_def)
  then show "schema_ok search sub"
    by (simp only:) (rule schema_ok.intros; simp add: keywords_ok_def json_get_def keyword_holds_def property_schemas_def)
qed (simp add: answer_schema_def json_get_def)


lemma first_error_Inl: "first_error rs = Inl e \<Longrightarrow> Inl e \<in> set rs"
  by (induction rs rule: first_error.induct) auto

lemma reject_names_keywords:
  "reject_unsupported v path = Inl err \<Longrightarrow> \<exists>ks p. err = SchemaUnsupported ks p \<and> ks \<noteq> []"
proof (induction "size v" arbitrary: v path rule: less_induct)
  case less
  obtain d where d: "v = JObj d" using less.prems reject_other[of v path] by (cases v) auto
  let ?ks = "sort (remdups (filter (\<lambda>k. k \<notin> set SUPPORTED_SCHEMA_KEYWORDS) (map fst d)))"
  show ?case
  proof (cases "?ks = []")
    case False
    have "reject_unsupported v path = Inl (SchemaUnsupported ?ks path)"
      by (subst reject_unsupported.simps) (simp only: d Let_def False json.case simp_thms if_True)
    then show ?thesis using less.prems False by (metis sum.inject(1))
  next
    case True
    let ?entry = "\<lambda>(k, v). case v of
      JObj e \<Rightarrow> if k = ''properties'' then first_error (map (\<lambda>(n, sub). reject_unsupported sub (path @ [Field (JStr n)])) e)
        else if k \<in> {''items'', ''additionalProperties''} then reject_unsupported v (path @ [Items]) else Inr ()
    | _ \<Rightarrow> Inr ()"
    have "first_error (map ?entry d) = Inl err" using less.prems by (subst (asm) reject_unsupported.simps) (simp only: d Let_def True json.case simp_thms if_False)
    from first_error_Inl[OF this] obtain k u where ku: "(k, u) \<in> set d" "?entry (k, u) = Inl err" by (auto simp del: split_paired_Ex)
    then obtain e where e: "u = JObj e" by (cases u) simp_all
    show ?thesis
    proof (cases "k = ''properties''")
      case True
      then have "first_error (map (\<lambda>(n, sub). reject_unsupported sub (path @ [Field (JStr n)])) e) = Inl err" using ku(2) e by simp
      from first_error_Inl[OF this] obtain n sub where "(n, sub) \<in> set e" "reject_unsupported sub (path @ [Field (JStr n)]) = Inl err" by auto
      moreover have "size sub < size v" using size_json_obj[of k e d n sub] ku(1) e calculation(1) by (simp add: d)
      ultimately show ?thesis using less.hyps by blast
    next
      case False
      then have "reject_unsupported (JObj e) (path @ [Items]) = Inl err" using ku(2) e by (simp split: if_splits)
      moreover have "size (JObj e) < size v" using size_in_obj[of k e d] ku(1) e by (simp add: d)
      ultimately show ?thesis using less.hyps by blast
    qed
  qed
qed

text \<open>Which errors a node can raise: never the refusal of a keyword.\<close>

definition no_refusal :: "validation_error + 'a \<Rightarrow> bool" where
  "no_refusal r \<longleftrightarrow> (\<forall>ks p. r \<noteq> Inl (SchemaUnsupported ks p))"

lemma no_refusal_Inr [simp]: "no_refusal (Inr x)" and no_refusal_PyError [simp]: "no_refusal (Inl PyError)"
  by (simp_all add: no_refusal_def)

lemma no_refusal_bind [intro]: "no_refusal r \<Longrightarrow> (\<And>x. r = Inr x \<Longrightarrow> no_refusal (f x)) \<Longrightarrow> no_refusal (bind_result r f)"
  by (cases r) (auto simp: no_refusal_def)

lemma no_refusal_traverse: "(\<And>x. x \<in> set xs \<Longrightarrow> no_refusal (f x)) \<Longrightarrow> no_refusal (traverse f xs)"
  by (induction xs) (auto intro!: no_refusal_bind)

lemma no_refusal_parts [simp]:
  "no_refusal (compare_with s k bad mk)" "no_refusal (contained v c)" "no_refusal (any_type v ts)" "no_refusal (check_pattern search t s)"
  "no_refusal (type_options e)" "no_refusal (required_names s)" "no_refusal (schema_properties s)"
proof -
  show "no_refusal (any_type v ts)" by (induction v ts rule: any_type.induct) simp_all
  show "no_refusal (contained v c)" by (cases c; cases v; simp)
qed (simp_all add: compare_with_def check_pattern_def type_options_def required_names_def schema_properties_def no_refusal_def
    split: option.split json.split sum.split)

lemma no_refusal_node: "no_refusal (check_node search v s path)"
proof (induction search v s path rule: check_node.induct)
  case (1 search v s path)
  have "no_refusal (check_type v s)"
    by (auto simp: check_type_def intro!: no_refusal_bind split: json.split)
  moreover have "no_refusal (check_values v s)" by (auto simp: check_values_def intro!: no_refusal_bind split: option.split)
  moreover have "no_refusal (check_required d s path)" for d
    by (auto simp: check_required_def lacks_def intro!: no_refusal_bind no_refusal_traverse split: json.split)
  moreover have "no_refusal (check_string search t s)" "no_refusal (check_number x s)" for t x
    by (auto simp: check_string_def check_number_def intro!: no_refusal_bind)
  ultimately show ?case
    unfolding check_node.simps[of search v s path]
    by (auto intro!: no_refusal_bind no_refusal_traverse 1 split: option.split json.split prod.split simp: in_set_enumerate_eq)
qed

lemma check_node_errors: "check_node search v s path = Inl e \<Longrightarrow> (\<forall>ks p. e \<noteq> SchemaUnsupported ks p)"
  using no_refusal_node[of search v s path] by (simp add: no_refusal_def)

text \<open>
  A schema the validator cannot fully check is refused, not under-validated: whenever some
  keyword anywhere under \<open>properties\<close>, \<open>items\<close> or \<open>additionalProperties\<close> is
  not implemented, validating any parseable output raises the error that names such keywords,
  and a schema with supported keywords only is never refused for its keywords.
\<close>

theorem unsupported_schema_refused:
  assumes "loads output = Inr j"
  shows "(\<not> all_supported (JObj s) \<longrightarrow>
      (\<exists>ks path. ks \<noteq> [] \<and> validate_output loads search output require_valid_json (Some s) names pattern max_chars =
         Inl (SchemaUnsupported ks path))) \<and>
    (all_supported (JObj s) \<longrightarrow>
      (\<forall>ks path. validate_output loads search output require_valid_json (Some s) names pattern max_chars \<noteq>
         Inl (SchemaUnsupported ks path)))"
proof (intro conjI impI)
  assume "\<not> all_supported (JObj s)"
  then obtain err where err: "reject_unsupported (JObj s) [] = Inl err"
    using reject_exact[of "JObj s" "[]"] by (cases "reject_unsupported (JObj s) []") auto
  then obtain ks p where e: "err = SchemaUnsupported ks p" "ks \<noteq> []" using reject_names_keywords by blast
  have "validate_output loads search output require_valid_json (Some s) names pattern max_chars = Inl err"
    using err assms by (simp add: validate_output_def json_checks_def validate_json_def validate_schema_def passed_check_def)
  then show "\<exists>ks path. ks \<noteq> [] \<and> validate_output loads search output require_valid_json (Some s) names pattern max_chars =
         Inl (SchemaUnsupported ks path)" using e by blast
next
  assume "all_supported (JObj s)"
  then have ok: "reject_unsupported (JObj s) [] = Inr ()" using reject_exact by blast
  show "\<forall>ks path. validate_output loads search output require_valid_json (Some s) names pattern max_chars \<noteq>
         Inl (SchemaUnsupported ks path)"
  proof (cases "check_node search j s []")
    case (Inl e)
    then have "validate_output loads search output require_valid_json (Some s) names pattern max_chars = Inl e"
      using assms ok by (simp add: validate_output_def json_checks_def validate_json_def validate_schema_def passed_check_def)
    then show ?thesis using check_node_errors[OF Inl] by auto
  qed (use assms ok in \<open>simp add: validate_output_def json_checks_def validate_json_def validate_schema_def passed_check_def Let_def\<close>)
qed

theorem unsupported_schema_refused_witness:
  "\<exists>ks path. validate_output (\<lambda>_. Inr JNull) (\<lambda>_ _. Inr True) ''null'' False (Some [(''oneOf'', JList [])]) [] None None =
     Inl (SchemaUnsupported ks path)"
proof -
  have "\<not> all_supported (JObj [(''oneOf'', JList [])])"
    by (subst all_supported_obj) (simp add: SUPPORTED_SCHEMA_KEYWORDS_def)
  then show ?thesis using unsupported_schema_refused[of "\<lambda>_. Inr JNull" "''null''" JNull "[(''oneOf'', JList [])]"] by fast
qed

end
