(* ===== verification/Priority.thy ===== *)
theory Priority
  imports Float64
begin

section \<open>Job classes, priority bands and ageing\<close>

text \<open>
  Models \<^verbatim>\<open>src/src/loadcoach/domain/priority.py\<close>. Waiting times and rates are Python floats, so the
  ageing arithmetic is rounded after every operation; the aged points are floored to an integer.
  The properties bound the effective priority, show that it never falls while a job waits, and
  that ageing cannot push a job past the classes its overflow allowance does not reach.
\<close>

datatype JobClass = INTERACTIVE | NORMAL | BACKGROUND | BATCH

fun class_value :: "JobClass \<Rightarrow> string" where
  "class_value INTERACTIVE = ''interactive''"
| "class_value NORMAL = ''normal''"
| "class_value BACKGROUND = ''background''"
| "class_value BATCH = ''batch''"

definition BANDS :: "(JobClass, int \<times> int) dict" where
  "BANDS = [(INTERACTIVE, (800, 999)), (NORMAL, (400, 799)), (BACKGROUND, (100, 399)), (BATCH, (0, 99))]"

definition AGEING_EPSILON_POINTS :: float64 where
  "AGEING_EPSILON_POINTS = fl (1 / 1000000)"

definition STARVATION_FRACTION_OF_MAX_WAIT :: float64 where
  "STARVATION_FRACTION_OF_MAX_WAIT = fl (1 / 2)"

definition band_of :: "JobClass \<Rightarrow> int \<times> int" where
  "band_of job_class = the (map_of BANDS job_class)"

datatype priority_error = PriorityOutsideBand int JobClass int int

definition base_priority :: "JobClass \<Rightarrow> int option \<Rightarrow> priority_error + int" where
  "base_priority job_class requested =
     (case band_of job_class of (bottom, upper) \<Rightarrow>
       (case requested of
          None \<Rightarrow> Inr bottom
        | Some r \<Rightarrow>
            if r < bottom \<or> r > upper then Inl (PriorityOutsideBand r job_class bottom upper)
            else Inr r))"

definition ageing_cap :: "JobClass \<Rightarrow> int \<Rightarrow> int" where
  "ageing_cap job_class overflow_allowance = snd (band_of job_class) + overflow_allowance"

definition effective_priority :: "int \<Rightarrow> JobClass \<Rightarrow> float64 \<Rightarrow> float64 \<Rightarrow> int \<Rightarrow> int" where
  "effective_priority base job_class waiting_seconds ageing_priority_per_minute overflow_allowance =
     (let minutes = fl (max waiting_seconds 0 / 60);
          aged = base + \<lfloor>fl (fl (minutes * ageing_priority_per_minute) + AGEING_EPSILON_POINTS)\<rfloor>
      in min aged (ageing_cap job_class overflow_allowance))"

definition starvation_threshold_seconds :: "int \<Rightarrow> float64" where
  "starvation_threshold_seconds max_wait_seconds =
     fl (fl (of_int max_wait_seconds) * STARVATION_FRACTION_OF_MAX_WAIT)"

subsection \<open>Facts about bands and aged points\<close>

lemma band_of_simps [simp]:
  "band_of INTERACTIVE = (800, 999)" "band_of NORMAL = (400, 799)"
  "band_of BACKGROUND = (100, 399)" "band_of BATCH = (0, 99)"
  by (simp_all add: band_of_def BANDS_def)

lemma base_priority_in_band:
  "base_priority c r = Inr b \<Longrightarrow> fst (band_of c) \<le> b \<and> b \<le> snd (band_of c)"
  by (cases c) (auto simp: base_priority_def split: option.splits if_splits)

lemma epsilon_bounds: "0 \<le> AGEING_EPSILON_POINTS" "AGEING_EPSILON_POINTS < 1"
  unfolding AGEING_EPSILON_POINTS_def by (simp add: fl_nonneg) code_simp

text \<open>The points a job has aged by, before the cap.\<close>

definition aged_points :: "float64 \<Rightarrow> float64 \<Rightarrow> int" where
  "aged_points w rate = \<lfloor>fl (fl (fl (max w 0 / 60) * rate) + AGEING_EPSILON_POINTS)\<rfloor>"

lemma effective_priority_aged:
  "effective_priority base c w rate overflow = min (base + aged_points w rate) (ageing_cap c overflow)"
  by (simp add: effective_priority_def aged_points_def Let_def)

lemma aged_points_nonneg:
  assumes "0 \<le> rate" shows "0 \<le> aged_points w rate"
proof -
  have "0 \<le> fl (fl (fl (max w 0 / 60) * rate) + AGEING_EPSILON_POINTS)"
    using assms epsilon_bounds by (intro fl_nonneg add_nonneg_nonneg mult_nonneg_nonneg) auto
  then show ?thesis by (simp add: aged_points_def)
qed

lemma aged_points_mono:
  assumes "0 \<le> rate" "w \<le> w'" shows "aged_points w rate \<le> aged_points w' rate"
  unfolding aged_points_def using assms
  by (intro floor_fl_mono add_right_mono fl_mono mult_right_mono divide_right_mono) auto

lemma aged_points_reach:
  assumes "1 \<le> rate" "0 \<le> n" "n \<le> 2 ^ 53" "of_int (60 * n) \<le> w"
  shows "n \<le> aged_points w rate"
proof -
  have w: "of_int n \<le> max w 0 / 60" using assms by simp
  then have m: "of_int n \<le> fl (max w 0 / 60)" using assms by (intro double.rnd_ge_int) auto
  have "of_int n * 1 \<le> fl (max w 0 / 60) * rate"
    using m assms by (intro mult_mono) auto
  then have "of_int n \<le> fl (fl (max w 0 / 60) * rate)"
    using assms by (intro double.rnd_ge_int) auto
  then show ?thesis unfolding aged_points_def
    using assms epsilon_bounds by (intro floor_fl_ge) auto
qed

text \<open>
  The effective priority of a job whose base lies in its class's band (the only bases
  \<open>base_priority\<close> returns) is never below the base and never above the cap, whatever the
  waiting time, a negative one of a clock that stepped back included; it never decreases as the
  job waits.
\<close>

theorem effective_priority_bounds:
  assumes "base_priority c requested = Inr base" "0 \<le> rate" "0 \<le> overflow"
  shows "base \<le> effective_priority base c w rate overflow \<and>
    effective_priority base c w rate overflow \<le> ageing_cap c overflow \<and>
    (w \<le> w' \<longrightarrow>
      effective_priority base c w rate overflow \<le> effective_priority base c w' rate overflow)"
  using base_priority_in_band[OF assms(1)] aged_points_nonneg[OF assms(2), of w]
    aged_points_mono[OF assms(2), of w w'] assms(3)
  by (auto simp: effective_priority_aged ageing_cap_def min_def)

theorem effective_priority_bounds_witness:
  "(150 :: int) \<le> effective_priority 150 BACKGROUND (- 5) 1 100 \<and>
   effective_priority 150 BACKGROUND (- 5) 1 100 \<le> effective_priority 150 BACKGROUND 61 1 100 \<and>
   effective_priority 150 BACKGROUND 61 1 100 = 151"
proof -
  have b: "base_priority BACKGROUND (Some 150) = Inr 150" by (simp add: base_priority_def)
  have "effective_priority 150 BACKGROUND 61 1 100 = 151" by code_simp
  then show ?thesis
    using effective_priority_bounds[OF b, of 1 100 "- 5" 61] by simp
qed

text \<open>
  With at least one point per minute a waiting job reaches its cap: after as many minutes as
  the cap is above its base its effective priority is the cap, for every cap a 53-bit integer
  can hold (so the rounding of the arithmetic never delays it).
\<close>

theorem ageing_reaches_cap:
  assumes "1 \<le> rate" "base \<le> ageing_cap c overflow" "ageing_cap c overflow - base \<le> 2 ^ 53"
    and "of_int (60 * (ageing_cap c overflow - base)) \<le> w"
  shows "effective_priority base c w rate overflow = ageing_cap c overflow"
  using aged_points_reach[OF assms(1) _ assms(3,4)] assms(2)
  by (simp add: effective_priority_aged)

theorem ageing_reaches_cap_witness:
  "effective_priority 100 BACKGROUND 23940 1 100 = 499"
  using ageing_reaches_cap[of 1 100 BACKGROUND 100 23940] by (simp add: ageing_cap_def)

text \<open>
  With the shipped allowance of 100 points, an aged background or batch job never outranks
  a fresh interactive one and an aged batch job never outranks a fresh normal one, however long
  they wait and at any rate; a background job that has waited 24000 seconds outranks every
  fresh normal job with a priority below 499.
\<close>

theorem ageing_class_order:
  assumes "base_priority c r = Inr base" "base_priority INTERACTIVE r' = Inr fresh"
    "base_priority NORMAL r'' = Inr normal"
  shows "(c \<in> {BACKGROUND, BATCH} \<longrightarrow> effective_priority base c w rate 100 < fresh) \<and>
    (c = BATCH \<longrightarrow> effective_priority base c w rate 100 < normal) \<and>
    (c = BACKGROUND \<and> 1 \<le> rate \<and> 24000 \<le> w \<and> normal < 499 \<longrightarrow>
      normal < effective_priority base c w rate 100)"
proof -
  have "effective_priority base c w rate 100 = 499"
    if "c = BACKGROUND" "1 \<le> rate" "24000 \<le> w"
  proof -
    have b: "100 \<le> base \<and> base \<le> 399" using base_priority_in_band[OF assms(1)] that by simp
    have "of_int (60 * (499 - base)) \<le> w"
    proof -
      have "60 * (499 - base) \<le> 24000" using b by simp
      then have "of_int (60 * (499 - base)) \<le> (24000 :: rat)"
        by (metis of_int_le_iff of_int_numeral)
      then show ?thesis using that by linarith
    qed
    then have "499 - base \<le> aged_points w rate"
      using that b by (intro aged_points_reach) auto
    then show ?thesis using that by (simp add: effective_priority_aged ageing_cap_def)
  qed
  moreover have "effective_priority base c w rate 100 \<le> snd (band_of c) + 100"
    by (simp add: effective_priority_aged ageing_cap_def)
  ultimately show ?thesis
    using base_priority_in_band[OF assms(2)] base_priority_in_band[OF assms(3)] by auto
qed

theorem ageing_class_order_witness:
  "(450 :: int) < effective_priority 100 BACKGROUND 24000 1 100 \<and>
   effective_priority 100 BACKGROUND 24000 1 100 < 800"
proof -
  have b: "base_priority BACKGROUND None = Inr 100" "base_priority INTERACTIVE None = Inr 800"
    "base_priority NORMAL (Some 450) = Inr 450" by (simp_all add: base_priority_def)
  show ?thesis using ageing_class_order[OF b, of 24000 1] by simp
qed

end
