(* ===== verification/Submission.thy ===== *)
theory Submission
  imports Subject Priority
begin

section \<open>Submissions and their persisted form\<close>

text \<open>
  Models the transcript and tool codecs of \<^verbatim>\<open>src/src/loadcoach/services/execution.py\<close> and \<open>JobSubmission\<close> of
  \<^verbatim>\<open>src/src/loadcoach/services/queue.py\<close>: what a job row stores of a submission (\<open>as_request_json\<close>) and what a
  worker rebuilds from it (\<open>from_request_json\<close>), possibly after a restart. \<open>Message\<close>,
  \<open>ToolCall\<close> and \<open>ToolDefinition\<close> are the ModelRack types with the fields the code reads; what
  their constructors accept (\<open>known_role\<close>, \<open>valid_message\<close>) and Python's \<open>str\<close> and
  \<open>dict\<close> of values this application never writes are parameters. A stored value of a type the
  application never writes where the code casts is the error \<open>Foreign\<close>.
\<close>

record ToolCall =
  call_id :: string
  call_name :: string
  call_arguments :: "(string \<times> json) list"
  raw_arguments :: "string option"

record Message =
  role :: string
  content :: string
  tool_call_id :: "string option"
  msg_tool_calls :: "ToolCall list"

record ToolDefinition =
  tool_name :: string
  tool_description :: string
  tool_parameters :: "(string \<times> json) list"

record JobSubmission =
  task :: string
  prompt :: "string option"
  system :: "string option"
  messages :: "Message list option"
  response_format :: "string option"
  sampling :: "(string \<times> json) list"
  overrides :: "RuntimeOverrides option"
  tools :: "ToolDefinition list"
  sub_job_class :: JobClass
  sub_priority :: "int option"
  sub_max_wait_seconds :: "int option"
  sub_idempotent :: bool
  sub_idempotency_key :: "string option"
  sub_data_classification :: "string option"
  sub_source :: string
  sub_stream :: bool

record GenerateRequest =
  gen_task :: string
  gen_system :: "string option"
  gen_prompt :: "string option"
  gen_messages :: "Message list option"
  gen_response_format :: "string option"
  gen_sampling :: "(string \<times> json) list"
  gen_overrides :: "RuntimeOverrides option"
  gen_tools :: "ToolDefinition list"
  gen_data_classification :: "string option"
  gen_source :: string
  gen_idempotency_key :: "string option"
  gen_stream :: bool

record conversions =
  known_role :: "string \<Rightarrow> bool"
  valid_message :: "Message \<Rightarrow> bool"
  str_of_json :: "json \<Rightarrow> string"
  dict_of_json :: "json \<Rightarrow> (string \<times> json) list option"

datatype payload_error = KeyError string | ValueError string | MessageRefused Message | Foreign json

subsection \<open>The codecs\<close>

definition py_str :: "conversions \<Rightarrow> json \<Rightarrow> string" where
  "py_str cv j = (case j of JStr s \<Rightarrow> s | _ \<Rightarrow> str_of_json cv j)"

definition py_dict :: "conversions \<Rightarrow> json \<Rightarrow> payload_error + (string \<times> json) list" where
  "py_dict cv j = (case j of JObj d \<Rightarrow> Inr d
     | _ \<Rightarrow> (case dict_of_json cv j of None \<Rightarrow> Inl (Foreign j) | Some d \<Rightarrow> Inr d))"

definition get_item :: "(string \<times> json) list \<Rightarrow> string \<Rightarrow> payload_error + json" where
  "get_item d k = (case map_of d k of None \<Rightarrow> Inl (KeyError k) | Some v \<Rightarrow> Inr v)"

definition opt_str :: "json \<Rightarrow> payload_error + string option" where
  "opt_str j = (case j of JNull \<Rightarrow> Inr None | JStr s \<Rightarrow> Inr (Some s) | _ \<Rightarrow> Inl (Foreign j))"

definition opt_int :: "json \<Rightarrow> payload_error + int option" where
  "opt_int j = (case j of JNull \<Rightarrow> Inr None | JInt i \<Rightarrow> Inr (Some i) | _ \<Rightarrow> Inl (Foreign j))"

definition opt_bool :: "json \<Rightarrow> payload_error + bool option" where
  "opt_bool j = (case j of JNull \<Rightarrow> Inr None | JBool b \<Rightarrow> Inr (Some b) | _ \<Rightarrow> Inl (Foreign j))"

definition tool_call_json :: "ToolCall \<Rightarrow> json" where
  "tool_call_json call = JObj
     [(''id'', JStr (call_id call)), (''name'', JStr (call_name call)),
      (''arguments'', case raw_arguments call of Some raw \<Rightarrow> JStr raw | None \<Rightarrow> JObj (call_arguments call))]"

definition message_json :: "Message \<Rightarrow> json" where
  "message_json message = JObj
     ([(''role'', JStr (role message)), (''content'', JStr (content message)),
       (''tool_call_id'', of_opt_str (tool_call_id message))] @
      (if msg_tool_calls message \<noteq> []
       then [(''tool_calls'', JList (map tool_call_json (msg_tool_calls message)))] else []))"

definition tool_call_of_json :: "conversions \<Rightarrow> (string \<times> json) list \<Rightarrow> payload_error + ToolCall" where
  "tool_call_of_json cv entry =
     (let arguments = (case map_of entry ''arguments'' of None \<Rightarrow> JObj [] | Some a \<Rightarrow> a) in
      bind_result (get_item entry ''id'') (\<lambda>i.
      bind_result (get_item entry ''name'') (\<lambda>n.
      bind_result (case arguments of JStr s \<Rightarrow> Inr [] | _ \<Rightarrow> py_dict cv arguments) (\<lambda>args.
        Inr \<lparr>call_id = py_str cv i, call_name = py_str cv n, call_arguments = args,
             raw_arguments = (case arguments of JStr s \<Rightarrow> Some s | _ \<Rightarrow> None)\<rparr>))))"

definition objects_of :: "json list \<Rightarrow> (string \<times> json) list list" where
  "objects_of = List.map_filter (\<lambda>j. case j of JObj d \<Rightarrow> Some d | _ \<Rightarrow> None)"

definition tool_calls_of_json :: "conversions \<Rightarrow> json \<Rightarrow> payload_error + ToolCall list" where
  "tool_calls_of_json cv payload =
     (case payload of JList entries \<Rightarrow> traverse (tool_call_of_json cv) (objects_of entries) | _ \<Rightarrow> Inr [])"

definition message_of_json :: "conversions \<Rightarrow> json \<Rightarrow> payload_error + Message" where
  "message_of_json cv turn =
     (case turn of
        JObj d \<Rightarrow>
          bind_result (get_item d ''role'') (\<lambda>r.
          if \<not> known_role cv (py_str cv r) then Inl (ValueError (py_str cv r))
          else bind_result (get_item d ''content'') (\<lambda>c.
          bind_result (opt_str (json_get d ''tool_call_id'')) (\<lambda>tid.
          bind_result (tool_calls_of_json cv (json_get d ''tool_calls'')) (\<lambda>calls.
          let m = \<lparr>role = py_str cv r, content = py_str cv c, tool_call_id = tid, msg_tool_calls = calls\<rparr>
          in if valid_message cv m then Inr m else Inl (MessageRefused m)))))
      | _ \<Rightarrow> Inl (Foreign turn))"

definition messages_of_json :: "conversions \<Rightarrow> json \<Rightarrow> payload_error + Message list" where
  "messages_of_json cv payload =
     (case payload of JList turns \<Rightarrow> traverse (message_of_json cv) turns | _ \<Rightarrow> Inr [])"

definition tool_definitions_json :: "ToolDefinition list \<Rightarrow> json" where
  "tool_definitions_json ts = JList (map (\<lambda>t. JObj
     [(''name'', JStr (tool_name t)), (''description'', JStr (tool_description t)),
      (''parameters'', JObj (tool_parameters t))]) ts)"

definition tool_definition_of_json :: "conversions \<Rightarrow> (string \<times> json) list \<Rightarrow> payload_error + ToolDefinition" where
  "tool_definition_of_json cv entry =
     bind_result (py_dict cv (case map_of entry ''parameters'' of None \<Rightarrow> JObj [] | Some p \<Rightarrow> p)) (\<lambda>params.
       Inr \<lparr>tool_name = py_str cv (json_get entry ''name''),
            tool_description = (case map_of entry ''description'' of None \<Rightarrow> [] | Some x \<Rightarrow> py_str cv x),
            tool_parameters = params\<rparr>)"

definition tool_definitions_of_json :: "conversions \<Rightarrow> json \<Rightarrow> payload_error + ToolDefinition list" where
  "tool_definitions_of_json cv payload =
     (case payload of
        JList entries \<Rightarrow>
          traverse (tool_definition_of_json cv) (filter (\<lambda>e. json_true (json_get e ''name'')) (objects_of entries))
      | _ \<Rightarrow> Inr [])"

subsection \<open>The submission\<close>

definition user_message :: "string \<Rightarrow> string \<Rightarrow> Message" where
  "user_message r c = \<lparr>role = r, content = c, tool_call_id = None, msg_tool_calls = []\<rparr>"

definition transcript :: "JobSubmission \<Rightarrow> Message list" where
  "transcript s =
     (case messages s of
        Some ms \<Rightarrow> ms
      | None \<Rightarrow> (case system s of None \<Rightarrow> [] | Some t \<Rightarrow> [user_message ''system'' t]) @
                [user_message ''user'' (case prompt s of None \<Rightarrow> [] | Some p \<Rightarrow> p)])"

definition gen_transcript :: "GenerateRequest \<Rightarrow> Message list" where
  "gen_transcript r =
     (case gen_messages r of
        Some ms \<Rightarrow> ms
      | None \<Rightarrow> (case gen_system r of None \<Rightarrow> [] | Some t \<Rightarrow> [user_message ''system'' t]) @
                [user_message ''user'' (case gen_prompt r of None \<Rightarrow> [] | Some p \<Rightarrow> p)])"

definition of_opt_bool :: "bool option \<Rightarrow> json" where
  "of_opt_bool b = (case b of None \<Rightarrow> JNull | Some x \<Rightarrow> JBool x)"

definition overrides_json :: "RuntimeOverrides option \<Rightarrow> json" where
  "overrides_json ov =
     (case ov of
        None \<Rightarrow> JNull
      | Some o' \<Rightarrow> JObj
          [(''model'', of_opt_str (override_model o')), (''adapter'', of_opt_str (override_adapter o')),
           (''ignore_residency'', JBool (ignore_residency o')),
           (''runtime_profile'', case override_profile o' of
              None \<Rightarrow> JNull
            | Some p \<Rightarrow> JObj [(''context_size'', of_opt_int (context_size p)),
                (''kv_cache_precision'', of_opt_str (kv_cache_precision p)),
                (''flash_attention'', of_opt_bool (flash_attention p)), (''keep_alive'', of_opt_str (keep_alive p))]),
           (''disallow_fallback'', JBool (disallow_fallback o')), (''require_evidence'', JBool (require_evidence o'))])"

definition as_request_json :: "JobSubmission \<Rightarrow> (string \<times> json) list" where
  "as_request_json s =
     [(''task'', JStr (task s)), (''messages'', JList (map message_json (transcript s))),
      (''response_format'', of_opt_str (response_format s)), (''sampling'', JObj (sampling s)),
      (''overrides'', overrides_json (overrides s)), (''tools'', tool_definitions_json (tools s)),
      (''data_classification'', of_opt_str (sub_data_classification s)), (''stream'', JBool (sub_stream s))]"

definition profile_of_json :: "json \<Rightarrow> payload_error + RuntimeProfile option" where
  "profile_of_json j =
     (case j of
        JNull \<Rightarrow> Inr None
      | JObj d \<Rightarrow>
          bind_result (opt_int (json_get d ''context_size'')) (\<lambda>c.
          bind_result (opt_str (json_get d ''kv_cache_precision'')) (\<lambda>k.
          bind_result (opt_bool (json_get d ''flash_attention'')) (\<lambda>f.
          bind_result (opt_str (json_get d ''keep_alive'')) (\<lambda>a.
            Inr (Some (empty_profile\<lparr>context_size := c, kv_cache_precision := k, flash_attention := f,
              keep_alive := a\<rparr>))))))
      | _ \<Rightarrow> Inl (Foreign j))"

definition overrides_of_json :: "json \<Rightarrow> payload_error + RuntimeOverrides option" where
  "overrides_of_json j =
     (case j of
        JNull \<Rightarrow> Inr None
      | JObj d \<Rightarrow>
          bind_result (profile_of_json (json_get d ''runtime_profile'')) (\<lambda>p.
          bind_result (opt_str (json_get d ''model'')) (\<lambda>m.
          bind_result (opt_str (json_get d ''adapter'')) (\<lambda>a.
            Inr (Some \<lparr>override_model = m, override_adapter = a, override_profile = p,
              disallow_fallback = json_true (json_get d ''disallow_fallback''),
              require_evidence = json_true (json_get d ''require_evidence''),
              ignore_residency = json_true (json_get d ''ignore_residency'')\<rparr>))))
      | _ \<Rightarrow> Inl (Foreign j))"

definition from_request_json :: "conversions \<Rightarrow> (string \<times> json) list \<Rightarrow> JobClass \<Rightarrow> int \<Rightarrow> int option \<Rightarrow> bool \<Rightarrow>
    string option \<Rightarrow> string \<Rightarrow> payload_error + JobSubmission" where
  "from_request_json cv payload job_class priority max_wait idem key src =
     bind_result (overrides_of_json (json_get payload ''overrides'')) (\<lambda>ov.
     bind_result (messages_of_json cv (json_get payload ''messages'')) (\<lambda>ms.
     bind_result (get_item payload ''task'') (\<lambda>t.
     bind_result (tool_definitions_of_json cv (json_get payload ''tools'')) (\<lambda>ts.
     bind_result (opt_str (json_get payload ''response_format'')) (\<lambda>rf.
     bind_result (py_dict cv (case map_of payload ''sampling'' of None \<Rightarrow> JObj [] | Some x \<Rightarrow> x)) (\<lambda>sm.
     bind_result (opt_str (json_get payload ''data_classification'')) (\<lambda>dc.
       Inr \<lparr>task = py_str cv t, prompt = None, system = None, messages = Some ms, response_format = rf,
            sampling = sm, overrides = ov, tools = ts, sub_job_class = job_class, sub_priority = Some priority,
            sub_max_wait_seconds = max_wait, sub_idempotent = idem, sub_idempotency_key = key,
            sub_data_classification = dc, sub_source = src,
            sub_stream = json_true (json_get payload ''stream'')\<rparr>)))))))"

definition to_generate_request :: "JobSubmission \<Rightarrow> GenerateRequest" where
  "to_generate_request s =
     \<lparr>gen_task = task s, gen_system = None, gen_prompt = None, gen_messages = Some (transcript s), gen_response_format = response_format s,
      gen_sampling = sampling s, gen_overrides = overrides s, gen_tools = tools s,
      gen_data_classification = sub_data_classification s, gen_source = sub_source s,
      gen_idempotency_key = sub_idempotency_key s, gen_stream = sub_stream s\<rparr>"

subsection \<open>What survives the wait in the queue\<close>

text \<open>What the persisted form keeps of a profile override: four of its fields.\<close>

definition persisted_profile :: "RuntimeProfile \<Rightarrow> RuntimeProfile" where
  "persisted_profile p = empty_profile\<lparr>context_size := context_size p, kv_cache_precision := kv_cache_precision p,
     flash_attention := flash_attention p, keep_alive := keep_alive p\<rparr>"

definition persisted_overrides :: "RuntimeOverrides \<Rightarrow> RuntimeOverrides" where
  "persisted_overrides ov = ov\<lparr>override_profile := map_option persisted_profile (override_profile ov)\<rparr>"

text \<open>What the constructors of the ModelRack types guarantee of a submission's turns and tools.\<close>

definition well_formed_call :: "ToolCall \<Rightarrow> bool" where
  "well_formed_call c \<longleftrightarrow> (raw_arguments c \<noteq> None \<longrightarrow> call_arguments c = [])"

definition well_formed_submission :: "conversions \<Rightarrow> JobSubmission \<Rightarrow> bool" where
  "well_formed_submission cv s \<longleftrightarrow>
     list_all (\<lambda>m. known_role cv (role m) \<and> valid_message cv m \<and> list_all well_formed_call (msg_tool_calls m)) (transcript s) \<and>
     list_all (\<lambda>t. tool_name t \<noteq> []) (tools s)"

named_theorems codec \<open>decoding of what the encoders write\<close>

lemma opt_codecs [codec]: "opt_str (of_opt_str x) = Inr x" "opt_int (of_opt_int y) = Inr y" "opt_bool (of_opt_bool z) = Inr z"
  by (auto simp: opt_str_def of_opt_str_def opt_int_def of_opt_int_def opt_bool_def of_opt_bool_def split: option.splits)

lemma py_codecs [codec, simp]: "py_str cv (JStr s) = s" "py_dict cv (JObj d) = Inr d"
  by (simp_all add: py_str_def py_dict_def)

lemma traverse_map: "(\<And>x. x \<in> set xs \<Longrightarrow> f (g x) = Inr x) \<Longrightarrow> traverse f (map g xs) = Inr xs"
  by (induction xs) simp_all

lemma objects_of_map: "objects_of (map (\<lambda>x. JObj (f x)) xs) = map f xs"
  by (induction xs) (simp_all add: objects_of_def)

definition call_entry :: "ToolCall \<Rightarrow> (string \<times> json) list" where
  "call_entry call =
     [(''id'', JStr (call_id call)), (''name'', JStr (call_name call)),
      (''arguments'', case raw_arguments call of Some raw \<Rightarrow> JStr raw | None \<Rightarrow> JObj (call_arguments call))]"

lemma tool_call_codec: "well_formed_call c \<Longrightarrow> tool_call_of_json cv (call_entry c) = Inr c"
  by (cases "raw_arguments c") (simp_all add: tool_call_of_json_def call_entry_def get_item_def Let_def well_formed_call_def)

lemma tool_calls_codec:
  assumes "list_all well_formed_call cs" shows "tool_calls_of_json cv (JList (map tool_call_json cs)) = Inr cs"
proof -
  have "objects_of (map tool_call_json cs) = map call_entry cs"
    unfolding tool_call_json_def call_entry_def by (rule objects_of_map)
  then show ?thesis using assms
    by (simp add: tool_calls_of_json_def) (rule traverse_map, simp add: tool_call_codec list_all_iff)
qed

lemma message_codec:
  assumes "known_role cv (role m)" "valid_message cv m" "list_all well_formed_call (msg_tool_calls m)"
  shows "message_of_json cv (message_json m) = Inr m"
proof (cases "msg_tool_calls m = []")
  case True
  then show ?thesis using assms
    by (cases m) (simp add: message_of_json_def message_json_def get_item_def json_get_def codec tool_calls_of_json_def)
next
  case False
  then show ?thesis using assms tool_calls_codec[OF assms(3), of cv]
    by (cases m) (simp add: message_of_json_def message_json_def get_item_def json_get_def codec)
qed

lemma messages_codec:
  assumes "list_all (\<lambda>m. known_role cv (role m) \<and> valid_message cv m \<and> list_all well_formed_call (msg_tool_calls m)) ms"
  shows "messages_of_json cv (JList (map message_json ms)) = Inr ms"
  using assms by (simp add: messages_of_json_def) (rule traverse_map, simp add: message_codec list_all_iff)

lemma tool_definitions_codec:
  assumes "list_all (\<lambda>t. tool_name t \<noteq> []) ts"
  shows "tool_definitions_of_json cv (tool_definitions_json ts) = Inr ts"
proof -
  let ?entry = "\<lambda>t. [(''name'', JStr (tool_name t)), (''description'', JStr (tool_description t)),
      (''parameters'', JObj (tool_parameters t))]"
  have "filter (\<lambda>e. json_true (json_get e ''name'')) (map ?entry ts) = map ?entry ts"
    using assms by (auto simp: filter_id_conv json_get_def list_all_iff)
  moreover have "traverse (tool_definition_of_json cv) (map ?entry ts) = Inr ts"
    by (rule traverse_map) (simp add: tool_definition_of_json_def json_get_def)
  ultimately show ?thesis
    by (simp add: tool_definitions_of_json_def tool_definitions_json_def objects_of_map)
qed

lemma overrides_codec: "overrides_of_json (overrides_json ov) = Inr (map_option persisted_overrides ov)"
proof (cases ov)
  case (Some x)
  have "profile_of_json (case override_profile x of None \<Rightarrow> JNull
      | Some p \<Rightarrow> JObj [(''context_size'', of_opt_int (context_size p)),
          (''kv_cache_precision'', of_opt_str (kv_cache_precision p)),
          (''flash_attention'', of_opt_bool (flash_attention p)), (''keep_alive'', of_opt_str (keep_alive p))]) =
      Inr (map_option persisted_profile (override_profile x))"
    by (cases "override_profile x") (simp_all add: profile_of_json_def json_get_def codec persisted_profile_def)
  then show ?thesis
    by (cases x) (simp add: Some overrides_of_json_def overrides_json_def json_get_def codec persisted_overrides_def)
qed (simp add: overrides_of_json_def overrides_json_def)

lemma request_codec:
  assumes "well_formed_submission cv s"
  shows "from_request_json cv (as_request_json s) (sub_job_class s) pr mw (sub_idempotent s)
      (sub_idempotency_key s) (sub_source s) =
    Inr (s\<lparr>prompt := None, system := None, messages := Some (transcript s),
      overrides := map_option persisted_overrides (overrides s), sub_priority := Some pr, sub_max_wait_seconds := mw\<rparr>)"
proof -
  have m: "messages_of_json cv (JList (map message_json (transcript s))) = Inr (transcript s)"
    and t: "tool_definitions_of_json cv (tool_definitions_json (tools s)) = Inr (tools s)"
    using assms messages_codec tool_definitions_codec by (auto simp: well_formed_submission_def)
  show ?thesis
    by (simp add: from_request_json_def as_request_json_def json_get_def get_item_def overrides_codec m t codec)
qed

text \<open>
  C21. A worker that claims a job, however long it waited, executes what was submitted: the
  request rebuilt from the row has the submission's task, transcript (tool calls with arguments
  the model malformed included), tools, sampling, format, classification, adapter and model
  overrides. The one exception is a runtime profile override, of which the row keeps the context
  size, cache precision, flash attention and keep-alive and drops every other field.
\<close>

theorem submission_roundtrip:
  assumes "well_formed_submission cv s"
  shows "\<exists>s'. from_request_json cv (as_request_json s) (sub_job_class s) pr mw (sub_idempotent s)
      (sub_idempotency_key s) (sub_source s) = Inr s' \<and>
    to_generate_request s' = (to_generate_request s)\<lparr>gen_overrides := map_option persisted_overrides (overrides s)\<rparr> \<and>
    sub_job_class s' = sub_job_class s \<and> sub_priority s' = Some pr \<and> sub_max_wait_seconds s' = mw \<and>
    sub_idempotent s' = sub_idempotent s"
  unfolding request_codec[OF assms] by (simp add: to_generate_request_def transcript_def)

definition plain_conversions :: conversions where
  "plain_conversions = \<lparr>known_role = (\<lambda>r. r \<in> {''system'', ''user'', ''assistant'', ''tool''}),
     valid_message = (\<lambda>m. msg_tool_calls m \<noteq> [] \<longrightarrow> role m = ''assistant''),
     str_of_json = (\<lambda>_. []), dict_of_json = (\<lambda>_. None)\<rparr>"

definition pinned_submission :: JobSubmission where
  "pinned_submission = \<lparr>task = ''chat'', prompt = Some ''hi'', system = None, messages = None, response_format = None,
     sampling = [], overrides = Some \<lparr>override_model = None, override_adapter = Some ''a'',
       override_profile = Some (empty_profile\<lparr>context_size := Some 4096, gpu_layers := Some 20\<rparr>),
       disallow_fallback = True, require_evidence = False, ignore_residency = False\<rparr>,
     tools = [], sub_job_class = NORMAL, sub_priority = None, sub_max_wait_seconds = None, sub_idempotent = True,
     sub_idempotency_key = None, sub_data_classification = None, sub_source = ''app'', sub_stream = False\<rparr>"

theorem submission_roundtrip_witness:
  "\<exists>s' ov p. from_request_json plain_conversions (as_request_json pinned_submission) NORMAL 400 None True None ''app'' = Inr s' \<and>
     overrides s' = Some ov \<and> override_adapter ov = Some ''a'' \<and> override_profile ov = Some p \<and>
     context_size p = Some 4096 \<and> gpu_layers p = None"
proof -
  have "well_formed_submission plain_conversions pinned_submission"
    by (simp add: well_formed_submission_def plain_conversions_def pinned_submission_def transcript_def user_message_def)
  from submission_roundtrip[OF this, of 400 None] show ?thesis
    by (auto simp: pinned_submission_def to_generate_request_def persisted_overrides_def persisted_profile_def
        empty_profile_def)
qed

end
