(* ===== verification/Attempts.thy ===== *)
theory Attempts
  imports Validation Ranking Retry_Policy Submission
begin

section \<open>One attempt on one candidate\<close>

text \<open>
  Models the part of \<^verbatim>\<open>src/src/loadcoach/services/execution.py\<close> that makes one provider call and judges it
  (\<open>run_attempt\<close> and what it calls), the corrective retry and the assembly of streamed tool
  calls. The provider is the ModelRack package: \<open>provider_api\<close> holds what a call does (the
  request is refused while it is built, or events arrive and then possibly an error is raised)
  and what the code asks about an error. The prompt pack's \<open>render\<close>, \<open>sha256\<close>,
  \<open>json.loads\<close> and \<open>re.search\<close> are parameters; the milliseconds since the call started
  at the n-th event are the argument \<open>elapsed\<close>. The chunks handed to \<open>on_chunk\<close> are returned.
\<close>

record GenerationResult =
  res_input_tokens :: "json option"
  res_output_tokens :: "json option"
  res_cache_write_tokens :: "json option"
  res_cache_read_tokens :: "json option"
  res_thinking_tokens :: "json option"
  res_finish_reason :: string

datatype 'e stream_event =
    TokenDelta string
  | ThinkingDelta string
  | ToolCallDelta int "string option" "string option" string
  | StreamCompleted GenerationResult
  | StreamFailed 'e string

record ToolFragment =
  frag_call_index :: int
  frag_id :: "string option"
  frag_name :: "string option"
  frag_arguments :: string

datatype StreamChunk =
    TokenChunk string nat
  | ThinkingChunk string nat
  | ToolCallChunk ToolFragment

record SamplingParameters =
  temperature :: json
  max_output_tokens :: json
  top_p :: json
  seed :: json
  think :: json

datatype ResponseFormat = JsonSchemaFormat schema | JsonFormat

record GenerationRequest =
  greq_identity :: "string \<times> string \<times> string option"
  greq_adapter :: "string option"
  greq_messages :: "Message list"
  greq_profile :: RuntimeProfile
  greq_tools :: "ToolDefinition list"
  greq_sampling :: SamplingParameters
  greq_format :: "ResponseFormat option"
  greq_timeout :: "float64 option"

record 'e provider_api =
  stream_of :: "GenerationRequest \<Rightarrow> string + ('e stream_event list \<times> 'e option)"
  is_instance :: "'e \<Rightarrow> provider_exception \<Rightarrow> bool"
  error_name :: "'e \<Rightarrow> string"
  error_str :: "'e \<Rightarrow> string"

record RenderedPrompt =
  rp_system :: "string option"
  rp_user :: string
  rp_prompt_id :: string
  rp_version :: string
  rp_sha256 :: string

record AttemptRecord =
  rec_attempt :: int
  rec_canonical_id :: string
  rec_model_id :: "string option"
  rec_runtime_profile_hash :: string
  rec_rank :: int
  rec_outcome :: string
  rec_started_at :: instant
  rec_completed_at :: "instant option"
  rec_provider_ms :: "int option"
  rec_ttft_ms :: "int option"
  rec_input_tokens :: "int option"
  rec_output_tokens :: "int option"
  rec_cache_write_tokens :: "int option"
  rec_cache_read_tokens :: "int option"
  rec_finish_reason :: "string option"
  rec_error_code :: "string option"
  rec_error_text :: "string option"
  rec_partial_response_hash :: "string option"
  rec_prompt_id :: "string option"
  rec_prompt_version :: "string option"
  rec_prompt_sha256 :: "string option"
  rec_validation :: "ValidationOutcome option"
  rec_text :: string
  rec_subject_canonical_id :: string
  rec_adapter_id :: "string option"
  rec_adapter_name :: "string option"
  rec_adapter_data_classification :: "string option"
  rec_effective_data_classification :: "string option"

definition attempt_record_json :: "AttemptRecord \<Rightarrow> (string \<times> json) list" where
  "attempt_record_json r =
     [(''attempt'', JInt (rec_attempt r)), (''model'', JStr (rec_canonical_id r)),
      (''subject'', JStr (if rec_subject_canonical_id r = [] then rec_canonical_id r else rec_subject_canonical_id r)),
      (''adapter'', of_opt_str (rec_adapter_name r)), (''runtime_profile_hash'', JStr (rec_runtime_profile_hash r)),
      (''rank'', JInt (rec_rank r)), (''outcome'', JStr (rec_outcome r)), (''provider_ms'', of_opt_int (rec_provider_ms r)),
      (''ttft_ms'', of_opt_int (rec_ttft_ms r)), (''error_code'', of_opt_str (rec_error_code r)),
      (''prompt_id'', of_opt_str (rec_prompt_id r)), (''prompt_version'', of_opt_str (rec_prompt_version r)),
      (''prompt_sha256'', of_opt_str (rec_prompt_sha256 r))]"

subsection \<open>Tool calls\<close>

record AssembledCall =
  asm_call_index :: int
  asm_id :: "string option"
  asm_name :: "string option"
  asm_arguments :: json

definition nonempty :: "string option \<Rightarrow> bool" where
  "nonempty s \<longleftrightarrow> s \<noteq> None \<and> s \<noteq> Some []"

text \<open>The call so far and its argument text, as one fragment extends it.\<close>

definition extend_call :: "(string option \<times> string option \<times> string) option \<Rightarrow> ToolFragment \<Rightarrow> string option \<times> string option \<times> string" where
  "extend_call call f =
     (case (case call of None \<Rightarrow> (None, None, []) | Some c \<Rightarrow> c) of (i, n, args) \<Rightarrow>
       (if nonempty (frag_id f) \<and> \<not> nonempty i then frag_id f else i,
        if nonempty (frag_name f) \<and> \<not> nonempty n then frag_name f else n,
        args @ frag_arguments f))"

definition parsed_arguments :: "loader \<Rightarrow> string \<Rightarrow> json" where
  "parsed_arguments loads s = (if s = [] then JObj [] else (case loads s of Inl _ \<Rightarrow> JStr s | Inr v \<Rightarrow> v))"

definition assemble_tool_calls :: "loader \<Rightarrow> ToolFragment list \<Rightarrow> AssembledCall list" where
  "assemble_tool_calls loads fragments =
     (let grouped = fold (\<lambda>f d. AList.update (frag_call_index f) (extend_call (map_of d (frag_call_index f)) f) d) fragments []
      in map (\<lambda>index. case the (map_of grouped index) of (i, n, args) \<Rightarrow>
           \<lparr>asm_call_index = index, asm_id = i, asm_name = n, asm_arguments = parsed_arguments loads args\<rparr>)
         (sort (map fst grouped)))"

subsection \<open>Draining the stream\<close>

text \<open>\<open>int(value)\<close> of a reported number, \<open>None\<close> when it was not reported.\<close>

definition count :: "json option \<Rightarrow> int option" where
  "count value = (case value of Some (JInt i) \<Rightarrow> Some i | Some (JBool b) \<Rightarrow> Some (of_bool b) | Some (JFloat x) \<Rightarrow> Some (trunc x) | _ \<Rightarrow> None)"

record 'e Collected =
  col_text :: string
  col_thinking :: string
  col_tool_calls :: "ToolFragment list"
  col_result :: "GenerationResult option"
  col_failure :: "'e option"
  col_ttft_ms :: "int option"
  col_provider_ms :: int

definition nothing_collected :: "'e Collected" where
  "nothing_collected = \<lparr>col_text = [], col_thinking = [], col_tool_calls = [], col_result = None, col_failure = None,
     col_ttft_ms = None, col_provider_ms = 0\<rparr>"

text \<open>The loop of \<open>_drain\<close>: what is collected, the two chunk counters, the position and the chunks.\<close>

fun drain :: "(nat \<Rightarrow> int) \<Rightarrow> 'e stream_event list \<Rightarrow> nat \<Rightarrow> nat \<Rightarrow> nat \<Rightarrow> 'e Collected \<Rightarrow> 'e Collected \<times> StreamChunk list" where
  "drain elapsed [] pos index thinking_index c = (c, [])"
| "drain elapsed (TokenDelta t # es) pos index thinking_index c =
     (case drain elapsed es (Suc pos) (Suc index) thinking_index
         (c\<lparr>col_ttft_ms := (case col_ttft_ms c of None \<Rightarrow> Some (elapsed pos) | Some x \<Rightarrow> Some x), col_text := col_text c @ t\<rparr>) of
        (c', chunks) \<Rightarrow> (c', TokenChunk t index # chunks))"
| "drain elapsed (ThinkingDelta t # es) pos index thinking_index c =
     (case drain elapsed es (Suc pos) index (if t = [] then thinking_index else Suc thinking_index)
         (c\<lparr>col_thinking := col_thinking c @ t\<rparr>) of
        (c', chunks) \<Rightarrow> (c', (if t = [] then [] else [ThinkingChunk t thinking_index]) @ chunks))"
| "drain elapsed (ToolCallDelta ci i n a # es) pos index thinking_index c =
     (let f = \<lparr>frag_call_index = ci, frag_id = i, frag_name = n, frag_arguments = a\<rparr> in
      case drain elapsed es (Suc pos) index thinking_index (c\<lparr>col_tool_calls := col_tool_calls c @ [f]\<rparr>) of
        (c', chunks) \<Rightarrow> (c', ToolCallChunk f # chunks))"
| "drain elapsed (StreamCompleted r # es) pos index thinking_index c =
     drain elapsed es (Suc pos) index thinking_index (c\<lparr>col_result := Some r\<rparr>)"
| "drain elapsed (StreamFailed e partial # es) pos index thinking_index c =
     drain elapsed es (Suc pos) index thinking_index
       (c\<lparr>col_failure := Some e, col_text := (if partial = [] then col_text c else partial)\<rparr>)"

definition run_stream :: "'e provider_api \<Rightarrow> (nat \<Rightarrow> int) \<Rightarrow> GenerationRequest \<Rightarrow> string + ('e Collected \<times> StreamChunk list)" where
  "run_stream api elapsed call =
     bind_result (stream_of api call) (\<lambda>(events, raised).
       (case drain elapsed events 0 0 0 nothing_collected of
          (c, chunks) \<Rightarrow>
            let c' = (case raised of None \<Rightarrow> c | Some e \<Rightarrow> c\<lparr>col_failure := Some e\<rparr>)
            in Inr (c'\<lparr>col_provider_ms := elapsed (length events)\<rparr>, chunks)))"

subsection \<open>The attempt\<close>

definition response_format_of :: "string \<Rightarrow> schema option \<Rightarrow> ResponseFormat option" where
  "response_format_of kind s =
     (case (kind = ''json_schema'', s) of
        (True, Some sch) \<Rightarrow> Some (JsonSchemaFormat sch)
      | _ \<Rightarrow> if kind = ''json'' then Some JsonFormat else None)"

definition get_or :: "(string \<times> json) list \<Rightarrow> string \<Rightarrow> json \<Rightarrow> json" where
  "get_or d k v = (case map_of d k of None \<Rightarrow> v | Some x \<Rightarrow> x)"

definition sampling_for :: "GenerateRequest \<Rightarrow> (string \<times> json) list \<Rightarrow> SamplingParameters" where
  "sampling_for request execution_policy =
     \<lparr>temperature = get_or (gen_sampling request) ''temperature'' (json_get execution_policy ''temperature''),
      max_output_tokens = get_or (gen_sampling request) ''max_output_tokens'' (json_get execution_policy ''max_output_tokens''),
      top_p = json_get (gen_sampling request) ''top_p'', seed = json_get (gen_sampling request) ''seed'',
      think = get_or (gen_sampling request) ''think'' (json_get execution_policy ''think'')\<rparr>"

text \<open>\<open>tuple(policy.get("required_fields") or ())\<close>, for the lists of names a task profile holds.\<close>

definition policy_fields :: "json \<Rightarrow> string list" where
  "policy_fields v = (case v of JList xs \<Rightarrow> List.map_filter as_str xs | _ \<Rightarrow> [])"

definition validate_policy :: "loader \<Rightarrow> searcher \<Rightarrow> string \<Rightarrow> (string \<times> json) list \<Rightarrow> schema option \<Rightarrow> validation_error + ValidationOutcome" where
  "validate_policy loads search output policy s =
     validate_output loads search output (json_true (json_get policy ''require_valid_json''))
       (if json_true (json_get policy ''require_schema'') then s else None)
       (policy_fields (json_get policy ''required_fields'')) None (as_int (json_get policy ''max_output_chars''))"

definition failure_outcome :: "'e provider_api \<Rightarrow> 'e \<Rightarrow> string" where
  "failure_outcome api e =
     (if is_instance api e ProviderTimeout then ''timeout''
      else if is_instance api e ContextLimitExceeded then ''context_exceeded'' else ''provider_error'')"

definition attempt_record :: "packages \<Rightarrow> 'e provider_api \<Rightarrow> (string \<Rightarrow> string) \<Rightarrow> int \<Rightarrow> RankedCandidate \<Rightarrow> instant \<Rightarrow> instant \<Rightarrow> 'e Collected \<Rightarrow>
    string option \<Rightarrow> string \<Rightarrow> 'e option \<Rightarrow> ValidationOutcome option \<Rightarrow> RenderedPrompt option \<Rightarrow> AttemptRecord" where
  "attempt_record pkg api sha256 number candidate started completed c caller_classification outcome err validation correction =
     (let subject = cand_subject candidate; adp = adapter subject; r = col_result c in
      \<lparr>rec_attempt = number, rec_canonical_id = canonical_id (facts subject), rec_model_id = Some (model_id (facts subject)),
       rec_runtime_profile_hash = runtime_profile_hash pkg subject, rec_rank = rank candidate, rec_outcome = outcome,
       rec_started_at = started, rec_completed_at = Some completed, rec_provider_ms = Some (col_provider_ms c),
       rec_ttft_ms = col_ttft_ms c, rec_input_tokens = Option.bind r (count \<circ> res_input_tokens),
       rec_output_tokens = Option.bind r (count \<circ> res_output_tokens),
       rec_cache_write_tokens = Option.bind r (count \<circ> res_cache_write_tokens),
       rec_cache_read_tokens = Option.bind r (count \<circ> res_cache_read_tokens),
       rec_finish_reason = map_option res_finish_reason r, rec_error_code = map_option (error_name api) err,
       rec_error_text = map_option (error_str api) err,
       rec_partial_response_hash = (if col_text c = [] then None else Some (sha256 (col_text c))),
       rec_prompt_id = map_option rp_prompt_id correction, rec_prompt_version = map_option rp_version correction,
       rec_prompt_sha256 = map_option rp_sha256 correction, rec_validation = validation, rec_text = col_text c,
       rec_subject_canonical_id = subject_canonical_id pkg subject, rec_adapter_id = map_option adapter_id adp,
       rec_adapter_name = map_option adapter_name adp, rec_adapter_data_classification = map_option data_classification adp,
       rec_effective_data_classification =
         map_option (\<lambda>a. join_classification pkg caller_classification (data_classification a)) adp\<rparr>)"

record 'e AttemptOutcome =
  out_record :: AttemptRecord
  out_failure :: "'e option"
  out_cancelled :: bool
  out_validation :: "ValidationOutcome option"
  out_text :: string
  out_result :: "GenerationResult option"
  out_thinking :: string
  out_tool_calls :: "ToolFragment list"

definition outcome_passed :: "'e AttemptOutcome \<Rightarrow> bool" where
  "outcome_passed o' \<longleftrightarrow> out_failure o' = None \<and>
     (case out_validation o' of None \<Rightarrow> True | Some v \<Rightarrow> val_passed v \<noteq> Some False)"

datatype attempt_error = RequestRefused string | ValidatorRaised validation_error

definition generation_request :: "GenerateRequest \<Rightarrow> RankedCandidate \<Rightarrow> Message list \<Rightarrow> schema option \<Rightarrow> (string \<times> json) list \<Rightarrow>
    float64 option \<Rightarrow> GenerationRequest" where
  "generation_request request candidate turns s execution_policy timeout =
     (let subject = cand_subject candidate;
          base_format = (case gen_response_format request of
              Some (c # cs) \<Rightarrow> c # cs
            | _ \<Rightarrow> (case json_get execution_policy ''response_format'' of JStr f \<Rightarrow> f | _ \<Rightarrow> ''text''))
      in \<lparr>greq_identity = (provider_kind (facts subject), provider_model_name (facts subject), artifact_digest (facts subject)),
          greq_adapter = map_option adapter_name (adapter subject), greq_messages = turns,
          greq_profile = runtime_profile subject, greq_tools = gen_tools request,
          greq_sampling = sampling_for request execution_policy, greq_format = response_format_of base_format s,
          greq_timeout = timeout\<rparr>)"

record 'e attempt_context =
  ctx_packages :: packages
  ctx_api :: "'e provider_api"
  ctx_sha256 :: "string \<Rightarrow> string"
  ctx_loads :: loader
  ctx_search :: searcher

definition run_attempt :: "'e attempt_context \<Rightarrow> (nat \<Rightarrow> int) \<Rightarrow> instant \<Rightarrow> instant \<Rightarrow> GenerateRequest \<Rightarrow> RankedCandidate \<Rightarrow> Message list \<Rightarrow>
    int \<Rightarrow> schema option \<Rightarrow> (string \<times> json) list \<Rightarrow> (string \<times> json) list \<Rightarrow> float64 option \<Rightarrow> RenderedPrompt option \<Rightarrow>
    attempt_error + ('e AttemptOutcome \<times> StreamChunk list)" where
  "run_attempt ctx elapsed started completed request candidate turns number s execution_policy validation_policy timeout correction =
     (let record_of = attempt_record (ctx_packages ctx) (ctx_api ctx) (ctx_sha256 ctx) number candidate started completed in
      (case run_stream (ctx_api ctx) elapsed (generation_request request candidate turns s execution_policy timeout) of
         Inl refusal \<Rightarrow> Inl (RequestRefused refusal)
       | Inr (c, chunks) \<Rightarrow>
           (case col_failure c of
              Some e \<Rightarrow>
                (let cancelled = is_instance (ctx_api ctx) e GenerationCancelled in
                 Inr (\<lparr>out_record = record_of c (gen_data_classification request)
                         (if cancelled then ''cancelled'' else failure_outcome (ctx_api ctx) e) (Some e) None correction,
                       out_failure = Some e, out_cancelled = cancelled, out_validation = None, out_text = col_text c,
                       out_result = None, out_thinking = col_thinking c, out_tool_calls = col_tool_calls c\<rparr>, chunks))
            | None \<Rightarrow>
                (case validate_policy (ctx_loads ctx) (ctx_search ctx) (col_text c) validation_policy s of
                   Inl err \<Rightarrow> Inl (ValidatorRaised err)
                 | Inr v \<Rightarrow>
                     Inr (\<lparr>out_record = record_of c (gen_data_classification request)
                             (if val_passed v \<noteq> Some False then ''completed'' else ''validation_failed'') None (Some v) correction,
                           out_failure = None, out_cancelled = False, out_validation = Some v, out_text = col_text c,
                           out_result = col_result c, out_thinking = col_thinking c, out_tool_calls = col_tool_calls c\<rparr>, chunks)))))"

subsection \<open>The corrective retry\<close>

datatype problem_line =
    FieldLine "step list" problem
  | MissingLine string
  | OtherLine string check_detail
  | DefaultLine

definition problems_text :: "ValidationOutcome \<Rightarrow> problem_line list" where
  "problems_text v =
     (let ls = concat (map (\<lambda>c. case check_detail c of
            FieldProblems ps \<Rightarrow> map (\<lambda>(p, q). FieldLine p q) ps
          | MissingFields ns \<Rightarrow> map MissingLine ns
          | d \<Rightarrow> [OtherLine (check_kind c) d]) (check_failures v))
      in if ls = [] then [DefaultLine] else ls)"

definition NO_PREVIOUS_OUTPUT :: string where
  "NO_PREVIOUS_OUTPUT = ''(the previous attempt returned no output at all)''"

type_synonym renderer = "problem_line list \<Rightarrow> schema option \<Rightarrow> string \<Rightarrow> RenderedPrompt"

definition plain_turn :: "string \<Rightarrow> string \<Rightarrow> Message" where
  "plain_turn r t = \<lparr>role = r, content = t, tool_call_id = None, msg_tool_calls = []\<rparr>"

definition corrective_turns :: "renderer \<Rightarrow> Message list \<Rightarrow> string \<Rightarrow> ValidationOutcome \<Rightarrow> schema option \<Rightarrow> Message list \<times> RenderedPrompt" where
  "corrective_turns render turns previous_text v s =
     (let correction = render (problems_text v) s (if previous_text = [] then NO_PREVIOUS_OUTPUT else previous_text) in
      (turns @ (if previous_text = [] then [] else [plain_turn ''assistant'' previous_text]) @
       (case rp_system correction of None \<Rightarrow> [] | Some [] \<Rightarrow> [] | Some t \<Rightarrow> [plain_turn ''system'' t]) @
       [plain_turn ''user'' (rp_user correction)], correction))"

subsection \<open>What a stream amounts to\<close>

definition tokens_of :: "'e stream_event list \<Rightarrow> string list" where
  "tokens_of es = List.map_filter (\<lambda>e. case e of TokenDelta t \<Rightarrow> Some t | _ \<Rightarrow> None) es"

definition thoughts_of :: "'e stream_event list \<Rightarrow> string list" where
  "thoughts_of es = List.map_filter (\<lambda>e. case e of ThinkingDelta t \<Rightarrow> Some t | _ \<Rightarrow> None) es"

definition token_chunks :: "StreamChunk list \<Rightarrow> (string \<times> nat) list" where
  "token_chunks cs = List.map_filter (\<lambda>c. case c of TokenChunk t i \<Rightarrow> Some (t, i) | _ \<Rightarrow> None) cs"

definition thinking_chunks :: "StreamChunk list \<Rightarrow> (string \<times> nat) list" where
  "thinking_chunks cs = List.map_filter (\<lambda>c. case c of ThinkingChunk t i \<Rightarrow> Some (t, i) | _ \<Rightarrow> None) cs"

fun completes_text :: "'e stream_event \<Rightarrow> bool" where
  "completes_text (StreamFailed e partial) \<longleftrightarrow> partial = []"
| "completes_text _ \<longleftrightarrow> True"

lemmas stream_defs = tokens_of_def thoughts_of_def token_chunks_def thinking_chunks_def map_filter_simps

lemma drain_chunks:
  "drain elapsed es pos i j c = (c', cs) \<Longrightarrow>
   token_chunks cs = map (\<lambda>(k, t). (t, k)) (enumerate i (tokens_of es)) \<and>
   thinking_chunks cs = map (\<lambda>(k, t). (t, k)) (enumerate j (filter (\<lambda>t. t \<noteq> []) (thoughts_of es))) \<and>
   col_thinking c' = col_thinking c @ concat (thoughts_of es) \<and>
   (list_all completes_text es \<longrightarrow> col_text c' = col_text c @ concat (tokens_of es))"
proof (induction es arbitrary: pos i j c c' cs)
  case Nil
  then show ?case by (simp add: stream_defs)
next
  case (Cons e es)
  show ?case
  proof (cases e)
    case (TokenDelta t)
    let ?c = "c\<lparr>col_ttft_ms := (case col_ttft_ms c of None \<Rightarrow> Some (elapsed pos) | Some x \<Rightarrow> Some x), col_text := col_text c @ t\<rparr>"
    obtain ds where d: "drain elapsed es (Suc pos) (Suc i) j ?c = (c', ds)" "cs = TokenChunk t i # ds"
      using Cons.prems TokenDelta by (auto split: prod.splits)
    show ?thesis using Cons.IH[OF d(1)] d(2) TokenDelta by (simp add: stream_defs)
  next
    case (ThinkingDelta t)
    obtain ds where d: "drain elapsed es (Suc pos) i (if t = [] then j else Suc j) (c\<lparr>col_thinking := col_thinking c @ t\<rparr>) = (c', ds)"
      "cs = (if t = [] then [] else [ThinkingChunk t j]) @ ds"
      using Cons.prems ThinkingDelta by (auto split: prod.splits)
    show ?thesis using Cons.IH[OF d(1)] d(2) ThinkingDelta by (cases "t = []") (simp_all add: stream_defs)
  next
    case (ToolCallDelta ci a b x)
    let ?f = "\<lparr>frag_call_index = ci, frag_id = a, frag_name = b, frag_arguments = x\<rparr>"
    obtain ds where d: "drain elapsed es (Suc pos) i j (c\<lparr>col_tool_calls := col_tool_calls c @ [?f]\<rparr>) = (c', ds)" "cs = ToolCallChunk ?f # ds"
      using Cons.prems ToolCallDelta by (auto simp: Let_def split: prod.splits)
    show ?thesis using Cons.IH[OF d(1)] d(2) ToolCallDelta by (simp add: stream_defs)
  next
    case (StreamCompleted r)
    then show ?thesis using Cons.IH[of "Suc pos" i j "c\<lparr>col_result := Some r\<rparr>" c' cs] Cons.prems by (simp add: stream_defs)
  next
    case (StreamFailed x p)
    then show ?thesis
      using Cons.IH[of "Suc pos" i j "c\<lparr>col_failure := Some x, col_text := (if p = [] then col_text c else p)\<rparr>" c' cs] Cons.prems
      by (cases "p = []") (simp_all add: stream_defs)
  qed
qed

lemma drain_failure:
  "drain elapsed es pos i j c = (c', cs) \<Longrightarrow>
   col_failure c' = None \<longleftrightarrow> col_failure c = None \<and> (\<forall>e p. StreamFailed e p \<notin> set es)"
proof (induction es arbitrary: pos i j c c' cs)
  case (Cons e es)
  then show ?case by (cases e) (fastforce simp: Let_def split: prod.splits)+
qed simp

text \<open>
  What a subscriber reassembles is what the job stores: the token frames of a call carry
  contiguous indices from zero, their texts in that order concatenate to the collected text (no
  partial text having replaced it), thinking frames have their own contiguous indices and
  concatenate to the collected reasoning, and an attempt fails exactly when the stream reported
  a failure or the provider raised.
\<close>

theorem stream_reassembles:
  assumes "stream_of api call = Inr (events, raised)" "run_stream api elapsed call = Inr (c, chunks)"
  shows "map snd (token_chunks chunks) = [0..<length (tokens_of events)] \<and>
    (list_all completes_text events \<longrightarrow> col_text c = concat (map fst (token_chunks chunks))) \<and>
    map snd (thinking_chunks chunks) = [0..<length (filter (\<lambda>t. t \<noteq> []) (thoughts_of events))] \<and>
    col_thinking c = concat (map fst (thinking_chunks chunks)) \<and>
    (col_failure c = None \<longleftrightarrow> raised = None \<and> (\<forall>e p. StreamFailed e p \<notin> set events))"
proof -
  obtain d where d: "drain elapsed events 0 0 0 nothing_collected = (d, chunks)"
    and c: "c = (case raised of None \<Rightarrow> d | Some e \<Rightarrow> d\<lparr>col_failure := Some e\<rparr>)\<lparr>col_provider_ms := elapsed (length events)\<rparr>"
    using assms by (auto simp: run_stream_def bind_result_Inr_iff Let_def split: prod.splits)
  note chunks = drain_chunks[OF d]
  have texts: "col_text c = col_text d" "col_thinking c = col_thinking d" unfolding c by (cases raised; simp)+
  have cat: "concat (filter (\<lambda>t. t \<noteq> []) xs) = concat xs" for xs :: "string list" by (induction xs) auto
  have fst_en: "map (fst \<circ> (\<lambda>(k, t). (t, k))) (enumerate n xs) = xs"
    and snd_en: "map (snd \<circ> (\<lambda>(k, t). (t, k))) (enumerate n xs) = [n..<n + length xs]" for n and xs :: "string list"
  proof -
    have "fst \<circ> (\<lambda>(k, t). (t, k)) = (snd :: nat \<times> string \<Rightarrow> string)" "snd \<circ> (\<lambda>(k, t). (t, k)) = (fst :: nat \<times> string \<Rightarrow> nat)" by auto
    then show "map (fst \<circ> (\<lambda>(k, t). (t, k))) (enumerate n xs) = xs" "map (snd \<circ> (\<lambda>(k, t). (t, k))) (enumerate n xs) = [n..<n + length xs]"
      by simp_all
  qed
  have "col_failure d = None \<longleftrightarrow> (\<forall>e p. StreamFailed e p \<notin> set events)"
    using drain_failure[OF d] by (simp add: nothing_collected_def)
  then have fail: "col_failure c = None \<longleftrightarrow> raised = None \<and> (\<forall>e p. StreamFailed e p \<notin> set events)"
    unfolding c by (cases raised) simp_all
  show ?thesis using chunks fail by (simp add: texts nothing_collected_def fst_en snd_en cat)
qed

definition hello_api :: "string provider_api" where
  "hello_api = \<lparr>stream_of = (\<lambda>_. Inr ([TokenDelta ''he'', ThinkingDelta ''?'', TokenDelta ''llo''], None)),
     is_instance = (\<lambda>_ _. False), error_name = id, error_str = id\<rparr>"

theorem stream_reassembles_witness:
  "\<exists>c chunks. run_stream hello_api (\<lambda>n. int n) undefined = Inr (c, chunks) \<and> col_text c = ''hello'' \<and> col_failure c = None"
proof -
  obtain c chunks where r: "run_stream hello_api (\<lambda>n. int n) undefined = Inr (c, chunks)"
    and t: "token_chunks chunks = [(''he'', 0), (''llo'', 1)]"
    by (simp add: run_stream_def hello_api_def nothing_collected_def stream_defs Let_def)
  have "stream_of hello_api undefined = Inr ([TokenDelta ''he'', ThinkingDelta ''?'', TokenDelta ''llo''], None)"
    by (simp add: hello_api_def)
  from stream_reassembles[OF this r] t show ?thesis using r by auto
qed

subsection \<open>Assembled tool calls\<close>

definition fragments_for :: "int \<Rightarrow> ToolFragment list \<Rightarrow> ToolFragment list" where
  "fragments_for i fs = filter (\<lambda>f. frag_call_index f = i) fs"

lemma nonempty_None: "nonempty None = False"
  by (simp add: nonempty_def)

lemma extend_calls:
  "foldl (\<lambda>s f. extend_call (Some s) f) (i, n, args) fs =
     ((case filter nonempty (i # map frag_id fs) of [] \<Rightarrow> i | x # _ \<Rightarrow> x),
      (case filter nonempty (n # map frag_name fs) of [] \<Rightarrow> n | x # _ \<Rightarrow> x), args @ concat (map frag_arguments fs))"
  by (induction fs arbitrary: i n args) (auto simp: extend_call_def)

lemma extend_call_None: "extend_call None f = extend_call (Some (None, None, [])) f"
  by (simp add: extend_call_def)

lemma if_option_eq: "(if P then Some x else None) \<noteq> None \<longleftrightarrow> P"
  by simp

lemma grouped_calls:
  "map_of (fold (\<lambda>f d. AList.update (frag_call_index f) (extend_call (map_of d (frag_call_index f)) f) d) fs []) i =
     (if \<exists>f \<in> set fs. frag_call_index f = i
      then Some (foldl (\<lambda>s f. extend_call (Some s) f) (None, None, []) (fragments_for i fs)) else None)"
proof -
  have "extend_call x f = extend_call (Some (case x of None \<Rightarrow> (None, None, []) | Some v \<Rightarrow> v)) f" for x f
    by (cases x) (simp_all add: extend_call_None)
  then have "fold (\<lambda>f d. AList.update (frag_call_index f) (extend_call (map_of d (frag_call_index f)) f) d) fs [] =
      alist.accumulate (\<lambda>s f. extend_call (Some s) f) (None, None, []) frag_call_index fs []"
    unfolding alist.accumulate_def by metis
  then show ?thesis by (simp add: alist.get_accumulate fragments_for_def)
qed

text \<open>
  Streamed tool-call fragments are assembled by their call index alone: there is exactly one
  call per index, in ascending order; its arguments are parsed from all the fragments of that
  index concatenated in arrival order, and its id and name are the first non-empty ones any of
  them carries (so a fragment without an id never starts a second call).
\<close>

theorem tool_calls_assembled:
  "sorted_wrt (<) (map asm_call_index (assemble_tool_calls loads fs)) \<and>
   set (map asm_call_index (assemble_tool_calls loads fs)) = frag_call_index ` set fs \<and>
   (\<forall>c \<in> set (assemble_tool_calls loads fs).
      asm_arguments c = parsed_arguments loads (concat (map frag_arguments (fragments_for (asm_call_index c) fs))) \<and>
      asm_id c = (case filter nonempty (map frag_id (fragments_for (asm_call_index c) fs)) of [] \<Rightarrow> None | x # _ \<Rightarrow> x) \<and>
      asm_name c = (case filter nonempty (map frag_name (fragments_for (asm_call_index c) fs)) of [] \<Rightarrow> None | x # _ \<Rightarrow> x))"
proof -
  let ?g = "fold (\<lambda>f d. AList.update (frag_call_index f) (extend_call (map_of d (frag_call_index f)) f) d) fs []"
  have keys: "set (map fst ?g) = frag_call_index ` set fs"
  proof -
    have "i \<in> set (map fst ?g) \<longleftrightarrow> i \<in> frag_call_index ` set fs" for i
    proof -
      have "i \<in> set (map fst ?g) \<longleftrightarrow> map_of ?g i \<noteq> None" by (simp add: map_of_eq_None_iff)
      also have "\<dots> \<longleftrightarrow> (\<exists>f \<in> set fs. frag_call_index f = i)" unfolding grouped_calls by (rule if_option_eq)
      finally show ?thesis by (simp only: image_iff) metis
    qed
    then show ?thesis by blast
  qed
  have d: "distinct (map fst ?g)" by (rule distinct_keys_fold_update) simp
  have idx: "map asm_call_index (assemble_tool_calls loads fs) = sort (map fst ?g)"
    unfolding assemble_tool_calls_def Let_def by (simp add: comp_def case_prod_beta)
  have "sorted_wrt (<) (sort (map fst ?g))"
    using d by (simp add: strict_sorted_iff)
  moreover have "asm_arguments c = parsed_arguments loads (concat (map frag_arguments (fragments_for (asm_call_index c) fs))) \<and>
      asm_id c = (case filter nonempty (map frag_id (fragments_for (asm_call_index c) fs)) of [] \<Rightarrow> None | x # _ \<Rightarrow> x) \<and>
      asm_name c = (case filter nonempty (map frag_name (fragments_for (asm_call_index c) fs)) of [] \<Rightarrow> None | x # _ \<Rightarrow> x)"
    if mem: "c \<in> set (assemble_tool_calls loads fs)" for c
  proof -
    obtain i where i: "i \<in> set (map fst ?g)" and c: "c = (case the (map_of ?g i) of (a, b, args) \<Rightarrow>
        \<lparr>asm_call_index = i, asm_id = a, asm_name = b, asm_arguments = parsed_arguments loads args\<rparr>)"
    proof -
      let ?F = "\<lambda>i. case the (map_of ?g i) of (a, b, args) \<Rightarrow>
        \<lparr>asm_call_index = i, asm_id = a, asm_name = b, asm_arguments = parsed_arguments loads args\<rparr>"
      have "c \<in> ?F ` set (sort (map fst ?g))" using mem unfolding assemble_tool_calls_def Let_def by (simp only: set_map)
      then show ?thesis unfolding set_sort by (rule imageE) (rule that)
    qed
    have "\<exists>f \<in> set fs. frag_call_index f = i" using i unfolding keys by auto
    then have "the (map_of ?g i) = foldl (\<lambda>s f. extend_call (Some s) f) (None, None, []) (fragments_for i fs)"
      by (simp add: grouped_calls)
    then have "c = \<lparr>asm_call_index = i,
        asm_id = (case filter nonempty (map frag_id (fragments_for i fs)) of [] \<Rightarrow> None | x # _ \<Rightarrow> x),
        asm_name = (case filter nonempty (map frag_name (fragments_for i fs)) of [] \<Rightarrow> None | x # _ \<Rightarrow> x),
        asm_arguments = parsed_arguments loads (concat (map frag_arguments (fragments_for i fs)))\<rparr>"
      unfolding c by (simp only: extend_calls filter.simps nonempty_None if_False prod.case append_Nil)
    then show ?thesis by simp
  qed
  ultimately show ?thesis unfolding idx set_sort keys by blast
qed

definition split_call :: "ToolFragment list" where
  "split_call = [\<lparr>frag_call_index = 0, frag_id = Some ''c1'', frag_name = Some ''search'', frag_arguments = ''{''\<rparr>,
     \<lparr>frag_call_index = 0, frag_id = None, frag_name = None, frag_arguments = ''}''\<rparr>]"

theorem tool_calls_assembled_witness:
  "\<exists>c. assemble_tool_calls (\<lambda>t. if t = ''{}'' then Inr (JObj []) else Inl t) split_call = [c] \<and> asm_id c = Some ''c1'' \<and>
     asm_arguments c = JObj []"
proof -
  let ?calls = "assemble_tool_calls (\<lambda>t. if t = ''{}'' then Inr (JObj []) else Inl t) split_call"
  note assembled = tool_calls_assembled [of "\<lambda>t. if t = ''{}'' then Inr (JObj []) else Inl t" split_call]
  have "set (map asm_call_index ?calls) = {0}" using assembled by (simp add: split_call_def)
  moreover have "distinct (map asm_call_index ?calls)" using assembled by (simp add: strict_sorted_iff)
  ultimately have "length ?calls = Suc 0" using distinct_card [of "map asm_call_index ?calls"] by simp
  then obtain c where c: "?calls = [c]" by (auto simp: length_Suc_conv)
  moreover have "asm_call_index c = 0" using \<open>set (map asm_call_index ?calls) = {0}\<close> unfolding c by simp
  ultimately have c: "?calls = [c]" "asm_call_index c = 0" by simp_all
  have "c \<in> set ?calls" using c(1) by simp
  then have "asm_arguments c = parsed_arguments (\<lambda>t. if t = ''{}'' then Inr (JObj []) else Inl t)
        (concat (map frag_arguments (fragments_for (asm_call_index c) split_call))) \<and>
      asm_id c = (case filter nonempty (map frag_id (fragments_for (asm_call_index c) split_call)) of [] \<Rightarrow> None | x # _ \<Rightarrow> x)"
    using assembled by fast
  then show ?thesis
    using c by (simp add: fragments_for_def split_call_def parsed_arguments_def nonempty_def)
qed

end
