(* ===== verification/Job_Queue.thy ===== *)
theory Job_Queue
  imports Job_Events Attempts Authorization
begin

section \<open>The durable job queue\<close>

text \<open>
  Models \<^verbatim>\<open>src/src/loadcoach/services/queue.py\<close> and the idempotency and attempt writes of
  \<^verbatim>\<open>src/src/loadcoach/services/execution.py\<close>: the \<open>jobs\<close> table as a list of rows beside the event store, and one
  function per operation. A statement \<open>UPDATE ... WHERE\<close> is \<open>update_where\<close>; a column that is
  \<open>NULL\<close> satisfies no comparison. Each operation is one transaction (\<open>BEGIN IMMEDIATE\<close>), so
  concurrent callers are sequences of operations; \<open>enqueue\<close> is several transactions, with
  \<open>others\<close> what other callers do between its check and its insert. A raised error carries no
  state: the transaction is rolled back (the sink's in-memory counter may then be ahead, which is
  as if a live frame had been published). Rows that tie in the claim's order are taken in table
  order, which SQL leaves open; no property relies on it. The seconds a job has waited are
  computed by the database (\<open>julianday\<close> or \<open>extract\<close>): the parameter \<open>waited\<close>.
\<close>

text \<open>The columns the executor fills with the answer of a job.\<close>

record JobResult =
  response_hash :: "string option"
  response_text :: "string option"
  structured_output_json :: json
  tool_calls_json :: json
  reasoning_available :: bool
  reasoning_summary :: "string option"
  reasoning_source :: "string option"
  provider_ms :: "int option"
  loadcoach_overhead_ms :: "int option"
  total_ms :: "int option"
  ttft_ms :: "int option"
  input_tokens :: "int option"
  output_tokens :: "int option"
  cache_write_tokens :: "int option"
  cache_read_tokens :: "int option"
  thinking_tokens :: "int option"
  validation_passed :: "bool option"
  degradations_json :: "string list"

definition no_result :: JobResult where
  "no_result = \<lparr>response_hash = None, response_text = None, structured_output_json = JNull, tool_calls_json = JNull,
     reasoning_available = False, reasoning_summary = None, reasoning_source = None, provider_ms = None,
     loadcoach_overhead_ms = None, total_ms = None, ttft_ms = None, input_tokens = None, output_tokens = None,
     cache_write_tokens = None, cache_read_tokens = None, thinking_tokens = None, validation_passed = None,
     degradations_json = []\<rparr>"

record Job =
  job_id :: string
  task_profile_id :: string
  task_profile_version :: string
  job_class :: JobClass
  job_base_priority :: int
  job_effective_priority :: int
  job_source :: string
  job_state :: JobState
  state_reason :: "string option"
  idempotency_key :: "string option"
  job_idempotent :: bool
  idempotency_expires_at :: "instant option"
  request_json :: "json_obj option"
  prompt_hash :: "string option"
  selected_model_id :: "string option"
  selected_adapter_id :: "string option"
  selected_subject_canonical_id :: "string option"
  job_runtime_profile_hash :: "string option"
  job_served_context :: "int option"
  job_served_context_source :: "string option"
  job_target_gpu_index :: "int option"
  attempt :: int
  max_attempts :: int
  lease_owner :: "string option"
  lease_expires_at :: "instant option"
  cancel_requested :: bool
  created_at :: instant
  scheduled_for :: "instant option"
  queued_at :: "instant option"
  started_at :: "instant option"
  completed_at :: "instant option"
  max_wait_seconds :: "int option"
  queue_wait_ms :: "int option"
  job_result :: JobResult
  error_code :: "string option"
  error_text :: "string option"

record TaskProfileRow =
  tp_profile_id :: string
  tp_version :: string
  tp_weights :: "(string \<times> json) list"
  tp_constraints :: "(string \<times> json) list"
  tp_execution :: "(string \<times> json) list"
  tp_validation :: "(string \<times> json) list"
  tp_enabled :: bool
  tp_updated_at :: instant

record JobAttempt =
  ja_job_id :: string
  ja_attempt :: int
  ja_model_id :: "string option"
  ja_adapter_id :: "string option"
  ja_subject_canonical_id :: "string option"
  ja_adapter_data_classification :: "string option"
  ja_effective_data_classification :: "string option"
  ja_runtime_profile_hash :: string
  ja_rank :: int
  ja_started_at :: instant
  ja_completed_at :: "instant option"
  ja_outcome :: string
  ja_provider_ms :: "int option"
  ja_ttft_ms :: "int option"
  ja_input_tokens :: "int option"
  ja_output_tokens :: "int option"
  ja_cache_write_tokens :: "int option"
  ja_cache_read_tokens :: "int option"
  ja_finish_reason :: "string option"
  ja_error_code :: "string option"
  ja_error_text :: "string option"
  ja_partial_response_hash :: "string option"
  ja_prompt_id :: "string option"
  ja_prompt_version :: "string option"
  ja_prompt_sha256 :: "string option"

record ValidationRow =
  vr_job_id :: string
  vr_attempt :: int
  vr_kind :: string
  vr_passed :: bool
  vr_detail :: check_detail
  vr_created_at :: instant

text \<open>The database: the event store with the tables beside it. Of \<open>routing_decisions\<close> the model has the
  column that links a decision to its job.\<close>

record World = EventStore +
  jobs :: "Job list"
  job_attempts :: "JobAttempt list"
  validations :: "ValidationRow list"
  decision_jobs :: "(string, string option) dict"
  task_profiles :: "TaskProfileRow list"
  registry_models :: "(string \<times> string) list"
  queue_settings_rows :: "(string, json) dict"

record QueueSettings =
  max_depth :: int
  max_active_per_source :: int
  lease_seconds :: int
  poll_interval_ms :: int
  lease_renewal_interval_seconds :: int
  ageing_interval_seconds :: int
  default_max_wait_seconds :: int
  ageing_priority_per_minute :: float64
  overflow_allowance :: int
  max_affinity_streak :: int
  idempotency_ttl_hours :: float64
  cancelling_watchdog_seconds :: int

datatype queue_error =
    NotAuthorized authorization_error
  | TaskProfileNotFound string
  | OutsideBand priority_error
  | QueueFull int int
  | SourceFull string int int
  | IntegrityError
  | JobNotFound string
  | JobNotCancellable string JobState
  | NotAnEdge transition_error
  | TransitionRefused string JobState JobState "string option"
  | AssertionFailed
  | BadPayload payload_error
  | UnknownFlag string
  | AttemptNotLeased string int "string option"
  | AttemptDiverged string int int

definition map_error :: "('e \<Rightarrow> 'f) \<Rightarrow> 'e + 'a \<Rightarrow> 'f + 'a" where
  "map_error f r = (case r of Inl e \<Rightarrow> Inl (f e) | Inr a \<Rightarrow> Inr a)"

definition update_where :: "('r \<Rightarrow> bool) \<Rightarrow> ('r \<Rightarrow> 'r) \<Rightarrow> 'r list \<Rightarrow> 'r list" where
  "update_where P f rows = map (\<lambda>r. if P r then f r else r) rows"

definition timedelta_hours :: "float64 \<Rightarrow> int" where
  "timedelta_hours h = trunc h * 3600000000 + round_half_even (fl ((h - of_int (trunc h)) * 3600000000))"

subsection \<open>Enqueue\<close>

record EnqueueOutcome =
  out_job_id :: string
  out_state :: JobState
  out_created :: bool

definition load_task_profile :: "string \<Rightarrow> World \<Rightarrow> queue_error + TaskProfileRow" where
  "load_task_profile task_name w =
     (case filter (\<lambda>p. tp_profile_id p = task_name \<and> tp_enabled p) (sort_key (\<lambda>p. - tp_updated_at p) (task_profiles w)) of
        [] \<Rightarrow> Inl (TaskProfileNotFound task_name)
      | p # _ \<Rightarrow> Inr p)"

definition resolve_model_id :: "string \<Rightarrow> World \<Rightarrow> string option" where
  "resolve_model_id canonical w = map_option fst (find (\<lambda>(i, c). c = canonical) (registry_models w))"

definition existing_job_for_key :: "string \<Rightarrow> string \<Rightarrow> instant \<Rightarrow> World \<Rightarrow> (string \<times> JobState) option \<times> World" where
  "existing_job_for_key src key now w =
     (case find (\<lambda>j. job_source j = src \<and> idempotency_key j = Some key) (jobs w) of
        None \<Rightarrow> (None, w)
      | Some j \<Rightarrow>
          if (case idempotency_expires_at j of None \<Rightarrow> False | Some e \<Rightarrow> e \<le> now) then
            (None, w\<lparr>jobs := update_where (\<lambda>r. job_id r = job_id j)
                (\<lambda>r. r\<lparr>idempotency_key := None, idempotency_expires_at := None\<rparr>) (jobs w)\<rparr>)
          else (Some (job_id j, job_state j), w))"

definition existing_by_key :: "JobSubmission \<Rightarrow> instant \<Rightarrow> World \<Rightarrow> EnqueueOutcome option \<times> World" where
  "existing_by_key s now w =
     (case existing_job_for_key (sub_source s) (case sub_idempotency_key s of None \<Rightarrow> [] | Some k \<Rightarrow> k) now w of
        (found, w') \<Rightarrow>
          (map_option (\<lambda>(i, st). \<lparr>out_job_id = i, out_state = st, out_created = False\<rparr>) found, w'))"

definition active_count :: "string option \<Rightarrow> World \<Rightarrow> int" where
  "active_count src w =
     int (length (filter (\<lambda>j. job_state j \<in> ACTIVE_STATES \<and> (case src of None \<Rightarrow> True | Some s \<Rightarrow> job_source j = s)) (jobs w)))"

definition opt_or :: "int option \<Rightarrow> int \<Rightarrow> int" where
  "opt_or x d = (case x of None \<Rightarrow> d | Some v \<Rightarrow> if v = 0 then d else v)"

definition job_row :: "(string \<Rightarrow> string) \<Rightarrow> string \<Rightarrow> JobSubmission \<Rightarrow> TaskProfileRow \<Rightarrow> int \<Rightarrow> string option \<Rightarrow>
    instant \<Rightarrow> QueueSettings \<Rightarrow> int \<Rightarrow> Job" where
  "job_row sha256 new_id s profile priority pinned now qs attempts_bound =
     \<lparr>job_id = new_id, task_profile_id = tp_profile_id profile, task_profile_version = tp_version profile,
      job_class = sub_job_class s, job_base_priority = priority, job_effective_priority = priority,
      job_source = sub_source s, job_state = QUEUED, state_reason = None,
      idempotency_key = sub_idempotency_key s, job_idempotent = sub_idempotent s,
      idempotency_expires_at = map_option (\<lambda>_. now + timedelta_hours (idempotency_ttl_hours qs)) (sub_idempotency_key s),
      request_json = Some (as_request_json s),
      prompt_hash = Some (sha256 (join [CHR 0x0A] (map (\<lambda>m. role m @ '':'' @ content m) (transcript s)))),
      selected_model_id = pinned, selected_adapter_id = None, selected_subject_canonical_id = None,
      job_runtime_profile_hash = None, job_served_context = None,
      job_served_context_source = None, job_target_gpu_index = None, attempt = 0, max_attempts = attempts_bound,
      lease_owner = None, lease_expires_at = None, cancel_requested = False, created_at = now,
      scheduled_for = Some now, queued_at = Some now, started_at = None, completed_at = None,
      max_wait_seconds = Some (opt_or (sub_max_wait_seconds s) (default_max_wait_seconds qs)),
      queue_wait_ms = None, job_result = no_result, error_code = None, error_text = None\<rparr>"

text \<open>The primary key and the unique index on \<open>(source, idempotency_key)\<close>.\<close>

definition insert_job :: "Job \<Rightarrow> World \<Rightarrow> queue_error + World" where
  "insert_job row w =
     (if \<exists>j \<in> set (jobs w). job_id j = job_id row \<or>
           (idempotency_key row \<noteq> None \<and> job_source j = job_source row \<and> idempotency_key j = idempotency_key row)
      then Inl IntegrityError else Inr (w\<lparr>jobs := jobs w @ [row]\<rparr>))"

definition enqueue_insert :: "Job \<Rightarrow> instant \<Rightarrow> World \<Rightarrow> queue_error + World" where
  "enqueue_insert row now w =
     bind_result (insert_job row w) (\<lambda>w'.
       Inr (commit (append_event (job_id row) (event_type_for QUEUED) now
         (Some (''queued as '' @ class_value (job_class row) @ '' at priority '' @ str_int (job_base_priority row)))
         [(''class'', JStr (class_value (job_class row))), (''base_priority'', JInt (job_base_priority row)),
          (''task_profile_id'', JStr (task_profile_id row)), (''source'', JStr (job_source row))] w')))"

definition enqueue_checks :: "JobSubmission \<Rightarrow> QueueSettings \<Rightarrow> World \<Rightarrow> queue_error + unit" where
  "enqueue_checks s qs w =
     (let active = active_count None w; held = active_count (Some (sub_source s)) w in
      if active \<ge> max_depth qs then Inl (QueueFull active (max_depth qs))
      else if max_active_per_source qs \<noteq> 0 \<and> held \<ge> max_active_per_source qs
        then Inl (SourceFull (sub_source s) held (max_active_per_source qs))
      else Inr ())"

definition enqueue :: "(string \<Rightarrow> string) \<Rightarrow> string \<Rightarrow> (World \<Rightarrow> World) \<Rightarrow> Principal option \<Rightarrow> JobSubmission \<Rightarrow> instant \<Rightarrow>
    QueueSettings \<Rightarrow> int \<Rightarrow> World \<Rightarrow> (queue_error + EnqueueOutcome) \<times> World" where
  "enqueue sha256 new_id others caller s now qs attempts_bound w =
     (case bind_result (map_error NotAuthorized (authorize caller ''write'')) (\<lambda>_.
             bind_result (load_task_profile (task s) w) (\<lambda>profile.
             bind_result (map_error OutsideBand (base_priority (sub_job_class s) (sub_priority s))) (\<lambda>priority.
               Inr (profile, priority)))) of
        Inl e \<Rightarrow> (Inl e, w)
      | Inr (profile, priority) \<Rightarrow>
          (case (if sub_idempotency_key s = None then (None, w) else existing_by_key s now w) of
             (Some found, w1) \<Rightarrow> (Inr found, w1)
           | (None, w1) \<Rightarrow>
               (case enqueue_checks s qs w1 of
                  Inl e \<Rightarrow> (Inl e, w1)
                | Inr _ \<Rightarrow>
                    (let pinned = (case map_option override_model (overrides s) of
                           Some (Some m) \<Rightarrow> resolve_model_id m w1 | _ \<Rightarrow> None);
                         row = job_row sha256 new_id s profile priority pinned now qs attempts_bound;
                         w2 = others w1
                     in (case enqueue_insert row now w2 of
                           Inr w3 \<Rightarrow> (Inr \<lparr>out_job_id = new_id, out_state = QUEUED, out_created = True\<rparr>, w3)
                         | Inl e \<Rightarrow>
                             (case existing_by_key s now w2 of
                                (Some found, w3) \<Rightarrow> (Inr found, w3)
                              | (None, w3) \<Rightarrow> (Inl e, w3)))))))"

subsection \<open>Claim\<close>

record AffinityHint =
  resident_model_ids :: "string list"
  streak :: int
  max_streak :: int

record ClaimedJob =
  claimed_job_id :: string
  claimed_class :: JobClass
  claimed_base_priority :: int
  claimed_effective_priority :: int
  claimed_attempt :: int
  claimed_max_attempts :: int
  claimed_idempotent :: bool
  claimed_cancel_requested :: bool
  claimed_created_at :: instant
  claimed_queued_at :: instant
  claimed_scheduled_for :: instant
  claimed_lease_expires_at :: instant
  claimed_source :: string
  claimed_submission :: JobSubmission
  claimed_selected_model_id :: "string option"
  claimed_target_gpu_index :: "int option"
  by_affinity :: bool

definition eligible :: "instant \<Rightarrow> Job \<Rightarrow> bool" where
  "eligible now j \<longleftrightarrow> job_state j = QUEUED \<and> (case scheduled_for j of None \<Rightarrow> False | Some s \<Rightarrow> s \<le> now)"

definition claim_order :: "Job \<Rightarrow> int \<times> int" where
  "claim_order j = (- job_effective_priority j, created_at j)"

definition claim_matching :: "string \<Rightarrow> instant \<Rightarrow> int \<Rightarrow> (Job \<Rightarrow> bool) \<Rightarrow> Job list \<Rightarrow> (string \<times> Job list) option" where
  "claim_matching owner now secs extra rows =
     (case sort_key claim_order (filter (\<lambda>j. eligible now j \<and> extra j) rows) of
        [] \<Rightarrow> None
      | j # _ \<Rightarrow> Some (job_id j, update_where (\<lambda>r. job_id r = job_id j \<and> job_state r = QUEUED)
          (\<lambda>r. r\<lparr>job_state := LEASED, state_reason := None, lease_owner := Some owner,
                 lease_expires_at := Some (now + secs * 1000000)\<rparr>) rows))"

definition claimed :: "conversions \<Rightarrow> Job \<Rightarrow> bool \<Rightarrow> queue_error + ClaimedJob" where
  "claimed cv j affine =
     (case (queued_at j, lease_expires_at j) of
        (Some q, Some l) \<Rightarrow>
          bind_result (map_error BadPayload (from_request_json cv (case request_json j of None \<Rightarrow> [] | Some d \<Rightarrow> d) (job_class j)
              (job_base_priority j) (max_wait_seconds j) (job_idempotent j) (idempotency_key j) (job_source j))) (\<lambda>s.
            Inr \<lparr>claimed_job_id = job_id j, claimed_class = job_class j, claimed_base_priority = job_base_priority j,
              claimed_effective_priority = job_effective_priority j, claimed_attempt = attempt j,
              claimed_max_attempts = max_attempts j, claimed_idempotent = job_idempotent j,
              claimed_cancel_requested = cancel_requested j, claimed_created_at = created_at j, claimed_queued_at = q,
              claimed_scheduled_for = (case scheduled_for j of None \<Rightarrow> q | Some t \<Rightarrow> t), claimed_lease_expires_at = l,
              claimed_source = job_source j, claimed_submission = s, claimed_selected_model_id = selected_model_id j,
              claimed_target_gpu_index = job_target_gpu_index j, by_affinity = affine\<rparr>)
      | _ \<Rightarrow> Inl AssertionFailed)"

definition top_priority :: "instant \<Rightarrow> Job list \<Rightarrow> int option" where
  "top_priority now rows =
     (case filter (eligible now) rows of [] \<Rightarrow> None
      | j # js \<Rightarrow> Some (fold max (map job_effective_priority js) (job_effective_priority j)))"

text \<open>The choice of the row: with residents and a streak below its bound, first among the top tie.\<close>

definition claim_choice :: "string \<Rightarrow> instant \<Rightarrow> int \<Rightarrow> AffinityHint option \<Rightarrow> Job list \<Rightarrow> ((string \<times> Job list) \<times> bool) option" where
  "claim_choice owner now secs affinity rows =
     (let affine = (case affinity of
          None \<Rightarrow> None
        | Some h \<Rightarrow>
            if resident_model_ids h \<noteq> [] \<and> streak h < max_streak h then
              (case top_priority now rows of
                 None \<Rightarrow> None
               | Some t \<Rightarrow> claim_matching owner now secs
                   (\<lambda>j. job_effective_priority j = t \<and> (case selected_model_id j of None \<Rightarrow> False
                         | Some m \<Rightarrow> m \<in> set (resident_model_ids h))) rows)
            else None)
      in case affine of
           Some c \<Rightarrow> Some (c, True)
         | None \<Rightarrow> map_option (\<lambda>c. (c, False)) (claim_matching owner now secs (\<lambda>_. True) rows))"

definition get_row :: "string \<Rightarrow> Job list \<Rightarrow> Job option" where
  "get_row i rows = find (\<lambda>j. job_id j = i) rows"

definition claim :: "conversions \<Rightarrow> string \<Rightarrow> instant \<Rightarrow> int \<Rightarrow> AffinityHint option \<Rightarrow> World \<Rightarrow>
    queue_error + (ClaimedJob option \<times> World)" where
  "claim cv owner now secs affinity w =
     (case claim_choice owner now secs affinity (jobs w) of
        None \<Rightarrow> Inr (None, w)
      | Some ((chosen, rows), affine) \<Rightarrow>
          (case get_row chosen rows of
             None \<Rightarrow> Inl (JobNotFound chosen)
           | Some j \<Rightarrow>
               bind_result (claimed cv j affine) (\<lambda>c.
                 Inr (Some c, commit (append_event chosen (event_type_for LEASED) now
                   (Some (''leased by '' @ owner @ (if affine then '' (affinity)'' else [])))
                   [(''lease_owner'', JStr owner), (''lease_seconds'', JInt secs), (''affinity'', JBool affine)]
                   (w\<lparr>jobs := rows\<rparr>))))))"

subsection \<open>Transitions\<close>

text \<open>The assignments a transition makes before the caller's own \<open>values\<close>.\<close>

definition assignments :: "JobState \<Rightarrow> instant \<Rightarrow> string option \<Rightarrow> Job \<Rightarrow> Job" where
  "assignments target now rsn j =
     (let j1 = j\<lparr>job_state := target, state_reason := rsn\<rparr>;
          j2 = (if target \<in> WAITING_STATES \<or> target \<in> TERMINAL_STATES
                then j1\<lparr>lease_owner := None, lease_expires_at := None\<rparr> else j1);
          j3 = (if target = QUEUED then j2\<lparr>scheduled_for := Some now\<rparr> else j2)
      in if target \<in> TERMINAL_STATES then j3\<lparr>completed_at := Some now\<rparr> else j3)"

definition cas_matches :: "string \<Rightarrow> JobState \<Rightarrow> string option \<Rightarrow> Job \<Rightarrow> bool" where
  "cas_matches i current owner j \<longleftrightarrow> job_id j = i \<and> job_state j = current \<and> (owner = None \<or> lease_owner j = owner)"

definition transition :: "string \<Rightarrow> JobState \<Rightarrow> JobState \<Rightarrow> instant \<Rightarrow> string option \<Rightarrow> string option \<Rightarrow> (Job \<Rightarrow> Job) \<Rightarrow>
    Job list \<Rightarrow> queue_error + Job list" where
  "transition i current target now owner rsn values rows =
     bind_result (map_error NotAnEdge (check_transition current target)) (\<lambda>_.
       if length (filter (cas_matches i current owner) rows) \<noteq> 1 then Inl (TransitionRefused i current target owner)
       else Inr (update_where (cas_matches i current owner) (\<lambda>j. values (assignments target now rsn j)) rows))"

text \<open>\<open>payload.setdefault("reason", reason)\<close>\<close>

definition with_reason :: "string option \<Rightarrow> json_obj \<Rightarrow> json_obj" where
  "with_reason rsn data =
     (case rsn of None \<Rightarrow> data | Some r \<Rightarrow> if map_of data ''reason'' = None then data @ [(''reason'', JStr r)] else data)"

definition move :: "string \<Rightarrow> JobState \<Rightarrow> JobState \<Rightarrow> instant \<Rightarrow> string option \<Rightarrow> string option \<Rightarrow> string option \<Rightarrow>
    json_obj \<Rightarrow> (Job \<Rightarrow> Job) \<Rightarrow> World \<Rightarrow> queue_error + World" where
  "move i current target now owner rsn message data values w =
     bind_result (transition i current target now owner rsn values (jobs w)) (\<lambda>rows.
       Inr (commit (append_event i (event_type_for target) now
         (Some (case message of Some (c # cs) \<Rightarrow> c # cs | _ \<Rightarrow> state_value current @ '' -> '' @ state_value target))
         (with_reason rsn data) (w\<lparr>jobs := rows\<rparr>))))"

subsection \<open>Cancellation\<close>

record CancelOutcome =
  cancel_job_id :: string
  cancel_state :: JobState
  cancel_already :: bool

definition cancel_values :: "JobState \<Rightarrow> Job \<Rightarrow> Job" where
  "cancel_values target j =
     (if target = CANCELLED then j\<lparr>cancel_requested := True, error_code := Some ''GENERATION_CANCELLED''\<rparr>
      else j\<lparr>cancel_requested := True\<rparr>)"

definition cancel_job :: "Principal option \<Rightarrow> string \<Rightarrow> instant \<Rightarrow> World \<Rightarrow> queue_error + (CancelOutcome \<times> World)" where
  "cancel_job caller i now w =
     bind_result (map_error NotAuthorized (authorize caller ''write'')) (\<lambda>_.
       (case get_row i (jobs w) of
          None \<Rightarrow> Inl (JobNotFound i)
        | Some j \<Rightarrow>
            if job_state j \<in> TERMINAL_STATES then Inl (JobNotCancellable i (job_state j))
            else (case cancel_target (job_state j) of
              None \<Rightarrow> Inr (\<lparr>cancel_job_id = i, cancel_state = job_state j, cancel_already = True\<rparr>, w)
            | Some target \<Rightarrow>
                bind_result (transition i (job_state j) target now None
                    (Some (if target = CANCELLING then ''cancel_requested'' else ''GENERATION_CANCELLED''))
                    (cancel_values target) (jobs w)) (\<lambda>rows.
                  Inr (\<lparr>cancel_job_id = i, cancel_state = target, cancel_already = False\<rparr>,
                    commit (append_event i (event_type_for target) now
                      (Some (''cancel requested in '' @ state_value (job_state j)))
                      [(''previous_state'', JStr (state_value (job_state j))), (''reason'', JStr ''cancel_requested'')]
                      (w\<lparr>jobs := rows\<rparr>)))))))"

text \<open>The newest event of a type: \<open>ORDER BY sequence DESC LIMIT 1\<close>.\<close>

definition latest_event :: "string \<Rightarrow> JobState \<Rightarrow> 'a EventStore_scheme \<Rightarrow> JobEvent option" where
  "latest_event i st w =
     (case sort_key (\<lambda>e. - je_sequence e) (filter (\<lambda>e. je_job_id e = i \<and> je_type e = event_type_for st) (job_events w)) of
        [] \<Rightarrow> None | e # _ \<Rightarrow> Some e)"

definition cancelling_since :: "World \<Rightarrow> (string \<times> instant option) list" where
  "cancelling_since w =
     map (\<lambda>j. (job_id j, map_option je_timestamp (latest_event (job_id j) CANCELLING w)))
       (filter (\<lambda>j. job_state j = CANCELLING) (jobs w))"

definition waiting_deferrals :: "World \<Rightarrow> (string \<times> json_obj option) list" where
  "waiting_deferrals w =
     map (\<lambda>j. (job_id j, map_option je_data (latest_event (job_id j) WAITING_RESOURCES w)))
       (filter (\<lambda>j. job_state j = WAITING_RESOURCES) (jobs w))"

subsection \<open>Leases\<close>

definition renew_leases :: "string \<Rightarrow> string list \<Rightarrow> instant \<Rightarrow> int \<Rightarrow> World \<Rightarrow> string set \<times> World" where
  "renew_leases owner ids now secs w =
     (let held = (\<lambda>j. job_id j \<in> set ids \<and> lease_owner j = Some owner \<and> job_state j \<in> LEASE_HOLDING_STATES \<union> {CANCELLING})
      in if ids = [] then ({}, w)
         else (set ids - job_id ` set (filter held (jobs w)),
               w\<lparr>jobs := update_where held (\<lambda>j. j\<lparr>lease_expires_at := Some (now + secs * 1000000)\<rparr>) (jobs w)\<rparr>))"

record ReapSummary =
  reap_requeued :: "string list"
  reap_failed :: "string list"

definition reap_reason :: "JobState \<Rightarrow> string" where
  "reap_reason target =
     (if target = CANCELLED then ''cancelled'' else if target = QUEUED then ''lease_expired'' else ''worker_lost'')"

definition reap_values :: "JobState \<Rightarrow> string option \<Rightarrow> Job \<Rightarrow> Job" where
  "reap_values target owner j =
     (if target = FAILED then j\<lparr>error_code := Some ''WORKER_LOST'',
        error_text := Some (''lease held by '' @ str_opt owner @ '' expired'')\<rparr> else j)"

definition reap_one :: "instant \<Rightarrow> Job \<Rightarrow> World \<times> ReapSummary \<Rightarrow> queue_error + (World \<times> ReapSummary)" where
  "reap_one now row = (\<lambda>(w, summary).
     (case recovery_target (job_state row) (job_idempotent row) of
        None \<Rightarrow> Inr (w, summary)
      | Some target \<Rightarrow>
          bind_result (transition (job_id row) (job_state row) target now None (Some (reap_reason target))
              (reap_values target (lease_owner row)) (jobs w)) (\<lambda>rows.
            Inr (append_event (job_id row) (event_type_for target) now
                (Some (''lease held by '' @ str_opt (lease_owner row) @ '' expired in '' @ state_value (job_state row) @
                   '': '' @ reap_reason target))
                [(''reason'', JStr (reap_reason target)), (''previous_state'', JStr (state_value (job_state row))),
                 (''lease_owner'', of_opt_str (lease_owner row))] (w\<lparr>jobs := rows\<rparr>),
              if target = QUEUED then summary\<lparr>reap_requeued := reap_requeued summary @ [job_id row]\<rparr>
              else summary\<lparr>reap_failed := reap_failed summary @ [job_id row]\<rparr>))))"

fun each_row :: "('r \<Rightarrow> 's \<Rightarrow> 'e + 's) \<Rightarrow> 'r list \<Rightarrow> 's \<Rightarrow> 'e + 's" where
  "each_row f [] s = Inr s"
| "each_row f (r # rs) s = bind_result (f r s) (each_row f rs)"

definition lease_expired :: "instant \<Rightarrow> Job \<Rightarrow> bool" where
  "lease_expired now j \<longleftrightarrow> (case lease_expires_at j of None \<Rightarrow> False | Some e \<Rightarrow> e < now)"

definition reap_expired_leases :: "instant \<Rightarrow> World \<Rightarrow> queue_error + (ReapSummary \<times> World)" where
  "reap_expired_leases now w =
     bind_result (each_row (reap_one now) (filter (lease_expired now) (jobs w)) (w, \<lparr>reap_requeued = [], reap_failed = []\<rparr>))
       (\<lambda>(w', summary). Inr (summary, commit w'))"

subsection \<open>The ageing sweep and the wait bound\<close>

definition class_cap :: "JobClass \<Rightarrow> int" where
  "class_cap c = (if c = INTERACTIVE then 999 else if c = NORMAL then 799 else if c = BACKGROUND then 399 else 99)"

definition fresh_priority :: "(instant \<Rightarrow> instant \<Rightarrow> float64) \<Rightarrow> QueueSettings \<Rightarrow> instant \<Rightarrow> instant \<Rightarrow> Job \<Rightarrow> int" where
  "fresh_priority waited qs now q j =
     (let minutes = fl (waited now q / 60);
          points = fl (fl (minutes * ageing_priority_per_minute qs) + AGEING_EPSILON_POINTS);
          aged = job_base_priority j + trunc (max points 0)
      in min aged (class_cap (job_class j) + overflow_allowance qs))"

definition stale_priority :: "(instant \<Rightarrow> instant \<Rightarrow> float64) \<Rightarrow> QueueSettings \<Rightarrow> instant \<Rightarrow> Job \<Rightarrow> bool" where
  "stale_priority waited qs now j \<longleftrightarrow>
     job_state j \<in> WAITING_STATES \<and>
     (case queued_at j of None \<Rightarrow> False | Some q \<Rightarrow> job_effective_priority j \<noteq> fresh_priority waited qs now q j)"

definition ageing_sweep :: "(instant \<Rightarrow> instant \<Rightarrow> float64) \<Rightarrow> instant \<Rightarrow> QueueSettings \<Rightarrow> World \<Rightarrow> int \<times> World" where
  "ageing_sweep waited now qs w =
     (int (length (filter (stale_priority waited qs now) (jobs w))),
      w\<lparr>jobs := update_where (stale_priority waited qs now)
         (\<lambda>j. j\<lparr>job_effective_priority := fresh_priority waited qs now (the (queued_at j)) j\<rparr>) (jobs w)\<rparr>)"

definition wait_exceeded :: "(instant \<Rightarrow> instant \<Rightarrow> float64) \<Rightarrow> instant \<Rightarrow> int \<Rightarrow> Job \<Rightarrow> bool" where
  "wait_exceeded waited now bound j \<longleftrightarrow>
     job_state j \<in> WAITING_STATES \<and>
     (case queued_at j of None \<Rightarrow> False
      | Some q \<Rightarrow> waited now q > of_int (case max_wait_seconds j of None \<Rightarrow> bound | Some m \<Rightarrow> m))"

definition expire_one :: "instant \<Rightarrow> int \<Rightarrow> Job \<Rightarrow> World \<times> string list \<Rightarrow> queue_error + (World \<times> string list)" where
  "expire_one now default_bound row = (\<lambda>(w, expired).
     (let bound = opt_or (max_wait_seconds row) default_bound in
      bind_result (transition (job_id row) (job_state row) FAILED now None (Some ''MAX_WAIT_EXCEEDED'')
          (\<lambda>j. j\<lparr>error_code := Some ''MAX_WAIT_EXCEEDED'',
                 error_text := Some (''waited longer than max_wait_seconds ('' @ str_int bound @ '')'')\<rparr>) (jobs w)) (\<lambda>rows.
        Inr (append_event (job_id row) (event_type_for FAILED) now
            (Some (''max_wait_seconds ('' @ str_int bound @ '') exceeded in '' @ state_value (job_state row)))
            [(''reason'', JStr ''MAX_WAIT_EXCEEDED''), (''previous_state'', JStr (state_value (job_state row))),
             (''max_wait_seconds'', JInt bound)] (w\<lparr>jobs := rows\<rparr>),
          expired @ [job_id row]))))"

definition expire_max_wait :: "(instant \<Rightarrow> instant \<Rightarrow> float64) \<Rightarrow> instant \<Rightarrow> int \<Rightarrow> World \<Rightarrow> queue_error + (string list \<times> World)" where
  "expire_max_wait waited now default_bound w =
     bind_result (each_row (expire_one now default_bound) (filter (wait_exceeded waited now default_bound) (jobs w)) (w, []))
       (\<lambda>(w', expired). Inr (expired, commit w'))"

subsection \<open>Reading and the control flags\<close>

record QueueSnapshot =
  depth_by_state :: "(JobState, int) dict"
  depth_by_class :: "(JobClass, int) dict"
  oldest_queued_age_seconds :: "float64 option"
  starving :: int
  snapshot_active :: int

definition queue_snapshot :: "instant \<Rightarrow> int \<Rightarrow> World \<Rightarrow> QueueSnapshot" where
  "queue_snapshot now default_bound w =
     (let active = filter (\<lambda>j. job_state j \<in> ACTIVE_STATES) (jobs w);
          by_state = add_totals job_state (\<lambda>_. 1) active;
          ages = List.map_filter (\<lambda>j. map_option (\<lambda>q. (total_seconds (now - q), max_wait_seconds j)) (queued_at j))
            (filter (\<lambda>j. job_state j \<in> WAITING_STATES) (jobs w))
      in \<lparr>depth_by_state = by_state, depth_by_class = add_totals job_class (\<lambda>_. 1) active,
          oldest_queued_age_seconds = fold (\<lambda>(age, _) oldest. Some (case oldest of None \<Rightarrow> age | Some x \<Rightarrow> max x age)) ages None,
          starving = int (length (filter (\<lambda>(age, m). age \<ge> starvation_threshold_seconds (opt_or m default_bound)) ages)),
          snapshot_active = sum_list (map snd by_state)\<rparr>)"

definition get_job :: "string \<Rightarrow> World \<Rightarrow> queue_error + Job" where
  "get_job i w = (case get_row i (jobs w) of None \<Rightarrow> Inl (JobNotFound i) | Some j \<Rightarrow> Inr j)"

definition list_jobs :: "JobState set option \<Rightarrow> JobClass option \<Rightarrow> string option \<Rightarrow> string option \<Rightarrow> nat \<Rightarrow> instant option \<Rightarrow>
    World \<Rightarrow> Job list" where
  "list_jobs sts cls tsk src limit before w =
     take limit (rev (sort_key (\<lambda>j. (created_at j, job_id j))
       (filter (\<lambda>j. (case sts of None \<Rightarrow> True | Some S \<Rightarrow> job_state j \<in> S) \<and>
                     (case cls of None \<Rightarrow> True | Some c \<Rightarrow> job_class j = c) \<and>
                     (case tsk of None \<Rightarrow> True | Some t \<Rightarrow> task_profile_id j = t) \<and>
                     (case src of None \<Rightarrow> True | Some s \<Rightarrow> job_source j = s) \<and>
                     (case before of None \<Rightarrow> True | Some b \<Rightarrow> created_at j < b)) (jobs w))))"

definition QUEUE_FLAG_KEYS :: "string list" where
  "QUEUE_FLAG_KEYS = [''queue.paused'', ''queue.draining'']"

definition set_queue_flag :: "Principal option \<Rightarrow> string \<Rightarrow> bool \<Rightarrow> World \<Rightarrow> queue_error + World" where
  "set_queue_flag caller name v w =
     bind_result (map_error NotAuthorized (authorize caller ''admin'')) (\<lambda>_.
       if name \<notin> set QUEUE_FLAG_KEYS then Inl (UnknownFlag name)
       else Inr (w\<lparr>queue_settings_rows := AList.update name (JBool v) (queue_settings_rows w)\<rparr>))"

definition queue_flags :: "World \<Rightarrow> (string, bool) dict" where
  "queue_flags w =
     map (\<lambda>name. (name, case map_of (queue_settings_rows w) name of None \<Rightarrow> False | Some v \<Rightarrow> json_true v)) QUEUE_FLAG_KEYS"

subsection \<open>Rows and updates\<close>

lemma update_where_ids:
  "(\<And>j. P j \<Longrightarrow> job_id (f j) = job_id j) \<Longrightarrow> map job_id (update_where P f rows) = map job_id rows"
  by (simp add: update_where_def)

lemma set_update_where: "set (update_where P f rows) = (\<lambda>r. if P r then f r else r) ` set rows"
  by (simp add: update_where_def)

lemma update_where_cong: "(\<And>r. r \<in> set rows \<Longrightarrow> P r = Q r) \<Longrightarrow> (\<And>r. r \<in> set rows \<Longrightarrow> Q r \<Longrightarrow> f r = g r) \<Longrightarrow>
    update_where P f rows = update_where Q g rows"
  by (simp add: update_where_def)

lemma unique_row: "distinct (map job_id rows) \<Longrightarrow> j \<in> set rows \<Longrightarrow> r \<in> set rows \<Longrightarrow> job_id r = job_id j \<Longrightarrow> r = j"
  by (auto simp: distinct_map inj_on_def)

lemma get_row_Some: "distinct (map job_id rows) \<Longrightarrow> get_row i rows = Some j \<longleftrightarrow> j \<in> set rows \<and> job_id j = i"
  by (induction rows) (auto simp: get_row_def)

lemma filter_one:
  assumes "distinct (map job_id rows)" "j \<in> set rows" "P j" "\<And>r. P r \<Longrightarrow> job_id r = job_id j"
  shows "filter P rows = [j]"
proof -
  have "r = j" if "r \<in> set rows" "P r" for r
    by (rule unique_row[OF assms(1,2) that(1) assms(4)[OF that(2)]])
  then have "set (filter P rows) = {j}" unfolding set_filter using assms(2,3) by blast
  moreover have "distinct (filter P rows)" using assms(1) by (simp add: distinct_map)
  ultimately have "length (filter P rows) = Suc 0" using distinct_card[of "filter P rows"] by simp
  then obtain x where "filter P rows = [x]" by (auto simp: length_Suc_conv)
  with \<open>set (filter P rows) = {j}\<close> show ?thesis by simp
qed

text \<open>What a transition does to a table: exactly the matching row, or an error.\<close>

lemma transition_Inr:
  assumes "distinct (map job_id rows)"
  shows "transition i current target now owner rsn values rows = Inr rows' \<longleftrightarrow>
    is_legal current target \<and> (\<exists>j \<in> set rows. cas_matches i current owner j) \<and>
    rows' = update_where (\<lambda>r. job_id r = i) (\<lambda>r. values (assignments target now rsn r)) rows"
proof -
  have one: "length (filter (cas_matches i current owner) rows) = 1 \<longleftrightarrow> (\<exists>j \<in> set rows. cas_matches i current owner j)"
  proof
    assume "length (filter (cas_matches i current owner) rows) = 1"
    then have "filter (cas_matches i current owner) rows \<noteq> []" by auto
    then show "\<exists>j \<in> set rows. cas_matches i current owner j" by (auto simp: filter_empty_conv)
  next
    assume "\<exists>j \<in> set rows. cas_matches i current owner j"
    then obtain j where "j \<in> set rows" "cas_matches i current owner j" by blast
    then have "filter (cas_matches i current owner) rows = [j]"
      by (intro filter_one[OF assms]) (auto simp: cas_matches_def)
    then show "length (filter (cas_matches i current owner) rows) = 1" by simp
  qed
  have upd: "update_where (cas_matches i current owner) f rows = update_where (\<lambda>r. job_id r = i) f rows"
    if "j \<in> set rows" "cas_matches i current owner j" for j f
    using that unique_row[OF assms] by (intro update_where_cong) (auto simp: cas_matches_def)
  show ?thesis
    using one upd by (auto simp: transition_def map_error_def check_transition_def bind_result_Inr_iff split: if_splits)
qed

lemma transition_Inl:
  assumes "distinct (map job_id rows)"
  shows "transition i current target now owner rsn values rows = Inl e \<Longrightarrow>
    e = (if is_legal current target then TransitionRefused i current target owner
         else NotAnEdge (IllegalTransition current target)) \<and>
    (is_legal current target \<longrightarrow> (\<forall>j \<in> set rows. \<not> cas_matches i current owner j))"
  using transition_Inr[OF assms, of i current target now owner rsn "values"]
  by (auto simp: transition_def map_error_def check_transition_def split: if_splits)

lemma append_event_world [simp]:
  "jobs (append_event i t now m d w) = jobs w" "task_profiles (append_event i t now m d w) = task_profiles w"
  "registry_models (append_event i t now m d w) = registry_models w" "job_attempts (append_event i t now m d w) = job_attempts w"
  by (simp_all add: append_event_def next_sequence_def Let_def)

lemma fold_publish_world [simp]:
  "jobs (fold publish_staged items w) = jobs w" "task_profiles (fold publish_staged items w) = task_profiles w"
  "registry_models (fold publish_staged items w) = registry_models w" "job_attempts (fold publish_staged items w) = job_attempts w"
  by (induction items arbitrary: w) (simp_all add: publish_staged_def forget_def Let_def)

lemma commit_world [simp]:
  "jobs (commit w) = jobs w" "task_profiles (commit w) = task_profiles w" "registry_models (commit w) = registry_models w"
  "job_attempts (commit w) = job_attempts w"
  by (simp_all add: commit_def)

lemma assignments_id [simp]: "job_id (assignments t now r j) = job_id j"
  by (simp add: assignments_def Let_def)

subsection \<open>Loops that settle one row after the other\<close>

text \<open>
  The interface of the reaper, the wait bound and startup recovery: rows are selected once, and
  each is then moved by its own compare-and-set and given its event, in one transaction. What
  the loop guarantees is proved once: it never raises, it moves exactly the selected rows that
  have a target, and it leaves every other row and the order of the events as they were.
\<close>

locale settle_rows =
  fixes sel :: "Job \<Rightarrow> bool" and aim :: "Job \<Rightarrow> JobState option" and now :: instant
    and why :: "Job \<Rightarrow> string option" and vals :: "Job \<Rightarrow> Job \<Rightarrow> Job"
    and msg :: "Job \<Rightarrow> string option" and data :: "Job \<Rightarrow> json_obj"
    and jot :: "Job \<Rightarrow> 's \<Rightarrow> 's" and settle :: "Job \<Rightarrow> World \<times> 's \<Rightarrow> queue_error + (World \<times> 's)"
  assumes settle_row: "sel row \<Longrightarrow> settle row (w, acc) =
      (case aim row of
         None \<Rightarrow> Inr (w, acc)
       | Some t \<Rightarrow> bind_result (transition (job_id row) (job_state row) t now None (why row) (vals row) (jobs w)) (\<lambda>rows.
           Inr (append_event (job_id row) (event_type_for t) now (msg row) (data row) (w\<lparr>jobs := rows\<rparr>), jot row acc)))"
    and aim_legal: "sel row \<Longrightarrow> aim row = Some t \<Longrightarrow> is_legal (job_state row) t"
    and vals_id: "job_id (vals row j) = job_id j"
begin

definition settled :: "Job \<Rightarrow> Job" where
  "settled j = (case aim j of None \<Rightarrow> j | Some t \<Rightarrow> vals j (assignments t now (why j) j))"

definition jotted :: "Job \<Rightarrow> 's \<Rightarrow> 's" where
  "jotted j acc = (case aim j of None \<Rightarrow> acc | Some _ \<Rightarrow> jot j acc)"

lemma settled_id [simp]: "job_id (settled j) = job_id j"
  by (simp add: settled_def vals_id split: option.splits)

lemma settle_one:
  assumes "distinct (map job_id (jobs w))" "r \<in> set (jobs w)" "sel r"
  shows "\<exists>w'. settle r (w, acc) = Inr (w', jotted r acc) \<and>
    jobs w' = update_where (\<lambda>j. job_id j = job_id r) settled (jobs w) \<and> task_profiles w' = task_profiles w \<and>
    registry_models w' = registry_models w \<and> job_attempts w' = job_attempts w \<and> (ordered_events (job_events w) \<longrightarrow> ordered_events (job_events w'))"
proof (cases "aim r")
  case None
  have "settled x = x" if "x \<in> set (jobs w)" "job_id x = job_id r" for x
    using unique_row[OF assms(1,2) that] None by (simp add: settled_def)
  then have "update_where (\<lambda>j. job_id j = job_id r) settled (jobs w) = jobs w"
    unfolding update_where_def by (intro map_idI) simp
  then show ?thesis using None by (simp add: settle_row[OF assms(3)] jotted_def)
next
  case (Some t)
  have "transition (job_id r) (job_state r) t now None (why r) (vals r) (jobs w) =
      Inr (update_where (\<lambda>j. job_id j = job_id r) settled (jobs w))"
    unfolding transition_Inr[OF assms(1)]
  proof (intro conjI bexI[of _ r])
    show "update_where (\<lambda>j. job_id j = job_id r) settled (jobs w) =
        update_where (\<lambda>j. job_id j = job_id r) (\<lambda>j. vals r (assignments t now (why r) j)) (jobs w)"
    proof (rule update_where_cong)
      fix x assume "x \<in> set (jobs w)" "job_id x = job_id r"
      then have "x = r" by (rule unique_row[OF assms(1,2)])
      then show "settled x = vals r (assignments t now (why r) x)" by (simp add: settled_def Some)
    qed simp
  qed (use aim_legal[OF assms(3) Some] assms(2) in \<open>auto simp: cas_matches_def\<close>)
  then show ?thesis
    by (simp add: settle_row[OF assms(3)] Some jotted_def ordered_append_event)
qed

lemma settle_all:
  assumes "distinct (map job_id (jobs w))" "distinct (map job_id rs)" "set rs \<subseteq> set (jobs w)" "\<forall>r \<in> set rs. sel r"
  shows "\<exists>w'. each_row settle rs (w, acc) = Inr (w', fold jotted rs acc) \<and>
    jobs w' = map (\<lambda>j. if j \<in> set rs then settled j else j) (jobs w) \<and> task_profiles w' = task_profiles w \<and>
    registry_models w' = registry_models w \<and> job_attempts w' = job_attempts w \<and> (ordered_events (job_events w) \<longrightarrow> ordered_events (job_events w'))"
  using assms
proof (induction rs arbitrary: w acc)
  case (Cons r rs)
  obtain w1 where w1: "settle r (w, acc) = Inr (w1, jotted r acc)"
    and rows: "jobs w1 = update_where (\<lambda>j. job_id j = job_id r) settled (jobs w)"
    and rest: "task_profiles w1 = task_profiles w" "registry_models w1 = registry_models w" "job_attempts w1 = job_attempts w"
      "ordered_events (job_events w) \<longrightarrow> ordered_events (job_events w1)"
    using settle_one[of w r acc] Cons.prems by auto
  have "map job_id (jobs w1) = map job_id (jobs w)" unfolding rows by (rule update_where_ids) simp
  then have d1: "distinct (map job_id (jobs w1))" using Cons.prems(1) by simp
  have fresh: "x \<in> set rs \<Longrightarrow> job_id x \<noteq> job_id r" for x using Cons.prems(2) by (metis distinct.simps(2) image_eqI list.simps(9) set_map)
  have sub: "set rs \<subseteq> set (jobs w1)"
  proof
    fix x assume x: "x \<in> set rs"
    then have "x \<in> set (jobs w)" using Cons.prems(3) by auto
    then show "x \<in> set (jobs w1)" using fresh[OF x] unfolding rows set_update_where by (auto intro: rev_image_eqI)
  qed
  obtain w' where w': "each_row settle rs (w1, jotted r acc) = Inr (w', fold jotted rs (jotted r acc))"
    and jobs': "jobs w' = map (\<lambda>j. if j \<in> set rs then settled j else j) (jobs w1)"
    and rest': "task_profiles w' = task_profiles w1" "registry_models w' = registry_models w1" "job_attempts w' = job_attempts w1"
      "ordered_events (job_events w1) \<longrightarrow> ordered_events (job_events w')"
    using Cons.IH[OF d1 _ sub, of "jotted r acc"] Cons.prems(2,4) by force
  have "(if (if job_id j = job_id r then settled j else j) \<in> set rs then settled (if job_id j = job_id r then settled j else j)
      else if job_id j = job_id r then settled j else j) = (if j \<in> set (r # rs) then settled j else j)"
    if "j \<in> set (jobs w)" for j
  proof (cases "job_id j = job_id r")
    case True
    then have "j = r" using unique_row[OF Cons.prems(1) _ that, of r] Cons.prems(3) by auto
    moreover have "settled r \<notin> set rs" using fresh[of "settled r"] by auto
    ultimately show ?thesis by simp
  qed auto
  then have "jobs w' = map (\<lambda>j. if j \<in> set (r # rs) then settled j else j) (jobs w)"
    unfolding jobs' rows update_where_def by simp
  then show ?case using w1 w' rest rest' by auto
qed auto

lemma settle_selected:
  assumes "distinct (map job_id (jobs w))"
  shows "\<exists>w'. each_row settle (filter sel (jobs w)) (w, acc) = Inr (w', fold jotted (filter sel (jobs w)) acc) \<and>
    jobs w' = map (\<lambda>j. if sel j then settled j else j) (jobs w) \<and> task_profiles w' = task_profiles w \<and>
    registry_models w' = registry_models w \<and> job_attempts w' = job_attempts w \<and> (ordered_events (job_events w) \<longrightarrow> ordered_events (job_events w'))"
proof -
  have d: "distinct (map job_id (filter sel (jobs w)))" using assms by (rule distinct_map_filter)
  have s: "\<forall>r \<in> set (filter sel (jobs w)). sel r" by simp
  have eq: "map (\<lambda>j. if j \<in> set (filter sel (jobs w)) then settled j else j) (jobs w) =
      map (\<lambda>j. if sel j then settled j else j) (jobs w)" by (intro map_cong) auto
  show ?thesis using settle_all[OF assms d filter_is_subset s, of acc] unfolding eq .
qed

end

definition reap_target :: "Job \<Rightarrow> JobState option" where
  "reap_target j = recovery_target (job_state j) (job_idempotent j)"

definition reaped :: "instant \<Rightarrow> Job \<Rightarrow> Job" where
  "reaped now j = (case reap_target j of None \<Rightarrow> j
     | Some t \<Rightarrow> reap_values t (lease_owner j) (assignments t now (Some (reap_reason t)) j))"

definition note_reaped :: "Job \<Rightarrow> ReapSummary \<Rightarrow> ReapSummary" where
  "note_reaped row summary =
     (if reap_target row = Some QUEUED then summary\<lparr>reap_requeued := reap_requeued summary @ [job_id row]\<rparr>
      else summary\<lparr>reap_failed := reap_failed summary @ [job_id row]\<rparr>)"

interpretation reap: settle_rows "lease_expired now" reap_target now
  "\<lambda>row. map_option reap_reason (reap_target row)" "\<lambda>row. reap_values (the (reap_target row)) (lease_owner row)"
  "\<lambda>row. Some (''lease held by '' @ str_opt (lease_owner row) @ '' expired in '' @ state_value (job_state row) @ '': '' @
     reap_reason (the (reap_target row)))"
  "\<lambda>row. [(''reason'', JStr (reap_reason (the (reap_target row)))), (''previous_state'', JStr (state_value (job_state row))),
     (''lease_owner'', of_opt_str (lease_owner row))]"
  note_reaped "reap_one now" for now
proof
  fix row :: Job and w :: World and acc :: ReapSummary
  show "reap_one now row (w, acc) =
      (case reap_target row of
         None \<Rightarrow> Inr (w, acc)
       | Some t \<Rightarrow> bind_result (transition (job_id row) (job_state row) t now None
           (map_option reap_reason (reap_target row)) (reap_values (the (reap_target row)) (lease_owner row)) (jobs w)) (\<lambda>rows.
           Inr (append_event (job_id row) (event_type_for t) now
             (Some (''lease held by '' @ str_opt (lease_owner row) @ '' expired in '' @ state_value (job_state row) @ '': '' @
                reap_reason (the (reap_target row))))
             [(''reason'', JStr (reap_reason (the (reap_target row)))), (''previous_state'', JStr (state_value (job_state row))),
              (''lease_owner'', of_opt_str (lease_owner row))] (w\<lparr>jobs := rows\<rparr>), note_reaped row acc)))"
    by (simp add: reap_one_def reap_target_def note_reaped_def split: option.splits)
qed (auto simp: reap_target_def recovery_target_legal reap_values_def)

lemma reap_settled: "reap.settled now j = reaped now j"
  by (simp add: reap.settled_def reaped_def split: option.splits)

text \<open>A row's lease columns: both or none, and only while a worker may be working on the job.\<close>

definition lease_ok :: "Job \<Rightarrow> bool" where
  "lease_ok j \<longleftrightarrow> (lease_owner j = None \<longleftrightarrow> lease_expires_at j = None) \<and>
     (lease_expires_at j \<noteq> None \<longrightarrow> job_state j \<in> IN_FLIGHT_STATES)"

lemma assignments_fields [simp]:
  "job_state (assignments t now r j) = t" "attempt (assignments t now r j) = attempt j"
  "job_idempotent (assignments t now r j) = job_idempotent j" "queued_at (assignments t now r j) = queued_at j"
  "created_at (assignments t now r j) = created_at j" "job_base_priority (assignments t now r j) = job_base_priority j"
  "job_effective_priority (assignments t now r j) = job_effective_priority j" "job_class (assignments t now r j) = job_class j"
  "state_reason (assignments t now r j) = r" "job_source (assignments t now r j) = job_source j"
  "idempotency_key (assignments t now r j) = idempotency_key j" "max_wait_seconds (assignments t now r j) = max_wait_seconds j"
  "cancel_requested (assignments t now r j) = cancel_requested j"
  "idempotency_expires_at (assignments t now r j) = idempotency_expires_at j"
  by (simp_all add: assignments_def Let_def)

lemma assignments_lease:
  "lease_owner (assignments t now r j) = (if t \<in> IN_FLIGHT_STATES then lease_owner j else None)"
  "lease_expires_at (assignments t now r j) = (if t \<in> IN_FLIGHT_STATES then lease_expires_at j else None)"
  "completed_at (assignments t now r j) = (if t \<in> TERMINAL_STATES then Some now else completed_at j)"
  "scheduled_for (assignments t now r j) = (if t = QUEUED then Some now else scheduled_for j)"
  by (simp_all add: assignments_def Let_def in_flight_iff)

lemma in_flight_members [simp]:
  "FAILED \<notin> IN_FLIGHT_STATES" "CANCELLED \<notin> IN_FLIGHT_STATES" "COMPLETED \<notin> IN_FLIGHT_STATES" "QUEUED \<notin> IN_FLIGHT_STATES"
  "WAITING_RESOURCES \<notin> IN_FLIGHT_STATES" "LEASED \<in> IN_FLIGHT_STATES" "EXECUTING \<in> IN_FLIGHT_STATES" "CANCELLING \<in> IN_FLIGHT_STATES"
  "FAILED \<in> TERMINAL_STATES" "CANCELLED \<in> TERMINAL_STATES" "COMPLETED \<in> TERMINAL_STATES" "QUEUED \<notin> TERMINAL_STATES"
  "WAITING_RESOURCES \<notin> TERMINAL_STATES" "LEASED \<notin> TERMINAL_STATES" "EXECUTING \<notin> TERMINAL_STATES" "CANCELLING \<notin> TERMINAL_STATES"
  by (simp_all add: state_set_defs)

lemma recovery_target_not_in_flight: "recovery_target s i = Some t \<Longrightarrow> t \<notin> IN_FLIGHT_STATES"
  by (auto simp: recovery_target_def state_set_defs split: if_splits)

lemma reaped_fields [simp]:
  "job_id (reaped now j) = job_id j" "attempt (reaped now j) = attempt j" "queued_at (reaped now j) = queued_at j"
  "job_source (reaped now j) = job_source j" "idempotency_key (reaped now j) = idempotency_key j"
  by (simp_all add: reaped_def reap_values_def split: option.splits)

lemma reaped_released:
  assumes "lease_ok j" "lease_expired now j"
  shows "lease_expires_at (reaped now j) = None \<and> reap_target j = Some (job_state (reaped now j))"
proof -
  have "job_state j \<in> IN_FLIGHT_STATES" using assms by (auto simp: lease_ok_def lease_expired_def split: option.splits)
  then obtain t where t: "reap_target j = Some t" using recovery_target_defined by (auto simp: reap_target_def)
  then have "t \<notin> IN_FLIGHT_STATES" using recovery_target_not_in_flight by (simp add: reap_target_def)
  then show ?thesis using t by (simp add: reaped_def reap_values_def assignments_lease)
qed

lemma reap_rows:
  assumes "distinct (map job_id (jobs w))"
  shows "\<exists>s w'. reap_expired_leases now w = Inr (s, w') \<and>
    jobs w' = map (\<lambda>j. if lease_expired now j then reaped now j else j) (jobs w) \<and> job_attempts w' = job_attempts w \<and>
    (ordered_events (job_events w) \<longrightarrow> ordered_events (job_events w'))"
  using reap.settle_selected[OF assms, of now "\<lparr>reap_requeued = [], reap_failed = []\<rparr>"]
  by (auto simp: reap_expired_leases_def reap_settled bind_result_def)

text \<open>
  Reaping never raises, and it is complete: with leases only on in-flight rows, no expired
  lease is left; every row whose lease had expired is in the state recovery names for it
  (queued when idempotent, failed otherwise, cancelled when it was being cancelled) with its
  attempt counter as it was, and every other row is untouched.
\<close>

theorem reap_complete:
  assumes "distinct (map job_id (jobs w))" "\<forall>j \<in> set (jobs w). lease_ok j"
  shows "\<exists>s w'. reap_expired_leases now w = Inr (s, w') \<and>
    (\<forall>j \<in> set (jobs w'). \<not> lease_expired now j) \<and> length (jobs w') = length (jobs w) \<and>
    (\<forall>n < length (jobs w). let j = jobs w ! n; j' = jobs w' ! n in
       job_id j' = job_id j \<and> attempt j' = attempt j \<and>
       (if lease_expired now j then recovery_target (job_state j) (job_idempotent j) = Some (job_state j') \<and> lease_owner j' = None
        else j' = j))"
proof -
  obtain s w' where r: "reap_expired_leases now w = Inr (s, w')"
    and rows: "jobs w' = map (\<lambda>j. if lease_expired now j then reaped now j else j) (jobs w)"
    using reap_rows[OF assms(1), of now] by blast
  have ok: "\<not> lease_expired now (reaped now j) \<and> recovery_target (job_state j) (job_idempotent j) = Some (job_state (reaped now j)) \<and>
      lease_owner (reaped now j) = None"
    if "j \<in> set (jobs w)" "lease_expired now j" for j
  proof -
    have "lease_ok j" using that assms(2) by blast
    from reaped_released[OF this that(2)] obtain t where t: "reap_target j = Some t" "job_state (reaped now j) = t"
      and none: "lease_expires_at (reaped now j) = None" by auto
    have "t \<notin> IN_FLIGHT_STATES" using t(1) recovery_target_not_in_flight by (simp add: reap_target_def)
    then have "lease_owner (reaped now j) = None" using t by (simp add: reaped_def reap_values_def assignments_lease)
    then show ?thesis using none t by (simp add: lease_expired_def reap_target_def)
  qed
  show ?thesis using r ok by (intro exI[of _ s] exI[of _ w']) (auto simp: rows Let_def)
qed

definition plain_job :: "string \<Rightarrow> JobState \<Rightarrow> Job" where
  "plain_job i st = \<lparr>job_id = i, task_profile_id = ''chat'', task_profile_version = ''1'', job_class = NORMAL,
     job_base_priority = 400, job_effective_priority = 400, job_source = ''app'', job_state = st, state_reason = None,
     idempotency_key = None, job_idempotent = True, idempotency_expires_at = None,
     request_json = Some (as_request_json pinned_submission), prompt_hash = None, selected_model_id = None,
     selected_adapter_id = None, selected_subject_canonical_id = None,
     job_runtime_profile_hash = None, job_served_context = None, job_served_context_source = None,
     job_target_gpu_index = None, attempt = 0, max_attempts = 3, lease_owner = None, lease_expires_at = None,
     cancel_requested = False, created_at = 0, scheduled_for = Some 0, queued_at = Some 0, started_at = None,
     completed_at = None, max_wait_seconds = None, queue_wait_ms = None, job_result = no_result,
     error_code = None, error_text = None\<rparr>"

definition world_of :: "Job list \<Rightarrow> World" where
  "world_of rows = \<lparr>job_events = [], high = [], live = [], staged = [], published = [], jobs = rows,
     job_attempts = [], validations = [], decision_jobs = [],
     task_profiles = [\<lparr>tp_profile_id = ''chat'', tp_version = ''1'', tp_weights = [], tp_constraints = [],
       tp_execution = [], tp_validation = [], tp_enabled = True, tp_updated_at = 0\<rparr>],
     registry_models = [], queue_settings_rows = []\<rparr>"

definition leased_job :: "string \<Rightarrow> JobState \<Rightarrow> string \<Rightarrow> Job" where
  "leased_job i st owner = (plain_job i st)\<lparr>lease_owner := Some owner, lease_expires_at := Some 5\<rparr>"

lemma plain_job_simps [simp]:
  "job_id (plain_job i st) = i" "job_state (plain_job i st) = st" "lease_owner (plain_job i st) = None"
  "lease_expires_at (plain_job i st) = None" "job_idempotent (plain_job i st) = True" "attempt (plain_job i st) = 0"
  "queued_at (plain_job i st) = Some 0" "scheduled_for (plain_job i st) = Some 0" "completed_at (plain_job i st) = None"
  "job_effective_priority (plain_job i st) = 400" "created_at (plain_job i st) = 0" "idempotency_key (plain_job i st) = None"
  "job_base_priority (plain_job i st) = 400" "job_class (plain_job i st) = NORMAL" "selected_model_id (plain_job i st) = None"
  "job_source (plain_job i st) = ''app''"
  by (simp_all add: plain_job_def)

lemma leased_job_simps [simp]:
  "job_id (leased_job i st p) = i" "job_state (leased_job i st p) = st" "lease_owner (leased_job i st p) = Some p"
  "lease_expires_at (leased_job i st p) = Some 5" "job_idempotent (leased_job i st p) = True" "queued_at (leased_job i st p) = Some 0"
  "completed_at (leased_job i st p) = None" "scheduled_for (leased_job i st p) = Some 0" "idempotency_key (leased_job i st p) = None"
  by (simp_all add: leased_job_def)

lemma world_of_simps [simp]: "jobs (world_of rows) = rows" "job_events (world_of rows) = []"
  by (simp_all add: world_of_def)

theorem reap_complete_witness:
  "\<exists>s w'. reap_expired_leases 9 (world_of [leased_job ''a'' EXECUTING ''p/worker-0'', plain_job ''b'' QUEUED]) = Inr (s, w') \<and>
     map job_state (jobs w') = [QUEUED, QUEUED]"
proof -
  let ?rows = "[leased_job ''a'' EXECUTING ''p/worker-0'', plain_job ''b'' QUEUED]"
  have "distinct (map job_id (jobs (world_of ?rows)))" "\<forall>j \<in> set (jobs (world_of ?rows)). lease_ok j"
    by (simp_all add: lease_ok_def)
  from reap_complete[OF this, of 9] obtain s w' where r: "reap_expired_leases 9 (world_of ?rows) = Inr (s, w')"
    and len: "length (jobs w') = 2"
    and each: "\<forall>n < 2. let j = ?rows ! n; j' = jobs w' ! n in
       job_id j' = job_id j \<and> attempt j' = attempt j \<and>
       (if lease_expired 9 j then recovery_target (job_state j) (job_idempotent j) = Some (job_state j') \<and> lease_owner j' = None
        else j' = j)" by (auto simp: numeral_2_eq_2)
  have "job_state (jobs w' ! 1) = QUEUED" "job_state (jobs w' ! 0) = QUEUED"
    using each[rule_format, of 1] each[rule_format, of 0]
    by (simp_all add: lease_expired_def Let_def recovery_target_def state_set_defs)
  moreover have "jobs w' = [jobs w' ! 0, jobs w' ! 1]"
    using len by (intro nth_equalityI) (auto simp: less_Suc_eq numeral_2_eq_2)
  ultimately have "map job_state (jobs w') = [QUEUED, QUEUED]" by (metis list.simps(8,9))
  then show ?thesis using r by (intro exI[of _ s] exI[of _ w']) simp
qed

end
