(* ===== verification/Queue_Correctness.thy ===== *)
theory Queue_Correctness
  imports Job_Queue
begin

section \<open>What the queue's operations guarantee\<close>

text \<open>
  Properties of the single operations of \<open>Job_Queue\<close>: which job a claim takes and what it
  changes, the fence a transition puts between a worker and a job it has lost, the ageing sweep as
  a refinement of the pure priority rule of \<open>Priority\<close>, and durable idempotency of submissions
  under concurrent callers.
\<close>

subsection \<open>Claiming\<close>

definition leased_by :: "string \<Rightarrow> instant \<Rightarrow> int \<Rightarrow> Job \<Rightarrow> Job" where
  "leased_by owner now secs j = j\<lparr>job_state := LEASED, state_reason := None, lease_owner := Some owner,
     lease_expires_at := Some (now + secs * 1000000)\<rparr>"

lemma claim_matching_Some:
  assumes "claim_matching owner now ls extra rows = Some (i, rows')"
  shows "\<exists>j \<in> set rows. eligible now j \<and> extra j \<and> i = job_id j \<and>
    (\<forall>k \<in> set rows. eligible now k \<and> extra k \<longrightarrow> claim_order j \<le> claim_order k) \<and>
    rows' = update_where (\<lambda>r. job_id r = i \<and> job_state r = QUEUED) (leased_by owner now ls) rows"
proof -
  let ?f = "filter (\<lambda>j. eligible now j \<and> extra j) rows"
  obtain j js where s: "sort_key claim_order ?f = j # js" using assms by (cases "sort_key claim_order ?f") (auto simp: claim_matching_def)
  have "set (sort_key claim_order ?f) = set (j # js)" unfolding s ..
  then have set: "set ?f = set (j # js)" unfolding set_sort .
  have "sorted (map claim_order (j # js))" unfolding s[symmetric] by simp
  then have "\<forall>k \<in> set ?f. claim_order j \<le> claim_order k" unfolding set by auto
  moreover have "j \<in> set ?f" unfolding set by simp
  ultimately show ?thesis using assms s
    by (intro bexI[of _ j]) (auto simp: claim_matching_def leased_by_def[abs_def])
qed

lemma claim_matching_None:
  "claim_matching owner now ls extra rows = None \<longleftrightarrow> (\<forall>j \<in> set rows. \<not> (eligible now j \<and> extra j))"
proof -
  have "claim_matching owner now ls extra rows = None \<longleftrightarrow> sort_key claim_order (filter (\<lambda>j. eligible now j \<and> extra j) rows) = []"
    by (simp add: claim_matching_def split: list.splits)
  also have "\<dots> \<longleftrightarrow> filter (\<lambda>j. eligible now j \<and> extra j) rows = []"
    by (metis set_empty set_sort)
  finally show ?thesis by (simp add: filter_empty_conv)
qed

lemma claim_order_le:
  "claim_order j \<le> claim_order k \<longleftrightarrow> job_effective_priority k < job_effective_priority j \<or>
     job_effective_priority k = job_effective_priority j \<and> created_at j \<le> created_at k"
  by (auto simp: claim_order_def)

lemma top_priority_Some:
  assumes "top_priority now rows = Some t" "k \<in> set rows" "eligible now k"
  shows "job_effective_priority k \<le> t"
proof -
  obtain j js where f: "filter (eligible now) rows = j # js" and t: "t = fold max (map job_effective_priority js) (job_effective_priority j)"
    using assms(1) by (auto simp: top_priority_def split: list.splits)
  have "k \<in> set (j # js)" unfolding f[symmetric] using assms(2,3) by simp
  then show ?thesis unfolding t
    using fold_max_start[of "job_effective_priority j" "map job_effective_priority js"]
      fold_max_ge[of "job_effective_priority k" "map job_effective_priority js" "job_effective_priority j"] by auto
qed

definition affinity_open :: "AffinityHint option \<Rightarrow> Job \<Rightarrow> bool" where
  "affinity_open affinity j \<longleftrightarrow>
     (\<exists>h m. affinity = Some h \<and> streak h < max_streak h \<and> selected_model_id j = Some m \<and> m \<in> set (resident_model_ids h))"

lemma claim_choice_Some:
  assumes "claim_choice owner now ls affinity rows = Some ((i, rows'), affine)"
  shows "\<exists>j \<in> set rows. eligible now j \<and> i = job_id j \<and>
    (\<forall>k \<in> set rows. eligible now k \<longrightarrow> job_effective_priority k \<le> job_effective_priority j) \<and>
    (if affine then affinity_open affinity j
     else (\<forall>k \<in> set rows. eligible now k \<and> job_effective_priority k = job_effective_priority j \<longrightarrow> created_at j \<le> created_at k)) \<and>
    rows' = update_where (\<lambda>r. job_id r = i \<and> job_state r = QUEUED) (leased_by owner now ls) rows"
proof (cases affine)
  case True
  then obtain h t where h: "affinity = Some h" "streak h < max_streak h" "top_priority now rows = Some t"
    and m: "claim_matching owner now ls (\<lambda>j. job_effective_priority j = t \<and> (case selected_model_id j of None \<Rightarrow> False
         | Some m \<Rightarrow> m \<in> set (resident_model_ids h))) rows = Some (i, rows')"
    using assms by (auto simp: claim_choice_def Let_def split: option.splits if_splits)
  from claim_matching_Some[OF m] obtain j where j: "j \<in> set rows" "eligible now j" "job_effective_priority j = t" "i = job_id j"
    "rows' = update_where (\<lambda>r. job_id r = i \<and> job_state r = QUEUED) (leased_by owner now ls) rows"
    and res: "case selected_model_id j of None \<Rightarrow> False | Some m \<Rightarrow> m \<in> set (resident_model_ids h)" by blast
  have "affinity_open affinity j" using h(1,2) res by (auto simp: affinity_open_def split: option.splits)
  then show ?thesis using j True top_priority_Some[OF h(3)] by auto
next
  case False
  then have "claim_matching owner now ls (\<lambda>_. True) rows = Some (i, rows')"
    using assms by (auto simp: claim_choice_def Let_def split: option.splits)
  from claim_matching_Some[OF this] False show ?thesis by (fastforce simp: claim_order_le)
qed

lemma claim_choice_None:
  "claim_choice owner now ls affinity rows = None \<longleftrightarrow> (\<forall>j \<in> set rows. \<not> eligible now j)"
proof
  assume "claim_choice owner now ls affinity rows = None"
  then have "claim_matching owner now ls (\<lambda>_. True) rows = None" by (auto simp: claim_choice_def Let_def split: option.splits)
  then show "\<forall>j \<in> set rows. \<not> eligible now j" by (simp add: claim_matching_None)
next
  assume none: "\<forall>j \<in> set rows. \<not> eligible now j"
  show "claim_choice owner now ls affinity rows = None"
  proof (rule ccontr)
    assume "claim_choice owner now ls affinity rows \<noteq> None"
    then obtain i rows' affine where "claim_choice owner now ls affinity rows = Some ((i, rows'), affine)" by (metis not_None_eq surj_pair)
    from claim_choice_Some[OF this] none show False by blast
  qed
qed

lemma claim_rows:
  assumes "distinct (map job_id rows)" "j \<in> set rows" "job_state j = QUEUED"
  shows "update_where (\<lambda>r. job_id r = job_id j \<and> job_state r = QUEUED) f rows = update_where (\<lambda>r. job_id r = job_id j) f rows"
  using unique_row[OF assms(1,2)] assms(3) by (intro update_where_cong) auto

lemma get_row_update:
  assumes "distinct (map job_id rows)" "j \<in> set rows" "\<And>r. job_id (f r) = job_id r"
  shows "get_row (job_id j) (update_where (\<lambda>r. job_id r = job_id j) f rows) = Some (f j)"
proof -
  have "map job_id (update_where (\<lambda>r. job_id r = job_id j) f rows) = map job_id rows" by (rule update_where_ids) (rule assms(3))
  then have "distinct (map job_id (update_where (\<lambda>r. job_id r = job_id j) f rows))" using assms(1) by simp
  then show ?thesis using assms(2,3) by (auto simp: get_row_Some set_update_where)
qed

lemma claimed_attempt_row: "claimed cv j affine = Inr c \<Longrightarrow> claimed_attempt c = attempt j"
  by (auto simp: claimed_def bind_result_Inr_iff split: option.splits)

lemma claim_Some:
  assumes "distinct (map job_id (jobs w))" "claim cv owner now ls affinity w = Inr (Some c, w')"
  shows "\<exists>j \<in> set (jobs w). eligible now j \<and> claimed_job_id c = job_id j \<and> queued_at j \<noteq> None \<and>
    claimed cv (leased_by owner now ls j) (by_affinity c) = Inr c \<and>
    (\<forall>k \<in> set (jobs w). eligible now k \<longrightarrow> job_effective_priority k \<le> job_effective_priority j) \<and>
    (if by_affinity c then affinity_open affinity j
     else (\<forall>k \<in> set (jobs w). eligible now k \<and> job_effective_priority k = job_effective_priority j \<longrightarrow> created_at j \<le> created_at k)) \<and>
    jobs w' = update_where (\<lambda>r. job_id r = job_id j) (leased_by owner now ls) (jobs w) \<and>
    (ordered_events (job_events w) \<longrightarrow> ordered_events (job_events w'))"
proof -
  obtain i rows affine where ch: "claim_choice owner now ls affinity (jobs w) = Some ((i, rows), affine)"
    using assms(2) by (auto simp: claim_def split: option.splits)
  from claim_choice_Some[OF ch] obtain j where j: "j \<in> set (jobs w)" "eligible now j" "i = job_id j"
    and best: "\<forall>k \<in> set (jobs w). eligible now k \<longrightarrow> job_effective_priority k \<le> job_effective_priority j"
      "if affine then affinity_open affinity j
       else (\<forall>k \<in> set (jobs w). eligible now k \<and> job_effective_priority k = job_effective_priority j \<longrightarrow> created_at j \<le> created_at k)"
    and rows: "rows = update_where (\<lambda>r. job_id r = i \<and> job_state r = QUEUED) (leased_by owner now ls) (jobs w)" by blast
  have q: "job_state j = QUEUED" using j(2) by (simp add: eligible_def)
  have rows': "rows = update_where (\<lambda>r. job_id r = job_id j) (leased_by owner now ls) (jobs w)"
    unfolding rows j(3) by (rule claim_rows[OF assms(1) j(1) q])
  have get: "get_row i rows = Some (leased_by owner now ls j)"
    unfolding rows' j(3) by (rule get_row_update[OF assms(1) j(1)]) (simp add: leased_by_def)
  have c: "claimed cv (leased_by owner now ls j) affine = Inr c" and w': "w' = commit (append_event i (event_type_for LEASED) now
      (Some (''leased by '' @ owner @ (if affine then '' (affinity)'' else [])))
      [(''lease_owner'', JStr owner), (''lease_seconds'', JInt ls), (''affinity'', JBool affine)] (w\<lparr>jobs := rows\<rparr>))"
    using assms(2) by (auto simp: claim_def ch get bind_result_Inr_iff)
  have "claimed_job_id c = job_id j \<and> queued_at j \<noteq> None \<and> by_affinity c = affine"
    using c by (auto simp: claimed_def bind_result_Inr_iff leased_by_def split: option.splits)
  moreover have "jobs w' = rows" "ordered_events (job_events w) \<longrightarrow> ordered_events (job_events w')"
    unfolding w' by (simp_all add: ordered_append_event)
  ultimately show ?thesis using j best c rows' by (intro bexI[of _ j]) auto
qed

text \<open>
  C3. A claim takes the best job and only takes it: nothing is claimed exactly when no queued
  job is due, and otherwise the job taken is due, none due has a higher effective priority, and
  among equals it is the oldest, unless residency breaks the tie, which it may only while the
  streak is below its bound and only for a job whose selected model is resident. The one row
  changed is the job's: it is leased to the claimer until the lease ends, and nothing else of it,
  its attempt counter included, is touched.
\<close>

theorem claim_takes_best:
  assumes "distinct (map job_id (jobs w))"
  shows "(claim cv owner now ls affinity w = Inr (None, w') \<longleftrightarrow> w' = w \<and> (\<forall>j \<in> set (jobs w). \<not> eligible now j)) \<and>
    (claim cv owner now ls affinity w = Inr (Some c, w') \<longrightarrow>
      (\<exists>j \<in> set (jobs w). eligible now j \<and> claimed_job_id c = job_id j \<and> claimed_attempt c = attempt j \<and>
        (\<forall>k \<in> set (jobs w). eligible now k \<longrightarrow> job_effective_priority k \<le> job_effective_priority j) \<and>
        (if by_affinity c
         then \<exists>h m. affinity = Some h \<and> streak h < max_streak h \<and> selected_model_id j = Some m \<and> m \<in> set (resident_model_ids h)
         else \<forall>k \<in> set (jobs w). eligible now k \<and> job_effective_priority k = job_effective_priority j \<longrightarrow> created_at j \<le> created_at k) \<and>
        jobs w' = update_where (\<lambda>r. job_id r = job_id j) (\<lambda>r. r\<lparr>job_state := LEASED, state_reason := None,
          lease_owner := Some owner, lease_expires_at := Some (now + ls * 1000000)\<rparr>) (jobs w)))"
proof (intro conjI impI)
  have "claim cv owner now ls affinity w = Inr (None, w') \<longleftrightarrow>
      claim_choice owner now ls affinity (jobs w) = None \<and> w' = w"
    by (auto simp: claim_def bind_result_def split: option.splits sum.splits)
  then show "claim cv owner now ls affinity w = Inr (None, w') \<longleftrightarrow> w' = w \<and> (\<forall>j \<in> set (jobs w). \<not> eligible now j)"
    unfolding claim_choice_None by blast
next
  assume "claim cv owner now ls affinity w = Inr (Some c, w')"
  from claim_Some[OF assms this] obtain j where j: "j \<in> set (jobs w)" "eligible now j" "claimed_job_id c = job_id j"
    and c: "claimed cv (leased_by owner now ls j) (by_affinity c) = Inr c"
    and best: "\<forall>k \<in> set (jobs w). eligible now k \<longrightarrow> job_effective_priority k \<le> job_effective_priority j"
      "if by_affinity c then affinity_open affinity j
       else (\<forall>k \<in> set (jobs w). eligible now k \<and> job_effective_priority k = job_effective_priority j \<longrightarrow> created_at j \<le> created_at k)"
    and rows: "jobs w' = update_where (\<lambda>r. job_id r = job_id j) (leased_by owner now ls) (jobs w)" by blast
  have "claimed_attempt c = attempt j"
    using claimed_attempt_row[OF c] by (simp add: leased_by_def)
  then show "\<exists>j \<in> set (jobs w). eligible now j \<and> claimed_job_id c = job_id j \<and> claimed_attempt c = attempt j \<and>
        (\<forall>k \<in> set (jobs w). eligible now k \<longrightarrow> job_effective_priority k \<le> job_effective_priority j) \<and>
        (if by_affinity c
         then \<exists>h m. affinity = Some h \<and> streak h < max_streak h \<and> selected_model_id j = Some m \<and> m \<in> set (resident_model_ids h)
         else \<forall>k \<in> set (jobs w). eligible now k \<and> job_effective_priority k = job_effective_priority j \<longrightarrow> created_at j \<le> created_at k) \<and>
        jobs w' = update_where (\<lambda>r. job_id r = job_id j) (\<lambda>r. r\<lparr>job_state := LEASED, state_reason := None,
          lease_owner := Some owner, lease_expires_at := Some (now + ls * 1000000)\<rparr>) (jobs w)"
    using j best rows unfolding affinity_open_def leased_by_def[abs_def] by (intro bexI[of _ j] conjI)
qed

definition two_jobs :: World where
  "two_jobs = world_of [plain_job ''a'' QUEUED, (plain_job ''b'' QUEUED)\<lparr>job_effective_priority := 450, created_at := 3\<rparr>]"

lemma two_jobs_claim:
  "\<exists>c w'. claim plain_conversions ''p/worker-0'' 9 60 None two_jobs = Inr (Some c, w') \<and> \<not> by_affinity c"
proof -
  have wf: "well_formed_submission plain_conversions pinned_submission"
    by (simp add: well_formed_submission_def plain_conversions_def pinned_submission_def transcript_def user_message_def)
  have sub: "sub_job_class pinned_submission = NORMAL" "sub_idempotent pinned_submission = True"
    "sub_idempotency_key pinned_submission = None" "sub_source pinned_submission = ''app''"
    by (simp_all add: pinned_submission_def)
  note codec = request_codec[OF wf, unfolded sub]
  have e: "eligible 9 (plain_job i QUEUED)" for i by (simp add: eligible_def)
  have e': "eligible 9 ((plain_job i QUEUED)\<lparr>job_effective_priority := 450, created_at := 3\<rparr>)" for i by (simp add: eligible_def)
  have req: "request_json (plain_job i st) = Some (as_request_json pinned_submission)" "max_wait_seconds (plain_job i st) = None" for i st
    by (simp_all add: plain_job_def)
  show ?thesis
    by (simp add: claim_def two_jobs_def claim_choice_def claim_matching_def e e' claim_order_def update_where_def
        get_row_def claimed_def map_error_def req codec)
qed

theorem claim_takes_best_witness:
  "\<exists>c w'. claim plain_conversions ''p/worker-0'' 9 60 None two_jobs = Inr (Some c, w') \<and> claimed_job_id c = ''b''"
proof -
  obtain c w' where c: "claim plain_conversions ''p/worker-0'' 9 60 None two_jobs = Inr (Some c, w')" "\<not> by_affinity c"
    using two_jobs_claim by blast
  have "distinct (map job_id (jobs two_jobs))" by (simp add: two_jobs_def)
  from claim_takes_best[OF this, of plain_conversions "''p/worker-0''" 9 60 None w' c] c(1)
  obtain j where "j \<in> set (jobs two_jobs)" "claimed_job_id c = job_id j"
    "\<forall>k \<in> set (jobs two_jobs). eligible 9 k \<longrightarrow> job_effective_priority k \<le> job_effective_priority j" by blast
  then have "claimed_job_id c = ''b''" by (auto simp: two_jobs_def eligible_def)
  then show ?thesis using c(1) by blast
qed

subsection \<open>The fence\<close>

text \<open>
  C5. A transition is a compare-and-set: it succeeds exactly on an edge of the table when the
  row is in the state the caller believes and, for a worker, still leased to that worker, and
  then it changes that row alone; otherwise it raises and there is no new table. A worker whose
  lease was reclaimed by anyone, or whose job was cancelled or recovered, is refused.
\<close>

theorem transition_fenced:
  assumes "distinct (map job_id rows)"
  shows "((\<exists>rows'. transition i current target now owner rsn values rows = Inr rows') \<longleftrightarrow>
      is_legal current target \<and>
      (\<exists>j \<in> set rows. job_id j = i \<and> job_state j = current \<and> (\<forall>p. owner = Some p \<longrightarrow> lease_owner j = Some p))) \<and>
    (\<forall>rows'. transition i current target now owner rsn values rows = Inr rows' \<longrightarrow>
      rows' = map (\<lambda>j. if job_id j = i then values (assignments target now rsn j) else j) rows) \<and>
    (\<forall>p. is_legal current target \<and> owner = Some p \<and> (\<forall>j \<in> set rows. job_id j = i \<longrightarrow> lease_owner j \<noteq> Some p) \<longrightarrow>
      transition i current target now owner rsn values rows = Inl (TransitionRefused i current target owner))"
proof (intro conjI allI impI)
  have m: "cas_matches i current owner j \<longleftrightarrow> job_id j = i \<and> job_state j = current \<and> (\<forall>p. owner = Some p \<longrightarrow> lease_owner j = Some p)"
    for j by (cases owner) (auto simp: cas_matches_def)
  show "(\<exists>rows'. transition i current target now owner rsn values rows = Inr rows') \<longleftrightarrow>
      is_legal current target \<and>
      (\<exists>j \<in> set rows. job_id j = i \<and> job_state j = current \<and> (\<forall>p. owner = Some p \<longrightarrow> lease_owner j = Some p))"
    unfolding transition_Inr[OF assms] m by blast
next
  fix rows' assume "transition i current target now owner rsn values rows = Inr rows'"
  then show "rows' = map (\<lambda>j. if job_id j = i then values (assignments target now rsn j) else j) rows"
    unfolding transition_Inr[OF assms] by (simp add: update_where_def)
next
  fix p assume p: "is_legal current target \<and> owner = Some p \<and> (\<forall>j \<in> set rows. job_id j = i \<longrightarrow> lease_owner j \<noteq> Some p)"
  then have "filter (cas_matches i current owner) rows = []" by (auto simp: filter_empty_conv cas_matches_def)
  then show "transition i current target now owner rsn values rows = Inl (TransitionRefused i current target owner)"
    using p by (simp add: transition_def map_error_def check_transition_def)
qed

theorem transition_fenced_witness:
  "transition ''a'' EXECUTING VALIDATING 9 (Some ''p/worker-0'') None id [leased_job ''a'' EXECUTING ''p/worker-1''] =
     Inl (TransitionRefused ''a'' EXECUTING VALIDATING (Some ''p/worker-0''))"
  using transition_fenced[of "[leased_job ''a'' EXECUTING ''p/worker-1'']" "''a''" EXECUTING VALIDATING 9 "Some ''p/worker-0''" None id]
  by (simp add: is_legal_def TRANSITIONS_def)

subsection \<open>The ageing sweep\<close>

lemma trunc_unit: "x < 1 \<Longrightarrow> trunc (max x 0) = 0"
  by (auto simp: trunc_def max_def floor_eq_iff)

lemma class_cap_band: "class_cap c + overflow = ageing_cap c overflow"
  by (cases c) (simp_all add: class_cap_def ageing_cap_def)

text \<open>The statement's arithmetic, clamped after scaling, is the pure rule's, clamped before.\<close>

lemma fresh_priority_effective:
  assumes "0 \<le> ageing_priority_per_minute qs"
  shows "fresh_priority waited qs now q j =
    effective_priority (job_base_priority j) (job_class j) (waited now q) (ageing_priority_per_minute qs) (overflow_allowance qs)"
proof -
  let ?w = "waited now q" and ?r = "ageing_priority_per_minute qs"
  let ?p = "fl (fl (fl (?w / 60) * ?r) + AGEING_EPSILON_POINTS)"
  have "trunc (max ?p 0) = aged_points ?w ?r"
  proof (cases "0 \<le> ?w")
    case True
    then have "0 \<le> ?p" using assms epsilon_bounds by (intro fl_nonneg add_nonneg_nonneg mult_nonneg_nonneg) auto
    then show ?thesis using True by (simp add: aged_points_def trunc_def max_def)
  next
    case False
    have e: "fl AGEING_EPSILON_POINTS < 1" by code_simp
    have "fl (?w / 60) \<le> fl 0" using False by (intro fl_mono) simp
    then have "fl (?w / 60) * ?r \<le> 0" using assms by (simp add: mult_nonpos_nonneg)
    then have "fl (fl (?w / 60) * ?r) \<le> fl 0" by (intro fl_mono)
    then have "?p \<le> fl AGEING_EPSILON_POINTS" by (intro fl_mono) simp
    then have "trunc (max ?p 0) = 0" using e by (intro trunc_unit) simp
    moreover have "aged_points ?w ?r = 0"
    proof -
      have "0 \<le> fl AGEING_EPSILON_POINTS" using epsilon_bounds by (intro fl_nonneg)
      moreover have "aged_points ?w ?r = \<lfloor>fl AGEING_EPSILON_POINTS\<rfloor>" using False by (simp add: aged_points_def max_def)
      ultimately show ?thesis using e by (simp add: floor_eq_iff)
    qed
    ultimately show ?thesis by simp
  qed
  then show ?thesis by (simp add: fresh_priority_def Let_def effective_priority_aged class_cap_band)
qed

definition swept :: "(instant \<Rightarrow> instant \<Rightarrow> float64) \<Rightarrow> QueueSettings \<Rightarrow> instant \<Rightarrow> Job \<Rightarrow> Job" where
  "swept waited qs now j =
     (case queued_at j of
        Some q \<Rightarrow> if job_state j \<in> WAITING_STATES
          then j\<lparr>job_effective_priority := effective_priority (job_base_priority j) (job_class j) (waited now q)
                   (ageing_priority_per_minute qs) (overflow_allowance qs)\<rparr>
          else j
      | None \<Rightarrow> j)"

lemma fresh_priority_stable:
  "fresh_priority waited qs now q (j\<lparr>job_effective_priority := p\<rparr>) = fresh_priority waited qs now q j"
  by (simp add: fresh_priority_def Let_def)

lemma priority_update_same: "j\<lparr>job_effective_priority := p\<rparr> = j \<longleftrightarrow> job_effective_priority j = p"
proof
  assume "j\<lparr>job_effective_priority := p\<rparr> = j"
  then have "job_effective_priority (j\<lparr>job_effective_priority := p\<rparr>) = job_effective_priority j" by (rule arg_cong)
  then show "job_effective_priority j = p" by simp
qed (cases j, simp)

lemma swept_row:
  assumes "0 \<le> ageing_priority_per_minute qs"
  shows "(if stale_priority waited qs now j
      then j\<lparr>job_effective_priority := fresh_priority waited qs now (the (queued_at j)) j\<rparr> else j) = swept waited qs now j"
    and "stale_priority waited qs now j \<longleftrightarrow> swept waited qs now j \<noteq> j"
    and "\<not> stale_priority waited qs now (swept waited qs now j)"
  unfolding stale_priority_def swept_def fresh_priority_effective[OF assms, symmetric]
  by (simp_all add: fresh_priority_stable priority_update_same split: option.split)

text \<open>
  C33. The ageing sweep, one SQL statement, computes the pure priority rule: after it every
  waiting job has exactly the effective priority \<open>effective_priority\<close> gives for the time it
  has waited, a negative time included, every other row is unchanged, the count returned is the
  number of rows that changed, and a second sweep at the same instant changes nothing.
\<close>

theorem ageing_sweep_refines:
  assumes "0 \<le> ageing_priority_per_minute qs"
  shows "ageing_sweep waited now qs w =
      (int (length (filter (\<lambda>j. swept waited qs now j \<noteq> j) (jobs w))), w\<lparr>jobs := map (swept waited qs now) (jobs w)\<rparr>) \<and>
    ageing_sweep waited now qs (snd (ageing_sweep waited now qs w)) = (0, snd (ageing_sweep waited now qs w))"
proof -
  have step: "ageing_sweep waited now qs v =
      (int (length (filter (\<lambda>j. swept waited qs now j \<noteq> j) (jobs v))), v\<lparr>jobs := map (swept waited qs now) (jobs v)\<rparr>)" for v
    unfolding ageing_sweep_def update_where_def swept_row(1)[OF assms] unfolding swept_row(2)[OF assms] ..
  have idem: "swept waited qs now (swept waited qs now j) = swept waited qs now j" for j
    using swept_row(2,3)[OF assms] by blast
  show ?thesis unfolding step by (simp add: idem)
qed

definition shipped_queue_settings :: QueueSettings where
  "shipped_queue_settings = \<lparr>max_depth = 1000, max_active_per_source = 200, lease_seconds = 60, poll_interval_ms = 250,
     lease_renewal_interval_seconds = 20, ageing_interval_seconds = 30, default_max_wait_seconds = 3600,
     ageing_priority_per_minute = 1, overflow_allowance = 100, max_affinity_streak = 5,
     idempotency_ttl_hours = 24, cancelling_watchdog_seconds = 30\<rparr>"

definition waited_exactly :: "instant \<Rightarrow> instant \<Rightarrow> float64" where
  "waited_exactly now q = fl (of_int (now - q) / 1000000)"

theorem ageing_sweep_refines_witness:
  "map job_effective_priority (jobs (snd (ageing_sweep waited_exactly 61000000 shipped_queue_settings
     (world_of [plain_job ''a'' QUEUED, plain_job ''b'' LEASED])))) = [401, 400]"
proof -
  have r: "0 \<le> ageing_priority_per_minute shipped_queue_settings" by (simp add: shipped_queue_settings_def)
  have "effective_priority 400 NORMAL (waited_exactly 61000000 0) 1 100 = 401" by code_simp
  then show ?thesis
    using ageing_sweep_refines[OF r, of waited_exactly 61000000 "world_of [plain_job ''a'' QUEUED, plain_job ''b'' LEASED]"]
    by (simp add: swept_def shipped_queue_settings_def state_set_defs)
qed

subsection \<open>Durable idempotency\<close>

definition same_key :: "Job \<Rightarrow> Job \<Rightarrow> bool" where
  "same_key i j \<longleftrightarrow> idempotency_key i \<noteq> None \<and> job_source i = job_source j \<and> idempotency_key i = idempotency_key j"

text \<open>The unique index on \<open>(source, idempotency_key)\<close>, under which \<open>NULL\<close>s never collide.\<close>

definition unique_keys :: "Job list \<Rightarrow> bool" where
  "unique_keys rows \<longleftrightarrow> sorted_wrt (\<lambda>i j. \<not> same_key i j) rows"

definition has_key :: "string \<Rightarrow> string \<Rightarrow> Job \<Rightarrow> bool" where
  "has_key src key j \<longleftrightarrow> job_source j = src \<and> idempotency_key j = Some key"

lemma unique_keys_map:
  assumes "unique_keys rows" "\<And>r. r \<in> set rows \<Longrightarrow> job_source (g r) = job_source r"
    "\<And>r. r \<in> set rows \<Longrightarrow> idempotency_key (g r) = None \<or> idempotency_key (g r) = idempotency_key r"
  shows "unique_keys (map g rows)"
  unfolding unique_keys_def sorted_wrt_map
proof (rule sorted_wrt_mono_rel[OF _ assms(1)[unfolded unique_keys_def]])
  fix i j assume ij: "i \<in> set rows" "j \<in> set rows" "\<not> same_key i j"
  show "\<not> same_key (g i) (g j)"
    using ij(3) assms(2)[OF ij(1)] assms(2)[OF ij(2)] assms(3)[OF ij(1)] assms(3)[OF ij(2)]
    unfolding same_key_def by metis
qed

lemma find_first: "find P xs = Some x \<Longrightarrow> \<exists>ys. filter P xs = x # ys"
  by (induction xs) (auto split: if_splits)

lemma unique_keys_filter:
  assumes "unique_keys rows" "find (has_key src key) rows = Some j"
  shows "filter (has_key src key) rows = [j]"
proof -
  have "sorted_wrt (\<lambda>i j. \<not> same_key i j) (filter (has_key src key) rows)"
    using assms(1) unfolding unique_keys_def by (rule sorted_wrt_filter)
  moreover obtain js where f: "filter (has_key src key) rows = j # js"
    using find_first[OF assms(2)] by blast
  ultimately have apart: "\<forall>x \<in> set js. \<not> same_key j x" by simp
  have keyed: "has_key src key x" if "x \<in> set (j # js)" for x using that unfolding f[symmetric] by simp
  have "same_key j x" if "x \<in> set js" for x
    using keyed[of j] keyed[of x] that unfolding same_key_def has_key_def by (metis list.set_intros option.distinct(1))
  then have "set js = {}" using apart by (intro equals0I) blast
  then show ?thesis using f by simp
qed

lemma find_after: "find P xs = None \<Longrightarrow> find P (xs @ [x]) = (if P x then Some x else None)"
  by (induction xs) (auto split: if_splits)

lemma insert_job_keys:
  assumes "insert_job row w = Inr w'" "unique_keys (jobs w)" "idempotency_key row = Some key"
  shows "unique_keys (jobs w')" "find (has_key (job_source row) key) (jobs w') = Some row"
proof -
  have new: "jobs w' = jobs w @ [row]" and none: "\<forall>j \<in> set (jobs w). \<not> has_key (job_source row) key j"
    using assms(1,3) by (auto simp: insert_job_def has_key_def split: if_splits)
  have "\<forall>j \<in> set (jobs w). \<not> same_key j row"
    using none assms(3) by (auto simp: same_key_def has_key_def)
  then show "unique_keys (jobs w')" using assms(2) by (auto simp: new unique_keys_def sorted_wrt_append)
  have "find (has_key (job_source row) key) (jobs w) = None" using none by (auto simp: find_None_iff)
  then show "find (has_key (job_source row) key) (jobs w') = Some row"
    unfolding new using assms(3) by (simp add: find_after has_key_def)
qed

lemma existing_Some:
  assumes "existing_by_key s now w = (Some found, w')" "sub_idempotency_key s = Some key"
  shows "w' = w \<and> out_created found = False \<and>
    (\<exists>j. find (has_key (sub_source s) key) (jobs w) = Some j \<and> out_job_id found = job_id j \<and> out_state found = job_state j)"
  using assms by (auto simp: existing_by_key_def existing_job_for_key_def has_key_def[abs_def] split: option.splits if_splits prod.splits)

lemma existing_unique:
  assumes "existing_by_key s now w = (found, w')" "unique_keys (jobs w)"
  shows "unique_keys (jobs w')"
proof -
  have "jobs w' = jobs w \<or> (\<exists>i. jobs w' = map (\<lambda>r. if job_id r = i then r\<lparr>idempotency_key := None, idempotency_expires_at := None\<rparr> else r) (jobs w))"
    using assms(1) by (auto simp: existing_by_key_def existing_job_for_key_def update_where_def split: option.splits if_splits prod.splits)
  then show ?thesis using assms(2) by (auto intro!: unique_keys_map)
qed

lemma enqueue_insert_keys:
  assumes "enqueue_insert row now w = Inr w'" "unique_keys (jobs w)" "idempotency_key row = Some key"
  shows "unique_keys (jobs w')" "find (has_key (job_source row) key) (jobs w') = Some row"
proof -
  obtain v where v: "insert_job row w = Inr v" "jobs w' = jobs v"
    using assms(1) by (auto simp: enqueue_insert_def bind_result_Inr_iff)
  show "unique_keys (jobs w')" "find (has_key (job_source row) key) (jobs w') = Some row"
    unfolding v(2) by (rule insert_job_keys[OF v(1) assms(2,3)])+
qed

lemma enqueue_keyed:
  assumes "enqueue sha256 new_id others caller s now qs bound w = (Inr out, w')"
    and key: "sub_idempotency_key s = Some key" and u: "unique_keys (jobs w)"
    and others: "\<forall>v. unique_keys (jobs v) \<longrightarrow> unique_keys (jobs (others v))"
  shows "unique_keys (jobs w') \<and> (\<exists>j. find (has_key (sub_source s) key) (jobs w') = Some j \<and>
    job_id j = out_job_id out \<and> job_state j = out_state out)"
proof -
  obtain profile priority where front: "bind_result (map_error NotAuthorized (authorize caller ''write'')) (\<lambda>_.
      bind_result (load_task_profile (task s) w) (\<lambda>profile.
      bind_result (map_error OutsideBand (base_priority (sub_job_class s) (sub_priority s))) (\<lambda>priority.
        Inr (profile, priority)))) = Inr (profile, priority)"
    using assms(1) unfolding enqueue_def by (auto split: sum.splits)
  obtain found w1 where e1: "existing_by_key s now w = (found, w1)" by fastforce
  note body = assms(1)[unfolded enqueue_def front, simplified, unfolded key e1, simplified]
  show ?thesis
  proof (cases found)
    case (Some f)
    then have "out = f" "w' = w1" using body by auto
    then show ?thesis using existing_Some[OF e1[unfolded Some] key] u by auto
  next
    case None
    have u2: "unique_keys (jobs (others w1))" using existing_unique[OF e1 u] others by blast
    obtain row where row: "job_source row = sub_source s" "idempotency_key row = Some key" "job_id row = new_id" "job_state row = QUEUED"
      and r: "(case enqueue_insert row now (others w1) of
          Inr w3 \<Rightarrow> (Inr \<lparr>out_job_id = new_id, out_state = QUEUED, out_created = True\<rparr>, w3)
        | Inl e \<Rightarrow> (case existing_by_key s now (others w1) of
              (Some found, w3) \<Rightarrow> (Inr found, w3) | (None, w3) \<Rightarrow> (Inl e, w3))) = (Inr out, w')"
    proof -
      let ?pin = "case map_option override_model (overrides s) of Some (Some m) \<Rightarrow> resolve_model_id m w1 | _ \<Rightarrow> None"
      let ?row = "job_row sha256 new_id s profile priority ?pin now qs bound"
      show ?thesis
        by (rule that[of ?row]) (use body None key in \<open>auto simp: job_row_def Let_def split: sum.splits\<close>)
    qed
    show ?thesis
    proof (cases "enqueue_insert row now (others w1)")
      case (Inr w3)
      then have "out = \<lparr>out_job_id = new_id, out_state = QUEUED, out_created = True\<rparr>" "w' = w3" using r by auto
      then show ?thesis using enqueue_insert_keys[OF Inr u2 row(2)] row by auto
    next
      case (Inl e)
      obtain found3 w3 where e3: "existing_by_key s now (others w1) = (found3, w3)" by fastforce
      then have "found3 = Some out" "w' = w3" using r Inl by (auto split: option.splits)
      then show ?thesis using existing_Some[of s now "others w1" out w3 key] e3 key u2 by auto
    qed
  qed
qed

lemma load_task_profile_rows: "load_task_profile t (w\<lparr>jobs := rows\<rparr>) = load_task_profile t w"
  by (simp add: load_task_profile_def)

text \<open>
  C20. A submission with an idempotency key is executed once: whatever other callers do between
  its look-up and its insert (a concurrent submission with the same key included), a submission
  that is answered leaves exactly one job with its source and key, and the answer names it; while
  the key has not expired, a repeated submission that passes the caller, task and priority checks
  returns the same job in its current state as not created, and changes nothing.
\<close>

theorem enqueue_idempotent:
  assumes "enqueue sha256 new_id others caller s now qs bound w = (Inr out, w')"
    and "sub_idempotency_key s = Some key" "unique_keys (jobs w)"
    and "\<forall>v. unique_keys (jobs v) \<longrightarrow> unique_keys (jobs (others v))"
  shows "\<exists>j. filter (has_key (sub_source s) key) (jobs w') = [j] \<and> job_id j = out_job_id out \<and> job_state j = out_state out \<and>
    (\<forall>sha new_id' others' caller' s' now' qs' bound'.
       sub_source s' = sub_source s \<and> sub_idempotency_key s' = Some key \<and>
       (\<forall>e. idempotency_expires_at j = Some e \<longrightarrow> now' < e) \<and>
       (\<exists>c. authorize caller' ''write'' = Inr c) \<and> (\<exists>p. load_task_profile (task s') w' = Inr p) \<and>
       (\<exists>b. base_priority (sub_job_class s') (sub_priority s') = Inr b) \<longrightarrow>
       enqueue sha new_id' others' caller' s' now' qs' bound' w' =
         (Inr \<lparr>out_job_id = out_job_id out, out_state = out_state out, out_created = False\<rparr>, w'))"
proof -
  obtain j where u: "unique_keys (jobs w')" and j: "find (has_key (sub_source s) key) (jobs w') = Some j"
    "job_id j = out_job_id out" "job_state j = out_state out"
    using enqueue_keyed[OF assms] by blast
  show ?thesis
  proof (intro exI[of _ j] conjI allI impI)
    fix sha new_id' others' caller' and s' :: JobSubmission and now' qs' bound'
    assume again: "sub_source s' = sub_source s \<and> sub_idempotency_key s' = Some key \<and>
       (\<forall>e. idempotency_expires_at j = Some e \<longrightarrow> now' < e) \<and>
       (\<exists>c. authorize caller' ''write'' = Inr c) \<and> (\<exists>p. load_task_profile (task s') w' = Inr p) \<and>
       (\<exists>b. base_priority (sub_job_class s') (sub_priority s') = Inr b)"
    have "existing_by_key s' now' w' = (Some \<lparr>out_job_id = out_job_id out, out_state = out_state out, out_created = False\<rparr>, w')"
      using again j unfolding has_key_def[abs_def]
      by (auto simp: existing_by_key_def existing_job_for_key_def split: option.splits)
    then show "enqueue sha new_id' others' caller' s' now' qs' bound' w' =
         (Inr \<lparr>out_job_id = out_job_id out, out_state = out_state out, out_created = False\<rparr>, w')"
      using again by (auto simp: enqueue_def map_error_def)
  qed (use unique_keys_filter[OF u j(1)] j in auto)
qed

definition keyed_submission :: JobSubmission where
  "keyed_submission = pinned_submission\<lparr>sub_idempotency_key := Some ''k''\<rparr>"

lemma keyed_submission_simps [simp]:
  "task keyed_submission = ''chat''" "sub_job_class keyed_submission = NORMAL" "sub_priority keyed_submission = None"
  "sub_idempotency_key keyed_submission = Some ''k''" "sub_source keyed_submission = ''app''"
  by (simp_all add: keyed_submission_def pinned_submission_def)

theorem enqueue_idempotent_witness:
  "\<exists>out w'. enqueue id ''a'' id None keyed_submission 0 shipped_queue_settings 3 (world_of []) = (Inr out, w') \<and> out_job_id out = ''a'' \<and>
     enqueue id ''b'' id None keyed_submission 5 shipped_queue_settings 3 w' =
       (Inr \<lparr>out_job_id = ''a'', out_state = QUEUED, out_created = False\<rparr>, w')"
proof -
  have auth: "authorize None ''write'' = Inr None" by (simp add: authorize_def SCOPES_def)
  have pri: "base_priority NORMAL None = Inr 400" by (simp add: base_priority_def)
  obtain out w' where e: "enqueue id ''a'' id None keyed_submission 0 shipped_queue_settings 3 (world_of []) = (Inr out, w')"
    and out: "out = \<lparr>out_job_id = ''a'', out_state = QUEUED, out_created = True\<rparr>"
    and rows: "map (\<lambda>j. idempotency_expires_at j) (jobs w') = [Some 86400000000]" and tps: "task_profiles w' = task_profiles (world_of [])"
    by (simp add: enqueue_def auth pri map_error_def load_task_profile_def world_of_def existing_by_key_def existing_job_for_key_def
        enqueue_checks_def active_count_def shipped_queue_settings_def enqueue_insert_def insert_job_def job_row_def Let_def
        timedelta_hours_def trunc_def round_half_even_def)
  have "unique_keys (jobs (world_of []))" by (simp add: unique_keys_def)
  from enqueue_idempotent[OF e keyed_submission_simps(4) this]
  obtain j where j: "filter (has_key ''app'' ''k'') (jobs w') = [j]"
    and again: "(\<forall>e. idempotency_expires_at j = Some e \<longrightarrow> 5 < e) \<and> (\<exists>c. authorize None ''write'' = Inr c) \<and>
       (\<exists>p. load_task_profile ''chat'' w' = Inr p) \<and> (\<exists>b. base_priority NORMAL None = Inr b) \<longrightarrow>
       enqueue id ''b'' id None keyed_submission 5 shipped_queue_settings 3 w' =
         (Inr \<lparr>out_job_id = out_job_id out, out_state = out_state out, out_created = False\<rparr>, w')"
    by (metis id_apply keyed_submission_simps)
  have "j \<in> set (filter (has_key ''app'' ''k'') (jobs w'))" unfolding j by simp
  then have "j \<in> set (jobs w')" by simp
  then have "idempotency_expires_at j \<in> set (map (\<lambda>j. idempotency_expires_at j) (jobs w'))" by simp
  then have "idempotency_expires_at j = Some 86400000000" unfolding rows by simp
  moreover have "\<exists>p. load_task_profile ''chat'' w' = Inr p" by (simp add: load_task_profile_def tps world_of_def)
  ultimately show ?thesis using e out again auth pri by auto
qed

end
