(* ===== verification/Recovery.thy ===== *)
theory Recovery
  imports Queue_Correctness
begin

section \<open>Startup recovery\<close>

text \<open>
  Models \<^verbatim>\<open>src/src/loadcoach/services/recovery.py\<close>: every job held by a worker of another process is requeued,
  failed or completed to cancelled in one transaction, then the scheduler's re-evaluation runs
  (the argument \<open>reevaluate\<close>) and then the ageing sweep. The loop is an instance of
  \<open>settle_rows\<close>; the properties are that no stranded job is left, that nothing else is
  touched, and that a second pass changes nothing.
\<close>

record RecoverySummary =
  rs_requeued :: "string list"
  rs_failed :: "string list"
  rs_cancelled :: "string list"
  rs_reevaluated :: "string list"
  rs_aged :: int

definition touched :: "RecoverySummary \<Rightarrow> nat" where
  "touched s = length (rs_requeued s) + length (rs_failed s) + length (rs_cancelled s) + length (rs_reevaluated s)"

definition summary_json :: "RecoverySummary \<Rightarrow> (string \<times> json) list" where
  "summary_json s =
     [(''requeued'', JList (map JStr (rs_requeued s))), (''failed'', JList (map JStr (rs_failed s))),
      (''cancelled'', JList (map JStr (rs_cancelled s))), (''reevaluated'', JList (map JStr (rs_reevaluated s))),
      (''aged'', JInt (rs_aged s)), (''touched'', JInt (int (touched s)))]"

text \<open>\<open>owner is not None and owner.startswith(f"{owner_prefix}/")\<close>\<close>

definition ours :: "string \<Rightarrow> string option \<Rightarrow> bool" where
  "ours owner_prefix owner = (case owner of None \<Rightarrow> False | Some p \<Rightarrow> prefix (owner_prefix @ ''/'') p)"

definition recover_reason :: "JobState \<Rightarrow> string" where
  "recover_reason target =
     (if target = CANCELLED then ''recovered_cancelling'' else if target = QUEUED then ''recovered'' else ''worker_lost'')"

definition recover_values :: "JobState \<Rightarrow> JobState \<Rightarrow> string option \<Rightarrow> Job \<Rightarrow> Job" where
  "recover_values target state owner j =
     (if target = FAILED then j\<lparr>error_code := Some ''WORKER_LOST'',
        error_text := Some (''recovered at startup from '' @ state_value state @ ''; lease held by '' @ str_opt owner)\<rparr>
      else if target = CANCELLED then j\<lparr>error_code := Some ''GENERATION_CANCELLED''\<rparr> else j)"

definition note_recovered :: "JobState \<Rightarrow> string \<Rightarrow> RecoverySummary \<Rightarrow> RecoverySummary" where
  "note_recovered target i s =
     (if target = QUEUED then s\<lparr>rs_requeued := rs_requeued s @ [i]\<rparr>
      else if target = CANCELLED then s\<lparr>rs_cancelled := rs_cancelled s @ [i]\<rparr>
      else s\<lparr>rs_failed := rs_failed s @ [i]\<rparr>)"

definition recover_one :: "string \<Rightarrow> instant \<Rightarrow> Job \<Rightarrow> World \<times> RecoverySummary \<Rightarrow> queue_error + (World \<times> RecoverySummary)" where
  "recover_one owner_prefix now row = (\<lambda>(w, summary).
     (if ours owner_prefix (lease_owner row) then Inr (w, summary)
      else (case recovery_target (job_state row) (job_idempotent row) of
         None \<Rightarrow> Inr (w, summary)
       | Some target \<Rightarrow>
           bind_result (transition (job_id row) (job_state row) target now None (Some (recover_reason target))
               (recover_values target (job_state row) (lease_owner row)) (jobs w)) (\<lambda>rows.
             Inr (append_event (job_id row) (event_type_for target) now
                 (Some (''startup recovery: '' @ state_value (job_state row) @ '' -> '' @ state_value target @
                    '' (lease held by '' @ str_opt (lease_owner row) @ '')''))
                 [(''reason'', JStr (recover_reason target)), (''previous_state'', JStr (state_value (job_state row))),
                  (''lease_owner'', of_opt_str (lease_owner row))] (w\<lparr>jobs := rows\<rparr>),
               note_recovered target (job_id row) summary)))))"

definition recoverable :: "Job \<Rightarrow> bool" where
  "recoverable j \<longleftrightarrow> job_state j \<in> LEASE_HOLDING_STATES \<union> {CANCELLING}"

definition no_summary :: RecoverySummary where
  "no_summary = \<lparr>rs_requeued = [], rs_failed = [], rs_cancelled = [], rs_reevaluated = [], rs_aged = 0\<rparr>"

definition recover :: "(instant \<Rightarrow> instant \<Rightarrow> float64) \<Rightarrow> instant \<Rightarrow> string \<Rightarrow> QueueSettings \<Rightarrow>
    (instant \<Rightarrow> World \<Rightarrow> queue_error + (string list \<times> World)) option \<Rightarrow> World \<Rightarrow> queue_error + (RecoverySummary \<times> World)" where
  "recover waited now owner_prefix qs reevaluate w =
     bind_result (each_row (recover_one owner_prefix now) (filter recoverable (jobs w)) (w, no_summary)) (\<lambda>(w1, s).
     bind_result (case reevaluate of None \<Rightarrow> Inr ([], commit w1) | Some f \<Rightarrow> f now (commit w1)) (\<lambda>(ids, w2).
       (case ageing_sweep waited now qs w2 of
          (aged, w3) \<Rightarrow> Inr (s\<lparr>rs_reevaluated := ids, rs_aged := aged\<rparr>, w3))))"

subsection \<open>Recovery as a settling loop\<close>

definition recovery_aim :: "string \<Rightarrow> Job \<Rightarrow> JobState option" where
  "recovery_aim owner_prefix j =
     (if ours owner_prefix (lease_owner j) then None else recovery_target (job_state j) (job_idempotent j))"

definition recovered :: "string \<Rightarrow> instant \<Rightarrow> Job \<Rightarrow> Job" where
  "recovered owner_prefix now j =
     (case recovery_aim owner_prefix j of
        None \<Rightarrow> j
      | Some t \<Rightarrow> recover_values t (job_state j) (lease_owner j) (assignments t now (Some (recover_reason t)) j))"

interpretation recovery: settle_rows recoverable "recovery_aim owner_prefix" now
  "\<lambda>row. map_option recover_reason (recovery_aim owner_prefix row)"
  "\<lambda>row. recover_values (the (recovery_aim owner_prefix row)) (job_state row) (lease_owner row)"
  "\<lambda>row. Some (''startup recovery: '' @ state_value (job_state row) @ '' -> '' @ state_value (the (recovery_aim owner_prefix row)) @
     '' (lease held by '' @ str_opt (lease_owner row) @ '')'')"
  "\<lambda>row. [(''reason'', JStr (recover_reason (the (recovery_aim owner_prefix row)))),
     (''previous_state'', JStr (state_value (job_state row))), (''lease_owner'', of_opt_str (lease_owner row))]"
  "\<lambda>row. note_recovered (the (recovery_aim owner_prefix row)) (job_id row)" "recover_one owner_prefix now" for owner_prefix now
proof
  fix row :: Job and w :: World and acc :: RecoverySummary
  show "recover_one owner_prefix now row (w, acc) =
      (case recovery_aim owner_prefix row of
         None \<Rightarrow> Inr (w, acc)
       | Some t \<Rightarrow> bind_result (transition (job_id row) (job_state row) t now None
           (map_option recover_reason (recovery_aim owner_prefix row))
           (recover_values (the (recovery_aim owner_prefix row)) (job_state row) (lease_owner row)) (jobs w)) (\<lambda>rows.
           Inr (append_event (job_id row) (event_type_for t) now
             (Some (''startup recovery: '' @ state_value (job_state row) @ '' -> '' @ state_value (the (recovery_aim owner_prefix row)) @
                '' (lease held by '' @ str_opt (lease_owner row) @ '')''))
             [(''reason'', JStr (recover_reason (the (recovery_aim owner_prefix row)))),
              (''previous_state'', JStr (state_value (job_state row))), (''lease_owner'', of_opt_str (lease_owner row))]
             (w\<lparr>jobs := rows\<rparr>),
             note_recovered (the (recovery_aim owner_prefix row)) (job_id row) acc)))"
    by (simp add: recover_one_def recovery_aim_def split: option.splits)
qed (auto simp: recovery_aim_def recovery_target_legal recover_values_def split: if_splits)

lemma recovery_settled: "recovery.settled owner_prefix now j = recovered owner_prefix now j"
  by (simp add: recovery.settled_def recovered_def split: option.splits)

lemma recovered_fields [simp]:
  "job_id (recovered p now j) = job_id j" "attempt (recovered p now j) = attempt j" "queued_at (recovered p now j) = queued_at j"
  "job_source (recovered p now j) = job_source j" "idempotency_key (recovered p now j) = idempotency_key j"
  by (simp_all add: recovered_def recover_values_def split: option.splits)

lemma recoverable_in_flight: "recoverable j \<longleftrightarrow> job_state j \<in> IN_FLIGHT_STATES"
  by (simp add: recoverable_def IN_FLIGHT_STATES_def)

lemma recovered_state:
  assumes "recoverable j" "\<not> ours p (lease_owner j)"
  shows "recovery_target (job_state j) (job_idempotent j) = Some (job_state (recovered p now j))"
    and "lease_owner (recovered p now j) = None" "lease_expires_at (recovered p now j) = None"
proof -
  obtain t where t: "recovery_target (job_state j) (job_idempotent j) = Some t"
    using assms(1) recovery_target_defined by (auto simp: recoverable_in_flight)
  moreover have "t \<notin> IN_FLIGHT_STATES" using t by (rule recovery_target_not_in_flight)
  ultimately show "recovery_target (job_state j) (job_idempotent j) = Some (job_state (recovered p now j))"
    "lease_owner (recovered p now j) = None" "lease_expires_at (recovered p now j) = None"
    using assms(2) by (simp_all add: recovered_def recovery_aim_def recover_values_def assignments_lease)
qed

lemma recovered_ours: "ours p (lease_owner j) \<Longrightarrow> recovered p now j = j"
  by (simp add: recovered_def recovery_aim_def)

lemma recover_rows:
  assumes "distinct (map job_id (jobs w))"
  shows "\<exists>w' s. each_row (recover_one p now) (filter recoverable (jobs w)) (w, no_summary) = Inr (w', s) \<and>
    jobs w' = map (\<lambda>j. if recoverable j then recovered p now j else j) (jobs w) \<and> job_attempts w' = job_attempts w \<and>
    (ordered_events (job_events w) \<longrightarrow> ordered_events (job_events w'))"
  using recovery.settle_selected[OF assms, of p now no_summary] unfolding recovery_settled by blast

lemma swept_fields [simp]:
  "job_id (swept waited qs now j) = job_id j" "job_state (swept waited qs now j) = job_state j"
  "attempt (swept waited qs now j) = attempt j" "lease_owner (swept waited qs now j) = lease_owner j"
  "lease_expires_at (swept waited qs now j) = lease_expires_at j" "queued_at (swept waited qs now j) = queued_at j"
  "job_idempotent (swept waited qs now j) = job_idempotent j"
  "job_source (swept waited qs now j) = job_source j" "idempotency_key (swept waited qs now j) = idempotency_key j"
  "completed_at (swept waited qs now j) = completed_at j"
  by (simp_all add: swept_def split: option.split)

lemma ageing_sweep_rows:
  assumes "0 \<le> ageing_priority_per_minute qs"
  shows "ageing_sweep waited now qs w = (int (length (filter (\<lambda>j. swept waited qs now j \<noteq> j) (jobs w))), w\<lparr>jobs := map (swept waited qs now) (jobs w)\<rparr>)"
  unfolding ageing_sweep_def update_where_def swept_row(1)[OF assms] unfolding swept_row(2)[OF assms] ..

text \<open>A pass over a table in which every held job is ours does nothing but age.\<close>

lemma recover_idle:
  assumes "\<forall>j \<in> set (jobs w). recoverable j \<longrightarrow> ours p (lease_owner j)"
  shows "each_row (recover_one p now) (filter recoverable (jobs w)) (w, s) = Inr (w, s)"
proof -
  have "each_row (recover_one p now) rs (w, s) = Inr (w, s)" if "\<forall>j \<in> set rs. ours p (lease_owner j)" for rs
    using that by (induction rs) (simp_all add: recover_one_def)
  then show ?thesis using assms by simp
qed

definition recovered_row :: "(instant \<Rightarrow> instant \<Rightarrow> float64) \<Rightarrow> QueueSettings \<Rightarrow> string \<Rightarrow> instant \<Rightarrow> Job \<Rightarrow> Job" where
  "recovered_row waited qs p now j = swept waited qs now (if recoverable j then recovered p now j else j)"

lemma recovered_row_held:
  "recoverable (recovered_row waited qs p now j) \<Longrightarrow> ours p (lease_owner (recovered_row waited qs p now j))"
proof -
  assume held: "recoverable (recovered_row waited qs p now j)"
  show "ours p (lease_owner (recovered_row waited qs p now j))"
  proof (cases "recoverable j \<and> \<not> ours p (lease_owner j)")
    case True
    then have "job_state (recovered p now j) \<notin> IN_FLIGHT_STATES"
      using recovered_state(1)[of j p now] recovery_target_not_in_flight by blast
    then show ?thesis using held True by (simp add: recovered_row_def recoverable_in_flight)
  next
    case False
    then show ?thesis using held by (cases "recoverable j") (simp_all add: recovered_row_def recovered_ours recoverable_in_flight)
  qed
qed

lemma recover_result:
  assumes "distinct (map job_id (jobs w))" "0 \<le> ageing_priority_per_minute qs"
  shows "\<exists>s w'. recover waited now p qs None w = Inr (s, w') \<and> jobs w' = map (recovered_row waited qs p now) (jobs w) \<and>
    job_attempts w' = job_attempts w \<and> (ordered_events (job_events w) \<longrightarrow> ordered_events (job_events w'))"
proof -
  obtain w1 s where r: "each_row (recover_one p now) (filter recoverable (jobs w)) (w, no_summary) = Inr (w1, s)"
    and rows: "jobs w1 = map (\<lambda>j. if recoverable j then recovered p now j else j) (jobs w)" "job_attempts w1 = job_attempts w"
      "ordered_events (job_events w) \<longrightarrow> ordered_events (job_events w1)"
    using recover_rows[OF assms(1)] by blast
  show ?thesis
    using rows by (auto simp: recover_def r ageing_sweep_rows[OF assms(2)] recovered_row_def)
qed



end
