(* ===== verification/Execution.thy ===== *)
theory Execution
  imports Recovery Circuit_Breaker
begin

section \<open>Synchronous execution and the attempt table\<close>

text \<open>
  Models the rest of \<^verbatim>\<open>src/src/loadcoach/services/execution.py\<close>: the attempt table and its counter
  (\<open>write_attempt\<close>), the reservation of a row by a synchronous request, the loop over the
  ranked candidates and what is written at the end. Each operation is one transaction over the
  \<open>World\<close> of \<open>Job_Queue\<close>. The routing pass that precedes an execution is a value of
  \<open>RoutingResult\<close>; a provider's behaviour may differ from attempt to attempt, so the context
  of an attempt is indexed by its number. The JSON form of a check's detail, whose messages are
  values here, is the argument \<open>detail_json\<close>.
\<close>

record SuiteError =
  err_code :: string
  err_message :: string
  err_details :: json_obj

record RoutingResult =
  rt_profile :: TaskProfileRow
  rt_decision_id :: string
  rt_flags :: "string list"
  rt_ranking :: Ranking
  rt_payload :: json_obj

record ExecutionOutcome =
  eo_job_id :: string
  eo_status :: string
  eo_text :: string
  eo_structured :: json
  eo_tool_calls :: "ToolFragment list"
  eo_thinking :: "string option"
  eo_routing :: RoutingResult
  eo_selected :: RankedCandidate
  eo_attempts :: "AttemptRecord list"
  eo_validation :: ValidationOutcome
  eo_degradations :: "string list"
  eo_total_ms :: int
  eo_provider_ms :: int
  eo_overhead_ms :: int
  eo_ttft_ms :: "int option"
  eo_input_tokens :: "int option"
  eo_output_tokens :: "int option"
  eo_cache_write_tokens :: "int option"
  eo_cache_read_tokens :: "int option"
  eo_thinking_tokens :: "int option"
  eo_queue_wait_ms :: int
  eo_finish_reason :: "string option"

subsection \<open>The response document\<close>

definition fragment_json :: "ToolFragment \<Rightarrow> json" where
  "fragment_json f = JObj [(''call_index'', JInt (frag_call_index f)), (''id'', of_opt_str (frag_id f)),
     (''name'', of_opt_str (frag_name f)), (''arguments_fragment'', JStr (frag_arguments f))]"

definition assembled_json :: "AssembledCall \<Rightarrow> json" where
  "assembled_json c = JObj [(''call_index'', JInt (asm_call_index c)), (''id'', of_opt_str (asm_id c)),
     (''name'', of_opt_str (asm_name c)), (''arguments'', asm_arguments c)]"

definition adapter_json :: "AdapterFacts \<Rightarrow> json" where
  "adapter_json a = JObj [(''name'', JStr (adapter_name a)), (''artifact_digest'', JStr (adapter_artifact_digest a)),
     (''base_confidence'', JStr (base_confidence a)), (''data_classification'', JStr (data_classification a)),
     (''declared_capabilities'', JList (map JStr (declared_capabilities a)))]"

definition count_json :: "int option \<Rightarrow> json" where
  "count_json n = (case n of None \<Rightarrow> JStr ''unsupported'' | Some i \<Rightarrow> JInt i)"

definition check_json :: "(check_detail \<Rightarrow> json_obj) \<Rightarrow> ValidationCheck \<Rightarrow> json" where
  "check_json detail_json c = JObj [(''kind'', JStr (check_kind c)), (''passed'', JBool (check_passed c)),
     (''detail'', JObj (detail_json (check_detail c)))]"

definition opt_bool_json :: "bool option \<Rightarrow> json" where
  "opt_bool_json b = (case b of None \<Rightarrow> JNull | Some v \<Rightarrow> JBool v)"

definition outcome_json :: "packages \<Rightarrow> loader \<Rightarrow> (check_detail \<Rightarrow> json_obj) \<Rightarrow> ExecutionOutcome \<Rightarrow> json_obj" where
  "outcome_json pkg loads detail_json e =
     (let subject = cand_subject (eo_selected e); fs = facts subject in
      [(''job_id'', JStr (eo_job_id e)), (''status'', JStr (eo_status e)),
       (''output'', JObj [(''text'', JStr (eo_text e)), (''finish_reason'', of_opt_str (eo_finish_reason e)),
          (''structured'', eo_structured e), (''tool_calls'', JList (map fragment_json (eo_tool_calls e))),
          (''tool_calls_assembled'', JList (map assembled_json (assemble_tool_calls loads (eo_tool_calls e))))]),
       (''reasoning'', JObj [(''available'', JBool (eo_thinking e \<noteq> None)), (''summary'', of_opt_str (eo_thinking e)),
          (''source'', if eo_thinking e \<noteq> None then JStr ''provider'' else JNull)]),
       (''model'', JObj [(''canonical_id'', JStr (canonical_id fs)), (''subject_canonical_id'', JStr (subject_canonical_id pkg subject)),
          (''provider_name'', if provider_name fs = [] then JNull else JStr (provider_name fs)), (''is_remote'', JBool (is_remote fs)),
          (''adapter'', case adapter subject of None \<Rightarrow> JNull | Some a \<Rightarrow> adapter_json a), (''model_ref'', JStr (model_id fs)),
          (''runtime_profile_hash'', JStr (runtime_profile_hash pkg subject)),
          (''served_context'', JInt (tokens (served_context subject))),
          (''served_context_source'', JStr (context_source (served_context subject))),
          (''target_gpu_index'', of_opt_int (target_gpu_index (eo_selected e)))]),
       (''routing'', JObj [(''decision_id'', JStr (rt_decision_id (eo_routing e))), (''rank'', JInt (rank (eo_selected e))),
          (''final_score'', JFloat (final_score (eo_selected e))), (''flags'', JList (map JStr (rt_flags (eo_routing e)))),
          (''explanation_url'', JStr (''/api/v1/jobs/'' @ eo_job_id e @ ''/explanation''))]),
       (''usage'', JObj [(''input_tokens'', count_json (eo_input_tokens e)), (''output_tokens'', count_json (eo_output_tokens e)),
          (''cache_write_tokens'', count_json (eo_cache_write_tokens e)), (''cache_read_tokens'', count_json (eo_cache_read_tokens e)),
          (''thinking_tokens'', count_json (eo_thinking_tokens e))]),
       (''timing'', JObj [(''total_ms'', JInt (eo_total_ms e)), (''provider_ms'', JInt (eo_provider_ms e)),
          (''loadcoach_overhead_ms'', JInt (eo_overhead_ms e)), (''ttft_ms'', of_opt_int (eo_ttft_ms e)),
          (''queue_wait_ms'', JInt (eo_queue_wait_ms e))]),
       (''validation'', JObj [(''performed'', JBool (val_performed (eo_validation e))),
          (''passed'', opt_bool_json (val_passed (eo_validation e))), (''attempts'', JInt (int (length (eo_attempts e)))),
          (''checks'', JList (map (check_json detail_json) (val_checks (eo_validation e))))]),
       (''attempts'', JList (map (JObj \<circ> attempt_record_json) (eo_attempts e))),
       (''degradations'', JList (map JStr (eo_degradations e)))])"

subsection \<open>The attempt table\<close>

definition attempt_row :: "string \<Rightarrow> AttemptRecord \<Rightarrow> JobAttempt" where
  "attempt_row i r =
     \<lparr>ja_job_id = i, ja_attempt = rec_attempt r, ja_model_id = rec_model_id r, ja_adapter_id = rec_adapter_id r,
      ja_subject_canonical_id = (if rec_subject_canonical_id r = [] then None else Some (rec_subject_canonical_id r)),
      ja_adapter_data_classification = rec_adapter_data_classification r,
      ja_effective_data_classification = rec_effective_data_classification r,
      ja_runtime_profile_hash = rec_runtime_profile_hash r, ja_rank = rec_rank r, ja_started_at = rec_started_at r,
      ja_completed_at = rec_completed_at r, ja_outcome = rec_outcome r, ja_provider_ms = rec_provider_ms r,
      ja_ttft_ms = rec_ttft_ms r, ja_input_tokens = rec_input_tokens r, ja_output_tokens = rec_output_tokens r,
      ja_cache_write_tokens = rec_cache_write_tokens r, ja_cache_read_tokens = rec_cache_read_tokens r,
      ja_finish_reason = rec_finish_reason r, ja_error_code = rec_error_code r, ja_error_text = rec_error_text r,
      ja_partial_response_hash = rec_partial_response_hash r, ja_prompt_id = rec_prompt_id r,
      ja_prompt_version = rec_prompt_version r, ja_prompt_sha256 = rec_prompt_sha256 r\<rparr>"

definition validation_rows :: "string \<Rightarrow> AttemptRecord \<Rightarrow> instant \<Rightarrow> ValidationRow list" where
  "validation_rows i r now =
     (case rec_validation r of None \<Rightarrow> []
      | Some v \<Rightarrow> map (\<lambda>c. \<lparr>vr_job_id = i, vr_attempt = rec_attempt r, vr_kind = check_kind c, vr_passed = check_passed c,
            vr_detail = check_detail c, vr_created_at = now\<rparr>) (val_checks v))"

definition holds_attempt :: "string \<Rightarrow> string option \<Rightarrow> Job \<Rightarrow> bool" where
  "holds_attempt i owner j \<longleftrightarrow> job_id j = i \<and> (owner = None \<or> lease_owner j = owner)"

definition write_attempt :: "string \<Rightarrow> AttemptRecord \<Rightarrow> instant \<Rightarrow> string option \<Rightarrow> World \<Rightarrow> queue_error + (int \<times> World)" where
  "write_attempt i r now owner w =
     (case find (holds_attempt i owner) (jobs w) of
        None \<Rightarrow> Inl (AttemptNotLeased i (rec_attempt r) owner)
      | Some j \<Rightarrow>
          (let number = attempt j + 1 in
           if number \<noteq> rec_attempt r then Inl (AttemptDiverged i (rec_attempt r) number)
           else if \<exists>a \<in> set (job_attempts w). ja_job_id a = i \<and> ja_attempt a = number then Inl IntegrityError
           else Inr (number, w\<lparr>jobs := update_where (holds_attempt i owner) (\<lambda>j. j\<lparr>attempt := attempt j + 1\<rparr>) (jobs w),
                              job_attempts := job_attempts w @ [attempt_row i r],
                              validations := validations w @ validation_rows i r now\<rparr>)))"

fun write_attempts :: "string \<Rightarrow> instant \<Rightarrow> AttemptRecord list \<Rightarrow> World \<Rightarrow> queue_error + World" where
  "write_attempts i now [] w = Inr w"
| "write_attempts i now (r # rs) w = bind_result (write_attempt i r now None w) (\<lambda>(n, w'). write_attempts i now rs w')"

definition link_decision :: "string \<Rightarrow> string \<Rightarrow> World \<Rightarrow> World" where
  "link_decision did i w =
     (case map_of (decision_jobs w) did of
        None \<Rightarrow> w
      | Some _ \<Rightarrow> w\<lparr>decision_jobs := AList.update did (Some i) (decision_jobs w)\<rparr>)"

subsection \<open>Reserving a row\<close>

record ReservedJob =
  res_job_id :: string
  res_created :: bool
  res_state :: JobState

definition sync_row :: "(string \<Rightarrow> string) \<Rightarrow> string \<Rightarrow> GenerateRequest \<Rightarrow> TaskProfileRow \<Rightarrow> instant \<Rightarrow> float64 \<Rightarrow> Job" where
  "sync_row sha256 new_id request profile now ttl_hours =
     \<lparr>job_id = new_id, task_profile_id = tp_profile_id profile, task_profile_version = tp_version profile,
      job_class = INTERACTIVE, job_base_priority = 800, job_effective_priority = 800, job_source = gen_source request,
      job_state = EXECUTING, state_reason = Some ''synchronous'', idempotency_key = gen_idempotency_key request,
      job_idempotent = (gen_idempotency_key request \<noteq> None),
      idempotency_expires_at = map_option (\<lambda>_. now + timedelta_hours ttl_hours) (gen_idempotency_key request),
      request_json = Some [(''task'', JStr (gen_task request)), (''messages'', JList (map message_json (gen_transcript request))),
        (''tools'', tool_definitions_json (gen_tools request)), (''response_format'', of_opt_str (gen_response_format request)),
        (''sampling'', JObj (gen_sampling request)), (''stream'', JBool (gen_stream request))],
      prompt_hash = Some (sha256 (join [CHR 0x0A] (map (\<lambda>m. role m @ '':'' @ content m) (gen_transcript request)))),
      selected_model_id = None, selected_adapter_id = None, selected_subject_canonical_id = None,
      job_runtime_profile_hash = None, job_served_context = None, job_served_context_source = None,
      job_target_gpu_index = None, attempt = 0, max_attempts = 1, lease_owner = None, lease_expires_at = None,
      cancel_requested = False, created_at = now, scheduled_for = None, queued_at = None, started_at = Some now,
      completed_at = None, max_wait_seconds = None, queue_wait_ms = None, job_result = no_result,
      error_code = None, error_text = None\<rparr>"

definition reserve_sync_job :: "(string \<Rightarrow> string) \<Rightarrow> string \<Rightarrow> (World \<Rightarrow> World) \<Rightarrow> GenerateRequest \<Rightarrow> instant \<Rightarrow> float64 \<Rightarrow>
    World \<Rightarrow> (queue_error + ReservedJob) \<times> World" where
  "reserve_sync_job sha256 new_id others request now ttl_hours w =
     (let found_job = (\<lambda>(i, st). \<lparr>res_job_id = i, res_created = False, res_state = st\<rparr>) in
      (case load_task_profile (gen_task request) w of
         Inl e \<Rightarrow> (Inl e, w)
       | Inr profile \<Rightarrow>
           (case (case gen_idempotency_key request of None \<Rightarrow> (None, w) | Some key \<Rightarrow> existing_job_for_key (gen_source request) key now w) of
              (Some found, w1) \<Rightarrow> (Inr (found_job found), w1)
            | (None, w1) \<Rightarrow>
                (let w2 = others w1 in
                 (case insert_job (sync_row sha256 new_id request profile now ttl_hours) w2 of
                    Inr w3 \<Rightarrow> (Inr \<lparr>res_job_id = new_id, res_created = True, res_state = EXECUTING\<rparr>, w3)
                  | Inl e \<Rightarrow>
                      (case existing_job_for_key (gen_source request) (case gen_idempotency_key request of None \<Rightarrow> [] | Some k \<Rightarrow> k) now w2 of
                         (Some found, w3) \<Rightarrow> (Inr (found_job found), w3)
                       | (None, w3) \<Rightarrow> (Inl e, w3)))))))"

subsection \<open>Trying the candidates\<close>

text \<open>
  What surrounds the n-th attempt, and what belongs to other packages: the context, the clock
  readings, the time a probe is asked for, the renderer of the corrective prompt, the error
  ModelRack raises for a request or a turn it refuses to build, and whether a provider error is
  permanent (\<open>AdapterNotFound\<close>, \<open>ProfileMismatch\<close>), with the refusal made of it.
\<close>

record 'e sync_env =
  env_context :: "int \<Rightarrow> 'e attempt_context"
  env_elapsed :: "int \<Rightarrow> nat \<Rightarrow> int"
  env_started :: "int \<Rightarrow> instant"
  env_completed :: "int \<Rightarrow> instant"
  env_probe_at :: "nat \<Rightarrow> instant"
  env_render :: renderer
  env_request_refused :: "string \<Rightarrow> SuiteError"
  env_turns_refused :: "Message list \<Rightarrow> SuiteError option"
  env_adapter_not_found :: "'e \<Rightarrow> SuiteError option"
  env_profile_mismatch :: "'e \<Rightarrow> SuiteError option"

record sync_job =
  sj_request :: GenerateRequest
  sj_schema :: "schema option"
  sj_execution :: json_obj
  sj_validation :: json_obj
  sj_timeout :: "float64 option"
  sj_candidates :: "RankedCandidate option list"

definition sj_max_attempts :: "sync_job \<Rightarrow> nat" where
  "sj_max_attempts sj = (case as_int (get_or (sj_execution sj) ''max_attempts'' (JInt 1)) of None \<Rightarrow> 0 | Some n \<Rightarrow> nat n)"

definition permanent_refusal :: "'e sync_env \<Rightarrow> 'e option \<Rightarrow> SuiteError option" where
  "permanent_refusal env failure =
     (case failure of None \<Rightarrow> None
      | Some e \<Rightarrow> (case env_adapter_not_found env e of Some r \<Rightarrow> Some r | None \<Rightarrow> env_profile_mismatch env e))"

definition collected_of :: "'e AttemptOutcome \<Rightarrow> 'e Collected" where
  "collected_of o' = \<lparr>col_text = out_text o', col_thinking = out_thinking o', col_tool_calls = out_tool_calls o',
     col_result = out_result o', col_failure = out_failure o', col_ttft_ms = rec_ttft_ms (out_record o'),
     col_provider_ms = (case rec_provider_ms (out_record o') of None \<Rightarrow> 0 | Some n \<Rightarrow> n)\<rparr>"

datatype 'e loop_end = NextCandidate | Answered "'e Collected" | CancelledOn "'e Collected" | Refused SuiteError

type_synonym progress = "AttemptRecord list \<times> ValidationOutcome \<times> int"

text \<open>The attempts on one candidate: \<open>for _ in range(max_attempts)\<close>.\<close>

fun attempt_loop :: "'e sync_env \<Rightarrow> sync_job \<Rightarrow> RankedCandidate \<Rightarrow> nat \<Rightarrow> Message list \<Rightarrow> RenderedPrompt option \<Rightarrow> progress \<Rightarrow>
    validation_error + (progress \<times> 'e loop_end)" where
  "attempt_loop env sj cand 0 turns correction st = Inr (st, NextCandidate)"
| "attempt_loop env sj cand (Suc k) turns correction (records, validation, n) =
     (let number = n + 1 in
      (case run_attempt (env_context env number) (env_elapsed env number) (env_started env number) (env_completed env number)
          (sj_request sj) cand turns number (sj_schema sj) (sj_execution sj) (sj_validation sj) (sj_timeout sj) correction of
         Inl (RequestRefused m) \<Rightarrow> Inr ((records, validation, number), Refused (env_request_refused env m))
       | Inl (ValidatorRaised e) \<Rightarrow> Inl e
       | Inr (o', chunks) \<Rightarrow>
           (let records' = records @ [out_record o'] in
            (case permanent_refusal env (out_failure o') of
               Some r \<Rightarrow> Inr ((records', validation, number), Refused r)
             | None \<Rightarrow>
                 if out_failure o' \<noteq> None then
                   Inr ((records', validation, number), if out_cancelled o' then CancelledOn (collected_of o') else NextCandidate)
                 else (let v = the (out_validation o') in
                   if outcome_passed o' then Inr ((records', v, number), Answered (collected_of o'))
                   else if number \<ge> int (sj_max_attempts sj * length (sj_candidates sj)) then Inr ((records', v, number), NextCandidate)
                   else (case corrective_turns (env_render env) (gen_transcript (sj_request sj)) (out_text o') v (sj_schema sj) of
                      (turns', c) \<Rightarrow>
                        (case env_turns_refused env turns' of
                           Some r \<Rightarrow> Inr ((records', v, number), Refused r)
                         | None \<Rightarrow> attempt_loop env sj cand k turns' (Some c) (records', v, number))))))))"

record 'e SyncResult =
  sy_progress :: progress
  sy_selected :: "RankedCandidate option"
  sy_collected :: "'e Collected option"
  sy_refusal :: "SuiteError option"
  sy_breakers :: "breakers option"

definition ask_probe :: "breakers option \<Rightarrow> string \<Rightarrow> instant \<Rightarrow> bool \<times> breakers option" where
  "ask_probe b cid now = (case b of None \<Rightarrow> (False, None) | Some r \<Rightarrow> map_prod id Some (allow_probe r cid now))"

definition hand_back_probe :: "bool \<Rightarrow> breakers option \<Rightarrow> string \<Rightarrow> breakers option" where
  "hand_back_probe holds b cid = (if holds then map_option (\<lambda>r. snd (release_probe r cid)) b else b)"

fun candidate_loop :: "packages \<Rightarrow> 'e sync_env \<Rightarrow> sync_job \<Rightarrow> RankedCandidate option list \<Rightarrow> nat \<Rightarrow> breakers option \<Rightarrow> progress \<Rightarrow>
    validation_error + 'e SyncResult" where
  "candidate_loop pkg env sj [] i b st =
     Inr \<lparr>sy_progress = st, sy_selected = None, sy_collected = None, sy_refusal = None, sy_breakers = b\<rparr>"
| "candidate_loop pkg env sj (None # cs) i b st = candidate_loop pkg env sj cs (Suc i) b st"
| "candidate_loop pkg env sj (Some c # cs) i b st =
     (let cid = subject_canonical_id pkg (cand_subject c) in
      (case ask_probe b cid (env_probe_at env i) of
         (holds, b1) \<Rightarrow>
           if \<not> holds \<and> (case b1 of None \<Rightarrow> False | Some r \<Rightarrow> probe_busy r cid) then candidate_loop pkg env sj cs (Suc i) b1 st
           else (case attempt_loop env sj c (sj_max_attempts sj) (gen_transcript (sj_request sj)) None st of
              Inl e \<Rightarrow> Inl e
            | Inr (st', NextCandidate) \<Rightarrow> candidate_loop pkg env sj cs (Suc i) b1 st'
            | Inr (st', Answered col) \<Rightarrow>
                Inr \<lparr>sy_progress = st', sy_selected = Some c, sy_collected = Some col, sy_refusal = None, sy_breakers = b1\<rparr>
            | Inr (st', CancelledOn col) \<Rightarrow>
                Inr \<lparr>sy_progress = st', sy_selected = Some c, sy_collected = Some col, sy_refusal = None,
                     sy_breakers = hand_back_probe holds b1 cid\<rparr>
            | Inr (st', Refused r) \<Rightarrow>
                Inr \<lparr>sy_progress = st', sy_selected = None, sy_collected = None, sy_refusal = Some r, sy_breakers = b1\<rparr>)))"

definition not_validated :: ValidationOutcome where
  "not_validated = \<lparr>val_performed = False, val_passed = None, val_checks = [], val_parsed = JNull\<rparr>"

definition execute_attempts :: "packages \<Rightarrow> 'e sync_env \<Rightarrow> sync_job \<Rightarrow> breakers option \<Rightarrow> validation_error + 'e SyncResult" where
  "execute_attempts pkg env sj b = candidate_loop pkg env sj (sj_candidates sj) 0 b ([], not_validated, 0)"

subsection \<open>Writing the end of an execution\<close>

definition result_columns :: "(string \<Rightarrow> string) \<Rightarrow> ExecutionOutcome option \<Rightarrow> JobResult" where
  "result_columns sha256 outcome =
     (case outcome of
        None \<Rightarrow> no_result
      | Some e \<Rightarrow>
          \<lparr>response_hash = Some (sha256 (eo_text e)), response_text = Some (eo_text e), structured_output_json = eo_structured e,
           tool_calls_json = JList (map fragment_json (eo_tool_calls e)), reasoning_available = (eo_thinking e \<noteq> None),
           reasoning_summary = eo_thinking e, reasoning_source = (if eo_thinking e \<noteq> None then Some ''provider'' else None),
           provider_ms = Some (eo_provider_ms e), loadcoach_overhead_ms = Some (eo_overhead_ms e), total_ms = Some (eo_total_ms e),
           ttft_ms = eo_ttft_ms e, input_tokens = eo_input_tokens e, output_tokens = eo_output_tokens e,
           cache_write_tokens = eo_cache_write_tokens e, cache_read_tokens = eo_cache_read_tokens e,
           thinking_tokens = eo_thinking_tokens e, validation_passed = val_passed (eo_validation e),
           degradations_json = eo_degradations e\<rparr>)"

definition selection_columns :: "packages \<Rightarrow> RankedCandidate option \<Rightarrow> Job \<Rightarrow> Job" where
  "selection_columns pkg selected j =
     j\<lparr>selected_model_id := map_option (model_id \<circ> facts \<circ> cand_subject) selected,
       job_runtime_profile_hash := map_option (runtime_profile_hash pkg \<circ> cand_subject) selected,
       job_served_context := map_option (tokens \<circ> served_context \<circ> cand_subject) selected,
       job_served_context_source := map_option (context_source \<circ> served_context \<circ> cand_subject) selected,
       job_target_gpu_index := Option.bind selected target_gpu_index\<rparr>"

text \<open>The row of an execution that is over, as \<open>_persist\<close> assigns it over the reserved one.\<close>

definition finished_row :: "packages \<Rightarrow> (string \<Rightarrow> string) \<Rightarrow> RoutingResult \<Rightarrow> ExecutionOutcome option \<Rightarrow> AttemptRecord list \<Rightarrow>
    SuiteError option \<Rightarrow> instant \<Rightarrow> Job \<Rightarrow> Job" where
  "finished_row pkg sha256 routing outcome records err now j =
     (selection_columns pkg (map_option eo_selected outcome) j)\<lparr>
       task_profile_id := tp_profile_id (rt_profile routing), task_profile_version := tp_version (rt_profile routing),
       job_state := (if outcome \<noteq> None then COMPLETED else FAILED),
       state_reason := (case err of None \<Rightarrow> Some ''synchronous'' | Some e \<Rightarrow> Some (err_code e)),
       job_result := result_columns sha256 outcome, max_attempts := int (max (length records) 1), completed_at := Some now,
       error_code := map_option err_code err, error_text := map_option err_message err\<rparr>"

text \<open>The row \<open>_persist\<close> adds when none was reserved; columns it does not name have their defaults.\<close>

definition added_row :: "packages \<Rightarrow> (string \<Rightarrow> string) \<Rightarrow> string \<Rightarrow> GenerateRequest \<Rightarrow> RoutingResult \<Rightarrow> ExecutionOutcome option \<Rightarrow>
    AttemptRecord list \<Rightarrow> SuiteError option \<Rightarrow> instant \<Rightarrow> Job" where
  "added_row pkg sha256 new_id request routing outcome records err now =
     (let subject = map_option (cand_subject \<circ> eo_selected) outcome in
      (finished_row pkg sha256 routing outcome records err now (sync_row sha256 new_id request (rt_profile routing) now 0))\<lparr>
        job_class := NORMAL, job_base_priority := 0, job_effective_priority := 0,
        state_reason := map_option err_code err, idempotency_expires_at := None,
        request_json := Some [(''task'', JStr (gen_task request)), (''tools'', tool_definitions_json (gen_tools request)),
          (''response_format'', of_opt_str (gen_response_format request)), (''sampling'', JObj (gen_sampling request)),
          (''stream'', JBool (gen_stream request))],
        selected_adapter_id := Option.bind subject (\<lambda>s. map_option adapter_id (adapter s)),
        selected_subject_canonical_id := map_option (subject_canonical_id pkg) subject\<rparr>)"

definition plain_events :: "string \<Rightarrow> AttemptRecord list \<Rightarrow> json_obj option \<Rightarrow> instant \<Rightarrow> JobEvent list" where
  "plain_events i records outcome now =
     (let entries = [(''job.executing'', [], None)] @
            map (\<lambda>r. (if rec_attempt r > 1 then ''job.retrying'' else ''job.executing'', attempt_record_json r,
                   Some (''attempt '' @ str_int (rec_attempt r) @ '' on '' @ rec_canonical_id r @ '': '' @ rec_outcome r))) records @
            [case outcome of Some d \<Rightarrow> (''job.completed'', d, None) | None \<Rightarrow> (''job.failed'', [], None)]
      in map (\<lambda>(n, (t, d, m)). \<lparr>je_job_id = i, je_sequence = int n, je_timestamp = now, je_type = t, je_message = m, je_data = d\<rparr>)
           (enumerate 1 entries))"

definition error_data :: "SuiteError \<Rightarrow> json_obj" where
  "error_data e = fold (\<lambda>(k, v). AList.update k v) (err_details e) [(''code'', JStr (err_code e)), (''message'', JStr (err_message e))]"

text \<open>\<open>_persist\<close>; \<open>sink\<close> says whether there is an event sink, \<open>existing\<close> whether a row was reserved.\<close>

definition persist :: "packages \<Rightarrow> (string \<Rightarrow> string) \<Rightarrow> (ExecutionOutcome \<Rightarrow> json_obj) \<Rightarrow> bool \<Rightarrow> bool \<Rightarrow> string \<Rightarrow> GenerateRequest \<Rightarrow>
    RoutingResult \<Rightarrow> ExecutionOutcome option \<Rightarrow> AttemptRecord list \<Rightarrow> SuiteError option \<Rightarrow> instant \<Rightarrow> World \<Rightarrow> queue_error + World" where
  "persist pkg sha256 as_json sink existing i request routing outcome records err now w =
     bind_result
       (if existing then
          (case get_row i (jobs w) of
             None \<Rightarrow> Inl (JobNotFound i)
           | Some _ \<Rightarrow> Inr (w\<lparr>jobs := update_where (\<lambda>j. job_id j = i) (finished_row pkg sha256 routing outcome records err now) (jobs w)\<rparr>))
        else insert_job (added_row pkg sha256 i request routing outcome records err now) w) (\<lambda>w1.
     bind_result (write_attempts i now records (link_decision (rt_decision_id routing) i w1)) (\<lambda>w2.
       (case (sink, outcome, err) of
          (False, _, _) \<Rightarrow>
            (let added = plain_events i records (map_option as_json outcome) now in
             if \<exists>a \<in> set added. \<exists>e \<in> set (job_events w2). je_job_id e = i \<and> je_sequence e = je_sequence a then Inl IntegrityError
             else Inr (w2\<lparr>job_events := job_events w2 @ added\<rparr>))
        | (True, Some e, _) \<Rightarrow> Inr (commit (append_event i ''result'' now None (as_json e) w2))
        | (True, None, Some e) \<Rightarrow> Inr (commit (append_event i ''error'' now None (error_data e) w2))
        | (True, None, None) \<Rightarrow> Inl AssertionFailed)))"

definition fail_reserved :: "bool \<Rightarrow> string \<Rightarrow> SuiteError \<Rightarrow> instant \<Rightarrow> World \<Rightarrow> queue_error + World" where
  "fail_reserved sink i err now w =
     (case get_row i (jobs w) of
        None \<Rightarrow> Inl (JobNotFound i)
      | Some _ \<Rightarrow>
          (let w1 = w\<lparr>jobs := update_where (\<lambda>j. job_id j = i) (\<lambda>j. j\<lparr>job_state := FAILED, state_reason := Some (err_code err),
                 error_code := Some (err_code err), error_text := Some (err_message err), completed_at := Some now\<rparr>) (jobs w)\<rparr>;
               w2 = (case json_get (err_details err) ''decision_id'' of JStr d \<Rightarrow> link_decision d i w1 | _ \<Rightarrow> w1)
           in Inr (if sink then commit (append_event i ''error'' now None (error_data err) w2) else w2)))"

subsection \<open>The whole execution\<close>

datatype exec_error = ExecDenied authorization_error | ExecQueue queue_error | ExecSuite SuiteError | ExecSchema validation_error

definition all_candidates_failed :: "string \<Rightarrow> RoutingResult \<Rightarrow> AttemptRecord list \<Rightarrow> SuiteError" where
  "all_candidates_failed i routing records =
     \<lparr>err_code = ''ALL_CANDIDATES_FAILED'',
      err_message = (if records = [] then ''Every ranked candidate was skipped: a circuit-breaker probe is already in flight on each.''
        else ''Every candidate was tried and every attempt failed.''),
      err_details = [(''job_id'', JStr i), (''decision_id'', JStr (rt_decision_id routing)),
        (''attempts'', JList (map (JObj \<circ> attempt_record_json) records))]\<rparr>"

definition provider_total :: "AttemptRecord list \<Rightarrow> int" where
  "provider_total records = sum_list (map (\<lambda>r. case rec_provider_ms r of None \<Rightarrow> 0 | Some n \<Rightarrow> n) records)"

definition completed_outcome :: "string \<Rightarrow> RoutingResult \<Rightarrow> RankedCandidate \<Rightarrow> 'e Collected \<Rightarrow> GenerationResult \<Rightarrow> ValidationOutcome \<Rightarrow>
    AttemptRecord list \<Rightarrow> string list \<Rightarrow> int \<Rightarrow> ExecutionOutcome" where
  "completed_outcome i routing cand c r v records degradations elapsed_total =
     \<lparr>eo_job_id = i, eo_status = ''completed'', eo_text = col_text c,
      eo_structured = (if val_performed v then val_parsed v else JNull), eo_tool_calls = col_tool_calls c,
      eo_thinking = (if col_thinking c = [] then None else Some (col_thinking c)), eo_routing = routing, eo_selected = cand,
      eo_attempts = records, eo_validation = v, eo_degradations = degradations, eo_total_ms = elapsed_total,
      eo_provider_ms = provider_total records, eo_overhead_ms = max (elapsed_total - provider_total records) 0,
      eo_ttft_ms = (if records = [] then None else rec_ttft_ms (last records)), eo_input_tokens = count (res_input_tokens r),
      eo_output_tokens = count (res_output_tokens r), eo_cache_write_tokens = count (res_cache_write_tokens r),
      eo_cache_read_tokens = count (res_cache_read_tokens r), eo_thinking_tokens = count (res_thinking_tokens r),
      eo_queue_wait_ms = 0, eo_finish_reason = Some (res_finish_reason r)\<rparr>"

record exec_context =
  xc_packages :: packages
  xc_sha256 :: "string \<Rightarrow> string"
  xc_as_json :: "ExecutionOutcome \<Rightarrow> json_obj"
  xc_sink :: bool
  xc_streaming :: bool
  xc_breakers :: "breakers option"
  xc_total_ms :: int

definition save :: "exec_context \<Rightarrow> bool \<Rightarrow> string \<Rightarrow> GenerateRequest \<Rightarrow> RoutingResult \<Rightarrow> ExecutionOutcome option \<Rightarrow> AttemptRecord list \<Rightarrow>
    SuiteError option \<Rightarrow> instant \<Rightarrow> World \<Rightarrow> queue_error + World" where
  "save xc = persist (xc_packages xc) (xc_sha256 xc) (xc_as_json xc) (xc_sink xc)"

text \<open>What the loop's result becomes: a refusal, a failure or an outcome, each persisted.\<close>

definition conclude :: "exec_context \<Rightarrow> bool \<Rightarrow> string \<Rightarrow> GenerateRequest \<Rightarrow> RoutingResult \<Rightarrow> 'e SyncResult \<Rightarrow> instant \<Rightarrow> World \<Rightarrow>
    (exec_error + ExecutionOutcome) \<times> World" where
  "conclude xc existing i request routing r now w =
     (let records = fst (sy_progress r);
          fail = (\<lambda>e. case save xc existing i request routing None records (Some e) now w of
                       Inl q \<Rightarrow> (Inl (ExecQueue q), w) | Inr w' \<Rightarrow> (Inl (ExecSuite e), w'))
      in case sy_refusal r of
           Some e \<Rightarrow> fail e
         | None \<Rightarrow>
             (case (sy_selected r, sy_collected r, Option.bind (sy_collected r) col_result) of
                (Some cand, Some c, Some res) \<Rightarrow>
                  (let e = completed_outcome i routing cand c res (fst (snd (sy_progress r))) records
                         (if xc_streaming xc then [] else [''cancellation_deferred_to_completion'']) (xc_total_ms xc)
                   in case save xc existing i request routing (Some e) records None now w of
                        Inl q \<Rightarrow> (Inl (ExecQueue q), w) | Inr w' \<Rightarrow> (Inr e, w'))
              | _ \<Rightarrow> fail (all_candidates_failed i routing records)))"

definition announce_routing :: "exec_context \<Rightarrow> bool \<Rightarrow> string \<Rightarrow> RoutingResult \<Rightarrow> instant \<Rightarrow> World \<Rightarrow> World" where
  "announce_routing xc existing i routing now w =
     (if xc_sink xc \<and> existing
      then commit (append_event i ''routing'' now None (rt_payload routing) (link_decision (rt_decision_id routing) i w)) else w)"

text \<open>\<open>execute\<close>: \<open>routed\<close> is what the routing pass returned or raised, \<open>others\<close> what other callers do while
  the provider works. An exception the code does not catch leaves the world as it is then.\<close>

definition execute :: "exec_context \<Rightarrow> 'e sync_env \<Rightarrow> Principal option \<Rightarrow> SuiteError + RoutingResult \<Rightarrow> (RoutingResult \<Rightarrow> sync_job) \<Rightarrow>
    (World \<Rightarrow> World) \<Rightarrow> string option \<Rightarrow> string \<Rightarrow> instant \<Rightarrow> World \<Rightarrow> (exec_error + ExecutionOutcome) \<times> World" where
  "execute xc env caller routed job_of others reserved new_id now w =
     (let existing = (reserved \<noteq> None); i = (case reserved of None \<Rightarrow> new_id | Some r \<Rightarrow> r) in
      (case authorize caller ''write'' of
         Inl e \<Rightarrow> (Inl (ExecDenied e), w)
       | Inr _ \<Rightarrow>
           (case routed of
              Inl e \<Rightarrow>
                (if existing then (case fail_reserved (xc_sink xc) i e now w of Inl q \<Rightarrow> (Inl (ExecQueue q), w) | Inr w' \<Rightarrow> (Inl (ExecSuite e), w'))
                 else (Inl (ExecSuite e), w))
            | Inr routing \<Rightarrow>
                (let w1 = others (announce_routing xc existing i routing now w); sj = job_of routing in
                 (case execute_attempts (xc_packages xc) env sj (xc_breakers xc) of
                    Inl e \<Rightarrow> (Inl (ExecSchema e), w1)
                  | Inr r \<Rightarrow> conclude xc existing i (sj_request sj) routing r now w1)))))"

subsection \<open>Attempt numbers\<close>

lemma run_attempt_number:
  "run_attempt ctx el st co req cand turns n s ep vp tmo corr = Inr (o', ch) \<Longrightarrow> rec_attempt (out_record o') = n"
  by (auto simp: run_attempt_def attempt_record_def Let_def split: sum.splits option.splits prod.splits)

definition numbered :: "AttemptRecord list \<Rightarrow> bool" where
  "numbered rs \<longleftrightarrow> map rec_attempt rs = map int [1..<Suc (length rs)]"

lemma numbered_Nil [simp]: "numbered []"
  by (simp add: numbered_def)

lemma numbered_snoc: "numbered rs \<Longrightarrow> rec_attempt r = int (length rs) + 1 \<Longrightarrow> numbered (rs @ [r])"
  by (simp add: numbered_def)

text \<open>What a loop adds: numbered records, at most one per attempt allowed.\<close>

definition extends_by :: "nat \<Rightarrow> AttemptRecord list \<Rightarrow> AttemptRecord list \<Rightarrow> bool" where
  "extends_by k rs rs' \<longleftrightarrow> numbered rs' \<and> length rs' \<le> length rs + k \<and> take (length rs) rs' = rs"

lemma extends_by_refl: "numbered rs \<Longrightarrow> extends_by k rs rs"
  by (simp add: extends_by_def)

lemma extends_by_snoc: "numbered rs \<Longrightarrow> rec_attempt r = int (length rs) + 1 \<Longrightarrow> extends_by (Suc k) rs (rs @ [r])"
  by (simp add: extends_by_def numbered_snoc)

lemma extends_by_trans: "extends_by k rs rs' \<Longrightarrow> extends_by l rs' rs'' \<Longrightarrow> length rs \<le> length rs' \<Longrightarrow> extends_by (k + l) rs rs''"
  by (auto simp: extends_by_def) (metis min.absorb1 take_take)

lemma extends_by_step: "extends_by k (rs @ [r]) rs' \<Longrightarrow> extends_by (Suc k) rs rs'"
  by (auto simp: extends_by_def) (metis append_eq_conv_conj append_take_drop_id append.assoc length_append_singleton)

fun settled_at :: "int \<Rightarrow> AttemptRecord list \<Rightarrow> 'e loop_end \<Rightarrow> bool" where
  "settled_at n rs (Refused e) = True"
| "settled_at n rs (Answered c) \<longleftrightarrow> n = int (length rs) \<and> rs \<noteq> []"
| "settled_at n rs (CancelledOn c) \<longleftrightarrow> n = int (length rs) \<and> rs \<noteq> []"
| "settled_at n rs NextCandidate \<longleftrightarrow> n = int (length rs)"

lemma attempt_loop_numbered:
  assumes "attempt_loop env sj cand k turns corr (rs, v, n) = Inr ((rs', v', n'), en)" "numbered rs" "n = int (length rs)"
  shows "extends_by k rs rs' \<and> settled_at n' rs' en"
  using assms
proof (induction k arbitrary: turns corr rs v n)
  case 0
  then show ?case by (auto simp: extends_by_refl)
next
  case (Suc k)
  note out = Suc.prems(1) [unfolded attempt_loop.simps Let_def]
  show ?case
  proof (cases "run_attempt (env_context env (n + 1)) (env_elapsed env (n + 1)) (env_started env (n + 1)) (env_completed env (n + 1))
          (sj_request sj) cand turns (n + 1) (sj_schema sj) (sj_execution sj) (sj_validation sj) (sj_timeout sj) corr")
    case (Inl e)
    with out Suc.prems(2,3) show ?thesis by (cases e) (auto simp: extends_by_refl)
  next
    case (Inr p)
    obtain o' ch where p: "p = (o', ch)" by (cases p)
    have num: "rec_attempt (out_record o') = int (length rs) + 1"
      using run_attempt_number [OF Inr [unfolded p]] Suc.prems(3) by simp
    note more = extends_by_snoc [OF Suc.prems(2) num]
    have step: "extends_by (Suc k) rs rs' \<and> settled_at n' rs' en"
      if "attempt_loop env sj cand k t c (rs @ [out_record o'], u, int (length rs) + 1) = Inr ((rs', v', n'), en)" for t c u
      using Suc.IH [OF that numbered_snoc [OF Suc.prems(2) num]] by (auto intro: extends_by_step)
    from out Inr p more Suc.prems(3) show ?thesis
      by (auto split: option.splits if_splits prod.splits dest: step)
  qed
qed

lemma candidate_loop_numbered:
  assumes "candidate_loop pkg env sj cs i b (rs, v, n) = Inr r" "numbered rs" "n = int (length rs)"
  shows "extends_by (sj_max_attempts sj * length cs) rs (fst (sy_progress r))"
  using assms
proof (induction cs arbitrary: i b rs v n)
  case Nil
  then show ?case by (auto simp: extends_by_refl)
next
  case (Cons c cs)
  have weaken: "extends_by (sj_max_attempts sj * length (c # cs)) rs rs'"
    if "extends_by (sj_max_attempts sj * length cs) rs rs' \<or> extends_by (sj_max_attempts sj) rs rs'" for rs'
    using that by (auto simp: extends_by_def)
  show ?case
  proof (cases c)
    case None
    with Cons weaken show ?thesis by auto
  next
    case (Some cand)
    obtain holds b1 where probe: "ask_probe b (subject_canonical_id pkg (cand_subject cand)) (env_probe_at env i) = (holds, b1)"
      by fastforce
    let ?loop = "attempt_loop env sj cand (sj_max_attempts sj) (gen_transcript (sj_request sj)) None (rs, v, n)"
    consider "candidate_loop pkg env sj cs (Suc i) b1 (rs, v, n) = Inr r"
      | rs' v' n' en where "?loop = Inr ((rs', v', n'), en)" "en \<noteq> NextCandidate" "fst (sy_progress r) = rs'"
      | rs' v' n' where "?loop = Inr ((rs', v', n'), NextCandidate)" "candidate_loop pkg env sj cs (Suc i) b1 (rs', v', n') = Inr r"
      using Cons.prems(1) Some probe by (auto simp: Let_def split: if_splits sum.splits prod.splits loop_end.splits)
    then show ?thesis
    proof cases
      case 1
      with Cons weaken show ?thesis by blast
    next
      case 2
      with attempt_loop_numbered [OF 2(1) Cons.prems(2,3)] weaken show ?thesis by blast
    next
      case (3 rs' v' n')
      note a = attempt_loop_numbered [OF 3(1) Cons.prems(2,3)]
      then have "numbered rs'" "n' = int (length rs')" "extends_by (sj_max_attempts sj) rs rs'" by (auto simp: extends_by_def)
      moreover from this have "length rs \<le> length rs'" by (auto simp: extends_by_def) (metis length_take min.cobounded1)
      ultimately show ?thesis using extends_by_trans [OF _ Cons.IH [OF 3(2)]] by simp
    qed
  qed
qed

lemma execute_attempts_numbered:
  assumes "execute_attempts pkg env sj b = Inr r"
  shows "numbered (fst (sy_progress r))" and "length (fst (sy_progress r)) \<le> sj_max_attempts sj * length (sj_candidates sj)"
  using candidate_loop_numbered [OF assms [unfolded execute_attempts_def]] by (auto simp: extends_by_def)

subsection \<open>Writing the attempts\<close>

abbreviation count_attempts :: "string \<Rightarrow> nat \<Rightarrow> Job list \<Rightarrow> Job list" where
  "count_attempts i n \<equiv> update_where (\<lambda>j. job_id j = i) (\<lambda>j. j\<lparr>attempt := attempt j + int n\<rparr>)"

lemma count_attempts_add: "count_attempts i 1 (count_attempts i n rows) = count_attempts i (Suc n) rows"
  by (simp add: update_where_def)

lemma get_row_update_where:
  "(\<And>j. job_id (f j) = job_id j) \<Longrightarrow>
   get_row i (update_where (\<lambda>j. job_id j = i) f rows) = map_option f (get_row i rows)"
  by (induction rows) (auto simp: get_row_def update_where_def)

lemma write_attempt_ok:
  assumes "get_row i (jobs w) = Some j" "rec_attempt r = attempt j + 1" "\<forall>a \<in> set (job_attempts w). ja_job_id a = i \<longrightarrow> ja_attempt a \<le> attempt j"
  shows "write_attempt i r now None w = Inr (attempt j + 1, w\<lparr>jobs := count_attempts i 1 (jobs w),
      job_attempts := job_attempts w @ [attempt_row i r], validations := validations w @ validation_rows i r now\<rparr>)"
proof -
  have holds: "holds_attempt i None = (\<lambda>j. job_id j = i)" by (simp add: holds_attempt_def fun_eq_iff)
  show ?thesis using assms by (auto simp: write_attempt_def holds get_row_def Let_def)
qed

lemma attempt_row_keys [simp]: "ja_job_id (attempt_row i r) = i" "ja_attempt (attempt_row i r) = rec_attempt r"
  by (simp_all add: attempt_row_def)

lemma write_attempts_append:
  "write_attempts i now (rs @ rs') w = bind_result (write_attempts i now rs w) (write_attempts i now rs')"
  by (induction rs arbitrary: w) (auto simp: bind_result_def split: sum.splits prod.splits)

lemma numbered_butlast: "numbered (rs @ [r]) \<longleftrightarrow> numbered rs \<and> rec_attempt r = int (length rs) + 1"
  by (auto simp: numbered_def)

lemma numbered_range: "numbered rs \<Longrightarrow> r \<in> set rs \<Longrightarrow> 1 \<le> rec_attempt r \<and> rec_attempt r \<le> int (length rs)"
  by (induction rs rule: rev_induct) (auto simp: numbered_butlast)

lemma write_attempts_ok:
  assumes "get_row i (jobs w) = Some j" "attempt j = 0" "numbered rs" "\<forall>a \<in> set (job_attempts w). ja_job_id a \<noteq> i"
  shows "write_attempts i now rs w = Inr (w\<lparr>jobs := count_attempts i (length rs) (jobs w),
      job_attempts := job_attempts w @ map (attempt_row i) rs,
      validations := validations w @ concat (map (\<lambda>r. validation_rows i r now) rs)\<rparr>)"
  using assms(3)
proof (induction rs rule: rev_induct)
  case Nil
  then show ?case by (simp add: update_where_def)
next
  case (snoc r rs)
  then have num: "numbered rs" "rec_attempt r = int (length rs) + 1" by (simp_all add: numbered_butlast)
  have row: "get_row i (count_attempts i (length rs) (jobs w)) = Some (j\<lparr>attempt := int (length rs)\<rparr>)"
    using assms(1,2) by (simp add: get_row_update_where)
  show ?case
    using snoc.IH [OF num(1)] num assms(4) numbered_range [OF num(1)]
    by (subst write_attempts_append, simp add: bind_result_def, subst write_attempt_ok [where j = "j\<lparr>attempt := int (length rs)\<rparr>"])
       (auto simp: row count_attempts_add [simplified] dest!: arg_cong [where f = ja_attempt])
qed

subsection \<open>What an answer is\<close>

definition validated_end :: "AttemptRecord list \<Rightarrow> ValidationOutcome \<Rightarrow> bool" where
  "validated_end rs v \<longleftrightarrow> rs \<noteq> [] \<and> rec_outcome (last rs) = ''completed'' \<and> rec_validation (last rs) = Some v \<and> val_passed v \<noteq> Some False"

fun ended_well :: "AttemptRecord list \<Rightarrow> ValidationOutcome \<Rightarrow> 'e loop_end \<Rightarrow> bool" where
  "ended_well rs v (Answered c) = validated_end rs v"
| "ended_well rs v (CancelledOn c) \<longleftrightarrow> col_result c = None"
| "ended_well rs v e = True"

lemma run_attempt_failed:
  "run_attempt ctx el st co req cand turns n s ep vp tmo corr = Inr (o', ch) \<Longrightarrow> out_failure o' \<noteq> None \<Longrightarrow> out_result o' = None"
  by (auto simp: run_attempt_def Let_def split: sum.splits option.splits prod.splits)

lemma run_attempt_validated:
  assumes "run_attempt ctx el st co req cand turns n s ep vp tmo corr = Inr (o', ch)" "outcome_passed o'"
  shows "validated_end (rs @ [out_record o']) (the (out_validation o'))"
  using assms by (auto simp: run_attempt_def attempt_record_def outcome_passed_def validated_end_def Let_def
      split: sum.splits option.splits prod.splits if_splits)

lemma attempt_loop_ended_well:
  "attempt_loop env sj cand k turns corr (rs, v, n) = Inr ((rs', v', n'), en) \<Longrightarrow> ended_well rs' v' en"
proof (induction k arbitrary: turns corr rs v n)
  case (Suc k)
  note out = Suc.prems [unfolded attempt_loop.simps Let_def]
  show ?case
  proof (cases "run_attempt (env_context env (n + 1)) (env_elapsed env (n + 1)) (env_started env (n + 1)) (env_completed env (n + 1))
          (sj_request sj) cand turns (n + 1) (sj_schema sj) (sj_execution sj) (sj_validation sj) (sj_timeout sj) corr")
    case (Inl e)
    with out show ?thesis by (cases e) auto
  next
    case (Inr p)
    obtain o' ch where p: "p = (o', ch)" by (cases p)
    note facts = run_attempt_failed [OF Inr [unfolded p]] run_attempt_validated [OF Inr [unfolded p]]
    from out Inr p facts show ?thesis
      by (auto simp: collected_of_def split: option.splits if_splits prod.splits dest: Suc.IH)
  qed
qed auto

lemma candidate_loop_answered:
  assumes "candidate_loop pkg env sj cs i b st = Inr r" "sy_collected r = Some c" "col_result c = Some res"
  shows "validated_end (fst (sy_progress r)) (fst (snd (sy_progress r)))" and "sy_selected r \<noteq> None"
    and "sy_refusal r = None" and "sy_selected r \<in> set cs"
proof -
  have "validated_end (fst (sy_progress r)) (fst (snd (sy_progress r))) \<and> sy_selected r \<noteq> None \<and> sy_refusal r = None \<and> sy_selected r \<in> set cs"
    using assms(1)
  proof (induction cs arbitrary: i b st)
    case (Cons a cs)
    show ?case
    proof (cases a)
      case (Some cand)
      obtain holds b1 where probe: "ask_probe b (subject_canonical_id pkg (cand_subject cand)) (env_probe_at env i) = (holds, b1)"
        by fastforce
      show ?thesis
        using Cons.prems Some probe assms(2,3) Cons.IH attempt_loop_ended_well
        by (cases st) (fastforce simp: Let_def split: if_splits sum.splits prod.splits loop_end.splits dest: attempt_loop_ended_well)
    qed (use Cons in auto)
  qed (use assms in auto)
  then show "validated_end (fst (sy_progress r)) (fst (snd (sy_progress r)))" "sy_selected r \<noteq> None" "sy_refusal r = None"
    "sy_selected r \<in> set cs" by auto
qed

subsection \<open>What an execution leaves behind\<close>

lemma link_decision_fields [simp]:
  "jobs (link_decision d i w) = jobs w" "job_attempts (link_decision d i w) = job_attempts w"
  by (simp_all add: link_decision_def split: option.splits)

lemma announce_routing_fields [simp]:
  "jobs (announce_routing xc existing i routing now w) = jobs w"
  "job_attempts (announce_routing xc existing i routing now w) = job_attempts w"
  by (simp_all add: announce_routing_def)

lemma finished_row_fields [simp]:
  "job_id (finished_row pkg sha256 routing outcome records err now j) = job_id j"
  "attempt (finished_row pkg sha256 routing outcome records err now j) = attempt j"
  "completed_at (finished_row pkg sha256 routing outcome records err now j) = Some now"
  "job_state (finished_row pkg sha256 routing outcome records err now j) = (if outcome \<noteq> None then COMPLETED else FAILED)"
  "error_code (finished_row pkg sha256 routing outcome records err now j) = map_option err_code err"
  "response_text (job_result (finished_row pkg sha256 routing outcome records err now j)) = map_option eo_text outcome"
  by (simp_all add: finished_row_def selection_columns_def result_columns_def no_result_def split: option.splits)

lemma get_row_other: "k \<noteq> i \<Longrightarrow> (\<And>j. job_id (f j) = job_id j) \<Longrightarrow> get_row k (update_where (\<lambda>j. job_id j = i) f rows) = get_row k rows"
  by (induction rows) (auto simp: get_row_def update_where_def)

text \<open>The world after the rows of an execution are written.\<close>

definition recorded :: "string \<Rightarrow> AttemptRecord list \<Rightarrow> instant \<Rightarrow> ExecutionOutcome option \<Rightarrow> SuiteError option \<Rightarrow> World \<Rightarrow> World \<Rightarrow> bool" where
  "recorded i records now outcome err w w' \<longleftrightarrow>
     job_attempts w' = job_attempts w @ map (attempt_row i) records \<and>
     (\<exists>j. get_row i (jobs w') = Some j \<and> attempt j = int (length records) \<and> completed_at j = Some now \<and>
        job_state j = (if outcome \<noteq> None then COMPLETED else FAILED) \<and> error_code j = map_option err_code err \<and>
        response_text (job_result j) = map_option eo_text outcome) \<and>
     (\<forall>k. k \<noteq> i \<longrightarrow> get_row k (jobs w') = get_row k (jobs w))"

lemma save_recorded:
  assumes "get_row i (jobs w) = Some j" "attempt j = 0" "numbered records" "\<forall>a \<in> set (job_attempts w). ja_job_id a \<noteq> i"
    and "xc_sink xc" "outcome \<noteq> None \<or> err \<noteq> None"
  obtains w' where "save xc True i request routing outcome records err now w = Inr w'" "recorded i records now outcome err w w'"
proof -
  let ?f = "finished_row (xc_packages xc) (xc_sha256 xc) routing outcome records err now"
  let ?w1 = "link_decision (rt_decision_id routing) i (w\<lparr>jobs := update_where (\<lambda>j. job_id j = i) ?f (jobs w)\<rparr>)"
  have row: "get_row i (jobs ?w1) = Some (?f j)" using assms(1) by (simp add: get_row_update_where)
  obtain w2 where w2: "write_attempts i now records ?w1 = Inr w2"
      "jobs w2 = count_attempts i (length records) (jobs ?w1)" "job_attempts w2 = job_attempts w @ map (attempt_row i) records"
    using write_attempts_ok [OF row _ assms(3), of now] assms(2,4) by simp
  obtain w' where w': "save xc True i request routing outcome records err now w = Inr w'"
      "jobs w' = jobs w2" "job_attempts w' = job_attempts w2"
    using assms(1,5,6) w2(1) by (cases outcome; cases err) (simp_all add: save_def persist_def bind_result_def)
  have "get_row i (jobs w2) = Some ((?f j)\<lparr>attempt := int (length records)\<rparr>)"
    unfolding w2(2) by (subst get_row_update_where) (use row assms(2) in \<open>simp_all del: link_decision_fields\<close>)
  then have "recorded i records now outcome err w w'"
    by (simp add: recorded_def w'(2,3) w2(2,3) get_row_other)
  with w'(1) show thesis by (rule that)
qed

text \<open>The outcome the caller gets and the error it raises, from what \<open>execute\<close> returns.\<close>

definition returned :: "exec_error + ExecutionOutcome \<Rightarrow> ExecutionOutcome option" where
  "returned res = (case res of Inl _ \<Rightarrow> None | Inr e \<Rightarrow> Some e)"

definition raised :: "exec_error + ExecutionOutcome \<Rightarrow> SuiteError option" where
  "raised res = (case res of Inl (ExecSuite e) \<Rightarrow> Some e | _ \<Rightarrow> None)"

lemma conclude_recorded:
  assumes "get_row i (jobs w) = Some j" "attempt j = 0" "numbered (fst (sy_progress r))" "\<forall>a \<in> set (job_attempts w). ja_job_id a \<noteq> i" "xc_sink xc"
  obtains res w' where "conclude xc True i request routing r now w = (res, w')"
    "recorded i (fst (sy_progress r)) now (returned res) (raised res) w w'" "(returned res = None) = (raised res \<noteq> None)"
    "\<And>e. res = Inr e \<Longrightarrow> \<exists>c x cand. sy_collected r = Some c \<and> col_result c = Some x \<and> sy_selected r = Some cand \<and> sy_refusal r = None \<and>
       eo_attempts e = fst (sy_progress r) \<and> eo_validation e = fst (snd (sy_progress r)) \<and> eo_selected e = cand"
proof -
  note finish = that
  let ?save = "\<lambda>outcome err. save xc True i request routing outcome (fst (sy_progress r)) err now w"
  note saved = save_recorded [OF assms(1,2,3,4,5), where request = request and routing = routing and now = now]
  have failing: thesis if "conclude xc True i request routing r now w =
      (case ?save None (Some e) of Inl q \<Rightarrow> (Inl (ExecQueue q), w) | Inr w' \<Rightarrow> (Inl (ExecSuite e), w'))" for e
  proof -
    obtain w' where "?save None (Some e) = Inr w'" "recorded i (fst (sy_progress r)) now None (Some e) w w'"
      by (rule saved [where outcome = None and err = "Some e"]) auto
    then show thesis by (intro finish [of "Inl (ExecSuite e)" w']) (use that in \<open>simp_all add: returned_def raised_def\<close>)
  qed
  show thesis
  proof (cases "sy_refusal r = None \<and> sy_selected r \<noteq> None \<and> (\<exists>c x. sy_collected r = Some c \<and> col_result c = Some x)")
    case True
    then obtain cand c x where ok: "sy_refusal r = None" "sy_selected r = Some cand" "sy_collected r = Some c" "col_result c = Some x" by auto
    define e where "e = completed_outcome i routing cand c x (fst (snd (sy_progress r))) (fst (sy_progress r))
      (if xc_streaming xc then [] else [''cancellation_deferred_to_completion'']) (xc_total_ms xc)"
    obtain w' where w': "?save (Some e) None = Inr w'" "recorded i (fst (sy_progress r)) now (Some e) None w w'"
      by (rule saved [where outcome = "Some e" and err = None]) auto
    have "conclude xc True i request routing r now w = (Inr e, w')" using ok w'(1) by (simp add: conclude_def Let_def e_def)
    then show thesis by (rule finish) (use ok w'(2) in \<open>simp_all add: returned_def raised_def e_def completed_outcome_def\<close>)
  next
    case False
    then show thesis
      by (intro failing [of "case sy_refusal r of Some e \<Rightarrow> e | None \<Rightarrow> all_candidates_failed i routing (fst (sy_progress r))"])
        (auto simp: conclude_def Let_def split: option.splits)
  qed
qed


subsection \<open>A concrete execution\<close>

definition plain_request :: GenerateRequest where
  "plain_request = \<lparr>gen_task = ''chat'', gen_system = None, gen_prompt = Some ''hi'', gen_messages = None, gen_response_format = None,
     gen_sampling = [], gen_overrides = None, gen_tools = [], gen_data_classification = None, gen_source = ''app'',
     gen_idempotency_key = Some ''k1'', gen_stream = False\<rparr>"

definition plain_profile :: TaskProfileRow where
  "plain_profile = \<lparr>tp_profile_id = ''chat'', tp_version = ''1'', tp_weights = [], tp_constraints = [],
     tp_execution = [], tp_validation = [], tp_enabled = True, tp_updated_at = 0\<rparr>"

definition plain_routing :: RoutingResult where
  "plain_routing = \<lparr>rt_profile = plain_profile, rt_decision_id = ''d1'', rt_flags = [],
     rt_ranking = \<lparr>ordered = [], primary = Some (plain_candidate ''m'' 1), fallbacks = []\<rparr>, rt_payload = []\<rparr>"

definition plain_packages :: packages where
  "plain_packages = \<lparr>profile_hash = (\<lambda>_. ''h''), canonical_suffix = (\<lambda>a b. a @ b), classification_rank = (\<lambda>_. Some 0)\<rparr>"

text \<open>A provider that says \<open>hello\<close> and finishes, or fails, as the argument decides by attempt number.\<close>

definition scripted_api :: "bool \<Rightarrow> string provider_api" where
  "scripted_api ok = \<lparr>stream_of = (\<lambda>_. Inr (if ok then [TokenDelta ''hello'', StreamCompleted \<lparr>res_input_tokens = None,
       res_output_tokens = None, res_cache_write_tokens = None, res_cache_read_tokens = None, res_thinking_tokens = None,
       res_finish_reason = ''stop''\<rparr>] else [], if ok then None else Some ''down'')),
     is_instance = (\<lambda>_ _. False), error_name = id, error_str = id\<rparr>"

definition scripted_env :: "(int \<Rightarrow> bool) \<Rightarrow> string sync_env" where
  "scripted_env works = \<lparr>env_context = (\<lambda>n. \<lparr>ctx_packages = plain_packages, ctx_api = scripted_api (works n), ctx_sha256 = id,
       ctx_loads = (\<lambda>_. Inr JNull), ctx_search = (\<lambda>_ _. Inr True)\<rparr>),
     env_elapsed = (\<lambda>_ _. 1), env_started = (\<lambda>n. n), env_completed = (\<lambda>n. n), env_probe_at = int,
     env_render = (\<lambda>_ _ _. \<lparr>rp_system = None, rp_user = ''again'', rp_prompt_id = ''p'', rp_version = ''1'', rp_sha256 = ''s''\<rparr>),
     env_request_refused = (\<lambda>m. \<lparr>err_code = ''VALIDATION_ERROR'', err_message = m, err_details = []\<rparr>),
     env_turns_refused = (\<lambda>_. None), env_adapter_not_found = (\<lambda>_. None), env_profile_mismatch = (\<lambda>_. None)\<rparr>"

definition plain_exec :: exec_context where
  "plain_exec = \<lparr>xc_packages = plain_packages, xc_sha256 = id, xc_as_json = (\<lambda>_. []), xc_sink = True, xc_streaming = True,
     xc_breakers = None, xc_total_ms = 5\<rparr>"

definition two_candidates :: "schema option \<Rightarrow> sync_job" where
  "two_candidates s = \<lparr>sj_request = plain_request, sj_schema = s, sj_execution = [],
     sj_validation = (case s of None \<Rightarrow> [] | Some _ \<Rightarrow> [(''require_schema'', JBool True)]), sj_timeout = None,
     sj_candidates = [Some (plain_candidate ''m'' 1), Some (plain_candidate ''n'' 1)]\<rparr>"

lemmas scripted_defs = execute_attempts_def two_candidates_def sj_max_attempts_def ask_probe_def run_attempt_def scripted_env_def
  scripted_api_def run_stream_def permanent_refusal_def get_or_def nothing_collected_def stream_defs outcome_passed_def
  validate_policy_def validate_output_def json_checks_def policy_fields_def bind_result_def json_get_def Let_def

lemma scripted_answers: "\<exists>r. execute_attempts plain_packages (scripted_env (\<lambda>n. n = 2)) (two_candidates None) None = Inr r"
  by (simp add: scripted_defs)

definition reserved_world :: World where
  "reserved_world = world_of [sync_row id ''j1'' plain_request plain_profile 0 24]"

lemma reserved_row: "get_row ''j1'' (jobs reserved_world) = Some (sync_row id ''j1'' plain_request plain_profile 0 24)"
  by (simp add: reserved_world_def get_row_def sync_row_def)


subsection \<open>Two ways a reservation is lost\<close>

text \<open>
  C40. An error of the validator is not one the execution handles: when validating an answer
  raises (an unsupported schema keyword), the exception leaves \<open>execute\<close> with the reserved row
  as it was, in \<open>executing\<close> and without the attempts that were made, and since the row holds no
  lease no sweep of expired leases ever picks it up.\<close>

theorem validator_error_strands_row:
  assumes "execute_attempts (xc_packages xc) env (job_of routing) (xc_breakers xc) = Inl e" "authorize caller ''write'' = Inr u"
    and "get_row i (jobs w) = Some j" "job_state j = EXECUTING" "lease_expires_at j = None"
  shows "\<exists>w'. execute xc env caller (Inr routing) job_of id (Some i) new_id now w = (Inl (ExecSchema e), w') \<and>
     get_row i (jobs w') = Some j \<and> job_attempts w' = job_attempts w \<and> (\<forall>t. \<not> lease_expired t j)"
  using assms by (simp add: execute_def Let_def lease_expired_def)

lemma scripted_unsupported:
  "\<exists>e. execute_attempts plain_packages (scripted_env (\<lambda>_. True)) (two_candidates (Some [(''oneOf'', JList [])])) None = Inl e"
proof -
  obtain e where "reject_unsupported (JObj [(''oneOf'', JList [])]) [] = Inl e"
    by (subst (asm) reject_unsupported.simps) (simp add: SUPPORTED_SCHEMA_KEYWORDS_def)
  then show ?thesis
    by (simp add: scripted_defs validate_json_def validate_schema_def passed_check_def)
qed

theorem validator_error_strands_row_witness:
  "\<exists>e w'. execute plain_exec (scripted_env (\<lambda>_. True)) None (Inr plain_routing)
      (\<lambda>_. two_candidates (Some [(''oneOf'', JList [])])) id (Some ''j1'') ''x'' 7 reserved_world = (Inl (ExecSchema e), w') \<and>
     map_option job_state (get_row ''j1'' (jobs w')) = Some EXECUTING"
proof -
  obtain e where e: "execute_attempts (xc_packages plain_exec) (scripted_env (\<lambda>_. True))
      (two_candidates (Some [(''oneOf'', JList [])])) (xc_breakers plain_exec) = Inl e"
    using scripted_unsupported by (auto simp: plain_exec_def)
  have row: "job_state (sync_row id ''j1'' plain_request plain_profile 0 24) = EXECUTING"
    "lease_expires_at (sync_row id ''j1'' plain_request plain_profile 0 24) = None" by (simp_all add: sync_row_def)
  have allowed: "authorize None ''write'' = Inr None" by (simp add: authorize_def SCOPES_def)
  from validator_error_strands_row [where job_of = "\<lambda>_. two_candidates (Some [(''oneOf'', JList [])])" and routing = plain_routing,
      OF e allowed reserved_row row, of "''x''" 7] row(1)
  show ?thesis by auto
qed

lemma recovered_reservation:
  assumes "gen_idempotency_key request = Some k"
    and "row = sync_row sha256 i request profile t ttl_hours"
  shows "eligible now' (recovered_row waited qs p now row) \<longleftrightarrow> now \<le> now'"
    and "job_effective_priority (recovered_row waited qs p now row) = 800"
    and "job_id (recovered_row waited qs p now row) = i" and "queued_at (recovered_row waited qs p now row) = None"
  using assms(1) by (simp_all add: assms(2) recovered_row_def recovered_def recovery_aim_def recover_values_def assignments_def swept_def
      recoverable_def sync_row_def ours_def recovery_target_def state_set_defs eligible_def)

lemma claim_unqueued:
  assumes "distinct (map job_id (jobs w))" "row \<in> set (jobs w)" "eligible now row" "queued_at row = None"
    and "\<forall>j \<in> set (jobs w). j = row \<or> job_effective_priority j < job_effective_priority row"
  shows "claim cv owner now secs affinity w = Inl AssertionFailed"
proof -
  obtain i rows affine where c: "claim_choice owner now secs affinity (jobs w) = Some ((i, rows), affine)"
    using assms(2,3) claim_choice_None [of owner now secs affinity "jobs w"] by (cases "claim_choice owner now secs affinity (jobs w)") auto
  from claim_choice_Some [OF c] obtain j where j: "j \<in> set (jobs w)" "eligible now j" "i = job_id j"
    "\<forall>k \<in> set (jobs w). eligible now k \<longrightarrow> job_effective_priority k \<le> job_effective_priority j"
    "rows = update_where (\<lambda>r. job_id r = i \<and> job_state r = QUEUED) (leased_by owner now secs) (jobs w)" by blast
  have "j = row" using j(1,4) assms(2,3,5) by fastforce
  moreover have "job_state j = QUEUED" using j(2) by (simp add: eligible_def)
  ultimately have "rows = update_where (\<lambda>r. job_id r = job_id row) (leased_by owner now secs) (jobs w)"
    using claim_rows [OF assms(1,2)] j(3,5) by simp
  then have "get_row i rows = Some (leased_by owner now secs row)"
    using get_row_update [OF assms(1,2)] j(3) \<open>j = row\<close> by (simp add: leased_by_def)
  then show ?thesis using assms(4) by (simp add: claim_def c claimed_def leased_by_def bind_result_def)
qed

text \<open>
  C39. A reservation made under an idempotency key that startup recovery finds executing is put
  back in the queue without the instant it was queued at, which a synchronous row never had;
  from then on, while no eligible job outranks it, every claim raises and rolls back, so no
  worker gets any job.\<close>

theorem recovered_reservation_blocks_claims:
  assumes "gen_idempotency_key request = Some k" "distinct (map job_id (jobs w))" "0 \<le> ageing_priority_per_minute qs"
    and "sync_row sha256 i request profile t ttl_hours \<in> set (jobs w)" "now \<le> now'"
    and "\<forall>j \<in> set (jobs w). job_id j \<noteq> i \<longrightarrow> job_effective_priority (recovered_row waited qs p now j) < 800"
  shows "\<exists>s w'. recover waited now p qs None w = Inr (s, w') \<and>
     (\<forall>cv owner secs affinity. claim cv owner now' secs affinity w' = Inl AssertionFailed)"
proof -
  let ?row = "recovered_row waited qs p now (sync_row sha256 i request profile t ttl_hours)"
  obtain s w' where r: "recover waited now p qs None w = Inr (s, w')" "jobs w' = map (recovered_row waited qs p now) (jobs w)"
    using recover_result [OF assms(2,3)] by blast
  have ids: "job_id (recovered_row waited qs p now j) = job_id j" for j by (simp add: recovered_row_def)
  have d: "distinct (map job_id (jobs w'))" using assms(2) by (simp add: r(2) ids comp_def)
  have "j = ?row \<or> job_effective_priority j < job_effective_priority ?row" if "j \<in> set (jobs w')" for j
    using that assms(6) unique_row [OF assms(2,4)] recovered_reservation(2) [OF assms(1) refl]
    by (auto simp: r(2) sync_row_def)
  then show ?thesis
    using claim_unqueued [OF d, of ?row now'] recovered_reservation [OF assms(1) refl] assms(4,5) r by auto
qed

theorem recovered_reservation_blocks_claims_witness:
  "\<exists>s w'. recover waited_exactly 9 ''me'' shipped_queue_settings None reserved_world = Inr (s, w') \<and>
     claim plain_conversions ''me/worker-0'' 10 60 None w' = Inl AssertionFailed"
proof -
  have "gen_idempotency_key plain_request = Some ''k1''" "distinct (map job_id (jobs reserved_world))"
    "0 \<le> ageing_priority_per_minute shipped_queue_settings"
    "sync_row id ''j1'' plain_request plain_profile 0 24 \<in> set (jobs reserved_world)" "(9 :: int) \<le> 10"
    "\<forall>j \<in> set (jobs reserved_world). job_id j \<noteq> ''j1'' \<longrightarrow>
       job_effective_priority (recovered_row waited_exactly shipped_queue_settings ''me'' 9 j) < 800"
    by (simp_all add: plain_request_def reserved_world_def shipped_queue_settings_def sync_row_def)
  from recovered_reservation_blocks_claims [OF this] show ?thesis by blast
qed

end
