(* ===== verification/Worker_Store.thy ===== *)
theory Worker_Store
  imports Execution Admission Retry_Policy
begin

section \<open>A worker's transactions\<close>

text \<open>
  Models the transactions of \<open>Worker\<close> in \<^verbatim>\<open>src/src/loadcoach/services/worker.py\<close>, each one write of the event
  sink over the \<open>World\<close> of \<open>Job_Queue\<close>: deferring, requeuing, failing, admitting, starting, recording
  an attempt, readmitting, completing and cancelling a job. All of them but the last resort after a
  crash ask for a transition fenced on this worker's lease. The in-memory registry of held jobs
  (\<open>InFlightRegistry\<close>) and the operator's flags (\<open>QueueFlags\<close>) are here too. The properties: a
  transaction of a worker that does not hold the job's lease changes nothing, and what a
  transaction that commits has changed.
\<close>

subsection \<open>The in-flight registry\<close>

record InFlightEntry =
  if_job_id :: string
  if_worker_id :: string
  if_owner :: string
  if_cancelled :: bool
  if_claimed_at :: instant
  if_job_class :: string
  if_state :: JobState
  if_canonical_id :: "string option"
  if_model_id :: "string option"
  if_target_gpu_index :: "int option"
  if_estimated_bytes :: "int option"
  if_lost :: bool

type_synonym registry = "(string \<times> string, InFlightEntry) dict"

definition register :: "InFlightEntry \<Rightarrow> registry \<Rightarrow> registry" where
  "register entry r = AList.update (if_owner entry, if_job_id entry) entry r"

definition update_entry :: "string \<Rightarrow> string \<Rightarrow> (InFlightEntry \<Rightarrow> InFlightEntry) \<Rightarrow> registry \<Rightarrow> registry" where
  "update_entry i owner f r = (case map_of r (owner, i) of None \<Rightarrow> r | Some e \<Rightarrow> AList.update (owner, i) (f e) r)"

definition remove_entry :: "string \<Rightarrow> string \<Rightarrow> registry \<Rightarrow> InFlightEntry option \<times> registry" where
  "remove_entry i owner r = (map_of r (owner, i), AList.delete (owner, i) r)"

definition get_entry :: "string \<Rightarrow> string \<Rightarrow> registry \<Rightarrow> InFlightEntry option" where
  "get_entry i owner r = map_of r (owner, i)"

definition entries_for_job :: "string \<Rightarrow> registry \<Rightarrow> InFlightEntry list" where
  "entries_for_job i r = map snd (filter (\<lambda>((_, jid), _). jid = i) r)"

definition registry_snapshot :: "registry \<Rightarrow> InFlightEntry list" where
  "registry_snapshot r = map snd r"

definition job_ids_for :: "string \<Rightarrow> registry \<Rightarrow> string list" where
  "job_ids_for owner r = map (snd \<circ> fst) (filter (\<lambda>((own, _), _). own = owner) r)"

definition mark_lost :: "string \<Rightarrow> string \<Rightarrow> registry \<Rightarrow> registry" where
  "mark_lost i owner r = update_entry i owner (\<lambda>e. e\<lparr>if_lost := True, if_cancelled := True\<rparr>) r"

definition request_cancel :: "string \<Rightarrow> registry \<Rightarrow> bool \<times> registry" where
  "request_cancel i r =
     (entries_for_job i r \<noteq> [], map (\<lambda>((own, jid), e). ((own, jid), if jid = i then e\<lparr>if_cancelled := True\<rparr> else e)) r)"

definition in_use_model_ids :: "string option \<Rightarrow> registry \<Rightarrow> string set" where
  "in_use_model_ids excluding r =
     set (List.map_filter if_model_id (filter (\<lambda>e. Some (if_job_id e) \<noteq> excluding) (registry_snapshot r)))"

text \<open>\<open>admission_snapshot\<close>: \<open>residents\<close> maps a model to the devices it is resident on, \<open>evictable\<close> the
  models in use to the bytes per device that idle residents hold; \<open>None\<close> is no residency manager.\<close>

definition reservations :: "string option \<Rightarrow> (string, int set) dict \<Rightarrow> registry \<Rightarrow> Reservation list" where
  "reservations excluding devices_of r =
     List.map_filter (\<lambda>e.
       (case (if_target_gpu_index e, if_estimated_bytes e) of
          (Some g, Some b) \<Rightarrow>
            if Some (if_job_id e) \<noteq> excluding \<and> if_state e \<in> IN_FLIGHT_STATES \<and>
               \<not> (case if_canonical_id e of None \<Rightarrow> False | Some c \<Rightarrow> g \<in> dict_get devices_of c {})
            then Some \<lparr>reservation_job_id = if_job_id e, reservation_gpu_index = g, reservation_bytes = b\<rparr> else None
        | _ \<Rightarrow> None)) (registry_snapshot r)"

definition admission_snapshot :: "string option \<Rightarrow> ((string, int set) dict \<times> (string set \<Rightarrow> (int, int) dict)) option \<Rightarrow>
    telemetry_snapshot option \<Rightarrow> registry \<Rightarrow> telemetry_snapshot option" where
  "admission_snapshot excluding manager snap r =
     adjust_snapshot snap
       (reserved_bytes_by_device (reservations excluding (case manager of None \<Rightarrow> [] | Some (d, _) \<Rightarrow> d) r))
       (Some (case manager of None \<Rightarrow> [] | Some (_, evictable) \<Rightarrow> evictable (in_use_model_ids excluding r)))"

subsection \<open>The operator's flags\<close>

record QueueFlags =
  flag_paused :: bool
  flag_draining :: bool

definition claiming :: "QueueFlags \<Rightarrow> bool" where
  "claiming f \<longleftrightarrow> \<not> (flag_paused f \<or> flag_draining f)"

definition update_flag :: "Principal option \<Rightarrow> string \<Rightarrow> bool option \<Rightarrow> (QueueFlags \<Rightarrow> QueueFlags) \<Rightarrow> QueueFlags \<times> World \<Rightarrow>
    queue_error + (QueueFlags \<times> World)" where
  "update_flag caller name v f fw =
     (case v of None \<Rightarrow> Inr fw | Some b \<Rightarrow> bind_result (set_queue_flag caller name b (snd fw)) (\<lambda>w. Inr (f (fst fw), w)))"

definition update_flags :: "Principal option \<Rightarrow> bool option \<Rightarrow> bool option \<Rightarrow> QueueFlags \<times> World \<Rightarrow> queue_error + (QueueFlags \<times> World)" where
  "update_flags caller paused draining fw =
     bind_result (map_error NotAuthorized (authorize caller ''admin'')) (\<lambda>_.
     bind_result (update_flag caller ''queue.paused'' paused (\<lambda>f. f\<lparr>flag_paused := the paused\<rparr>) fw)
       (update_flag caller ''queue.draining'' draining (\<lambda>f. f\<lparr>flag_draining := the draining\<rparr>)))"

definition refresh_flags :: "World \<Rightarrow> QueueFlags" where
  "refresh_flags w = \<lparr>flag_paused = dict_get (queue_flags w) ''queue.paused'' False,
     flag_draining = dict_get (queue_flags w) ''queue.draining'' False\<rparr>"

subsection \<open>The transactions\<close>

text \<open>A dictionary display with a spread: \<open>{**base, **extra}\<close>.\<close>

definition spread :: "json_obj \<Rightarrow> json_obj \<Rightarrow> json_obj" where
  "spread base extra = fold (\<lambda>(k, v). AList.update k v) extra base"

text \<open>The shape every transaction has: a transition fenced on the owner, a write in the same
  transaction, one event, and the commit.\<close>

definition fenced_move :: "string \<Rightarrow> string \<Rightarrow> JobState \<Rightarrow> JobState \<Rightarrow> instant \<Rightarrow> string option \<Rightarrow> (Job \<Rightarrow> Job) \<Rightarrow> (World \<Rightarrow> World) \<Rightarrow>
    string \<Rightarrow> json_obj \<Rightarrow> World \<Rightarrow> queue_error + World" where
  "fenced_move owner i current target now rsn values also_write message data w =
     bind_result (transition i current target now (Some owner) rsn values (jobs w)) (\<lambda>rows.
       Inr (append_event i (event_type_for target) now (Some message) data (also_write (w\<lparr>jobs := rows\<rparr>))))"

definition linked :: "json_obj \<Rightarrow> string \<Rightarrow> World \<Rightarrow> World" where
  "linked details i w = (case json_get details ''decision_id'' of JStr d \<Rightarrow> link_decision d i w | _ \<Rightarrow> w)"

definition defer_reason :: "AdmissionVerdict \<Rightarrow> string" where
  "defer_reason v = (if probe_candidates v \<noteq> [] \<and> verdict_candidates v = [] then ''PROBE_IN_FLIGHT'' else ''INSUFFICIENT_RESOURCES'')"

text \<open>\<open>shown\<close> is \<open>str\<close> of the dictionary of free bytes.\<close>

definition defer_summary :: "((string, int option) dict \<Rightarrow> string) \<Rightarrow> AdmissionVerdict \<Rightarrow> string" where
  "defer_summary shown v =
     (if probe_candidates v \<noteq> [] \<and> verdict_candidates v = [] then
        ''circuit-breaker probe in flight on '' @ join '', '' (probe_candidates v) @ '': waiting for its verdict''
      else (case verdict_required_bytes v of
         Some b \<Rightarrow> ''insufficient VRAM: needs '' @ str_int b @ '' B + '' @
           (case verdict_headroom_bytes v of None \<Rightarrow> ''None'' | Some h \<Rightarrow> str_int h) @ '' B headroom; free by device '' @
           shown (verdict_free_bytes_by_gpu v)
       | None \<Rightarrow> ''VRAM estimate unknown ('' @ (if unknown_reasons v = [] then ''no reason'' else join '', '' (unknown_reasons v)) @
           '') and no candidate is resident''))"

definition first_model_id :: "json_obj list \<Rightarrow> AdmissionVerdict \<Rightarrow> string option" where
  "first_model_id candidates v =
     Option.bind (find (\<lambda>item. case json_get item ''canonical_id'' of JStr c \<Rightarrow> c \<in> set (verdict_candidates v) | _ \<Rightarrow> False) candidates)
       (\<lambda>item. as_str (json_get item ''model_id''))"

definition defer_tx :: "((string, int option) dict \<Rightarrow> string) \<Rightarrow> string \<Rightarrow> string \<Rightarrow> AdmissionVerdict \<Rightarrow> json_obj list \<Rightarrow> json_obj \<Rightarrow> instant \<Rightarrow>
    World \<Rightarrow> queue_error + World" where
  "defer_tx shown owner i v candidates details now w =
     map_sum id commit (fenced_move owner i LEASED WAITING_RESOURCES now (Some (defer_reason v))
       (\<lambda>j. j\<lparr>error_text := Some (defer_summary shown v), selected_model_id := first_model_id candidates v\<rparr>) (linked details i)
       (defer_summary shown v)
       (spread [(''reason'', JStr (defer_reason v)), (''decision_id'', json_get details ''decision_id'')] (verdict_json v)) w)"

definition requeue_for_probe :: "string \<Rightarrow> string \<Rightarrow> JobState \<Rightarrow> string list \<Rightarrow> instant \<Rightarrow> World \<Rightarrow> queue_error + World" where
  "requeue_for_probe owner i st probe_skipped now w =
     map_sum id commit (fenced_move owner i st QUEUED now (Some ''PROBE_IN_FLIGHT'') id id
       (''circuit-breaker probe already in flight on '' @ join '', '' probe_skipped @ '': requeued rather than run as a second probe'')
       [(''reason'', JStr ''PROBE_IN_FLIGHT''), (''probe_candidates'', JList (map JStr probe_skipped))] w)"

definition fail_admission :: "string \<Rightarrow> string \<Rightarrow> SuiteError \<Rightarrow> instant \<Rightarrow> World \<Rightarrow> queue_error + World" where
  "fail_admission owner i err now w =
     map_sum id commit (fenced_move owner i LEASED FAILED now (Some (err_code err))
       (\<lambda>j. j\<lparr>error_code := Some (err_code err), error_text := Some (err_message err)\<rparr>) (linked (err_details err) i)
       (''no eligible model: '' @ err_message err)
       (spread [(''reason'', JStr (err_code err)), (''previous_state'', JStr ''leased'')] (err_details err)) w)"

definition admit_tx :: "packages \<Rightarrow> string \<Rightarrow> string \<Rightarrow> string \<Rightarrow> RankedCandidate \<Rightarrow> instant \<Rightarrow> World \<Rightarrow> queue_error + World" where
  "admit_tx pkg owner i decision_id primary_candidate now w =
     (let cid = canonical_id (facts (cand_subject primary_candidate)) in
      map_sum id commit (fenced_move owner i LEASED ADMITTED now None (selection_columns pkg (Some primary_candidate))
        (link_decision decision_id i) (''admitted on '' @ cid)
        [(''decision_id'', JStr decision_id), (''canonical_id'', JStr cid),
         (''target_gpu_index'', of_opt_int (target_gpu_index primary_candidate)),
         (''estimated_vram_bytes'', of_opt_int (estimated_vram_bytes primary_candidate))] w))"

definition waited_ms :: "instant \<Rightarrow> instant \<Rightarrow> int" where
  "waited_ms now q = trunc (fl (total_seconds (now - q) * 1000))"

definition start_executing :: "string \<Rightarrow> ClaimedJob \<Rightarrow> JobState \<Rightarrow> int \<Rightarrow> json \<Rightarrow> instant \<Rightarrow> World \<Rightarrow> queue_error + World" where
  "start_executing owner job st number residency_json now w =
     map_sum id commit (fenced_move owner (claimed_job_id job) st EXECUTING now None
       (\<lambda>j. if number = claimed_attempt job + 1 \<and> claimed_attempt job = 0
             then j\<lparr>started_at := Some now, queue_wait_ms := Some (waited_ms now (claimed_queued_at job))\<rparr> else j) id
       (''attempt '' @ str_int number @ '' started'') [(''attempt'', JInt number), (''residency'', residency_json)] w)"

definition attempt_line :: "AttemptRecord \<Rightarrow> string" where
  "attempt_line r = ''attempt '' @ str_int (rec_attempt r) @ '' on '' @ rec_canonical_id r @ '': '' @ rec_outcome r"

definition record_failed_attempt :: "string \<Rightarrow> string \<Rightarrow> AttemptRecord \<Rightarrow> instant \<Rightarrow> World \<Rightarrow> queue_error + World" where
  "record_failed_attempt owner i r now w =
     bind_result (write_attempt i r now (Some owner) w) (\<lambda>(_, w1).
       map_sum id commit (fenced_move owner i EXECUTING RETRYING now (rec_error_code r) id id (attempt_line r) (attempt_record_json r) w1))"

definition validate_attempt :: "string \<Rightarrow> string \<Rightarrow> AttemptRecord \<Rightarrow> instant \<Rightarrow> World \<Rightarrow> queue_error + World" where
  "validate_attempt owner i r now w =
     bind_result (write_attempt i r now (Some owner) w) (\<lambda>(_, w1).
       map_sum id commit (fenced_move owner i EXECUTING VALIDATING now None id id (attempt_line r) (attempt_record_json r) w1))"

text \<open>The two transactions of \<open>_readmit\<close>, around the backoff.\<close>

definition readmit_retrying :: "string \<Rightarrow> string \<Rightarrow> JobState \<Rightarrow> string \<Rightarrow> instant \<Rightarrow> World \<Rightarrow> queue_error + World" where
  "readmit_retrying owner i st rsn now w =
     map_sum id commit (fenced_move owner i st RETRYING now (Some rsn) id id rsn [(''reason'', JStr rsn)] w)"

definition readmit_admit :: "packages \<Rightarrow> string \<Rightarrow> string \<Rightarrow> RankedCandidate \<Rightarrow> string \<Rightarrow> instant \<Rightarrow> World \<Rightarrow> queue_error + World" where
  "readmit_admit pkg owner i cand rsn now w =
     (let cid = canonical_id (facts (cand_subject cand)) in
      map_sum id commit (fenced_move owner i RETRYING ADMITTED now (Some rsn) (selection_columns pkg (Some cand)) id
        (''re-admitted on '' @ cid @ '' ('' @ rsn @ '')'')
        [(''reason'', JStr rsn), (''canonical_id'', JStr cid), (''target_gpu_index'', of_opt_int (target_gpu_index cand))] w))"

definition complete_tx :: "packages \<Rightarrow> (string \<Rightarrow> string) \<Rightarrow> (ExecutionOutcome \<Rightarrow> json_obj) \<Rightarrow> string \<Rightarrow> string \<Rightarrow> ExecutionOutcome \<Rightarrow> instant \<Rightarrow>
    World \<Rightarrow> queue_error + World" where
  "complete_tx pkg sha256 as_json owner i e now w =
     map_sum id commit (fenced_move owner i VALIDATING COMPLETED now None
       (\<lambda>j. (selection_columns pkg (Some (eo_selected e)) j)\<lparr>job_result := result_columns sha256 (Some e), error_code := None, error_text := None\<rparr>)
       id (''completed on '' @ canonical_id (facts (cand_subject (eo_selected e)))) (as_json e) w)"

definition fail_message :: "string \<Rightarrow> AttemptRecord list \<Rightarrow> int \<Rightarrow> string" where
  "fail_message code records limit =
     (if code = ''ATTEMPTS_EXHAUSTED'' then ''attempts exhausted after '' @ str_int (int (length records)) @ '' (max '' @ str_int limit @ '')''
      else if code = ''ALL_CANDIDATES_FAILED'' then ''every candidate was tried and every attempt failed'' else code)"

definition fail_tx :: "string \<Rightarrow> ClaimedJob \<Rightarrow> JobState \<Rightarrow> AttemptRecord list \<Rightarrow> string \<Rightarrow> int \<Rightarrow> instant \<Rightarrow> World \<Rightarrow> queue_error + World" where
  "fail_tx owner job st records code elapsed_ms now w =
     (let message = fail_message code records (claimed_max_attempts job) in
      map_sum id commit (fenced_move owner (claimed_job_id job) st FAILED now (Some code)
        (\<lambda>j. j\<lparr>error_code := Some code, error_text := Some message,
          job_result := (job_result j)\<lparr>total_ms := Some elapsed_ms, provider_ms := Some (provider_total records)\<rparr>\<rparr>) id message
        [(''reason'', JStr code), (''previous_state'', JStr (state_value st)),
         (''attempts'', JList (map (JObj \<circ> attempt_record_json) records))] w))"

text \<open>\<open>select(Job.state).where(Job.id == job_id, Job.lease_owner == owner)\<close>\<close>

definition held_state :: "string \<Rightarrow> string \<Rightarrow> World \<Rightarrow> JobState option" where
  "held_state owner i w = map_option job_state (find (\<lambda>j. job_id j = i \<and> lease_owner j = Some owner) (jobs w))"

definition cancel_from :: "string \<Rightarrow> string \<Rightarrow> AttemptRecord list \<Rightarrow> instant \<Rightarrow> World \<Rightarrow> queue_error + World" where
  "cancel_from owner i records now w =
     (case held_state owner i w of
        None \<Rightarrow> Inl (TransitionRefused i CANCELLING CANCELLED (Some owner))
      | Some st \<Rightarrow>
          bind_result (if records \<noteq> [] \<and> rec_outcome (last records) = ''cancelled''
                       then map_sum id snd (write_attempt i (last records) now (Some owner) w) else Inr w) (\<lambda>w1.
          bind_result (if st \<noteq> CANCELLING
                       then fenced_move owner i st CANCELLING now (Some ''cancel_requested'') id id (''cancel requested in '' @ state_value st)
                              [(''previous_state'', JStr (state_value st))] w1
                       else Inr w1) (\<lambda>w2.
            map_sum id commit (fenced_move owner i CANCELLING CANCELLED now (Some ''GENERATION_CANCELLED'')
              (\<lambda>j. j\<lparr>error_code := Some ''GENERATION_CANCELLED'', cancel_requested := True\<rparr>) id ''cancelled''
              [(''reason'', JStr ''GENERATION_CANCELLED''), (''attempts'', JList (map (JObj \<circ> attempt_record_json) records))] w2))))"

text \<open>\<open>_fail_after_crash\<close>: its own \<open>SuiteError\<close>s are logged and swallowed, which is the value \<open>w\<close>.\<close>

definition fail_after_crash :: "string \<Rightarrow> string \<Rightarrow> string \<Rightarrow> string \<Rightarrow> instant \<Rightarrow> World \<Rightarrow> World" where
  "fail_after_crash owner i code text now w =
     (case held_state owner i w of
        None \<Rightarrow> w
      | Some st \<Rightarrow>
          (case fenced_move owner i st FAILED now (Some code)
               (\<lambda>j. j\<lparr>error_code := Some code, error_text := Some (take 2000 text)\<rparr>) id
               (''failed in '' @ state_value st @ '': '' @ code)
               [(''reason'', JStr code), (''previous_state'', JStr (state_value st)), (''error'', JStr (take 500 text))] w of
             Inl _ \<Rightarrow> w | Inr w' \<Rightarrow> commit w'))"

subsection \<open>What a transaction does to the store\<close>

text \<open>A row before and after transactions of its lease holder.\<close>

definition row_moved :: "Job \<Rightarrow> Job \<Rightarrow> bool" where
  "row_moved j j' \<longleftrightarrow>
     job_id j' = job_id j \<and> queued_at j' = queued_at j \<and> job_source j' = job_source j \<and> idempotency_key j' = idempotency_key j \<and>
     (job_state j, job_state j') \<in> TRANSITIONS\<^sup>* \<and>
     lease_owner j' = (if job_state j' \<in> IN_FLIGHT_STATES then lease_owner j else None) \<and>
     lease_expires_at j' = (if job_state j' \<in> IN_FLIGHT_STATES then lease_expires_at j else None) \<and>
     (if job_state j' \<in> TERMINAL_STATES then completed_at j' \<noteq> None else completed_at j' = completed_at j)"

definition owned_change :: "string \<Rightarrow> string \<Rightarrow> World \<Rightarrow> World \<Rightarrow> bool" where
  "owned_change owner i w w' \<longleftrightarrow>
     (\<exists>j j' new. get_row i (jobs w) = Some j \<and> lease_owner j = Some owner \<and> row_moved j j' \<and>
        jobs w' = update_where (\<lambda>r. job_id r = i) (\<lambda>_. j') (jobs w) \<and>
        job_attempts w' = job_attempts w @ new \<and> attempt j' = attempt j + int (length new) \<and>
        map (\<lambda>a. (ja_job_id a, ja_attempt a)) new = map (\<lambda>k. (i, attempt j + int k)) [1..<Suc (length new)] \<and>
        (ordered_events (job_events w) \<longrightarrow> ordered_events (job_events w')))"

definition leases_ok :: "World \<Rightarrow> bool" where
  "leases_ok w \<longleftrightarrow> distinct (map job_id (jobs w)) \<and> (\<forall>j \<in> set (jobs w). lease_ok j)"

text \<open>The columns the transactions' extra values never touch.\<close>

definition keeps_core :: "(Job \<Rightarrow> Job) \<Rightarrow> bool" where
  "keeps_core f \<longleftrightarrow> (\<forall>j. job_id (f j) = job_id j \<and> job_state (f j) = job_state j \<and> lease_owner (f j) = lease_owner j \<and>
     lease_expires_at (f j) = lease_expires_at j \<and> completed_at (f j) = completed_at j \<and> attempt (f j) = attempt j \<and>
     queued_at (f j) = queued_at j \<and> job_source (f j) = job_source j \<and> idempotency_key (f j) = idempotency_key j)"

definition quiet :: "(World \<Rightarrow> World) \<Rightarrow> bool" where
  "quiet f \<longleftrightarrow> (\<forall>w. jobs (f w) = jobs w \<and> job_attempts (f w) = job_attempts w \<and> job_events (f w) = job_events w)"

lemma selection_columns_core: "keeps_core (selection_columns pkg c)"
  by (simp add: keeps_core_def selection_columns_def)

lemma link_decision_events [simp]: "job_events (link_decision d i w) = job_events w"
  by (simp add: link_decision_def split: option.splits)

lemma quiet_writes: "quiet id" "quiet (link_decision d i)" "quiet (linked details i)"
  by (simp_all add: quiet_def linked_def split: json.splits)

lemma owned_in_flight: "leases_ok w \<Longrightarrow> get_row i (jobs w) = Some j \<Longrightarrow> lease_owner j = Some owner \<Longrightarrow> job_state j \<in> IN_FLIGHT_STATES"
  by (auto simp: leases_ok_def get_row_Some lease_ok_def)

lemma not_both: "s \<in> IN_FLIGHT_STATES \<Longrightarrow> s \<notin> TERMINAL_STATES"
  by (auto simp: state_set_defs)

lemma owned_refl:
  "leases_ok w \<Longrightarrow> get_row i (jobs w) = Some j \<Longrightarrow> lease_owner j = Some owner \<Longrightarrow> owned_change owner i w w"
  unfolding owned_change_def
  by (rule exI[of _ j], rule exI[of _ j], rule exI[of _ "[]"])
     (auto simp: row_moved_def owned_in_flight not_both update_where_def leases_ok_def get_row_Some intro!: map_idI[symmetric] dest: unique_row)

lemma get_row_replaced_other:
  "job_id j' = i \<Longrightarrow> k \<noteq> i \<Longrightarrow> get_row k (update_where (\<lambda>r. job_id r = i) (\<lambda>_. j') rows) = get_row k rows"
  by (induction rows) (auto simp: get_row_def update_where_def)

lemma get_row_replaced:
  "get_row i rows = Some j \<Longrightarrow> job_id j' = i \<Longrightarrow> get_row i (update_where (\<lambda>r. job_id r = i) (\<lambda>_. j') rows) = Some j'"
  by (induction rows) (auto simp: get_row_def update_where_def)

lemma owned_trans:
  assumes "owned_change owner i w w1" "owned_change owner i w1 w2"
  shows "owned_change owner i w w2"
proof -
  obtain j j1 new1 where a: "get_row i (jobs w) = Some j" "lease_owner j = Some owner" "row_moved j j1"
    "jobs w1 = update_where (\<lambda>r. job_id r = i) (\<lambda>_. j1) (jobs w)" "job_attempts w1 = job_attempts w @ new1"
    "attempt j1 = attempt j + int (length new1)"
    "map (\<lambda>a. (ja_job_id a, ja_attempt a)) new1 = map (\<lambda>k. (i, attempt j + int k)) [1..<Suc (length new1)]"
    "ordered_events (job_events w) \<longrightarrow> ordered_events (job_events w1)"
    using assms(1) unfolding owned_change_def by blast
  have id: "job_id j = i" using a(1) by (auto simp: get_row_def find_Some_iff)
  then have id1: "job_id j1 = i" using a(3) by (simp add: row_moved_def)
  have row1: "get_row i (jobs w1) = Some j1" using get_row_replaced [OF a(1) id1] by (simp add: a(4))
  obtain j2 new2 where b: "row_moved j1 j2" "jobs w2 = update_where (\<lambda>r. job_id r = i) (\<lambda>_. j2) (jobs w1)"
    "job_attempts w2 = job_attempts w1 @ new2" "attempt j2 = attempt j1 + int (length new2)" "lease_owner j1 = Some owner"
    "map (\<lambda>a. (ja_job_id a, ja_attempt a)) new2 = map (\<lambda>k. (i, attempt j1 + int k)) [1..<Suc (length new2)]"
    "ordered_events (job_events w1) \<longrightarrow> ordered_events (job_events w2)"
    using assms(2) row1 unfolding owned_change_def by auto
  have held: "job_state j1 \<in> IN_FLIGHT_STATES" "lease_owner j1 = lease_owner j" "lease_expires_at j1 = lease_expires_at j"
    "completed_at j1 = completed_at j" using a(3) b(5) not_both by (auto simp: row_moved_def split: if_splits)
  have "row_moved j j2"
    using a(3) b(1) held unfolding row_moved_def by auto
  moreover have "jobs w2 = update_where (\<lambda>r. job_id r = i) (\<lambda>_. j2) (jobs w)"
    using id1 by (simp add: a(4) b(2) update_where_def comp_def if_distrib cong: if_cong)
  moreover have "map (\<lambda>a. (ja_job_id a, ja_attempt a)) (new1 @ new2) =
      map (\<lambda>k. (i, attempt j + int k)) [1..<Suc (length (new1 @ new2))]"
  proof -
    have "map (\<lambda>k. (i, attempt j1 + int k)) [1..<Suc (length new2)] =
        map (\<lambda>k. (i, attempt j + int k)) [Suc (length new1)..<Suc (length new1) + length new2]"
      by (rule nth_equalityI) (auto simp: a(6) simp del: upt_Suc)
    then show ?thesis
      using a(7) b(6) upt_add_eq_append[of 1 "Suc (length new1)" "length new2"] by (simp del: upt_Suc)
  qed
  ultimately show ?thesis
    unfolding owned_change_def using a(1,2,5,6,8) b(3,4,7)
    by (intro exI[of _ j] exI[of _ j2] exI[of _ "new1 @ new2"]) simp
qed

lemma fenced_move_owned:
  assumes "fenced_move owner i current target now rsn values also_write message data w = Inr w'"
    and "leases_ok w" "keeps_core values" "quiet also_write"
  shows "owned_change owner i w w'"
proof -
  have d: "distinct (map job_id (jobs w))" using assms(2) by (simp add: leases_ok_def)
  obtain rows where t: "transition i current target now (Some owner) rsn values (jobs w) = Inr rows"
    and w': "w' = append_event i (event_type_for target) now (Some message) data (also_write (w\<lparr>jobs := rows\<rparr>))"
    using assms(1) by (auto simp: fenced_move_def bind_result_Inr_iff)
  obtain j where j: "j \<in> set (jobs w)" "job_id j = i" "job_state j = current" "lease_owner j = Some owner"
    and legal: "is_legal current target"
    and rows: "rows = update_where (\<lambda>r. job_id r = i) (\<lambda>r. values (assignments target now rsn r)) (jobs w)"
    using t by (auto simp: transition_Inr[OF d] cas_matches_def)
  let ?j' = "values (assignments target now rsn j)"
  have same: "rows = update_where (\<lambda>r. job_id r = i) (\<lambda>_. ?j') (jobs w)"
    unfolding rows using unique_row[OF d j(1)] j(2) by (auto intro!: update_where_cong)
  have flight: "current \<in> IN_FLIGHT_STATES"
    using owned_in_flight[OF assms(2) _ j(4)] j(1,2,3) by (simp add: get_row_Some[OF d])
  have "row_moved j ?j'"
    using assms(3) legal j not_both[OF flight] unfolding row_moved_def keeps_core_def
    by (auto simp: assignments_lease is_legal_def)
  moreover have "attempt ?j' = attempt j" using assms(3) by (simp add: keeps_core_def)
  moreover have "job_events (also_write (w\<lparr>jobs := rows\<rparr>)) = job_events w" using assms(4) by (simp add: quiet_def)
  then have "ordered_events (job_events w) \<longrightarrow> ordered_events (job_events w')"
    unfolding w' by (auto intro: ordered_append_event)
  ultimately show ?thesis
    unfolding owned_change_def using j same assms(4)
    by (intro exI[of _ j] exI[of _ ?j'] exI[of _ "[]"]) (simp add: w' get_row_Some[OF d] quiet_def)
qed

lemma commit_owned: "owned_change owner i w w' \<Longrightarrow> owned_change owner i w (commit w')"
  by (simp add: owned_change_def)

lemma write_attempt_owned:
  assumes "write_attempt i r now (Some owner) w = Inr (n, w')" "leases_ok w"
  shows "owned_change owner i w w'"
proof -
  have d: "distinct (map job_id (jobs w))" using assms(2) by (simp add: leases_ok_def)
  obtain j where j: "find (holds_attempt i (Some owner)) (jobs w) = Some j"
    and n: "rec_attempt r = attempt j + 1"
    and w': "w' = w\<lparr>jobs := update_where (holds_attempt i (Some owner)) (\<lambda>j. j\<lparr>attempt := attempt j + 1\<rparr>) (jobs w),
         job_attempts := job_attempts w @ [attempt_row i r], validations := validations w @ validation_rows i r now\<rparr>"
    using assms(1) by (auto simp: write_attempt_def Let_def split: option.splits if_splits)
  then have m: "j \<in> set (jobs w)" "job_id j = i" "lease_owner j = Some owner"
    by (auto simp: find_Some_iff holds_attempt_def)
  have flight: "job_state j \<in> IN_FLIGHT_STATES"
    using owned_in_flight[OF assms(2) _ m(3)] m(1,2) by (simp add: get_row_Some[OF d])
  have "update_where (holds_attempt i (Some owner)) (\<lambda>j. j\<lparr>attempt := attempt j + 1\<rparr>) (jobs w) =
      update_where (\<lambda>r. job_id r = i) (\<lambda>_. j\<lparr>attempt := attempt j + 1\<rparr>) (jobs w)"
  proof (rule update_where_cong)
    fix r assume r: "r \<in> set (jobs w)"
    have only: "r = j" if "job_id r = i" using unique_row[OF d m(1) r] that m(2) by simp
    show "holds_attempt i (Some owner) r = (job_id r = i)" using only m(3) by (auto simp: holds_attempt_def)
    show "job_id r = i \<Longrightarrow> r\<lparr>attempt := attempt r + 1\<rparr> = j\<lparr>attempt := attempt j + 1\<rparr>" using only by simp
  qed
  then show ?thesis
    unfolding owned_change_def using m n flight not_both
    by (intro exI[of _ j] exI[of _ "j\<lparr>attempt := attempt j + 1\<rparr>"] exI[of _ "[attempt_row i r]"])
      (simp add: w' get_row_Some[OF d] row_moved_def)
qed

lemma owned_leases_ok: "owned_change owner i w w' \<Longrightarrow> leases_ok w \<Longrightarrow> leases_ok w'"
proof -
  assume o: "owned_change owner i w w'" and ok: "leases_ok w"
  then obtain j j' where j: "get_row i (jobs w) = Some j" "row_moved j j'" "jobs w' = update_where (\<lambda>r. job_id r = i) (\<lambda>_. j') (jobs w)"
    unfolding owned_change_def by blast
  have m: "j \<in> set (jobs w)" "job_id j = i" using j(1) ok by (simp_all add: leases_ok_def get_row_Some)
  have "lease_ok j'" using m(1) ok j(2) by (auto simp: leases_ok_def lease_ok_def row_moved_def split: if_splits)
  moreover have "map job_id (jobs w') = map job_id (jobs w)"
    unfolding j(3) using m(2) j(2) by (intro update_where_ids) (simp add: row_moved_def)
  ultimately show "leases_ok w'" using ok by (auto simp: leases_ok_def j(3) set_update_where)
qed

subsection \<open>The transactions of one worker\<close>

inductive worker_step :: "string \<Rightarrow> string \<Rightarrow> World \<Rightarrow> World \<Rightarrow> bool" where
  defer_step: "defer_tx shown owner i v candidates details now w = Inr w' \<Longrightarrow> worker_step owner i w w'"
| requeue_step: "requeue_for_probe owner i st probe_skipped now w = Inr w' \<Longrightarrow> worker_step owner i w w'"
| fail_admission_step: "fail_admission owner i err now w = Inr w' \<Longrightarrow> worker_step owner i w w'"
| admit_step: "admit_tx pkg owner i decision_id cand now w = Inr w' \<Longrightarrow> worker_step owner i w w'"
| start_step: "start_executing owner job st number res now w = Inr w' \<Longrightarrow> worker_step owner (claimed_job_id job) w w'"
| failed_attempt_step: "record_failed_attempt owner i r now w = Inr w' \<Longrightarrow> worker_step owner i w w'"
| validate_step: "validate_attempt owner i r now w = Inr w' \<Longrightarrow> worker_step owner i w w'"
| retrying_step: "readmit_retrying owner i st rsn now w = Inr w' \<Longrightarrow> worker_step owner i w w'"
| readmit_step: "readmit_admit pkg owner i cand rsn now w = Inr w' \<Longrightarrow> worker_step owner i w w'"
| complete_step: "complete_tx pkg sha256 as_json owner i e now w = Inr w' \<Longrightarrow> worker_step owner i w w'"
| fail_step: "fail_tx owner job st records code elapsed_ms now w = Inr w' \<Longrightarrow> worker_step owner (claimed_job_id job) w w'"
| cancel_step: "cancel_from owner i records now w = Inr w' \<Longrightarrow> worker_step owner i w w'"
| crash_step: "fail_after_crash owner i code txt now w = w' \<Longrightarrow> w' \<noteq> w \<Longrightarrow> worker_step owner i w w'"

lemma map_sum_Inr: "map_sum id f x = Inr y \<longleftrightarrow> (\<exists>z. x = Inr z \<and> y = f z)"
  by (cases x) auto

lemma committed_move:
  assumes "map_sum id commit (fenced_move owner i current target now rsn values also_write message data w) = Inr w'"
    and "leases_ok w" "keeps_core values" "quiet also_write"
  shows "owned_change owner i w w'"
  using assms fenced_move_owned commit_owned by (auto simp: map_sum_Inr)

lemma written_move:
  assumes "bind_result (write_attempt i r now (Some owner) w) (\<lambda>(_, w1).
      map_sum id commit (fenced_move owner i current target now rsn id id message data w1)) = Inr w'" "leases_ok w"
  shows "owned_change owner i w w'"
proof -
  obtain n w1 where w1: "write_attempt i r now (Some owner) w = Inr (n, w1)"
    "map_sum id commit (fenced_move owner i current target now rsn id id message data w1) = Inr w'"
    using assms(1) by (auto simp: bind_result_Inr_iff)
  note o = write_attempt_owned [OF w1(1) assms(2)]
  from w1(2) owned_leases_ok [OF o assms(2)] have "owned_change owner i w1 w'"
    by (rule committed_move) (simp_all add: keeps_core_def quiet_writes)
  with o show ?thesis by (rule owned_trans)
qed

lemma cancel_from_owned:
  assumes "cancel_from owner i records now w = Inr w'" "leases_ok w"
  shows "owned_change owner i w w'"
proof -
  obtain st where st: "held_state owner i w = Some st" using assms(1) by (cases "held_state owner i w") (auto simp: cancel_from_def)
  then obtain j where j: "find (\<lambda>j. job_id j = i \<and> lease_owner j = Some owner) (jobs w) = Some j" by (auto simp: held_state_def)
  then have row: "get_row i (jobs w) = Some j" "lease_owner j = Some owner"
    using assms(2) by (auto simp: find_Some_iff leases_ok_def get_row_Some)
  obtain w1 w2 where
    w1: "(if records \<noteq> [] \<and> rec_outcome (last records) = ''cancelled''
          then map_sum id snd (write_attempt i (last records) now (Some owner) w) else Inr w) = Inr w1"
    and w2: "(if st \<noteq> CANCELLING then fenced_move owner i st CANCELLING now (Some ''cancel_requested'') id id
          (''cancel requested in '' @ state_value st) [(''previous_state'', JStr (state_value st))] w1 else Inr w1) = Inr w2"
    and w': "map_sum id commit (fenced_move owner i CANCELLING CANCELLED now (Some ''GENERATION_CANCELLED'')
          (\<lambda>j. j\<lparr>error_code := Some ''GENERATION_CANCELLED'', cancel_requested := True\<rparr>) id ''cancelled''
          [(''reason'', JStr ''GENERATION_CANCELLED''), (''attempts'', JList (map (JObj \<circ> attempt_record_json) records))] w2) = Inr w'"
    using assms(1) st by (auto simp: cancel_from_def bind_result_Inr_iff)
  have o1: "owned_change owner i w w1"
    using w1 owned_refl [OF assms(2) row] write_attempt_owned [OF _ assms(2)] by (auto simp: map_sum_Inr split: if_splits)
  note ok1 = owned_leases_ok [OF o1 assms(2)]
  have o2: "owned_change owner i w w2"
  proof (cases "st = CANCELLING")
    case True
    then show ?thesis using w2 o1 by simp
  next
    case False
    then have "owned_change owner i w1 w2"
      using w2 ok1 by (intro fenced_move_owned) (auto simp: keeps_core_def quiet_writes)
    with o1 show ?thesis by (rule owned_trans)
  qed
  have "owned_change owner i w2 w'"
    by (rule committed_move [OF w' owned_leases_ok [OF o2 assms(2)]]) (simp_all add: keeps_core_def quiet_writes)
  with o2 show ?thesis by (rule owned_trans)
qed

lemma crash_owned:
  assumes "fail_after_crash owner i code txt now w \<noteq> w" "leases_ok w"
  shows "owned_change owner i w (fail_after_crash owner i code txt now w)"
proof -
  obtain st where st: "held_state owner i w = Some st"
    using assms(1) by (cases "held_state owner i w") (auto simp: fail_after_crash_def)
  let ?m = "fenced_move owner i st FAILED now (Some code) (\<lambda>j. j\<lparr>error_code := Some code, error_text := Some (take 2000 txt)\<rparr>) id
               (''failed in '' @ state_value st @ '': '' @ code)
               [(''reason'', JStr code), (''previous_state'', JStr (state_value st)), (''error'', JStr (take 500 txt))] w"
  obtain w' where w': "?m = Inr w'" using assms(1) st by (cases ?m) (auto simp: fail_after_crash_def)
  from fenced_move_owned [OF w' assms(2)] show ?thesis
    using w' by (simp add: fail_after_crash_def st commit_owned keeps_core_def quiet_writes)
qed

lemma worker_step_owned:
  "worker_step owner i w w' \<Longrightarrow> leases_ok w \<Longrightarrow> owned_change owner i w w'"
proof (induction rule: worker_step.induct)
  case cancel_step
  then show ?case by (rule cancel_from_owned)
next
  case crash_step
  then show ?case using crash_owned by blast
next
  case failed_attempt_step
  then show ?case unfolding record_failed_attempt_def by (rule written_move)
next
  case validate_step
  then show ?case unfolding validate_attempt_def by (rule written_move)
qed (auto simp: defer_tx_def requeue_for_probe_def fail_admission_def admit_tx_def start_executing_def readmit_retrying_def
      readmit_admit_def complete_tx_def fail_tx_def Let_def keeps_core_def selection_columns_def quiet_writes
      elim!: committed_move)

text \<open>
  C22. Every transaction a worker commits is on a job whose lease that worker holds when it
  commits, so a worker whose lease was reclaimed, expired or cancelled changes nothing: it moves
  that one job along edges of the state machine, keeps the lease exactly while the job is in a
  worker's hands and clears it otherwise, adds to the attempt table exactly the attempts it adds to the
  job's counter, numbered on from it, and leaves every other job and the order of the events intact.
\<close>

theorem worker_transactions_fenced:
  assumes "worker_step owner i w w'" "distinct (map job_id (jobs w))" "\<forall>j \<in> set (jobs w). lease_ok j"
  shows "\<exists>j j' new. get_row i (jobs w) = Some j \<and> lease_owner j = Some owner \<and> get_row i (jobs w') = Some j' \<and>
     (job_state j, job_state j') \<in> TRANSITIONS\<^sup>* \<and>
     lease_owner j' = (if job_state j' \<in> IN_FLIGHT_STATES then Some owner else None) \<and>
     job_attempts w' = job_attempts w @ new \<and>
     map ja_attempt new = map (\<lambda>k. attempt j + int k) [1..<Suc (nat (attempt j' - attempt j))] \<and>
     (\<forall>a \<in> set new. ja_job_id a = i) \<and>
     (\<forall>k. k \<noteq> i \<longrightarrow> get_row k (jobs w') = get_row k (jobs w)) \<and>
     (ordered_events (job_events w) \<longrightarrow> ordered_events (job_events w'))"
proof -
  have "owned_change owner i w w'" using worker_step_owned [OF assms(1)] assms(2,3) by (simp add: leases_ok_def)
  then obtain j j' new where j: "get_row i (jobs w) = Some j" "lease_owner j = Some owner" "row_moved j j'"
    "jobs w' = update_where (\<lambda>r. job_id r = i) (\<lambda>_. j') (jobs w)" "job_attempts w' = job_attempts w @ new"
    "attempt j' = attempt j + int (length new)"
    and pairs: "map (\<lambda>a. (ja_job_id a, ja_attempt a)) new = map (\<lambda>k. (i, attempt j + int k)) [1..<Suc (length new)]"
    and ev: "ordered_events (job_events w) \<longrightarrow> ordered_events (job_events w')"
    unfolding owned_change_def by blast
  have id: "job_id j' = i" using j(1,3) by (auto simp: get_row_def find_Some_iff row_moved_def)
  have "map ja_attempt new = map (\<lambda>k. attempt j + int k) [1..<Suc (length new)]"
    using arg_cong [OF pairs, of "map snd"] by (simp add: comp_def del: upt_Suc)
  moreover have "map ja_job_id new = map (\<lambda>_. i) [1..<Suc (length new)]"
    using arg_cong [OF pairs, of "map fst"] by (simp add: comp_def del: upt_Suc)
  then have "set (map ja_job_id new) \<subseteq> {i}" by auto
  ultimately show ?thesis
    using j id ev get_row_replaced [OF j(1) id] get_row_replaced_other [OF id] by (intro exI [of _ j] exI [of _ j'] exI [of _ new]) (auto simp: row_moved_def)
qed

theorem worker_transactions_fenced_witness:
  "\<exists>w'. worker_step ''p/worker-0'' ''a'' (world_of [leased_job ''a'' LEASED ''p/worker-0'', plain_job ''b'' QUEUED]) w' \<and>
     get_row ''b'' (jobs w') = Some (plain_job ''b'' QUEUED)"
proof -
  let ?w = "world_of [leased_job ''a'' LEASED ''p/worker-0'', plain_job ''b'' QUEUED]"
  let ?e = "\<lparr>err_code = ''NO_ELIGIBLE_MODEL'', err_message = ''none'', err_details = []\<rparr>"
  obtain w' where "fail_admission ''p/worker-0'' ''a'' ?e 9 ?w = Inr w'"
    by (simp add: fail_admission_def fenced_move_def transition_def check_transition_def is_legal_def TRANSITIONS_def map_error_def
        bind_result_def cas_matches_def leased_job_def)
  then have step: "worker_step ''p/worker-0'' ''a'' ?w w'" by (rule fail_admission_step)
  have ok: "distinct (map job_id (jobs ?w))" "\<forall>j \<in> set (jobs ?w). lease_ok j" by (simp_all add: lease_ok_def)
  have "get_row ''b'' (jobs w') = get_row ''b'' (jobs ?w)"
    using worker_transactions_fenced [OF step ok] by force
  then show ?thesis using step by (auto simp: get_row_def)
qed

end
