(* ===== verification/Worker.thy ===== *)
theory Worker
  imports Worker_Store
begin

section \<open>One job on one worker\<close>

text \<open>
  Models \<open>Worker.process\<close> of \<^verbatim>\<open>src/src/loadcoach/services/worker.py\<close> and all it calls: routing's outcome, admission, the
  failure table applied across the ranked candidates, the cancellation checks and the endings. A run is
  a sequence of accesses to state shared with the other threads and processes (the store, the
  in-flight registry, the circuit breakers); before its n-th access the rest of the system has done
  whatever \<open>we_others n\<close> says, and the clock reads \<open>we_clock n\<close>. Routing, the providers, the residency manager
  and the clock are parameters. The two nested loops of \<open>_attempts\<close> are one loop over a position, defined
  as a partial function, so that never returning would be the value \<open>None\<close>. The refresh of the statistics
  mirror after an attempt, which touches neither the store's job tables nor the control flow, is left out.
\<close>

record shared =
  sh_world :: World
  sh_flight :: registry
  sh_breakers :: breakers
  sh_persisted :: "(string, BreakerState \<times> breaker_reason) dict"
  sh_wakeup :: bool
  sh_resources_changed :: bool

text \<open>What ends a run early: an exception of the store, one of another \<open>SuiteError\<close>, an error of
  the validator or of the code itself, or \<open>_Cancelled\<close>.\<close>

datatype worker_stop = StoreError queue_error | Refusal SuiteError | ValidatorError validation_error
  | AdmissionError admission_error | BreakerError breaker_error | AssertionError | RowMissing string | WasCancelled

datatype routed = Routed RoutingResult | NoEligible SuiteError "json_obj list" | RoutingRaised SuiteError

record 'e worker_env =
  we_owner :: string
  we_worker_id :: string
  we_packages :: packages
  we_sha256 :: "string \<Rightarrow> string"
  we_as_json :: "ExecutionOutcome \<Rightarrow> json_obj"
  we_shown :: "(string, int option) dict \<Rightarrow> string"
  we_str_other :: "json \<Rightarrow> string"
  we_others :: "nat \<Rightarrow> shared \<Rightarrow> shared"
  we_clock :: "nat \<Rightarrow> instant"
  we_sync :: "'e sync_env"
  we_breaker_config :: breaker_config
  we_samples :: "instant \<Rightarrow> World \<Rightarrow> (string, AttemptSample list) dict"
  we_names :: "(string, AttemptSample list) dict \<Rightarrow> breakers \<Rightarrow> string list"
  we_verdicts_written :: "nat \<Rightarrow> bool"
  we_route :: "shared \<Rightarrow> routed"
  we_schema :: "RoutingResult \<Rightarrow> SuiteError + schema option"
  we_residency :: "int \<Rightarrow> json"
  we_elapsed_ms :: "nat \<Rightarrow> int"
  we_streams :: "RankedCandidate \<Rightarrow> bool"
  we_timeout :: "float64 option"
  we_error_text :: "worker_stop \<Rightarrow> string"

record run =
  rn_shared :: shared
  rn_accesses :: nat
  rn_calls :: nat

type_synonym 'a act = "run \<Rightarrow> (worker_stop + 'a) \<times> run"

definition and_then :: "'a act \<Rightarrow> ('a \<Rightarrow> 'b act) \<Rightarrow> 'b act" where
  "and_then m k r = (case m r of (Inl e, r') \<Rightarrow> (Inl e, r') | (Inr a, r') \<Rightarrow> k a r')"

definition give :: "'a \<Rightarrow> 'a act" where
  "give a r = (Inr a, r)"

definition stop_with :: "worker_stop \<Rightarrow> 'a act" where
  "stop_with e r = (Inl e, r)"

definition access :: "'e worker_env \<Rightarrow> (instant \<Rightarrow> shared \<Rightarrow> (worker_stop + 'a) \<times> shared) \<Rightarrow> 'a act" where
  "access env f r =
     (case f (we_clock env (rn_accesses r)) (we_others env (rn_accesses r) (rn_shared r)) of
        (res, s) \<Rightarrow> (res, r\<lparr>rn_shared := s, rn_accesses := Suc (rn_accesses r)\<rparr>))"

definition transact :: "'e worker_env \<Rightarrow> (instant \<Rightarrow> World \<Rightarrow> queue_error + World) \<Rightarrow> unit act" where
  "transact env tx = access env (\<lambda>now s.
     (case tx now (sh_world s) of Inl q \<Rightarrow> (Inl (StoreError q), s) | Inr w \<Rightarrow> (Inr (), s\<lparr>sh_world := w\<rparr>)))"

text \<open>An access that reads, or that changes only what lives in memory.\<close>

definition in_memory :: "'e worker_env \<Rightarrow> (instant \<Rightarrow> shared \<Rightarrow> 'a \<times> registry \<times> breakers \<times> bool \<times> bool) \<Rightarrow> 'a act" where
  "in_memory env f = access env (\<lambda>now s.
     (case f now s of (a, held, b, wk, rc) \<Rightarrow>
        (Inr a, s\<lparr>sh_flight := held, sh_breakers := b, sh_wakeup := wk, sh_resources_changed := rc\<rparr>)))"

definition change_flight :: "'e worker_env \<Rightarrow> (instant \<Rightarrow> registry \<Rightarrow> registry) \<Rightarrow> unit act" where
  "change_flight env f = in_memory env (\<lambda>now s. ((), f now (sh_flight s), sh_breakers s, sh_wakeup s, sh_resources_changed s))"

definition change_breakers :: "'e worker_env \<Rightarrow> (instant \<Rightarrow> breakers \<Rightarrow> 'a \<times> breakers) \<Rightarrow> 'a act" where
  "change_breakers env f = in_memory env (\<lambda>now s.
     (case f now (sh_breakers s) of (a, b) \<Rightarrow> (a, sh_flight s, b, sh_wakeup s, sh_resources_changed s)))"

subsection \<open>Pieces of a run\<close>

record execution =
  ex_job :: ClaimedJob
  ex_routing :: RoutingResult
  ex_schema :: "schema option"

definition ex_id :: "execution \<Rightarrow> string" where
  "ex_id x = claimed_job_id (ex_job x)"

definition ex_candidates :: "execution \<Rightarrow> RankedCandidate list" where
  "ex_candidates x = (case primary (rt_ranking (ex_routing x)) of None \<Rightarrow> [] | Some c \<Rightarrow> [c]) @ fallbacks (rt_ranking (ex_routing x))"

definition served_contexts :: "execution \<Rightarrow> int list" where
  "served_contexts x = map (tokens \<circ> served_context \<circ> cand_subject) (ex_candidates x)"

definition per_candidate :: "execution \<Rightarrow> int" where
  "per_candidate x = (case as_int (get_or (tp_execution (rt_profile (ex_routing x))) ''max_attempts'' (JInt 1)) of None \<Rightarrow> 0 | Some n \<Rightarrow> n)"

definition ex_request :: "execution \<Rightarrow> GenerateRequest" where
  "ex_request x = to_generate_request (claimed_submission (ex_job x))"

definition set_state :: "'e worker_env \<Rightarrow> string \<Rightarrow> JobState \<Rightarrow> unit act" where
  "set_state env i st = change_flight env (\<lambda>_. update_entry i (we_owner env) (\<lambda>e. e\<lparr>if_state := st\<rparr>))"

definition set_candidate :: "'e worker_env \<Rightarrow> string \<Rightarrow> RankedCandidate \<Rightarrow> unit act" where
  "set_candidate env i cand = change_flight env (\<lambda>_. update_entry i (we_owner env) (\<lambda>e.
     e\<lparr>if_state := ADMITTED, if_canonical_id := Some (canonical_id (facts (cand_subject cand))),
       if_model_id := Some (model_id (facts (cand_subject cand))), if_target_gpu_index := target_gpu_index cand,
       if_estimated_bytes := estimated_vram_bytes cand\<rparr>))"

definition entry_cancelled :: "'e worker_env \<Rightarrow> string \<Rightarrow> shared \<Rightarrow> bool" where
  "entry_cancelled env i s = (case get_entry i (we_owner env) (sh_flight s) of None \<Rightarrow> False | Some e \<Rightarrow> if_cancelled e)"

definition entry_stopped :: "'e worker_env \<Rightarrow> string \<Rightarrow> shared \<Rightarrow> bool" where
  "entry_stopped env i s = (case get_entry i (we_owner env) (sh_flight s) of None \<Rightarrow> False | Some e \<Rightarrow> if_cancelled e \<or> if_lost e)"

text \<open>\<open>_cancel_requested\<close>: \<open>scalar_one\<close> raises when the row is gone.\<close>

definition row_cancel_requested :: "string \<Rightarrow> shared \<Rightarrow> worker_stop + bool" where
  "row_cancel_requested i s = (case get_row i (jobs (sh_world s)) of None \<Rightarrow> Inl (RowMissing i) | Some j \<Rightarrow> Inr (cancel_requested j))"

definition read_cancel :: "'e worker_env \<Rightarrow> string \<Rightarrow> bool act" where
  "read_cancel env i = access env (\<lambda>_ s. (row_cancel_requested i s, s))"

definition must_stop :: "'e worker_env \<Rightarrow> string \<Rightarrow> bool act" where
  "must_stop env i = access env (\<lambda>_ s. (if entry_stopped env i s then Inr True else row_cancel_requested i s, s))"

definition hand_back :: "'e worker_env \<Rightarrow> bool \<Rightarrow> string \<Rightarrow> unit act" where
  "hand_back env holds cid =
     (if holds then change_breakers env (\<lambda>_ b. ((), snd (release_probe b cid))) else give ())"

definition publish_chunk :: "string \<Rightarrow> StreamChunk \<Rightarrow> World \<Rightarrow> World" where
  "publish_chunk i chunk w =
     (case chunk of
        TokenChunk d n \<Rightarrow> publish_live i ''token'' [(''delta'', JStr d), (''index'', JInt (int n))] w
      | ThinkingChunk d n \<Rightarrow> publish_live i THINKING_EVENT [(''delta'', JStr d), (''index'', JInt (int n))] w
      | ToolCallChunk f \<Rightarrow> w)"

text \<open>The provider is called: counted, and its chunks published when the caller asked for a stream.\<close>

definition call_provider :: "'e worker_env \<Rightarrow> execution \<Rightarrow> RankedCandidate \<Rightarrow> Message list \<Rightarrow> int \<Rightarrow> RenderedPrompt option \<Rightarrow> 'e AttemptOutcome act" where
  "call_provider env x cand turns number correction =
     access env (\<lambda>_ s.
       (case run_attempt (env_context (we_sync env) number) (env_elapsed (we_sync env) number) (env_started (we_sync env) number)
            (env_completed (we_sync env) number) (ex_request x) cand turns number (ex_schema x) (tp_execution (rt_profile (ex_routing x)))
            (tp_validation (rt_profile (ex_routing x))) (we_timeout env) correction of
          Inl (RequestRefused m) \<Rightarrow> (Inl (Refusal (env_request_refused (we_sync env) m)), s)
        | Inl (ValidatorRaised e) \<Rightarrow> (Inl (ValidatorError e), s)
        | Inr (o', chunks) \<Rightarrow>
            (Inr o', if sub_stream (claimed_submission (ex_job x))
                     then s\<lparr>sh_world := fold (publish_chunk (ex_id x)) chunks (sh_world s)\<rparr> else s))) \<circ>
     (\<lambda>r. r\<lparr>rn_calls := Suc (rn_calls r)\<rparr>)"

definition readmit :: "'e worker_env \<Rightarrow> execution \<Rightarrow> JobState \<Rightarrow> RankedCandidate \<Rightarrow> string \<Rightarrow> JobState act" where
  "readmit env x st cand rsn =
     and_then (if st \<noteq> RETRYING
       then and_then (transact env (readmit_retrying (we_owner env) (ex_id x) st rsn)) (\<lambda>_. set_state env (ex_id x) RETRYING)
       else give ()) (\<lambda>_.
     and_then (access env (\<lambda>_ s. (Inr (entry_stopped env (ex_id x) s), s))) (\<lambda>stopped.
     if stopped
     then and_then (transact env (cancel_from (we_owner env) (ex_id x) [])) (\<lambda>_. stop_with WasCancelled)
     else and_then (transact env (readmit_admit (we_packages env) (we_owner env) (ex_id x) cand rsn)) (\<lambda>_.
          and_then (set_candidate env (ex_id x) cand) (\<lambda>_. give ADMITTED))))"

definition complete :: "'e worker_env \<Rightarrow> execution \<Rightarrow> AttemptRecord list \<Rightarrow> 'e AttemptOutcome \<Rightarrow> RankedCandidate \<Rightarrow> unit act" where
  "complete env x records o' cand =
     (case out_result o' of
        None \<Rightarrow> stop_with AssertionError
      | Some res \<Rightarrow>
          and_then (access env (\<lambda>_ s. (Inr (case Option.bind (get_row (ex_id x) (jobs (sh_world s))) queue_wait_ms of None \<Rightarrow> 0 | Some n \<Rightarrow> n), s))) (\<lambda>wait r.
            transact env (\<lambda>now. complete_tx (we_packages env) (we_sha256 env) (we_as_json env) (we_owner env) (ex_id x)
              ((completed_outcome (ex_id x) (ex_routing x) cand (collected_of o') res (the (out_validation o')) records
                  (if we_streams env cand then [] else [''cancellation_deferred_to_completion'']) (we_elapsed_ms env (rn_accesses r)))
                \<lparr>eo_queue_wait_ms := wait\<rparr>) now) r))"

definition fail :: "'e worker_env \<Rightarrow> execution \<Rightarrow> JobState \<Rightarrow> AttemptRecord list \<Rightarrow> string \<Rightarrow> unit act" where
  "fail env x st records code r =
     transact env (fail_tx (we_owner env) (ex_job x) st records code (we_elapsed_ms env (rn_accesses r))) r"

subsection \<open>The loop over candidates and attempts\<close>

text \<open>
  Where \<open>_attempts\<close> is: at the head of the outer loop (\<open>ps_inner\<close> false) or of the inner one, with
  its local variables.
\<close>

record position =
  ps_index :: nat
  ps_inner :: bool
  ps_number :: int
  ps_here :: int
  ps_state :: JobState
  ps_records :: "AttemptRecord list"
  ps_first :: bool
  ps_skipped :: "string list"
  ps_holds :: bool
  ps_turns :: "Message list"
  ps_correction :: "RenderedPrompt option"

datatype pass = Finished | Continue position

definition finish :: "unit act \<Rightarrow> pass act" where
  "finish m = and_then m (\<lambda>_. give Finished)"

definition subject_id :: "'e worker_env \<Rightarrow> RankedCandidate \<Rightarrow> string" where
  "subject_id env cand = subject_canonical_id (we_packages env) (cand_subject cand)"

text \<open>\<open>index = next_candidate_index(...)\<close>, which raises only for an index outside the list.\<close>

definition next_index :: "execution \<Rightarrow> nat \<Rightarrow> bool \<Rightarrow> nat option act" where
  "next_index x i larger =
     (case next_candidate_index (served_contexts x) i larger of Inl IndexError \<Rightarrow> stop_with AssertionError | Inr k \<Rightarrow> give k)"

definition skip_candidate :: "'e worker_env \<Rightarrow> execution \<Rightarrow> position \<Rightarrow> string \<Rightarrow> pass act" where
  "skip_candidate env x ps cid =
     (let skipped = ps_skipped ps @ [cid] in
      and_then (next_index x (ps_index ps) False) (\<lambda>k.
        (case k of
           None \<Rightarrow> finish (and_then (transact env (requeue_for_probe (we_owner env) (ex_id x) (ps_state ps) skipped)) (\<lambda>_.
                     in_memory env (\<lambda>_ s. ((), sh_flight s, sh_breakers s, True, sh_resources_changed s))))
         | Some n \<Rightarrow> give (Continue (ps\<lparr>ps_index := n, ps_skipped := skipped\<rparr>)))))"

definition enter_candidate :: "'e worker_env \<Rightarrow> execution \<Rightarrow> position \<Rightarrow> RankedCandidate \<Rightarrow> bool \<Rightarrow> pass act" where
  "enter_candidate env x ps cand holds =
     and_then (if ps_first ps then give (ps_state ps) else readmit env x (ps_state ps) cand ''fallback'') (\<lambda>st.
       give (Continue (ps\<lparr>ps_inner := True, ps_state := st, ps_first := False, ps_holds := holds, ps_here := 0,
         ps_turns := gen_transcript (ex_request x), ps_correction := None\<rparr>)))"

definition candidate_pass :: "'e worker_env \<Rightarrow> execution \<Rightarrow> position \<Rightarrow> pass act" where
  "candidate_pass env x ps =
     (let cand = ex_candidates x ! ps_index ps; cid = subject_id env cand in
      and_then (change_breakers env (\<lambda>now b. allow_probe b cid now)) (\<lambda>holds.
      and_then (if holds then give False else change_breakers env (\<lambda>_ b. (probe_busy b cid, b))) (\<lambda>busy.
        if busy then skip_candidate env x ps cid else enter_candidate env x ps cand holds)))"

text \<open>What follows an attempt that did not end the job: the failure table, then a retry on the same
  candidate, the next candidate, or the end.\<close>

definition apply_decision :: "'e worker_env \<Rightarrow> execution \<Rightarrow> position \<Rightarrow> FailureKind \<Rightarrow> 'e AttemptOutcome \<Rightarrow> pass act" where
  "apply_decision env x ps kind o' =
     (let d = next_action kind (ps_here ps) (per_candidate x) in
      (case action d of
         STOP \<Rightarrow> finish (transact env (cancel_from (we_owner env) (ex_id x) (ps_records ps)))
       | RETRY_SAME \<Rightarrow>
           if ps_number ps \<ge> claimed_max_attempts (ex_job x) then finish (fail env x (ps_state ps) (ps_records ps) ''ATTEMPTS_EXHAUSTED'')
           else
             and_then (if kind = VALIDATION then
                 (case corrective_turns (env_render (we_sync env)) (gen_transcript (ex_request x)) (out_text o') (the (out_validation o')) (ex_schema x) of
                    (turns, c) \<Rightarrow> (case env_turns_refused (we_sync env) turns of Some e \<Rightarrow> stop_with (Refusal e) | None \<Rightarrow> give (turns, Some c)))
               else give (ps_turns ps, ps_correction ps)) (\<lambda>(turns, c).
             and_then (readmit env x (ps_state ps) (ex_candidates x ! ps_index ps) (decision_reason d)) (\<lambda>st.
               give (Continue (ps\<lparr>ps_state := st, ps_turns := turns, ps_correction := c\<rparr>))))
       | FALLBACK \<Rightarrow>
           and_then (next_index x (ps_index ps) (larger_context_only d)) (\<lambda>k.
             (case k of None \<Rightarrow> finish (fail env x (ps_state ps) (ps_records ps) ''ALL_CANDIDATES_FAILED'')
              | Some n \<Rightarrow> give (Continue (ps\<lparr>ps_index := n, ps_inner := False\<rparr>))))))"

text \<open>What becomes of an attempt the provider has answered or failed.\<close>

definition settle_attempt :: "'e worker_env \<Rightarrow> execution \<Rightarrow> position \<Rightarrow> 'e AttemptOutcome \<Rightarrow> pass act" where
  "settle_attempt env x ps o' =
     (case out_failure o' of
        Some e \<Rightarrow>
          and_then (transact env (record_failed_attempt (we_owner env) (ex_id x) (out_record o'))) (\<lambda>_.
          and_then (set_state env (ex_id x) RETRYING) (\<lambda>_.
            apply_decision env x (ps\<lparr>ps_state := RETRYING\<rparr>) (classify_failure (is_instance (ctx_api (env_context (we_sync env) (ps_number ps)))) e) o'))
      | None \<Rightarrow>
          and_then (transact env (validate_attempt (we_owner env) (ex_id x) (out_record o'))) (\<lambda>_.
          and_then (set_state env (ex_id x) VALIDATING) (\<lambda>_.
            if outcome_passed o' then finish (complete env x (ps_records ps) o' (ex_candidates x ! ps_index ps))
            else apply_decision env x (ps\<lparr>ps_state := VALIDATING\<rparr>) VALIDATION o')))"

definition cancel_attempt :: "'e worker_env \<Rightarrow> execution \<Rightarrow> position \<Rightarrow> RankedCandidate \<Rightarrow> AttemptRecord list \<Rightarrow> pass act" where
  "cancel_attempt env x ps cand records =
     finish (and_then (hand_back env (ps_holds ps) (subject_id env cand)) (\<lambda>_.
       transact env (cancel_from (we_owner env) (ex_id x) records)))"

definition make_attempt :: "'e worker_env \<Rightarrow> execution \<Rightarrow> position \<Rightarrow> RankedCandidate \<Rightarrow> pass act" where
  "make_attempt env x ps cand =
     and_then (transact env (start_executing (we_owner env) (ex_job x) (ps_state ps) (ps_number ps) (we_residency env (ps_number ps)))) (\<lambda>_.
     and_then (set_state env (ex_id x) EXECUTING) (\<lambda>_.
     and_then (call_provider env x cand (ps_turns ps) (ps_number ps) (ps_correction ps)) (\<lambda>o'.
     and_then (access env (\<lambda>_ s. (Inr (out_cancelled o' \<or> entry_cancelled env (ex_id x) s), s))) (\<lambda>cancelled.
       if cancelled then cancel_attempt env x ps cand (ps_records ps @ [out_record o'])
       else settle_attempt env x (ps\<lparr>ps_state := EXECUTING, ps_records := ps_records ps @ [out_record o']\<rparr>) o'))))"

definition attempt_pass :: "'e worker_env \<Rightarrow> execution \<Rightarrow> position \<Rightarrow> pass act" where
  "attempt_pass env x ps0 =
     (if ps_number ps0 \<ge> claimed_max_attempts (ex_job x) then finish (fail env x (ps_state ps0) (ps_records ps0) ''ATTEMPTS_EXHAUSTED'')
      else
        (let ps = ps0\<lparr>ps_number := ps_number ps0 + 1, ps_here := ps_here ps0 + 1\<rparr>; cand = ex_candidates x ! ps_index ps in
         and_then (must_stop env (ex_id x)) (\<lambda>stopped.
           if stopped then cancel_attempt env x ps cand (ps_records ps) else make_attempt env x ps cand)))"

definition one_pass :: "'e worker_env \<Rightarrow> execution \<Rightarrow> position \<Rightarrow> pass act" where
  "one_pass env x ps = (if ps_inner ps then attempt_pass env x ps else candidate_pass env x ps)"

partial_function (option) attempts :: "'e worker_env \<Rightarrow> execution \<Rightarrow> position \<Rightarrow> run \<Rightarrow> ((worker_stop + unit) \<times> run) option" where
  "attempts env x ps r =
     (case one_pass env x ps r of
        (Inl e, r') \<Rightarrow> Some (Inl e, r')
      | (Inr Finished, r') \<Rightarrow> Some (Inr (), r')
      | (Inr (Continue ps'), r') \<Rightarrow> attempts env x ps' r')"

definition start_position :: "execution \<Rightarrow> position" where
  "start_position x = \<lparr>ps_index = 0, ps_inner = False, ps_number = claimed_attempt (ex_job x), ps_here = 0, ps_state = ADMITTED,
     ps_records = [], ps_first = True, ps_skipped = [], ps_holds = False, ps_turns = [], ps_correction = None\<rparr>"

subsection \<open>The whole job\<close>

text \<open>
  \<open>refresh_breakers\<close>: the verdicts are re-evaluated from the samples since the window's start; a verdict
  that differs from the persisted one wakes the waiting jobs when it stopped excluding, and is remembered
  when writing it succeeded.
\<close>

definition changed_verdicts :: "(string, BreakerState \<times> breaker_reason) dict \<Rightarrow> breakers \<Rightarrow> breakers" where
  "changed_verdicts persisted b = filter (\<lambda>(cid, v). map_of persisted cid \<noteq> Some (breaker_state v, breaker_reason v)) b"

definition refresh_breakers :: "breaker_config \<Rightarrow> (instant \<Rightarrow> World \<Rightarrow> (string, AttemptSample list) dict) \<Rightarrow>
    ((string, AttemptSample list) dict \<Rightarrow> breakers \<Rightarrow> string list) \<Rightarrow> bool \<Rightarrow> instant \<Rightarrow> shared \<Rightarrow> (worker_stop + unit) \<times> shared" where
  "refresh_breakers cfg samples names written now s =
     (let since = now - timedelta_seconds (window_seconds cfg); by_model = samples since (sh_world s) in
      (case update_breakers cfg by_model now (names by_model (sh_breakers s)) (sh_breakers s) of
         (b, Some e) \<Rightarrow> (Inl (BreakerError e), s\<lparr>sh_breakers := b\<rparr>)
       | (b, None) \<Rightarrow>
           (let changed = changed_verdicts (sh_persisted s) b in
            (Inr (), s\<lparr>sh_breakers := b,
               sh_resources_changed := (sh_resources_changed s \<or> list_ex (\<lambda>(_, v). \<not> excludes v) changed),
               sh_persisted := (if written then fold (\<lambda>(cid, v). AList.update cid (breaker_state v, breaker_reason v)) changed (sh_persisted s)
                                else sh_persisted s)\<rparr>))))"

definition route_job :: "'e worker_env \<Rightarrow> ClaimedJob \<Rightarrow> RoutingResult option act" where
  "route_job env job =
     and_then (\<lambda>r. access env (refresh_breakers (we_breaker_config env) (we_samples env) (we_names env) (we_verdicts_written env (rn_accesses r))) r) (\<lambda>_.
     and_then (access env (\<lambda>_ s. (Inr (we_route env s), s))) (\<lambda>result.
       (case result of
          Routed routing \<Rightarrow> give (Some routing)
        | RoutingRaised e \<Rightarrow> stop_with (Refusal e)
        | NoEligible e candidates \<Rightarrow>
            (case classify_rejections (we_str_other env) candidates of
               Inl a \<Rightarrow> stop_with (AdmissionError a)
             | Inr v \<Rightarrow>
                 and_then (transact env (if defer_job v then defer_tx (we_shown env) (we_owner env) (claimed_job_id job) v candidates (err_details e)
                   else fail_admission (we_owner env) (claimed_job_id job) e)) (\<lambda>_. give None)))))"

definition admit :: "'e worker_env \<Rightarrow> execution \<Rightarrow> unit act" where
  "admit env x =
     (case primary (rt_ranking (ex_routing x)) of
        None \<Rightarrow> stop_with AssertionError
      | Some c \<Rightarrow>
          and_then (transact env (admit_tx (we_packages env) (we_owner env) (ex_id x) (rt_decision_id (ex_routing x)) c)) (\<lambda>_.
            set_candidate env (ex_id x) c))"

text \<open>Lifts an action, which always returns, to the option type of the loop.\<close>

definition then_loop :: "'a act \<Rightarrow> ('a \<Rightarrow> run \<Rightarrow> ((worker_stop + unit) \<times> run) option) \<Rightarrow> run \<Rightarrow> ((worker_stop + unit) \<times> run) option" where
  "then_loop m k r = (case m r of (Inl e, r') \<Rightarrow> Some (Inl e, r') | (Inr a, r') \<Rightarrow> k a r')"

definition run_job :: "'e worker_env \<Rightarrow> ClaimedJob \<Rightarrow> run \<Rightarrow> ((worker_stop + unit) \<times> run) option" where
  "run_job env job =
     (let i = claimed_job_id job; over = (\<lambda>m r. Some (m r)) in
      then_loop (if claimed_cancel_requested job then give True else read_cancel env i) (\<lambda>early.
        if early then over (transact env (cancel_from (we_owner env) i []))
        else then_loop (route_job env job) (\<lambda>found.
          (case found of
             None \<Rightarrow> over (give ())
           | Some routing \<Rightarrow>
               (case we_schema env routing of
                  Inl e \<Rightarrow> over (stop_with (Refusal e))
                | Inr s \<Rightarrow>
                    (let x = \<lparr>ex_job = job, ex_routing = routing, ex_schema = s\<rparr> in
                     then_loop (admit env x) (\<lambda>_.
                     then_loop (read_cancel env i) (\<lambda>late.
                       if late then over (transact env (cancel_from (we_owner env) i []))
                       else attempts env x (start_position x)))))))))"

definition lease_lost :: "worker_stop \<Rightarrow> bool" where
  "lease_lost e = (case e of StoreError (TransitionRefused _ _ _ _) \<Rightarrow> True | StoreError (AttemptNotLeased _ _ _) \<Rightarrow> True
     | StoreError (AttemptDiverged _ _ _) \<Rightarrow> True | _ \<Rightarrow> False)"

definition crash_code :: "worker_stop \<Rightarrow> string" where
  "crash_code e = (case e of Refusal s \<Rightarrow> err_code s | StoreError (NotAnEdge _) \<Rightarrow> ''ILLEGAL_TRANSITION'' | _ \<Rightarrow> ''INTERNAL_ERROR'')"

definition new_entry :: "'e worker_env \<Rightarrow> ClaimedJob \<Rightarrow> instant \<Rightarrow> InFlightEntry" where
  "new_entry env job now = \<lparr>if_job_id = claimed_job_id job, if_worker_id = we_worker_id env, if_owner = we_owner env, if_cancelled = False,
     if_claimed_at = now, if_job_class = class_value (claimed_class job), if_state = LEASED, if_canonical_id = None, if_model_id = None,
     if_target_gpu_index = None, if_estimated_bytes = None, if_lost = False\<rparr>"

text \<open>The handlers of \<open>process\<close>, and its \<open>finally\<close>.\<close>

definition handle_stop :: "'e worker_env \<Rightarrow> ClaimedJob \<Rightarrow> worker_stop + unit \<Rightarrow> unit act" where
  "handle_stop env job res =
     (let i = claimed_job_id job in
      (case res of
         Inr _ \<Rightarrow> give ()
       | Inl WasCancelled \<Rightarrow> give ()
       | Inl e \<Rightarrow>
           if lease_lost e then change_flight env (\<lambda>_. update_entry i (we_owner env) (\<lambda>e. e\<lparr>if_cancelled := True\<rparr>))
           else transact env (\<lambda>now w. Inr (fail_after_crash (we_owner env) i (crash_code e) (we_error_text env e) now w))))"

definition process :: "'e worker_env \<Rightarrow> ClaimedJob \<Rightarrow> run \<Rightarrow> run option" where
  "process env job r =
     (let i = claimed_job_id job;
          r1 = snd (change_flight env (\<lambda>now. register (new_entry env job now)) r) in
      (case run_job env job r1 of
         None \<Rightarrow> None
       | Some (res, r2) \<Rightarrow>
           Some (snd (in_memory env (\<lambda>_ s. ((), snd (remove_entry i (we_owner env) (sh_flight s)), sh_breakers s, sh_wakeup s, True))
                  (snd (handle_stop env job res r2))))))"

subsection \<open>Termination\<close>

text \<open>Every piece of a run but the provider call leaves the count of provider calls alone.\<close>

definition silent :: "'a act \<Rightarrow> bool" where
  "silent m \<longleftrightarrow> (\<forall>r. rn_calls (snd (m r)) = rn_calls r)"

lemma silentD: "silent m \<Longrightarrow> m r = (a, r') \<Longrightarrow> rn_calls r' = rn_calls r"
  by (metis silent_def snd_conv)

lemma silent_and_then: "silent m \<Longrightarrow> (\<And>a. silent (k a)) \<Longrightarrow> silent (and_then m k)"
  by (auto simp: silent_def and_then_def split: sum.splits prod.splits) (metis snd_conv)+

lemma silent_basic: "silent (give a)" "silent (stop_with e)" "silent (access env f)"
  by (auto simp: silent_def give_def stop_with_def access_def split: prod.splits)

lemma silent_pieces:
  "silent (transact env tx)" "silent (in_memory env g)" "silent (change_flight env h)" "silent (change_breakers env k)"
  "silent (set_state env i st)" "silent (set_candidate env i cand)" "silent (must_stop env i)" "silent (read_cancel env i)"
  unfolding transact_def in_memory_def change_flight_def change_breakers_def set_state_def set_candidate_def must_stop_def read_cancel_def
  by (rule silent_basic)+

lemmas silent_intros = silent_and_then silent_basic silent_pieces

lemma silent_finish: "silent m \<Longrightarrow> silent (finish m)"
  unfolding finish_def by (intro silent_intros)

lemma silent_hand_back: "silent (hand_back env h c)"
  unfolding hand_back_def by (simp add: silent_intros)

lemma silent_readmit: "silent (readmit env x st cand rsn)"
  unfolding readmit_def by (intro silent_intros) (auto intro!: silent_intros)

lemma silent_fail: "silent (fail env x st records code)"
  using silent_pieces(1) by (auto simp: silent_def fail_def)

lemma silent_complete: "silent (complete env x records o' cand)"
proof -
  have "silent (\<lambda>r. transact env (tx r) r)" for tx using silent_pieces(1) by (auto simp: silent_def)
  then show ?thesis unfolding complete_def by (auto intro!: silent_intros split: option.splits)
qed

lemma silent_next_index: "silent (next_index x i larger)"
  unfolding next_index_def by (auto intro!: silent_intros split: sum.splits index_error.splits)

lemma silent_candidate_pass: "silent (candidate_pass env x ps)"
  unfolding candidate_pass_def Let_def skip_candidate_def enter_candidate_def
  by (intro silent_intros) (auto intro!: silent_intros silent_finish silent_readmit silent_next_index split: option.splits)

lemma silent_cancel_attempt: "silent (cancel_attempt env x ps cand records)"
  unfolding cancel_attempt_def by (intro silent_finish silent_intros silent_hand_back)

lemma silent_apply_decision: "silent (apply_decision env x ps kind o')"
proof -
  have c: "silent (case env_turns_refused (we_sync env) t of None \<Rightarrow> give u | Some e \<Rightarrow> stop_with (Refusal e))" for t and u :: 'c
    by (auto intro!: silent_intros split: option.splits)
  have t: "silent (case p of (turns, y) \<Rightarrow> case env_turns_refused (we_sync env) turns of None \<Rightarrow> give (turns, Some y) | Some e \<Rightarrow> stop_with (Refusal e))" for p :: "Message list \<times> RenderedPrompt"
    by (cases p) (simp add: c)
  show ?thesis
    unfolding apply_decision_def Let_def
    by (auto intro!: silent_intros silent_finish silent_readmit silent_next_index silent_fail t split: Action.splits option.splits prod.splits)
qed

lemma silent_settle: "silent (settle_attempt env x ps o')"
  unfolding settle_attempt_def
  by (auto intro!: silent_intros silent_finish silent_apply_decision silent_complete split: option.splits)

lemma and_then_Inr: "and_then m k r = (Inr b, r') \<longleftrightarrow> (\<exists>a r1. m r = (Inr a, r1) \<and> k a r1 = (Inr b, r'))"
  by (auto simp: and_then_def split: sum.splits prod.splits)

lemma give_Inr: "give a r = (Inr b, r') \<longleftrightarrow> b = a \<and> r' = r"
  by (auto simp: give_def)

lemma stop_with_Inr: "stop_with e r \<noteq> (Inr b, r')"
  by (simp add: stop_with_def)

lemma finish_Continue: "finish m r \<noteq> (Inr (Continue ps), r')"
  by (auto simp: finish_def and_then_Inr give_Inr)

lemma next_index_later: "next_index x i larger r = (Inr (Some k), r') \<Longrightarrow> i < k \<and> k < length (ex_candidates x)"
  by (auto simp: next_index_def next_candidate_index_def served_contexts_def candidate_from_Some Suc_le_eq give_Inr stop_with_Inr
      split: sum.splits index_error.splits if_splits)

lemmas pass_simps = and_then_Inr give_Inr stop_with_Inr finish_Continue

text \<open>A pass moves to a later candidate, enters the inner loop, or takes one of the attempts left.\<close>

definition progressed :: "execution \<Rightarrow> position \<Rightarrow> position \<Rightarrow> bool" where
  "progressed x ps' ps \<longleftrightarrow> ps_index ps' < length (ex_candidates x) \<and>
     (ps_index ps < ps_index ps' \<or>
      ps_index ps' = ps_index ps \<and> (\<not> ps_inner ps \<and> ps_inner ps' \<or>
        ps_inner ps' = ps_inner ps \<and> ps_number ps < ps_number ps' \<and> ps_number ps < claimed_max_attempts (ex_job x)))"

lemma candidate_pass_progress:
  assumes "candidate_pass env x ps r = (Inr (Continue ps'), r')" "ps_index ps < length (ex_candidates x)" "\<not> ps_inner ps"
  shows "progressed x ps' ps \<and> ps_number ps' = ps_number ps \<and> rn_calls r' = rn_calls r"
proof -
  have skip: "progressed x ps' ps \<and> ps_number ps' = ps_number ps" if "skip_candidate env x ps cid r0 = (Inr (Continue ps'), r')" for cid r0
    using that unfolding skip_candidate_def Let_def progressed_def by (auto simp: pass_simps split: option.splits dest: next_index_later)
  have enter: "progressed x ps' ps \<and> ps_number ps' = ps_number ps" if "enter_candidate env x ps cand h r0 = (Inr (Continue ps'), r')" for cand h r0
    using that assms(2,3) unfolding enter_candidate_def progressed_def and_then_Inr give_Inr by auto
  from assms(1) have "progressed x ps' ps \<and> ps_number ps' = ps_number ps"
    unfolding candidate_pass_def Let_def and_then_Inr by (auto split: if_split_asm dest!: skip enter)
  with silentD [OF silent_candidate_pass assms(1)] show ?thesis by simp
qed

lemma retry_continues:
  "and_then a (\<lambda>(t, c). and_then b (\<lambda>st. give (Continue (f st t c)))) r = (Inr (Continue ps'), r') \<Longrightarrow> \<exists>st t c. ps' = f st t c"
  by (auto simp: pass_simps split: prod.splits)

lemma apply_decision_progress:
  assumes "apply_decision env x ps kind o' r = (Inr (Continue ps'), r')" "ps_index ps < length (ex_candidates x)"
  shows "ps_number ps' = ps_number ps \<and> ps_index ps' < length (ex_candidates x) \<and>
    (ps_index ps < ps_index ps' \<or> ps_index ps' = ps_index ps \<and> ps_inner ps' = ps_inner ps)"
proof (cases "action (next_action kind (ps_here ps) (per_candidate x))")
  case RETRY_SAME
  with assms(1) show ?thesis
    unfolding apply_decision_def Let_def by (auto simp: finish_Continue assms(2) split: if_split_asm dest!: retry_continues)
next
  case FALLBACK
  with assms show ?thesis
    unfolding apply_decision_def Let_def by (auto simp: pass_simps split: option.splits dest: next_index_later)
next
  case STOP
  with assms show ?thesis unfolding apply_decision_def Let_def by (simp add: pass_simps)
qed

lemma settle_progress:
  assumes "settle_attempt env x ps o' r = (Inr (Continue ps'), r')" "ps_index ps < length (ex_candidates x)"
  shows "ps_number ps' = ps_number ps \<and> ps_index ps' < length (ex_candidates x) \<and>
    (ps_index ps < ps_index ps' \<or> ps_index ps' = ps_index ps \<and> ps_inner ps' = ps_inner ps)"
  using assms unfolding settle_attempt_def
  by (auto simp: pass_simps split: if_splits option.splits dest!: apply_decision_progress)

lemma call_provider_calls: "rn_calls (snd (call_provider env x cand turns n corr r)) = Suc (rn_calls r)"
  by (auto simp: call_provider_def access_def split: prod.splits)

lemma make_attempt_calls: "rn_calls (snd (make_attempt env x ps cand r)) \<le> rn_calls r + 1"
proof -
  have last: "silent (and_then (access env f) (\<lambda>c. if c then cancel_attempt env x ps' cand rs else settle_attempt env x ps'' o'))" for f ps' rs ps'' o'
    by (auto intro!: silent_intros silent_cancel_attempt silent_settle)
  have call: "rn_calls (snd (and_then (call_provider env x cand turns n c) k r)) \<le> rn_calls r + 1" if "\<And>a. silent (k a)" for turns n c k r
    using that call_provider_calls [of env x cand turns n c r]
    by (auto simp: and_then_def silent_def split: sum.splits prod.splits)
  have late: "rn_calls (snd (and_then m k r)) \<le> rn_calls r + 1"
    if "silent m" "\<And>a r. rn_calls (snd (k a r)) \<le> rn_calls r + 1" for m :: "unit act" and k :: "unit \<Rightarrow> pass act" and r
  proof (cases "m r")
    case (Pair res r1)
    with silentD [OF that(1) this] that(2) [of _ r1] show ?thesis by (simp add: and_then_def split: sum.splits)
  qed
  show ?thesis unfolding make_attempt_def
    by (intro late silent_intros call last)
qed

lemma attempt_pass_calls:
  assumes "attempt_pass env x ps r = (res, r')"
  shows "rn_calls r' \<le> rn_calls r + (if ps_number ps < claimed_max_attempts (ex_job x) then 1 else 0)"
proof (cases "ps_number ps < claimed_max_attempts (ex_job x)")
  case False
  with assms show ?thesis using silentD [OF silent_finish [OF silent_fail]] by (fastforce simp: attempt_pass_def)
next
  case True
  obtain st r1 where m: "must_stop env (ex_id x) r = (st, r1)" by fastforce
  then have same: "rn_calls r1 = rn_calls r" by (rule silentD [OF silent_pieces(7)])
  have c: "rn_calls (snd (cancel_attempt env x ps' cand records r1)) = rn_calls r1" for ps' cand records
    by (rule silent_cancel_attempt [unfolded silent_def, rule_format])
  show ?thesis
    using assms True m same c make_attempt_calls [of env x _ _ r1]
    by (auto simp: attempt_pass_def Let_def and_then_def split: sum.splits if_splits) (metis Suc_eq_plus1 snd_conv le_SucI order_refl)+
qed

lemma attempt_pass_progress:
  assumes "attempt_pass env x ps r = (Inr (Continue ps'), r')" "ps_index ps < length (ex_candidates x)" "ps_inner ps"
  shows "progressed x ps' ps \<and> ps_number ps' = ps_number ps + 1"
proof -
  have made: "progressed x ps' ps \<and> ps_number ps' = ps_number ps + 1"
    if "make_attempt env x (ps\<lparr>ps_number := ps_number ps + 1, ps_here := h\<rparr>) cand r0 = (Inr (Continue ps'), r')"
      "ps_number ps < claimed_max_attempts (ex_job x)" for h cand r0
    using that assms(2,3) unfolding make_attempt_def and_then_Inr cancel_attempt_def progressed_def
    by (auto simp: finish_Continue split: if_split_asm dest!: settle_progress)
  from assms(1) show ?thesis
    unfolding attempt_pass_def Let_def and_then_Inr cancel_attempt_def by (auto simp: finish_Continue and_then_Inr split: if_split_asm dest!: made)
qed

lemma one_pass_progress:
  assumes "one_pass env x ps r = (Inr (Continue ps'), r')" "ps_index ps < length (ex_candidates x)"
  shows "progressed x ps' ps" "ps_number ps' = ps_number ps + (if ps_inner ps then 1 else 0)"
  using assms candidate_pass_progress attempt_pass_progress by (fastforce simp: one_pass_def split: if_splits)+

text \<open>Induction along the passes of the loop.\<close>

lemma pass_induct:
  assumes "ps_index ps < length (ex_candidates x)"
    and pass: "\<And>ps r. ps_index ps < length (ex_candidates x) \<Longrightarrow>
      (\<And>ps' r'. one_pass env x ps r = (Inr (Continue ps'), r') \<Longrightarrow> ps_index ps' < length (ex_candidates x) \<Longrightarrow> P ps' r') \<Longrightarrow> P ps r"
  shows "P ps (r :: run)"
  using assms(1)
proof (induction ps arbitrary: r rule: wf_induct_rule
    [OF wf_measures [of "[\<lambda>ps. length (ex_candidates x) - ps_index ps, \<lambda>ps. if ps_inner ps then 0 else 1,
      \<lambda>ps. nat (claimed_max_attempts (ex_job x) - ps_number ps)]"]])
  case (1 ps r)
  show ?case
  proof (rule pass [OF 1(2)])
    fix ps' r' assume p: "one_pass env x ps r = (Inr (Continue ps'), r')" and "ps_index ps' < length (ex_candidates x)"
    then show "P ps' r'" using one_pass_progress(1) [OF p 1(2)] 1(2) by (intro 1(1)) (auto simp: progressed_def)
  qed
qed

lemma attempts_return:
  assumes "ps_index ps < length (ex_candidates x)"
  shows "\<exists>res r'. attempts env x ps r = Some (res, r') \<and>
    rn_calls r' \<le> rn_calls r + nat (claimed_max_attempts (ex_job x) - ps_number ps)"
proof (rule pass_induct [OF assms, where env = env])
  fix ps r
  assume here: "ps_index ps < length (ex_candidates x)"
    and later: "\<And>ps' r'. one_pass env x ps r = (Inr (Continue ps'), r') \<Longrightarrow> ps_index ps' < length (ex_candidates x) \<Longrightarrow>
      \<exists>res r''. attempts env x ps' r' = Some (res, r'') \<and> rn_calls r'' \<le> rn_calls r' + nat (claimed_max_attempts (ex_job x) - ps_number ps')"
  obtain res r1 where pass: "one_pass env x ps r = (res, r1)" by fastforce
  have calls: "rn_calls r1 \<le> rn_calls r + (if ps_inner ps \<and> ps_number ps < claimed_max_attempts (ex_job x) then 1 else 0)"
    using pass attempt_pass_calls silentD [OF silent_candidate_pass]
    by (fastforce simp: one_pass_def split: if_splits)
  then have bound: "rn_calls r1 \<le> rn_calls r + nat (claimed_max_attempts (ex_job x) - ps_number ps)" by (auto split: if_splits)
  consider (over) "\<forall>ps'. res \<noteq> Inr (Continue ps')" | (more) ps' where "res = Inr (Continue ps')" by blast
  then show "\<exists>res r'. attempts env x ps r = Some (res, r') \<and> rn_calls r' \<le> rn_calls r + nat (claimed_max_attempts (ex_job x) - ps_number ps)"
  proof cases
    case over
    then show ?thesis
      using pass bound by (subst attempts.simps) (auto split: sum.splits pass.splits)
  next
    case more
    note p = one_pass_progress [OF pass [unfolded more] here]
    obtain res' r2 where
      r2: "attempts env x ps' r1 = Some (res', r2)" "rn_calls r2 \<le> rn_calls r1 + nat (claimed_max_attempts (ex_job x) - ps_number ps')"
      using later [OF pass [unfolded more]] p(1) by (auto simp: progressed_def)
    have "attempts env x ps r = Some (res', r2)" using pass more r2(1) by (subst attempts.simps) simp
    moreover have "rn_calls r2 \<le> rn_calls r + nat (claimed_max_attempts (ex_job x) - ps_number ps)"
      using r2(2) calls p by (auto simp: progressed_def split: if_splits)
    ultimately show ?thesis by blast
  qed
qed

definition returns :: "nat \<Rightarrow> (run \<Rightarrow> ((worker_stop + unit) \<times> run) option) \<Rightarrow> bool" where
  "returns b f \<longleftrightarrow> (\<forall>r. \<exists>res r'. f r = Some (res, r') \<and> rn_calls r' \<le> rn_calls r + b)"

lemma returns_act: "silent m \<Longrightarrow> returns b (\<lambda>r. Some (m r))"
  unfolding returns_def by (metis add.commute le_add2 silent_def surj_pair prod.collapse)

lemma returns_then:
  assumes "silent m" "\<And>r a r'. m r = (Inr a, r') \<Longrightarrow> returns b (k a)"
  shows "returns b (then_loop m k)"
  unfolding returns_def
proof
  fix r
  obtain res r1 where m: "m r = (res, r1)" by fastforce
  note same = silentD [OF assms(1) m]
  show "\<exists>res r'. then_loop m k r = Some (res, r') \<and> rn_calls r' \<le> rn_calls r + b"
  proof (cases res)
    case (Inl e)
    then show ?thesis using m same by (simp add: then_loop_def)
  next
    case (Inr a)
    with assms(2) m have "returns b (k a)" by blast
    then obtain res' r2 where "k a r1 = Some (res', r2)" "rn_calls r2 \<le> rn_calls r1 + b" unfolding returns_def by blast
    then show ?thesis using m same Inr by (simp add: then_loop_def)
  qed
qed

lemma silent_route_job: "silent (route_job env job)"
proof -
  have a: "silent (\<lambda>r. access env (f r) r)" for env :: "'e worker_env" and f :: "run \<Rightarrow> instant \<Rightarrow> shared \<Rightarrow> (worker_stop + unit) \<times> shared"
    using silent_basic(3) by (auto simp: silent_def)
  show ?thesis unfolding route_job_def
    by (intro silent_and_then a silent_basic) (auto intro!: silent_intros split: routed.splits sum.splits)
qed

lemma admit_primary: "admit env x r = (Inr u, r') \<Longrightarrow> 0 < length (ex_candidates x)"
  by (auto simp: admit_def ex_candidates_def stop_with_Inr split: option.splits)

lemma silent_admit: "silent (admit env x)"
  unfolding admit_def by (auto intro!: silent_intros split: option.splits)

lemma returns_if: "(c \<Longrightarrow> returns b f) \<Longrightarrow> (\<not> c \<Longrightarrow> returns b g) \<Longrightarrow> returns b (if c then f else g)"
  by simp

lemma run_job_returns:
  "returns (nat (claimed_max_attempts job - claimed_attempt job)) (run_job env job)"
proof -
  have loop: "returns (nat (claimed_max_attempts job - claimed_attempt job))
      (attempts env \<lparr>ex_job = job, ex_routing = routing, ex_schema = s\<rparr> (start_position \<lparr>ex_job = job, ex_routing = routing, ex_schema = s\<rparr>))"
    if "admit env \<lparr>ex_job = job, ex_routing = routing, ex_schema = s\<rparr> r = (Inr u, r')" for routing s r u r'
    unfolding returns_def
    using attempts_return [of "start_position \<lparr>ex_job = job, ex_routing = routing, ex_schema = s\<rparr>"
        "\<lparr>ex_job = job, ex_routing = routing, ex_schema = s\<rparr>" env] admit_primary [OF that]
    by (simp add: start_position_def)
  have early: "silent (if c then give True else read_cancel env i)" for c i by (simp add: silent_intros)
  show ?thesis
    unfolding run_job_def Let_def
    by (intro returns_then early returns_if returns_act silent_pieces silent_route_job silent_admit silent_basic loop
        | (split option.split sum.split, intro conjI allI impI))+
qed

lemma process_returns: "\<exists>r'. process env job r = Some r'"
proof -
  obtain res r2 where "run_job env job (snd (change_flight env (\<lambda>now. register (new_entry env job now)) r)) = Some (res, r2)"
    using run_job_returns [of job env, unfolded returns_def] by blast
  then show ?thesis by (simp add: process_def Let_def)
qed

text \<open>
  C7. Processing a job always ends. Whatever the providers answer, whatever the other threads and processes
  do to the store, the in-flight registry and the circuit breakers between two accesses, and whichever transactions are
  refused, \<open>process\<close> returns: its loop over candidates and attempts ends, and no provider is called
  more often than the attempts the job has left.
\<close>

theorem worker_terminates:
  "\<exists>r'. process env job r = Some r' \<and> rn_calls r' \<le> rn_calls r + nat (claimed_max_attempts job - claimed_attempt job)"
proof -
  let ?r1 = "snd (change_flight env (\<lambda>now. register (new_entry env job now)) r)"
  have h: "silent (handle_stop env job res)" for res
    unfolding handle_stop_def Let_def by (auto intro!: silent_intros split: sum.splits worker_stop.splits)
  obtain res r2 where r2: "run_job env job ?r1 = Some (res, r2)"
    "rn_calls r2 \<le> rn_calls ?r1 + nat (claimed_max_attempts job - claimed_attempt job)"
    using run_job_returns [of job env, unfolded returns_def] by blast
  moreover have "rn_calls ?r1 = rn_calls r" using silent_pieces(3) by (metis silent_def)
  moreover have "rn_calls (snd (handle_stop env job res r2)) = rn_calls r2" using h by (simp add: silent_def)
  moreover have "rn_calls (snd (in_memory env f r0)) = rn_calls r0" for f :: "instant \<Rightarrow> shared \<Rightarrow> unit \<times> registry \<times> breakers \<times> bool \<times> bool" and r0
    by (rule silent_pieces(2) [unfolded silent_def, rule_format])
  ultimately show ?thesis by (simp add: process_def Let_def)
qed

end
