(* ===== verification/Worker_Loop.thy ===== *)
theory Worker_Loop
  imports Worker
begin

section \<open>The worker's loop\<close>

text \<open>
  Models \<open>Worker.run\<close> and \<open>Worker._claim\<close> of \<^verbatim>\<open>src/src/loadcoach/services/worker.py\<close>, one turn of the loop at a time: the
  operator's flags, the claim with the affinity hint and the streak of affine claims, the exception of a claim that is logged and
  swallowed, and the adaptive back-off. What the turn hands to \<open>process\<close> is its result. Shown: the streak of
  affine claims is bounded, so that affinity cannot starve a job of equal priority, and the back-off stays between its two bounds.
\<close>

definition POLL_BUSY_SECONDS :: float64 where "POLL_BUSY_SECONDS = fl (1 / 20)"
definition POLL_IDLE_SECONDS :: float64 where "POLL_IDLE_SECONDS = 1"

record WorkerThread =
  wt_streak :: int
  wt_backoff :: float64

definition new_worker :: WorkerThread where
  "new_worker = \<lparr>wt_streak = 0, wt_backoff = POLL_BUSY_SECONDS\<rparr>"

definition affinity_hint :: "string list \<Rightarrow> int \<Rightarrow> int \<Rightarrow> AffinityHint option" where
  "affinity_hint loaded s bound =
     (if loaded \<noteq> [] then Some \<lparr>resident_model_ids = loaded, streak = s, max_streak = bound\<rparr> else None)"

text \<open>The dispatch latency in milliseconds is the second clock reading against the instant the job was due.\<close>

definition dispatch_ms :: "instant \<Rightarrow> ClaimedJob \<Rightarrow> float64" where
  "dispatch_ms later job = max (fl (total_seconds (later - claimed_scheduled_for job) * 1000)) 0"

definition worker_claim :: "conversions \<Rightarrow> QueueSettings \<Rightarrow> string \<Rightarrow> string list \<Rightarrow> instant \<Rightarrow> instant \<Rightarrow> int \<Rightarrow> World \<Rightarrow>
    queue_error + ((ClaimedJob \<times> float64) option \<times> int \<times> World)" where
  "worker_claim cv qs owner loaded now later s w =
     bind_result (claim cv owner now (lease_seconds qs) (affinity_hint loaded s (max_affinity_streak qs)) w) (\<lambda>(c, w').
       (case c of
          None \<Rightarrow> Inr (None, s, w')
        | Some job \<Rightarrow> Inr (Some (job, dispatch_ms later job), if by_affinity job then s + 1 else 0, w')))"

text \<open>What one turn reads from outside: the flags, the resident models, the clock, and whether the wait was cut short by a wake-up.\<close>

record turn_input =
  ti_flags :: QueueFlags
  ti_resident :: "string list"
  ti_now :: instant
  ti_later :: instant
  ti_woken :: bool

definition idle_turn :: "bool \<Rightarrow> WorkerThread \<Rightarrow> WorkerThread" where
  "idle_turn was_woken t =
     t\<lparr>wt_backoff := (if was_woken then POLL_BUSY_SECONDS else min (fl (wt_backoff t * 2)) POLL_IDLE_SECONDS)\<rparr>"

definition loop_turn :: "conversions \<Rightarrow> QueueSettings \<Rightarrow> string \<Rightarrow> turn_input \<Rightarrow> WorkerThread \<Rightarrow> World \<Rightarrow> WorkerThread \<times> ClaimedJob option \<times> World" where
  "loop_turn cv qs owner ti t w =
     (if \<not> claiming (ti_flags ti) then (t, None, w)
      else (case worker_claim cv qs owner (ti_resident ti) (ti_now ti) (ti_later ti) (wt_streak t) w of
        Inl _ \<Rightarrow> (idle_turn (ti_woken ti) t, None, w)
      | Inr (None, s, w') \<Rightarrow> (idle_turn (ti_woken ti) (t\<lparr>wt_streak := s\<rparr>), None, w')
      | Inr (Some (job, _), s, w') \<Rightarrow> (t\<lparr>wt_streak := s, wt_backoff := POLL_BUSY_SECONDS\<rparr>, Some job, w')))"

text \<open>The states of a worker's thread: any turns, with any store at each of them.\<close>

inductive worker_runs :: "QueueSettings \<Rightarrow> WorkerThread \<Rightarrow> bool" where
  started: "worker_runs qs new_worker"
| turned: "worker_runs qs t \<Longrightarrow> loop_turn cv qs owner ti t w = (t', job, w') \<Longrightarrow> worker_runs qs t'"

lemma claim_affine:
  assumes "claim cv owner now secs hint w = Inr (Some job, w')" "by_affinity job"
  shows "\<exists>h. hint = Some h \<and> streak h < max_streak h"
proof -
  obtain x where "claim_choice owner now secs hint (jobs w) = Some (x, True)"
    using assms by (auto simp: claim_def claimed_def bind_result_Inr_iff split: option.splits prod.splits)
  then show ?thesis by (auto simp: claim_choice_def Let_def split: option.splits if_splits)
qed

lemma poll_bounds: "1 / 32 \<le> POLL_BUSY_SECONDS" "POLL_BUSY_SECONDS \<le> POLL_IDLE_SECONDS"
proof -
  have "fl (1 / 32) \<le> fl (1 / 20)" "fl (1 / 20) \<le> fl 1" by (rule fl_mono, simp)+
  moreover have "fl (1 / 32) = 1 / 32" using fl_dyadic [of 1 5] by simp
  ultimately show "1 / 32 \<le> POLL_BUSY_SECONDS" "POLL_BUSY_SECONDS \<le> POLL_IDLE_SECONDS" by (simp_all add: POLL_BUSY_SECONDS_def POLL_IDLE_SECONDS_def)
qed

lemma turn_claims:
  assumes "loop_turn cv qs owner ti t w = (t', job, w')"
  shows "(\<exists>s. wt_streak t' = s \<and> (s = wt_streak t \<or> s = 0 \<or> s = wt_streak t + 1 \<and> wt_streak t < max_affinity_streak qs)) \<and>
    (\<forall>c. job = Some c \<longrightarrow> wt_backoff t' = POLL_BUSY_SECONDS \<and> (by_affinity c \<longrightarrow> wt_streak t < max_affinity_streak qs)) \<and>
    (wt_backoff t' = wt_backoff t \<or> wt_backoff t' = POLL_BUSY_SECONDS \<or> wt_backoff t' = min (fl (wt_backoff t * 2)) POLL_IDLE_SECONDS)"
proof (cases "worker_claim cv qs owner (ti_resident ti) (ti_now ti) (ti_later ti) (wt_streak t) w")
  case (Inl e)
  then show ?thesis using assms by (auto simp: loop_turn_def idle_turn_def split: if_splits)
next
  case (Inr x)
  then obtain c w1 where c: "claim cv owner (ti_now ti) (lease_seconds qs) (affinity_hint (ti_resident ti) (wt_streak t) (max_affinity_streak qs)) w = Inr (c, w1)"
    and x: "x = (case c of None \<Rightarrow> (None, wt_streak t, w1)
        | Some job \<Rightarrow> (Some (job, dispatch_ms (ti_later ti) job), if by_affinity job then wt_streak t + 1 else 0, w1))"
    by (auto simp: worker_claim_def bind_result_Inr_iff split: option.splits)
  show ?thesis
  proof (cases c)
    case None
    then show ?thesis using assms Inr x by (auto simp: loop_turn_def idle_turn_def split: if_splits)
  next
    case (Some j)
    have "by_affinity j \<Longrightarrow> wt_streak t < max_affinity_streak qs"
      using claim_affine [OF c [unfolded Some]] by (auto simp: affinity_hint_def split: if_splits)
    then show ?thesis using assms Inr x Some by (auto simp: loop_turn_def split: if_splits)
  qed
qed

lemma runs_bounded:
  assumes "worker_runs qs t" "0 \<le> max_affinity_streak qs"
  shows "0 \<le> wt_streak t \<and> wt_streak t \<le> max_affinity_streak qs \<and> POLL_BUSY_SECONDS \<le> wt_backoff t \<and> wt_backoff t \<le> POLL_IDLE_SECONDS"
  using assms
proof (induction rule: worker_runs.induct)
  case (started qs)
  then show ?case using poll_bounds by (simp add: new_worker_def)
next
  case (turned qs t cv owner ti w t' job w')
  have t: "0 \<le> wt_streak t" "wt_streak t \<le> max_affinity_streak qs" "POLL_BUSY_SECONDS \<le> wt_backoff t" "wt_backoff t \<le> POLL_IDLE_SECONDS"
    using turned by blast+
  have "POLL_BUSY_SECONDS \<le> fl (wt_backoff t * 2)"
    unfolding POLL_BUSY_SECONDS_def by (rule fl_mono) (use t(3) poll_bounds(1) in linarith)
  then have "POLL_BUSY_SECONDS \<le> min (fl (wt_backoff t * 2)) POLL_IDLE_SECONDS" using poll_bounds(2) by simp
  then show ?case using turn_claims [OF turned.hyps(2)] t turned.prems poll_bounds(2) by auto
qed

text \<open>
  C34. Affinity is bounded. Over any history of a worker's turns (paused or not, claims that succeed, find nothing or raise, any
  resident models and any stores), the streak of claims decided by a resident model stays within
  \<open>max_affinity_streak\<close>, and once it is reached the next claim is not decided by residency, so it takes the best due job; and the
  wait between two polls stays between 50 milliseconds and one second, and drops to the lower bound after a claim.
\<close>

theorem affinity_streak_bounded:
  assumes "worker_runs qs t" "0 \<le> max_affinity_streak qs" "loop_turn cv qs owner ti t w = (t', job, w')"
  shows "0 \<le> wt_streak t' \<and> wt_streak t' \<le> max_affinity_streak qs \<and> POLL_BUSY_SECONDS \<le> wt_backoff t' \<and> wt_backoff t' \<le> POLL_IDLE_SECONDS \<and>
    (\<forall>c. job = Some c \<longrightarrow> wt_backoff t' = POLL_BUSY_SECONDS \<and> (wt_streak t = max_affinity_streak qs \<longrightarrow> \<not> by_affinity c))"
  using runs_bounded [OF turned [OF assms(1,3)] assms(2)] turn_claims [OF assms(3)] by auto

theorem affinity_streak_bounded_witness:
  "\<exists>t' job w'. loop_turn plain_conversions shipped_queue_settings ''p/worker-0''
       \<lparr>ti_flags = \<lparr>flag_paused = False, flag_draining = False\<rparr>, ti_resident = [''m''], ti_now = 9, ti_later = 10, ti_woken = False\<rparr> new_worker two_jobs = (t', job, w') \<and>
     wt_streak t' \<le> 5"
proof -
  let ?ti = "\<lparr>ti_flags = \<lparr>flag_paused = False, flag_draining = False\<rparr>, ti_resident = [''m''], ti_now = 9, ti_later = 10, ti_woken = False\<rparr>"
  obtain t' job w' where turn: "loop_turn plain_conversions shipped_queue_settings ''p/worker-0'' ?ti new_worker two_jobs = (t', job, w')"
    by (metis prod_cases3)
  have "0 \<le> max_affinity_streak shipped_queue_settings" by (simp add: shipped_queue_settings_def)
  from affinity_streak_bounded [OF started this turn] turn show ?thesis by (auto simp: shipped_queue_settings_def)
qed

end
