(* ===== verification/Residency.thy ===== *)
theory Residency
  imports Values
begin

section \<open>Model residency\<close>

text \<open>
  Models \<^verbatim>\<open>src/src/loadcoach/services/residency.py\<close>: the table of residency episodes, the reads admission
  and the affinity claim use, and the policy that loads a model before a job runs on it, evicts the
  least recently used idle residents of the device, unloads idle ones and reconciles the table with
  what the provider reports. The provider is a parameter: what it declares, whether its \<open>load\<close>
  and \<open>unload\<close> raise \<open>ProviderError\<close>, and what it lists. Rows are kept in the order of insertion; a
  unique constraint that is violated, a primary key that is taken and a \<open>scalar_one_or_none\<close> that finds
  two rows are errors.
\<close>

record Episode =
  ep_id :: string
  ep_model_id :: string
  ep_adapter_id :: "string option"
  ep_adapter_key :: string
  ep_gpu_index :: int
  ep_loaded_at :: instant
  ep_last_used_at :: instant
  ep_vram_bytes :: "float64 option"
  ep_vram_unavailable :: "string option"
  ep_resident :: bool
  ep_unloaded_at :: "instant option"
  ep_unload_reason :: "string option"

record ModelRow =
  mr_id :: string
  mr_canonical_id :: string
  mr_provider_kind :: string
  mr_provider_model_name :: string
  mr_artifact_digest :: "string option"

record ResidentEntry =
  re_residency_id :: string
  re_model_id :: string
  re_canonical_id :: string
  re_provider_kind :: string
  re_provider_model_name :: string
  re_artifact_digest :: "string option"
  re_gpu_index :: int
  re_loaded_at :: instant
  re_last_used_at :: instant
  re_vram_bytes :: "int option"

record LoadOutcome =
  lo_loaded :: bool
  lo_already_resident :: bool
  lo_evicted :: "string list"
  lo_reason :: "string option"

record ResidencySettings =
  unload_idle_seconds :: int
  max_resident_models :: int

text \<open>The provider: \<open>reported\<close> is \<open>None\<close> when listing raises; a size that is not supported is \<open>None\<close>.\<close>

record provider_control =
  is_manageable :: bool
  can_query :: bool
  load_error :: "string option"
  unload_raises :: "ResidentEntry \<Rightarrow> bool"
  reported :: "(string \<times> int option) list option"

datatype residency_error = EpisodeExists | TwoOpenEpisodes

definition load_outcome_json :: "LoadOutcome \<Rightarrow> (string \<times> json) list" where
  "load_outcome_json o' = [(''loaded'', JBool (lo_loaded o')), (''already_resident'', JBool (lo_already_resident o')),
     (''evicted'', JList (map JStr (lo_evicted o'))), (''reason'', of_opt_str (lo_reason o'))]"

definition REASON_UNMANAGED :: string where
  "REASON_UNMANAGED = ''residency_unmanaged''"

subsection \<open>Reading\<close>

definition entry_of :: "Episode \<Rightarrow> ModelRow \<Rightarrow> ResidentEntry" where
  "entry_of r m = \<lparr>re_residency_id = ep_id r, re_model_id = mr_id m, re_canonical_id = mr_canonical_id m,
     re_provider_kind = mr_provider_kind m, re_provider_model_name = mr_provider_model_name m,
     re_artifact_digest = mr_artifact_digest m, re_gpu_index = ep_gpu_index r, re_loaded_at = ep_loaded_at r,
     re_last_used_at = ep_last_used_at r, re_vram_bytes = map_option trunc (ep_vram_bytes r)\<rparr>"

text \<open>\<open>resident()\<close>: the open episodes joined with their models, \<open>ORDER BY last_used_at, id\<close>.\<close>

definition residents :: "ModelRow list \<Rightarrow> Episode list \<Rightarrow> ResidentEntry list" where
  "residents models rows =
     sort_key re_last_used_at (sort_key re_residency_id
       (concat (map (\<lambda>r. map (entry_of r) (filter (\<lambda>m. mr_id m = ep_model_id r) models)) (filter ep_resident rows))))"

definition resident_models :: "ModelRow list \<Rightarrow> Episode list \<Rightarrow> string set" where
  "resident_models models rows = re_model_id ` set (residents models rows)"

definition resident_canonical_ids :: "ModelRow list \<Rightarrow> Episode list \<Rightarrow> string set" where
  "resident_canonical_ids models rows = re_canonical_id ` set (residents models rows)"

definition devices_of_residents :: "ModelRow list \<Rightarrow> Episode list \<Rightarrow> (string, int set) dict" where
  "devices_of_residents models rows =
     map (\<lambda>(c, es). (c, re_gpu_index ` set es)) (group_by re_canonical_id (residents models rows))"

definition evictable_bytes_by_device :: "provider_control \<Rightarrow> ModelRow list \<Rightarrow> Episode list \<Rightarrow> string set \<Rightarrow> (int, int) dict" where
  "evictable_bytes_by_device pc models rows in_use =
     (if \<not> is_manageable pc then []
      else add_totals re_gpu_index (\<lambda>e. the (re_vram_bytes e))
        (filter (\<lambda>e. re_model_id e \<notin> in_use \<and> re_vram_bytes e \<noteq> None) (residents models rows)))"

subsection \<open>Loading and unloading\<close>

definition close_episode :: "string \<Rightarrow> instant \<Rightarrow> string \<Rightarrow> Episode list \<Rightarrow> Episode list" where
  "close_episode i now why rows =
     map (\<lambda>r. if ep_id r = i then r\<lparr>ep_resident := False, ep_unloaded_at := Some now, ep_unload_reason := Some why\<rparr> else r) rows"

definition unload :: "provider_control \<Rightarrow> ResidentEntry \<Rightarrow> string \<Rightarrow> instant \<Rightarrow> Episode list \<Rightarrow> bool \<times> Episode list" where
  "unload pc e why now rows =
     (if unload_raises pc e then (False, rows) else (True, close_episode (re_residency_id e) now why rows))"

definition record_use :: "string \<Rightarrow> int \<Rightarrow> instant \<Rightarrow> string option \<Rightarrow> string \<Rightarrow> Episode list \<Rightarrow> residency_error + Episode list" where
  "record_use m g now adapter akey rows =
     (let hit = (\<lambda>r. ep_model_id r = m \<and> ep_gpu_index r = g \<and> ep_resident r) in
      if length (filter hit rows) > 1 then Inl TwoOpenEpisodes
      else Inr (map (\<lambda>r. if hit r then r\<lparr>ep_last_used_at := now, ep_adapter_id := adapter, ep_adapter_key := akey\<rparr> else r) rows))"

definition no_room :: "int option \<Rightarrow> int \<Rightarrow> int option \<Rightarrow> bool" where
  "no_room required headroom free = (case (required, free) of (Some r, Some f) \<Rightarrow> f < r + headroom | _ \<Rightarrow> False)"

definition add_free :: "int option \<Rightarrow> int option \<Rightarrow> int option" where
  "add_free free vram = (case (free, vram) of (Some f, Some v) \<Rightarrow> Some (f + v) | _ \<Rightarrow> free)"

text \<open>The eviction loop; \<open>n\<close> counts the residents of the device when it starts.\<close>

fun evict_for :: "provider_control \<Rightarrow> ResidencySettings \<Rightarrow> string set \<Rightarrow> int option \<Rightarrow> int \<Rightarrow> string \<Rightarrow> instant \<Rightarrow> nat \<Rightarrow>
    ResidentEntry list \<Rightarrow> string list \<times> int option \<times> Episode list \<Rightarrow> string list \<times> int option \<times> Episode list" where
  "evict_for pc rs in_use required headroom why now n [] st = st"
| "evict_for pc rs in_use required headroom why now n (e # es) (evicted, free, rows) =
     (let over_limit = int n - int (length evicted) \<ge> max_resident_models rs in
      if \<not> (over_limit \<or> no_room required headroom free) then (evicted, free, rows)
      else if re_model_id e \<in> in_use then evict_for pc rs in_use required headroom why now n es (evicted, free, rows)
      else (case unload pc e why now rows of
              (True, rows') \<Rightarrow> evict_for pc rs in_use required headroom why now n es
                (evicted @ [re_canonical_id e],
                 add_free free (re_vram_bytes e), rows')
            | (False, rows') \<Rightarrow> evict_for pc rs in_use required headroom why now n es (evicted, free, rows')))"

definition reported_vram :: "provider_control \<Rightarrow> string \<Rightarrow> int option" where
  "reported_vram pc name =
     (if \<not> can_query pc then None
      else (case reported pc of None \<Rightarrow> None
            | Some held \<Rightarrow> (case find (\<lambda>(k, _). k = name) held of None \<Rightarrow> None | Some (_, v) \<Rightarrow> v)))"

definition new_episode :: "string \<Rightarrow> string \<Rightarrow> string option \<Rightarrow> string \<Rightarrow> int \<Rightarrow> instant \<Rightarrow> int option \<Rightarrow> Episode" where
  "new_episode new_id m adapter akey g now vram =
     \<lparr>ep_id = new_id, ep_model_id = m, ep_adapter_id = adapter, ep_adapter_key = akey, ep_gpu_index = g, ep_loaded_at = now,
      ep_last_used_at = now, ep_vram_bytes = map_option (fl \<circ> of_int) vram,
      ep_vram_unavailable = (if vram \<noteq> None then None else Some ''provider_does_not_report_vram''), ep_resident = True,
      ep_unloaded_at = None, ep_unload_reason = None\<rparr>"

definition insert_episode :: "Episode \<Rightarrow> Episode list \<Rightarrow> residency_error + Episode list" where
  "insert_episode e rows =
     (if \<exists>r \<in> set rows. ep_id r = ep_id e \<or>
          (ep_model_id r = ep_model_id e \<and> ep_adapter_key r = ep_adapter_key e \<and> ep_gpu_index r = ep_gpu_index e \<and> ep_loaded_at r = ep_loaded_at e)
      then Inl EpisodeExists else Inr (rows @ [e]))"

record load_request =
  lr_model_id :: string
  lr_canonical_id :: string
  lr_model_name :: string
  lr_gpu_index :: "int option"
  lr_required_bytes :: "int option"
  lr_free_bytes :: "int option"
  lr_headroom_bytes :: int
  lr_adapter_id :: "string option"
  lr_adapter_key :: string

definition skipped :: "string \<Rightarrow> LoadOutcome" where
  "skipped why = \<lparr>lo_loaded = False, lo_already_resident = False, lo_evicted = [], lo_reason = Some why\<rparr>"

text \<open>The load itself, once room was made.\<close>

definition load_onto :: "provider_control \<Rightarrow> load_request \<Rightarrow> int \<Rightarrow> string \<Rightarrow> instant \<Rightarrow> string list \<Rightarrow> Episode list \<Rightarrow>
    residency_error + (LoadOutcome \<times> Episode list)" where
  "load_onto pc lr g new_id now evicted rows =
     (case load_error pc of
        Some code \<Rightarrow> Inr (\<lparr>lo_loaded = False, lo_already_resident = False, lo_evicted = evicted, lo_reason = Some code\<rparr>, rows)
      | None \<Rightarrow>
          bind_result (insert_episode (new_episode new_id (lr_model_id lr) (lr_adapter_id lr) (lr_adapter_key lr) g now
              (reported_vram pc (lr_model_name lr))) rows) (\<lambda>rows'.
            Inr (\<lparr>lo_loaded = True, lo_already_resident = False, lo_evicted = evicted, lo_reason = None\<rparr>, rows')))"

definition on_device :: "ModelRow list \<Rightarrow> Episode list \<Rightarrow> int \<Rightarrow> ResidentEntry list" where
  "on_device models rows g = filter (\<lambda>e. re_gpu_index e = g) (residents models rows)"

definition loaded_on :: "ModelRow list \<Rightarrow> Episode list \<Rightarrow> int \<Rightarrow> string \<Rightarrow> bool" where
  "loaded_on models rows g m \<longleftrightarrow> m \<in> re_model_id ` set (on_device models rows g)"

definition ensure_loaded :: "provider_control \<Rightarrow> ResidencySettings \<Rightarrow> ModelRow list \<Rightarrow> load_request \<Rightarrow> string set \<Rightarrow> string \<Rightarrow> instant \<Rightarrow>
    Episode list \<Rightarrow> residency_error + (LoadOutcome \<times> Episode list)" where
  "ensure_loaded pc rs models lr in_use new_id now rows =
     (if \<not> is_manageable pc then Inr (skipped REASON_UNMANAGED, rows)
      else (case lr_gpu_index lr of
        None \<Rightarrow> Inr (skipped ''no_device'', rows)
      | Some g \<Rightarrow>
          if loaded_on models rows g (lr_model_id lr)
          then bind_result (record_use (lr_model_id lr) g now (lr_adapter_id lr) (lr_adapter_key lr) rows) (\<lambda>rows'.
             Inr (\<lparr>lo_loaded = False, lo_already_resident = True, lo_evicted = [], lo_reason = None\<rparr>, rows'))
          else (case evict_for pc rs in_use (lr_required_bytes lr) (lr_headroom_bytes lr) (''evicted_for:'' @ lr_canonical_id lr) now
                   (length (on_device models rows g)) (on_device models rows g) ([], lr_free_bytes lr, rows) of
              (evicted, _, rows') \<Rightarrow> load_onto pc lr g new_id now evicted rows')))"

subsection \<open>The scheduler's part\<close>

fun evict_each :: "provider_control \<Rightarrow> (ResidentEntry \<Rightarrow> bool) \<Rightarrow> instant \<Rightarrow> ResidentEntry list \<Rightarrow> string list \<times> Episode list \<Rightarrow>
    string list \<times> Episode list" where
  "evict_each pc idle now [] st = st"
| "evict_each pc idle now (e # es) (unloaded, rows) =
     (if idle e then
        (case unload pc e ''idle'' now rows of
           (True, rows') \<Rightarrow> evict_each pc idle now es (unloaded @ [re_canonical_id e], rows')
         | (False, rows') \<Rightarrow> evict_each pc idle now es (unloaded, rows'))
      else evict_each pc idle now es (unloaded, rows))"

definition evict_idle :: "provider_control \<Rightarrow> ResidencySettings \<Rightarrow> ModelRow list \<Rightarrow> instant \<Rightarrow> string set \<Rightarrow> Episode list \<Rightarrow>
    string list \<times> Episode list" where
  "evict_idle pc rs models now in_use rows =
     (if \<not> is_manageable pc then ([], rows)
      else evict_each pc (\<lambda>e. re_model_id e \<notin> in_use \<and> total_seconds (now - re_last_used_at e) \<ge> of_int (unload_idle_seconds rs)) now
        (residents models rows) ([], rows))"

definition sync_residency :: "provider_control \<Rightarrow> ModelRow list \<Rightarrow> instant \<Rightarrow> Episode list \<Rightarrow> Episode list" where
  "sync_residency pc models now rows =
     (case (can_query pc, reported pc) of
        (True, Some held) \<Rightarrow>
          fold (\<lambda>e. close_episode (re_residency_id e) now ''provider_reported_unloaded'')
            (filter (\<lambda>e. re_provider_model_name e \<notin> fst ` set held) (residents models rows)) rows
      | _ \<Rightarrow> rows)"

subsection \<open>Which episodes an operation closes\<close>

definition closing :: "instant \<Rightarrow> string \<Rightarrow> Episode \<Rightarrow> Episode" where
  "closing now why r = r\<lparr>ep_resident := False, ep_unloaded_at := Some now, ep_unload_reason := Some why\<rparr>"

lemma closing_fields [simp]:
  "ep_id (closing now why r) = ep_id r" "ep_model_id (closing now why r) = ep_model_id r" "\<not> ep_resident (closing now why r)"
  "ep_unloaded_at (closing now why r) = Some now" "closing now why (closing now why r) = closing now why r"
  by (simp_all add: closing_def)

lemma fold_close:
  "fold (\<lambda>e. close_episode (re_residency_id e) now why) es rows =
     map (\<lambda>r. if ep_id r \<in> re_residency_id ` set es then closing now why r else r) rows"
proof (induction es arbitrary: rows)
  case (Cons e es)
  have close: "close_episode i now why rows = map (\<lambda>r. if ep_id r = i then closing now why r else r) rows" for i
    by (simp add: close_episode_def closing_def)
  show ?case unfolding fold_simps(2) Cons.IH close map_map
    by (rule map_cong [OF refl]) auto
qed simp

lemma set_residents:
  "e \<in> set (residents models rows) \<longleftrightarrow>
     (\<exists>r \<in> set rows. \<exists>m \<in> set models. ep_resident r \<and> mr_id m = ep_model_id r \<and> e = entry_of r m)"
  by (auto simp: residents_def)

lemma entry_of_fields [simp]:
  "re_residency_id (entry_of r m) = ep_id r" "re_model_id (entry_of r m) = mr_id m" "re_gpu_index (entry_of r m) = ep_gpu_index r"
  by (simp_all add: entry_of_def)

definition evictable :: "provider_control \<Rightarrow> string set \<Rightarrow> ResidentEntry \<Rightarrow> bool" where
  "evictable pc in_use e \<longleftrightarrow> re_model_id e \<notin> in_use \<and> \<not> unload_raises pc e"

definition freed :: "int option \<Rightarrow> ResidentEntry list \<Rightarrow> int option" where
  "freed free es = map_option (\<lambda>f. f + sum_list (List.map_filter re_vram_bytes es)) free"

lemma freed_simps [simp]:
  "freed free [] = free"
  "freed (add_free free (re_vram_bytes e)) es = freed free (e # es)"
  by (cases free; cases "re_vram_bytes e"; simp add: freed_def add_free_def map_filter_simps)+

text \<open>The eviction loop stops at the first resident at which nothing more has to go.\<close>

lemma evict_for_take:
  "\<exists>k \<le> length es. \<exists>gone. gone = filter (evictable pc in_use) (take k es) \<and>
     evict_for pc rs in_use required headroom why now n es (evicted, free, rows) =
       (evicted @ map re_canonical_id gone, freed free gone, fold (\<lambda>e. close_episode (re_residency_id e) now why) gone rows) \<and>
     (k < length es \<longrightarrow> int n - int (length evicted + length gone) < max_resident_models rs \<and> \<not> no_room required headroom (freed free gone))"
proof (induction es arbitrary: evicted free rows)
  case (Cons e es)
  let ?stop = "\<not> (int n - int (length evicted) \<ge> max_resident_models rs \<or> no_room required headroom free)"
  show ?case
  proof (cases ?stop)
    case True
    then show ?thesis by (intro exI [of _ 0]) auto
  next
    case go: False
    show ?thesis
    proof (cases "evictable pc in_use e")
      case True
      let ?free = "add_free free (re_vram_bytes e)"
      obtain k gone where k: "k \<le> length es" "gone = filter (evictable pc in_use) (take k es)"
        "evict_for pc rs in_use required headroom why now n es (evicted @ [re_canonical_id e], ?free, close_episode (re_residency_id e) now why rows) =
          (evicted @ re_canonical_id e # map re_canonical_id gone, freed free (e # gone),
           fold (\<lambda>e. close_episode (re_residency_id e) now why) gone (close_episode (re_residency_id e) now why rows))"
        "k < length es \<longrightarrow> int n - int (length evicted + 1 + length gone) < max_resident_models rs \<and> \<not> no_room required headroom (freed free (e # gone))"
        using Cons.IH [of "evicted @ [re_canonical_id e]" ?free "close_episode (re_residency_id e) now why rows"] by auto
      have "evict_for pc rs in_use required headroom why now n (e # es) (evicted, free, rows) =
          evict_for pc rs in_use required headroom why now n es (evicted @ [re_canonical_id e], ?free, close_episode (re_residency_id e) now why rows)"
        using go True by (auto simp: Let_def unload_def evictable_def)
      with k True show ?thesis by (intro exI [of _ "Suc k"] conjI exI [of _ "e # gone"]) (auto simp: algebra_simps)
    next
      case False
      obtain k where k: "k \<le> length es"
        "evict_for pc rs in_use required headroom why now n es (evicted, free, rows) =
          (evicted @ map re_canonical_id (filter (evictable pc in_use) (take k es)), freed free (filter (evictable pc in_use) (take k es)),
           fold (\<lambda>e. close_episode (re_residency_id e) now why) (filter (evictable pc in_use) (take k es)) rows)"
        "k < length es \<longrightarrow> int n - int (length evicted + length (filter (evictable pc in_use) (take k es))) < max_resident_models rs \<and>
          \<not> no_room required headroom (freed free (filter (evictable pc in_use) (take k es)))"
        using Cons.IH [of evicted free rows] by auto
      have "evict_for pc rs in_use required headroom why now n (e # es) (evicted, free, rows) =
          evict_for pc rs in_use required headroom why now n es (evicted, free, rows)"
        using go False by (auto simp: Let_def unload_def evictable_def)
      with k False show ?thesis by (intro exI [of _ "Suc k"]) auto
    qed
  qed
qed simp

lemma evict_each_filter:
  "evict_each pc idle now es (unloaded, rows) =
     (let gone = filter (\<lambda>e. idle e \<and> \<not> unload_raises pc e) es in
      (unloaded @ map re_canonical_id gone, fold (\<lambda>e. close_episode (re_residency_id e) now ''idle'') gone rows))"
  by (induction es arbitrary: unloaded rows) (auto simp: Let_def unload_def)

text \<open>A resident entry comes from one open episode of its model.\<close>

lemma on_device_not_loaded:
  assumes "\<not> loaded_on models rows g m" "m \<in> mr_id ` set models" "r \<in> set rows" "ep_resident r" "ep_gpu_index r = g"
  shows "ep_model_id r \<noteq> m"
proof
  assume eq: "ep_model_id r = m"
  then obtain k where k: "k \<in> set models" "mr_id k = ep_model_id r" using assms(2) by auto
  then have "entry_of r k \<in> set (on_device models rows g)" using assms(3-5) by (auto simp: set_residents on_device_def)
  then have "re_model_id (entry_of r k) \<in> re_model_id ` set (on_device models rows g)" by (rule imageI)
  then show False using assms(1) eq k(2) by (simp add: loaded_on_def)
qed

subsection \<open>The policy\<close>

lemma load_onto_loaded:
  assumes "load_onto pc lr g new_id now evicted rows = Inr (o', rows')" "load_error pc = None"
  shows "lo_loaded o' \<and> lo_evicted o' = evicted \<and>
    (\<exists>e. rows' = rows @ [e] \<and> ep_model_id e = lr_model_id lr \<and> ep_gpu_index e = g \<and> ep_resident e \<and> ep_last_used_at e = now \<and> ep_unloaded_at e = None \<and>
      (\<forall>r \<in> set rows. ep_id r \<noteq> ep_id e))"
  using assms by (auto simp: load_onto_def insert_episode_def new_episode_def split: if_splits)


definition open_episode :: "string \<Rightarrow> string \<Rightarrow> int \<Rightarrow> instant \<Rightarrow> Episode" where
  "open_episode i m g used = new_episode i m None [] g used (Some 1000)"

definition model_row :: "string \<Rightarrow> ModelRow" where
  "model_row m = \<lparr>mr_id = m, mr_canonical_id = m, mr_provider_kind = ''ollama'', mr_provider_model_name = m, mr_artifact_digest = None\<rparr>"

definition willing_provider :: provider_control where
  "willing_provider = \<lparr>is_manageable = True, can_query = False, load_error = None, unload_raises = (\<lambda>_. False), reported = None\<rparr>"

definition loading_c :: load_request where
  "loading_c = \<lparr>lr_model_id = ''c'', lr_canonical_id = ''c'', lr_model_name = ''c'', lr_gpu_index = Some 0, lr_required_bytes = None,
     lr_free_bytes = None, lr_headroom_bytes = 0, lr_adapter_id = None, lr_adapter_key = []\<rparr>"


subsection \<open>The invariant of the table\<close>

definition opened :: "Episode list \<Rightarrow> (string \<times> int) list" where
  "opened rows = map (\<lambda>r. (ep_model_id r, ep_gpu_index r)) (filter ep_resident rows)"

definition episodes_ok :: "ModelRow list \<Rightarrow> Episode list \<Rightarrow> bool" where
  "episodes_ok models rows \<longleftrightarrow> distinct (map ep_id rows) \<and> (\<forall>r \<in> set rows. ep_resident r \<longleftrightarrow> ep_unloaded_at r = None) \<and>
     (\<forall>r \<in> set rows. ep_model_id r \<in> mr_id ` set models) \<and> distinct (opened rows)"

text \<open>Every operation on the table; the store's foreign key is the premise of a load.\<close>

inductive residency_step :: "ModelRow list \<Rightarrow> Episode list \<Rightarrow> Episode list \<Rightarrow> bool" for models where
  loading: "ensure_loaded pc rs models lr in_use new_id now rows = Inr (o', rows') \<Longrightarrow> lr_model_id lr \<in> mr_id ` set models \<Longrightarrow>
    residency_step models rows rows'"
| using_it: "record_use m g now adapter akey rows = Inr rows' \<Longrightarrow> residency_step models rows rows'"
| idling: "evict_idle pc rs models now in_use rows = (names, rows') \<Longrightarrow> residency_step models rows rows'"
| syncing: "residency_step models rows (sync_residency pc models now rows)"

lemma opened_close: "opened (map (\<lambda>r. if P r then closing now why r else r) rows) =
    opened (filter (\<lambda>r. \<not> P r) rows)"
  by (induction rows) (auto simp: opened_def)

lemma distinct_opened_filter: "distinct (opened rows) \<Longrightarrow> distinct (opened (filter P rows))"
  unfolding opened_def filter_filter
  by (metis (no_types, lifting) distinct_map_filter filter_filter filter_cong)

lemma episodes_ok_close:
  assumes "episodes_ok models rows"
  shows "episodes_ok models (fold (\<lambda>e. close_episode (re_residency_id e) now why) es rows)"
proof -
  let ?f = "\<lambda>r. if ep_id r \<in> re_residency_id ` set es then closing now why r else r"
  have "map ep_id (map ?f rows) = map ep_id rows" by simp
  then have "distinct (map ep_id (map ?f rows))" using assms by (simp only: episodes_ok_def)
  moreover have "distinct (opened (map ?f rows))"
    unfolding opened_close using assms by (intro distinct_opened_filter) (simp add: episodes_ok_def)
  moreover have "\<forall>r \<in> set (map ?f rows). (ep_resident r \<longleftrightarrow> ep_unloaded_at r = None) \<and> ep_model_id r \<in> mr_id ` set models"
    using assms by (auto simp: episodes_ok_def)
  ultimately show ?thesis unfolding fold_close episodes_ok_def by blast
qed

lemma episodes_ok_use: "episodes_ok models rows \<Longrightarrow> record_use m g now adapter akey rows = Inr rows' \<Longrightarrow> episodes_ok models rows'"
proof -
  assume ok: "episodes_ok models rows" and use: "record_use m g now adapter akey rows = Inr rows'"
  let ?f = "\<lambda>r. if ep_model_id r = m \<and> ep_gpu_index r = g \<and> ep_resident r then r\<lparr>ep_last_used_at := now, ep_adapter_id := adapter, ep_adapter_key := akey\<rparr> else r"
  have rows': "rows' = map ?f rows" using use by (simp add: record_use_def Let_def split: if_splits)
  have "opened (map ?f rows) = opened rows" by (induction rows) (auto simp: opened_def)
  moreover have "map ep_id (map ?f rows) = map ep_id rows" by simp
  moreover have "\<forall>r \<in> set (map ?f rows). (ep_resident r \<longleftrightarrow> ep_unloaded_at r = None) \<and> ep_model_id r \<in> mr_id ` set models"
    using ok by (auto simp: episodes_ok_def)
  ultimately show ?thesis using ok unfolding rows' episodes_ok_def by (metis (no_types, lifting))
qed

lemma record_use_total: "episodes_ok models rows \<Longrightarrow> \<exists>rows'. record_use m g now adapter akey rows = Inr rows'"
proof -
  assume "episodes_ok models rows"
  then have "distinct (opened (filter (\<lambda>r. ep_model_id r = m \<and> ep_gpu_index r = g) rows))" by (intro distinct_opened_filter) (simp add: episodes_ok_def)
  moreover have "opened (filter (\<lambda>r. ep_model_id r = m \<and> ep_gpu_index r = g) rows) =
      replicate (length (filter (\<lambda>r. ep_model_id r = m \<and> ep_gpu_index r = g \<and> ep_resident r) rows)) (m, g)"
    by (induction rows) (auto simp: opened_def)
  moreover have "distinct (replicate n x) \<Longrightarrow> n \<le> 1" for n :: nat and x :: "string \<times> int"
    by (cases n; cases "n - 1") auto
  ultimately have "length (filter (\<lambda>r. ep_model_id r = m \<and> ep_gpu_index r = g \<and> ep_resident r) rows) \<le> 1" by simp
  then show ?thesis by (simp add: record_use_def Let_def)
qed

lemma episodes_ok_load:
  assumes ok: "episodes_ok models rows" and run: "ensure_loaded pc rs models lr in_use new_id now rows = Inr (o', rows')"
    and known: "lr_model_id lr \<in> mr_id ` set models"
  shows "episodes_ok models rows'"
proof (cases "is_manageable pc \<and> lr_gpu_index lr \<noteq> None")
  case False
  then show ?thesis using ok run by (auto simp: ensure_loaded_def split: if_splits option.splits)
next
  case True
  then obtain g where g: "lr_gpu_index lr = Some g" by blast
  show ?thesis
  proof (cases "loaded_on models rows g (lr_model_id lr)")
    case hit: True
    then show ?thesis using ok run True g by (auto simp: ensure_loaded_def bind_result_Inr_iff intro: episodes_ok_use)
  next
    case miss: False
    obtain evicted free mid where mid: "evict_for pc rs in_use (lr_required_bytes lr) (lr_headroom_bytes lr) (''evicted_for:'' @ lr_canonical_id lr) now
        (length (on_device models rows g)) (on_device models rows g) ([], lr_free_bytes lr, rows) = (evicted, free, mid)" by (metis prod_cases3)
    from evict_for_take [of "on_device models rows g" pc in_use rs "lr_required_bytes lr" "lr_headroom_bytes lr" "''evicted_for:'' @ lr_canonical_id lr"
        now "length (on_device models rows g)" "[]" "lr_free_bytes lr" rows]
    obtain gone :: "ResidentEntry list" where m: "mid = fold (\<lambda>e. close_episode (re_residency_id e) now (''evicted_for:'' @ lr_canonical_id lr)) gone rows"
      unfolding mid prod.inject by blast
    have okm: "episodes_ok models mid" unfolding m by (rule episodes_ok_close [OF ok])
    have load: "load_onto pc lr g new_id now evicted mid = Inr (o', rows')" using run True g miss mid by (simp add: ensure_loaded_def)
    show ?thesis
    proof (cases "load_error pc")
      case None
      from load_onto_loaded [OF load None] obtain e where e: "rows' = mid @ [e]" "ep_model_id e = lr_model_id lr" "ep_gpu_index e = g" "ep_resident e"
        "ep_unloaded_at e = None" "\<forall>r \<in> set mid. ep_id r \<noteq> ep_id e" by blast
      have "ep_model_id r \<noteq> lr_model_id lr" if "r \<in> set mid" "ep_resident r" "ep_gpu_index r = g" for r
        using on_device_not_loaded [OF miss known] that unfolding m fold_close by (auto split: if_splits)
      then have "distinct (opened rows')" using okm e by (auto simp: episodes_ok_def opened_def)
      then show ?thesis using okm e known by (auto simp: episodes_ok_def)
    qed (use load okm in \<open>simp add: load_onto_def\<close>)
  qed
qed

lemma episodes_ok_step: "residency_step models rows rows' \<Longrightarrow> episodes_ok models rows \<Longrightarrow> episodes_ok models rows'"
proof (induction rule: residency_step.induct)
  case (idling pc rs now in_use rows names rows')
  then show ?case
    by (auto simp: evict_idle_def evict_each_filter Let_def split: if_splits intro: episodes_ok_close)
next
  case (syncing rows pc now)
  then show ?case by (auto simp: sync_residency_def split: option.splits bool.splits intro: episodes_ok_close)
qed (auto intro: episodes_ok_load episodes_ok_use)



end
