(* ===== verification/Retention.thy ===== *)
theory Retention
  imports Job_Queue
begin

section \<open>Content retention\<close>

text \<open>
  Models \<^verbatim>\<open>src/src/loadcoach/services/retention.py\<close>: the sweep that removes the text of jobs finished
  before the retention and keeps their hashes, counters and routing. \<open>rfc\<close> prints the instant of the sweep
  (a function of the suite's core package). The column \<open>prompt_text\<close>, which no code writes, is left out.
  Rows that finished at the same instant are taken in table order, which SQL leaves open.
\<close>

definition SCRUBBED_MARKER :: string where
  "SCRUBBED_MARKER = ''content_scrubbed_at''"

definition SCRUBBED_EVENT_KEYS :: "string list" where
  "SCRUBBED_EVENT_KEYS = [''output'', ''reasoning'']"

record RetentionOutcome =
  scrubbed_jobs :: int
  scrubbed_events :: int
  ro_cutoff :: instant

definition request_of :: "Job \<Rightarrow> json_obj" where
  "request_of j = (case request_json j of None \<Rightarrow> [] | Some d \<Rightarrow> d)"

definition is_scrubbed :: "Job \<Rightarrow> bool" where
  "is_scrubbed j \<longleftrightarrow> SCRUBBED_MARKER \<in> fst ` set (request_of j)"

definition scrub_due :: "instant \<Rightarrow> Job \<Rightarrow> bool" where
  "scrub_due cutoff j \<longleftrightarrow> job_state j \<in> TERMINAL_STATES \<and> (case completed_at j of None \<Rightarrow> False | Some t \<Rightarrow> t \<le> cutoff)"

definition scrub_job :: "(instant \<Rightarrow> string) \<Rightarrow> instant \<Rightarrow> Job \<Rightarrow> Job" where
  "scrub_job rfc now j =
     j\<lparr>request_json := Some (AList.update SCRUBBED_MARKER (JStr (rfc now))
          (AList.delete ''tools'' (AList.delete ''system'' (AList.delete ''prompt'' (AList.delete ''messages'' (request_of j)))))),
       job_result := (job_result j)\<lparr>response_text := None, structured_output_json := JNull, tool_calls_json := JNull, reasoning_summary := None\<rparr>\<rparr>"

definition scrubs_event :: "string \<Rightarrow> JobEvent \<Rightarrow> bool" where
  "scrubs_event i e \<longleftrightarrow> je_job_id e = i \<and> je_type e \<in> {''result'', ''job.completed''} \<and>
     list_ex (\<lambda>k. k \<in> fst ` set (je_data e)) SCRUBBED_EVENT_KEYS"

definition scrub_event :: "(instant \<Rightarrow> string) \<Rightarrow> instant \<Rightarrow> JobEvent \<Rightarrow> JobEvent" where
  "scrub_event rfc now e =
     e\<lparr>je_data := AList.update SCRUBBED_MARKER (JStr (rfc now)) (filter (\<lambda>(k, _). k \<notin> set SCRUBBED_EVENT_KEYS) (je_data e))\<rparr>"

definition scrub_one :: "(instant \<Rightarrow> string) \<Rightarrow> instant \<Rightarrow> string \<Rightarrow> World \<Rightarrow> World" where
  "scrub_one rfc now i w =
     w\<lparr>jobs := update_where (\<lambda>j. job_id j = i) (scrub_job rfc now) (jobs w),
       job_events := update_where (scrubs_event i) (scrub_event rfc now) (job_events w)\<rparr>"

fun scrub_loop :: "(instant \<Rightarrow> string) \<Rightarrow> instant \<Rightarrow> int \<Rightarrow> Job list \<Rightarrow> int \<times> int \<times> World \<Rightarrow> int \<times> int \<times> World" where
  "scrub_loop rfc now batch [] st = st"
| "scrub_loop rfc now batch (j # js) (n, e, w) =
     (if is_scrubbed j then scrub_loop rfc now batch js (n, e, w)
      else if n \<ge> batch then (n, e, w)
      else scrub_loop rfc now batch js
        (n + 1, e + int (length (filter (scrubs_event (job_id j)) (job_events w))), scrub_one rfc now (job_id j) w))"

definition due_rows :: "instant \<Rightarrow> World \<Rightarrow> Job list" where
  "due_rows cutoff w = sort_key (\<lambda>j. the (completed_at j)) (filter (scrub_due cutoff) (jobs w))"

definition scrub_content :: "(instant \<Rightarrow> string) \<Rightarrow> instant \<Rightarrow> int \<Rightarrow> nat \<Rightarrow> World \<Rightarrow> RetentionOutcome \<times> World" where
  "scrub_content rfc now retention_hours batch w =
     (let cutoff = now - retention_hours * 3600000000 in
      (case scrub_loop rfc now (int batch) (take (batch * 4) (due_rows cutoff w)) (0, 0, w) of
         (n, e, w') \<Rightarrow> (\<lparr>scrubbed_jobs = n, scrubbed_events = e, ro_cutoff = cutoff\<rparr>, w')))"

subsection \<open>What a sweep touches\<close>

lemma scrub_job_fields [simp]: "job_id (scrub_job rfc now j) = job_id j" "is_scrubbed (scrub_job rfc now j)"
  by (simp_all add: scrub_job_def is_scrubbed_def request_of_def dom_update)

definition scrub_all :: "(instant \<Rightarrow> string) \<Rightarrow> instant \<Rightarrow> string list \<Rightarrow> World \<Rightarrow> World" where
  "scrub_all rfc now ids w = fold (scrub_one rfc now) ids w"

lemma scrub_all_tables:
  assumes "distinct ids"
  shows "jobs (scrub_all rfc now ids w) = map (\<lambda>j. if job_id j \<in> set ids then scrub_job rfc now j else j) (jobs w)"
    "job_events (scrub_all rfc now ids w) =
       map (\<lambda>e. if je_job_id e \<in> set ids \<and> scrubs_event (je_job_id e) e then scrub_event rfc now e else e) (job_events w)"
    "job_attempts (scrub_all rfc now ids w) = job_attempts w"
  using assms
proof (induction ids arbitrary: w)
  case (Cons i ids)
  have kept: "je_job_id (scrub_event rfc now e) = je_job_id e" for e by (simp add: scrub_event_def)
  { case 1
    show ?case unfolding scrub_all_def fold_simps(2)
      using Cons.IH(1) [of "scrub_one rfc now i w"] 1
      by (auto simp: scrub_all_def scrub_one_def update_where_def) }
  { case 2
    show ?case unfolding scrub_all_def fold_simps(2)
      using Cons.IH(2) [of "scrub_one rfc now i w"] 2
      by (auto simp: scrub_all_def scrub_one_def update_where_def kept) (auto simp: scrubs_event_def) }
  { case 3
    show ?case using Cons.IH(3) [of "scrub_one rfc now i w"] 3 by (simp add: scrub_all_def scrub_one_def) }
qed (simp_all add: scrub_all_def)

definition picked :: "int \<Rightarrow> Job list \<Rightarrow> string list" where
  "picked room js = map job_id (take (nat room) (filter (\<lambda>j. \<not> is_scrubbed j) js))"

lemma scrub_loop_picked:
  "n \<le> b \<Longrightarrow> \<exists>e'. scrub_loop rfc now b js (n, e, w) = (n + int (length (picked (b - n) js)), e', scrub_all rfc now (picked (b - n) js) w)"
proof (induction js arbitrary: n e w)
  case (Cons j js)
  show ?case
  proof (cases "is_scrubbed j")
    case True
    then show ?thesis using Cons by (simp add: picked_def)
  next
    case False
    show ?thesis
    proof (cases "n = b")
      case False
      with Cons.prems have "nat (b - n) = Suc (nat (b - (n + 1)))" "n + 1 \<le> b" by simp_all
      moreover obtain e' where "scrub_loop rfc now b js (n + 1, e + int (length (filter (scrubs_event (job_id j)) (job_events w))), scrub_one rfc now (job_id j) w) =
          (n + 1 + int (length (picked (b - (n + 1)) js)), e', scrub_all rfc now (picked (b - (n + 1)) js) (scrub_one rfc now (job_id j) w))"
        using Cons.IH [OF \<open>n + 1 \<le> b\<close>] by blast
      ultimately show ?thesis using \<open>\<not> is_scrubbed j\<close> False Cons.prems by (simp add: picked_def scrub_all_def)
    qed (use False in \<open>simp add: picked_def scrub_all_def\<close>)
  qed
qed (simp add: picked_def scrub_all_def)

lemma due_rows_set: "set (due_rows cutoff w) = {j \<in> set (jobs w). scrub_due cutoff j}"
  by (auto simp: due_rows_def)

lemma distinct_picked:
  assumes "distinct (map job_id (jobs w))"
  shows "distinct (picked room (take k (due_rows cutoff w)))"
proof -
  have "distinct (map job_id (due_rows cutoff w))"
    unfolding due_rows_def using assms by (simp add: distinct_map distinct_map_filter) (auto simp: inj_on_def)
  then show ?thesis unfolding picked_def by (metis distinct_map_filter distinct_take take_map)
qed

lemma scrub_content_tables:
  assumes "distinct (map job_id (jobs w))"
  obtains ids e' where "ids = picked (int batch) (take (batch * 4) (due_rows (now - hours * 3600000000) w))" "distinct ids"
    "scrub_content rfc now hours batch w = (\<lparr>scrubbed_jobs = int (length ids), scrubbed_events = e', ro_cutoff = now - hours * 3600000000\<rparr>, scrub_all rfc now ids w)"
proof -
  let ?js = "take (batch * 4) (due_rows (now - hours * 3600000000) w)"
  obtain e' where "scrub_loop rfc now (int batch) ?js (0, 0, w) = (0 + int (length (picked (int batch - 0) ?js)), e', scrub_all rfc now (picked (int batch - 0) ?js) w)"
    using scrub_loop_picked [of 0 "int batch" rfc now ?js 0 w] by auto
  then show thesis using that [OF refl distinct_picked [OF assms]] by (simp add: scrub_content_def Let_def)
qed

definition text_removed :: "Job \<Rightarrow> bool" where
  "text_removed j \<longleftrightarrow> is_scrubbed j \<and> {''messages'', ''prompt'', ''system'', ''tools''} \<inter> fst ` set (request_of j) = {} \<and>
     response_text (job_result j) = None \<and> structured_output_json (job_result j) = JNull \<and> tool_calls_json (job_result j) = JNull \<and>
     reasoning_summary (job_result j) = None"

lemma marker_other: "SCRUBBED_MARKER \<notin> {''messages'', ''prompt'', ''system'', ''tools''}"
  by (simp add: SCRUBBED_MARKER_def)

lemma keys_delete: "fst ` set (AList.delete k al) = fst ` set al - {k}"
  using delete_keys [of k al] by (metis list.set_map set_removeAll)

lemma scrub_job_removes: "text_removed (scrub_job rfc now j)"
proof -
  have "fst ` set (request_of (scrub_job rfc now j)) = insert SCRUBBED_MARKER (fst ` set (request_of j) - {''messages'', ''prompt'', ''system'', ''tools''})"
    by (auto simp: scrub_job_def request_of_def dom_update keys_delete)
  then show ?thesis using marker_other by (auto simp: text_removed_def scrub_job_def is_scrubbed_def)
qed

text \<open>
  A sweep rewrites only jobs that are over, finished before the cutoff and were not rewritten before, at most a
  batch of them; from those it removes the transcript, the offered tools and the answer and marks them, and of
  the request it keeps every other key and of the row every other column. No other job changes, no event
  is added, removed or reordered, and only result and completion events of those jobs lose their text.
\<close>

theorem scrub_finished_only:
  assumes "distinct (map job_id (jobs w))" "scrub_content rfc now hours batch w = (o', w')"
  shows "\<exists>ids. scrubbed_jobs o' = int (length ids) \<and> length ids \<le> batch \<and>
    (\<forall>i \<in> set ids. \<exists>j \<in> set (jobs w). job_id j = i \<and> job_state j \<in> TERMINAL_STATES \<and> \<not> is_scrubbed j \<and>
       (\<exists>t. completed_at j = Some t \<and> t \<le> now - hours * 3600000000)) \<and>
    (\<forall>j \<in> set (jobs w). job_id j \<in> set ids \<longrightarrow> text_removed (scrub_job rfc now j) \<and>
       (\<forall>k. k \<notin> {''messages'', ''prompt'', ''system'', ''tools'', SCRUBBED_MARKER} \<longrightarrow> map_of (request_of (scrub_job rfc now j)) k = map_of (request_of j) k)) \<and>
    jobs w' = map (\<lambda>j. if job_id j \<in> set ids then scrub_job rfc now j else j) (jobs w) \<and>
    job_events w' = map (\<lambda>e. if je_job_id e \<in> set ids \<and> scrubs_event (je_job_id e) e then scrub_event rfc now e else e) (job_events w) \<and>
    job_attempts w' = job_attempts w"
proof -
  let ?cut = "now - hours * 3600000000"
  obtain ids e' where ids: "ids = picked (int batch) (take (batch * 4) (due_rows ?cut w))" "distinct ids"
    "scrub_content rfc now hours batch w = (\<lparr>scrubbed_jobs = int (length ids), scrubbed_events = e', ro_cutoff = ?cut\<rparr>, scrub_all rfc now ids w)"
    by (rule scrub_content_tables [OF assms(1)])
  have "\<exists>j \<in> set (jobs w). job_id j = i \<and> job_state j \<in> TERMINAL_STATES \<and> \<not> is_scrubbed j \<and> (\<exists>t. completed_at j = Some t \<and> t \<le> ?cut)"
    if "i \<in> set ids" for i
  proof -
    from that obtain j where "j \<in> set (due_rows ?cut w)" "\<not> is_scrubbed j" "job_id j = i"
      unfolding ids(1) picked_def by (auto dest!: in_set_takeD)
    then show ?thesis by (auto simp: due_rows_set scrub_due_def split: option.splits)
  qed
  moreover have "map_of (request_of (scrub_job rfc now j)) k = map_of (request_of j) k"
    if "k \<notin> {''messages'', ''prompt'', ''system'', ''tools'', SCRUBBED_MARKER}" for j k
    using that by (simp add: scrub_job_def request_of_def update_conv delete_conv')
  moreover have "length ids \<le> batch" by (simp add: ids(1) picked_def)
  ultimately show ?thesis
    using assms(2) ids(3) scrub_all_tables [OF ids(2)] scrub_job_removes by (intro exI [of _ ids]) auto
qed

definition finished_job :: "string \<Rightarrow> instant \<Rightarrow> json_obj \<Rightarrow> Job" where
  "finished_job i t request = (plain_job i COMPLETED)\<lparr>completed_at := Some t, request_json := Some request\<rparr>"

theorem scrub_finished_only_witness:
  "jobs (snd (scrub_content (\<lambda>_. ''t'') 7200000001 2 500
     (world_of [finished_job ''a'' 1 [(''messages'', JList []), (''task'', JStr ''t'')], plain_job ''b'' QUEUED]))) ! 1 = plain_job ''b'' QUEUED"
proof -
  let ?w = "world_of [finished_job ''a'' 1 [(''messages'', JList []), (''task'', JStr ''t'')], plain_job ''b'' QUEUED]"
  obtain o' w' where run: "scrub_content (\<lambda>_. ''t'') 7200000001 2 500 ?w = (o', w')" by fastforce
  have "distinct (map job_id (jobs ?w))" by (simp add: finished_job_def)
  from scrub_finished_only [OF this run] obtain ids where
    ids: "\<forall>i \<in> set ids. \<exists>j \<in> set (jobs ?w). job_id j = i \<and> job_state j \<in> TERMINAL_STATES \<and> \<not> is_scrubbed j \<and> (\<exists>t. completed_at j = Some t \<and> t \<le> 7200000001 - 2 * 3600000000)"
    "jobs w' = map (\<lambda>j. if job_id j \<in> set ids then scrub_job (\<lambda>_. ''t'') 7200000001 j else j) (jobs ?w)" by blast
  have "''b'' \<notin> set ids" using ids(1) by (auto simp: finished_job_def state_set_defs)
  then show ?thesis using ids(2) run by simp
qed

subsection \<open>When the sweep stops\<close>

lemma insort_low: "\<forall>z \<in> set zs. f a \<le> f z \<Longrightarrow> insort_key f a (ys @ zs) = insort_key f a ys @ zs"
  by (induction ys) (auto simp: insort_is_Cons)

lemma insort_high: "\<forall>y \<in> set ys. f y < f a \<Longrightarrow> insort_key f a (ys @ zs) = ys @ insort_key f a zs"
  by (induction ys) auto

lemma sort_key_split:
  "sort_key f xs = sort_key f (filter (\<lambda>x. f x \<le> c) xs) @ sort_key f (filter (\<lambda>x. \<not> f x \<le> c) xs)" for c :: "'b :: linorder"
proof (induction xs)
  case (Cons a xs)
  show ?case
  proof (cases "f a \<le> c")
    case True
    then have "\<forall>z \<in> set (sort_key f (filter (\<lambda>x. \<not> f x \<le> c) xs)). f a \<le> f z" by auto
    then show ?thesis using Cons True by (simp add: insort_low)
  next
    case False
    then have "\<forall>y \<in> set (sort_key f (filter (\<lambda>x. f x \<le> c) xs)). f y < f a" by auto
    then show ?thesis using Cons False by (simp add: insort_high)
  qed
qed simp

text \<open>Rows that finish after the cutoff come after those that finished before it.\<close>

lemma due_rows_later:
  assumes "cutoff \<le> later" "jobs w' = jobs w @ new" "\<forall>j \<in> set new. scrub_due later j \<longrightarrow> cutoff < the (completed_at j)"
  shows "\<exists>rest. due_rows later w' = due_rows cutoff w @ rest"
proof -
  let ?t = "\<lambda>j. the (completed_at j)"
  have "filter (\<lambda>j. ?t j \<le> cutoff) (filter (scrub_due later) (jobs w')) = filter (scrub_due cutoff) (jobs w)"
    using assms by (auto simp: scrub_due_def not_le [symmetric] filter_empty_conv intro!: filter_cong split: option.splits)
  then show ?thesis unfolding due_rows_def by (subst sort_key_split [of _ _ cutoff]) simp
qed

text \<open>
  C38. Once the four batches of oldest finished jobs are rewritten ones, no sweep ever rewrites a job again,
  whatever finishes afterwards and however long it is kept: the sweep selects those same rows first and
  skips them all.
\<close>

theorem scrub_stalls:
  assumes "length (due_rows (now - hours * 3600000000) w) \<ge> batch * 4"
    and "\<forall>j \<in> set (take (batch * 4) (due_rows (now - hours * 3600000000) w)). is_scrubbed j"
    and "now \<le> later" "jobs w' = jobs w @ new" "\<forall>j \<in> set new. scrub_due (later - hours * 3600000000) j \<longrightarrow> now - hours * 3600000000 < the (completed_at j)"
  shows "scrub_content rfc later hours batch w' =
    (\<lparr>scrubbed_jobs = 0, scrubbed_events = 0, ro_cutoff = later - hours * 3600000000\<rparr>, w')"
proof -
  let ?c = "now - hours * 3600000000" and ?l = "later - hours * 3600000000"
  have "?c \<le> ?l" using assms(3) by simp
  from due_rows_later [OF this assms(4,5)] obtain rest where "due_rows ?l w' = due_rows ?c w @ rest" by blast
  then have same: "take (batch * 4) (due_rows ?l w') = take (batch * 4) (due_rows ?c w)" using assms(1) by simp
  have skip: "\<forall>j \<in> set js. is_scrubbed j \<Longrightarrow> scrub_loop rfc later b js st = st" for js b st
    by (induction js) (auto simp: split_paired_all, (cases st; simp)+)
  show ?thesis unfolding scrub_content_def Let_def same skip [OF assms(2)] by simp
qed

theorem scrub_stalls_witness:
  "let done = finished_job ''a'' 1 [(SCRUBBED_MARKER, JStr ''t'')]; w' = world_of ([done, done\<lparr>job_id := ''b''\<rparr>, done\<lparr>job_id := ''c''\<rparr>, done\<lparr>job_id := ''d''\<rparr>] @
       [finished_job ''e'' 10 [(''messages'', JList [])]]) in
   snd (scrub_content (\<lambda>_. ''t'') 99 0 1 w') = w' \<and> \<not> is_scrubbed (last (jobs w')) \<and> scrub_due 99 (last (jobs w'))"
proof -
  let ?d = "finished_job ''a'' 1 [(SCRUBBED_MARKER, JStr ''t'')]"
  let ?old = "[?d, ?d\<lparr>job_id := ''b''\<rparr>, ?d\<lparr>job_id := ''c''\<rparr>, ?d\<lparr>job_id := ''d''\<rparr>]" and ?new = "[finished_job ''e'' 10 [(''messages'', JList [])]]"
  have due: "due_rows 5 (world_of ?old) = ?old"
    by (simp add: due_rows_def scrub_due_def finished_job_def state_set_defs)
  have "scrub_content (\<lambda>_. ''t'') 99 0 1 (world_of (?old @ ?new)) = (\<lparr>scrubbed_jobs = 0, scrubbed_events = 0, ro_cutoff = 99 - 0 * 3600000000\<rparr>, world_of (?old @ ?new))"
    by (rule scrub_stalls [of 1 5 0 "world_of ?old" 99 "world_of (?old @ ?new)" ?new])
       (simp_all add: due [simplified] is_scrubbed_def request_of_def, simp_all add: finished_job_def)
  then show ?thesis
    by (simp add: Let_def is_scrubbed_def request_of_def finished_job_def SCRUBBED_MARKER_def scrub_due_def state_set_defs)
qed

end
