(* ===== verification/Runtime_Settings.thy ===== *)
theory Runtime_Settings
  imports Job_Queue
begin

section \<open>Settings that may change while the server runs\<close>

text \<open>
  Models \<^verbatim>\<open>src/src/loadcoach/services/settings.py\<close> and \<open>env_var_for\<close> of \<^verbatim>\<open>src/src/loadcoach/config.py\<close>: the registry of
  runtime-changeable keys, the check of a value against its kind and bounds, the precedence between the
  stored rows, the environment and the configuration, the write path and the document of \<open>GET /settings\<close>.
  The process environment is the set of variable names that are set, the loaded configuration the values
  of its leaves. Values are JSON; numbers beyond the range of a double, and NaN, are not modelled.
\<close>

datatype setting_kind = KBool | KInt | KFloat

record RuntimeSetting =
  setting_key :: string
  setting_kind :: setting_kind
  setting_minimum :: "rat option"
  setting_maximum :: "rat option"

datatype setting_error = NotBoolean string | NotANumber string | NotWhole string | OutOfBounds string "rat option" "rat option"

definition kind_name :: "setting_kind \<Rightarrow> string" where
  "kind_name k = (case k of KBool \<Rightarrow> ''bool'' | KInt \<Rightarrow> ''int'' | KFloat \<Rightarrow> ''float'')"

definition outside_bounds :: "RuntimeSetting \<Rightarrow> rat \<Rightarrow> bool" where
  "outside_bounds rs x \<longleftrightarrow> (case setting_minimum rs of None \<Rightarrow> False | Some m \<Rightarrow> x < m) \<or> (case setting_maximum rs of None \<Rightarrow> False | Some m \<Rightarrow> m < x)"

definition coerce_number :: "RuntimeSetting \<Rightarrow> rat \<Rightarrow> int \<Rightarrow> setting_error + json" where
  "coerce_number rs as_float as_integer =
     (let number = (if setting_kind rs = KInt then of_int as_integer else as_float) in
      if setting_kind rs = KInt \<and> as_float \<noteq> number then Inl (NotWhole (setting_key rs))
      else if outside_bounds rs number then Inl (OutOfBounds (setting_key rs) (setting_minimum rs) (setting_maximum rs))
      else Inr (if setting_kind rs = KInt then JInt as_integer else JFloat as_float))"

definition coerce :: "RuntimeSetting \<Rightarrow> json \<Rightarrow> setting_error + json" where
  "coerce rs v =
     (if setting_kind rs = KBool then (case v of JBool b \<Rightarrow> Inr (JBool b) | _ \<Rightarrow> Inl (NotBoolean (setting_key rs)))
      else (case v of
              JInt n \<Rightarrow> coerce_number rs (fl (of_int n)) n
            | JFloat x \<Rightarrow> coerce_number rs x (trunc x)
            | _ \<Rightarrow> Inl (NotANumber (setting_key rs))))"

definition RUNTIME_SETTINGS :: "RuntimeSetting list" where
  "RUNTIME_SETTINGS =
     (let s = (\<lambda>k kd lo hi. \<lparr>setting_key = k, setting_kind = kd, setting_minimum = lo, setting_maximum = hi\<rparr>) in
      [s ''queue.paused'' KBool None None, s ''queue.draining'' KBool None None,
       s ''routing.prefer_resident_bonus'' KFloat (Some 0) (Some 1), s ''routing.min_present_weight'' KFloat (Some 0) (Some 1),
       s ''routing.min_confidence'' KFloat (Some 0) (Some 1), s ''routing.remote_cost_factor'' KFloat (Some (fl (1 / 100))) (Some 1),
       s ''storage.content_retention_hours'' KInt (Some 0) (Some 8760)])"

definition CONFIG_ONLY_SECURITY_KEYS :: "string list" where
  "CONFIG_ONLY_SECURITY_KEYS =
     [''server.host'', ''server.port'', ''server.allow_lan_exposure'', ''server.allowed_hosts'', ''server.trusted_proxies'',
      ''providers.allow_remote'', ''provider.base_url'', ''provider.kind'', ''storage.database_url'', ''storage.retain_content'',
      ''evidence.allowed_source_hosts'', ''evidence.freeweight_url'', ''evidence.freeweight_api_key_env'',
      ''evidence.freeweight_api_key_file'', ''logging.include_content'']"

definition setting_named :: "string \<Rightarrow> RuntimeSetting option" where
  "setting_named k = find (\<lambda>s. setting_key s = k) RUNTIME_SETTINGS"

subsection \<open>Precedence\<close>

definition upper_char :: "char \<Rightarrow> char" where
  "upper_char c = (if CHR ''a'' \<le> c \<and> c \<le> CHR ''z'' then char_of (of_char c - 32 :: nat) else c)"

definition env_var_for :: "string \<Rightarrow> string option" where
  "env_var_for path =
     (case partition_dot path of
        (section_name, Some (c # cs)) \<Rightarrow>
          Some (''LOADCOACH_'' @ map upper_char section_name @ ''__'' @
            concat (map (\<lambda>x. if x = CHR ''.'' then ''__'' else [x]) (map upper_char (c # cs))))
      | _ \<Rightarrow> None)"

definition shadowing_source :: "string set \<Rightarrow> string \<Rightarrow> string option" where
  "shadowing_source env k = (case env_var_for k of Some name \<Rightarrow> if name \<in> env then Some (''env '' @ name) else None | None \<Rightarrow> None)"

definition configured :: "(string, json) dict \<Rightarrow> RuntimeSetting \<Rightarrow> json" where
  "configured conf rs = dict_get conf (setting_key rs) (JBool False)"

definition stored_settings :: "World \<Rightarrow> (string, json) dict" where
  "stored_settings w = filter (\<lambda>(k, _). k \<in> setting_key ` set RUNTIME_SETTINGS) (queue_settings_rows w)"

definition effective_setting :: "string set \<Rightarrow> (string, json) dict \<Rightarrow> World \<Rightarrow> RuntimeSetting \<Rightarrow> json" where
  "effective_setting env conf w rs =
     (case map_of (stored_settings w) (setting_key rs) of
        Some v \<Rightarrow>
          if shadowing_source env (setting_key rs) = None
          then (case coerce rs v of Inr x \<Rightarrow> x | Inl _ \<Rightarrow> configured conf rs) else configured conf rs
      | None \<Rightarrow> configured conf rs)"

definition read_runtime_settings :: "string set \<Rightarrow> (string, json) dict \<Rightarrow> World \<Rightarrow> (string, json) dict" where
  "read_runtime_settings env conf w = map (\<lambda>rs. (setting_key rs, effective_setting env conf w rs)) RUNTIME_SETTINGS"

subsection \<open>Writing\<close>

datatype settings_refusal = SettingsDenied authorization_error | SettingConfigOnly string | NotRuntimeChangeable string | BadSetting setting_error

definition check_key :: "string \<Rightarrow> settings_refusal + RuntimeSetting" where
  "check_key k =
     (if k \<in> set CONFIG_ONLY_SECURITY_KEYS then Inl (SettingConfigOnly k)
      else (case setting_named k of None \<Rightarrow> Inl (NotRuntimeChangeable k) | Some rs \<Rightarrow> Inr rs))"

definition write_runtime_settings :: "string set \<Rightarrow> (string, json) dict \<Rightarrow> Principal option \<Rightarrow> (string, json) dict \<Rightarrow> World \<Rightarrow>
    settings_refusal + ((string, json) dict \<times> World)" where
  "write_runtime_settings env conf caller changes w =
     bind_result (map_error SettingsDenied (authorize caller ''admin'')) (\<lambda>_.
     bind_result (traverse (check_key \<circ> fst) changes) (\<lambda>_.
     bind_result (traverse (\<lambda>(k, v). map_error BadSetting (map_sum id (Pair k) (coerce (the (setting_named k)) v))) changes) (\<lambda>validated.
       (let w' = w\<lparr>queue_settings_rows := fold (\<lambda>(k, v). AList.update k v) validated (queue_settings_rows w)\<rparr> in
        Inr (read_runtime_settings env conf w', w')))))"

record setting_definition =
  sd_type :: string
  sd_minimum :: "rat option"
  sd_maximum :: "rat option"
  sd_configured :: json
  sd_stored :: "json option"
  sd_source :: string
  sd_shadowed_by :: "string option"

definition define_setting :: "string set \<Rightarrow> (string, json) dict \<Rightarrow> World \<Rightarrow> RuntimeSetting \<Rightarrow> setting_definition" where
  "define_setting env conf w rs =
     (let stored = map_of (stored_settings w) (setting_key rs);
          shadowed = (if stored = None then None else shadowing_source env (setting_key rs)) in
      \<lparr>sd_type = kind_name (setting_kind rs), sd_minimum = setting_minimum rs, sd_maximum = setting_maximum rs,
       sd_configured = configured conf rs, sd_stored = stored,
       sd_source = (if stored \<noteq> None \<and> shadowed = None then ''database'' else ''configuration''), sd_shadowed_by = shadowed\<rparr>)"

definition runtime_settings_document :: "string set \<Rightarrow> (string, json) dict \<Rightarrow> World \<Rightarrow>
    (string, json) dict \<times> (string, setting_definition) dict \<times> string list" where
  "runtime_settings_document env conf w =
     (read_runtime_settings env conf w, map (\<lambda>rs. (setting_key rs, define_setting env conf w rs)) RUNTIME_SETTINGS,
      sort CONFIG_ONLY_SECURITY_KEYS)"

subsection \<open>Typing\<close>

text \<open>A value of the kind and within the bounds its key declares.\<close>

definition well_typed :: "RuntimeSetting \<Rightarrow> json \<Rightarrow> bool" where
  "well_typed rs v =
     (case (setting_kind rs, v) of
        (KBool, JBool _) \<Rightarrow> True
      | (KInt, JInt n) \<Rightarrow> \<not> outside_bounds rs (of_int n)
      | (KFloat, JFloat x) \<Rightarrow> \<not> outside_bounds rs x
      | _ \<Rightarrow> False)"

lemma coerce_well_typed: "coerce rs v = Inr x \<Longrightarrow> well_typed rs x"
  by (cases "setting_kind rs"; cases v; auto simp: coerce_def coerce_number_def well_typed_def Let_def split: if_splits)

lemma coerce_idem: "well_typed rs x \<Longrightarrow> (\<forall>n. x = JInt n \<longrightarrow> \<bar>n\<bar> \<le> 2 ^ 53) \<Longrightarrow> coerce rs x = Inr x"
  by (cases "setting_kind rs"; cases x; auto simp: coerce_def coerce_number_def well_typed_def fl_of_int Let_def split: if_splits)

lemma setting_keys: "map setting_key RUNTIME_SETTINGS = [''queue.paused'', ''queue.draining'', ''routing.prefer_resident_bonus'',
    ''routing.min_present_weight'', ''routing.min_confidence'', ''routing.remote_cost_factor'', ''storage.content_retention_hours'']"
  by (simp add: RUNTIME_SETTINGS_def Let_def)

lemma distinct_setting_keys: "distinct (map setting_key RUNTIME_SETTINGS)"
  unfolding setting_keys by simp

lemma setting_named_Some: "setting_named k = Some rs \<longleftrightarrow> rs \<in> set RUNTIME_SETTINGS \<and> setting_key rs = k"
proof -
  have inj: "rs \<in> set RUNTIME_SETTINGS \<Longrightarrow> rs' \<in> set RUNTIME_SETTINGS \<Longrightarrow> setting_key rs = setting_key rs' \<Longrightarrow> rs = rs'" for rs rs'
    using distinct_setting_keys by (auto simp: distinct_map inj_on_def)
  have found: "setting_named k = Some rs' \<Longrightarrow> rs' \<in> set RUNTIME_SETTINGS \<and> setting_key rs' = k" for rs'
    by (auto simp: setting_named_def find_Some_iff)
  moreover have "\<exists>rs'. setting_named k = Some rs'" if "rs \<in> set RUNTIME_SETTINGS" "setting_key rs = k"
    using that by (cases "setting_named k") (auto simp: setting_named_def find_None_iff)
  ultimately show ?thesis using inj by metis
qed


definition shipped_settings :: "(string, json) dict" where
  "shipped_settings = [(''routing.prefer_resident_bonus'', JFloat 0), (''routing.min_present_weight'', JFloat (1 / 2)),
     (''routing.min_confidence'', JFloat 0), (''routing.remote_cost_factor'', JFloat 1), (''storage.content_retention_hours'', JInt 24)]"

lemma shipped_typed: "\<forall>rs \<in> set RUNTIME_SETTINGS. well_typed rs (configured shipped_settings rs)"
proof -
  have "fl (1 / 100) \<le> 1" using fl_mono [of "1 / 100" 1] by simp
  then show ?thesis
    by (simp add: RUNTIME_SETTINGS_def Let_def well_typed_def configured_def dict_get_def shipped_settings_def outside_bounds_def)
qed


subsection \<open>Writing and reading back\<close>

lemma traverse_coerce:
  assumes "traverse (\<lambda>(k, v). map_error BadSetting (map_sum id (Pair k) (coerce (the (setting_named k)) v))) changes = Inr validated"
  shows "map fst validated = map fst changes \<and>
    (\<forall>k v. (k, v) \<in> set changes \<longrightarrow> (\<exists>x. (k, x) \<in> set validated \<and> coerce (the (setting_named k)) v = Inr x))"
  using assms
proof (induction changes arbitrary: validated)
  case (Cons c changes)
  then show ?case by (cases c; cases "coerce (the (setting_named (fst c))) (snd c)") (auto simp: bind_result_Inr_iff map_error_def, blast)
qed simp

lemma fold_put_pairs:
  "distinct (map fst ps) \<Longrightarrow> map_of (fold (\<lambda>(k, v). AList.update k v) ps d) k = (case map_of ps k of Some v \<Rightarrow> Some v | None \<Rightarrow> map_of d k)"
proof (induction ps arbitrary: d)
  case (Cons p ps)
  obtain a b where p: "p = (a, b)" by fastforce
  have "map_of ps a = None" using Cons.prems p by (simp add: map_of_eq_None_iff)
  then show ?case using Cons p by (simp add: update_conv split: option.split)
qed simp

lemma map_of_kept: "P k \<Longrightarrow> map_of (filter (\<lambda>(k, _). P k) xs) k = map_of xs k"
  by (induction xs) auto

lemma stored_named:
  "setting_named k = Some rs \<Longrightarrow> map_of (stored_settings w) k = map_of (queue_settings_rows w) k"
  unfolding stored_settings_def setting_named_Some by (rule map_of_kept) auto

lemma check_key_Inr: "check_key k = Inr rs \<Longrightarrow> setting_named k = Some rs"
  by (auto simp: check_key_def split: if_splits option.splits)

text \<open>
  A write is refused as a whole, changing nothing, or stores every change: reading afterwards, a changed key has
  the value written, in the kind of its key, unless an environment variable pins it, in which case it
  keeps its configured value; every other key reads as before.
\<close>

theorem settings_roundtrip:
  assumes "write_runtime_settings env conf caller changes w = Inr (eff, w')" "distinct (map fst changes)"
  shows "eff = read_runtime_settings env conf w' \<and>
    (\<forall>k v. (k, v) \<in> set changes \<longrightarrow> k \<notin> set CONFIG_ONLY_SECURITY_KEYS \<and> (\<exists>rs x. setting_named k = Some rs \<and> coerce rs v = Inr x \<and>
       (\<bar>case x of JInt n \<Rightarrow> n | _ \<Rightarrow> 0\<bar> \<le> 2 ^ 53 \<longrightarrow>
          map_of eff k = Some (if shadowing_source env k = None then x else configured conf rs)))) \<and>
    (\<forall>k. k \<notin> fst ` set changes \<longrightarrow> map_of eff k = map_of (read_runtime_settings env conf w) k)"
proof -
  obtain checked validated where checked: "traverse (check_key \<circ> fst) changes = Inr checked"
    and valid: "traverse (\<lambda>(k, v). map_error BadSetting (map_sum id (Pair k) (coerce (the (setting_named k)) v))) changes = Inr validated"
    and w': "w' = w\<lparr>queue_settings_rows := fold (\<lambda>(k, v). AList.update k v) validated (queue_settings_rows w)\<rparr>" "eff = read_runtime_settings env conf w'"
    using assms(1) by (auto simp: write_runtime_settings_def bind_result_Inr_iff Let_def)
  note vs = traverse_coerce [OF valid]
  have rows: "map_of (queue_settings_rows w') k = (case map_of validated k of Some v \<Rightarrow> Some v | None \<Rightarrow> map_of (queue_settings_rows w) k)" for k
    using fold_put_pairs [of validated] vs assms(2) by (simp add: w'(1))
  have key: "map_of eff k = Some (effective_setting env conf w' rs)" if "setting_named k = Some rs" for k rs
  proof -
    have "map_of (map (\<lambda>rs. (setting_key rs, f rs)) xs) (setting_key rs) = Some (f rs)" if "distinct (map setting_key xs)" "rs \<in> set xs" for xs f
      using that by (intro map_of_is_SomeI) (auto simp: comp_def)
    then show ?thesis using that distinct_setting_keys by (auto simp: w'(2) read_runtime_settings_def setting_named_Some)
  qed
  have changed: "k \<notin> set CONFIG_ONLY_SECURITY_KEYS \<and> (\<exists>rs x. setting_named k = Some rs \<and> coerce rs v = Inr x \<and>
       (\<bar>case x of JInt n \<Rightarrow> n | _ \<Rightarrow> 0\<bar> \<le> 2 ^ 53 \<longrightarrow> map_of eff k = Some (if shadowing_source env k = None then x else configured conf rs)))"
    if kv: "(k, v) \<in> set changes" for k v
  proof -
    obtain rs where rs: "check_key k = Inr rs" using checked kv by (fastforce simp: traverse_Inr list_all2_conv_all_nth in_set_conv_nth)
    note named = check_key_Inr [OF rs]
    obtain x where x: "(k, x) \<in> set validated" "coerce rs v = Inr x" using vs [THEN conjunct2, rule_format, OF kv] unfolding named option.sel by blast
    have "map_of validated k = Some x" using x(1) vs assms(2) by (intro map_of_is_SomeI) auto
    then have "map_of (stored_settings w') k = Some x" using rows stored_named [OF named] by simp
    moreover have "setting_key rs = k" using named by (simp add: setting_named_Some)
    moreover have "coerce rs x = Inr x" if "\<bar>case x of JInt n \<Rightarrow> n | _ \<Rightarrow> 0\<bar> \<le> 2 ^ 53"
      using coerce_well_typed [OF x(2)] that by (intro coerce_idem) auto
    ultimately show ?thesis using key [OF named] named x(2) rs by (auto simp: effective_setting_def check_key_def split: if_splits)
  qed
  moreover have "map_of eff k = map_of (read_runtime_settings env conf w) k" if "k \<notin> fst ` set changes" for k
  proof -
    have "map_of validated k = None" using that vs by (metis map_of_eq_None_iff list.set_map)
    then have "effective_setting env conf w' rs = effective_setting env conf w rs" if "setting_key rs = k" "rs \<in> set RUNTIME_SETTINGS" for rs
      using that rows [of k] stored_named [of k rs] by (simp add: effective_setting_def setting_named_Some)
    then have "map_of (map (\<lambda>rs. (setting_key rs, effective_setting env conf w' rs)) xs) k = map_of (map (\<lambda>rs. (setting_key rs, effective_setting env conf w rs)) xs) k"
      if "set xs \<subseteq> set RUNTIME_SETTINGS" for xs using that by (induction xs) auto
    then show ?thesis by (simp add: w'(2) read_runtime_settings_def)
  qed
  ultimately show ?thesis using w'(2) by blast
qed

theorem settings_roundtrip_witness:
  "\<exists>eff w'. write_runtime_settings {} shipped_settings None [(''queue.paused'', JBool True)] (world_of []) = Inr (eff, w') \<and>
     map_of eff ''queue.paused'' = Some (JBool True)"
proof -
  have named: "setting_named ''queue.paused'' = Some \<lparr>setting_key = ''queue.paused'', setting_kind = KBool, setting_minimum = None, setting_maximum = None\<rparr>"
    by (simp add: setting_named_def RUNTIME_SETTINGS_def Let_def)
  obtain eff w' where run: "write_runtime_settings {} shipped_settings None [(''queue.paused'', JBool True)] (world_of []) = Inr (eff, w')"
    by (simp add: write_runtime_settings_def authorize_def SCOPES_def map_error_def check_key_def CONFIG_ONLY_SECURITY_KEYS_def named coerce_def Let_def)
  from settings_roundtrip [OF run] have "map_of eff ''queue.paused'' = Some (JBool True)"
    by (auto simp: named coerce_def shadowing_source_def split: option.splits)
  with run show ?thesis by blast
qed

subsection \<open>What the document says\<close>

text \<open>
  The settings document names the database as the source of a key whose stored row the process cannot
  read, although it runs on the configured value.
\<close>

theorem settings_source_misreported:
  assumes "setting_named k = Some rs" "map_of (queue_settings_rows w) k = Some v" "shadowing_source env k = None" "coerce rs v = Inl e"
  shows "sd_source (define_setting env conf w rs) = ''database'' \<and> sd_stored (define_setting env conf w rs) = Some v \<and>
    effective_setting env conf w rs = configured conf rs"
proof -
  have "setting_key rs = k" using assms(1) by (simp add: setting_named_Some)
  then show ?thesis using assms stored_named [OF assms(1)] by (simp add: define_setting_def effective_setting_def Let_def)
qed

theorem settings_source_misreported_witness:
  "let w = (world_of [])\<lparr>queue_settings_rows := [(''queue.paused'', JStr ''yes'')]\<rparr>; rs = the (setting_named ''queue.paused'') in
   sd_source (define_setting {} shipped_settings w rs) = ''database'' \<and> effective_setting {} shipped_settings w rs = JBool False"
proof -
  let ?w = "(world_of [])\<lparr>queue_settings_rows := [(''queue.paused'', JStr ''yes'')]\<rparr>"
  let ?rs = "\<lparr>setting_key = ''queue.paused'', setting_kind = KBool, setting_minimum = None, setting_maximum = None\<rparr>"
  have named: "setting_named ''queue.paused'' = Some ?rs" by (simp add: setting_named_def RUNTIME_SETTINGS_def Let_def)
  have "shadowing_source {} ''queue.paused'' = None" by (simp add: shadowing_source_def split: option.splits)
  from settings_source_misreported [OF named, of ?w "JStr ''yes''" "{}" "NotBoolean ''queue.paused''" shipped_settings] this
  show ?thesis by (simp add: named coerce_def configured_def dict_get_def shipped_settings_def)
qed

end
