(* ===== verification/Scheduler.thy ===== *)
theory Scheduler
  imports Worker Residency Retention Runtime_Settings
begin

section \<open>The scheduler\<close>

text \<open>
  Models \<open>Scheduler\<close> of \<^verbatim>\<open>src/src/loadcoach/services/worker.py\<close>: the cadence of its sub-steps, the lease keeper, the
  watchdog of cancellations, the re-evaluation of deferred jobs, idle eviction and the whole \<open>tick\<close>; with the
  parts of \<open>QueueRuntime\<close> they use and the validator of the lease margin in \<^verbatim>\<open>src/src/loadcoach/config.py\<close>. A tick is
  one pass over the state of the process and the store. An exception of a sub-step ends the tick, keeping what the
  earlier ones did; the import of evidence is a parameter. The record of a deferral is read as \<open>defer_tx\<close> writes it.
\<close>

record Scheduler =
  keeper_enabled :: bool
  reaper_enabled :: bool
  sweep_enabled :: bool
  max_wait_enabled :: bool
  sc_last :: "(string, instant) dict"
  sc_renewals :: int
  sc_sweeps :: int
  sc_requeued :: int
  sc_forced_cancellations :: int

text \<open>The fields of the routing policy that change while the process runs.\<close>

record live_policy =
  lp_prefer_resident_bonus :: float64
  lp_min_present_weight :: float64
  lp_min_confidence :: float64
  lp_remote_cost_factor :: float64

record Runtime =
  rt_shared :: shared
  rt_episodes :: "Episode list"
  rt_flags :: QueueFlags
  rt_policy :: live_policy
  rt_content_retention_hours :: int
  rt_scheduler :: Scheduler

record tick_env =
  te_queue :: QueueSettings
  te_owners :: "string list"
  te_residency :: "(provider_control \<times> ResidencySettings) option"
  te_models :: "ModelRow list"
  te_snapshot :: "telemetry_snapshot option"
  te_headroom_bytes :: int
  te_waited :: "instant \<Rightarrow> instant \<Rightarrow> float64"
  te_breaker_config :: breaker_config
  te_samples :: "instant \<Rightarrow> World \<Rightarrow> (string, AttemptSample list) dict"
  te_names :: "(string, AttemptSample list) dict \<Rightarrow> breakers \<Rightarrow> string list"
  te_verdicts_written :: bool
  te_environment :: "string set"
  te_configuration :: "(string, json) dict"
  te_retain_content :: bool
  te_rfc :: "instant \<Rightarrow> string"
  te_evidence_refresh :: "(instant \<Rightarrow> World \<Rightarrow> World) option"
  te_import_interval_hours :: float64

datatype tick_error = TickStore queue_error | TickStop worker_stop

definition REAPER_INTERVAL_SECONDS :: float64 where "REAPER_INTERVAL_SECONDS = 1"
definition MAX_WAIT_INTERVAL_SECONDS :: float64 where "MAX_WAIT_INTERVAL_SECONDS = 5"
definition FLAGS_INTERVAL_SECONDS :: float64 where "FLAGS_INTERVAL_SECONDS = 1"
definition REEVALUATE_INTERVAL_SECONDS :: float64 where "REEVALUATE_INTERVAL_SECONDS = 5"
definition EVICT_INTERVAL_SECONDS :: float64 where "EVICT_INTERVAL_SECONDS = 10"
definition SYNC_INTERVAL_SECONDS :: float64 where "SYNC_INTERVAL_SECONDS = 60"
definition BREAKER_INTERVAL_SECONDS :: float64 where "BREAKER_INTERVAL_SECONDS = 10"
definition WATCHDOG_INTERVAL_SECONDS :: float64 where "WATCHDOG_INTERVAL_SECONDS = 5"
definition RETENTION_INTERVAL_SECONDS :: float64 where "RETENTION_INTERVAL_SECONDS = 60"

definition check_lease_renewal_margin :: "QueueSettings \<Rightarrow> bool" where
  "check_lease_renewal_margin qs \<longleftrightarrow> \<not> lease_seconds qs < 3 * lease_renewal_interval_seconds qs"

subsection \<open>Cadence\<close>

definition due :: "string \<Rightarrow> instant \<Rightarrow> float64 \<Rightarrow> Scheduler \<Rightarrow> bool \<times> Scheduler" where
  "due name now interval sc =
     (case map_of (sc_last sc) name of
        Some t \<Rightarrow> if total_seconds (now - t) < interval then (False, sc) else (True, sc\<lparr>sc_last := AList.update name now (sc_last sc)\<rparr>)
      | None \<Rightarrow> (True, sc\<lparr>sc_last := AList.update name now (sc_last sc)\<rparr>))"

definition rt_world :: "Runtime \<Rightarrow> World" where
  "rt_world r = sh_world (rt_shared r)"

definition set_world :: "World \<Rightarrow> Runtime \<Rightarrow> Runtime" where
  "set_world w r = r\<lparr>rt_shared := (rt_shared r)\<lparr>sh_world := w\<rparr>\<rparr>"

definition set_flight :: "registry \<Rightarrow> Runtime \<Rightarrow> Runtime" where
  "set_flight f r = r\<lparr>rt_shared := (rt_shared r)\<lparr>sh_flight := f\<rparr>\<rparr>"

type_synonym substep = "Runtime \<Rightarrow> tick_error option \<times> Runtime"

definition fine :: substep where
  "fine r = (None, r)"

definition followed_by :: "substep \<Rightarrow> substep \<Rightarrow> substep" where
  "followed_by m k r = (case m r of (Some e, r') \<Rightarrow> (Some e, r') | (None, r') \<Rightarrow> k r')"

definition when_due :: "string \<Rightarrow> instant \<Rightarrow> float64 \<Rightarrow> substep \<Rightarrow> substep" where
  "when_due name now interval m r =
     (case due name now interval (rt_scheduler r) of (d, sc) \<Rightarrow>
        if d then m (r\<lparr>rt_scheduler := sc\<rparr>) else (None, r\<lparr>rt_scheduler := sc\<rparr>))"

subsection \<open>The lease keeper\<close>

definition keep_owner :: "instant \<Rightarrow> int \<Rightarrow> string \<Rightarrow> Runtime \<Rightarrow> Runtime" where
  "keep_owner now secs owner r =
     (let ids = job_ids_for owner (sh_flight (rt_shared r)) in
      if ids = [] then r
      else (case renew_leases owner ids now secs (rt_world r) of
        (lost, w) \<Rightarrow>
          (set_flight (fold (\<lambda>i. mark_lost i owner) (filter (\<lambda>i. i \<in> lost) ids) (sh_flight (rt_shared r))) (set_world w r))
            \<lparr>rt_scheduler := (rt_scheduler r)\<lparr>sc_renewals := sc_renewals (rt_scheduler r) + int (length ids) - int (card lost)\<rparr>\<rparr>))"

definition carry_cancels :: "string list \<Rightarrow> Runtime \<Rightarrow> Runtime" where
  "carry_cancels owners r =
     (let held = concat (map (\<lambda>o'. job_ids_for o' (sh_flight (rt_shared r))) owners);
          flagged = map job_id (filter (\<lambda>j. job_id j \<in> set held \<and> cancel_requested j) (jobs (rt_world r))) in
      set_flight (fold (\<lambda>i f. snd (request_cancel i f)) flagged (sh_flight (rt_shared r))) r)"

definition keep_leases :: "tick_env \<Rightarrow> instant \<Rightarrow> Runtime \<Rightarrow> Runtime" where
  "keep_leases te now r = carry_cancels (te_owners te) (fold (keep_owner now (lease_seconds (te_queue te))) (te_owners te) r)"

subsection \<open>The watchdog\<close>

definition watch_one :: "int \<Rightarrow> instant \<Rightarrow> string \<times> instant option \<Rightarrow> shared \<times> string list \<Rightarrow> queue_error + (shared \<times> string list)" where
  "watch_one limit now = (\<lambda>(i, entered) (s, forced).
     if (case entered of Some t \<Rightarrow> total_seconds (now - t) < of_int limit | None \<Rightarrow> False) then Inr (s, forced)
     else (let s' = s\<lparr>sh_flight := snd (request_cancel i (sh_flight s))\<rparr> in
       (case move i CANCELLING CANCELLED now None (Some ''cancelling_watchdog'')
           (Some (''cancelling for more than '' @ str_int limit @ '' s: terminal transition forced by the watchdog''))
           [(''forced'', JBool True), (''watchdog_seconds'', JInt limit)] (\<lambda>j. j\<lparr>error_code := Some ''GENERATION_CANCELLED''\<rparr>) (sh_world s') of
          Inr w \<Rightarrow> Inr (s'\<lparr>sh_world := w\<rparr>, forced @ [i])
        | Inl (TransitionRefused _ _ _ _) \<Rightarrow> Inr (s', forced)
        | Inl e \<Rightarrow> Inl e)))"

definition watchdog :: "tick_env \<Rightarrow> instant \<Rightarrow> shared \<Rightarrow> queue_error + (shared \<times> string list)" where
  "watchdog te now s = each_row (watch_one (cancelling_watchdog_seconds (te_queue te)) now) (cancelling_since (sh_world s)) (s, [])"

subsection \<open>Deferred jobs\<close>

definition str_items :: "json \<Rightarrow> string list" where
  "str_items v = (case v of JList xs \<Rightarrow> List.map_filter as_str xs | _ \<Rightarrow> [])"

definition manager_of :: "tick_env \<Rightarrow> Episode list \<Rightarrow> ((string, int set) dict \<times> (string set \<Rightarrow> (int, int) dict)) option" where
  "manager_of te rows = map_option (\<lambda>(pc, _). (devices_of_residents (te_models te) rows, evictable_bytes_by_device pc (te_models te) rows)) (te_residency te)"

definition may_proceed :: "telemetry_snapshot option \<Rightarrow> (string, int set) dict \<Rightarrow> string set \<Rightarrow> int \<Rightarrow> json_obj option \<Rightarrow> bool" where
  "may_proceed snap devices_of excluded_ids default_headroom record =
     (let doc = (case record of None \<Rightarrow> [] | Some d \<Rightarrow> d); probing = set (str_items (json_get doc ''probe_candidates'')) in
      if probing \<noteq> {} \<and> probing \<inter> excluded_ids = {} then True
      else if probing \<noteq> {} \<and> \<not> json_true (json_get doc ''candidates'') then False
      else (case (record, snap) of
        (Some d, Some s) \<Rightarrow>
          if gpus s = [] then True
          else waiting_job_can_proceed (as_int (json_get d ''required_bytes''))
            (case json_get d ''headroom_bytes'' of JInt n \<Rightarrow> n | _ \<Rightarrow> default_headroom) (free_vram_by_gpu s)
            (\<Union>c \<in> set (str_items (json_get d ''candidates'')). dict_get devices_of c {})
      | _ \<Rightarrow> True))"

definition requeue_one :: "(json_obj option \<Rightarrow> bool) \<Rightarrow> instant \<Rightarrow> string \<times> json_obj option \<Rightarrow> World \<times> string list \<Rightarrow> queue_error + (World \<times> string list)" where
  "requeue_one proceed now = (\<lambda>(i, record) (w, requeued).
     if \<not> proceed record then Inr (w, requeued)
     else (case move i WAITING_RESOURCES QUEUED now None (Some ''resources_freed'')
         (Some ''resources may now be available: re-queued for admission'') [] id w of
        Inr w' \<Rightarrow> Inr (w', requeued @ [i])
      | Inl (TransitionRefused _ _ _ _) \<Rightarrow> Inr (w, requeued)
      | Inl e \<Rightarrow> Inl e))"

definition woken :: "string list \<Rightarrow> Runtime \<Rightarrow> Runtime" where
  "woken requeued r =
     (if requeued = [] then r
      else r\<lparr>rt_shared := (rt_shared r)\<lparr>sh_wakeup := True\<rparr>,
             rt_scheduler := (rt_scheduler r)\<lparr>sc_requeued := sc_requeued (rt_scheduler r) + int (length requeued)\<rparr>\<rparr>)"

definition reevaluate_waiting :: "tick_env \<Rightarrow> instant \<Rightarrow> Runtime \<Rightarrow> queue_error + (string list \<times> Runtime)" where
  "reevaluate_waiting te now r =
     (let s = rt_shared r; waiting = waiting_deferrals (sh_world s) in
      if waiting = [] then Inr ([], r)
      else (let manager = manager_of te (rt_episodes r);
                snap = admission_snapshot None manager (te_snapshot te) (sh_flight s);
                proceed = may_proceed snap (case manager of None \<Rightarrow> [] | Some (d, _) \<Rightarrow> d) (excluded (sh_breakers s)) (te_headroom_bytes te) in
        bind_result (each_row (requeue_one proceed now) waiting (sh_world s, [])) (\<lambda>(w, requeued).
          Inr (requeued, woken requeued (set_world w r)))))"

subsection \<open>The other sub-steps\<close>

definition evict_idle_step :: "tick_env \<Rightarrow> instant \<Rightarrow> Runtime \<Rightarrow> Runtime" where
  "evict_idle_step te now r =
     (case te_residency te of
        None \<Rightarrow> r
      | Some (pc, rs) \<Rightarrow>
          (case evict_idle pc rs (te_models te) now (in_use_model_ids None (sh_flight (rt_shared r))) (rt_episodes r) of
             (unloaded, rows) \<Rightarrow>
               (if unloaded = [] then r\<lparr>rt_episodes := rows\<rparr>
                else r\<lparr>rt_episodes := rows, rt_shared := (rt_shared r)\<lparr>sh_resources_changed := True\<rparr>\<rparr>)))"

definition as_float :: "json \<Rightarrow> float64" where
  "as_float v = (case v of JInt n \<Rightarrow> fl (of_int n) | JFloat x \<Rightarrow> x | JBool b \<Rightarrow> (if b then 1 else 0) | _ \<Rightarrow> 0)"

definition apply_runtime_settings :: "tick_env \<Rightarrow> Runtime \<Rightarrow> Runtime" where
  "apply_runtime_settings te r =
     (let eff = (\<lambda>k. json_get (read_runtime_settings (te_environment te) (te_configuration te) (rt_world r)) k) in
      r\<lparr>rt_policy := \<lparr>lp_prefer_resident_bonus = as_float (eff ''routing.prefer_resident_bonus''),
           lp_min_present_weight = as_float (eff ''routing.min_present_weight''), lp_min_confidence = as_float (eff ''routing.min_confidence''),
           lp_remote_cost_factor = as_float (eff ''routing.remote_cost_factor'')\<rparr>,
        rt_content_retention_hours := trunc (as_float (eff ''storage.content_retention_hours''))\<rparr>)"

definition sweep_retention :: "tick_env \<Rightarrow> instant \<Rightarrow> Runtime \<Rightarrow> Runtime" where
  "sweep_retention te now r =
     (if te_retain_content te then r
      else set_world (snd (scrub_content (te_rfc te) now (rt_content_retention_hours r) 500 (rt_world r))) r)"

definition reap_step :: "instant \<Rightarrow> substep" where
  "reap_step now r = (case reap_expired_leases now (rt_world r) of Inl e \<Rightarrow> (Some (TickStore e), r) | Inr (_, w) \<Rightarrow> (None, set_world w r))"

definition expire_step :: "tick_env \<Rightarrow> instant \<Rightarrow> substep" where
  "expire_step te now r =
     (case expire_max_wait (te_waited te) now (default_max_wait_seconds (te_queue te)) (rt_world r) of
        Inl e \<Rightarrow> (Some (TickStore e), r) | Inr (_, w) \<Rightarrow> (None, set_world w r))"

definition sweep_step :: "tick_env \<Rightarrow> instant \<Rightarrow> substep" where
  "sweep_step te now r = (None, (set_world (snd (ageing_sweep (te_waited te) now (te_queue te) (rt_world r))) r)
     \<lparr>rt_scheduler := (rt_scheduler r)\<lparr>sc_sweeps := sc_sweeps (rt_scheduler r) + 1\<rparr>\<rparr>)"

definition reevaluate_step :: "tick_env \<Rightarrow> instant \<Rightarrow> substep" where
  "reevaluate_step te now r =
     (let r1 = r\<lparr>rt_shared := (rt_shared r)\<lparr>sh_resources_changed := False\<rparr>,
                rt_scheduler := (rt_scheduler r)\<lparr>sc_last := AList.update ''reevaluate'' now (sc_last (rt_scheduler r))\<rparr>\<rparr> in
      (case reevaluate_waiting te now r1 of Inl e \<Rightarrow> (Some (TickStore e), r1) | Inr (_, r2) \<Rightarrow> (None, r2)))"

definition sync_step :: "tick_env \<Rightarrow> instant \<Rightarrow> substep" where
  "sync_step te now r =
     (case te_residency te of None \<Rightarrow> (None, r)
      | Some (pc, _) \<Rightarrow> (None, r\<lparr>rt_episodes := sync_residency pc (te_models te) now (rt_episodes r)\<rparr>))"

definition breakers_step :: "tick_env \<Rightarrow> instant \<Rightarrow> substep" where
  "breakers_step te now r =
     (case refresh_breakers (te_breaker_config te) (te_samples te) (te_names te) (te_verdicts_written te) now (rt_shared r) of
        (Inl e, s) \<Rightarrow> (Some (TickStop e), r\<lparr>rt_shared := s\<rparr>) | (Inr _, s) \<Rightarrow> (None, r\<lparr>rt_shared := s\<rparr>))"

definition watchdog_step :: "tick_env \<Rightarrow> instant \<Rightarrow> substep" where
  "watchdog_step te now r =
     (case watchdog te now (rt_shared r) of
        Inl e \<Rightarrow> (Some (TickStore e), r)
      | Inr (s, forced) \<Rightarrow> (None, r\<lparr>rt_shared := s,
          rt_scheduler := (rt_scheduler r)\<lparr>sc_forced_cancellations := sc_forced_cancellations (rt_scheduler r) + int (length forced)\<rparr>\<rparr>))"

definition flags_step :: "tick_env \<Rightarrow> substep" where
  "flags_step te r = (None, apply_runtime_settings te (r\<lparr>rt_flags := refresh_flags (rt_world r)\<rparr>))"

definition evidence_step :: "tick_env \<Rightarrow> instant \<Rightarrow> substep" where
  "evidence_step te now r = (case te_evidence_refresh te of None \<Rightarrow> (None, r) | Some f \<Rightarrow> (None, set_world (f now (rt_world r)) r))"

subsection \<open>One tick\<close>

definition tick :: "tick_env \<Rightarrow> instant \<Rightarrow> substep" where
  "tick te now =
     followed_by (\<lambda>r. if keeper_enabled (rt_scheduler r)
        then when_due ''keeper'' now (of_int (lease_renewal_interval_seconds (te_queue te))) (\<lambda>r. (None, keep_leases te now r)) r else fine r)
    (followed_by (\<lambda>r. if reaper_enabled (rt_scheduler r) then when_due ''reaper'' now REAPER_INTERVAL_SECONDS (reap_step now) r else fine r)
    (followed_by (\<lambda>r. if max_wait_enabled (rt_scheduler r) then when_due ''max_wait'' now MAX_WAIT_INTERVAL_SECONDS (expire_step te now) r else fine r)
    (followed_by (\<lambda>r. if sweep_enabled (rt_scheduler r)
        then when_due ''sweep'' now (of_int (ageing_interval_seconds (te_queue te))) (sweep_step te now) r else fine r)
    (followed_by (\<lambda>r. if sh_resources_changed (rt_shared r) then reevaluate_step te now r
        else when_due ''reevaluate'' now REEVALUATE_INTERVAL_SECONDS (reevaluate_step te now) r)
    (followed_by (when_due ''evict'' now EVICT_INTERVAL_SECONDS (\<lambda>r. (None, evict_idle_step te now r)))
    (followed_by (when_due ''sync'' now SYNC_INTERVAL_SECONDS (sync_step te now))
    (followed_by (when_due ''breakers'' now BREAKER_INTERVAL_SECONDS (breakers_step te now))
    (followed_by (when_due ''watchdog'' now WATCHDOG_INTERVAL_SECONDS (watchdog_step te now))
    (followed_by (when_due ''flags'' now FLAGS_INTERVAL_SECONDS (flags_step te))
    (followed_by (when_due ''retention'' now RETENTION_INTERVAL_SECONDS (\<lambda>r. (None, sweep_retention te now r)))
       (\<lambda>r. if te_evidence_refresh te = None then fine r
            else when_due ''evidence'' now (fl (te_import_interval_hours te * 3600)) (evidence_step te now) r)))))))))))"

text \<open>\<open>QueueRuntime.recover\<close>: reconcile residency, then the recovery pass with the re-evaluation of waiting jobs.\<close>

definition runtime_recover :: "tick_env \<Rightarrow> instant \<Rightarrow> string \<Rightarrow> Runtime \<Rightarrow> queue_error + (RecoverySummary \<times> Runtime)" where
  "runtime_recover te now owner_prefix r =
     (let r1 = snd (sync_step te now r);
          again = (\<lambda>instant_at w. map_sum id (\<lambda>(ids, r2). (ids, rt_world r2)) (reevaluate_waiting te instant_at (set_world w r1))) in
      bind_result (recover (te_waited te) now owner_prefix (te_queue te) (Some again) (rt_world r1)) (\<lambda>(summary, w).
        Inr (summary, woken (rs_reevaluated summary) (set_world w r1))))"

end
