(* ===== verification/Worker_Release.thy ===== *)
theory Worker_Release
  imports Worker
begin

text \<open>
  What is left of a job when \<open>Worker.process\<close> (services/worker.py) returns: the row is no longer leased
  to this worker, whatever path the run took and whatever the other threads did meanwhile, unless a
  cancellation was under way and the crash handler could not write it. The proof is by pre- and
  postconditions on the store, stable under what the other threads may do (the rely condition).
\<close>

subsection \<open>Interference, and what a worker may rely on\<close>

definition held_row :: "string \<Rightarrow> string \<Rightarrow> World \<Rightarrow> Job option" where
  "held_row owner i w = find (\<lambda>j. job_id j = i \<and> lease_owner j = Some owner) (jobs w)"

text \<open>
  What the rest of the system may do to a job this worker holds: renew or take the lease, or ask
  for its cancellation; it never gives this worker a lease, moves the job otherwise or counts an attempt.
\<close>

definition rely :: "string \<Rightarrow> string \<Rightarrow> World \<Rightarrow> World \<Rightarrow> bool" where
  "rely owner i w w' \<longleftrightarrow> (leases_ok w \<longrightarrow> leases_ok w' \<and>
     (\<forall>j'. held_row owner i w' = Some j' \<longrightarrow> (\<exists>j. held_row owner i w = Some j \<and> attempt j' = attempt j \<and>
        (job_state j' = job_state j \<or> job_state j' = CANCELLING))))"

definition holding :: "string \<Rightarrow> string \<Rightarrow> JobState \<Rightarrow> int \<Rightarrow> World \<Rightarrow> bool" where
  "holding owner i st n w \<longleftrightarrow> leases_ok w \<and>
     (\<forall>j. held_row owner i w = Some j \<longrightarrow> (job_state j = st \<or> job_state j = CANCELLING) \<and> attempt j = n)"

definition let_go :: "string \<Rightarrow> string \<Rightarrow> World \<Rightarrow> bool" where
  "let_go owner i w \<longleftrightarrow> leases_ok w \<and> (\<forall>j. held_row owner i w = Some j \<longrightarrow> job_state j = CANCELLING)"

definition stable :: "string \<Rightarrow> string \<Rightarrow> (World \<Rightarrow> bool) \<Rightarrow> bool" where
  "stable owner i P \<longleftrightarrow> (\<forall>w w'. rely owner i w w' \<longrightarrow> P w \<longrightarrow> P w')"

lemma stable_holding: "stable owner i (holding owner i st n)"
  unfolding stable_def rely_def holding_def by fastforce

lemma stable_let_go: "stable owner i (let_go owner i)"
  unfolding stable_def rely_def let_go_def by fastforce

lemma stable_leases: "stable owner i leases_ok"
  by (simp add: stable_def rely_def)

lemma held_row_get:
  assumes "leases_ok w" shows "held_row owner i w = Some j \<longleftrightarrow> get_row i (jobs w) = Some j \<and> lease_owner j = Some owner"
proof -
  have d: "distinct (map job_id (jobs w))" using assms by (simp add: leases_ok_def)
  show ?thesis
  proof
    assume "held_row owner i w = Some j"
    then show "get_row i (jobs w) = Some j \<and> lease_owner j = Some owner"
      using d by (auto simp: held_row_def find_Some_iff get_row_Some)
  next
    assume r: "get_row i (jobs w) = Some j \<and> lease_owner j = Some owner"
    then have j: "j \<in> set (jobs w)" "job_id j = i" using d by (auto simp: get_row_Some)
    then obtain k where k: "held_row owner i w = Some k" using r by (cases "held_row owner i w") (auto simp: held_row_def find_None_iff)
    then have "k \<in> set (jobs w)" "job_id k = i" by (auto simp: held_row_def find_Some_iff)
    then show "held_row owner i w = Some j" using unique_row[OF d j(1)] j(2) k by auto
  qed
qed

text \<open>The row its holder sees after its own transaction.\<close>

lemma owned_held:
  assumes "owned_change owner i w w'" "leases_ok w"
  obtains j j' where "held_row owner i w = Some j" "get_row i (jobs w') = Some j'" "row_moved j j'"
    "held_row owner i w' = (if job_state j' \<in> IN_FLIGHT_STATES then Some j' else None)"
    "attempt j' = attempt j + int (length (job_attempts w') - length (job_attempts w))"
proof -
  obtain j j' new where j: "get_row i (jobs w) = Some j" "lease_owner j = Some owner" "row_moved j j'"
    "jobs w' = update_where (\<lambda>r. job_id r = i) (\<lambda>_. j') (jobs w)" "job_attempts w' = job_attempts w @ new" "attempt j' = attempt j + int (length new)"
    using assms(1) unfolding owned_change_def by blast
  have id: "job_id j' = i" using j(1,3) by (auto simp: get_row_def find_Some_iff row_moved_def)
  have row: "get_row i (jobs w') = Some j'" using get_row_replaced [OF j(1) id] by (simp add: j(4))
  have ok: "leases_ok w'" using owned_leases_ok [OF assms] .
  have "held_row owner i w' = (if job_state j' \<in> IN_FLIGHT_STATES then Some j' else None)"
  proof (cases "job_state j' \<in> IN_FLIGHT_STATES")
    case True
    then show ?thesis using held_row_get [OF ok] row j(2,3) by (auto simp: row_moved_def)
  next
    case False
    then have "lease_owner j' = None" using j(3) by (simp add: row_moved_def)
    then have "held_row owner i w' \<noteq> Some k" for k using held_row_get [OF ok] row by auto
    then show ?thesis using False by (cases "held_row owner i w'") auto
  qed
  moreover have "held_row owner i w = Some j" using held_row_get [OF assms(2)] j(1,2) by simp
  ultimately show thesis using that row j(3,5,6) by simp
qed

subsection \<open>Hoare rules for a run\<close>

definition stopped :: "string \<Rightarrow> string \<Rightarrow> worker_stop \<Rightarrow> World \<Rightarrow> bool" where
  "stopped owner i e w \<longleftrightarrow> leases_ok w \<and> (lease_lost e \<or> e = WasCancelled \<longrightarrow> let_go owner i w)"

abbreviation world :: "run \<Rightarrow> World" where
  "world r \<equiv> sh_world (rn_shared r)"

definition spec :: "string \<Rightarrow> string \<Rightarrow> (World \<Rightarrow> bool) \<Rightarrow> 'a act \<Rightarrow> ('a \<Rightarrow> World \<Rightarrow> bool) \<Rightarrow> bool" where
  "spec owner i P m Q \<longleftrightarrow> (\<forall>r. P (world r) \<longrightarrow> (case m r of (Inr a, r') \<Rightarrow> Q a (world r') | (Inl e, r') \<Rightarrow> stopped owner i e (world r')))"

lemma spec_give: "(\<And>w. P w \<Longrightarrow> Q a w) \<Longrightarrow> spec owner i P (give a) Q"
  by (simp add: spec_def give_def)

lemma spec_stop: "\<not> lease_lost e \<Longrightarrow> e \<noteq> WasCancelled \<Longrightarrow> (\<And>w. P w \<Longrightarrow> leases_ok w) \<Longrightarrow> spec owner i P (stop_with e) Q"
  by (simp add: spec_def stop_with_def stopped_def)

lemma spec_cancelled: "(\<And>w. P w \<Longrightarrow> let_go owner i w) \<Longrightarrow> spec owner i P (stop_with WasCancelled) Q"
  by (simp add: spec_def stop_with_def stopped_def let_go_def)

lemma spec_if: "(c \<Longrightarrow> spec owner i P a Q) \<Longrightarrow> (\<not> c \<Longrightarrow> spec owner i P b Q) \<Longrightarrow> spec owner i P (if c then a else b) Q"
  by simp

lemma spec_bind: "spec owner i P m R \<Longrightarrow> (\<And>a. spec owner i (R a) (k a) Q) \<Longrightarrow> spec owner i P (and_then m k) Q"
  by (fastforce simp: spec_def and_then_def split: sum.splits prod.splits)

lemma spec_weaken: "spec owner i P m R \<Longrightarrow> (\<And>w. P' w \<Longrightarrow> P w) \<Longrightarrow> (\<And>a w. R a w \<Longrightarrow> Q a w) \<Longrightarrow> spec owner i P' m Q"
  by (fastforce simp: spec_def split: sum.splits prod.splits)

lemma spec_Inr: "spec owner i P m Q \<Longrightarrow> P (world r) \<Longrightarrow> \<exists>a r'. m r = (Inr a, r') \<Longrightarrow> \<exists>a. Q a (world (snd (m r)))"
  by (fastforce simp: spec_def)

lemma spec_at_run: "(\<And>r. spec owner i P (m r) Q) \<Longrightarrow> spec owner i P (\<lambda>r. m r r) Q"
  by (simp add: spec_def)

lemma spec_finish: "spec owner i P m (\<lambda>_. Q) \<Longrightarrow> spec owner i P (finish m) (\<lambda>p w. p = Finished \<and> Q w)"
  unfolding finish_def by (rule spec_bind) (auto intro: spec_give)

subsection \<open>The transactions, seen by their holder\<close>

lemma move_error:
  assumes "fenced_move owner i st t now rsn values aw msg d w = Inl e" "lease_lost (StoreError e)" "holding owner i st n w"
  shows "let_go owner i w"
proof -
  have ok: "leases_ok w" and dist: "distinct (map job_id (jobs w))" using assms(3) by (simp_all add: holding_def leases_ok_def)
  have "transition i st t now (Some owner) rsn values (jobs w) = Inl e"
    using assms(1) by (auto simp: fenced_move_def bind_result_def split: sum.splits)
  from transition_Inl [OF dist this] assms(2) have "is_legal st t" "\<forall>j \<in> set (jobs w). \<not> cas_matches i st (Some owner) j"
    by (auto simp: lease_lost_def split: if_splits)
  then have "job_state j = CANCELLING" if "held_row owner i w = Some j" for j
    using assms(3) that by (auto simp: holding_def held_row_def find_Some_iff cas_matches_def)
  then show ?thesis using ok by (simp add: let_go_def)
qed

lemma move_row:
  assumes "fenced_move owner i st t now rsn values aw msg d w = Inr w'" "leases_ok w" "keeps_core values" "quiet aw"
  obtains j j' where "held_row owner i w = Some j" "job_state j = st" "job_state j' = t" "attempt j' = attempt j"
    "held_row owner i w' = (if t \<in> IN_FLIGHT_STATES then Some j' else None)" "leases_ok w'"
proof -
  have dist: "distinct (map job_id (jobs w))" using assms(2) by (simp add: leases_ok_def)
  note o = fenced_move_owned [OF assms]
  obtain j j' where j: "held_row owner i w = Some j" "get_row i (jobs w') = Some j'"
    "held_row owner i w' = (if job_state j' \<in> IN_FLIGHT_STATES then Some j' else None)"
    "attempt j' = attempt j + int (length (job_attempts w') - length (job_attempts w))" by (rule owned_held [OF o assms(2)])
  obtain rows where t: "transition i st t now (Some owner) rsn values (jobs w) = Inr rows" and "w' = append_event i (event_type_for t) now (Some msg) d (aw (w\<lparr>jobs := rows\<rparr>))"
    using assms(1) by (auto simp: fenced_move_def bind_result_Inr_iff)
  then have rows: "jobs w' = update_where (\<lambda>r. job_id r = i) (\<lambda>r. values (assignments t now rsn r)) (jobs w)"
    and cas: "\<exists>j \<in> set (jobs w). cas_matches i st (Some owner) j" and same: "job_attempts w' = job_attempts w"
    using assms(4) by (simp_all add: quiet_def transition_Inr [OF dist])
  have core: "job_state (values r) = job_state r" "job_id (values r) = job_id r" for r using assms(3) by (simp_all add: keeps_core_def)
  have row: "get_row i (jobs w) = Some j" using j(1) held_row_get [OF assms(2)] by blast
  then have "j' = values (assignments t now rsn j)" using j(2) unfolding rows by (simp add: get_row_update_where core)
  then have "job_state j' = t" by (simp add: core)
  moreover have "job_state j = st" using cas row dist unique_row by (auto simp: cas_matches_def get_row_Some)
  ultimately show thesis using that j same owned_leases_ok [OF o assms(2)] by simp
qed

lemma move_done:
  assumes "fenced_move owner i st t now rsn values aw msg d w = Inr w'" "holding owner i st n w" "keeps_core values" "quiet aw"
  shows "if t \<in> IN_FLIGHT_STATES then holding owner i t n w' else let_go owner i w'"
proof -
  have ok: "leases_ok w" using assms(2) by (simp add: holding_def)
  obtain j j' where "held_row owner i w = Some j" "job_state j' = t" "attempt j' = attempt j"
    "held_row owner i w' = (if t \<in> IN_FLIGHT_STATES then Some j' else None)" "leases_ok w'"
    by (rule move_row [OF assms(1) ok assms(3,4)])
  then show ?thesis using assms(2) by (simp add: holding_def let_go_def)
qed

lemma move_succeeds:
  assumes "leases_ok w" "held_row owner i w = Some j" "is_legal (job_state j) t"
  shows "\<exists>w'. fenced_move owner i (job_state j) t now rsn values aw msg d w = Inr w'"
proof -
  have "j \<in> set (jobs w)" "job_id j = i" "lease_owner j = Some owner" using assms(2) by (auto simp: held_row_def find_Some_iff)
  then have "\<exists>rows. transition i (job_state j) t now (Some owner) rsn values (jobs w) = Inr rows"
    using assms(1,3) by (subst transition_Inr) (auto simp: leases_ok_def cas_matches_def)
  then show ?thesis by (auto simp: fenced_move_def bind_result_def)
qed

lemma in_flight_working [simp]:
  "ADMITTED \<in> IN_FLIGHT_STATES" "VALIDATING \<in> IN_FLIGHT_STATES" "RETRYING \<in> IN_FLIGHT_STATES"
  by (simp_all add: state_set_defs)

lemma held_row_commit [simp]: "held_row owner i (commit w) = held_row owner i w"
  by (simp add: held_row_def)

lemma holding_commit [simp]:
  "holding owner i st n (commit w) = holding owner i st n w" "let_go owner i (commit w) = let_go owner i w" "leases_ok (commit w) = leases_ok w"
  by (simp_all add: holding_def let_go_def leases_ok_def held_row_def)

text \<open>A transaction in Hoare form: from a state of the job to another, or refused.\<close>

definition tx_spec :: "string \<Rightarrow> string \<Rightarrow> (World \<Rightarrow> bool) \<Rightarrow> (instant \<Rightarrow> World \<Rightarrow> queue_error + World) \<Rightarrow> (World \<Rightarrow> bool) \<Rightarrow> bool" where
  "tx_spec owner i P tx Q \<longleftrightarrow> (\<forall>now w. P w \<longrightarrow> leases_ok w \<and>
     (case tx now w of Inr w' \<Rightarrow> Q w' | Inl e \<Rightarrow> (lease_lost (StoreError e) \<longrightarrow> let_go owner i w)))"

lemma tx_move:
  assumes "\<And>now w. tx now w = map_sum id commit (fenced_move owner i st t now (rsn now) (values now) aw (msg now) (d now) w)"
    "\<And>now. keeps_core (values now)" "quiet aw"
  shows "tx_spec owner i (holding owner i st n) tx (if t \<in> IN_FLIGHT_STATES then holding owner i t n else let_go owner i)"
  unfolding tx_spec_def
proof (intro allI impI conjI)
  fix now w assume h: "holding owner i st n w"
  then show "leases_ok w" by (simp add: holding_def)
  show "case tx now w of Inl e \<Rightarrow> lease_lost (StoreError e) \<longrightarrow> let_go owner i w
      | Inr w' \<Rightarrow> (if t \<in> IN_FLIGHT_STATES then holding owner i t n else let_go owner i) w'"
  proof (cases "fenced_move owner i st t now (rsn now) (values now) aw (msg now) (d now) w")
    case (Inl e)
    then show ?thesis using move_error [OF Inl _ h] by (simp add: assms(1))
  next
    case (Inr w')
    then show ?thesis using move_done [OF Inr h assms(2,3)] by (auto simp: assms(1))
  qed
qed

lemma write_attempt_error:
  assumes "write_attempt i r now (Some owner) w = Inl e" "holding owner i st n w" "rec_attempt r = n + 1" "lease_lost (StoreError e)"
  shows "let_go owner i w"
proof -
  have f: "holds_attempt i (Some owner) = (\<lambda>j. job_id j = i \<and> lease_owner j = Some owner)" by (simp add: holds_attempt_def fun_eq_iff)
  show ?thesis
    using assms by (auto simp: write_attempt_def f held_row_def holding_def let_go_def lease_lost_def Let_def split: option.splits if_splits)
qed

lemma get_row_updated:
  assumes "\<And>r. job_id (f r) = job_id r" "get_row i rows = Some j"
  shows "get_row i (update_where P f rows) = Some (if P j then f j else j)"
  using assms(2) by (induction rows) (auto simp: get_row_def update_where_def assms(1) split: if_splits)

lemma write_attempt_row:
  assumes "write_attempt i r now (Some owner) w = Inr (k, w')" "leases_ok w"
  obtains j j' where "held_row owner i w = Some j" "held_row owner i w' = Some j'" "job_state j' = job_state j" "attempt j' = attempt j + 1"
    "leases_ok w'"
proof -
  note o = write_attempt_owned [OF assms]
  have len: "length (job_attempts w') - length (job_attempts w) = 1"
    and rows: "jobs w' = update_where (holds_attempt i (Some owner)) (\<lambda>j. j\<lparr>attempt := attempt j + 1\<rparr>) (jobs w)"
    using assms(1) by (auto simp: write_attempt_def Let_def split: option.splits if_splits)
  obtain j j' where j: "held_row owner i w = Some j" "get_row i (jobs w') = Some j'"
    "held_row owner i w' = (if job_state j' \<in> IN_FLIGHT_STATES then Some j' else None)"
    "attempt j' = attempt j + int (length (job_attempts w') - length (job_attempts w))" by (rule owned_held [OF o assms(2)])
  have row: "get_row i (jobs w) = Some j" "lease_owner j = Some owner" using j(1) held_row_get [OF assms(2)] by auto
  have st: "job_state j' = job_state j"
    using get_row_updated [of "\<lambda>j. j\<lparr>attempt := attempt j + 1\<rparr>" i "jobs w" j "holds_attempt i (Some owner)"] row(1) j(2) rows
    by (auto split: if_splits)
  then have "held_row owner i w' = Some j'" using j(3) owned_in_flight [OF assms(2) row] by simp
  then show thesis using that j(1,4) st len owned_leases_ok [OF o assms(2)] by simp
qed

lemma write_attempt_held:
  assumes "write_attempt i r now (Some owner) w = Inr (k, w')" "holding owner i st n w"
  shows "holding owner i st (n + 1) w'"
proof -
  have ok: "leases_ok w" using assms(2) by (simp add: holding_def)
  obtain j j' where "held_row owner i w = Some j" "held_row owner i w' = Some j'" "job_state j' = job_state j" "attempt j' = attempt j + 1"
    "leases_ok w'" by (rule write_attempt_row [OF assms(1) ok])
  with assms(2) show ?thesis by (simp add: holding_def)
qed

lemma tx_written:
  assumes "\<And>now w. tx now w = bind_result (write_attempt i r now (Some owner) w) (\<lambda>(_, w1).
      map_sum id commit (fenced_move owner i st t now rsn id id msg d w1))"
    "rec_attempt r = n + 1" "t \<in> IN_FLIGHT_STATES"
  shows "tx_spec owner i (holding owner i st n) tx (holding owner i t (n + 1))"
  unfolding tx_spec_def
proof (intro allI impI conjI)
  fix now w assume h: "holding owner i st n w"
  then show "leases_ok w" by (simp add: holding_def)
  show "case tx now w of Inl e \<Rightarrow> lease_lost (StoreError e) \<longrightarrow> let_go owner i w | Inr w' \<Rightarrow> holding owner i t (n + 1) w'"
  proof (cases "write_attempt i r now (Some owner) w")
    case (Inl e)
    then show ?thesis using write_attempt_error [OF Inl h assms(2)] by (simp add: assms(1) bind_result_def)
  next
    case (Inr p)
    obtain k w1 where p: "p = (k, w1)" by (cases p)
    note h1 = write_attempt_held [OF Inr [unfolded p] h]
    show ?thesis
    proof (cases "fenced_move owner i st t now rsn id id msg d w1")
      case (Inl e)
      have "let_go owner i w" if "lease_lost (StoreError e)"
      proof -
        have ok: "leases_ok w" using h by (simp add: holding_def)
        obtain j j' where "held_row owner i w = Some j" "held_row owner i w1 = Some j'" "job_state j' = job_state j"
          by (rule write_attempt_row [OF Inr [unfolded p] ok])
        then show ?thesis using move_error [OF Inl that h1] ok by (simp add: let_go_def)
      qed
      then show ?thesis using Inr p Inl by (simp add: assms(1) bind_result_def)
    next
      case I: (Inr w')
      have "keeps_core (id :: Job \<Rightarrow> Job)" by (simp add: keeps_core_def)
      then show ?thesis using move_done [OF I h1 _ quiet_writes(1)] Inr p I assms(3) by (simp add: assms(1) bind_result_def)
    qed
  qed
qed

lemma held_state_row: "held_state owner i w = map_option job_state (held_row owner i w)"
  by (simp add: held_state_def held_row_def)

lemma cancel_path:
  "s \<in> IN_FLIGHT_STATES \<Longrightarrow> s \<noteq> CANCELLING \<Longrightarrow> is_legal s CANCELLING" "is_legal CANCELLING CANCELLED"
  "s \<in> IN_FLIGHT_STATES \<Longrightarrow> s \<noteq> CANCELLING \<Longrightarrow> is_legal s FAILED"
  by (auto simp: state_set_defs is_legal_def TRANSITIONS_def)

lemma held_in_flight: "leases_ok w \<Longrightarrow> held_row owner i w = Some j \<Longrightarrow> job_state j \<in> IN_FLIGHT_STATES"
  using held_row_get owned_in_flight by blast

lemma to_cancelled:
  assumes "leases_ok w" "held_row owner i w = Some j" "job_state j = CANCELLING"
  shows "\<exists>w'. map_sum id commit (fenced_move owner i CANCELLING CANCELLED now rsn
      (\<lambda>j. j\<lparr>error_code := Some ''GENERATION_CANCELLED'', cancel_requested := True\<rparr>) id msg d w) = Inr w' \<and> let_go owner i w'"
proof -
  let ?v = "\<lambda>j :: Job. j\<lparr>error_code := Some ''GENERATION_CANCELLED'', cancel_requested := True\<rparr>"
  obtain w' where w': "fenced_move owner i CANCELLING CANCELLED now rsn ?v id msg d w = Inr w'"
    using move_succeeds [OF assms(1,2), of CANCELLED now rsn ?v id msg d] cancel_path(2) assms(3) by auto
  have "keeps_core ?v" by (simp add: keeps_core_def)
  then obtain j' where "held_row owner i w' = (if CANCELLED \<in> IN_FLIGHT_STATES then Some j' else None)" "leases_ok w'"
    by (rule move_row [OF w' assms(1) _ quiet_writes(1)])
  then have "let_go owner i w'" by (simp add: let_go_def)
  then show ?thesis using w' by simp
qed

lemma tx_cancel:
  assumes "records \<noteq> [] \<and> rec_outcome (last records) = ''cancelled'' \<longrightarrow> rec_attempt (last records) = n + 1"
  shows "tx_spec owner i (holding owner i st n) (cancel_from owner i records) (let_go owner i)"
  unfolding tx_spec_def
proof (intro allI impI conjI)
  fix now w assume h: "holding owner i st n w"
  then show ok: "leases_ok w" by (simp add: holding_def)
  show "case cancel_from owner i records now w of Inl e \<Rightarrow> lease_lost (StoreError e) \<longrightarrow> let_go owner i w | Inr w' \<Rightarrow> let_go owner i w'"
  proof (cases "held_row owner i w")
    case None
    then show ?thesis using ok by (simp add: cancel_from_def held_state_row let_go_def)
  next
    case (Some j)
    let ?recorded = "if records \<noteq> [] \<and> rec_outcome (last records) = ''cancelled''
                       then map_sum id snd (write_attempt i (last records) now (Some owner) w) else Inr w"
    show ?thesis
    proof (cases ?recorded)
      case (Inl e)
      then show ?thesis
        using Some write_attempt_error [OF _ h] assms
        by (auto simp: cancel_from_def held_state_row bind_result_def map_sum_def split: if_splits sum.splits)
    next
      case (Inr w1)
      obtain j1 where j1: "held_row owner i w1 = Some j1" "job_state j1 = job_state j" "leases_ok w1"
      proof (cases "records \<noteq> [] \<and> rec_outcome (last records) = ''cancelled''")
        case True
        then obtain k where "write_attempt i (last records) now (Some owner) w = Inr (k, w1)" using Inr by (auto simp: map_sum_Inr)
        then show thesis using that Some by (elim write_attempt_row [OF _ ok]) auto
      qed (use that Inr Some ok in auto)
      let ?first = "if job_state j \<noteq> CANCELLING
         then fenced_move owner i (job_state j) CANCELLING now (Some ''cancel_requested'') id id (''cancel requested in '' @ state_value (job_state j))
                [(''previous_state'', JStr (state_value (job_state j)))] w1 else Inr w1"
      have "\<exists>w2 j2. ?first = Inr w2 \<and> held_row owner i w2 = Some j2 \<and> job_state j2 = CANCELLING \<and> leases_ok w2"
      proof (cases "job_state j = CANCELLING")
        case False
        have "is_legal (job_state j1) CANCELLING" using False j1 held_in_flight [OF ok Some] cancel_path(1) by simp
        from move_succeeds [OF j1(3,1) this] obtain w2 where w2: "?first = Inr w2" using False j1(2) by force
        have "keeps_core (id :: Job \<Rightarrow> Job)" by (simp add: keeps_core_def)
        moreover have "fenced_move owner i (job_state j) CANCELLING now (Some ''cancel_requested'') id id (''cancel requested in '' @ state_value (job_state j))
                [(''previous_state'', JStr (state_value (job_state j)))] w1 = Inr w2" using w2 False by simp
        ultimately show ?thesis using w2 by (elim move_row [OF _ j1(3) _ quiet_writes(1)]) auto
      qed (use j1 in auto)
      then obtain w2 j2 where w2: "?first = Inr w2" "held_row owner i w2 = Some j2" "job_state j2 = CANCELLING" "leases_ok w2" by blast
      have eq: "cancel_from owner i records now w = map_sum id commit (fenced_move owner i CANCELLING CANCELLED now (Some ''GENERATION_CANCELLED'')
              (\<lambda>j. j\<lparr>error_code := Some ''GENERATION_CANCELLED'', cancel_requested := True\<rparr>) id ''cancelled''
              [(''reason'', JStr ''GENERATION_CANCELLED''), (''attempts'', JList (map (JObj \<circ> attempt_record_json) records))] w2)"
        unfolding cancel_from_def held_state_row Some option.map option.case Inr bind_result_simps w2(1) ..
      from to_cancelled [OF w2(4,2,3)] show ?thesis unfolding eq by (metis old.sum.simps(6))
    qed
  qed
qed

lemma tx_crash:
  "tx_spec owner i leases_ok (\<lambda>now w. Inr (fail_after_crash owner i code txt now w)) (let_go owner i)"
  unfolding tx_spec_def
proof (intro allI impI conjI)
  fix now w assume ok: "leases_ok w"
  then show "leases_ok w" .
  show "case Inr (fail_after_crash owner i code txt now w) of Inl e \<Rightarrow> lease_lost (StoreError e) \<longrightarrow> let_go owner i w | Inr w' \<Rightarrow> let_go owner i w'"
  proof (cases "held_row owner i w")
    case None
    then show ?thesis using ok by (simp add: fail_after_crash_def held_state_row let_go_def)
  next
    case (Some j)
    let ?v = "\<lambda>j :: Job. j\<lparr>error_code := Some code, error_text := Some (take 2000 txt)\<rparr>"
    let ?m = "fenced_move owner i (job_state j) FAILED now (Some code) ?v id (''failed in '' @ state_value (job_state j) @ '': '' @ code)
               [(''reason'', JStr code), (''previous_state'', JStr (state_value (job_state j))), (''error'', JStr (take 500 txt))] w"
    show ?thesis
    proof (cases ?m)
      case (Inl e)
      have "job_state j = CANCELLING"
      proof (rule ccontr)
        assume "job_state j \<noteq> CANCELLING"
        then have "is_legal (job_state j) FAILED" by (rule cancel_path(3) [OF held_in_flight [OF ok Some]])
        from move_succeeds [OF ok Some this] obtain w' where "?m = Inr w'" by blast
        with Inl show False by simp
      qed
      then show ?thesis using Some Inl ok by (simp add: fail_after_crash_def held_state_row let_go_def)
    next
      case (Inr w')
      have "keeps_core ?v" by (simp add: keeps_core_def)
      then obtain j' where "held_row owner i w' = (if FAILED \<in> IN_FLIGHT_STATES then Some j' else None)" "leases_ok w'"
        by (rule move_row [OF Inr ok _ quiet_writes(1)])
      then show ?thesis using Some Inr by (simp add: fail_after_crash_def held_state_row let_go_def)
    qed
  qed
qed

subsection \<open>A run among others\<close>

locale interference =
  fixes env :: "'e worker_env" and i :: string
  assumes others_rely: "rely (we_owner env) i (sh_world s) (sh_world (we_others env n s))"
begin

abbreviation meets :: "(World \<Rightarrow> bool) \<Rightarrow> 'a act \<Rightarrow> ('a \<Rightarrow> World \<Rightarrow> bool) \<Rightarrow> bool" where
  "meets \<equiv> spec (we_owner env) i"

abbreviation held :: "JobState \<Rightarrow> int \<Rightarrow> World \<Rightarrow> bool" where
  "held \<equiv> holding (we_owner env) i"

abbreviation released :: "World \<Rightarrow> bool" where
  "released \<equiv> let_go (we_owner env) i"

lemma meets_access:
  assumes "stable (we_owner env) i P" "\<And>now s a s'. P (sh_world s) \<Longrightarrow> f now s = (Inr a, s') \<Longrightarrow> Q a (sh_world s')"
    "\<And>now s e s'. P (sh_world s) \<Longrightarrow> f now s = (Inl e, s') \<Longrightarrow> stopped (we_owner env) i e (sh_world s')"
  shows "meets P (access env f) Q"
  unfolding spec_def
proof (intro allI impI)
  fix r assume "P (world r)"
  then have "P (sh_world (we_others env (rn_accesses r) (rn_shared r)))" using assms(1) others_rely by (auto simp: stable_def)
  then show "case access env f r of (Inr a, r') \<Rightarrow> Q a (world r') | (Inl e, r') \<Rightarrow> stopped (we_owner env) i e (world r')"
    using assms(2,3) by (auto simp: access_def split: prod.splits sum.splits)
qed

lemma meets_tx:
  assumes "stable (we_owner env) i P" "tx_spec (we_owner env) i P tx Q"
  shows "meets P (transact env tx) (\<lambda>_. Q)"
  unfolding transact_def
proof (rule meets_access [OF assms(1)])
  fix now s a s'
  assume "P (sh_world s)" and out: "(case tx now (sh_world s) of Inl q \<Rightarrow> (Inl (StoreError q), s) | Inr w \<Rightarrow> (Inr (), s\<lparr>sh_world := w\<rparr>)) = (Inr a, s')"
  then have "case tx now (sh_world s) of Inr w' \<Rightarrow> Q w' | Inl e \<Rightarrow> (lease_lost (StoreError e) \<longrightarrow> let_go (we_owner env) i (sh_world s))"
    using assms(2) by (simp add: tx_spec_def)
  then show "Q (sh_world s')" using out by (auto split: sum.splits)
next
  fix now s e s'
  assume "P (sh_world s)" and out: "(case tx now (sh_world s) of Inl q \<Rightarrow> (Inl (StoreError q), s) | Inr w \<Rightarrow> (Inr (), s\<lparr>sh_world := w\<rparr>)) = (Inl e, s')"
  then have "leases_ok (sh_world s)" "case tx now (sh_world s) of Inr w' \<Rightarrow> Q w' | Inl e \<Rightarrow> (lease_lost (StoreError e) \<longrightarrow> let_go (we_owner env) i (sh_world s))"
    using assms(2) by (simp_all add: tx_spec_def)
  then show "stopped (we_owner env) i e (sh_world s')" using out by (auto simp: stopped_def split: sum.splits)
qed

lemma meets_memory: "stable (we_owner env) i P \<Longrightarrow> meets P (in_memory env f) (\<lambda>_. P)"
  unfolding in_memory_def by (rule meets_access) (auto split: prod.splits)

lemma meets_read: "stable (we_owner env) i P \<Longrightarrow> meets P (access env (\<lambda>now s. (Inr (f now s), s))) (\<lambda>_. P)"
  by (rule meets_access) auto

lemma meets_row_cancel:
  assumes "stable (we_owner env) i P" "\<And>w. P w \<Longrightarrow> leases_ok w"
  shows "meets P (must_stop env k) (\<lambda>_. P)" "meets P (read_cancel env k) (\<lambda>_. P)"
  unfolding must_stop_def read_cancel_def
  by (rule meets_access [OF assms(1)]; auto simp: row_cancel_requested_def stopped_def lease_lost_def assms(2) split: if_splits option.splits)+

lemma meets_pieces:
  assumes "stable (we_owner env) i P"
  shows "meets P (change_flight env f) (\<lambda>_. P)" "meets P (change_breakers env g) (\<lambda>_. P)" "meets P (set_state env k st) (\<lambda>_. P)"
    "meets P (set_candidate env k c) (\<lambda>_. P)" "meets P (hand_back env h cid) (\<lambda>_. P)"
  unfolding set_state_def set_candidate_def hand_back_def change_flight_def change_breakers_def
  by (auto intro!: meets_memory assms spec_give)

lemmas held_stable = stable_holding [of "we_owner env" i] stable_let_go [of "we_owner env" i] stable_leases [of "we_owner env" i]

text \<open>The transactions the loop is made of.\<close>

lemma meets_cancel:
  "records \<noteq> [] \<and> rec_outcome (last records) = ''cancelled'' \<longrightarrow> rec_attempt (last records) = n + 1 \<Longrightarrow>
   meets (held st n) (transact env (cancel_from (we_owner env) i records)) (\<lambda>_. released)"
  by (rule meets_tx [OF held_stable(1) tx_cancel])

lemma meets_requeue: "meets (held st n) (transact env (requeue_for_probe (we_owner env) i st skipped)) (\<lambda>_. released)"
  by (rule meets_tx [OF held_stable(1)], rule tx_move [where t = QUEUED, simplified])
     (auto simp: requeue_for_probe_def keeps_core_def quiet_writes)

lemma meets_start:
  "claimed_job_id job = i \<Longrightarrow> meets (held st n) (transact env (start_executing (we_owner env) job st number res)) (\<lambda>_. held EXECUTING n)"
  by (rule meets_tx [OF held_stable(1)], rule tx_move [where t = EXECUTING, simplified])
     (auto simp: start_executing_def keeps_core_def quiet_writes)

lemma meets_fail:
  "claimed_job_id (ex_job x) = i \<Longrightarrow> meets (held st n) (fail env x st records code) (\<lambda>_. released)"
proof -
  assume "claimed_job_id (ex_job x) = i"
  then have "meets (held st n) (transact env (fail_tx (we_owner env) (ex_job x) st records code ms)) (\<lambda>_. released)" for ms
    by (intro meets_tx [OF held_stable(1)], intro tx_move [where t = FAILED, simplified])
       (auto simp: fail_tx_def Let_def keeps_core_def quiet_writes)
  then show ?thesis by (simp add: spec_def fail_def)
qed

lemma meets_failed_attempt:
  "rec_attempt r = n + 1 \<Longrightarrow> meets (held EXECUTING n) (transact env (record_failed_attempt (we_owner env) i r)) (\<lambda>_. held RETRYING (n + 1))"
  by (rule meets_tx [OF held_stable(1)], rule tx_written) (auto simp: record_failed_attempt_def state_set_defs)

lemma meets_validate:
  "rec_attempt r = n + 1 \<Longrightarrow> meets (held EXECUTING n) (transact env (validate_attempt (we_owner env) i r)) (\<lambda>_. held VALIDATING (n + 1))"
  by (rule meets_tx [OF held_stable(1)], rule tx_written) (auto simp: validate_attempt_def state_set_defs)

lemma meets_complete:
  assumes "claimed_job_id (ex_job x) = i"
  shows "meets (held VALIDATING n) (complete env x records o' cand) (\<lambda>_. released)"
proof (cases "out_result o'")
  case None
  then show ?thesis by (auto simp: complete_def lease_lost_def holding_def intro!: spec_stop)
next
  case (Some res)
  have tx: "meets (held VALIDATING n) (transact env (complete_tx pkg sha aj (we_owner env) i e)) (\<lambda>_. released)" for pkg sha aj e
    by (rule meets_tx [OF held_stable(1)], rule tx_move [where t = COMPLETED, simplified])
       (auto simp: complete_tx_def keeps_core_def selection_columns_def quiet_writes)
  show ?thesis
    unfolding complete_def Some ex_id_def assms option.case
    by (rule spec_bind [OF meets_read [OF held_stable(1)]], rule spec_at_run, rule tx)
qed

lemma meets_readmit:
  assumes "claimed_job_id (ex_job x) = i"
  shows "meets (held st n) (readmit env x st cand rsn) (\<lambda>st' w. st' = ADMITTED \<and> held ADMITTED n w)"
proof -
  have retry: "meets (held st n) (transact env (readmit_retrying (we_owner env) i st rsn)) (\<lambda>_. held RETRYING n)"
    by (rule meets_tx [OF held_stable(1)], rule tx_move [where t = RETRYING, simplified])
       (auto simp: readmit_retrying_def keeps_core_def quiet_writes)
  have admit: "meets (held RETRYING n) (transact env (readmit_admit (we_packages env) (we_owner env) i cand rsn)) (\<lambda>_. held ADMITTED n)"
    by (rule meets_tx [OF held_stable(1)], rule tx_move [where t = ADMITTED, simplified])
       (auto simp: readmit_admit_def Let_def selection_columns_core quiet_writes)
  have first: "meets (held st n) (if st \<noteq> RETRYING
       then and_then (transact env (readmit_retrying (we_owner env) i st rsn)) (\<lambda>_. set_state env i RETRYING) else give ()) (\<lambda>_. held RETRYING n)"
    by (auto intro!: spec_bind [OF retry] meets_pieces held_stable spec_give)
  have stop: "meets (held RETRYING n) (and_then (transact env (cancel_from (we_owner env) i [])) (\<lambda>_. stop_with WasCancelled)) Q"
    for Q :: "JobState \<Rightarrow> World \<Rightarrow> bool"
    by (rule spec_bind [OF meets_cancel]) (auto intro: spec_cancelled)
  have go: "meets (held RETRYING n) (and_then (transact env (readmit_admit (we_packages env) (we_owner env) i cand rsn)) (\<lambda>_.
      and_then (set_candidate env i cand) (\<lambda>_. give ADMITTED))) (\<lambda>st' w. st' = ADMITTED \<and> held ADMITTED n w)"
    by (rule spec_bind [OF admit], rule spec_bind [OF meets_pieces(4) [OF held_stable(1)]]) (auto intro: spec_give)
  show ?thesis
    unfolding readmit_def ex_id_def assms
    by (rule spec_bind [OF first], rule spec_bind [OF meets_read [OF held_stable(1)]]) (use stop go in auto)
qed

text \<open>The invariant at the head of either loop, and what a pass establishes.\<close>

definition calm :: "position \<Rightarrow> bool" where
  "calm ps \<longleftrightarrow> (\<forall>r \<in> set (ps_records ps). rec_outcome r \<noteq> ''cancelled'')"

definition at_head :: "position \<Rightarrow> World \<Rightarrow> bool" where
  "at_head ps w \<longleftrightarrow> held (ps_state ps) (ps_number ps) w \<and> calm ps"

definition after_pass :: "pass \<Rightarrow> World \<Rightarrow> bool" where
  "after_pass p w = (case p of Finished \<Rightarrow> released w | Continue ps \<Rightarrow> at_head ps w)"

lemma finished_pass: "meets P m (\<lambda>_. released) \<Longrightarrow> meets P (finish m) after_pass"
  by (erule spec_weaken [OF spec_finish]) (auto simp: after_pass_def)

lemma continued_pass: "(\<And>w. P w \<Longrightarrow> at_head ps w) \<Longrightarrow> meets P (give (Continue ps)) after_pass"
  by (rule spec_give) (simp add: after_pass_def)

lemma meets_next_index: "(\<And>w. P w \<Longrightarrow> leases_ok w) \<Longrightarrow> meets P (next_index x k larger) (\<lambda>_. P)"
  unfolding next_index_def
  by (auto intro!: spec_stop spec_give simp: lease_lost_def split: sum.splits index_error.splits)

lemma held_leases: "held st n w \<Longrightarrow> leases_ok w"
  by (simp add: holding_def)

lemma meets_candidate_pass:
  assumes "claimed_job_id (ex_job x) = i" "calm ps"
  shows "meets (held (ps_state ps) (ps_number ps)) (candidate_pass env x ps) after_pass"
proof -
  have skip: "meets (held (ps_state ps) (ps_number ps)) (skip_candidate env x ps cid) after_pass" for cid
  proof -
    have requeue: "meets (held (ps_state ps) (ps_number ps)) (and_then (transact env (requeue_for_probe (we_owner env) i (ps_state ps) sk)) (\<lambda>_. in_memory env f))
        (\<lambda>_. released)" for sk f by (rule spec_bind [OF meets_requeue]) (rule meets_memory [OF held_stable(2)])
    have next_one: "meets (held (ps_state ps) (ps_number ps)) (give (Continue (ps\<lparr>ps_index := k, ps_skipped := sk\<rparr>))) after_pass" for k sk
      using assms(2) by (auto intro!: continued_pass simp: at_head_def calm_def)
    show ?thesis unfolding skip_candidate_def Let_def ex_id_def assms(1)
      by (rule spec_bind [OF meets_next_index [OF held_leases]])
        (auto split: option.splits intro!: finished_pass requeue next_one)
  qed
  have enter: "meets (held (ps_state ps) (ps_number ps)) (enter_candidate env x ps cand h) after_pass" for cand h
  proof (cases "ps_first ps")
    case True
    then show ?thesis unfolding enter_candidate_def using assms(2)
      by (auto intro!: spec_bind [OF spec_give [where Q = "\<lambda>st w. st = ps_state ps \<and> held (ps_state ps) (ps_number ps) w"]] continued_pass
          simp: at_head_def calm_def)
  next
    case False
    then show ?thesis unfolding enter_candidate_def using assms(2)
      by (auto intro!: spec_bind [OF meets_readmit [OF assms(1)]] continued_pass simp: at_head_def calm_def)
  qed
  show ?thesis unfolding candidate_pass_def Let_def
    by (rule spec_bind [OF meets_pieces(2) [OF held_stable(1)]],
        rule spec_bind [where R = "\<lambda>_. held (ps_state ps) (ps_number ps)"])
       (auto intro!: spec_give meets_pieces held_stable skip enter)
qed

lemma meets_apply_decision:
  assumes "claimed_job_id (ex_job x) = i" "calm ps"
  shows "meets (held (ps_state ps) (ps_number ps)) (apply_decision env x ps kind o') after_pass"
proof -
  note fails = finished_pass [OF meets_fail [OF assms(1)]]
  have "records = ps_records ps \<Longrightarrow> records \<noteq> [] \<and> rec_outcome (last records) = ''cancelled'' \<longrightarrow> rec_attempt (last records) = n + 1" for records n
    using assms(2) by (auto simp: calm_def)
  note stops = finished_pass [OF meets_cancel [OF this]]
  have turns: "meets (held st n) (if kind = VALIDATION then
          (case corrective_turns (env_render (we_sync env)) (gen_transcript (ex_request x)) (out_text o') (the (out_validation o')) (ex_schema x) of
             (turns, c) \<Rightarrow> (case env_turns_refused (we_sync env) turns of Some e \<Rightarrow> stop_with (Refusal e) | None \<Rightarrow> give (turns, Some c)))
        else give (ps_turns ps, ps_correction ps)) (\<lambda>_. held st n)" for st n
    by (auto intro!: spec_stop spec_give simp: lease_lost_def held_leases split: prod.splits option.splits)
  have retry: "meets (held (ps_state ps) (ps_number ps)) (case p of (turns, c) \<Rightarrow> and_then (readmit env x (ps_state ps) cand rsn) (\<lambda>st.
      give (Continue (ps\<lparr>ps_state := st, ps_turns := turns, ps_correction := c\<rparr>)))) after_pass" for p cand rsn
    using assms(2) by (cases p) (auto intro!: spec_bind [OF meets_readmit [OF assms(1)]] continued_pass simp: at_head_def calm_def)
  have fallback: "meets (held (ps_state ps) (ps_number ps)) (and_then (next_index x (ps_index ps) l) (\<lambda>k.
      (case k of None \<Rightarrow> finish (fail env x (ps_state ps) (ps_records ps) ''ALL_CANDIDATES_FAILED'')
       | Some n \<Rightarrow> give (Continue (ps\<lparr>ps_index := n, ps_inner := False\<rparr>))))) after_pass" for l
    using assms(2) by (auto intro!: spec_bind [OF meets_next_index [OF held_leases]] fails continued_pass simp: at_head_def calm_def split: option.splits)
  show ?thesis
  proof (cases "action (next_action kind (ps_here ps) (per_candidate x))")
    case RETRY_SAME
    show ?thesis unfolding apply_decision_def Let_def RETRY_SAME Action.case
      by (rule spec_if, rule fails, rule spec_bind [OF turns], rule retry)
  next
    case FALLBACK
    show ?thesis unfolding apply_decision_def Let_def FALLBACK Action.case by (rule fallback)
  next
    case STOP
    show ?thesis unfolding apply_decision_def Let_def STOP Action.case ex_id_def assms(1) by (rule stops) (rule refl)
  qed
qed

lemma run_attempt_uncancelled:
  assumes "run_attempt ctx el st co req cand turns n s ep vp tmo corr = Inr (o', ch)" "\<not> out_cancelled o'"
  shows "rec_outcome (out_record o') \<noteq> ''cancelled''"
  using assms by (auto simp: run_attempt_def attempt_record_def failure_outcome_def Let_def split: sum.splits option.splits prod.splits if_splits)

lemma publish_chunks_jobs [simp]: "jobs (fold (publish_chunk k) chunks w) = jobs w"
  by (induction chunks arbitrary: w) (auto simp: publish_chunk_def publish_live_def Let_def split: StreamChunk.splits)

lemma meets_call:
  "meets (held st n) (call_provider env x cand turns number corr)
     (\<lambda>o' w. held st n w \<and> rec_attempt (out_record o') = number \<and> (\<not> out_cancelled o' \<longrightarrow> rec_outcome (out_record o') \<noteq> ''cancelled''))"
proof -
  have pre: "spec owner k P m Q \<Longrightarrow> spec owner k P (m \<circ> (\<lambda>r. r\<lparr>rn_calls := Suc (rn_calls r)\<rparr>)) Q" for owner k P and m :: "'b act" and Q
    by (simp add: spec_def)
  show ?thesis
    unfolding call_provider_def
    by (rule pre, rule meets_access [OF held_stable(1)])
      (auto simp: holding_def leases_ok_def held_row_def stopped_def lease_lost_def run_attempt_number run_attempt_uncancelled
        split: sum.splits attempt_error.splits prod.splits if_splits)
qed

lemma meets_settle:
  assumes "claimed_job_id (ex_job x) = i" "calm ps" "rec_attempt (out_record o') = n + 1" "ps_number ps = n + 1"
  shows "meets (held EXECUTING n) (settle_attempt env x ps o') after_pass"
proof (cases "out_failure o'")
  case (Some e)
  have "meets (held RETRYING (n + 1)) (apply_decision env x (ps\<lparr>ps_state := RETRYING\<rparr>) kind o') after_pass" for kind
    using meets_apply_decision [OF assms(1), of "ps\<lparr>ps_state := RETRYING\<rparr>"] assms(2,4) by (simp add: calm_def)
  then show ?thesis unfolding settle_attempt_def Some ex_id_def assms(1) option.case
    by (rule spec_bind [OF meets_failed_attempt [OF assms(3)], OF spec_bind [OF meets_pieces(3) [OF held_stable(1)]]])
next
  case None
  have "meets (held VALIDATING (n + 1)) (apply_decision env x (ps\<lparr>ps_state := VALIDATING\<rparr>) kind o') after_pass" for kind
    using meets_apply_decision [OF assms(1), of "ps\<lparr>ps_state := VALIDATING\<rparr>"] assms(2,4) by (simp add: calm_def)
  then show ?thesis unfolding settle_attempt_def None ex_id_def assms(1) option.case
    by (intro spec_bind [OF meets_validate [OF assms(3)], OF spec_bind [OF meets_pieces(3) [OF held_stable(1)]]] spec_if
        finished_pass meets_complete assms(1))
qed

lemma meets_cancel_attempt:
  assumes "claimed_job_id (ex_job x) = i" "records \<noteq> [] \<and> rec_outcome (last records) = ''cancelled'' \<longrightarrow> rec_attempt (last records) = n + 1"
  shows "meets (held st n) (cancel_attempt env x ps cand records) after_pass"
  unfolding cancel_attempt_def ex_id_def assms(1)
  by (rule finished_pass, rule spec_bind [OF meets_pieces(5) [OF held_stable(1)]], rule meets_cancel [OF assms(2)])

lemma meets_make_attempt:
  assumes "claimed_job_id (ex_job x) = i" "calm ps" "ps_number ps = n + 1"
  shows "meets (held (ps_state ps) n) (make_attempt env x ps cand) after_pass"
proof -
  let ?ok = "\<lambda>o' w. held EXECUTING n w \<and> rec_attempt (out_record o') = n + 1 \<and>
    (\<not> out_cancelled o' \<longrightarrow> rec_outcome (out_record o') \<noteq> ''cancelled'')"
  have rest: "meets (?ok o') (and_then (access env (\<lambda>_ s. (Inr (out_cancelled o' \<or> entry_cancelled env i s), s))) (\<lambda>cancelled.
       if cancelled then cancel_attempt env x ps cand (ps_records ps @ [out_record o'])
       else settle_attempt env x (ps\<lparr>ps_state := EXECUTING, ps_records := ps_records ps @ [out_record o']\<rparr>) o')) after_pass" for o'
  proof (cases "rec_attempt (out_record o') = n + 1 \<and> (\<not> out_cancelled o' \<longrightarrow> rec_outcome (out_record o') \<noteq> ''cancelled'')")
    case True
    then have num: "rec_attempt (out_record o') = n + 1" by simp
    have read: "meets (held EXECUTING n) (access env (\<lambda>_ s. (Inr (out_cancelled o' \<or> entry_cancelled env i s), s)))
        (\<lambda>c w. held EXECUTING n w \<and> (\<not> c \<longrightarrow> \<not> out_cancelled o'))"
      by (rule meets_access [OF held_stable(1)]) auto
    have settle: "meets (held EXECUTING n) (settle_attempt env x (ps\<lparr>ps_state := EXECUTING, ps_records := ps_records ps @ [out_record o']\<rparr>) o') after_pass"
      if "\<not> out_cancelled o'"
      using assms(2,3) True that by (intro meets_settle [OF assms(1) _ num]) (auto simp: calm_def)
    have cancel: "meets (held EXECUTING n) (cancel_attempt env x ps cand (ps_records ps @ [out_record o'])) after_pass"
      using num by (intro meets_cancel_attempt [OF assms(1)]) simp
    have "meets (held EXECUTING n) (and_then (access env (\<lambda>_ s. (Inr (out_cancelled o' \<or> entry_cancelled env i s), s))) (\<lambda>cancelled.
       if cancelled then cancel_attempt env x ps cand (ps_records ps @ [out_record o'])
       else settle_attempt env x (ps\<lparr>ps_state := EXECUTING, ps_records := ps_records ps @ [out_record o']\<rparr>) o')) after_pass"
    proof (rule spec_bind [OF read], rule spec_if)
      show "meets (\<lambda>w. held EXECUTING n w \<and> (\<not> c \<longrightarrow> \<not> out_cancelled o')) (cancel_attempt env x ps cand (ps_records ps @ [out_record o'])) after_pass" for c
        by (rule spec_weaken [OF cancel]) auto
      show "meets (\<lambda>w. held EXECUTING n w \<and> (\<not> c \<longrightarrow> \<not> out_cancelled o'))
          (settle_attempt env x (ps\<lparr>ps_state := EXECUTING, ps_records := ps_records ps @ [out_record o']\<rparr>) o') after_pass" if "\<not> c" for c
      proof (cases "out_cancelled o'")
        case False
        show ?thesis by (rule spec_weaken [OF settle [OF False]]) auto
      qed (use that in \<open>simp add: spec_def\<close>)
    qed
    then show ?thesis by (rule spec_weaken) auto
  next
    case False
    then show ?thesis by (auto simp: spec_def)
  qed
  show ?thesis
    unfolding make_attempt_def ex_id_def assms(1)
    by (rule spec_bind [OF meets_start [OF assms(1)]], rule spec_bind [OF meets_pieces(3) [OF held_stable(1)]],
        rule spec_bind [OF meets_call], rule spec_weaken [OF rest]) (auto simp: assms(3))
qed

lemma meets_attempt_pass:
  assumes "claimed_job_id (ex_job x) = i" "calm ps"
  shows "meets (held (ps_state ps) (ps_number ps)) (attempt_pass env x ps) after_pass"
proof -
  let ?ps = "ps\<lparr>ps_number := ps_number ps + 1, ps_here := ps_here ps + 1\<rparr>"
  have calm: "calm ?ps" using assms(2) by (simp add: calm_def)
  have make: "meets (held (ps_state ps) (ps_number ps)) (make_attempt env x ?ps cand) after_pass" for cand
    using meets_make_attempt [OF assms(1) calm, of "ps_number ps"] by simp
  have cancel: "meets (held (ps_state ps) (ps_number ps)) (cancel_attempt env x ?ps cand (ps_records ?ps)) after_pass" for cand
    using assms(2) by (intro meets_cancel_attempt [OF assms(1)]) (auto simp: calm_def)
  have "meets (held (ps_state ps) (ps_number ps)) (and_then (must_stop env (ex_id x)) (\<lambda>stopped. if stopped
      then cancel_attempt env x ?ps cand (ps_records ?ps) else make_attempt env x ?ps cand)) after_pass" for cand
    by (rule spec_bind [OF meets_row_cancel(1) [OF held_stable(1) held_leases]]) (use make cancel in auto)
  then show ?thesis
    unfolding attempt_pass_def Let_def by (intro spec_if finished_pass meets_fail assms(1)) auto
qed

lemma meets_one_pass:
  "claimed_job_id (ex_job x) = i \<Longrightarrow> meets (at_head ps) (one_pass env x ps) after_pass"
proof (cases "calm ps")
  case True
  assume x: "claimed_job_id (ex_job x) = i"
  show ?thesis unfolding one_pass_def
    by (rule spec_if; rule spec_weaken [OF meets_attempt_pass [OF x True]] spec_weaken [OF meets_candidate_pass [OF x True]])
      (auto simp: at_head_def)
qed (simp add: spec_def at_head_def)

definition loop_meets :: "(World \<Rightarrow> bool) \<Rightarrow> (run \<Rightarrow> ((worker_stop + unit) \<times> run) option) \<Rightarrow> bool" where
  "loop_meets P f \<longleftrightarrow> (\<forall>r res r'. P (world r) \<longrightarrow> f r = Some (res, r') \<longrightarrow>
     (case res of Inr _ \<Rightarrow> released (world r') | Inl e \<Rightarrow> stopped (we_owner env) i e (world r')))"

lemma loop_attempts:
  assumes "claimed_job_id (ex_job x) = i" "ps_index ps < length (ex_candidates x)"
  shows "loop_meets (at_head ps) (attempts env x ps)"
proof -
  have "at_head ps (world r) \<longrightarrow> (\<forall>res r'. attempts env x ps r = Some (res, r') \<longrightarrow>
     (case res of Inr _ \<Rightarrow> released (world r') | Inl e \<Rightarrow> stopped (we_owner env) i e (world r')))" for r
  proof (rule pass_induct [OF assms(2), where env = env], intro impI allI)
    fix ps r res r'
    assume later: "\<And>ps' r'. one_pass env x ps r = (Inr (Continue ps'), r') \<Longrightarrow> ps_index ps' < length (ex_candidates x) \<Longrightarrow>
        at_head ps' (world r') \<longrightarrow> (\<forall>res r''. attempts env x ps' r' = Some (res, r'') \<longrightarrow>
          (case res of Inr _ \<Rightarrow> released (world r'') | Inl e \<Rightarrow> stopped (we_owner env) i e (world r'')))"
      and here: "ps_index ps < length (ex_candidates x)" "at_head ps (world r)" and ret: "attempts env x ps r = Some (res, r')"
    obtain p r1 where pass: "one_pass env x ps r = (p, r1)" by fastforce
    have post: "case (p, r1) of (Inr a, r') \<Rightarrow> after_pass a (world r') | (Inl e, r') \<Rightarrow> stopped (we_owner env) i e (world r')"
      using meets_one_pass [OF assms(1), of ps, unfolded spec_def, rule_format, OF here(2)] unfolding pass .
    show "case res of Inr _ \<Rightarrow> released (world r') | Inl e \<Rightarrow> stopped (we_owner env) i e (world r')"
    proof (cases "\<exists>ps'. p = Inr (Continue ps')")
      case True
      then obtain ps' where p: "p = Inr (Continue ps')" by blast
      have "ps_index ps' < length (ex_candidates x)" using one_pass_progress(1) [OF pass [unfolded p] here(1)] by (simp add: progressed_def)
      moreover have "at_head ps' (world r1)" using post p by (simp add: after_pass_def)
      moreover have "attempts env x ps' r1 = Some (res, r')" using ret pass p by (subst (asm) attempts.simps) simp
      ultimately show ?thesis using later [OF pass [unfolded p], rule_format] by simp
    next
      case False
      then show ?thesis using ret pass post by (subst (asm) attempts.simps) (auto simp: after_pass_def split: sum.splits pass.splits)
    qed
  qed
  then show ?thesis by (auto simp: loop_meets_def)
qed


lemma loop_over: "meets P m (\<lambda>_. released) \<Longrightarrow> loop_meets P (\<lambda>r. Some (m r))"
  by (fastforce simp: loop_meets_def spec_def split: prod.splits sum.splits)

lemma loop_then:
  assumes "meets P m R" "\<And>a. loop_meets (R a) (k a)"
  shows "loop_meets P (then_loop m k)"
  unfolding loop_meets_def
proof (intro allI impI)
  fix r res r' assume p: "P (world r)" and k: "then_loop m k r = Some (res, r')"
  have post: "case m r of (Inr a, r') \<Rightarrow> R a (world r') | (Inl e, r') \<Rightarrow> stopped (we_owner env) i e (world r')"
    using assms(1) p by (simp add: spec_def)
  show "case res of Inr _ \<Rightarrow> released (world r') | Inl e \<Rightarrow> stopped (we_owner env) i e (world r')"
  proof (cases "m r")
    case (Pair x r1)
    show ?thesis
    proof (cases x)
      case (Inl e)
      with k post Pair show ?thesis by (auto simp: then_loop_def)
    next
      case (Inr a)
      with k post Pair have "k a r1 = Some (res, r')" "R a (world r1)" by (auto simp: then_loop_def)
      then show ?thesis using assms(2) [of a] unfolding loop_meets_def by blast
    qed
  qed
qed

lemma loop_weaken: "loop_meets P f \<Longrightarrow> (\<And>w. P' w \<Longrightarrow> P w) \<Longrightarrow> loop_meets P' f"
  by (auto simp: loop_meets_def)

lemma meets_route_job:
  assumes "claimed_job_id job = i"
  shows "meets (held LEASED n) (route_job env job) (\<lambda>found w. case found of None \<Rightarrow> released w | Some _ \<Rightarrow> held LEASED n w)"
proof -
  have refresh: "meets (held LEASED n) (access env (refresh_breakers cfg samples names written)) (\<lambda>_. held LEASED n)" for cfg samples names written
    by (rule meets_access [OF held_stable(1)])
       (auto simp: refresh_breakers_def Let_def stopped_def lease_lost_def held_leases split: prod.splits option.splits)
  have put_off: "meets (held LEASED n) (transact env (defer_tx sh (we_owner env) i v cs d)) (\<lambda>_. released)" for sh v cs d
    by (rule meets_tx [OF held_stable(1)], rule tx_move [where t = WAITING_RESOURCES, simplified])
       (auto simp: defer_tx_def keeps_core_def quiet_writes)
  have failed: "meets (held LEASED n) (transact env (fail_admission (we_owner env) i e)) (\<lambda>_. released)" for e
    by (rule meets_tx [OF held_stable(1)], rule tx_move [where t = FAILED, simplified])
       (auto simp: fail_admission_def keeps_core_def quiet_writes)
  show ?thesis
    unfolding route_job_def assms
    by (rule spec_bind [OF spec_at_run [OF refresh]], rule spec_bind [OF meets_read [OF held_stable(1)]])
       (auto intro!: spec_bind [OF put_off] spec_bind [OF failed] spec_give spec_stop simp: lease_lost_def held_leases split: routed.splits sum.splits)
qed

lemma meets_admit:
  assumes "claimed_job_id (ex_job x) = i"
  shows "meets (held LEASED n) (admit env x) (\<lambda>_ w. held ADMITTED n w \<and> ex_candidates x \<noteq> [])"
proof (cases "primary (rt_ranking (ex_routing x))")
  case None
  then show ?thesis by (auto simp: admit_def lease_lost_def held_leases intro!: spec_stop)
next
  case (Some c)
  have tx: "meets (held LEASED n) (transact env (admit_tx (we_packages env) (we_owner env) i d c)) (\<lambda>_. held ADMITTED n)" for d
    by (rule meets_tx [OF held_stable(1)], rule tx_move [where t = ADMITTED, simplified])
       (auto simp: admit_tx_def Let_def selection_columns_core quiet_writes)
  have some: "ex_candidates x \<noteq> []" by (simp add: ex_candidates_def Some)
  show ?thesis unfolding admit_def Some option.case ex_id_def assms
    by (rule spec_bind [OF tx], rule spec_weaken [OF meets_pieces(4) [OF held_stable(1)]]) (simp_all add: some)
qed

lemma loop_run_job:
  assumes "claimed_job_id job = i"
  shows "loop_meets (held LEASED (claimed_attempt job)) (run_job env job)"
proof -
  have early: "meets (held LEASED n) (if c then give True else read_cancel env i) (\<lambda>_. held LEASED n)" for c n
    by (auto intro!: spec_give meets_row_cancel held_stable held_leases)
  have cancel: "loop_meets (held st n) (\<lambda>r. Some (transact env (cancel_from (we_owner env) i []) r))" for st n
    by (rule loop_over [OF meets_cancel]) simp
  have go: "loop_meets (\<lambda>w. held ADMITTED (claimed_attempt job) w \<and> ex_candidates x \<noteq> [])
      (attempts env x (start_position x))" if x: "x = \<lparr>ex_job = job, ex_routing = routing, ex_schema = s\<rparr>" for x routing s
  proof (cases "ex_candidates x \<noteq> []")
    case True
    then have "loop_meets (at_head (start_position x)) (attempts env x (start_position x))"
      using x assms by (intro loop_attempts) (simp_all add: start_position_def)
    then show ?thesis by (rule loop_weaken) (simp add: at_head_def calm_def start_position_def x)
  qed (simp add: loop_meets_def)
  have late: "loop_meets (\<lambda>w. held ADMITTED (claimed_attempt job) w \<and> ex_candidates x \<noteq> [])
      (then_loop (read_cancel env i) (\<lambda>late. if late then (\<lambda>r. Some (transact env (cancel_from (we_owner env) i []) r))
         else attempts env x (start_position x)))" if x: "x = \<lparr>ex_job = job, ex_routing = routing, ex_schema = s\<rparr>" for x routing s
  proof (rule loop_then [where R = "\<lambda>_ w. held ADMITTED (claimed_attempt job) w \<and> ex_candidates x \<noteq> []"])
    have "meets (held ADMITTED (claimed_attempt job)) (read_cancel env i) (\<lambda>_. held ADMITTED (claimed_attempt job))"
      by (rule meets_row_cancel(2) [OF held_stable(1) held_leases])
    then show "meets (\<lambda>w. held ADMITTED (claimed_attempt job) w \<and> ex_candidates x \<noteq> []) (read_cancel env i)
        (\<lambda>_ w. held ADMITTED (claimed_attempt job) w \<and> ex_candidates x \<noteq> [])"
      by (cases "ex_candidates x \<noteq> []") (simp_all add: spec_def)
  qed (auto intro: go [OF x] loop_weaken [OF cancel])
  have found: "loop_meets (held LEASED (claimed_attempt job)) (case we_schema env routing of
         Inl e \<Rightarrow> (\<lambda>r. Some (stop_with (Refusal e) r))
       | Inr s \<Rightarrow> then_loop (admit env \<lparr>ex_job = job, ex_routing = routing, ex_schema = s\<rparr>) (\<lambda>_.
           then_loop (read_cancel env i) (\<lambda>late. if late then (\<lambda>r. Some (transact env (cancel_from (we_owner env) i []) r))
             else attempts env \<lparr>ex_job = job, ex_routing = routing, ex_schema = s\<rparr>
               (start_position \<lparr>ex_job = job, ex_routing = routing, ex_schema = s\<rparr>))))" for routing
  proof (cases "we_schema env routing")
    case (Inl e)
    then show ?thesis by (auto intro!: loop_over spec_stop simp: lease_lost_def held_leases)
  next
    case (Inr s)
    show ?thesis unfolding Inr sum.case by (rule loop_then [OF meets_admit late]) (simp_all add: assms)
  qed
  show ?thesis
    unfolding run_job_def Let_def assms
  proof (rule loop_then [OF early])
    show "loop_meets (held LEASED (claimed_attempt job)) (if c then (\<lambda>r. Some (transact env (cancel_from (we_owner env) i []) r))
        else then_loop (route_job env job) (\<lambda>found. case found of None \<Rightarrow> (\<lambda>r. Some (give () r)) | Some routing \<Rightarrow>
          (case we_schema env routing of Inl e \<Rightarrow> (\<lambda>r. Some (stop_with (Refusal e) r))
           | Inr s \<Rightarrow> then_loop (admit env \<lparr>ex_job = job, ex_routing = routing, ex_schema = s\<rparr>) (\<lambda>_.
           then_loop (read_cancel env i) (\<lambda>late. if late then (\<lambda>r. Some (transact env (cancel_from (we_owner env) i []) r))
             else attempts env \<lparr>ex_job = job, ex_routing = routing, ex_schema = s\<rparr>
               (start_position \<lparr>ex_job = job, ex_routing = routing, ex_schema = s\<rparr>))))))" for c
    proof (cases c)
      case False
      show ?thesis unfolding if_not_P [OF False]
      proof (rule loop_then [OF meets_route_job [OF assms]])
        fix found :: "RoutingResult option"
        show "loop_meets (\<lambda>w. case found of None \<Rightarrow> released w | Some _ \<Rightarrow> held LEASED (claimed_attempt job) w)
          (case found of None \<Rightarrow> (\<lambda>r. Some (give () r)) | Some routing \<Rightarrow>
          (case we_schema env routing of Inl e \<Rightarrow> (\<lambda>r. Some (stop_with (Refusal e) r))
           | Inr s \<Rightarrow> then_loop (admit env \<lparr>ex_job = job, ex_routing = routing, ex_schema = s\<rparr>) (\<lambda>_.
           then_loop (read_cancel env i) (\<lambda>late. if late then (\<lambda>r. Some (transact env (cancel_from (we_owner env) i []) r))
             else attempts env \<lparr>ex_job = job, ex_routing = routing, ex_schema = s\<rparr>
               (start_position \<lparr>ex_job = job, ex_routing = routing, ex_schema = s\<rparr>)))))"
          using found by (cases found) (auto intro: loop_over spec_give)
      qed
    qed (use cancel in simp)
  qed
qed

lemma meets_handle_stop:
  assumes "claimed_job_id job = i"
  shows "case res of Inr _ \<Rightarrow> released (world r) | Inl e \<Rightarrow> stopped (we_owner env) i e (world r) \<Longrightarrow>
    released (world (snd (handle_stop env job res r)))"
proof -
  assume res: "case res of Inr _ \<Rightarrow> released (world r) | Inl e \<Rightarrow> stopped (we_owner env) i e (world r)"
  have flight: "meets released (change_flight env f) (\<lambda>_. released)" for f by (rule meets_pieces(1) [OF held_stable(2)])
  have crash: "meets leases_ok (transact env (\<lambda>now w. Inr (fail_after_crash (we_owner env) i code txt' now w))) (\<lambda>_. released)" for code txt'
    by (rule meets_tx [OF held_stable(3) tx_crash])
  have never: "\<exists>a r'. transact env (\<lambda>now w. Inr (g now w)) r = (Inr a, r')" "\<exists>a r'. change_flight env f r = (Inr a, r')" for g f
    by (auto simp: transact_def change_flight_def in_memory_def access_def)
  show ?thesis
  proof (cases res)
    case (Inl e)
    then have s: "leases_ok (world r)" "lease_lost e \<or> e = WasCancelled \<Longrightarrow> released (world r)" using res by (auto simp: stopped_def)
    consider "e = WasCancelled" | "e \<noteq> WasCancelled" "lease_lost e" | "e \<noteq> WasCancelled" "\<not> lease_lost e" by blast
    then show ?thesis
    proof cases
      case 1
      then show ?thesis using Inl s by (simp add: handle_stop_def give_def)
    next
      case 2
      then have eq: "handle_stop env job res = change_flight env (\<lambda>_. update_entry i (we_owner env) (\<lambda>e. e\<lparr>if_cancelled := True\<rparr>))"
        by (cases e) (auto simp: handle_stop_def Inl assms Let_def)
      have "released (world r)" using s(2) 2 by simp
      from spec_Inr [OF flight this never(2)] show ?thesis unfolding eq by simp
    next
      case 3
      then have eq: "handle_stop env job res = transact env (\<lambda>now w. Inr (fail_after_crash (we_owner env) i (crash_code e) (we_error_text env e) now w))"
        by (cases e) (auto simp: handle_stop_def Inl assms Let_def)
      from spec_Inr [OF crash s(1) never(1)] show ?thesis unfolding eq by simp
    qed
  qed (use res in \<open>simp add: handle_stop_def give_def\<close>)
qed

lemma process_lets_go:
  assumes "claimed_job_id job = i" "held LEASED (claimed_attempt job) (world r)" "process env job r = Some r'"
  shows "released (world r')"
proof -
  have memory: "P (world r0) \<Longrightarrow> P (world (snd (in_memory env f r0)))" if "stable (we_owner env) i P"
    for P r0 and f :: "instant \<Rightarrow> shared \<Rightarrow> unit \<times> registry \<times> breakers \<times> bool \<times> bool"
    using meets_memory [OF that, of f, unfolded spec_def, rule_format, of r0]
    by (auto simp: in_memory_def access_def split: prod.splits)
  let ?r1 = "snd (change_flight env (\<lambda>now. register (new_entry env job now)) r)"
  have r1: "held LEASED (claimed_attempt job) (world ?r1)"
    unfolding change_flight_def by (rule memory [OF held_stable(1) assms(2)])
  obtain res r2 where run: "run_job env job ?r1 = Some (res, r2)"
    using assms(3) by (auto simp: process_def Let_def split: option.splits)
  have "case res of Inr _ \<Rightarrow> released (world r2) | Inl e \<Rightarrow> stopped (we_owner env) i e (world r2)"
    using loop_run_job [OF assms(1), unfolded loop_meets_def, rule_format, OF r1 run] .
  then have "released (world (snd (handle_stop env job res r2)))" by (rule meets_handle_stop [OF assms(1)])
  then have "released (world (snd (in_memory env f (snd (handle_stop env job res r2)))))"
    for f :: "instant \<Rightarrow> shared \<Rightarrow> unit \<times> registry \<times> breakers \<times> bool \<times> bool" by (rule memory [OF held_stable(2)])
  then show ?thesis using assms(3) run by (auto simp: process_def Let_def)
qed

end

end
