(* ===== verification/Store_Steps.thy ===== *)
theory Store_Steps
  imports Scheduler Worker_Release
begin

section \<open>All transactions of the store\<close>

text \<open>
  Every transaction the program commits on the job tables, from any thread or process, as one step relation:
  submissions, claims, the workers' transactions, the scheduler's sweeps, cancellation requests, startup recovery,
  the synchronous path, retention. The actor of a step is the lease owner a worker acts as, or nobody. Shown here:
  the invariant of the store, which every step keeps, and what a worker may rely on while the others
  run, which discharges the interface \<open>interference\<close> of the worker's run.
\<close>

subsection \<open>The invariant\<close>

definition row_ok :: "Job \<Rightarrow> bool" where
  "row_ok j \<longleftrightarrow> lease_ok j \<and> (completed_at j \<noteq> None \<longleftrightarrow> job_state j \<in> TERMINAL_STATES)"

definition attempt_numbers :: "string \<Rightarrow> World \<Rightarrow> int list" where
  "attempt_numbers i w = map ja_attempt (filter (\<lambda>a. ja_job_id a = i) (job_attempts w))"

definition attempts_ok :: "World \<Rightarrow> bool" where
  "attempts_ok w \<longleftrightarrow> (\<forall>j \<in> set (jobs w). 0 \<le> attempt j \<and> attempt_numbers (job_id j) w = map int [1..<Suc (nat (attempt j))]) \<and>
     ja_job_id ` set (job_attempts w) \<subseteq> job_id ` set (jobs w)"

definition store_ok :: "World \<Rightarrow> bool" where
  "store_ok w \<longleftrightarrow> distinct (map job_id (jobs w)) \<and> (\<forall>j \<in> set (jobs w). row_ok j) \<and> unique_keys (jobs w) \<and> attempts_ok w \<and>
     ordered_events (job_events w)"

lemma store_ok_leases: "store_ok w \<Longrightarrow> leases_ok w"
  by (simp add: store_ok_def leases_ok_def row_ok_def)

lemma store_ok_distinct: "store_ok w \<Longrightarrow> distinct (map job_id (jobs w))"
  by (simp add: store_ok_def)

text \<open>Steps that rewrite rows in place.\<close>

definition row_kept :: "Job \<Rightarrow> Job \<Rightarrow> bool" where
  "row_kept j j' \<longleftrightarrow> job_id j' = job_id j \<and> job_source j' = job_source j \<and> idempotency_key j' \<in> {idempotency_key j, None} \<and>
     attempt j' = attempt j \<and> (lease_ok j \<longrightarrow> lease_ok j') \<and> (row_ok j \<longrightarrow> row_ok j')"

definition rewritten :: "(Job \<Rightarrow> Job) \<Rightarrow> World \<Rightarrow> World \<Rightarrow> bool" where
  "rewritten f w w' \<longleftrightarrow> jobs w' = map f (jobs w) \<and> job_attempts w' = job_attempts w \<and>
     (ordered_events (job_events w) \<longrightarrow> ordered_events (job_events w'))"

lemma store_ok_rewritten:
  assumes "store_ok w" "rewritten f w w'" "\<And>j. j \<in> set (jobs w) \<Longrightarrow> row_kept j (f j)"
  shows "store_ok w'"
proof -
  have rows: "jobs w' = map f (jobs w)" and at: "job_attempts w' = job_attempts w" and ev: "ordered_events (job_events w')"
    using assms(1,2) by (auto simp: rewritten_def store_ok_def)
  have ids: "map job_id (jobs w') = map job_id (jobs w)" unfolding rows using assms(3) by (simp add: row_kept_def)
  have "attempt_numbers i w' = attempt_numbers i w" for i by (simp add: attempt_numbers_def at)
  moreover have "job_id ` set (jobs w') = job_id ` set (jobs w)" using ids by (metis list.set_map)
  moreover have "\<forall>j \<in> set (jobs w). attempt (f j) = attempt j \<and> job_id (f j) = job_id j" using assms(3) by (auto simp: row_kept_def)
  ultimately have "attempts_ok w'" using assms(1) by (auto simp: attempts_ok_def store_ok_def at rows)
  moreover have "unique_keys (jobs w')"
    unfolding rows using assms(1,3) by (intro unique_keys_map) (auto simp: store_ok_def row_kept_def)
  moreover have "\<forall>j \<in> set (jobs w'). row_ok j" using assms(1,3) by (auto simp: store_ok_def rows row_kept_def)
  ultimately show ?thesis using assms(1) ids ev by (simp add: store_ok_def)
qed

lemma row_kept_refl: "row_kept j j"
  by (simp add: row_kept_def)

lemma legal_not_terminal: "is_legal s t \<Longrightarrow> s \<notin> TERMINAL_STATES"
  by (cases s; cases t) (auto simp: is_legal_def TRANSITIONS_def state_set_defs)

lemma state_partition: "(s \<in> IN_FLIGHT_STATES) \<longleftrightarrow> \<not> (s \<in> WAITING_STATES \<or> s \<in> TERMINAL_STATES)"
  by (cases s) (auto simp: state_set_defs)

lemma assignments_core [simp]:
  "job_source (assignments t now rsn j) = job_source j" "idempotency_key (assignments t now rsn j) = idempotency_key j"
  "job_state (assignments t now rsn j) = t"
  "lease_owner (assignments t now rsn j) = (if t \<in> IN_FLIGHT_STATES then lease_owner j else None)"
  "lease_expires_at (assignments t now rsn j) = (if t \<in> IN_FLIGHT_STATES then lease_expires_at j else None)"
  "completed_at (assignments t now rsn j) = (if t \<in> TERMINAL_STATES then Some now else completed_at j)"
  by (simp_all add: assignments_def Let_def state_partition)

lemma moved_row_kept:
  assumes "is_legal (job_state j) t" "keeps_core vals"
  shows "row_kept j (vals (assignments t now rsn j))"
  using assms legal_not_terminal [OF assms(1)]
  by (auto simp: row_kept_def keeps_core_def row_ok_def lease_ok_def)

text \<open>Steps that add a row.\<close>

lemma store_ok_added:
  assumes ok: "store_ok w" and ins: "insert_job row w = Inr w'" and "row_ok row" "attempt row = 0"
  shows "store_ok w'"
proof -
  have rows: "jobs w' = jobs w @ [row]" "job_attempts w' = job_attempts w" "job_events w' = job_events w"
    and fresh: "\<forall>j \<in> set (jobs w). job_id j \<noteq> job_id row"
    and key: "\<forall>j \<in> set (jobs w). \<not> same_key j row"
    using ins by (auto simp: insert_job_def same_key_def split: if_splits)
  have "unique_keys (jobs w')" using ok key by (auto simp: store_ok_def rows unique_keys_def sorted_wrt_append)
  moreover have "filter (\<lambda>a. ja_job_id a = job_id row) (job_attempts w) = []"
    using ok fresh by (auto simp: store_ok_def attempts_ok_def filter_empty_conv)
  then have "attempts_ok w'" using ok assms(4) by (auto simp: store_ok_def attempts_ok_def attempt_numbers_def rows)
  ultimately show ?thesis using ok fresh assms(3) by (auto simp: store_ok_def rows)
qed

text \<open>Steps of a lease holder, and of the executor's attempt table.\<close>

lemma store_ok_owned:
  assumes ok: "store_ok w" and own: "owned_change owner i w w'"
  shows "store_ok w'"
proof -
  obtain j j' new where j: "get_row i (jobs w) = Some j" "row_moved j j'" "jobs w' = update_where (\<lambda>r. job_id r = i) (\<lambda>_. j') (jobs w)"
    "job_attempts w' = job_attempts w @ new" "attempt j' = attempt j + int (length new)"
    and pairs: "map (\<lambda>a. (ja_job_id a, ja_attempt a)) new = map (\<lambda>k. (i, attempt j + int k)) [1..<Suc (length new)]"
    and ev: "ordered_events (job_events w')" and lo: "lease_owner j = Some owner"
    using own ok unfolding owned_change_def store_ok_def by blast
  have jin: "j \<in> set (jobs w)" "job_id j = i" using j(1) ok by (auto simp: get_row_Some store_ok_def)
  have rows: "jobs w' = map (\<lambda>r. if job_id r = i then j' else r) (jobs w)" by (simp add: j(3) update_where_def)
  have same: "r = j" if "r \<in> set (jobs w)" "job_id r = i" for r
    using unique_row [OF store_ok_distinct [OF ok] jin(1) that(1)] that(2) jin(2) by simp
  have idj: "job_id j' = i" using j(2) jin(2) by (simp add: row_moved_def)
  have ids: "map job_id (jobs w') = map job_id (jobs w)" unfolding rows using idj by simp
  have nums: "map ja_attempt new = map (\<lambda>k. attempt j + int k) [1..<Suc (length new)]" "map ja_job_id new = map (\<lambda>_. i) [1..<Suc (length new)]"
    using arg_cong [OF pairs, of "map snd"] arg_cong [OF pairs, of "map fst"] by (simp_all add: comp_def del: upt_Suc)
  have mine: "\<forall>a \<in> set new. ja_job_id a = i" using nums(2) by (metis (no_types, lifting) in_set_conv_nth length_map nth_map)
  have a0: "0 \<le> attempt j" "attempt_numbers i w = map int [1..<Suc (nat (attempt j))]" using ok jin by (auto simp: store_ok_def attempts_ok_def)
  have "attempt_numbers i w' = attempt_numbers i w @ map ja_attempt new" using mine by (simp add: attempt_numbers_def j(4))
  also have "\<dots> = map int [1..<Suc (nat (attempt j'))]"
  proof -
    have "map (\<lambda>k. attempt j + int k) [1..<Suc n] = map int [Suc (nat (attempt j))..<Suc (nat (attempt j) + n)]" for n
      using a0(1) by (induction n) auto
    moreover have "[1..<Suc (nat (attempt j) + n)] = [1..<Suc (nat (attempt j))] @ [Suc (nat (attempt j))..<Suc (nat (attempt j) + n)]" for n
      by (metis Suc_eq_plus1_left add_Suc le_add1 upt_add_eq_append)
    moreover have "nat (attempt j') = nat (attempt j) + length new" using j(5) a0(1) by simp
    ultimately show ?thesis using a0(2) nums(1) by (metis map_append)
  qed
  finally have own_numbers: "attempt_numbers i w' = map int [1..<Suc (nat (attempt j'))]" .
  have other: "attempt_numbers k w' = attempt_numbers k w" if "k \<noteq> i" for k
    using mine that by (simp add: attempt_numbers_def j(4))
  have idset: "job_id ` set (jobs w') = job_id ` set (jobs w)" using ids by (metis list.set_map)
  have "0 \<le> attempt x \<and> attempt_numbers (job_id x) w' = map int [1..<Suc (nat (attempt x))]" if x: "x \<in> set (jobs w')" for x
  proof (cases "job_id x = i")
    case True
    then have "x = j'" using x idj by (auto simp: rows split: if_splits)
    then show ?thesis using own_numbers idj j(5) a0(1) by simp
  next
    case False
    then have "x \<in> set (jobs w)" using x idj by (auto simp: rows split: if_splits)
    then show ?thesis using other [OF False] ok by (simp add: store_ok_def attempts_ok_def del: upt_Suc)
  qed
  moreover have "ja_job_id ` set (job_attempts w') \<subseteq> job_id ` set (jobs w')"
    using ok jin mine unfolding idset store_ok_def attempts_ok_def j(4) by auto
  ultimately have "attempts_ok w'" unfolding attempts_ok_def by blast
  moreover have "row_ok j'"
    using ok jin j(2) lo by (auto simp: store_ok_def row_ok_def row_moved_def lease_ok_def state_partition split: if_splits)
  then have "\<forall>r \<in> set (jobs w'). row_ok r" using ok by (auto simp: rows store_ok_def)
  moreover have "unique_keys (jobs w')"
    unfolding rows using ok same j(2) by (intro unique_keys_map) (auto simp: store_ok_def row_moved_def)
  ultimately show ?thesis using ok ids ev by (simp add: store_ok_def)
qed

lemma attempt_keeps_store:
  assumes ok: "store_ok w" and wr: "write_attempt i r now None w = Inr (n, w')"
  shows "store_ok w' \<and> (\<forall>k. get_row k (jobs w') = map_option (\<lambda>j. if k = i then j\<lparr>attempt := attempt j + 1\<rparr> else j) (get_row k (jobs w)))"
proof -
  obtain j where f: "find (holds_attempt i None) (jobs w) = Some j" "n = attempt j + 1" "rec_attempt r = n"
    "w' = w\<lparr>jobs := update_where (holds_attempt i None) (\<lambda>j. j\<lparr>attempt := attempt j + 1\<rparr>) (jobs w),
         job_attempts := job_attempts w @ [attempt_row i r], validations := validations w @ validation_rows i r now\<rparr>"
  proof (cases "find (holds_attempt i None) (jobs w)")
    case (Some j)
    show thesis using wr unfolding write_attempt_def Some Let_def option.case by (intro that [OF Some]) (simp_all split: if_split_asm)
  qed (use wr in \<open>simp add: write_attempt_def\<close>)
  have j: "find (holds_attempt i None) (jobs w) = Some j" "n = attempt j + 1" "rec_attempt r = n"
    "jobs w' = update_where (holds_attempt i None) (\<lambda>j. j\<lparr>attempt := attempt j + 1\<rparr>) (jobs w)"
    "job_attempts w' = job_attempts w @ [attempt_row i r]" "job_events w' = job_events w"
    using f by simp_all
  have held: "holds_attempt i None = (\<lambda>j. job_id j = i)" by (rule ext) (simp add: holds_attempt_def)
  have jin: "j \<in> set (jobs w)" "job_id j = i" using j(1) by (auto simp: held find_Some_iff)
  have rows: "jobs w' = map (\<lambda>j. if job_id j = i then j\<lparr>attempt := attempt j + 1\<rparr> else j) (jobs w)" by (simp add: j(4) held update_where_def)
  have same: "r' = j" if "r' \<in> set (jobs w)" "job_id r' = i" for r'
    using unique_row [OF store_ok_distinct [OF ok] jin(1) that(1)] that(2) jin(2) by simp
  have ids: "map job_id (jobs w') = map job_id (jobs w)" unfolding rows by simp
  then have idset: "job_id ` set (jobs w') = job_id ` set (jobs w)" by (metis list.set_map)
  have a0: "0 \<le> attempt j" "attempt_numbers i w = map int [1..<Suc (nat (attempt j))]" using ok jin by (auto simp: store_ok_def attempts_ok_def)
  have "attempt_numbers i w' = attempt_numbers i w @ [attempt j + 1]" using j(2,3) by (simp add: attempt_numbers_def j(5) attempt_row_def)
  also have "\<dots> = map int [1..<Suc (nat (attempt j + 1))]"
  proof -
    have "nat (attempt j + 1) = Suc (nat (attempt j))" "int (Suc (nat (attempt j))) = attempt j + 1" using a0(1) by simp_all
    then show ?thesis unfolding a0(2) by simp
  qed
  finally have own: "attempt_numbers i w' = map int [1..<Suc (nat (attempt j + 1))]" .
  have other: "attempt_numbers k w' = attempt_numbers k w" if "k \<noteq> i" for k using that by (simp add: attempt_numbers_def j(5) attempt_row_def)
  have "0 \<le> attempt x \<and> attempt_numbers (job_id x) w' = map int [1..<Suc (nat (attempt x))]" if x: "x \<in> set (jobs w')" for x
  proof -
    obtain x0 where x0: "x0 \<in> set (jobs w)" "x = (if job_id x0 = i then x0\<lparr>attempt := attempt x0 + 1\<rparr> else x0)" using x rows by auto
    show ?thesis
    proof (cases "job_id x0 = i")
      case True
      with same x0 have "x0 = j" by blast
      then show ?thesis using x0(2) True own a0(1) by (simp del: upt_Suc)
    next
      case False
      then show ?thesis using x0 other ok by (simp add: store_ok_def attempts_ok_def del: upt_Suc)
    qed
  qed
  moreover have "ja_job_id ` set (job_attempts w') \<subseteq> job_id ` set (jobs w')"
    using ok jin unfolding idset store_ok_def attempts_ok_def j(5) by (auto simp: attempt_row_def)
  ultimately have "attempts_ok w'" unfolding attempts_ok_def by blast
  moreover have "unique_keys (jobs w')" unfolding rows using ok by (intro unique_keys_map) (auto simp: store_ok_def)
  moreover have "\<forall>x \<in> set (jobs w'). row_ok x" using ok by (auto simp: rows store_ok_def row_ok_def lease_ok_def)
  ultimately have store: "store_ok w'" using ok unfolding store_ok_def ids j(6) by blast
  have "get_row k (map (\<lambda>j. if job_id j = i then j\<lparr>attempt := attempt j + 1\<rparr> else j) xs) =
      map_option (\<lambda>j. if k = i then j\<lparr>attempt := attempt j + 1\<rparr> else j) (get_row k xs)" for k xs
    by (induction xs) (auto simp: get_row_def)
  then show ?thesis using store by (simp add: rows)
qed

lemma attempts_keep_store:
  "store_ok w \<Longrightarrow> write_attempts i now rs w = Inr w' \<Longrightarrow> store_ok w'"
proof (induction rs arbitrary: w)
  case (Cons r rs)
  then obtain n w1 where "write_attempt i r now None w = Inr (n, w1)" "write_attempts i now rs w1 = Inr w'"
    by (auto simp: bind_result_Inr_iff)
  then show ?case using Cons attempt_keeps_store by blast
qed simp

lemma store_ok_same:
  "store_ok w \<Longrightarrow> jobs w' = jobs w \<Longrightarrow> job_attempts w' = job_attempts w \<Longrightarrow> (ordered_events (job_events w) \<Longrightarrow> ordered_events (job_events w')) \<Longrightarrow> store_ok w'"
  by (simp add: store_ok_def attempts_ok_def attempt_numbers_def)

lemma store_ok_event [simp]:
  "store_ok w \<Longrightarrow> store_ok (append_event i t now m d w)" "store_ok w \<Longrightarrow> store_ok (commit w)" "store_ok w \<Longrightarrow> store_ok (link_decision x i w)"
  by (erule store_ok_same; simp add: ordered_append_event link_decision_def split: option.splits)+

lemma publish_live_tables [simp]: "jobs (publish_live i t d w) = jobs w" "job_attempts (publish_live i t d w) = job_attempts w"
  by (simp_all add: publish_live_def Let_def)

subsection \<open>What the transactions do to the rows\<close>

lemma transition_rows:
  assumes "transition i s t now owner rsn vals (jobs w) = Inr rows" "distinct (map job_id (jobs w))"
  shows "rows = map (\<lambda>r. if job_id r = i then vals (assignments t now rsn r) else r) (jobs w)" "is_legal s t"
    "\<And>r. r \<in> set (jobs w) \<Longrightarrow> job_id r = i \<Longrightarrow> job_state r = s \<and> (owner = None \<or> lease_owner r = owner)"
  using assms(1) unfolding transition_Inr [OF assms(2)]
  by (auto simp: update_where_def cas_matches_def dest: unique_row [OF assms(2)])

lemma move_rewritten:
  assumes "move i s t now owner rsn msg d vals w = Inr w'" "distinct (map job_id (jobs w))"
  shows "rewritten (\<lambda>r. if job_id r = i then vals (assignments t now rsn r) else r) w w'"
    "is_legal s t" "\<And>r. r \<in> set (jobs w) \<Longrightarrow> job_id r = i \<Longrightarrow> job_state r = s"
proof -
  obtain rows where rows: "transition i s t now owner rsn vals (jobs w) = Inr rows"
    "w' = commit (append_event i (event_type_for t) now
         (Some (case msg of Some (c # cs) \<Rightarrow> c # cs | _ \<Rightarrow> state_value s @ '' -> '' @ state_value t)) (with_reason rsn d) (w\<lparr>jobs := rows\<rparr>))"
    using assms(1) by (auto simp: move_def bind_result_Inr_iff)
  note tr = transition_rows [OF rows(1) assms(2)]
  show "rewritten (\<lambda>r. if job_id r = i then vals (assignments t now rsn r) else r) w w'"
    using tr(1) by (simp add: rows(2) rewritten_def ordered_append_event)
  show "is_legal s t" by (rule tr(2))
  show "job_state r = s" if "r \<in> set (jobs w)" "job_id r = i" for r using tr(3) [OF that] by simp
qed

lemma cancel_rewritten:
  assumes "cancel_job caller i now w = Inr (o', w')" "distinct (map job_id (jobs w))"
  shows "w' = w \<or> (\<exists>s t rsn. rewritten (\<lambda>r. if job_id r = i then cancel_values t (assignments t now rsn r) else r) w w' \<and> is_legal s t \<and>
     cancel_target s = Some t \<and> (\<forall>r \<in> set (jobs w). job_id r = i \<longrightarrow> job_state r = s))"
proof -
  obtain j where j: "get_row i (jobs w) = Some j" using assms(1) by (auto simp: cancel_job_def bind_result_Inr_iff split: option.splits)
  show ?thesis
  proof (cases "cancel_target (job_state j)")
    case None
    then show ?thesis using assms(1) j by (auto simp: cancel_job_def bind_result_Inr_iff split: if_splits)
  next
    case (Some t)
    let ?rsn = "Some (if t = CANCELLING then ''cancel_requested'' else ''GENERATION_CANCELLED'')"
    have "\<exists>rows. transition i (job_state j) t now None ?rsn (cancel_values t) (jobs w) = Inr rows \<and>
      jobs w' = rows \<and> job_attempts w' = job_attempts w \<and> (ordered_events (job_events w) \<longrightarrow> ordered_events (job_events w'))"
      using assms(1) j Some by (auto simp: cancel_job_def bind_result_Inr_iff ordered_append_event split: if_splits)
    then obtain rows where rows: "transition i (job_state j) t now None ?rsn (cancel_values t) (jobs w) = Inr rows"
      "jobs w' = rows" "job_attempts w' = job_attempts w" "ordered_events (job_events w) \<longrightarrow> ordered_events (job_events w')" by blast
    note tr = transition_rows [OF rows(1) assms(2)]
    then show ?thesis using Some rows(2-4)
      by (intro disjI2 exI [of _ "job_state j"] exI [of _ t] exI [of _ ?rsn]) (auto simp: rewritten_def)
  qed
qed

lemma claim_rewritten:
  assumes "claim cv owner now secs affinity w = Inr (c, w')" "distinct (map job_id (jobs w))"
  shows "w' = w \<and> c = None \<or> (\<exists>i job. c = Some job \<and> claimed_job_id job = i \<and>
    rewritten (\<lambda>r. if job_id r = i \<and> job_state r = QUEUED then leased_by owner now secs r else r) w w' \<and>
    (\<forall>r \<in> set (jobs w). job_id r = i \<longrightarrow> job_state r = QUEUED \<and> claimed_attempt job = attempt r))"
proof (cases "claim_choice owner now secs affinity (jobs w)")
  case None
  then show ?thesis using assms(1) by (simp add: claim_def)
next
  case (Some x)
  obtain i rows affine where x: "x = ((i, rows), affine)" by (metis prod.exhaust)
  obtain extra where "claim_matching owner now secs extra (jobs w) = Some (i, rows)"
    using Some unfolding x by (auto simp: claim_choice_def Let_def split: option.splits if_splits)
  from claim_matching_Some [OF this] obtain j where j: "j \<in> set (jobs w)" "eligible now j" "i = job_id j"
    "rows = update_where (\<lambda>r. job_id r = i \<and> job_state r = QUEUED) (leased_by owner now secs) (jobs w)" by blast
  obtain j' where j': "get_row i rows = Some j'" using assms(1) Some x by (auto simp: claim_def split: option.splits)
  obtain job where job: "claimed cv j' affine = Inr job" "c = Some job" "w' = commit (append_event i (event_type_for LEASED) now
        (Some (''leased by '' @ owner @ (if affine then '' (affinity)'' else [])))
        [(''lease_owner'', JStr owner), (''lease_seconds'', JInt secs), (''affinity'', JBool affine)] (w\<lparr>jobs := rows\<rparr>))"
    using assms(1) Some x j' by (auto simp: claim_def bind_result_Inr_iff)
  have dr: "distinct (map job_id rows)" unfolding j(4) using assms(2) by (subst update_where_ids) (simp_all add: leased_by_def)
  have "\<forall>r \<in> set (jobs w). job_id r = i \<longrightarrow> r = j" using unique_row [OF assms(2) j(1)] j(3) by blast
  moreover have "leased_by owner now secs j \<in> set rows" using j by (auto simp: set_update_where eligible_def)
  then have "j' = leased_by owner now secs j" using j' unique_row [OF dr, of j' "leased_by owner now secs j"] j(3)
    by (auto simp: get_row_Some [OF dr] leased_by_def)
  moreover have "claimed_job_id job = job_id j' \<and> claimed_attempt job = attempt j'"
    using job(1) by (auto simp: claimed_def bind_result_Inr_iff split: option.splits)
  ultimately show ?thesis
    using j job(2,3) by (intro disjI2 exI [of _ i] exI [of _ job])
      (auto simp: rewritten_def update_where_def ordered_append_event leased_by_def eligible_def)
qed

definition expire_bound :: "int \<Rightarrow> Job \<Rightarrow> int" where
  "expire_bound default_bound row = opt_or (max_wait_seconds row) default_bound"

definition expire_values :: "int \<Rightarrow> Job \<Rightarrow> Job \<Rightarrow> Job" where
  "expire_values default_bound row j = j\<lparr>error_code := Some ''MAX_WAIT_EXCEEDED'',
     error_text := Some (''waited longer than max_wait_seconds ('' @ str_int (expire_bound default_bound row) @ '')'')\<rparr>"

lemma waiting_may_fail: "s \<in> WAITING_STATES \<Longrightarrow> is_legal s FAILED"
  by (cases s) (auto simp: state_set_defs is_legal_def TRANSITIONS_def)

interpretation expiry: settle_rows "wait_exceeded waited now bound" "\<lambda>_. Some FAILED" now
  "\<lambda>_. Some ''MAX_WAIT_EXCEEDED''" "expire_values bound"
  "\<lambda>row. Some (''max_wait_seconds ('' @ str_int (expire_bound bound row) @ '') exceeded in '' @ state_value (job_state row))"
  "\<lambda>row. [(''reason'', JStr ''MAX_WAIT_EXCEEDED''), (''previous_state'', JStr (state_value (job_state row))),
     (''max_wait_seconds'', JInt (expire_bound bound row))]"
  "\<lambda>row expired. expired @ [job_id row]" "expire_one now bound" for waited now bound
proof
  fix row :: Job and w :: World and acc :: "string list"
  have "(\<lambda>j. j\<lparr>error_code := Some ''MAX_WAIT_EXCEEDED'',
      error_text := Some (''waited longer than max_wait_seconds ('' @ str_int (expire_bound bound row) @ '')'')\<rparr>) = expire_values bound row"
    by (rule ext) (simp add: expire_values_def)
  then show "expire_one now bound row (w, acc) = (case Some FAILED of None \<Rightarrow> Inr (w, acc) | Some t \<Rightarrow>
     bind_result (transition (job_id row) (job_state row) t now None (Some ''MAX_WAIT_EXCEEDED'') (expire_values bound row) (jobs w)) (\<lambda>rows.
       Inr (append_event (job_id row) (event_type_for t) now
          (Some (''max_wait_seconds ('' @ str_int (expire_bound bound row) @ '') exceeded in '' @ state_value (job_state row)))
          [(''reason'', JStr ''MAX_WAIT_EXCEEDED''), (''previous_state'', JStr (state_value (job_state row))),
           (''max_wait_seconds'', JInt (expire_bound bound row))] (w\<lparr>jobs := rows\<rparr>), acc @ [job_id row])))"
    unfolding expire_one_def Let_def expire_bound_def [symmetric] option.case prod.case by simp
next
  fix row t assume "wait_exceeded waited now bound row" "Some FAILED = Some t"
  then show "is_legal (job_state row) t" using waiting_may_fail by (simp add: wait_exceeded_def)
qed (simp add: expire_values_def)

lemma expire_rewritten:
  assumes "distinct (map job_id (jobs w))"
  shows "\<exists>ids w'. expire_max_wait waited now bound w = Inr (ids, w') \<and>
    rewritten (\<lambda>j. if wait_exceeded waited now bound j then expire_values bound j (assignments FAILED now (Some ''MAX_WAIT_EXCEEDED'') j) else j) w w'"
  using expiry.settle_selected [OF assms, where acc = "[]" and waited = waited and bound = bound and now = now]
  by (auto simp: expire_max_wait_def rewritten_def expiry.settled_def bind_result_def cong: if_cong)

lemma reap_rewritten:
  assumes "distinct (map job_id (jobs w))" "reap_expired_leases now w = Inr (s, w')"
  shows "rewritten (\<lambda>j. if lease_expired now j then reaped now j else j) w w'"
  using reap_rows [OF assms(1), of now] assms(2) by (auto simp: rewritten_def)

lemma renew_rewritten:
  assumes "renew_leases owner ids now secs w = (lost, w')"
  shows "rewritten (\<lambda>j. if job_id j \<in> set ids \<and> lease_owner j = Some owner \<and> job_state j \<in> IN_FLIGHT_STATES
      then j\<lparr>lease_expires_at := Some (now + secs * 1000000)\<rparr> else j) w w'"
proof -
  have "rewritten (\<lambda>j. if job_id j \<in> set [] \<and> P j then f j else j) w w" for P f by (simp add: rewritten_def)
  then show ?thesis using assms by (auto simp: renew_leases_def Let_def rewritten_def update_where_def IN_FLIGHT_STATES_def split: if_splits)
qed

lemma ageing_rewritten:
  "rewritten (\<lambda>j. if stale_priority waited qs now j then j\<lparr>job_effective_priority := fresh_priority waited qs now (the (queued_at j)) j\<rparr> else j)
     w (snd (ageing_sweep waited now qs w))"
  by (simp add: ageing_sweep_def rewritten_def update_where_def)

lemma recover_rewritten:
  assumes "distinct (map job_id (jobs w))" "each_row (recover_one p now) (filter recoverable (jobs w)) (w, no_summary) = Inr (w', s)"
  shows "rewritten (\<lambda>j. if recoverable j then recovered p now j else j) w (commit w')"
  using recover_rows [OF assms(1), of p now] assms(2) by (auto simp: rewritten_def)

lemma key_rewritten:
  assumes "existing_job_for_key src key now w = (found, w')"
  shows "w' = w \<or> (\<exists>i. rewritten (\<lambda>r. if job_id r = i then r\<lparr>idempotency_key := None, idempotency_expires_at := None\<rparr> else r) w w')"
  using assms by (auto simp: existing_job_for_key_def rewritten_def update_where_def split: option.splits if_splits)

lemma scrub_rewritten:
  assumes "distinct (map job_id (jobs w))"
  shows "\<exists>ids. rewritten (\<lambda>j. if job_id j \<in> set ids then scrub_job rfc now j else j) w (snd (scrub_content rfc now hours batch w))"
proof -
  obtain ids e' where ids: "distinct ids"
    "scrub_content rfc now hours batch w = (\<lparr>scrubbed_jobs = int (length ids), scrubbed_events = e', ro_cutoff = now - hours * 3600000000\<rparr>, scrub_all rfc now ids w)"
    by (rule scrub_content_tables [OF assms])
  have "ordered_events (map f xs) = ordered_events xs" if "\<And>e. je_job_id (f e) = je_job_id e" "\<And>e. je_sequence (f e) = je_sequence e"
    for f :: "JobEvent \<Rightarrow> JobEvent" and xs using that by (simp add: ordered_events_def sorted_wrt_map)
  from this [of "\<lambda>e. if P e then scrub_event rfc now e else e" for P]
  have "ordered_events (map (\<lambda>e. if P e then scrub_event rfc now e else e) xs) = ordered_events xs" for P xs
    by (simp add: scrub_event_def)
  then show ?thesis using ids scrub_all_tables [OF ids(1)] by (intro exI [of _ ids]) (auto simp: rewritten_def)
qed

subsection \<open>The step relation\<close>

text \<open>The synchronous path writes only the row it reserved, which carries no lease; its events go through the sink.
  Imports, registrations, settings and the like write other tables.\<close>

inductive store_step :: "string option \<Rightarrow> World \<Rightarrow> World \<Rightarrow> bool" where
  claiming_step: "claim cv owner now secs affinity w = Inr (c, w') \<Longrightarrow> store_step (Some owner) w w'"
| working_step: "worker_step owner i w w' \<Longrightarrow> store_step (Some owner) w w'"
| enqueuing_step: "enqueue_insert (job_row sha256 new_id s profile priority pinned now qs bound) now w = Inr w' \<Longrightarrow> store_step None w w'"
| keyed_step: "existing_job_for_key src key now w = (found, w') \<Longrightarrow> store_step None w w'"
| renewing_step: "renew_leases owner ids now secs w = (lost, w') \<Longrightarrow> store_step None w w'"
| reaping_step: "reap_expired_leases now w = Inr (summary, w') \<Longrightarrow> store_step None w w'"
| expiring_step: "expire_max_wait waited now bound w = Inr (ids, w') \<Longrightarrow> store_step None w w'"
| ageing_step: "store_step None w (snd (ageing_sweep waited now qs w))"
| cancelling_step: "cancel_job caller i now w = Inr (out, w') \<Longrightarrow> store_step None w w'"
| forcing_step: "move i CANCELLING CANCELLED now None rsn msg d (\<lambda>j. j\<lparr>error_code := Some code\<rparr>) w = Inr w' \<Longrightarrow> store_step None w w'"
| requeuing_step: "move i WAITING_RESOURCES QUEUED now None rsn msg d id w = Inr w' \<Longrightarrow> store_step None w w'"
| recovering_step: "each_row (recover_one owner_prefix now) (filter recoverable (jobs w)) (w, no_summary) = Inr (w', s) \<Longrightarrow> store_step None w (commit w')"
| scrubbing_step: "store_step None w (snd (scrub_content rfc now hours batch w))"
| flag_step: "set_queue_flag caller name v w = Inr w' \<Longrightarrow> store_step None w w'"
| reserving_step: "insert_job (sync_row sha256 new_id request profile now ttl) w = Inr w' \<Longrightarrow> store_step None w w'"
| announcing_step: "store_step None w (commit (append_event i t now msg d w))"
| streaming_step: "store_step None w (publish_live i t d w)"
| elsewhere_step: "jobs w' = jobs w \<Longrightarrow> job_attempts w' = job_attempts w \<Longrightarrow> job_events w' = job_events w \<Longrightarrow> store_step None w w'"
| finishing_step: "persist pkg sha256 as_json True existing i request routing outcome records err now w = Inr w' \<Longrightarrow>
    (\<forall>j. get_row i (jobs w) = Some j \<longrightarrow> lease_owner j = None) \<Longrightarrow> store_step None w w'"
| refusing_step: "fail_reserved True i err now w = Inr w' \<Longrightarrow> (\<forall>j. get_row i (jobs w) = Some j \<longrightarrow> lease_owner j = None) \<Longrightarrow> store_step None w w'"

text \<open>What the others' rewriting of a row means to a lease holder.\<close>

definition yields :: "string \<Rightarrow> Job \<Rightarrow> Job \<Rightarrow> bool" where
  "yields owner j j' \<longleftrightarrow> (lease_owner j' = Some owner \<longrightarrow> lease_owner j = Some owner \<and> (job_state j' = job_state j \<or> job_state j' = CANCELLING))"

definition gentle :: "string \<Rightarrow> Job \<Rightarrow> Job \<Rightarrow> bool" where
  "gentle owner j j' \<longleftrightarrow> row_kept j j' \<and> yields owner j j'"

lemma rewritten_leases:
  assumes "leases_ok w" "rewritten f w w'" "\<And>j. j \<in> set (jobs w) \<Longrightarrow> row_kept j (f j)"
  shows "leases_ok w'"
proof -
  have rows: "jobs w' = map f (jobs w)" using assms(2) by (simp add: rewritten_def)
  have "map job_id (jobs w') = map job_id (jobs w)" unfolding rows using assms(3) by (simp add: row_kept_def)
  moreover have "\<forall>j \<in> set (jobs w'). lease_ok j" using assms(1,3) by (auto simp: leases_ok_def rows row_kept_def)
  ultimately show ?thesis using assms(1) by (simp add: leases_ok_def)
qed

lemma rely_rewritten:
  assumes "leases_ok w \<Longrightarrow> rewritten f w w'" "\<And>j. leases_ok w \<Longrightarrow> j \<in> set (jobs w) \<Longrightarrow> gentle owner j (f j)"
  shows "rely owner i w w'"
  unfolding rely_def
proof (intro impI conjI allI)
  assume ok: "leases_ok w"
  note rew = assms(1) [OF ok] and g = assms(2) [OF ok]
  have kept: "row_kept j (f j)" if "j \<in> set (jobs w)" for j using g [OF that] by (simp add: gentle_def)
  show ok': "leases_ok w'" by (rule rewritten_leases [OF ok rew kept])
  fix j' assume "held_row owner i w' = Some j'"
  then have h: "get_row i (jobs w') = Some j'" "lease_owner j' = Some owner" using held_row_get [OF ok'] by auto
  then obtain j where j: "j \<in> set (jobs w)" "j' = f j" "job_id j' = i"
    using rew ok' by (auto simp: rewritten_def leases_ok_def get_row_Some)
  have "job_id j = i" "lease_owner j = Some owner" "job_state j' = job_state j \<or> job_state j' = CANCELLING" "attempt j' = attempt j"
    using g [OF j(1)] j h(2) by (auto simp: gentle_def yields_def row_kept_def)
  then show "\<exists>j. held_row owner i w = Some j \<and> attempt j' = attempt j \<and> (job_state j' = job_state j \<or> job_state j' = CANCELLING)"
    using held_row_get [OF ok] j(1) ok by (auto simp: leases_ok_def get_row_Some)
qed

lemma rely_same: "jobs w' = jobs w \<Longrightarrow> rely owner i w w'"
  by (auto simp: rely_def leases_ok_def held_row_def)

lemma rely_trans: "rely owner i w w1 \<Longrightarrow> rely owner i w1 w2 \<Longrightarrow> rely owner i w w2"
  unfolding rely_def by fastforce

lemma rely_added:
  assumes "jobs w' = jobs w @ [row]" "\<forall>j \<in> set (jobs w). job_id j \<noteq> job_id row" "lease_ok row" "lease_owner row = None"
  shows "rely owner i w w'"
  using assms by (auto simp: rely_def leases_ok_def held_row_def find_append split: option.splits)

lemma rely_owned:
  assumes "leases_ok w \<Longrightarrow> owned_change other k w w'" "other \<noteq> owner"
  shows "rely owner i w w'"
  unfolding rely_def
proof (intro impI conjI allI)
  assume ok: "leases_ok w"
  note own = assms(1) [OF ok]
  show ok': "leases_ok w'" by (rule owned_leases_ok [OF own ok])
  obtain j j' where j: "get_row k (jobs w) = Some j" "lease_owner j = Some other" "row_moved j j'"
    "jobs w' = update_where (\<lambda>r. job_id r = k) (\<lambda>_. j') (jobs w)" using own unfolding owned_change_def by blast
  have idk: "job_id j' = k" using j(1,3) ok by (auto simp: row_moved_def leases_ok_def get_row_Some)
  fix x assume "held_row owner i w' = Some x"
  then have x: "x \<in> set (jobs w')" "job_id x = i" "lease_owner x = Some owner"
    using ok' held_row_get [OF ok'] by (auto simp: leases_ok_def get_row_Some)
  have "x \<noteq> j'" using x(3) j(2,3) assms(2) by (auto simp: row_moved_def split: if_splits)
  then have "x \<in> set (jobs w)" using x(1) j(4) by (auto simp: set_update_where split: if_splits)
  then show "\<exists>j. held_row owner i w = Some j \<and> attempt x = attempt j \<and> (job_state x = job_state j \<or> job_state x = CANCELLING)"
    using x held_row_get [OF ok] ok by (auto simp: leases_ok_def get_row_Some)
qed

lemma gentle_refl [simp]: "gentle owner j j"
  by (simp add: gentle_def yields_def row_kept_refl)

lemma gentle_moved:
  assumes "is_legal (job_state j) t" "keeps_core vals" "t \<notin> IN_FLIGHT_STATES \<or> t = CANCELLING"
  shows "gentle owner j (vals (assignments t now rsn j))"
  using moved_row_kept [OF assms(1,2)] assms(2,3) by (auto simp: gentle_def yields_def keeps_core_def)

lemma gentle_claimed: "job_state j = QUEUED \<Longrightarrow> lease_ok j \<Longrightarrow> other \<noteq> owner \<Longrightarrow> gentle owner j (leased_by other now secs j)"
  by (auto simp: gentle_def yields_def row_kept_def row_ok_def lease_ok_def leased_by_def state_set_defs)

lemma kept_claimed: "job_state j = QUEUED \<Longrightarrow> row_kept j (leased_by other now secs j)"
  by (auto simp: row_kept_def row_ok_def lease_ok_def leased_by_def state_set_defs)

lemma gentle_renewed:
  "lease_owner j = Some o' \<Longrightarrow> job_state j \<in> IN_FLIGHT_STATES \<Longrightarrow> gentle owner j (j\<lparr>lease_expires_at := Some e\<rparr>)"
  by (auto simp: gentle_def yields_def row_kept_def row_ok_def lease_ok_def)

lemma gentle_columns:
  "gentle owner j (j\<lparr>job_effective_priority := p\<rparr>)" "gentle owner j (j\<lparr>idempotency_key := None, idempotency_expires_at := None\<rparr>)"
  "gentle owner j (scrub_job rfc now j)"
  by (auto simp: gentle_def yields_def row_kept_def row_ok_def lease_ok_def scrub_job_def)

lemma target_not_in_flight: "recovery_target s b = Some t \<Longrightarrow> t \<notin> IN_FLIGHT_STATES"
  by (rule recovery_target_not_in_flight)

lemma gentle_reaped: "gentle owner j (reaped now j)"
proof (cases "reap_target j")
  case (Some t)
  have "keeps_core (reap_values t (lease_owner j))" by (simp add: keeps_core_def reap_values_def)
  moreover have "is_legal (job_state j) t" "t \<notin> IN_FLIGHT_STATES" using Some recovery_target_legal target_not_in_flight by (auto simp: reap_target_def)
  ultimately show ?thesis unfolding reaped_def Some option.case by (intro gentle_moved) auto
qed (simp add: reaped_def)

lemma gentle_recovered: "gentle owner j (recovered p now j)"
proof (cases "recovery_aim p j")
  case (Some t)
  have "keeps_core (recover_values t (job_state j) (lease_owner j))" by (simp add: keeps_core_def recover_values_def)
  moreover have "is_legal (job_state j) t" "t \<notin> IN_FLIGHT_STATES"
    using Some recovery_target_legal target_not_in_flight by (auto simp: recovery_aim_def split: if_splits)
  ultimately show ?thesis unfolding recovered_def Some option.case by (intro gentle_moved) auto
qed (simp add: recovered_def)

lemma gentle_expired: "wait_exceeded waited now bound j \<Longrightarrow> gentle owner j (expire_values b r (assignments FAILED now rsn j))"
  by (rule gentle_moved) (auto simp: wait_exceeded_def waiting_may_fail keeps_core_def expire_values_def state_set_defs)

lemma cancel_target_gentle: "cancel_target s = Some t \<Longrightarrow> t \<notin> IN_FLIGHT_STATES \<or> t = CANCELLING"
  by (cases s) (auto simp: cancel_target_def state_set_defs split: if_splits)

lemma gentle_moves:
  assumes "\<And>j. j \<in> set (jobs w) \<Longrightarrow> job_id j = i \<Longrightarrow> job_state j = s" "is_legal s t" "keeps_core vals" "t \<notin> IN_FLIGHT_STATES \<or> t = CANCELLING"
    "j \<in> set (jobs w)"
  shows "gentle owner j (if job_id j = i then vals (assignments t now rsn j) else j)"
  using assms gentle_moved [OF _ assms(3,4), of j] by auto

lemma gentle_cancelled:
  assumes "\<forall>r \<in> set (jobs w). job_id r = i \<longrightarrow> job_state r = s" "is_legal s t" "cancel_target s = Some t" "j \<in> set (jobs w)"
  shows "gentle owner j (if job_id j = i then cancel_values t (assignments t now rsn j) else j)"
proof -
  have "keeps_core (cancel_values t)" by (simp add: keeps_core_def cancel_values_def)
  with assms cancel_target_gentle show ?thesis by (intro gentle_moves [where s = s and w = w]) auto
qed

text \<open>How the synchronous path ends its own row.\<close>

definition ends_row :: "(Job \<Rightarrow> Job) \<Rightarrow> bool" where
  "ends_row f \<longleftrightarrow> (\<forall>j. job_id (f j) = job_id j \<and> job_source (f j) = job_source j \<and> idempotency_key (f j) = idempotency_key j \<and>
     attempt (f j) = attempt j \<and> lease_owner (f j) = lease_owner j \<and> lease_expires_at (f j) = lease_expires_at j \<and>
     job_state (f j) \<in> TERMINAL_STATES \<and> completed_at (f j) \<noteq> None)"

lemma gentle_ended:
  assumes "\<forall>j. get_row i (jobs w) = Some j \<longrightarrow> lease_owner j = None" "distinct (map job_id (jobs w))" "ends_row f" "r \<in> set (jobs w)"
  shows "gentle owner r (if job_id r = i then f r else r)"
proof (cases "job_id r = i")
  case True
  then have "lease_owner r = None" using assms(1,2,4) by (simp add: get_row_Some)
  then show ?thesis using assms(3) True by (auto simp: ends_row_def gentle_def yields_def row_kept_def row_ok_def lease_ok_def)
qed simp

lemma write_attempts_rows:
  "write_attempts i now rs w = Inr w' \<Longrightarrow> \<exists>n. jobs w' = map (\<lambda>j. if job_id j = i then j\<lparr>attempt := attempt j + n\<rparr> else j) (jobs w)"
proof (induction rs arbitrary: w)
  case Nil
  then show ?case by (intro exI [of _ 0]) (auto intro!: map_idI [symmetric])
next
  case (Cons r rs)
  then obtain k w1 where w1: "write_attempt i r now None w = Inr (k, w1)" "write_attempts i now rs w1 = Inr w'"
    by (auto simp: bind_result_Inr_iff)
  have held: "holds_attempt i None = (\<lambda>j. job_id j = i)" by (rule ext) (simp add: holds_attempt_def)
  have one: "jobs w1 = map (\<lambda>j. if job_id j = i then j\<lparr>attempt := attempt j + 1\<rparr> else j) (jobs w)"
    using w1(1) unfolding write_attempt_def held update_where_def Let_def by (auto split: option.splits if_split_asm)
  obtain n where "jobs w' = map (\<lambda>j. if job_id j = i then j\<lparr>attempt := attempt j + n\<rparr> else j) (jobs w1)" using Cons.IH [OF w1(2)] by blast
  then show ?case unfolding one by (intro exI [of _ "1 + n"]) (auto simp: algebra_simps)
qed

lemma rely_counted:
  assumes "jobs w' = map (\<lambda>j. if job_id j = k then j\<lparr>attempt := attempt j + n\<rparr> else j) (jobs w)" "\<forall>j \<in> set (jobs w). job_id j = k \<longrightarrow> lease_owner j = None"
  shows "rely owner i w w'"
proof -
  have same: "find (\<lambda>j. job_id j = i \<and> lease_owner j = Some owner) (map (\<lambda>j. if job_id j = k then j\<lparr>attempt := attempt j + n\<rparr> else j) rows) =
      find (\<lambda>j. job_id j = i \<and> lease_owner j = Some owner) rows" if "\<forall>j \<in> set rows. job_id j = k \<longrightarrow> lease_owner j = None" for rows
    using that
  proof (induction rows)
    case (Cons a rows)
    then show ?case by (cases "job_id a = k") simp_all
  qed simp
  have "held_row owner i w' = held_row owner i w" unfolding held_row_def assms(1) by (rule same [OF assms(2)])
  moreover have "map job_id (jobs w') = map job_id (jobs w)" unfolding assms(1) by simp
  moreover have "\<forall>j \<in> set (jobs w). lease_ok j \<Longrightarrow> \<forall>j \<in> set (jobs w'). lease_ok j" unfolding assms(1) by (auto simp: lease_ok_def)
  ultimately show ?thesis unfolding rely_def leases_ok_def by auto
qed

lemma persist_parts:
  assumes "persist pkg sha256 as_json True existing i request routing outcome records err now w = Inr w'"
  obtains w1 w2 t d where
    "(if existing then (case get_row i (jobs w) of None \<Rightarrow> Inl (JobNotFound i)
        | Some _ \<Rightarrow> Inr (w\<lparr>jobs := update_where (\<lambda>j. job_id j = i) (finished_row pkg sha256 routing outcome records err now) (jobs w)\<rparr>))
      else insert_job (added_row pkg sha256 i request routing outcome records err now) w) = Inr w1"
    "write_attempts i now records (link_decision (rt_decision_id routing) i w1) = Inr w2" "w' = commit (append_event i t now None d w2)"
proof -
  obtain w1 where w1: "(if existing then (case get_row i (jobs w) of None \<Rightarrow> Inl (JobNotFound i)
        | Some _ \<Rightarrow> Inr (w\<lparr>jobs := update_where (\<lambda>j. job_id j = i) (finished_row pkg sha256 routing outcome records err now) (jobs w)\<rparr>))
      else insert_job (added_row pkg sha256 i request routing outcome records err now) w) = Inr w1"
    and rest: "bind_result (write_attempts i now records (link_decision (rt_decision_id routing) i w1)) (\<lambda>w2.
       (case (True, outcome, err) of
          (False, _, _) \<Rightarrow>
            (let added = plain_events i records (map_option as_json outcome) now in
             if \<exists>a \<in> set added. \<exists>e \<in> set (job_events w2). je_job_id e = i \<and> je_sequence e = je_sequence a then Inl IntegrityError
             else Inr (w2\<lparr>job_events := job_events w2 @ added\<rparr>))
        | (True, Some e, _) \<Rightarrow> Inr (commit (append_event i ''result'' now None (as_json e) w2))
        | (True, None, Some e) \<Rightarrow> Inr (commit (append_event i ''error'' now None (error_data e) w2))
        | (True, None, None) \<Rightarrow> Inl AssertionFailed)) = Inr w'"
    using assms unfolding persist_def bind_result_Inr_iff by blast
  then obtain w2 where w2: "write_attempts i now records (link_decision (rt_decision_id routing) i w1) = Inr w2"
    by (auto simp: bind_result_Inr_iff)
  show thesis
  proof (cases outcome)
    case (Some e)
    then have "w' = commit (append_event i ''result'' now None (as_json e) w2)" using rest w2 by simp
    then show thesis by (rule that [OF w1 w2])
  next
    case None
    then obtain e where "err = Some e" using rest w2 by (cases err) simp_all
    with None have "w' = commit (append_event i ''error'' now None (error_data e) w2)" using rest w2 by simp
    then show thesis by (rule that [OF w1 w2])
  qed
qed

lemma ends_finished: "ends_row (finished_row pkg sha256 routing outcome records err now)"
  by (simp add: ends_row_def finished_row_def selection_columns_def state_set_defs)

lemma ends_refused: "ends_row (\<lambda>j. j\<lparr>job_state := FAILED, state_reason := Some c, error_code := Some c, error_text := Some m, completed_at := Some now\<rparr>)"
  by (simp add: ends_row_def state_set_defs)

lemma gentle_refused:
  assumes "\<forall>j. get_row i (jobs w) = Some j \<longrightarrow> lease_owner j = None" "distinct (map job_id (jobs w))" "r \<in> set (jobs w)"
  shows "gentle owner r (if job_id r = i then r\<lparr>job_state := FAILED, state_reason := Some c, error_code := Some c, error_text := Some m,
    completed_at := Some now\<rparr> else r)"
  using gentle_ended [OF assms(1,2) ends_refused [where c = c and m = m and now = now] assms(3), of owner] by simp

lemma added_row_fields: "row_ok (added_row pkg sha256 i request routing outcome records err now)"
  "attempt (added_row pkg sha256 i request routing outcome records err now) = 0"
  "lease_owner (added_row pkg sha256 i request routing outcome records err now) = None"
  "job_id (added_row pkg sha256 i request routing outcome records err now) = i"
  by (simp_all add: added_row_def finished_row_def selection_columns_def sync_row_def row_ok_def lease_ok_def state_set_defs Let_def)

lemma new_rows_ok: "row_ok (job_row sha256 new_id s profile priority pinned now qs bound)"
  "attempt (job_row sha256 new_id s profile priority pinned now qs bound) = 0"
  "lease_owner (job_row sha256 new_id s profile priority pinned now qs bound) = None"
  by (simp_all add: job_row_def row_ok_def lease_ok_def state_set_defs)

lemma sync_rows_ok: "row_ok (sync_row sha256 new_id request profile now ttl)" "attempt (sync_row sha256 new_id request profile now ttl) = 0"
  "lease_owner (sync_row sha256 new_id request profile now ttl) = None"
  by (simp_all add: sync_row_def row_ok_def lease_ok_def state_set_defs)

lemma fail_reserved_parts:
  assumes "fail_reserved True i err now w = Inr w'"
  obtains w2 t d where "rewritten (\<lambda>j. if job_id j = i then j\<lparr>job_state := FAILED, state_reason := Some (err_code err), error_code := Some (err_code err),
      error_text := Some (err_message err), completed_at := Some now\<rparr> else j) w w2" "w' = commit (append_event i t now None d w2)"
proof -
  let ?w1 = "w\<lparr>jobs := update_where (\<lambda>j. job_id j = i) (\<lambda>j. j\<lparr>job_state := FAILED, state_reason := Some (err_code err),
       error_code := Some (err_code err), error_text := Some (err_message err), completed_at := Some now\<rparr>) (jobs w)\<rparr>"
  have "w' = commit (append_event i ''error'' now None (error_data err) (case json_get (err_details err) ''decision_id'' of JStr d \<Rightarrow> link_decision d i ?w1 | _ \<Rightarrow> ?w1))"
    using assms by (auto simp: fail_reserved_def Let_def split: option.splits)
  then show thesis by (rule that [rotated]) (simp add: rewritten_def update_where_def split: json.splits)
qed

subsection \<open>Every step keeps the invariant\<close>

lemma gentle_kept: "(\<And>j. j \<in> set rows \<Longrightarrow> gentle owner j (f j)) \<Longrightarrow> j \<in> set rows \<Longrightarrow> row_kept j (f j)"
  by (simp add: gentle_def)

lemma store_ok_gentle:
  "store_ok w \<Longrightarrow> rewritten f w w' \<Longrightarrow> (\<And>j. j \<in> set (jobs w) \<Longrightarrow> gentle owner j (f j)) \<Longrightarrow> store_ok w'"
  by (rule store_ok_rewritten) (auto simp: gentle_def)

lemma persist_ok:
  assumes "persist pkg sha256 as_json True existing i request routing outcome records err now w = Inr w'"
    "\<forall>j. get_row i (jobs w) = Some j \<longrightarrow> lease_owner j = None" "store_ok w"
  shows "store_ok w'"
proof (rule persist_parts [OF assms(1)])
  fix w1 w2 t d
  assume w1: "(if existing then (case get_row i (jobs w) of None \<Rightarrow> Inl (JobNotFound i)
        | Some _ \<Rightarrow> Inr (w\<lparr>jobs := update_where (\<lambda>j. job_id j = i) (finished_row pkg sha256 routing outcome records err now) (jobs w)\<rparr>))
      else insert_job (added_row pkg sha256 i request routing outcome records err now) w) = Inr w1"
    and w2: "write_attempts i now records (link_decision (rt_decision_id routing) i w1) = Inr w2" and w': "w' = commit (append_event i t now None d w2)"
  have "store_ok w1"
  proof (cases existing)
    case True
    then have "rewritten (\<lambda>j. if job_id j = i then finished_row pkg sha256 routing outcome records err now j else j) w w1"
      using w1 by (auto simp: rewritten_def update_where_def split: option.splits)
    from assms(3) this show ?thesis
      by (rule store_ok_gentle) (rule gentle_ended [OF assms(2) store_ok_distinct [OF assms(3)] ends_finished])
  next
    case False
    then have "insert_job (added_row pkg sha256 i request routing outcome records err now) w = Inr w1" using w1 by simp
    from store_ok_added [OF assms(3) this] show ?thesis using added_row_fields by blast
  qed
  then show "store_ok w'" unfolding w' using attempts_keep_store [OF store_ok_event(3) w2] by simp
qed

lemma store_step_ok: "store_step actor w w' \<Longrightarrow> store_ok w \<Longrightarrow> store_ok w'"
proof (induction rule: store_step.induct)
  case (claiming_step cv owner now secs affinity w c w')
  from claim_rewritten [OF claiming_step.hyps store_ok_distinct [OF claiming_step.prems]] show ?case
  proof (elim disjE exE conjE)
    fix i job
    assume "rewritten (\<lambda>r. if job_id r = i \<and> job_state r = QUEUED then leased_by owner now secs r else r) w w'"
    then show ?thesis by (rule store_ok_rewritten [OF claiming_step.prems]) (simp add: kept_claimed row_kept_refl)
  qed (use claiming_step.prems in simp)
next
  case (working_step owner i w w')
  then show ?case using store_ok_owned worker_step_owned store_ok_leases by blast
next
  case (enqueuing_step sha256 new_id s profile priority pinned now qs bound w w')
  then obtain w1 where w1: "insert_job (job_row sha256 new_id s profile priority pinned now qs bound) w = Inr w1"
    and w': "\<exists>i t m d. w' = commit (append_event i t now m d w1)" unfolding enqueue_insert_def bind_result_Inr_iff by blast
  have "store_ok w1" by (rule store_ok_added [OF enqueuing_step.prems w1]) (simp_all add: new_rows_ok)
  then show ?case using w' by auto
next
  case (keyed_step src key now w found w')
  from key_rewritten [OF keyed_step.hyps] show ?case
    using keyed_step.prems store_ok_gentle [OF keyed_step.prems, of _ w' undefined] by (auto simp: gentle_columns)
next
  case (renewing_step owner ids now secs w lost w')
  show ?case
    by (rule store_ok_gentle [OF renewing_step.prems renew_rewritten [OF renewing_step.hyps], of undefined]) (auto intro: gentle_renewed)
next
  case (reaping_step now w summary w')
  show ?case
    by (rule store_ok_gentle [OF reaping_step.prems reap_rewritten [OF store_ok_distinct [OF reaping_step.prems] reaping_step.hyps], of undefined])
      (simp add: gentle_reaped)
next
  case (expiring_step waited now bound w ids w')
  from expire_rewritten [OF store_ok_distinct [OF expiring_step.prems], of waited now bound] expiring_step.hyps
  have "rewritten (\<lambda>j. if wait_exceeded waited now bound j then expire_values bound j (assignments FAILED now (Some ''MAX_WAIT_EXCEEDED'') j) else j) w w'" by auto
  then show ?case by (rule store_ok_gentle [OF expiring_step.prems, of _ _ undefined]) (auto intro: gentle_expired)
next
  case (ageing_step w waited now qs)
  show ?case by (rule store_ok_gentle [OF ageing_step ageing_rewritten, of undefined]) (simp add: gentle_columns)
next
  case (cancelling_step caller i now w out w')
  from cancel_rewritten [OF cancelling_step.hyps store_ok_distinct [OF cancelling_step.prems]] show ?case
  proof (elim disjE exE conjE)
    fix s t rsn
    assume rew: "rewritten (\<lambda>r. if job_id r = i then cancel_values t (assignments t now rsn r) else r) w w'" and "is_legal s t" "cancel_target s = Some t"
      "\<forall>r \<in> set (jobs w). job_id r = i \<longrightarrow> job_state r = s"
    then show ?thesis by (intro store_ok_gentle [OF cancelling_step.prems rew, of undefined] gentle_cancelled)
  qed (use cancelling_step.prems in simp)
next
  case (forcing_step i now rsn msg d code w w')
  note mv = move_rewritten [OF forcing_step.hyps store_ok_distinct [OF forcing_step.prems]]
  show ?case
    by (rule store_ok_gentle [OF forcing_step.prems mv(1), of undefined], rule gentle_moves [where w = w, OF mv(3) mv(2)])
      (auto simp: keeps_core_def state_set_defs)
next
  case (requeuing_step i now rsn msg d w w')
  note mv = move_rewritten [OF requeuing_step.hyps store_ok_distinct [OF requeuing_step.prems]]
  show ?case
    by (rule store_ok_gentle [OF requeuing_step.prems mv(1), of undefined], rule gentle_moves [where w = w, OF mv(3) mv(2)])
      (auto simp: keeps_core_def state_set_defs)
next
  case (recovering_step owner_prefix now w w' s)
  show ?case
    by (rule store_ok_gentle [OF recovering_step.prems recover_rewritten [OF store_ok_distinct [OF recovering_step.prems] recovering_step.hyps], of undefined])
      (simp add: gentle_recovered)
next
  case (scrubbing_step w rfc now hours batch)
  obtain ids where "rewritten (\<lambda>j. if job_id j \<in> set ids then scrub_job rfc now j else j) w (snd (scrub_content rfc now hours batch w))"
    using scrub_rewritten [OF store_ok_distinct [OF scrubbing_step]] by blast
  then show ?case by (rule store_ok_gentle [OF scrubbing_step, of _ _ undefined]) (simp add: gentle_columns)
next
  case (flag_step caller name v w w')
  then show ?case by (auto simp: set_queue_flag_def bind_result_Inr_iff split: if_splits elim!: store_ok_same)
next
  case (reserving_step sha256 new_id request profile now ttl w w')
  from store_ok_added [OF reserving_step.prems reserving_step.hyps sync_rows_ok(1,2)] show ?case .
next
  case (finishing_step pkg sha256 as_json existing i request routing outcome records err now w w')
  then show ?case using persist_ok by blast
next
  case (refusing_step i err now w w')
  show ?case
  proof (rule fail_reserved_parts [OF refusing_step.hyps(1)])
    fix w2 t d
    assume "rewritten (\<lambda>j. if job_id j = i then j\<lparr>job_state := FAILED, state_reason := Some (err_code err), error_code := Some (err_code err),
      error_text := Some (err_message err), completed_at := Some now\<rparr> else j) w w2" and w': "w' = commit (append_event i t now None d w2)"
    then have "store_ok w2"
      by (elim store_ok_gentle [OF refusing_step.prems, of _ _ undefined]) (rule gentle_refused [OF refusing_step.hyps(2) store_ok_distinct [OF refusing_step.prems]])
    then show ?thesis using w' by simp
  qed
next
  case (streaming_step w i t d)
  then show ?case by (rule store_ok_same) simp_all
next
  case (elsewhere_step w' w)
  from elsewhere_step.prems show ?case by (rule store_ok_same) (simp_all add: elsewhere_step.hyps)
qed simp

subsection \<open>What a lease holder may rely on\<close>

lemma rely_persist:
  assumes "persist pkg sha256 as_json True existing k request routing outcome records err now w = Inr w'"
    "\<forall>j. get_row k (jobs w) = Some j \<longrightarrow> lease_owner j = None"
  shows "rely owner i w w'"
proof (rule persist_parts [OF assms(1)])
  fix w1 w2 t d
  assume w1: "(if existing then (case get_row k (jobs w) of None \<Rightarrow> Inl (JobNotFound k)
        | Some _ \<Rightarrow> Inr (w\<lparr>jobs := update_where (\<lambda>j. job_id j = k) (finished_row pkg sha256 routing outcome records err now) (jobs w)\<rparr>))
      else insert_job (added_row pkg sha256 k request routing outcome records err now) w) = Inr w1"
    and w2: "write_attempts k now records (link_decision (rt_decision_id routing) k w1) = Inr w2" and w': "w' = commit (append_event k t now None d w2)"
  have linked: "jobs (link_decision (rt_decision_id routing) k w1) = jobs w1" by (simp add: link_decision_def split: option.splits)
  have first: "rely owner i w w1 \<and> (leases_ok w \<longrightarrow> (\<forall>j \<in> set (jobs w1). job_id j = k \<longrightarrow> lease_owner j = None))"
  proof (cases existing)
    case True
    then have rew: "rewritten (\<lambda>j. if job_id j = k then finished_row pkg sha256 routing outcome records err now j else j) w w1"
      using w1 by (auto simp: rewritten_def update_where_def split: option.splits)
    have "rely owner i w w1"
      by (rule rely_rewritten [OF rew]) (rule gentle_ended [OF assms(2) _ ends_finished], simp_all add: leases_ok_def)
    moreover have "lease_owner j = None" if ok: "leases_ok w" and j: "j \<in> set (jobs w1)" "job_id j = k" for j
    proof -
      obtain r where r: "r \<in> set (jobs w)" "j = (if job_id r = k then finished_row pkg sha256 routing outcome records err now r else r)"
        using j(1) rew by (auto simp: rewritten_def)
      have "ends_row (finished_row pkg sha256 routing outcome records err now)" by (rule ends_finished)
      then have "job_id r = k" "lease_owner j = lease_owner r" using r(2) j(2) by (auto simp: ends_row_def split: if_splits)
      then show ?thesis using assms(2) r(1) ok by (simp add: leases_ok_def get_row_Some)
    qed
    ultimately show ?thesis by blast
  next
    case False
    let ?row = "added_row pkg sha256 k request routing outcome records err now"
    have rows: "jobs w1 = jobs w @ [?row]" "\<forall>j \<in> set (jobs w). job_id j \<noteq> job_id ?row"
      using w1 False by (auto simp: insert_job_def split: if_splits)
    moreover have "lease_ok ?row" "lease_owner ?row = None" "job_id ?row = k"
      by (simp_all add: added_row_fields [unfolded row_ok_def])
    ultimately show ?thesis using rely_added [OF rows] by auto
  qed
  show "rely owner i w w'"
  proof (cases "leases_ok w")
    case True
    obtain n where n: "jobs w2 = map (\<lambda>j. if job_id j = k then j\<lparr>attempt := attempt j + n\<rparr> else j) (jobs w1)"
      using write_attempts_rows [OF w2] unfolding linked by blast
    have "rely owner i w1 w2" by (rule rely_counted [OF n]) (use first True in blast)
    moreover have "rely owner i w2 w'" by (rule rely_same) (simp add: w')
    ultimately show ?thesis using first rely_trans by blast
  qed (simp add: rely_def)
qed

lemma store_step_rely:
  "store_step actor w w' \<Longrightarrow> actor \<noteq> Some owner \<Longrightarrow> rely owner i w w'"
proof (induction rule: store_step.induct)
  case (claiming_step cv other now secs affinity w c w')
  show ?case
  proof (cases "leases_ok w")
    case True
    then have "distinct (map job_id (jobs w))" by (simp add: leases_ok_def)
    from claim_rewritten [OF claiming_step.hyps this] show ?thesis
    proof (elim disjE exE conjE)
      fix k job
      assume rew: "rewritten (\<lambda>r. if job_id r = k \<and> job_state r = QUEUED then leased_by other now secs r else r) w w'"
      show ?thesis
        by (rule rely_rewritten [OF rew]) (use claiming_step.prems in \<open>auto simp: leases_ok_def intro!: gentle_claimed\<close>)
    qed (simp add: rely_same)
  qed (simp add: rely_def)
next
  case (working_step other k w w')
  then show ?case by (intro rely_owned [of w other k w']) (simp_all add: worker_step_owned)
next
  case (enqueuing_step sha256 new_id s profile priority pinned now qs bound w w')
  then obtain w1 where w1: "insert_job (job_row sha256 new_id s profile priority pinned now qs bound) w = Inr w1"
    and w': "\<exists>i t m d. w' = commit (append_event i t now m d w1)" unfolding enqueue_insert_def bind_result_Inr_iff by blast
  have "rely owner i w w1"
    by (rule rely_added [of w1 w "job_row sha256 new_id s profile priority pinned now qs bound"])
      (use w1 new_rows_ok in \<open>auto simp: insert_job_def row_ok_def split: if_splits\<close>)
  moreover have "rely owner i w1 w'" using w' by (auto intro: rely_same)
  ultimately show ?case by (rule rely_trans)
next
  case (keyed_step src key now w found w')
  from key_rewritten [OF keyed_step.hyps] show ?case
    by (auto intro: rely_same rely_rewritten gentle_columns elim!: rely_rewritten simp: gentle_columns)
next
  case (renewing_step o' ids now secs w lost w')
  show ?case by (rule rely_rewritten [OF renew_rewritten [OF renewing_step.hyps]]) (auto intro: gentle_renewed)
next
  case (reaping_step now w summary w')
  show ?case
    by (rule rely_rewritten [OF reap_rewritten [OF _ reaping_step.hyps]]) (simp_all add: gentle_reaped leases_ok_def)
next
  case (expiring_step waited now bound w ids w')
  have "rewritten (\<lambda>j. if wait_exceeded waited now bound j then expire_values bound j (assignments FAILED now (Some ''MAX_WAIT_EXCEEDED'') j) else j) w w'"
    if "leases_ok w"
    using expire_rewritten [of w waited now bound] expiring_step.hyps that by (auto simp: leases_ok_def)
  then show ?case by (rule rely_rewritten) (auto intro: gentle_expired)
next
  case (ageing_step w waited now qs)
  show ?case by (rule rely_rewritten [OF ageing_rewritten]) (simp add: gentle_columns)
next
  case (cancelling_step caller k now w out w')
  show ?case
  proof (cases "leases_ok w")
    case True
    then have "distinct (map job_id (jobs w))" by (simp add: leases_ok_def)
    from cancel_rewritten [OF cancelling_step.hyps this] show ?thesis
    proof (elim disjE exE conjE)
      fix s t rsn
      assume rew: "rewritten (\<lambda>r. if job_id r = k then cancel_values t (assignments t now rsn r) else r) w w'" and "is_legal s t" "cancel_target s = Some t"
        "\<forall>r \<in> set (jobs w). job_id r = k \<longrightarrow> job_state r = s"
      then show ?thesis by (intro rely_rewritten [OF rew] gentle_cancelled)
    qed (simp add: rely_same)
  qed (simp add: rely_def)
next
  case (forcing_step k now rsn msg d code w w')
  show ?case
  proof (cases "leases_ok w")
    case True
    then have "distinct (map job_id (jobs w))" by (simp add: leases_ok_def)
    note mv = move_rewritten [OF forcing_step.hyps this]
    show ?thesis
      by (rule rely_rewritten [OF mv(1)], rule gentle_moves [where w = w, OF mv(3) mv(2)]) (auto simp: keeps_core_def state_set_defs)
  qed (simp add: rely_def)
next
  case (requeuing_step k now rsn msg d w w')
  show ?case
  proof (cases "leases_ok w")
    case True
    then have "distinct (map job_id (jobs w))" by (simp add: leases_ok_def)
    note mv = move_rewritten [OF requeuing_step.hyps this]
    show ?thesis
      by (rule rely_rewritten [OF mv(1)], rule gentle_moves [where w = w, OF mv(3) mv(2)]) (auto simp: keeps_core_def state_set_defs)
  qed (simp add: rely_def)
next
  case (recovering_step owner_prefix now w w' s)
  show ?case
    by (rule rely_rewritten [OF recover_rewritten [OF _ recovering_step.hyps]]) (simp_all add: gentle_recovered leases_ok_def)
next
  case (scrubbing_step w rfc now hours batch)
  show ?case
  proof (cases "leases_ok w")
    case True
    then obtain ids where "rewritten (\<lambda>j. if job_id j \<in> set ids then scrub_job rfc now j else j) w (snd (scrub_content rfc now hours batch w))"
      using scrub_rewritten [of w rfc now hours batch] unfolding leases_ok_def by blast
    then show ?thesis by (rule rely_rewritten) (simp add: gentle_columns)
  qed (simp add: rely_def)
next
  case (flag_step caller name v w w')
  then have "jobs w' = jobs w" by (auto simp: set_queue_flag_def bind_result_Inr_iff split: if_splits)
  then show ?case by (rule rely_same)
next
  case (reserving_step sha256 new_id request profile now ttl w w')
  let ?row = "sync_row sha256 new_id request profile now ttl"
  have rows: "jobs w' = jobs w @ [?row]" "\<forall>j \<in> set (jobs w). job_id j \<noteq> job_id ?row"
    using reserving_step.hyps by (auto simp: insert_job_def split: if_splits)
  have "lease_ok ?row" "lease_owner ?row = None" using sync_rows_ok unfolding row_ok_def by blast+
  then show ?case by (rule rely_added [OF rows])
next
  case (finishing_step pkg sha256 as_json existing k request routing outcome records err now w w')
  then show ?case using rely_persist by blast
next
  case (refusing_step k err now w w')
  show ?case
  proof (rule fail_reserved_parts [OF refusing_step.hyps(1)])
    fix w2 t d
    assume rew: "rewritten (\<lambda>j. if job_id j = k then j\<lparr>job_state := FAILED, state_reason := Some (err_code err), error_code := Some (err_code err),
      error_text := Some (err_message err), completed_at := Some now\<rparr> else j) w w2" and w': "w' = commit (append_event k t now None d w2)"
    have "rely owner i w w2"
      by (rule rely_rewritten [OF rew]) (rule gentle_refused [OF refusing_step.hyps(2)], simp_all add: leases_ok_def)
    moreover have "rely owner i w2 w'" by (rule rely_same) (simp add: w')
    ultimately show ?thesis by (rule rely_trans)
  qed
qed (simp_all add: rely_same)

subsection \<open>Reachable stores\<close>

inductive store_reachable :: "World \<Rightarrow> bool" where
  fresh_store: "jobs w = [] \<Longrightarrow> job_attempts w = [] \<Longrightarrow> job_events w = [] \<Longrightarrow> store_reachable w"
| next_store: "store_reachable w \<Longrightarrow> store_step actor w w' \<Longrightarrow> store_reachable w'"

lemma reachable_ok: "store_reachable w \<Longrightarrow> store_ok w"
proof (induction rule: store_reachable.induct)
  case (fresh_store w)
  then show ?case by (simp add: store_ok_def attempts_ok_def unique_keys_def ordered_events_def)
qed (rule store_step_ok)

text \<open>
  C1. The invariant of the store. From an empty store on, whatever the workers, the scheduler, the
  submitters, the synchronous callers, a restart and the operators commit and in whatever order: job ids are
  distinct; a lease has an owner exactly when it has an expiry, and only an in-flight job is leased; a job carries
  its completion time exactly when its state is terminal; no two jobs hold the same idempotency key of
  a source; the rows of \<open>job_attempts\<close> of a job are numbered 1 to the job's own counter without a gap or a repeat and none is
  an orphan; and the events of a job carry increasing sequence numbers.
\<close>

theorem store_invariant:
  assumes "store_reachable w"
  shows "(distinct (map job_id (jobs w))) \<and>
    (\<forall>j \<in> set (jobs w). (lease_owner j \<noteq> None \<longleftrightarrow> lease_expires_at j \<noteq> None) \<and>
      (lease_owner j \<noteq> None \<longrightarrow> job_state j \<in> IN_FLIGHT_STATES) \<and> (completed_at j \<noteq> None \<longleftrightarrow> job_state j \<in> TERMINAL_STATES)) \<and>
    (\<forall>n < length (jobs w). \<forall>m < n. idempotency_key (jobs w ! m) \<noteq> None \<longrightarrow> job_source (jobs w ! m) = job_source (jobs w ! n) \<longrightarrow>
      idempotency_key (jobs w ! m) \<noteq> idempotency_key (jobs w ! n)) \<and>
    (\<forall>j \<in> set (jobs w). 0 \<le> attempt j \<and>
      map ja_attempt (filter (\<lambda>a. ja_job_id a = job_id j) (job_attempts w)) = map int [1..<Suc (nat (attempt j))]) \<and>
    (\<forall>a \<in> set (job_attempts w). \<exists>j \<in> set (jobs w). ja_job_id a = job_id j) \<and>
    (\<forall>n < length (job_events w). \<forall>m < n. je_job_id (job_events w ! m) = je_job_id (job_events w ! n) \<longrightarrow>
      je_sequence (job_events w ! m) < je_sequence (job_events w ! n))"
proof (intro conjI)
  have ok: "distinct (map job_id (jobs w))" "\<forall>j \<in> set (jobs w). row_ok j" "unique_keys (jobs w)" "attempts_ok w" "ordered_events (job_events w)"
    using reachable_ok [OF assms] by (simp_all add: store_ok_def)
  show "distinct (map job_id (jobs w))" by (rule ok(1))
  show "\<forall>j \<in> set (jobs w). (lease_owner j \<noteq> None \<longleftrightarrow> lease_expires_at j \<noteq> None) \<and>
      (lease_owner j \<noteq> None \<longrightarrow> job_state j \<in> IN_FLIGHT_STATES) \<and> (completed_at j \<noteq> None \<longleftrightarrow> job_state j \<in> TERMINAL_STATES)"
    using ok(2) by (simp add: row_ok_def lease_ok_def)
  show "\<forall>n < length (jobs w). \<forall>m < n. idempotency_key (jobs w ! m) \<noteq> None \<longrightarrow> job_source (jobs w ! m) = job_source (jobs w ! n) \<longrightarrow>
      idempotency_key (jobs w ! m) \<noteq> idempotency_key (jobs w ! n)"
    using ok(3) unfolding unique_keys_def sorted_wrt_iff_nth_less same_key_def by blast
  show "\<forall>j \<in> set (jobs w). 0 \<le> attempt j \<and>
      map ja_attempt (filter (\<lambda>a. ja_job_id a = job_id j) (job_attempts w)) = map int [1..<Suc (nat (attempt j))]"
    using ok(4) unfolding attempts_ok_def attempt_numbers_def by blast
  show "\<forall>a \<in> set (job_attempts w). \<exists>j \<in> set (jobs w). ja_job_id a = job_id j" using ok(4) unfolding attempts_ok_def by blast
  show "\<forall>n < length (job_events w). \<forall>m < n. je_job_id (job_events w ! m) = je_job_id (job_events w ! n) \<longrightarrow>
      je_sequence (job_events w ! m) < je_sequence (job_events w ! n)"
    using ok(5) unfolding ordered_events_def sorted_wrt_iff_nth_less by blast
qed

theorem store_invariant_witness:
  "\<exists>w. store_reachable w \<and> map job_id (jobs w) = [''j1''] \<and> (\<forall>j \<in> set (jobs w). completed_at j \<noteq> None \<longleftrightarrow> job_state j \<in> TERMINAL_STATES)"
proof -
  have start: "store_reachable (world_of [])" by (rule fresh_store) (simp_all add: world_of_def)
  obtain w where w: "insert_job (sync_row id ''j1'' plain_request plain_profile 0 24) (world_of []) = Inr w"
    and ids: "map job_id (jobs w) = [''j1'']" by (simp add: insert_job_def sync_row_def)
  have reach: "store_reachable w" by (rule next_store [OF start reserving_step [OF w]])
  have "\<forall>j \<in> set (jobs w). completed_at j \<noteq> None \<longleftrightarrow> job_state j \<in> TERMINAL_STATES"
    using store_invariant [OF reach] by blast
  with reach ids show ?thesis by (intro exI [of _ w] conjI)
qed

subsection \<open>A worker among the others\<close>

text \<open>A transaction: who runs it, and a body each of whose commits is a step of the store; a rollback leaves no trace.\<close>

typedef transaction = "{(actor, body :: World \<Rightarrow> queue_error + World). \<forall>w w'. body w = Inr w' \<longrightarrow> store_step actor w w'}"
  by (rule exI [of _ "(None, \<lambda>_. Inl AssertionFailed)"]) simp

setup_lifting type_definition_transaction

lift_definition tx_actor :: "transaction \<Rightarrow> string option" is fst .

lift_definition tx_body :: "transaction \<Rightarrow> World \<Rightarrow> queue_error + World" is snd .

lift_definition cancel_transaction :: "Principal option \<Rightarrow> string \<Rightarrow> instant \<Rightarrow> transaction"
  is "\<lambda>caller i now. (None, \<lambda>w. map_sum id snd (cancel_job caller i now w))"
  by (auto simp: map_sum_Inr intro: cancelling_step)

lift_definition reap_transaction :: "instant \<Rightarrow> transaction" is "\<lambda>now. (None, \<lambda>w. map_sum id snd (reap_expired_leases now w))"
  by (auto simp: map_sum_Inr intro: reaping_step)

lift_definition claim_transaction :: "conversions \<Rightarrow> string \<Rightarrow> instant \<Rightarrow> int \<Rightarrow> AffinityHint option \<Rightarrow> transaction"
  is "\<lambda>cv owner now secs affinity. (Some owner, \<lambda>w. map_sum id snd (claim cv owner now secs affinity w))"
  by (auto simp: map_sum_Inr intro: claiming_step)

definition run_transaction :: "transaction \<Rightarrow> World \<Rightarrow> World" where
  "run_transaction t w = (case tx_body t w of Inl _ \<Rightarrow> w | Inr w' \<Rightarrow> w')"

text \<open>What the others do before a worker's n-th access: any transactions but this worker's own, and anything to what lives in memory.\<close>

record interleaving =
  il_store :: "nat \<Rightarrow> transaction list"
  il_memory :: "nat \<Rightarrow> shared \<Rightarrow> shared"

definition others_run :: "string \<Rightarrow> interleaving \<Rightarrow> nat \<Rightarrow> shared \<Rightarrow> shared" where
  "others_run owner script n s =
     (il_memory script n s)\<lparr>sh_world := fold run_transaction (filter (\<lambda>t. tx_actor t \<noteq> Some owner) (il_store script n)) (sh_world s)\<rparr>"

definition with_others :: "interleaving \<Rightarrow> 'e worker_env \<Rightarrow> 'e worker_env" where
  "with_others script env = env\<lparr>we_others := others_run (we_owner env) script\<rparr>"

lemma with_others_simps [simp]:
  "we_owner (with_others script env) = we_owner env" "we_others (with_others script env) = others_run (we_owner env) script"
  by (simp_all add: with_others_def)

lemma transaction_step: "tx_body t w = Inr w' \<Longrightarrow> store_step (tx_actor t) w w'"
  by transfer auto

lemma run_transaction_rely: "tx_actor t \<noteq> Some owner \<Longrightarrow> rely owner i w (run_transaction t w)"
  unfolding run_transaction_def
  by (cases "tx_body t w") (simp_all add: rely_same store_step_rely [OF transaction_step])

lemma run_transactions_rely:
  "\<forall>t \<in> set ts. tx_actor t \<noteq> Some owner \<Longrightarrow> rely owner i w (fold run_transaction ts w)"
proof (induction ts arbitrary: w)
  case (Cons t ts)
  then show ?case using rely_trans [OF run_transaction_rely [of t owner i w]] by simp
qed (simp add: rely_same)

interpretation among: interference "with_others script env" i for script env i
  by unfold_locales (simp add: others_run_def run_transactions_rely)

lemma claim_holding:
  assumes ok: "leases_ok w" and c: "claim cv owner now secs affinity w = Inr (Some job, w1)"
  shows "holding owner (claimed_job_id job) LEASED (claimed_attempt job) w1"
proof -
  let ?i = "claimed_job_id job"
  have d: "distinct (map job_id (jobs w))" using ok by (simp add: leases_ok_def)
  from claim_rewritten [OF c d] have rew: "rewritten (\<lambda>r. if job_id r = ?i \<and> job_state r = QUEUED then leased_by owner now secs r else r) w w1"
    and was: "\<forall>r \<in> set (jobs w). job_id r = ?i \<longrightarrow> job_state r = QUEUED \<and> claimed_attempt job = attempt r" by auto
  have "leases_ok w1" by (rule rewritten_leases [OF ok rew]) (simp add: kept_claimed row_kept_refl)
  moreover have "job_state j = LEASED \<and> attempt j = claimed_attempt job" if j: "j \<in> set (jobs w1)" "job_id j = ?i" for j
  proof -
    obtain r where r: "r \<in> set (jobs w)" "j = (if job_id r = ?i \<and> job_state r = QUEUED then leased_by owner now secs r else r)"
      using j(1) rew by (auto simp: rewritten_def)
    have "job_id r = ?i" using r(2) j(2) by (simp add: leased_by_def split: if_split_asm)
    then show ?thesis using was r by (simp add: leased_by_def)
  qed
  ultimately show ?thesis by (auto simp: holding_def held_row_def find_Some_iff)
qed

lemma let_go_rows:
  assumes "let_go owner i w"
  shows "\<forall>j \<in> set (jobs w). job_id j = i \<longrightarrow> lease_owner j = Some owner \<longrightarrow> job_state j = CANCELLING"
  using assms held_row_get [of w] by (auto simp: let_go_def leases_ok_def get_row_Some)

text \<open>
  C2. A worker lets go of what it claimed. Take a store whose leases are sound, a claim by a worker that
  took a job, and the processing of that job to its end, with any transactions of any other
  workers, sweeps, submitters, cancellations, a restart's recovery and so on before each of its accesses, with any
  routing outcome and any provider, and with any of its transactions refused: the processing returns,
  and then the job is no longer leased to this worker, unless it is \<open>cancelling\<close> (a cancellation requested
  while the worker was crashing, which the watchdog and the reaper settle).
\<close>

theorem worker_lets_go:
  assumes "distinct (map job_id (jobs w))" "\<forall>j \<in> set (jobs w). lease_ok j"
    "claim cv (we_owner env) now secs affinity w = Inr (Some job, w1)" "sh_world (rn_shared r) = w1"
  shows "\<exists>r'. process (with_others script env) job r = Some r' \<and>
    (\<forall>j \<in> set (jobs (sh_world (rn_shared r'))). job_id j = claimed_job_id job \<longrightarrow> lease_owner j = Some (we_owner env) \<longrightarrow> job_state j = CANCELLING)"
proof -
  have ok: "leases_ok w" using assms(1,2) by (simp add: leases_ok_def)
  obtain r' where r': "process (with_others script env) job r = Some r'" using process_returns by blast
  have held: "holding (we_owner env) (claimed_job_id job) LEASED (claimed_attempt job) w1" by (rule claim_holding [OF ok assms(3)])
  have "let_go (we_owner env) (claimed_job_id job) (sh_world (rn_shared r'))"
    using among.process_lets_go [OF refl, of script env job r r'] held r' assms(4) by simp
  then show ?thesis using r' let_go_rows by blast
qed

definition idle_sources :: "string worker_env" where
  "idle_sources = \<lparr>we_owner = ''p/worker-0'', we_worker_id = ''worker-0'', we_packages = plain_packages, we_sha256 = id, we_as_json = (\<lambda>_. []),
     we_shown = (\<lambda>_. []), we_str_other = (\<lambda>_. []), we_others = (\<lambda>_ s. s), we_clock = (\<lambda>n. 10 + int n), we_sync = scripted_env (\<lambda>n. n = 2),
     we_breaker_config = default_config, we_samples = (\<lambda>_ _. []), we_names = (\<lambda>_ _. []), we_verdicts_written = (\<lambda>_. True),
     we_route = (\<lambda>_. Routed plain_routing), we_schema = (\<lambda>_. Inr None), we_residency = (\<lambda>_. JNull), we_elapsed_ms = (\<lambda>_. 1),
     we_streams = (\<lambda>_. True), we_timeout = None, we_error_text = (\<lambda>_. [])\<rparr>"

text \<open>The reaper, another worker's claim and a cancellation come in between.\<close>

definition busy_others :: interleaving where
  "busy_others = \<lparr>il_store = (\<lambda>n. if n = 0 then [claim_transaction plain_conversions ''p/worker-1'' 10 60 None]
       else if n = 5 then [cancel_transaction None ''b'' 12] else [reap_transaction 11]), il_memory = (\<lambda>_ s. s)\<rparr>"

definition run_from :: "World \<Rightarrow> run" where
  "run_from w = \<lparr>rn_shared = \<lparr>sh_world = w, sh_flight = [], sh_breakers = [], sh_persisted = [], sh_wakeup = False, sh_resources_changed = False\<rparr>,
     rn_accesses = 0, rn_calls = 0\<rparr>"

theorem worker_lets_go_witness:
  "\<exists>job w1 r'. claim plain_conversions ''p/worker-0'' 9 60 None two_jobs = Inr (Some job, w1) \<and>
     process (with_others busy_others idle_sources) job (run_from w1) = Some r' \<and>
     (\<forall>j \<in> set (jobs (sh_world (rn_shared r'))). job_id j = claimed_job_id job \<longrightarrow> lease_owner j = Some ''p/worker-0'' \<longrightarrow> job_state j = CANCELLING)"
proof -
  obtain job w1 where c: "claim plain_conversions ''p/worker-0'' 9 60 None two_jobs = Inr (Some job, w1)" using two_jobs_claim by blast
  have owner: "we_owner idle_sources = ''p/worker-0''" by (simp add: idle_sources_def)
  have ok: "distinct (map job_id (jobs two_jobs))" "\<forall>j \<in> set (jobs two_jobs). lease_ok j" by (simp_all add: two_jobs_def lease_ok_def)
  have "sh_world (rn_shared (run_from w1)) = w1" by (simp add: run_from_def)
  from worker_lets_go [OF ok c [folded owner] this, of busy_others] c show ?thesis unfolding owner by blast
qed

end
