(* ===== verification/Scheduling.thy ===== *)
theory Scheduling
  imports Store_Steps
begin

section \<open>What the scheduler guarantees\<close>

text \<open>
  Theorems on \<open>Scheduler.tick\<close>: a tick is a sequence of transactions of the store, so it keeps the
  invariant; only the evaluation of the circuit breakers can make it fail; it never takes a job from a
  running worker of its own process; and the watchdog ends every cancellation that is overdue.
\<close>

subsection \<open>Steps that spare the running jobs\<close>

definition chain :: "World \<Rightarrow> World \<Rightarrow> bool" where
  "chain = (store_step None)\<^sup>*\<^sup>*"

definition running :: "instant \<Rightarrow> Job \<Rightarrow> bool" where
  "running now j \<longleftrightarrow> job_state j \<in> IN_FLIGHT_STATES - {CANCELLING} \<and> \<not> lease_expired now j"

definition spared :: "instant \<Rightarrow> World \<Rightarrow> World \<Rightarrow> bool" where
  "spared now w w' \<longleftrightarrow> (\<forall>j \<in> set (jobs w). running now j \<longrightarrow> j \<in> set (jobs w'))"

definition upkeep :: "instant \<Rightarrow> World \<Rightarrow> World \<Rightarrow> bool" where
  "upkeep now w w' \<longleftrightarrow> chain w w' \<and> spared now w w'"

lemma chain_refl [simp]: "chain w w"
  by (simp add: chain_def)

lemma chain_trans: "chain w w1 \<Longrightarrow> chain w1 w2 \<Longrightarrow> chain w w2"
  by (simp add: chain_def)

lemma chain_step: "store_step None w w' \<Longrightarrow> chain w w'"
  by (simp add: chain_def r_into_rtranclp)

lemma chain_ok: "chain w w' \<Longrightarrow> store_ok w \<Longrightarrow> store_ok w'"
  unfolding chain_def by (induction rule: rtranclp_induct) (auto intro: store_step_ok)

lemma chain_reachable: "chain w w' \<Longrightarrow> store_reachable w \<Longrightarrow> store_reachable w'"
  unfolding chain_def by (induction rule: rtranclp_induct) (auto intro: next_store)

lemma upkeep_refl [simp]: "upkeep now w w"
  by (simp add: upkeep_def spared_def)

lemma upkeep_trans: "upkeep now w w1 \<Longrightarrow> upkeep now w1 w2 \<Longrightarrow> upkeep now w w2"
  unfolding upkeep_def spared_def using chain_trans by blast

lemma upkeep_rewritten:
  assumes "store_step None w w'" "rewritten f w w'" "\<And>j. j \<in> set (jobs w) \<Longrightarrow> running now j \<Longrightarrow> f j = j"
  shows "upkeep now w w'"
proof -
  have "j \<in> set (jobs w')" if "j \<in> set (jobs w)" "running now j" for j
    using assms(2) assms(3) [OF that] that(1) by (auto simp: rewritten_def intro: rev_image_eqI)
  then show ?thesis using chain_step [OF assms(1)] by (simp add: upkeep_def spared_def)
qed

lemma running_states: "running now j \<Longrightarrow> job_state j \<notin> WAITING_STATES \<union> TERMINAL_STATES \<union> {CANCELLING}"
  using state_partition [of "job_state j"] by (auto simp: running_def)

subsection \<open>The sub-steps\<close>

lemma upkeep_reap:
  assumes "store_ok w"
  shows "\<exists>s w'. reap_expired_leases now w = Inr (s, w') \<and> upkeep now w w'"
proof -
  obtain s w' where r: "reap_expired_leases now w = Inr (s, w')" using reap_rows [OF store_ok_distinct [OF assms], of now] by auto
  have "upkeep now w w'"
    by (rule upkeep_rewritten [OF reaping_step [OF r] reap_rewritten [OF store_ok_distinct [OF assms] r]]) (simp add: running_def)
  with r show ?thesis by blast
qed

lemma upkeep_expire:
  assumes "store_ok w"
  shows "\<exists>ids w'. expire_max_wait waited now bound w = Inr (ids, w') \<and> upkeep now w w'"
proof -
  obtain ids w' where r: "expire_max_wait waited now bound w = Inr (ids, w')"
    and rew: "rewritten (\<lambda>j. if wait_exceeded waited now bound j then expire_values bound j (assignments FAILED now (Some ''MAX_WAIT_EXCEEDED'') j) else j) w w'"
    using expire_rewritten [OF store_ok_distinct [OF assms]] by blast
  have "upkeep now w w'"
    by (rule upkeep_rewritten [OF expiring_step [OF r] rew]) (auto dest: running_states simp: wait_exceeded_def)
  with r show ?thesis by blast
qed

lemma upkeep_ageing: "upkeep now w (snd (ageing_sweep waited now qs w))"
  by (rule upkeep_rewritten [OF ageing_step ageing_rewritten]) (auto dest: running_states simp: stale_priority_def)

lemma upkeep_move:
  assumes "store_ok w" "move i s t now None rsn msg d vals w = Inr w'" "store_step None w w'" "s \<in> WAITING_STATES \<union> {CANCELLING}"
  shows "upkeep now w w'"
proof -
  note mv = move_rewritten [OF assms(2) store_ok_distinct [OF assms(1)]]
  show ?thesis by (rule upkeep_rewritten [OF assms(3) mv(1)]) (use mv(3) assms(4) in \<open>auto dest: running_states\<close>)
qed

lemma upkeep_scrub:
  assumes "store_ok w"
  shows "upkeep now w (snd (scrub_content rfc now hours batch w))"
proof -
  obtain ids e' where ids: "ids = picked (int batch) (take (batch * 4) (due_rows (now - hours * 3600000000) w))" "distinct ids"
    "scrub_content rfc now hours batch w = (\<lparr>scrubbed_jobs = int (length ids), scrubbed_events = e', ro_cutoff = now - hours * 3600000000\<rparr>, scrub_all rfc now ids w)"
    by (rule scrub_content_tables [OF store_ok_distinct [OF assms]])
  have due: "set ids \<subseteq> job_id ` set (due_rows (now - hours * 3600000000) w)" unfolding ids(1) picked_def by (auto dest!: in_set_takeD)
  have ended: "job_state j \<in> TERMINAL_STATES" if j: "j \<in> set (jobs w)" "job_id j \<in> set ids" for j
  proof -
    obtain r where "r \<in> set (jobs w)" "job_state r \<in> TERMINAL_STATES" "job_id r = job_id j"
      using due j(2) unfolding due_rows_set scrub_due_def by force
    then show ?thesis using unique_row [OF store_ok_distinct [OF assms] j(1)] by metis
  qed
  have kept: "j \<in> set (jobs (scrub_all rfc now ids w))" if "j \<in> set (jobs w)" "running now j" for j
  proof -
    have "job_id j \<notin> set ids" using ended [OF that(1)] running_states [OF that(2)] by blast
    then show ?thesis unfolding scrub_all_tables(1) [OF ids(2)] using that(1) by (auto intro: rev_image_eqI)
  qed
  have "snd (scrub_content rfc now hours batch w) = scrub_all rfc now ids w" using ids(3) by simp
  then show ?thesis using chain_step [OF scrubbing_step, of w rfc now hours batch] kept by (simp add: upkeep_def spared_def)
qed

text \<open>A move of the scheduler's own raises only when the row left the state meanwhile.\<close>

lemma move_refused:
  assumes "is_legal s t" "move i s t now None rsn msg d vals w = Inl e"
  shows "\<exists>a b c f. e = TransitionRefused a b c f"
  using assms unfolding move_def transition_def by (auto simp: bind_result_def check_transition_def map_error_def split: if_splits sum.splits)

lemma each_row_upkeep:
  assumes "\<And>x s acc. x \<in> set xs \<Longrightarrow> store_ok (g s) \<Longrightarrow> \<exists>s1 acc1. f x (s, acc) = Inr (s1, acc1) \<and> upkeep now (g s) (g s1)" "store_ok (g s)"
  shows "\<exists>s' acc'. each_row f xs (s, acc) = Inr (s', acc') \<and> upkeep now (g s) (g s')"
  using assms
proof (induction xs arbitrary: s acc)
  case (Cons x xs)
  obtain s1 acc1 where s1: "f x (s, acc) = Inr (s1, acc1)" "upkeep now (g s) (g s1)" using Cons.prems by force
  have ok: "store_ok (g s1)" using s1(2) chain_ok Cons.prems(2) unfolding upkeep_def by blast
  obtain s' acc' where "each_row f xs (s1, acc1) = Inr (s', acc')" "upkeep now (g s1) (g s')"
    using Cons.IH [OF Cons.prems(1) ok] by force
  then show ?case using s1 upkeep_trans by (auto simp: bind_result_def)
qed simp

lemma upkeep_watch:
  assumes "store_ok (sh_world s)"
  shows "\<exists>s' forced'. each_row (watch_one limit now) xs (s, forced) = Inr (s', forced') \<and> upkeep now (sh_world s) (sh_world s')"
proof (rule each_row_upkeep [where g = sh_world, OF _ assms])
  fix x :: "string \<times> instant option" and s :: shared and forced
  assume ok: "store_ok (sh_world s)"
  obtain i entered where x: "x = (i, entered)" by (cases x)
  let ?mv = "move i CANCELLING CANCELLED now None (Some ''cancelling_watchdog'')
      (Some (''cancelling for more than '' @ str_int limit @ '' s: terminal transition forced by the watchdog''))
      [(''forced'', JBool True), (''watchdog_seconds'', JInt limit)] (\<lambda>j. j\<lparr>error_code := Some ''GENERATION_CANCELLED''\<rparr>) (sh_world s)"
  show "\<exists>s1 acc1. watch_one limit now x (s, forced) = Inr (s1, acc1) \<and> upkeep now (sh_world s) (sh_world s1)"
  proof (cases ?mv)
    case (Inl e)
    have "is_legal CANCELLING CANCELLED" by (simp add: is_legal_def TRANSITIONS_def)
    then obtain a b c f where "e = TransitionRefused a b c f" using move_refused [OF _ Inl] by blast
    then show ?thesis using Inl unfolding watch_one_def x prod.case Let_def by simp
  next
    case (Inr w')
    have "upkeep now (sh_world s) w'" by (rule upkeep_move [OF ok Inr forcing_step [OF Inr]]) simp
    then show ?thesis using Inr unfolding watch_one_def x prod.case Let_def by simp
  qed
qed

lemma upkeep_requeue:
  assumes "store_ok w"
  shows "\<exists>w' ids'. each_row (requeue_one proceed now) xs (w, ids) = Inr (w', ids') \<and> upkeep now w w'"
proof (rule each_row_upkeep [where g = "\<lambda>w. w", OF _ assms])
  fix x :: "string \<times> json_obj option" and w ids
  assume ok: "store_ok w"
  obtain i record' where x: "x = (i, record')" by (cases x)
  let ?mv = "move i WAITING_RESOURCES QUEUED now None (Some ''resources_freed'')
       (Some ''resources may now be available: re-queued for admission'') [] id w"
  show "\<exists>w1 acc1. requeue_one proceed now x (w, ids) = Inr (w1, acc1) \<and> upkeep now w w1"
  proof (cases ?mv)
    case (Inl e)
    have "is_legal WAITING_RESOURCES QUEUED" by (simp add: is_legal_def TRANSITIONS_def)
    then obtain a b c f where "e = TransitionRefused a b c f" using move_refused [OF _ Inl] by blast
    then show ?thesis using Inl unfolding requeue_one_def x prod.case by simp
  next
    case (Inr w')
    have "upkeep now w w'" by (rule upkeep_move [OF ok Inr requeuing_step [OF Inr]]) (simp add: state_set_defs)
    then show ?thesis using Inr unfolding requeue_one_def x prod.case by simp
  qed
qed

subsection \<open>A tick\<close>

text \<open>A sub-step on a sound store: a chain of transactions that spares the running jobs, failing only in the
  evaluation of the breakers, and leaving the keeper's clock alone.\<close>

definition keeper_time :: "Runtime \<Rightarrow> instant option" where
  "keeper_time r = map_of (sc_last (rt_scheduler r)) ''keeper''"

definition well_run :: "instant \<Rightarrow> substep \<Rightarrow> bool" where
  "well_run now m \<longleftrightarrow> (\<forall>r e r'. store_ok (rt_world r) \<longrightarrow> m r = (e, r') \<longrightarrow>
     upkeep now (rt_world r) (rt_world r') \<and> (\<forall>x. e = Some x \<longrightarrow> (\<exists>b. x = TickStop (BreakerError b))) \<and> keeper_time r' = keeper_time r)"

lemma well_runI:
  assumes "\<And>r e r'. store_ok (rt_world r) \<Longrightarrow> m r = (e, r') \<Longrightarrow> upkeep now (rt_world r) (rt_world r') \<and>
     (\<forall>x. e = Some x \<longrightarrow> (\<exists>b. x = TickStop (BreakerError b))) \<and> keeper_time r' = keeper_time r"
  shows "well_run now m"
  using assms by (simp add: well_run_def)

lemma well_run_followed:
  assumes "well_run now m" "well_run now k"
  shows "well_run now (followed_by m k)"
proof (rule well_runI)
  fix r e r'
  assume ok: "store_ok (rt_world r)" and run: "followed_by m k r = (e, r')"
  obtain e1 r1 where r1: "m r = (e1, r1)" by fastforce
  have one: "upkeep now (rt_world r) (rt_world r1) \<and> (\<forall>x. e1 = Some x \<longrightarrow> (\<exists>b. x = TickStop (BreakerError b))) \<and> keeper_time r1 = keeper_time r"
    using assms(1) ok r1 unfolding well_run_def by blast
  show "upkeep now (rt_world r) (rt_world r') \<and> (\<forall>x. e = Some x \<longrightarrow> (\<exists>b. x = TickStop (BreakerError b))) \<and> keeper_time r' = keeper_time r"
  proof (cases e1)
    case (Some x)
    then show ?thesis using run r1 one by (simp add: followed_by_def)
  next
    case None
    then have k: "k r1 = (e, r')" using run r1 by (simp add: followed_by_def)
    have "store_ok (rt_world r1)" using one ok chain_ok unfolding upkeep_def by blast
    then have "upkeep now (rt_world r1) (rt_world r') \<and> (\<forall>x. e = Some x \<longrightarrow> (\<exists>b. x = TickStop (BreakerError b))) \<and> keeper_time r' = keeper_time r1"
      using assms(2) k unfolding well_run_def by blast
    then show ?thesis using one upkeep_trans by (metis (no_types))
  qed
qed

lemma well_run_due:
  assumes "well_run now m" "name \<noteq> ''keeper''"
  shows "well_run now (when_due name now interval m)"
proof (rule well_runI)
  fix r e r'
  assume ok: "store_ok (rt_world r)" and run: "when_due name now interval m r = (e, r')"
  obtain d sc where d: "due name now interval (rt_scheduler r) = (d, sc)" by fastforce
  have same: "rt_world (r\<lparr>rt_scheduler := sc\<rparr>) = rt_world r" by (simp add: rt_world_def)
  have kept: "keeper_time (r\<lparr>rt_scheduler := sc\<rparr>) = keeper_time r"
    using d assms(2) by (auto simp: keeper_time_def due_def update_conv' split: option.splits if_splits)
  show "upkeep now (rt_world r) (rt_world r') \<and> (\<forall>x. e = Some x \<longrightarrow> (\<exists>b. x = TickStop (BreakerError b))) \<and> keeper_time r' = keeper_time r"
  proof (cases d)
    case True
    then have "m (r\<lparr>rt_scheduler := sc\<rparr>) = (e, r')" using run d by (simp add: when_due_def)
    then show ?thesis using assms(1) ok kept same unfolding well_run_def by metis
  next
    case False
    then have "e = None" "r' = r\<lparr>rt_scheduler := sc\<rparr>" using run d by (simp_all add: when_due_def)
    then show ?thesis using kept same by simp
  qed
qed

text \<open>A sub-step that does not fail.\<close>

lemma well_run_quiet:
  assumes "\<And>r. store_ok (rt_world r) \<Longrightarrow> \<exists>r'. m r = (None, r') \<and> upkeep now (rt_world r) (rt_world r') \<and> keeper_time r' = keeper_time r"
  shows "well_run now m"
proof (rule well_runI)
  fix r e r'
  assume "store_ok (rt_world r)" and m: "m r = (e, r')"
  from assms [OF this(1)] m show "upkeep now (rt_world r) (rt_world r') \<and> (\<forall>x. e = Some x \<longrightarrow> (\<exists>b. x = TickStop (BreakerError b))) \<and>
      keeper_time r' = keeper_time r" by auto
qed

lemma well_run_choice: "well_run now m \<Longrightarrow> well_run now k \<Longrightarrow> well_run now (\<lambda>r. if c r then m r else k r)"
  unfolding well_run_def by simp

lemma well_run_fine: "well_run now fine"
  by (simp add: well_run_def fine_def)

lemma set_world_simps [simp]: "rt_world (set_world w r) = w" "keeper_time (set_world w r) = keeper_time r"
  by (simp_all add: set_world_def rt_world_def keeper_time_def)

lemma well_run_reap: "well_run now (reap_step now)"
proof (rule well_run_quiet)
  fix r assume "store_ok (rt_world r)"
  then obtain x w' where "reap_expired_leases now (rt_world r) = Inr (x, w')" "upkeep now (rt_world r) w'" using upkeep_reap by blast
  then show "\<exists>r'. reap_step now r = (None, r') \<and> upkeep now (rt_world r) (rt_world r') \<and> keeper_time r' = keeper_time r"
    by (simp add: reap_step_def)
qed

lemma well_run_expire: "well_run now (expire_step te now)"
proof (rule well_run_quiet)
  fix r assume "store_ok (rt_world r)"
  then obtain x w' where "expire_max_wait (te_waited te) now (default_max_wait_seconds (te_queue te)) (rt_world r) = Inr (x, w')"
    "upkeep now (rt_world r) w'" using upkeep_expire by blast
  then show "\<exists>r'. expire_step te now r = (None, r') \<and> upkeep now (rt_world r) (rt_world r') \<and> keeper_time r' = keeper_time r"
    by (simp add: expire_step_def)
qed

lemma well_run_sweep: "well_run now (sweep_step te now)"
  by (rule well_run_quiet) (simp add: sweep_step_def set_world_def rt_world_def keeper_time_def upkeep_ageing)

lemma well_run_reevaluate: "well_run now (reevaluate_step te now)"
proof (rule well_run_quiet)
  fix r assume ok: "store_ok (rt_world r)"
  let ?r1 = "r\<lparr>rt_shared := (rt_shared r)\<lparr>sh_resources_changed := False\<rparr>,
      rt_scheduler := (rt_scheduler r)\<lparr>sc_last := AList.update ''reevaluate'' now (sc_last (rt_scheduler r))\<rparr>\<rparr>"
  have r1: "rt_world ?r1 = rt_world r" "keeper_time ?r1 = keeper_time r" by (simp_all add: rt_world_def keeper_time_def update_conv')
  have woken: "rt_world (woken ids r0) = rt_world r0" "keeper_time (woken ids r0) = keeper_time r0" for ids r0
    by (simp_all add: woken_def rt_world_def keeper_time_def)
  have "\<exists>ids r'. reevaluate_waiting te now ?r1 = Inr (ids, r') \<and> upkeep now (rt_world ?r1) (rt_world r') \<and> keeper_time r' = keeper_time ?r1"
  proof (cases "waiting_deferrals (sh_world (rt_shared ?r1)) = []")
    case True
    then show ?thesis by (simp add: reevaluate_waiting_def)
  next
    case False
    have ok1: "store_ok (sh_world (rt_shared ?r1))" using ok by (simp add: rt_world_def)
    let ?proceed = "may_proceed (admission_snapshot None (manager_of te (rt_episodes ?r1)) (te_snapshot te) (sh_flight (rt_shared ?r1)))
       (case manager_of te (rt_episodes ?r1) of None \<Rightarrow> [] | Some (d, _) \<Rightarrow> d) (excluded (sh_breakers (rt_shared ?r1))) (te_headroom_bytes te)"
    obtain w' ids where "each_row (requeue_one ?proceed now) (waiting_deferrals (sh_world (rt_shared ?r1))) (sh_world (rt_shared ?r1), []) = Inr (w', ids)"
      "upkeep now (sh_world (rt_shared ?r1)) w'"
      using upkeep_requeue [OF ok1] by blast
    then show ?thesis using False unfolding reevaluate_waiting_def Let_def
      by (simp add: bind_result_def woken) (simp add: rt_world_def)
  qed
  then show "\<exists>r'. reevaluate_step te now r = (None, r') \<and> upkeep now (rt_world r) (rt_world r') \<and> keeper_time r' = keeper_time r"
    unfolding reevaluate_step_def Let_def r1 by auto
qed

lemma same_world: "well_run now (\<lambda>r. (None, f r))" if "\<And>r. rt_world (f r) = rt_world r" "\<And>r. rt_scheduler (f r) = rt_scheduler r"
  by (rule well_run_quiet) (simp add: that keeper_time_def)

lemma well_run_evict: "well_run now (\<lambda>r. (None, evict_idle_step te now r))"
  by (rule same_world) (simp_all add: evict_idle_step_def rt_world_def split: option.splits prod.splits)

lemma well_run_sync: "well_run now (sync_step te now)"
  by (rule well_run_quiet) (auto simp: sync_step_def rt_world_def keeper_time_def split: option.splits)

lemma well_run_flags: "well_run now (flags_step te)"
  unfolding flags_step_def [abs_def] by (rule same_world) (simp_all add: apply_runtime_settings_def Let_def rt_world_def)

lemma well_run_retention: "well_run now (\<lambda>r. (None, sweep_retention te now r))"
  by (rule well_run_quiet) (simp add: sweep_retention_def upkeep_scrub)

lemma well_run_breakers: "well_run now (breakers_step te now)"
proof (rule well_runI)
  fix r e r'
  assume run: "breakers_step te now r = (e, r')"
  obtain res s where rs: "refresh_breakers (te_breaker_config te) (te_samples te) (te_names te) (te_verdicts_written te) now (rt_shared r) = (res, s)" by fastforce
  have "sh_world s = sh_world (rt_shared r)" "\<forall>x. res = Inl x \<longrightarrow> (\<exists>b. x = BreakerError b)"
    using rs by (auto simp: refresh_breakers_def Let_def split: prod.splits option.splits)
  then show "upkeep now (rt_world r) (rt_world r') \<and> (\<forall>x. e = Some x \<longrightarrow> (\<exists>b. x = TickStop (BreakerError b))) \<and> keeper_time r' = keeper_time r"
    using run rs by (auto simp: breakers_step_def rt_world_def keeper_time_def split: sum.splits)
qed

lemma well_run_watchdog: "well_run now (watchdog_step te now)"
proof (rule well_run_quiet)
  fix r assume ok: "store_ok (rt_world r)"
  then obtain s' forced where "watchdog te now (rt_shared r) = Inr (s', forced)" "upkeep now (rt_world r) (sh_world s')"
    using upkeep_watch [of "rt_shared r"] unfolding watchdog_def rt_world_def by blast
  then show "\<exists>r'. watchdog_step te now r = (None, r') \<and> upkeep now (rt_world r) (rt_world r') \<and> keeper_time r' = keeper_time r"
    by (simp add: watchdog_step_def rt_world_def keeper_time_def)
qed

text \<open>What the tick relies on of the evidence import: it writes none of the job tables.\<close>

definition writes_elsewhere :: "(instant \<Rightarrow> World \<Rightarrow> World) option \<Rightarrow> bool" where
  "writes_elsewhere refresh \<longleftrightarrow> (\<forall>f now w. refresh = Some f \<longrightarrow>
     jobs (f now w) = jobs w \<and> job_attempts (f now w) = job_attempts w \<and> job_events (f now w) = job_events w)"

lemma well_run_evidence:
  assumes "writes_elsewhere (te_evidence_refresh te)"
  shows "well_run now (evidence_step te now)"
proof (cases "te_evidence_refresh te")
  case None
  then show ?thesis by (intro well_run_quiet) (simp add: evidence_step_def)
next
  case (Some f)
  then have same: "jobs (f now w) = jobs w" "job_attempts (f now w) = job_attempts w" "job_events (f now w) = job_events w" for w
    using assms by (simp_all add: writes_elsewhere_def)
  then have "upkeep now w (f now w)" for w
    using chain_step [OF elsewhere_step [OF same]] by (simp add: upkeep_def spared_def)
  then show ?thesis by (intro well_run_quiet) (simp add: evidence_step_def Some)
qed

lemmas well_runs = well_run_choice well_run_followed well_run_due well_run_fine well_run_reap well_run_expire well_run_sweep
  well_run_reevaluate well_run_evict well_run_sync well_run_breakers well_run_watchdog well_run_flags well_run_retention well_run_evidence

text \<open>A tick is the keeper, then sub-steps that run well.\<close>

definition keeper_part :: "tick_env \<Rightarrow> instant \<Rightarrow> substep" where
  "keeper_part te now r = (if keeper_enabled (rt_scheduler r)
     then when_due ''keeper'' now (of_int (lease_renewal_interval_seconds (te_queue te))) (\<lambda>r. (None, keep_leases te now r)) r else fine r)"

lemma tick_parts:
  assumes "writes_elsewhere (te_evidence_refresh te)"
  shows "\<exists>rest. tick te now = followed_by (keeper_part te now) rest \<and> well_run now rest"
  unfolding tick_def keeper_part_def [abs_def]
  by (intro exI conjI, rule refl) (intro well_runs; simp add: assms)

subsection \<open>The lease keeper\<close>

lemma set_flight_simps [simp]: "rt_world (set_flight f r) = rt_world r" "rt_scheduler (set_flight f r) = rt_scheduler r"
  "sh_flight (rt_shared (set_flight f r)) = f" "rt_scheduler (set_world w r) = rt_scheduler r" "sh_flight (rt_shared (set_world w r)) = sh_flight (rt_shared r)"
  by (simp_all add: set_flight_def rt_world_def set_world_def)

lemma job_ids_update [simp]: "job_ids_for o' (update_entry i p f reg) = job_ids_for o' reg"
proof (cases "map_of reg (p, i)")
  case (Some e)
  then have keys: "map fst (AList.update (p, i) (f e) reg) = map fst reg" by (force simp: update_keys dest: map_of_SomeD)
  have ids: "job_ids_for o' r = map snd (filter (\<lambda>k. fst k = o') (map fst r))" for r :: registry
    by (induction r) (auto simp: job_ids_for_def)
  show ?thesis using keys by (simp add: update_entry_def Some ids)
qed (simp add: update_entry_def)

lemma job_ids_lost [simp]: "job_ids_for o' (fold (\<lambda>i. mark_lost i p) is reg) = job_ids_for o' reg"
  by (induction "is" arbitrary: reg) (simp_all add: mark_lost_def)

definition renewable :: "registry \<Rightarrow> string \<Rightarrow> Job \<Rightarrow> bool" where
  "renewable reg owner j \<longleftrightarrow> job_id j \<in> set (job_ids_for owner reg) \<and> lease_owner j = Some owner \<and> job_state j \<in> IN_FLIGHT_STATES"

lemma keep_owner_effect:
  "chain (rt_world r) (rt_world (keep_owner now secs owner r))"
  "job_ids_for o' (sh_flight (rt_shared (keep_owner now secs owner r))) = job_ids_for o' (sh_flight (rt_shared r))"
  "sc_last (rt_scheduler (keep_owner now secs owner r)) = sc_last (rt_scheduler r)"
  "jobs (rt_world (keep_owner now secs owner r)) =
     map (\<lambda>j. if renewable (sh_flight (rt_shared r)) owner j then j\<lparr>lease_expires_at := Some (now + secs * 1000000)\<rparr> else j) (jobs (rt_world r))"
proof -
  let ?ids = "job_ids_for owner (sh_flight (rt_shared r))"
  obtain lost w where lw: "renew_leases owner ?ids now secs (rt_world r) = (lost, w)" by fastforce
  have k: "rt_world (keep_owner now secs owner r) = (if ?ids = [] then rt_world r else w)"
    "sh_flight (rt_shared (keep_owner now secs owner r)) =
      (if ?ids = [] then sh_flight (rt_shared r) else fold (\<lambda>i. mark_lost i owner) (filter (\<lambda>i. i \<in> lost) ?ids) (sh_flight (rt_shared r)))"
    "sc_last (rt_scheduler (keep_owner now secs owner r)) = sc_last (rt_scheduler r)"
    using lw by (simp_all add: keep_owner_def Let_def set_flight_def set_world_def rt_world_def)
  show "chain (rt_world r) (rt_world (keep_owner now secs owner r))"
    unfolding k(1) using chain_step [OF renewing_step [OF lw]] by simp
  show "job_ids_for o' (sh_flight (rt_shared (keep_owner now secs owner r))) = job_ids_for o' (sh_flight (rt_shared r))" by (simp add: k(2))
  show "sc_last (rt_scheduler (keep_owner now secs owner r)) = sc_last (rt_scheduler r)" by (rule k(3))
  show "jobs (rt_world (keep_owner now secs owner r)) =
     map (\<lambda>j. if renewable (sh_flight (rt_shared r)) owner j then j\<lparr>lease_expires_at := Some (now + secs * 1000000)\<rparr> else j) (jobs (rt_world r))"
  proof (cases "?ids = []")
    case True
    then show ?thesis by (simp add: k(1) renewable_def)
  next
    case False
    then show ?thesis using renew_rewritten [OF lw] by (simp add: k(1) renewable_def rewritten_def)
  qed
qed

lemma keep_owners_effect:
  "chain (rt_world r) (rt_world (fold (keep_owner now secs) owners r)) \<and>
   (\<forall>o'. job_ids_for o' (sh_flight (rt_shared (fold (keep_owner now secs) owners r))) = job_ids_for o' (sh_flight (rt_shared r))) \<and>
   sc_last (rt_scheduler (fold (keep_owner now secs) owners r)) = sc_last (rt_scheduler r) \<and>
   jobs (rt_world (fold (keep_owner now secs) owners r)) =
     map (\<lambda>j. if \<exists>o' \<in> set owners. renewable (sh_flight (rt_shared r)) o' j then j\<lparr>lease_expires_at := Some (now + secs * 1000000)\<rparr> else j) (jobs (rt_world r))"
proof (induction owners arbitrary: r)
  case (Cons p owners)
  let ?r1 = "keep_owner now secs p r"
  note one = keep_owner_effect [where r = r and now = now and secs = secs and owner = p]
  have same: "renewable (sh_flight (rt_shared ?r1)) o' = renewable (sh_flight (rt_shared r)) o'" for o'
    by (rule ext) (simp add: renewable_def one(2))
  have blind: "renewable reg o' (j\<lparr>lease_expires_at := e\<rparr>) = renewable reg o' j" for reg o' j e by (simp add: renewable_def)
  let ?w = "now + secs * 1000000"
  let ?g = "\<lambda>j. if renewable (sh_flight (rt_shared r)) p j then j\<lparr>lease_expires_at := Some ?w\<rparr> else j"
  let ?h = "\<lambda>j. if \<exists>o' \<in> set owners. renewable (sh_flight (rt_shared r)) o' j then j\<lparr>lease_expires_at := Some ?w\<rparr> else j"
  have r1: "fold (keep_owner now secs) (p # owners) r = fold (keep_owner now secs) owners ?r1" by simp
  have both: "?h (?g j) = (if \<exists>o' \<in> set (p # owners). renewable (sh_flight (rt_shared r)) o' j then j\<lparr>lease_expires_at := Some ?w\<rparr> else j)" for j
    by (cases "renewable (sh_flight (rt_shared r)) p j") (simp_all add: blind)
  have "jobs (rt_world (fold (keep_owner now secs) owners ?r1)) = map ?h (map ?g (jobs (rt_world r)))"
    using Cons.IH [of ?r1] unfolding same one(4) by blast
  then have "jobs (rt_world (fold (keep_owner now secs) (p # owners) r)) = map (\<lambda>j. ?h (?g j)) (jobs (rt_world r))"
    unfolding r1 by simp
  moreover have "chain (rt_world r) (rt_world (fold (keep_owner now secs) owners ?r1))" using Cons.IH [of ?r1] chain_trans [OF one(1)] by blast
  moreover have "job_ids_for o' (sh_flight (rt_shared (fold (keep_owner now secs) owners ?r1))) = job_ids_for o' (sh_flight (rt_shared r))" for o'
    using Cons.IH [of ?r1] one(2) by simp
  moreover have "sc_last (rt_scheduler (fold (keep_owner now secs) owners ?r1)) = sc_last (rt_scheduler r)" using Cons.IH [of ?r1] one(3) by simp
  ultimately show ?case unfolding both r1 by blast
qed simp

lemma keep_leases_effect:
  "chain (rt_world r) (rt_world (keep_leases te now r))"
  "sc_last (rt_scheduler (keep_leases te now r)) = sc_last (rt_scheduler r)"
  "jobs (rt_world (keep_leases te now r)) =
     map (\<lambda>j. if \<exists>o' \<in> set (te_owners te). renewable (sh_flight (rt_shared r)) o' j
       then j\<lparr>lease_expires_at := Some (now + lease_seconds (te_queue te) * 1000000)\<rparr> else j) (jobs (rt_world r))"
  using keep_owners_effect [of r now "lease_seconds (te_queue te)" "te_owners te"]
  by (simp_all add: keep_leases_def carry_cancels_def Let_def)

lemma due_keeper:
  assumes "due ''keeper'' now interval sc = (d, sc')"
  shows "(d \<longrightarrow> map_of (sc_last sc') ''keeper'' = Some now) \<and>
    (\<not> d \<longrightarrow> sc' = sc \<and> (\<exists>t. map_of (sc_last sc) ''keeper'' = Some t \<and> total_seconds (now - t) < interval))"
  using assms by (auto simp: due_def update_conv' split: option.splits if_splits)

lemma seconds_less:
  assumes "total_seconds d < of_int n" "0 \<le> n" "n \<le> 2 ^ 53"
  shows "d < n * 1000000"
proof (rule ccontr)
  assume "\<not> d < n * 1000000"
  then have "(of_int (n * 1000000) :: rat) \<le> of_int d" by (simp only: of_int_le_iff)
  then have "(of_int n :: rat) \<le> of_int d / 1000000" by simp
  then have "of_int n \<le> total_seconds d"
    using fl_mono [of "of_int n" "of_int d / 1000000"] fl_of_int [of n] assms(2,3) by (simp add: total_seconds_def)
  with assms(1) show False by simp
qed

lemma keeper_part_runs:
  assumes "keeper_part te now r = (e, r1)"
  shows "e = None" "chain (rt_world r) (rt_world r1)"
proof -
  obtain d sc where d: "due ''keeper'' now (of_int (lease_renewal_interval_seconds (te_queue te))) (rt_scheduler r) = (d, sc)" by fastforce
  have w: "rt_world (r\<lparr>rt_scheduler := sc\<rparr>) = rt_world r" by (simp add: rt_world_def)
  show "e = None" using assms d by (auto simp: keeper_part_def when_due_def fine_def split: if_splits)
  show "chain (rt_world r) (rt_world r1)"
    using assms d keep_leases_effect(1) [of "r\<lparr>rt_scheduler := sc\<rparr>" te now] w
    by (auto simp: keeper_part_def when_due_def fine_def split: if_splits)
qed

text \<open>
  C23. A tick of the scheduler on a store that the program's own transactions produced leaves such a
  store, whichever sub-steps were due, and nothing but the evaluation of the circuit breakers can raise
  in it: the sweeps, the keeper, the watchdog and the re-evaluation of waiting jobs never fail, even when the rows moved meanwhile. (The
  breakers can: an open breaker without samples, see \<open>evaluate_total\<close>; the watchdog, the flags, the settings and the retention
  sweep of that tick are then skipped.) The evidence import is assumed to write none of the job tables.
\<close>

theorem tick_sound:
  assumes "store_reachable (rt_world r)" "writes_elsewhere (te_evidence_refresh te)" "tick te now r = (e, r')"
  shows "store_reachable (rt_world r') \<and> (\<forall>x. e = Some x \<longrightarrow> (\<exists>b. x = TickStop (BreakerError b)))"
proof -
  obtain rest where rest: "tick te now = followed_by (keeper_part te now) rest" "well_run now rest" using tick_parts [OF assms(2)] by blast
  obtain e1 r1 where r1: "keeper_part te now r = (e1, r1)" by fastforce
  note k = keeper_part_runs [OF r1]
  have reach: "store_reachable (rt_world r1)" by (rule chain_reachable [OF k(2) assms(1)])
  have "rest r1 = (e, r')" using assms(3) rest(1) r1 k(1) by (simp add: followed_by_def)
  then have "upkeep now (rt_world r1) (rt_world r') \<and> (\<forall>x. e = Some x \<longrightarrow> (\<exists>b. x = TickStop (BreakerError b)))"
    using rest(2) reachable_ok [OF reach] unfolding well_run_def by blast
  then show ?thesis using chain_reachable reach unfolding upkeep_def by blast
qed

text \<open>
  C6. The lease keeper works. With the keeper on and a lease of at least three renewal intervals (what the
  configuration's validator enforces), a tick never takes a job from a running worker of its own process: a job that is registered in flight under one
  of the process's workers, in a store that satisfies the invariant, leased to it and not being cancelled, whose lease covers a full lease period from the last renewal, comes out of the
  tick as the same row with only the expiry moved; that expiry is not in the past and covers a full period from the
  last renewal again. However long the scheduler thread had stalled before the tick, its own reaper therefore reclaims nothing its workers still run.
\<close>

theorem lease_kept:
  assumes "store_ok (rt_world r)" "writes_elsewhere (te_evidence_refresh te)" "tick te now r = (e, r')"
    and "keeper_enabled (rt_scheduler r)" "check_lease_renewal_margin (te_queue te)"
    and "0 \<le> lease_renewal_interval_seconds (te_queue te)" "lease_renewal_interval_seconds (te_queue te) \<le> 2 ^ 53"
    and "owner \<in> set (te_owners te)" "job_id j \<in> set (job_ids_for owner (sh_flight (rt_shared r)))"
    and "j \<in> set (jobs (rt_world r))" "lease_owner j = Some owner" "job_state j \<noteq> CANCELLING"
    and "\<forall>t. map_of (sc_last (rt_scheduler r)) ''keeper'' = Some t \<longrightarrow>
      (\<exists>expiry. lease_expires_at j = Some expiry \<and> t + lease_seconds (te_queue te) * 1000000 \<le> expiry)"
  shows "\<exists>expiry. j\<lparr>lease_expires_at := Some expiry\<rparr> \<in> set (jobs (rt_world r')) \<and> now \<le> expiry \<and>
    (\<forall>t. map_of (sc_last (rt_scheduler r')) ''keeper'' = Some t \<longrightarrow> t + lease_seconds (te_queue te) * 1000000 \<le> expiry)"
proof -
  let ?n = "lease_renewal_interval_seconds (te_queue te)" and ?lease = "lease_seconds (te_queue te) * 1000000"
  obtain rest where rest: "tick te now = followed_by (keeper_part te now) rest" "well_run now rest" using tick_parts [OF assms(2)] by blast
  obtain e1 r1 where r1: "keeper_part te now r = (e1, r1)" by fastforce
  note k = keeper_part_runs [OF r1]
  note ok = assms(1)
  have ok1: "store_ok (rt_world r1)" by (rule chain_ok [OF k(2) ok])
  have state: "job_state j \<in> IN_FLIGHT_STATES" and some: "lease_expires_at j \<noteq> None"
    using ok assms(10,11) by (auto simp: store_ok_def row_ok_def lease_ok_def)
  have margin: "0 \<le> ?lease" "?n * 1000000 \<le> ?lease" using assms(5,6) by (auto simp: check_lease_renewal_margin_def)
  obtain d sc where d: "due ''keeper'' now (of_int ?n) (rt_scheduler r) = (d, sc)" by fastforce
  have part: "r1 = (if d then keep_leases te now (r\<lparr>rt_scheduler := sc\<rparr>) else r\<lparr>rt_scheduler := sc\<rparr>)"
    using r1 d assms(4) by (auto simp: keeper_part_def when_due_def split: if_splits)
  obtain expiry where x: "j\<lparr>lease_expires_at := Some expiry\<rparr> \<in> set (jobs (rt_world r1))" "now \<le> expiry"
    "\<forall>t. keeper_time r1 = Some t \<longrightarrow> t + ?lease \<le> expiry"
  proof (cases d)
    case True
    have "renewable (sh_flight (rt_shared (r\<lparr>rt_scheduler := sc\<rparr>))) owner j" using assms(9,11) state by (simp add: renewable_def)
    then have "j\<lparr>lease_expires_at := Some (now + ?lease)\<rparr> \<in> set (jobs (rt_world r1))"
      using True part keep_leases_effect(3) [of te now "r\<lparr>rt_scheduler := sc\<rparr>"] assms(8,10) by (auto simp: rt_world_def intro!: rev_image_eqI)
    moreover have "keeper_time r1 = Some now"
      using True part due_keeper [OF d] keep_leases_effect(2) [of te now "r\<lparr>rt_scheduler := sc\<rparr>"] by (simp add: keeper_time_def)
    ultimately show thesis using margin(1) by (intro that [of "now + ?lease"]) auto
  next
    case False
    obtain t where t: "map_of (sc_last (rt_scheduler r)) ''keeper'' = Some t" "total_seconds (now - t) < of_int ?n"
      using due_keeper [OF d] False by blast
    obtain y where y: "lease_expires_at j = Some y" "t + ?lease \<le> y" using assms(13) t(1) by blast
    have "now - t < ?n * 1000000" by (rule seconds_less [OF t(2) assms(6,7)])
    moreover have "j\<lparr>lease_expires_at := Some y\<rparr> = j" using y(1) by simp
    moreover have "rt_world r1 = rt_world r" "keeper_time r1 = Some t" using False part due_keeper [OF d] t(1) by (simp_all add: rt_world_def keeper_time_def)
    ultimately show thesis using y(2) margin(2) assms(10) by (intro that [of y]) simp_all
  qed
  have run: "rest r1 = (e, r')" using assms(3) rest(1) r1 k(1) by (simp add: followed_by_def)
  have "running now (j\<lparr>lease_expires_at := Some expiry\<rparr>)" using state assms(12) x(2) by (simp add: running_def lease_expired_def)
  moreover have "upkeep now (rt_world r1) (rt_world r') \<and> keeper_time r' = keeper_time r1"
    using rest(2) ok1 run unfolding well_run_def by blast
  ultimately show ?thesis using x unfolding upkeep_def spared_def keeper_time_def by (intro exI [of _ expiry]) simp
qed

definition quiet_env :: tick_env where
  "quiet_env = \<lparr>te_queue = shipped_queue_settings, te_owners = [''p/worker-0''], te_residency = None, te_models = [], te_snapshot = None,
     te_headroom_bytes = 0, te_waited = (\<lambda>now q. total_seconds (now - q)), te_breaker_config = default_config, te_samples = (\<lambda>_ _. []),
     te_names = (\<lambda>_ _. []), te_verdicts_written = True, te_environment = {}, te_configuration = shipped_settings, te_retain_content = False,
     te_rfc = (\<lambda>_. []), te_evidence_refresh = None, te_import_interval_hours = 24\<rparr>"

definition runtime_at :: "instant option \<Rightarrow> World \<Rightarrow> Runtime" where
  "runtime_at renewed w = \<lparr>rt_shared = \<lparr>sh_world = w, sh_flight = [((''p/worker-0'', ''a''), \<lparr>if_job_id = ''a'', if_worker_id = ''worker-0'', if_owner = ''p/worker-0'',
       if_cancelled = False, if_claimed_at = 0, if_job_class = ''normal'', if_state = EXECUTING, if_canonical_id = None, if_model_id = None,
       if_target_gpu_index = None, if_estimated_bytes = None, if_lost = False\<rparr>)],
       sh_breakers = [], sh_persisted = [], sh_wakeup = False, sh_resources_changed = False\<rparr>,
     rt_episodes = [], rt_flags = \<lparr>flag_paused = False, flag_draining = False\<rparr>,
     rt_policy = \<lparr>lp_prefer_resident_bonus = 0, lp_min_present_weight = 0, lp_min_confidence = 0, lp_remote_cost_factor = 1\<rparr>,
     rt_content_retention_hours = 24,
     rt_scheduler = \<lparr>keeper_enabled = True, reaper_enabled = True, sweep_enabled = True, max_wait_enabled = True,
       sc_last = (case renewed of None \<Rightarrow> [] | Some t \<Rightarrow> [(''keeper'', t)]), sc_renewals = 0, sc_sweeps = 0, sc_requeued = 0, sc_forced_cancellations = 0\<rparr>\<rparr>"

lemma quiet_elsewhere: "writes_elsewhere (te_evidence_refresh quiet_env)"
  by (simp add: quiet_env_def writes_elsewhere_def)

theorem tick_sound_witness:
  "\<exists>e r'. tick quiet_env 1000000000 (runtime_at (Some 0) (world_of [])) = (e, r') \<and> store_reachable (rt_world r')"
proof -
  obtain e r' where t: "tick quiet_env 1000000000 (runtime_at (Some 0) (world_of [])) = (e, r')" by fastforce
  have "store_reachable (rt_world (runtime_at (Some 0) (world_of [])))"
    by (rule fresh_store) (simp_all add: runtime_at_def rt_world_def world_of_def)
  from tick_sound [OF this quiet_elsewhere t] t show ?thesis by blast
qed

text \<open>The scheduler slept for a quarter of an hour; the lease of a running job has long expired, and the tick renews it.\<close>

theorem lease_kept_witness:
  "\<exists>e r' expiry. tick quiet_env 900000000 (runtime_at None (world_of [leased_job ''a'' EXECUTING ''p/worker-0''])) = (e, r') \<and>
     lease_expired 900000000 (leased_job ''a'' EXECUTING ''p/worker-0'') \<and>
     (leased_job ''a'' EXECUTING ''p/worker-0'')\<lparr>lease_expires_at := Some expiry\<rparr> \<in> set (jobs (rt_world r')) \<and> 900000000 \<le> expiry"
proof -
  let ?j = "leased_job ''a'' EXECUTING ''p/worker-0''" and ?r = "runtime_at None (world_of [leased_job ''a'' EXECUTING ''p/worker-0''])"
  obtain e r' where t: "tick quiet_env 900000000 ?r = (e, r')" by fastforce
  have w: "rt_world ?r = world_of [?j]" by (simp add: runtime_at_def rt_world_def)
  have att: "attempt ?j = 0" "job_attempts (world_of [?j]) = []" by (simp_all add: leased_job_def world_of_def)
  have ok: "store_ok (rt_world ?r)"
    unfolding w by (simp add: store_ok_def row_ok_def lease_ok_def attempts_ok_def attempt_numbers_def att unique_keys_def ordered_events_def state_set_defs)
  have q: "keeper_enabled (rt_scheduler ?r)" "check_lease_renewal_margin (te_queue quiet_env)" "0 \<le> lease_renewal_interval_seconds (te_queue quiet_env)"
    "lease_renewal_interval_seconds (te_queue quiet_env) \<le> 2 ^ 53" "''p/worker-0'' \<in> set (te_owners quiet_env)"
    by (simp_all add: runtime_at_def quiet_env_def check_lease_renewal_margin_def shipped_queue_settings_def)
  have held: "job_id ?j \<in> set (job_ids_for ''p/worker-0'' (sh_flight (rt_shared ?r)))" by (simp add: runtime_at_def job_ids_for_def)
  have never: "map_of (sc_last (rt_scheduler ?r)) ''keeper'' = None" by (simp add: runtime_at_def)
  have "\<exists>expiry. ?j\<lparr>lease_expires_at := Some expiry\<rparr> \<in> set (jobs (rt_world r')) \<and> 900000000 \<le> expiry \<and>
      (\<forall>t. map_of (sc_last (rt_scheduler r')) ''keeper'' = Some t \<longrightarrow> t + lease_seconds (te_queue quiet_env) * 1000000 \<le> expiry)"
    by (rule lease_kept [OF ok quiet_elsewhere t q held]) (simp_all add: w never)
  then show ?thesis using t by (auto simp: lease_expired_def)
qed

subsection \<open>The watchdog\<close>

definition overdue :: "int \<Rightarrow> instant \<Rightarrow> instant option \<Rightarrow> bool" where
  "overdue limit now entered = (case entered of None \<Rightarrow> True | Some t \<Rightarrow> \<not> total_seconds (now - t) < of_int limit)"

definition forced_row :: "instant \<Rightarrow> Job \<Rightarrow> Job" where
  "forced_row now j = (assignments CANCELLED now (Some ''cancelling_watchdog'') j)\<lparr>error_code := Some ''GENERATION_CANCELLED''\<rparr>"

lemma forced_row_id [simp]: "job_id (forced_row now j) = job_id j"
  by (simp add: forced_row_def)

lemma watch_one_forces:
  assumes "store_ok (sh_world s)" "j \<in> set (jobs (sh_world s))" "job_state j = CANCELLING" "overdue limit now entered"
  shows "\<exists>s'. watch_one limit now (job_id j, entered) (s, forced) = Inr (s', forced @ [job_id j]) \<and>
    jobs (sh_world s') = map (\<lambda>r. if job_id r = job_id j then forced_row now r else r) (jobs (sh_world s))"
proof -
  let ?vals = "\<lambda>j :: Job. j\<lparr>error_code := Some ''GENERATION_CANCELLED''\<rparr>" and ?rsn = "Some ''cancelling_watchdog''"
  let ?mv = "move (job_id j) CANCELLING CANCELLED now None ?rsn
        (Some (''cancelling for more than '' @ str_int limit @ '' s: terminal transition forced by the watchdog''))
        [(''forced'', JBool True), (''watchdog_seconds'', JInt limit)] ?vals (sh_world s)"
  note d = store_ok_distinct [OF assms(1)]
  have late: "\<not> (case entered of None \<Rightarrow> False | Some t \<Rightarrow> total_seconds (now - t) < of_int limit)"
    using assms(4) by (simp add: overdue_def split: option.splits)
  let ?rows = "update_where (\<lambda>r. job_id r = job_id j) (\<lambda>r. ?vals (assignments CANCELLED now ?rsn r)) (jobs (sh_world s))"
  have "transition (job_id j) CANCELLING CANCELLED now None ?rsn ?vals (jobs (sh_world s)) = Inr ?rows"
    unfolding transition_Inr [OF d] using assms(2,3) by (auto simp: is_legal_def TRANSITIONS_def cas_matches_def)
  then obtain w' where w': "?mv = Inr w'" by (simp add: move_def)
  have "rewritten (\<lambda>r. if job_id r = job_id j then ?vals (assignments CANCELLED now ?rsn r) else r) (sh_world s) w'"
    by (rule move_rewritten(1) [OF w' d])
  then have "jobs w' = map (\<lambda>r. if job_id r = job_id j then forced_row now r else r) (jobs (sh_world s))"
    by (simp add: rewritten_def forced_row_def [abs_def])
  then show ?thesis using late w' unfolding watch_one_def prod.case Let_def by simp
qed

lemma watch_rows:
  assumes "store_ok (sh_world s)" "distinct (map fst xs)"
    "\<forall>x \<in> set xs. \<exists>j \<in> set (jobs (sh_world s)). job_id j = fst x \<and> job_state j = CANCELLING"
  shows "\<exists>s'. each_row (watch_one limit now) xs (s, forced) = Inr (s', forced @ map fst (filter (overdue limit now \<circ> snd) xs)) \<and>
    jobs (sh_world s') = map (\<lambda>j. if job_id j \<in> fst ` set (filter (overdue limit now \<circ> snd) xs) then forced_row now j else j) (jobs (sh_world s))"
  using assms
proof (induction xs arbitrary: s forced)
  case (Cons x xs)
  obtain i entered where x: "x = (i, entered)" by (cases x)
  obtain j where j: "j \<in> set (jobs (sh_world s))" "job_id j = i" "job_state j = CANCELLING" using Cons.prems(3) x by auto
  have dist: "distinct (map fst xs)" "i \<notin> fst ` set xs" using Cons.prems(2) x by auto
  show ?case
  proof (cases "overdue limit now entered")
    case False
    then have "watch_one limit now x (s, forced) = Inr (s, forced)" by (simp add: x watch_one_def overdue_def split: option.splits)
    moreover have "\<forall>x \<in> set xs. \<exists>j \<in> set (jobs (sh_world s)). job_id j = fst x \<and> job_state j = CANCELLING" using Cons.prems(3) by simp
    ultimately show ?thesis using Cons.IH [OF Cons.prems(1) dist(1), of forced] False by (simp add: x)
  next
    case True
    obtain s1 where s1: "watch_one limit now x (s, forced) = Inr (s1, forced @ [i])"
      "jobs (sh_world s1) = map (\<lambda>r. if job_id r = i then forced_row now r else r) (jobs (sh_world s))"
      using watch_one_forces [OF Cons.prems(1) j(1,3) True] unfolding x j(2) by blast
    have ok1: "store_ok (sh_world s1)"
      using upkeep_watch [OF Cons.prems(1), of limit now "[x]" forced] s1(1) chain_ok Cons.prems(1) by (auto simp: upkeep_def)
    have "\<forall>x \<in> set xs. \<exists>j \<in> set (jobs (sh_world s1)). job_id j = fst x \<and> job_state j = CANCELLING"
    proof
      fix y assume y: "y \<in> set xs"
      obtain k where k: "k \<in> set (jobs (sh_world s))" "job_id k = fst y" "job_state k = CANCELLING" using Cons.prems(3) y by auto
      have "job_id k \<noteq> i" using k(2) y dist(2) by (metis imageI)
      then have "k \<in> set (jobs (sh_world s1))" unfolding s1(2) using k(1) by (auto intro: rev_image_eqI)
      with k show "\<exists>j \<in> set (jobs (sh_world s1)). job_id j = fst y \<and> job_state j = CANCELLING" by blast
    qed
    from Cons.IH [OF ok1 dist(1) this, of "forced @ [i]"] obtain s' where
      s': "each_row (watch_one limit now) xs (s1, forced @ [i]) = Inr (s', (forced @ [i]) @ map fst (filter (overdue limit now \<circ> snd) xs))"
      "jobs (sh_world s') = map (\<lambda>j. if job_id j \<in> fst ` set (filter (overdue limit now \<circ> snd) xs) then forced_row now j else j) (jobs (sh_world s1))" by blast
    have "i \<notin> fst ` set (filter (overdue limit now \<circ> snd) xs)" using dist(2) by auto
    then have "jobs (sh_world s') = map (\<lambda>j. if job_id j \<in> fst ` set (filter (overdue limit now \<circ> snd) (x # xs)) then forced_row now j else j) (jobs (sh_world s))"
      unfolding s'(2) s1(2) using True by (auto simp: x)
    then show ?thesis using s1(1) s'(1) True by (auto simp: x bind_result_def comp_def)
  qed
qed simp

text \<open>
  C24. No cancellation hangs. The watchdog never raises; it moves exactly the jobs that have been \<open>cancelling\<close> for at least the configured
  time, or whose entry into \<open>cancelling\<close> was never recorded, to \<open>cancelled\<close> with the code for a cancelled generation, the completion
  time and no lease; it leaves every other row alone, and reports the jobs it ended in table order.
\<close>

theorem watchdog_ends_overdue:
  assumes "store_ok (sh_world s)"
  shows "\<exists>s'. watchdog te now s = Inr (s', map job_id (filter (\<lambda>j. job_state j = CANCELLING \<and>
        overdue (cancelling_watchdog_seconds (te_queue te)) now (map_option je_timestamp (latest_event (job_id j) CANCELLING (sh_world s)))) (jobs (sh_world s)))) \<and>
    jobs (sh_world s') = map (\<lambda>j. if job_state j = CANCELLING \<and>
        overdue (cancelling_watchdog_seconds (te_queue te)) now (map_option je_timestamp (latest_event (job_id j) CANCELLING (sh_world s)))
      then j\<lparr>job_state := CANCELLED, state_reason := Some ''cancelling_watchdog'', completed_at := Some now, lease_owner := None, lease_expires_at := None,
        error_code := Some ''GENERATION_CANCELLED''\<rparr> else j) (jobs (sh_world s))"
proof -
  let ?limit = "cancelling_watchdog_seconds (te_queue te)" and ?rows = "jobs (sh_world s)"
  let ?late = "\<lambda>j. overdue ?limit now (map_option je_timestamp (latest_event (job_id j) CANCELLING (sh_world s)))"
  let ?xs = "cancelling_since (sh_world s)"
  note d = store_ok_distinct [OF assms]
  have xs: "?xs = map (\<lambda>j. (job_id j, map_option je_timestamp (latest_event (job_id j) CANCELLING (sh_world s)))) (filter (\<lambda>j. job_state j = CANCELLING) ?rows)"
    by (simp add: cancelling_since_def)
  have "map fst ?xs = map job_id (filter (\<lambda>j. job_state j = CANCELLING) ?rows)" unfolding xs by simp
  then have dx: "distinct (map fst ?xs)" using distinct_map_filter [OF d] by simp
  have cx: "\<forall>x \<in> set ?xs. \<exists>j \<in> set ?rows. job_id j = fst x \<and> job_state j = CANCELLING" unfolding xs by auto
  have late: "map fst (filter (overdue ?limit now \<circ> snd) ?xs) = map job_id (filter (\<lambda>j. job_state j = CANCELLING \<and> ?late j) ?rows)"
    unfolding xs by (simp add: filter_map comp_def conj_commute)
  have sel: "job_id j \<in> fst ` set (filter (overdue ?limit now \<circ> snd) ?xs) \<longleftrightarrow> job_state j = CANCELLING \<and> ?late j" if "j \<in> set ?rows" for j
  proof -
    have "fst ` set (filter (overdue ?limit now \<circ> snd) ?xs) = job_id ` set (filter (\<lambda>j. job_state j = CANCELLING \<and> ?late j) ?rows)"
      using arg_cong [OF late, of set] by simp
    then show ?thesis using unique_row [OF d that] that by auto
  qed
  obtain s' where s': "each_row (watch_one ?limit now) ?xs (s, []) = Inr (s', [] @ map fst (filter (overdue ?limit now \<circ> snd) ?xs))"
    "jobs (sh_world s') = map (\<lambda>j. if job_id j \<in> fst ` set (filter (overdue ?limit now \<circ> snd) ?xs) then forced_row now j else j) ?rows"
    using watch_rows [OF assms dx cx] by blast
  have "jobs (sh_world s') = map (\<lambda>j. if job_state j = CANCELLING \<and> ?late j then j\<lparr>job_state := CANCELLED, state_reason := Some ''cancelling_watchdog'', completed_at := Some now,
      lease_owner := None, lease_expires_at := None, error_code := Some ''GENERATION_CANCELLED''\<rparr> else j) ?rows"
    unfolding s'(2) using sel by (intro map_cong) (simp_all add: forced_row_def assignments_def state_set_defs Let_def)
  then show ?thesis using s'(1) unfolding watchdog_def late by simp
qed

theorem watchdog_ends_overdue_witness:
  "\<exists>s'. watchdog quiet_env 900000000 (rt_shared (runtime_at None (world_of [leased_job ''a'' CANCELLING ''p/worker-0'', plain_job ''b'' QUEUED]))) = Inr (s', [''a'']) \<and>
     map job_state (jobs (sh_world s')) = [CANCELLED, QUEUED]"
proof -
  let ?rows = "[leased_job ''a'' CANCELLING ''p/worker-0'', plain_job ''b'' QUEUED]"
  let ?s = "rt_shared (runtime_at None (world_of ?rows))"
  have w: "sh_world ?s = world_of ?rows" by (simp add: runtime_at_def)
  have att: "attempt (leased_job i st p) = 0" "job_attempts (world_of rows) = []" for i st p rows by (simp_all add: leased_job_def world_of_def)
  have ok: "store_ok (sh_world ?s)"
    unfolding w by (simp add: store_ok_def row_ok_def lease_ok_def attempts_ok_def attempt_numbers_def att unique_keys_def ordered_events_def state_set_defs same_key_def)
  have none: "latest_event i st (sh_world ?s) = None" for i st by (simp add: w latest_event_def)
  show ?thesis using watchdog_ends_overdue [OF ok, of quiet_env 900000000] unfolding none by (auto simp: w overdue_def)
qed

end
