(* ===== verification/Tables.thy ===== *)
theory Tables
  imports Prelude
begin

section \<open>Tables with a unique key\<close>

text \<open>
  The registry, the evidence store and the decision log are written through
  \<^verbatim>\<open>weightsdb.upsert\<close>, the statement \<^verbatim>\<open>INSERT ... ON CONFLICT (...) DO UPDATE\<close>
  (\<^verbatim>\<open>src/docs/apps/loadcoach/data-model.md\<close>): a row whose key is taken overwrites the columns the
  statement names and keeps the others, its primary key among them; any other row is inserted.
  A table is the list of its rows in insertion order. The locale states what a table promises
  its clients; each table of the model interprets it.
\<close>

definition upsert :: "('r \<Rightarrow> 'k) \<Rightarrow> ('r \<Rightarrow> 'r \<Rightarrow> 'r) \<Rightarrow> 'r \<Rightarrow> 'r list \<Rightarrow> 'r list" where
  "upsert key overwrite new rows =
     (if \<exists>r \<in> set rows. key r = key new then map (\<lambda>r. if key r = key new then overwrite r new else r) rows
      else rows @ [new])"

definition row_of :: "('r \<Rightarrow> 'k) \<Rightarrow> 'k \<Rightarrow> 'r list \<Rightarrow> 'r option" where
  "row_of key k rows = find (\<lambda>r. key r = k) rows"

lemma row_of_Some: "row_of key k rows = Some r \<Longrightarrow> r \<in> set rows \<and> key r = k"
  by (auto simp: row_of_def find_Some_iff)

lemma row_of_None: "row_of key k rows = None \<longleftrightarrow> k \<notin> key ` set rows"
  by (auto simp: row_of_def find_None_iff)

lemma row_of_unique: "distinct (map key rows) \<Longrightarrow> r \<in> set rows \<Longrightarrow> row_of key (key r) rows = Some r"
  by (induction rows) (auto simp: row_of_def image_iff)

lemma row_of_append: "row_of key k (xs @ ys) = (case row_of key k xs of None \<Rightarrow> row_of key k ys | Some r \<Rightarrow> Some r)"
  by (induction xs) (simp_all add: row_of_def)

lemma row_of_map: "(\<And>r. r \<in> set rows \<Longrightarrow> key (f r) = key r) \<Longrightarrow> row_of key k (map f rows) = map_option f (row_of key k rows)"
  by (induction rows) (auto simp: row_of_def)

locale upsert_table =
  fixes key :: "'r \<Rightarrow> 'k" and overwrite :: "'r \<Rightarrow> 'r \<Rightarrow> 'r"
  assumes key_overwrite: "key r = key n \<Longrightarrow> key (overwrite r n) = key n"
    and overwrite_twice: "overwrite (overwrite r n) n = overwrite r n"
    and overwrite_self: "overwrite n n = n"
begin

lemma key_taken: "(\<exists>r \<in> set rows. key r = key n) \<longleftrightarrow> key n \<in> key ` set rows"
  by (metis (no_types, opaque_lifting) imageE imageI)

lemma keys_upsert:
  "map key (upsert key overwrite n rows) = (if key n \<in> key ` set rows then map key rows else map key rows @ [key n])"
  by (simp add: upsert_def key_taken key_overwrite)

lemma distinct_upsert: "distinct (map key rows) \<Longrightarrow> distinct (map key (upsert key overwrite n rows))"
  unfolding keys_upsert by auto

lemma key_set_upsert: "key ` set (upsert key overwrite n rows) = insert (key n) (key ` set rows)"
proof -
  have "set (map key (upsert key overwrite n rows)) = insert (key n) (set (map key rows))"
    unfolding keys_upsert by auto
  then show ?thesis by simp
qed

lemma row_of_upsert:
  "row_of key k (upsert key overwrite n rows) =
     (if k = key n then Some (case row_of key k rows of None \<Rightarrow> n | Some r \<Rightarrow> overwrite r n) else row_of key k rows)"
proof (cases "\<exists>r \<in> set rows. key r = key n")
  case True
  let ?f = "\<lambda>r. if key r = key n then overwrite r n else r"
  have "row_of key k (map ?f rows) = map_option ?f (row_of key k rows)"
    by (rule row_of_map) (simp add: key_overwrite)
  moreover have "row_of key (key n) rows \<noteq> None" unfolding row_of_None using True key_taken by blast
  moreover have "k \<noteq> key n \<Longrightarrow> map_option ?f (row_of key k rows) = row_of key k rows"
    by (cases "row_of key k rows") (auto dest: row_of_Some)
  ultimately show ?thesis using True by (auto simp: upsert_def dest: row_of_Some)
next
  case False
  then have "row_of key (key n) rows = None" by (auto simp: row_of_None)
  moreover have "row_of key k [n] = (if k = key n then Some n else None)" by (auto simp: row_of_def)
  ultimately show ?thesis using False by (auto simp: upsert_def row_of_append split: option.splits)
qed

lemma upsert_twice: "upsert key overwrite n (upsert key overwrite n rows) = upsert key overwrite n rows"
proof (cases "\<exists>r \<in> set rows. key r = key n")
  case True
  then have "upsert key overwrite n rows = map (\<lambda>r. if key r = key n then overwrite r n else r) rows" (is "_ = ?m")
    by (simp add: upsert_def)
  moreover have "\<exists>r \<in> set ?m. key r = key n" using True key_overwrite by force
  ultimately show ?thesis by (simp add: upsert_def key_overwrite overwrite_twice)
next
  case False
  then have "map (\<lambda>r. if key r = key n then overwrite r n else r) rows = rows"
    by (intro map_idI) auto
  with False show ?thesis by (auto simp: upsert_def overwrite_self)
qed

lemma upsert_keeps: "r \<in> set rows \<Longrightarrow> key r \<noteq> key n \<Longrightarrow> r \<in> set (upsert key overwrite n rows)"
  by (auto simp: upsert_def image_iff)

lemma set_upsert_cases:
  assumes "r \<in> set (upsert key overwrite n rows)"
  obtains "r \<in> set rows" "key r \<noteq> key n" | r' where "r' \<in> set rows" "key r' = key n" "r = overwrite r' n" | "r = n" "key n \<notin> key ` set rows"
  using assms by (force simp: upsert_def split: if_splits)

end

end
