(* ===== verification/Registry_State.thy ===== *)
theory Registry_State
  imports Tables Subject Authorization
begin

section \<open>The tables of the registry and of the evidence store\<close>

text \<open>
  Models \<^verbatim>\<open>src/src/loadcoach/domain/registry.py\<close> and the tables \<open>models\<close>,
  \<open>model_capabilities\<close>, \<open>adapters\<close>, \<open>evidence_sources\<close> and \<open>capability_evidence\<close> of
  \<^verbatim>\<open>src/src/loadcoach/infrastructure/db/models.py\<close>. Primary keys are ULIDs drawn from the function
  \<open>ulid\<close> by the counter \<open>rg_next\<close>; the theorems that need it assume that two draws differ.
  Columns no modelled operation reads or writes are left out (the primary key of a capability
  row, the raw flags of a model). The vocabulary of capabilities is SetSpec's: the argument
  \<open>is_known\<close>.
\<close>

subsection \<open>Tables\<close>

record ModelRow =
  mr_id :: string
  mr_provider_kind :: string
  mr_provider_model_name :: string
  mr_artifact_digest :: "string option"
  mr_canonical_id :: string
  mr_identity_confidence :: string
  mr_provider_name :: string
  mr_is_remote :: bool
  mr_descriptor_json :: json
  mr_max_context :: "int option"
  mr_size_bytes :: "int option"
  mr_quantization :: "string option"
  mr_family :: "string option"
  mr_parameter_count :: "int option"
  mr_first_seen_at :: instant
  mr_last_seen_at :: instant
  mr_available :: bool
  mr_unavailable_reason :: "string option"
  mr_enabled :: bool

record ModelCapability =
  mc_model_id :: string
  mc_capability_id :: string
  mc_score :: "float64 option"
  mc_confidence :: float64
  mc_source :: string
  mc_updated_at :: instant

record AdapterRow =
  ar_id :: string
  ar_name :: string
  ar_artifact_sha256 :: string
  ar_source_sha256 :: "string option"
  ar_artifact_path :: string
  ar_manifest_path :: string
  ar_base_model_name :: string
  ar_base_artifact_digest :: "string option"
  ar_base_identity_confidence :: string
  ar_declared_capabilities :: "string list"
  ar_data_classification :: string
  ar_adapter_format :: string
  ar_manifest_json :: json
  ar_created_at :: instant
  ar_first_seen_at :: instant
  ar_last_seen_at :: instant
  ar_available :: bool
  ar_unavailable_reason :: "string option"

record EvidenceSource =
  es_id :: string
  es_source_key :: string
  es_kind :: string
  es_url :: "string option"
  es_last_import_at :: "instant option"
  es_last_status :: "string option"
  es_schema_version :: "string option"
  es_record_count :: int
  es_error_text :: "string option"
  es_generated_at :: "instant option"
  es_created_at :: instant

record CapabilityEvidence =
  ce_id :: string
  ce_model_id :: "string option"
  ce_adapter_id :: "string option"
  ce_adapter_artifact_digest :: string
  ce_provider_kind :: string
  ce_provider_model_name :: string
  ce_artifact_digest :: "string option"
  ce_canonical_id :: string
  ce_match_state :: string
  ce_runtime_profile_hash :: string
  ce_machine_fingerprint :: string
  ce_capability_id :: string
  ce_score :: float64
  ce_confidence :: float64
  ce_sample_count :: int
  ce_excluded_count :: int
  ce_dispersion :: "float64 option"
  ce_dispersion_unavailable_reason :: "string option"
  ce_benchmark_versions_json :: json
  ce_dataset_hashes_json :: json
  ce_prompt_subset_hashes_json :: json
  ce_contributing_metrics_json :: json
  ce_source_run_ids_json :: json
  ce_identity_confidence :: string
  ce_environment_snapshot_json :: json
  ce_goal_json :: json
  ce_measured_at :: instant
  ce_computed_at :: instant
  ce_imported_at :: instant
  ce_source_id :: string
  ce_policy_version :: string
  ce_vocabulary_version :: string
  ce_stale :: bool
  ce_stale_reason :: "string option"
  ce_record_json :: json

record Registry =
  rg_models :: "ModelRow list"
  rg_capabilities :: "ModelCapability list"
  rg_adapters :: "AdapterRow list"
  rg_sources :: "EvidenceSource list"
  rg_evidence :: "CapabilityEvidence list"
  rg_next :: nat

subsection \<open>Declared capabilities and geometry\<close>

datatype ModelCapabilityFlag = TOOLS | STRUCTURED_OUTPUT | VISION | THINKING | EMBEDDING | OtherFlag string

text \<open>What a provider reports of one model; an unsupported measurement is \<open>None\<close>.\<close>

record ModelDescriptor =
  md_provider_kind :: string
  md_provider_model_name :: string
  md_artifact_digest :: "string option"
  md_canonical_id :: string
  md_identity_confidence :: string
  md_max_context :: "int option"
  md_size_bytes :: "int option"
  md_parameter_count :: "int option"
  md_quantization :: "string option"
  md_family :: "string option"
  md_geometry :: "string \<Rightarrow> int option"
  md_declared_capabilities :: "ModelCapabilityFlag list"

definition DESCRIPTOR_GEOMETRY_FIELDS :: "string list" where
  "DESCRIPTOR_GEOMETRY_FIELDS =
     [''layers'', ''kv_heads'', ''head_dim'', ''attention_heads'', ''embedding_dim'', ''vocab_size'', ''sliding_window'']"

definition FLAG_TO_CAPABILITY :: "(ModelCapabilityFlag, string) dict" where
  "FLAG_TO_CAPABILITY = [(TOOLS, ''tool_use''), (STRUCTURED_OUTPUT, ''structured_output'')]"

definition DECLARED_SCORE :: float64 where "DECLARED_SCORE = 1"
definition DECLARED_CONFIDENCE :: float64 where "DECLARED_CONFIDENCE = fl (1 / 2)"

record DeclaredCapability =
  dc_capability_id :: string
  dc_score :: float64
  dc_confidence :: float64

text \<open>The order of the flags is that of their values, \<open>flag_value\<close> (BaseAICore's enumeration).\<close>

definition declared_capabilities_for :: "(ModelCapabilityFlag \<Rightarrow> string) \<Rightarrow> ModelDescriptor \<Rightarrow> DeclaredCapability list" where
  "declared_capabilities_for flag_value d =
     List.map_filter (\<lambda>flag. map_option (\<lambda>c. \<lparr>dc_capability_id = c, dc_score = DECLARED_SCORE, dc_confidence = DECLARED_CONFIDENCE\<rparr>)
         (map_of FLAG_TO_CAPABILITY flag))
       (sort_key flag_value (md_declared_capabilities d))"

definition descriptor_geometry :: "ModelDescriptor \<Rightarrow> (string \<times> json) list" where
  "descriptor_geometry d =
     List.map_filter (\<lambda>name. map_option (\<lambda>v. (name, JInt v)) (md_geometry d name)) DESCRIPTOR_GEOMETRY_FIELDS"

fun geometry_from_json :: "json \<Rightarrow> string \<Rightarrow> int option" where
  "geometry_from_json (JObj stored) field = (case json_get stored field of JInt i \<Rightarrow> Some i | _ \<Rightarrow> None)"
| "geometry_from_json _ field = None"

lemma map_of_map_filter:
  "distinct xs \<Longrightarrow>
   map_of (List.map_filter (\<lambda>n. map_option (\<lambda>v. (n, f v)) (g n)) xs) k = (if k \<in> set xs then map_option f (g k) else None)"
  by (induction xs) (auto simp: List.map_filter_simps split: option.splits)

text \<open>The geometry read back is the geometry reported: an unreported field never becomes zero.\<close>

lemma geometry_roundtrip:
  "geometry_from_json (JObj (descriptor_geometry d)) field =
     (if field \<in> set DESCRIPTOR_GEOMETRY_FIELDS then md_geometry d field else None)"
proof -
  have "distinct DESCRIPTOR_GEOMETRY_FIELDS" by (simp add: DESCRIPTOR_GEOMETRY_FIELDS_def)
  then have "map_of (descriptor_geometry d) field =
      (if field \<in> set DESCRIPTOR_GEOMETRY_FIELDS then map_option JInt (md_geometry d field) else None)"
    unfolding descriptor_geometry_def by (rule map_of_map_filter)
  then show ?thesis by (auto simp: json_get_def split: option.splits)
qed

subsection \<open>Manual scores\<close>

datatype manual_problem =
    CanonicalIdEmpty
  | UnknownCapability json
  | ScoreOutOfRange json
  | ConfidenceOutOfRange json

datatype registry_error =
    RegistryNotAuthorized authorization_error
  | ManualScoreInvalid string nat manual_problem
  | ModelNotFound string
  | ProviderError string
  | RegistryIntegrityError

record ManualCapabilityScore =
  ms_canonical_id :: string
  ms_capability_id :: string
  ms_score :: float64
  ms_confidence :: float64

text \<open>A number in \<open>[0.0, 1.0]\<close> that is not a Boolean, as a float.\<close>

fun unit_number :: "json \<Rightarrow> float64 option" where
  "unit_number (JInt i) = (if 0 \<le> i \<and> i \<le> 1 then Some (fl (of_int i)) else None)"
| "unit_number (JFloat x) = (if 0 \<le> x \<and> x \<le> 1 then Some x else None)"
| "unit_number _ = None"

definition validate_manual_score :: "(string \<Rightarrow> bool) \<Rightarrow> string \<Rightarrow> nat \<Rightarrow> (string \<times> json) list \<Rightarrow>
    registry_error + ManualCapabilityScore" where
  "validate_manual_score is_known file index raw =
     (let fail = (\<lambda>p. Inl (ManualScoreInvalid file index p)) in
      (case json_get raw ''canonical_id'' of
         JStr canonical \<Rightarrow>
           if canonical = [] then fail CanonicalIdEmpty
           else (case json_get raw ''capability_id'' of
             JStr capability \<Rightarrow>
               if \<not> is_known capability then fail (UnknownCapability (JStr capability))
               else (case unit_number (json_get raw ''score'') of
                 None \<Rightarrow> fail (ScoreOutOfRange (json_get raw ''score''))
               | Some s \<Rightarrow>
                   (case unit_number (json_get raw ''confidence'') of
                      None \<Rightarrow> fail (ConfidenceOutOfRange (json_get raw ''confidence''))
                    | Some c \<Rightarrow> Inr \<lparr>ms_canonical_id = canonical, ms_capability_id = capability,
                                     ms_score = s, ms_confidence = c\<rparr>))
           | other \<Rightarrow> fail (UnknownCapability other))
       | _ \<Rightarrow> fail CanonicalIdEmpty))"

subsection \<open>What binding reads\<close>

definition registry_of :: "Registry \<Rightarrow> LocalModel list" where
  "registry_of rg = map (\<lambda>r. \<lparr>lm_model_id = mr_id r, lm_provider_kind = mr_provider_kind r,
      lm_provider_model_name = mr_provider_model_name r, lm_artifact_digest = mr_artifact_digest r,
      lm_canonical_id = mr_canonical_id r\<rparr>) (rg_models rg)"

definition adapters_of :: "Registry \<Rightarrow> LocalAdapter list" where
  "adapters_of rg = map (\<lambda>r. \<lparr>la_adapter_id = ar_id r, la_artifact_digest = ar_artifact_sha256 r, la_name = ar_name r\<rparr>)
     (rg_adapters rg)"

subsection \<open>The unique indexes\<close>

type_synonym evidence_key = "string \<times> string \<times> string \<times> string \<times> string \<times> string \<times> string"

definition evidence_key_of :: "CapabilityEvidence \<Rightarrow> evidence_key" where
  "evidence_key_of r = (ce_source_id r, ce_canonical_id r, ce_adapter_artifact_digest r, ce_runtime_profile_hash r,
     ce_machine_fingerprint r, ce_capability_id r, ce_policy_version r)"

definition capability_key_of :: "ModelCapability \<Rightarrow> string \<times> string \<times> string" where
  "capability_key_of r = (mc_model_id r, mc_capability_id r, mc_source r)"

definition model_identity :: "ModelRow \<Rightarrow> string \<times> string \<times> string option" where
  "model_identity r = (mr_provider_kind r, mr_provider_model_name r, mr_artifact_digest r)"

text \<open>
  \<open>uq_models_identity_triple\<close> treats two \<open>NULL\<close> digests as different and \<open>uq_models_name_only\<close>
  forbids them, so together they make the identity with its optional digest unique.
\<close>

definition registry_ok :: "Registry \<Rightarrow> bool" where
  "registry_ok rg \<longleftrightarrow> distinct (map mr_id (rg_models rg)) \<and> distinct (map model_identity (rg_models rg)) \<and>
     distinct (map capability_key_of (rg_capabilities rg)) \<and>
     distinct (map ar_id (rg_adapters rg)) \<and> distinct (map ar_artifact_sha256 (rg_adapters rg)) \<and>
     distinct (map es_id (rg_sources rg)) \<and> distinct (map es_source_key (rg_sources rg)) \<and>
     distinct (map ce_id (rg_evidence rg)) \<and> distinct (map evidence_key_of (rg_evidence rg))"

text \<open>Every primary key was drawn before the counter.\<close>

definition drawn :: "(nat \<Rightarrow> string) \<Rightarrow> Registry \<Rightarrow> bool" where
  "drawn ulid rg \<longleftrightarrow> (\<forall>k \<ge> rg_next rg. ulid k \<notin> mr_id ` set (rg_models rg) \<and> ulid k \<notin> ar_id ` set (rg_adapters rg) \<and>
     ulid k \<notin> es_id ` set (rg_sources rg) \<and> ulid k \<notin> ce_id ` set (rg_evidence rg))"

end
