(* ===== verification/Evidence_Store.thy ===== *)
theory Evidence_Store
  imports Registry_State
begin

section \<open>Importing evidence and keeping it bound\<close>

text \<open>
  Models \<^verbatim>\<open>src/src/loadcoach/services/evidence.py\<close>: negotiating and importing a bundle, re-binding
  the stored rows, recording what a refresh of the configured source did, and what routing, the
  API and the coverage page read of the store. SetSpec's envelope reader and record model are
  \<open>setspec_api\<close>; a validated record carries the fields the importer reads and its dump. The
  HTTP client is the argument of \<open>refresh_from_freeweight\<close>. Each import, each re-binding
  pass and each recorded failure is one transaction.
\<close>

subsection \<open>Bundles\<close>

datatype document = Raw string | Parsed json

datatype envelope_error = VersionUnsupported string "(string \<times> json) list" | EnvelopeInvalid string "(string \<times> json) list"

record Envelope =
  env_payload :: json
  env_schema_version :: string
  env_generated_at :: "instant option"

record RecordModel =
  rm_provider_kind :: string
  rm_provider_model_name :: string
  rm_artifact_digest :: "string option"
  rm_canonical_id :: string
  rm_identity_confidence :: string

record EvidenceRecord =
  er_model :: RecordModel
  er_adapter :: "(string \<times> string) option"
  er_runtime_profile_hash :: string
  er_machine_fingerprint :: string
  er_capability_id :: string
  er_policy_version :: string
  er_vocabulary_version :: string
  er_score :: float64
  er_confidence :: float64
  er_sample_count :: int
  er_excluded_count :: int
  er_dispersion :: "float64 option"
  er_contributing_metrics :: "json list"
  er_source_run_ids :: "json list"
  er_measured_at :: instant
  er_computed_at :: instant
  er_dump :: "(string \<times> json) list"

record setspec_api =
  max_payload_bytes :: nat
  load_envelope :: "document \<Rightarrow> int list \<Rightarrow> envelope_error + Envelope"
  validate_record :: "json \<Rightarrow> string list + EvidenceRecord"

definition BUNDLE_SCHEMA :: string where "BUNDLE_SCHEMA = ''benchmark.evidence_bundle''"

datatype import_error =
    ImportNotAuthorized authorization_error
  | BundleTooLarge nat nat
  | SchemaVersionUnsupported string "(string \<times> json) list"
  | EnvelopeRefused string "(string \<times> json) list"
  | PayloadNotObject json
  | SourceUnnamed
  | CompletenessUndeclared
  | EvidenceNotAList json

record RejectedRecord =
  rr_index :: nat
  rr_canonical_id :: "string option"
  rr_capability_id :: "string option"
  rr_reason :: string
  rr_detail :: string

definition rejected_json :: "RejectedRecord \<Rightarrow> (string \<times> json) list" where
  "rejected_json r = [(''index'', JInt (int (rr_index r))), (''canonical_id'', of_opt_str (rr_canonical_id r)),
     (''capability_id'', of_opt_str (rr_capability_id r)), (''reason'', JStr (rr_reason r)), (''detail'', JStr (rr_detail r))]"

record ImportOutcome =
  io_source_row_id :: string
  io_source_key :: string
  io_schema_version :: string
  io_generated_at :: "instant option"
  io_complete :: bool
  io_total :: nat
  io_imported :: int
  io_updated :: int
  io_unmatched :: int
  io_ambiguous :: int
  io_bound :: int
  io_upgraded_models :: int
  io_superseded :: int
  io_rejected :: "RejectedRecord list"

definition outcome_json :: "(instant \<Rightarrow> string) \<Rightarrow> ImportOutcome \<Rightarrow> (string \<times> json) list" where
  "outcome_json to_rfc3339 out =
     [(''source_id'', JStr (io_source_key out)), (''source_row_id'', JStr (io_source_row_id out)),
      (''schema_version'', JStr (io_schema_version out)),
      (''generated_at'', of_opt_str (map_option to_rfc3339 (io_generated_at out))),
      (''complete'', JBool (io_complete out)), (''total'', JInt (int (io_total out))),
      (''imported'', JInt (io_imported out)), (''updated'', JInt (io_updated out)),
      (''unmatched'', JInt (io_unmatched out)), (''ambiguous_name_only'', JInt (io_ambiguous out)),
      (''bound'', JInt (io_bound out)), (''upgraded_models'', JInt (io_upgraded_models out)),
      (''superseded'', JInt (io_superseded out)), (''rejected'', JList (map (JObj \<circ> rejected_json) (io_rejected out)))]"

definition negotiate :: "setspec_api \<Rightarrow> document \<Rightarrow> int list \<Rightarrow> import_error + Envelope" where
  "negotiate api doc accept_schema_majors =
     (let too_large = (case doc of Raw s \<Rightarrow> length s > max_payload_bytes api | Parsed _ \<Rightarrow> False);
          size = (case doc of Raw s \<Rightarrow> length s | Parsed _ \<Rightarrow> 0)
      in if too_large then Inl (BundleTooLarge size (max_payload_bytes api))
         else (case load_envelope api doc accept_schema_majors of
                 Inl (VersionUnsupported message details) \<Rightarrow>
                   Inl (SchemaVersionUnsupported message (fold (\<lambda>(k, v). AList.update k v)
                     [(''schema'', JStr BUNDLE_SCHEMA), (''accepted_majors'', JList (map JInt accept_schema_majors))] details))
               | Inl (EnvelopeInvalid message details) \<Rightarrow> Inl (EnvelopeRefused message details)
               | Inr e \<Rightarrow> Inr e))"

fun claimed_at :: "json \<Rightarrow> string list \<Rightarrow> string option" where
  "claimed_at node [] = as_str node"
| "claimed_at (JObj d) (k # ks) = claimed_at (json_get d k) ks"
| "claimed_at _ (k # ks) = None"

definition first_error :: "string list \<Rightarrow> string" where
  "first_error locs =
     (let paths = sorted_list_of_set (set locs);
          suffix = (if length paths \<le> 5 then [] else '' (and '' @ str_int (int (length paths) - 5) @ '' more)'')
      in ''record failed '' @ BUNDLE_SCHEMA @ '' validation at: '' @ join '', '' (take 5 paths) @ suffix)"

definition identity_of :: "EvidenceRecord \<Rightarrow> EvidenceIdentity" where
  "identity_of r = \<lparr>ei_provider_kind = rm_provider_kind (er_model r), ei_provider_model_name = rm_provider_model_name (er_model r),
     ei_artifact_digest = rm_artifact_digest (er_model r), ei_canonical_id = rm_canonical_id (er_model r),
     ei_adapter_name = map_option fst (er_adapter r), ei_adapter_artifact_digest = map_option snd (er_adapter r)\<rparr>"

definition adapter_key :: "EvidenceRecord \<Rightarrow> string" where
  "adapter_key r = (case er_adapter r of None \<Rightarrow> [] | Some (_, digest) \<Rightarrow> digest)"

definition uniqueness_key :: "EvidenceRecord \<Rightarrow> string \<Rightarrow> evidence_key" where
  "uniqueness_key r source_row_id = (source_row_id, rm_canonical_id (er_model r), adapter_key r, er_runtime_profile_hash r,
     er_machine_fingerprint r, er_capability_id r, er_policy_version r)"

fun mapping_or_none :: "json \<Rightarrow> (string \<times> json) list option" where
  "mapping_or_none (JObj d) = (if d = [] then None else Some d)"
| "mapping_or_none _ = None"

definition obj_column :: "(string \<times> json) list option \<Rightarrow> json" where
  "obj_column d = (case d of None \<Rightarrow> JNull | Some m \<Rightarrow> JObj m)"

definition list_column :: "json list \<Rightarrow> json" where
  "list_column xs = (if xs = [] then JNull else JList xs)"

definition goal_json :: "EvidenceRecord \<Rightarrow> json" where
  "goal_json r =
     (let dumped = er_dump r in
      if json_get dumped ''goal_hash'' = JNull \<and> json_get dumped ''calibration'' = JNull \<and> json_get dumped ''judge_set'' = JNull
      then JNull
      else JObj ((''judge_validity_factor'', json_get dumped ''judge_validity_factor'') #
        filter (\<lambda>(k, v). v \<noteq> JNull) (map (\<lambda>k. (k, json_get dumped k))
          [''goal_hash'', ''goal_pack_version'', ''score_method_mix'', ''judge_set'', ''calibration'', ''uncalibrated''])))"

definition row_values :: "(float64 \<Rightarrow> float64) \<Rightarrow> EvidenceRecord \<Rightarrow> Binding \<Rightarrow> string \<Rightarrow> instant \<Rightarrow>
    (string \<times> json) list option \<Rightarrow> string \<Rightarrow> CapabilityEvidence" where
  "row_values pow_half r b source_row_id now current_environment i =
     (let environment = mapping_or_none (json_get (er_dump r) ''environment'');
          drift = environment_drift environment current_environment (er_capability_id r);
          staleness = evaluate_staleness pow_half (er_measured_at r) now (er_capability_id r) drift False False
      in \<lparr>ce_id = i, ce_model_id = bi_model_id b, ce_adapter_id = bi_adapter_id b,
          ce_adapter_artifact_digest = adapter_key r, ce_provider_kind = rm_provider_kind (er_model r),
          ce_provider_model_name = rm_provider_model_name (er_model r),
          ce_artifact_digest = rm_artifact_digest (er_model r), ce_canonical_id = rm_canonical_id (er_model r),
          ce_match_state = bi_match_state b, ce_runtime_profile_hash = er_runtime_profile_hash r,
          ce_machine_fingerprint = er_machine_fingerprint r, ce_capability_id = er_capability_id r,
          ce_score = er_score r, ce_confidence = er_confidence r, ce_sample_count = er_sample_count r,
          ce_excluded_count = er_excluded_count r, ce_dispersion = er_dispersion r,
          ce_dispersion_unavailable_reason =
            (if er_dispersion r \<noteq> None then None else Some ''reported unsupported by the producer''),
          ce_benchmark_versions_json = obj_column (mapping_or_none (json_get (er_dump r) ''benchmark_versions'')),
          ce_dataset_hashes_json = obj_column (mapping_or_none (json_get (er_dump r) ''dataset_hashes'')),
          ce_prompt_subset_hashes_json = obj_column (mapping_or_none (json_get (er_dump r) ''prompt_subset_hashes'')),
          ce_contributing_metrics_json = list_column (er_contributing_metrics r),
          ce_source_run_ids_json = list_column (er_source_run_ids r),
          ce_identity_confidence = rm_identity_confidence (er_model r),
          ce_environment_snapshot_json = obj_column environment, ce_goal_json = goal_json r,
          ce_measured_at = er_measured_at r, ce_computed_at = er_computed_at r, ce_imported_at = now,
          ce_source_id = source_row_id, ce_policy_version = er_policy_version r,
          ce_vocabulary_version = er_vocabulary_version r, ce_stale = st_stale staleness,
          ce_stale_reason = st_reason staleness, ce_record_json = JObj (er_dump r)\<rparr>)"

definition overwrite_evidence :: "CapabilityEvidence \<Rightarrow> CapabilityEvidence \<Rightarrow> CapabilityEvidence" where
  "overwrite_evidence old new = new\<lparr>ce_id := ce_id old\<rparr>"

subsection \<open>Sources\<close>

definition source_for_url :: "string \<Rightarrow> Registry \<Rightarrow> EvidenceSource option" where
  "source_for_url url rg =
     (let rows = filter (\<lambda>s. es_url s = Some url) (rg_sources rg);
          imported = filter (\<lambda>s. es_last_import_at s \<noteq> None) rows
      in (case imported of
            s # ss \<Rightarrow> Some (max_by (\<lambda>s. (the (es_last_import_at s), es_id s)) s ss)
          | [] \<Rightarrow> (case sort_key es_id rows of [] \<Rightarrow> None | s # _ \<Rightarrow> Some s)))"

definition update_source :: "string \<Rightarrow> (EvidenceSource \<Rightarrow> EvidenceSource) \<Rightarrow> Registry \<Rightarrow> Registry" where
  "update_source i f rg = rg\<lparr>rg_sources := map (\<lambda>s. if es_id s = i then f s else s) (rg_sources rg)\<rparr>"

definition filed_source :: "string \<Rightarrow> string \<Rightarrow> string option \<Rightarrow> string \<Rightarrow> instant option \<Rightarrow> instant \<Rightarrow> EvidenceSource \<Rightarrow> EvidenceSource" where
  "filed_source key kind url version generated now s =
     s\<lparr>es_source_key := key, es_kind := kind, es_url := (if url = None then es_url s else url), es_last_import_at := Some now,
       es_last_status := Some ''ok'', es_schema_version := Some version, es_error_text := None, es_generated_at := generated\<rparr>"

definition new_source :: "string \<Rightarrow> string \<Rightarrow> string \<Rightarrow> string option \<Rightarrow> instant \<Rightarrow> EvidenceSource" where
  "new_source i key kind url now = \<lparr>es_id = i, es_source_key = key, es_kind = kind, es_url = url, es_last_import_at = None,
     es_last_status = None, es_schema_version = None, es_record_count = 0, es_error_text = None, es_generated_at = None,
     es_created_at = now\<rparr>"

text \<open>The row of this producer, the placeholder a failed refresh left for its URL, or a new row.\<close>

definition upsert_source :: "(nat \<Rightarrow> string) \<Rightarrow> string \<Rightarrow> string \<Rightarrow> string option \<Rightarrow> string \<Rightarrow> instant option \<Rightarrow> instant \<Rightarrow>
    Registry \<Rightarrow> string \<times> Registry" where
  "upsert_source ulid key kind url version generated now rg =
     (let known = find (\<lambda>s. es_source_key s = key) (rg_sources rg);
          placeholder = (case url of None \<Rightarrow> None
            | Some u \<Rightarrow> find (\<lambda>s. es_source_key s = u \<and> es_url s = Some u) (rg_sources rg));
          existing = (if known = None then placeholder else known);
          file = filed_source key kind url version generated now
      in (case existing of
            Some s \<Rightarrow> (es_id s, update_source (es_id s) file rg)
          | None \<Rightarrow> (let i = ulid (rg_next rg) in
              (i, rg\<lparr>rg_sources := rg_sources rg @ [file (new_source i key kind url now)], rg_next := rg_next rg + 1\<rparr>))))"

subsection \<open>The import\<close>

record import_state =
  im_rg :: Registry
  im_models :: "LocalModel list"
  im_seen :: "evidence_key list"
  im_rejected :: "RejectedRecord list"
  im_imported :: int
  im_updated :: int
  im_unmatched :: int
  im_ambiguous :: int
  im_bound :: int
  im_upgraded :: int

definition upgraded_row :: "string \<Rightarrow> string \<Rightarrow> ModelRow \<Rightarrow> ModelRow" where
  "upgraded_row digest canonical m =
     m\<lparr>mr_artifact_digest := Some digest, mr_canonical_id := canonical, mr_identity_confidence := ''digest''\<rparr>"

text \<open>Rule 2 of binding: a model known by name only takes the digest the evidence carries.\<close>

definition upgrade_model :: "Binding \<Rightarrow> string \<Rightarrow> Registry \<Rightarrow> Registry option" where
  "upgrade_model b canonical rg =
     (case (bi_upgrade_model_id b, bi_upgrade_digest b) of
        (Some i, Some digest) \<Rightarrow>
          (case find (\<lambda>m. mr_id m = i) (rg_models rg) of
             Some m \<Rightarrow>
               if mr_artifact_digest m = None
               then Some (rg\<lparr>rg_models := map (\<lambda>m. if mr_id m = i then upgraded_row digest canonical m else m) (rg_models rg)\<rparr>)
               else None
           | None \<Rightarrow> None)
      | _ \<Rightarrow> None)"

definition duplicate_record :: "nat \<Rightarrow> EvidenceRecord \<Rightarrow> RejectedRecord" where
  "duplicate_record index r = \<lparr>rr_index = index, rr_canonical_id = Some (rm_canonical_id (er_model r)),
     rr_capability_id = Some (er_capability_id r), rr_reason = ''DUPLICATE_RECORD'',
     rr_detail = ''a second record in this bundle carries the same '' @
       ''(canonical_id, adapter_artifact_digest, runtime_profile_hash, machine_fingerprint, capability_id, policy_version); two '' @
       ''measurements are not merged into one row''\<rparr>"

definition import_record :: "(float64 \<Rightarrow> float64) \<Rightarrow> (nat \<Rightarrow> string) \<Rightarrow> (string \<times> json) list option \<Rightarrow> string \<Rightarrow> LocalAdapter list \<Rightarrow>
    evidence_key set \<Rightarrow> instant \<Rightarrow> nat \<times> EvidenceRecord \<Rightarrow> import_state \<Rightarrow> import_state" where
  "import_record pow_half ulid current_environment source_row_id adapters existing_keys now ir st =
     (case ir of (index, r) \<Rightarrow>
       (let key = uniqueness_key r source_row_id in
        if key \<in> set (im_seen st) then st\<lparr>im_rejected := im_rejected st @ [duplicate_record index r]\<rparr>
        else
          (let b = bind_identity (identity_of r) (im_models st) adapters;
               up = upgrade_model b (rm_canonical_id (er_model r)) (im_rg st);
               rg = (case up of None \<Rightarrow> im_rg st | Some g \<Rightarrow> g);
               row = row_values pow_half r b source_row_id now current_environment (ulid (rg_next rg));
               rg' = rg\<lparr>rg_evidence := upsert evidence_key_of overwrite_evidence row (rg_evidence rg), rg_next := rg_next rg + 1\<rparr>
           in st\<lparr>im_rg := rg', im_models := (case up of None \<Rightarrow> im_models st | Some g \<Rightarrow> registry_of g),
                 im_seen := im_seen st @ [key],
                 im_imported := im_imported st + (if key \<in> existing_keys then 0 else 1),
                 im_updated := im_updated st + (if key \<in> existing_keys then 1 else 0),
                 im_bound := im_bound st + (if bi_match_state b = ''bound'' then 1 else 0),
                 im_unmatched := im_unmatched st + (if bi_match_state b = ''unmatched'' then 1 else 0),
                 im_ambiguous := im_ambiguous st + (if bi_match_state b \<noteq> ''bound'' \<and> bi_match_state b \<noteq> ''unmatched'' then 1 else 0),
                 im_upgraded := im_upgraded st + (if up = None then 0 else 1)\<rparr>)))"

definition refreshed_badge :: "(float64 \<Rightarrow> float64) \<Rightarrow> instant \<Rightarrow> CapabilityEvidence \<Rightarrow> CapabilityEvidence" where
  "refreshed_badge pow_half now r =
     (let s = evaluate_staleness pow_half (ce_measured_at r) now (ce_capability_id r) None False False
      in r\<lparr>ce_stale := st_stale s, ce_stale_reason := st_reason s\<rparr>)"

definition clear_unreachable :: "(float64 \<Rightarrow> float64) \<Rightarrow> instant \<Rightarrow> string \<Rightarrow> CapabilityEvidence list \<Rightarrow> CapabilityEvidence list" where
  "clear_unreachable pow_half now source_row_id rows =
     map (\<lambda>r. if ce_source_id r = source_row_id \<and> ce_stale_reason r = Some ''source_unreachable'' then refreshed_badge pow_half now r else r) rows"

text \<open>
  The rows a complete bundle omitted: one lookup per key in \<open>existing_keys - seen_keys\<close>, each of
  which the unique index makes a lookup of one row.
\<close>

definition omitted :: "evidence_key set \<Rightarrow> evidence_key list \<Rightarrow> CapabilityEvidence \<Rightarrow> bool" where
  "omitted existing_keys seen r \<longleftrightarrow> evidence_key_of r \<in> existing_keys - set seen \<and> ce_stale_reason r \<noteq> Some ''superseded''"

definition supersede :: "evidence_key set \<Rightarrow> evidence_key list \<Rightarrow> CapabilityEvidence list \<Rightarrow> CapabilityEvidence list" where
  "supersede existing_keys seen rows =
     map (\<lambda>r. if omitted existing_keys seen r then r\<lparr>ce_stale := True, ce_stale_reason := Some ''superseded''\<rparr> else r) rows"

definition write_bundle :: "(float64 \<Rightarrow> float64) \<Rightarrow> (nat \<Rightarrow> string) \<Rightarrow> (string \<times> json) list option \<Rightarrow> (nat \<times> EvidenceRecord) list \<Rightarrow>
    RejectedRecord list \<Rightarrow> string \<Rightarrow> string \<Rightarrow> string option \<Rightarrow> bool \<Rightarrow> nat \<Rightarrow> string \<Rightarrow> instant option \<Rightarrow> instant \<Rightarrow> Registry \<Rightarrow>
    ImportOutcome \<times> Registry" where
  "write_bundle pow_half ulid current_environment validated rejected source_key source_kind url is_complete n version generated now rg0 =
     (case upsert_source ulid source_key source_kind url version generated now rg0 of (source_row_id, rg1) \<Rightarrow>
       (let existing_keys = evidence_key_of ` {r \<in> set (rg_evidence rg1). ce_source_id r = source_row_id};
            st = fold (import_record pow_half ulid current_environment source_row_id (adapters_of rg1) existing_keys now) validated
              \<lparr>im_rg = rg1, im_models = registry_of rg1, im_seen = [], im_rejected = rejected, im_imported = 0, im_updated = 0,
               im_unmatched = 0, im_ambiguous = 0, im_bound = 0, im_upgraded = 0\<rparr>;
            rows = clear_unreachable pow_half now source_row_id (rg_evidence (im_rg st));
            superseded = (if is_complete then length (filter (omitted existing_keys (im_seen st)) rows) else 0);
            rows' = (if is_complete then supersede existing_keys (im_seen st) rows else rows);
            rg2 = update_source source_row_id (\<lambda>s. s\<lparr>es_record_count := im_imported st + im_updated st\<rparr>)
              ((im_rg st)\<lparr>rg_evidence := rows'\<rparr>)
        in (\<lparr>io_source_row_id = source_row_id, io_source_key = source_key, io_schema_version = version,
             io_generated_at = generated, io_complete = is_complete, io_total = n, io_imported = im_imported st,
             io_updated = im_updated st, io_unmatched = im_unmatched st, io_ambiguous = im_ambiguous st,
             io_bound = im_bound st, io_upgraded_models = im_upgraded st, io_superseded = int superseded,
             io_rejected = im_rejected st\<rparr>, rg2)))"

definition invalid_record :: "nat \<Rightarrow> json \<Rightarrow> string list \<Rightarrow> RejectedRecord" where
  "invalid_record index raw locs = \<lparr>rr_index = index, rr_canonical_id = claimed_at raw [''model'', ''canonical_id''],
     rr_capability_id = claimed_at raw [''capability_id''], rr_reason = ''INVALID_RECORD'', rr_detail = first_error locs\<rparr>"

fun validate_records :: "setspec_api \<Rightarrow> (nat \<times> json) list \<Rightarrow> (nat \<times> EvidenceRecord) list \<times> RejectedRecord list" where
  "validate_records api [] = ([], [])"
| "validate_records api ((index, raw) # rest) =
     (case validate_records api rest of (validated, rejected) \<Rightarrow>
       (case validate_record api raw of
          Inr r \<Rightarrow> ((index, r) # validated, rejected)
        | Inl locs \<Rightarrow> (validated, invalid_record index raw locs # rejected)))"

definition import_bundle :: "setspec_api \<Rightarrow> (float64 \<Rightarrow> float64) \<Rightarrow> (nat \<Rightarrow> string) \<Rightarrow> Principal option \<Rightarrow> document \<Rightarrow> int list \<Rightarrow>
    string \<Rightarrow> string option \<Rightarrow> (string \<times> json) list option \<Rightarrow> instant \<Rightarrow> Registry \<Rightarrow> import_error + (ImportOutcome \<times> Registry)" where
  "import_bundle api pow_half ulid caller doc majors source_kind url current_environment now rg =
     (case authorize caller ''admin'' of
        Inl e \<Rightarrow> Inl (ImportNotAuthorized e)
      | Inr _ \<Rightarrow>
     bind_result (negotiate api doc majors) (\<lambda>env.
       (case env_payload env of
          JObj payload \<Rightarrow>
            (case json_get payload ''source_id'' of
               JStr source_key \<Rightarrow>
                 if source_key = [] then Inl SourceUnnamed
                 else (case json_get payload ''complete'' of
                   JBool is_complete \<Rightarrow>
                     (case (case map_of payload ''evidence'' of None \<Rightarrow> JList [] | Some v \<Rightarrow> v) of
                        JList raw_records \<Rightarrow>
                          (case validate_records api (enumerate 0 raw_records) of (validated, rejected) \<Rightarrow>
                            Inr (write_bundle pow_half ulid current_environment validated rejected source_key source_kind url
                              is_complete (length raw_records) (env_schema_version env) (env_generated_at env) now rg))
                      | other \<Rightarrow> Inl (EvidenceNotAList other))
                 | _ \<Rightarrow> Inl CompletenessUndeclared)
             | _ \<Rightarrow> Inl SourceUnnamed)
        | other \<Rightarrow> Inl (PayloadNotObject other))))"

subsection \<open>Re-binding\<close>

record RebindOutcome =
  rb_bound :: int
  rb_unbound :: int
  rb_upgraded_models :: int
  rb_examined :: nat

fun obj_field :: "json \<Rightarrow> string \<Rightarrow> json" where
  "obj_field (JObj d) k = json_get d k"
| "obj_field _ k = JNull"

definition adapter_name_of :: "CapabilityEvidence \<Rightarrow> string option" where
  "adapter_name_of r = as_str (obj_field (obj_field (ce_record_json r) ''adapter'') ''name'')"

definition stored_subject_id :: "CapabilityEvidence \<Rightarrow> string" where
  "stored_subject_id r =
     (if ce_adapter_artifact_digest r = [] then ce_canonical_id r
      else (case as_str (obj_field (obj_field (ce_record_json r) ''adapter'') ''canonical_suffix'') of
              Some suffix \<Rightarrow> ce_canonical_id r @ suffix | None \<Rightarrow> ce_canonical_id r))"

definition row_identity :: "CapabilityEvidence \<Rightarrow> EvidenceIdentity" where
  "row_identity r = \<lparr>ei_provider_kind = ce_provider_kind r, ei_provider_model_name = ce_provider_model_name r,
     ei_artifact_digest = ce_artifact_digest r, ei_canonical_id = ce_canonical_id r, ei_adapter_name = adapter_name_of r,
     ei_adapter_artifact_digest = (if ce_adapter_artifact_digest r = [] then None else Some (ce_adapter_artifact_digest r))\<rparr>"

definition bound_row :: "Binding \<Rightarrow> CapabilityEvidence \<Rightarrow> CapabilityEvidence" where
  "bound_row b r = r\<lparr>ce_match_state := bi_match_state b, ce_model_id := bi_model_id b, ce_adapter_id := bi_adapter_id b\<rparr>"

text \<open>
  The loop over the rows: the models as they stand (with the local copy the code refreshes after
  an upgrade), the rows already visited and the counts.
\<close>

record rebind_state =
  rs_rg :: Registry
  rs_models :: "LocalModel list"
  rs_done :: "CapabilityEvidence list"
  rs_bound :: int
  rs_unbound :: int
  rs_upgraded :: int

definition rebind_row :: "LocalAdapter list \<Rightarrow> CapabilityEvidence \<Rightarrow> rebind_state \<Rightarrow> rebind_state" where
  "rebind_row adapters r st =
     (let b = bind_identity (row_identity r) (rs_models st) adapters;
          up = upgrade_model b (ce_canonical_id r) (rs_rg st);
          changed = (ce_match_state r \<noteq> bi_match_state b \<or> ce_model_id r \<noteq> bi_model_id b \<or> ce_adapter_id r \<noteq> bi_adapter_id b)
      in st\<lparr>rs_rg := (case up of None \<Rightarrow> rs_rg st | Some g \<Rightarrow> g),
            rs_models := (case up of None \<Rightarrow> rs_models st | Some g \<Rightarrow> registry_of g),
            rs_done := rs_done st @ [if changed then bound_row b r else r],
            rs_bound := rs_bound st + (if changed \<and> bi_match_state b = ''bound'' then 1 else 0),
            rs_unbound := rs_unbound st + (if changed \<and> bi_match_state b \<noteq> ''bound'' \<and> ce_match_state r = ''bound'' then 1 else 0),
            rs_upgraded := rs_upgraded st + (if up = None then 0 else 1)\<rparr>)"

definition rebind_loop :: "Registry \<Rightarrow> rebind_state" where
  "rebind_loop rg = fold (rebind_row (adapters_of rg)) (rg_evidence rg)
     \<lparr>rs_rg = rg, rs_models = registry_of rg, rs_done = [], rs_bound = 0, rs_unbound = 0, rs_upgraded = 0\<rparr>"

definition rebind_evidence_in :: "Registry \<Rightarrow> RebindOutcome \<times> Registry" where
  "rebind_evidence_in rg =
     (let st = rebind_loop rg in
      (\<lparr>rb_bound = rs_bound st, rb_unbound = rs_unbound st, rb_upgraded_models = rs_upgraded st,
        rb_examined = length (rg_evidence rg)\<rparr>, (rs_rg st)\<lparr>rg_evidence := rs_done st\<rparr>))"

subsection \<open>The configured source\<close>

definition unreachable_row :: "CapabilityEvidence \<Rightarrow> CapabilityEvidence" where
  "unreachable_row r =
     (if ce_stale_reason r = Some ''superseded'' then r
      else r\<lparr>ce_stale := True, ce_stale_reason := Some ''source_unreachable''\<rparr>)"

definition mark_source_unreachable :: "string \<Rightarrow> string \<Rightarrow> Registry \<Rightarrow> nat \<times> Registry" where
  "mark_source_unreachable url why rg =
     (case source_for_url url rg of
        None \<Rightarrow> (0, rg)
      | Some s \<Rightarrow>
          (let mine = (\<lambda>r. ce_source_id r = es_id s) in
           (length (filter (\<lambda>r. mine r \<and> ce_stale_reason r \<noteq> Some ''superseded'' \<and>
                (\<not> ce_stale r \<or> ce_stale_reason r \<noteq> Some ''source_unreachable'')) (rg_evidence rg)),
            (update_source (es_id s) (\<lambda>s. s\<lparr>es_last_status := Some ''unreachable'', es_error_text := Some why\<rparr>) rg)
              \<lparr>rg_evidence := map (\<lambda>r. if mine r then unreachable_row r else r) (rg_evidence rg)\<rparr>)))"

definition last_generated_at :: "string \<Rightarrow> Registry \<Rightarrow> instant option" where
  "last_generated_at url rg = (case source_for_url url rg of None \<Rightarrow> None | Some s \<Rightarrow> es_generated_at s)"

definition record_source_failure :: "(nat \<Rightarrow> string) \<Rightarrow> string \<Rightarrow> string \<Rightarrow> string \<Rightarrow> instant \<Rightarrow> Registry \<Rightarrow> Registry" where
  "record_source_failure ulid url status why now rg =
     (let failed = (\<lambda>s. s\<lparr>es_last_status := Some status, es_error_text := Some why\<rparr>) in
      (case source_for_url url rg of
         Some s \<Rightarrow> update_source (es_id s) failed rg
       | None \<Rightarrow> rg\<lparr>rg_sources := rg_sources rg @ [failed (new_source (ulid (rg_next rg)) url ''freeweight_api'' (Some url) now)],
                    rg_next := rg_next rg + 1\<rparr>))"

datatype fetch_error = SourceRefused string | SourceIncompatible string | SourceUnreachable string

text \<open>
  \<open>fetch url since\<close> is what the client's version check and download make of the source, with
  the credential it may send. The failure of an import is recorded and raised again.
\<close>

definition refresh_from_freeweight :: "setspec_api \<Rightarrow> (float64 \<Rightarrow> float64) \<Rightarrow> (nat \<Rightarrow> string) \<Rightarrow> (import_error \<Rightarrow> string) \<Rightarrow>
    (string \<Rightarrow> instant option \<Rightarrow> fetch_error + document) \<Rightarrow> string \<Rightarrow> int list \<Rightarrow> (string \<times> json) list option \<Rightarrow> instant \<Rightarrow> Registry \<Rightarrow>
    (import_error + ImportOutcome option) \<times> Registry" where
  "refresh_from_freeweight api pow_half ulid text_of fetch configured majors current_environment now rg =
     (let url = strip configured in
      if url = [] then (Inr None, rg)
      else (case fetch url (last_generated_at url rg) of
         Inl (SourceRefused m) \<Rightarrow> (Inr None, record_source_failure ulid url ''refused'' m now rg)
       | Inl (SourceIncompatible m) \<Rightarrow> (Inr None, record_source_failure ulid url ''incompatible'' m now rg)
       | Inl (SourceUnreachable m) \<Rightarrow>
           (Inr None, record_source_failure ulid url ''unreachable'' m now (snd (mark_source_unreachable url m rg)))
       | Inr doc \<Rightarrow>
           (case import_bundle api pow_half ulid None doc majors ''freeweight_api'' (Some url) current_environment now rg of
              Inr (out, rg') \<Rightarrow> (Inr (Some out), rg')
            | Inl e \<Rightarrow> (Inl e, record_source_failure ulid url ''failed'' (text_of e) now rg))))"

record SourceStatus =
  ss_source :: EvidenceSource
  ss_rows :: int
  ss_stale_rows :: int
  ss_newest_measured_at :: "instant option"
  ss_configured :: bool

definition newest :: "instant list \<Rightarrow> instant option" where
  "newest ts = (case ts of [] \<Rightarrow> None | t # rest \<Rightarrow> Some (foldl max t rest))"

definition oldest :: "instant list \<Rightarrow> instant option" where
  "oldest ts = (case ts of [] \<Rightarrow> None | t # rest \<Rightarrow> Some (foldl min t rest))"

definition list_sources :: "string \<Rightarrow> Registry \<Rightarrow> SourceStatus list" where
  "list_sources configured_url rg =
     map (\<lambda>s. (let mine = filter (\<lambda>r. ce_source_id r = es_id s) (rg_evidence rg) in
        \<lparr>ss_source = s, ss_rows = int (length mine), ss_stale_rows = int (length (filter ce_stale mine)),
         ss_newest_measured_at = newest (map ce_measured_at mine),
         ss_configured = (configured_url \<noteq> [] \<and> es_url s = Some configured_url)\<rparr>))
       (sort_key es_source_key (rg_sources rg))"

subsection \<open>What the store holds\<close>

text \<open>\<^verbatim>\<open>max(versions, key=policy_version_key, default=None)\<close>: the key of every version is computed.\<close>

definition greatest_version :: "string list \<Rightarrow> evidence_error + string option" where
  "greatest_version versions =
     bind_result (traverse (\<lambda>v. bind_result (policy_version_key v) (\<lambda>k. Inr (k, v))) versions) (\<lambda>keyed.
       Inr (case keyed of [] \<Rightarrow> None | x # xs \<Rightarrow> Some (snd (max_by fst x xs))))"

text \<open>
  \<^verbatim>\<open>ORDER BY last_import_at DESC\<close>: the rows with an import, newest first, then those without.
\<close>

definition latest_source :: "Registry \<Rightarrow> EvidenceSource option" where
  "latest_source rg =
     (case sort_key (\<lambda>s. case es_last_import_at s of None \<Rightarrow> (1 :: int, 0) | Some t \<Rightarrow> (0, - t)) (rg_sources rg) of
        [] \<Rightarrow> None | s # _ \<Rightarrow> Some s)"

definition evidence_overview :: "string \<Rightarrow> Registry \<Rightarrow> evidence_error + EvidenceOverview" where
  "evidence_overview configured_url rg =
     (let rows = rg_evidence rg;
          with_state = (\<lambda>m. int (length (filter (\<lambda>r. ce_match_state r = m) rows)));
          configured = (if configured_url = [] then None else source_for_url configured_url rg);
          src = (if configured = None then latest_source rg else configured)
      in bind_result (greatest_version (remdups (map ce_policy_version rows))) (\<lambda>policy.
         bind_result (greatest_version (remdups (map ce_vocabulary_version rows))) (\<lambda>vocabulary.
           Inr \<lparr>eo_configured = (configured_url \<noteq> []),
             eo_source_status = (case src of None \<Rightarrow> None | Some s \<Rightarrow> es_last_status s),
             eo_rows = int (length rows), eo_bound = with_state ''bound'', eo_unmatched = with_state ''unmatched'',
             eo_ambiguous = with_state ''ambiguous_name_only'', eo_stale = int (length (filter ce_stale rows)),
             eo_imported_at = newest (map ce_imported_at rows),
             eo_generated_at = (case src of None \<Rightarrow> None | Some s \<Rightarrow> es_generated_at s),
             eo_oldest_measured_at = oldest (map ce_measured_at rows), eo_newest_measured_at = newest (map ce_measured_at rows),
             eo_bundle_schema_version = (case src of None \<Rightarrow> None | Some s \<Rightarrow> es_schema_version s),
             eo_policy_version = policy, eo_vocabulary_version = vocabulary,
             eo_error_text = (case src of None \<Rightarrow> None | Some s \<Rightarrow> es_error_text s)\<rparr>)))"

subsection \<open>The signals routing may score\<close>

text \<open>Python's conversions of a stored value: \<open>fromisoformat\<close>, \<open>float\<close>, \<open>int\<close> and \<open>str\<close>.\<close>

record evidence_conversions =
  from_iso :: "string \<Rightarrow> instant option"
  float_of :: "json \<Rightarrow> float64 option"
  int_of :: "json \<Rightarrow> int option"
  str_of :: "json \<Rightarrow> string"

definition calibration_of :: "evidence_conversions \<Rightarrow> json \<Rightarrow> CalibrationFacts option" where
  "calibration_of cv stored =
     (case obj_field stored ''calibration'' of
        JObj c \<Rightarrow>
          (case (case json_get c ''measured_at'' of JStr s \<Rightarrow> from_iso cv s | _ \<Rightarrow> None) of
             None \<Rightarrow> None
           | Some t \<Rightarrow>
               (case (map_of c ''kappa_w'', map_of c ''n_holdout'', map_of c ''graded_by'') of
                  (Some k, Some n, Some g) \<Rightarrow>
                    (case (float_of cv k, int_of cv n) of
                       (Some k', Some n') \<Rightarrow> Some \<lparr>cf_kappa_w = k', cf_n_holdout = n', cf_graded_by = str_of cv g, cf_measured_at = t\<rparr>
                     | _ \<Rightarrow> None)
                | _ \<Rightarrow> None))
      | _ \<Rightarrow> None)"

definition versions_of :: "evidence_conversions \<Rightarrow> json \<Rightarrow> (string \<times> string) list" where
  "versions_of cv stored = (case stored of JObj d \<Rightarrow> sort (map (\<lambda>(k, v). (k, str_of cv v)) d) | _ \<Rightarrow> [])"

definition candidate_of :: "evidence_conversions \<Rightarrow> CapabilityEvidence \<Rightarrow> EvidenceCandidate" where
  "candidate_of cv r = \<lparr>ec_row_id = ce_id r, ec_capability_id = ce_capability_id r, ec_runtime_profile_hash = ce_runtime_profile_hash r,
     ec_machine_fingerprint = ce_machine_fingerprint r, ec_policy_version = ce_policy_version r, ec_measured_at = ce_measured_at r,
     ec_score = ce_score r, ec_confidence = ce_confidence r, ec_sample_count = ce_sample_count r,
     ec_benchmark_versions = versions_of cv (ce_benchmark_versions_json r), ec_calibration = calibration_of cv (ce_goal_json r)\<rparr>"

definition age_days_at :: "instant \<Rightarrow> instant \<Rightarrow> int" where
  "age_days_at now t = max 0 \<lfloor>total_seconds (now - t) / 86400\<rfloor>"

definition benchmark_signal :: "CapabilityEvidence list \<Rightarrow> instant \<Rightarrow> EvidenceCandidate \<Rightarrow> CapabilitySignal" where
  "benchmark_signal rows now c =
     (let row = find (\<lambda>r. ce_id r = ec_row_id c) rows in
      \<lparr>sig_capability_id = ec_capability_id c, sig_source = ''benchmark'', sig_score = ec_score c, sig_confidence = ec_confidence c,
       sig_runtime_profile_hash = Some (ec_runtime_profile_hash c), sig_machine_fingerprint = Some (ec_machine_fingerprint c),
       sig_measured_at = Some (ec_measured_at c), sig_sample_count = Some (ec_sample_count c), sig_match_state = Some ''bound'',
       sig_age_days = Some (age_days_at now (ec_measured_at c)),
       sig_stale = (case row of None \<Rightarrow> False | Some r \<Rightarrow> ce_stale r),
       sig_stale_reason = (case row of None \<Rightarrow> None | Some r \<Rightarrow> ce_stale_reason r), sig_calibration = ec_calibration c\<rparr>)"

definition scores_for :: "(string, float64) dict \<Rightarrow> CapabilityEvidence \<Rightarrow> bool" where
  "scores_for weights r \<longleftrightarrow> ce_match_state r = ''bound'' \<and> ce_model_id r \<noteq> None \<and> weights_admit (ce_capability_id r) weights"

definition evidence_subject :: "CapabilityEvidence \<Rightarrow> string \<times> string" where
  "evidence_subject r = (the (ce_model_id r), case ce_adapter_id r of None \<Rightarrow> [] | Some a \<Rightarrow> a)"

definition bound_signals_for_routing :: "evidence_conversions \<Rightarrow> (string, float64) dict \<Rightarrow> instant \<Rightarrow> string option \<Rightarrow> Registry \<Rightarrow>
    evidence_error + (string \<times> string, CapabilitySignal list) dict" where
  "bound_signals_for_routing cv weights now machine rg =
     (let rows = filter (scores_for weights) (rg_evidence rg) in
      traverse (\<lambda>(subject, mine).
          bind_result (collapse_evidence (map (candidate_of cv) mine) machine) (\<lambda>selected.
            Inr (subject, map (benchmark_signal rows now) selected)))
        (group_by evidence_subject rows))"

subsection \<open>Queries\<close>

definition DEFAULT_EVIDENCE_LIMIT :: int where "DEFAULT_EVIDENCE_LIMIT = 50"
definition MAX_EVIDENCE_LIMIT :: int where "MAX_EVIDENCE_LIMIT = 500"

record EvidenceQuery =
  eq_capability :: "string option"
  eq_model :: "string option"
  eq_match_state :: "string option"
  eq_min_confidence :: "float64 option"
  eq_stale :: "bool option"
  eq_limit :: int
  eq_cursor :: "string option"

record EvidenceItem =
  ev_row :: CapabilityEvidence
  ev_subject_canonical_id :: string
  ev_age_days :: int
  ev_source_key :: string

record EvidencePage =
  pg_items :: "EvidenceItem list"
  pg_limit :: int
  pg_next_cursor :: "string option"
  pg_has_more :: bool
  pg_total :: nat

text \<open>A filter that is absent, or an empty string, does not filter.\<close>

definition asks :: "string option \<Rightarrow> string \<Rightarrow> bool" where
  "asks wanted x \<longleftrightarrow> wanted = None \<or> wanted = Some [] \<or> wanted = Some x"

definition query_matches :: "EvidenceQuery \<Rightarrow> CapabilityEvidence \<Rightarrow> bool" where
  "query_matches q r \<longleftrightarrow> asks (eq_capability q) (ce_capability_id r) \<and> asks (eq_model q) (ce_canonical_id r) \<and>
     asks (eq_match_state q) (ce_match_state r) \<and> (case eq_min_confidence q of None \<Rightarrow> True | Some c \<Rightarrow> ce_confidence r \<ge> c) \<and>
     (case eq_stale q of None \<Rightarrow> True | Some b \<Rightarrow> ce_stale r = b)"

definition query_evidence :: "EvidenceQuery \<Rightarrow> instant \<Rightarrow> Registry \<Rightarrow> EvidencePage" where
  "query_evidence q now rg =
     (let limit = max 1 (min (eq_limit q) MAX_EVIDENCE_LIMIT);
          matching = filter (query_matches q) (rg_evidence rg);
          after = (case eq_cursor q of None \<Rightarrow> matching | Some c \<Rightarrow> if c = [] then matching else filter (\<lambda>r. ce_id r > c) matching);
          rows = take (nat limit + 1) (sort_key ce_id after);
          has_more = length rows > nat limit;
          items = map (\<lambda>r. \<lparr>ev_row = r, ev_subject_canonical_id = stored_subject_id r, ev_age_days = age_days_at now (ce_measured_at r),
            ev_source_key = (case find (\<lambda>s. es_id s = ce_source_id r) (rg_sources rg) of
               None \<Rightarrow> ce_source_id r | Some s \<Rightarrow> es_source_key s)\<rparr>) (take (nat limit) rows)
      in \<lparr>pg_items = items, pg_limit = limit,
          pg_next_cursor = (if items \<noteq> [] \<and> has_more then Some (ce_id (ev_row (last items))) else None),
          pg_has_more = has_more, pg_total = length matching\<rparr>)"

record CapabilityCoverage =
  cc_capability_id :: string
  cc_models :: nat
  cc_bound :: nat
  cc_stale :: nat
  cc_best_score :: "float64 option"
  cc_best_confidence :: "float64 option"
  cc_newest_measured_at :: "instant option"
  cc_oldest_measured_at :: "instant option"

definition coverage_of :: "string \<times> CapabilityEvidence list \<Rightarrow> CapabilityCoverage" where
  "coverage_of cg =
     (case cg of (capability, rows) \<Rightarrow>
       (let bound = filter (\<lambda>r. ce_match_state r = ''bound'') rows;
            best = (case bound of [] \<Rightarrow> None | r # rs \<Rightarrow> Some (max_by ce_score r rs))
        in \<lparr>cc_capability_id = capability, cc_models = card ((\<lambda>r. (ce_canonical_id r, ce_adapter_artifact_digest r)) ` set rows),
            cc_bound = length bound, cc_stale = length (filter ce_stale rows), cc_best_score = map_option ce_score best,
            cc_best_confidence = map_option ce_confidence best, cc_newest_measured_at = newest (map ce_measured_at rows),
            cc_oldest_measured_at = oldest (map ce_measured_at rows)\<rparr>))"

definition capability_coverage :: "Registry \<Rightarrow> CapabilityCoverage list" where
  "capability_coverage rg = map coverage_of (sort_key fst (group_by ce_capability_id (rg_evidence rg)))"

end
