(* ===== verification/Evidence_Correctness.thy ===== *)
theory Evidence_Correctness
  imports Evidence_Store
begin

section \<open>The evidence store keeps its records\<close>

text \<open>
  What \<open>Evidence_Store\<close> guarantees: an import accounts for every record of the bundle and keeps
  the unique indexes and every row that was there; a complete bundle supersedes what it omits;
  the signals of a subject come from that subject's own bound rows; where one pass of re-binding
  settles the store and where it does not.
\<close>

interpretation evidence_table: upsert_table evidence_key_of overwrite_evidence
  by unfold_locales (simp_all add: evidence_key_of_def overwrite_evidence_def)

subsection \<open>Upgrading a model\<close>

lemma upgrade_model_SomeD:
  assumes "upgrade_model b c rg = Some rg'"
  obtains i digest m where "bi_upgrade_model_id b = Some i" "bi_upgrade_digest b = Some digest"
    "m \<in> set (rg_models rg)" "mr_id m = i" "mr_artifact_digest m = None"
    "rg' = rg\<lparr>rg_models := map (\<lambda>m. if mr_id m = i then upgraded_row digest c m else m) (rg_models rg)\<rparr>"
  using assms by (auto simp: upgrade_model_def split: option.splits if_splits dest!: find_SomeD)

lemma upgrade_keeps:
  assumes "upgrade_model b c rg = Some rg'"
  shows "rg_evidence rg' = rg_evidence rg" "rg_sources rg' = rg_sources rg" "rg_adapters rg' = rg_adapters rg"
    "rg_capabilities rg' = rg_capabilities rg" "rg_next rg' = rg_next rg" "map mr_id (rg_models rg') = map mr_id (rg_models rg)"
  using assms by (auto simp: upgraded_row_def elim!: upgrade_model_SomeD)

lemma upgrade_no_exact:
  assumes "bi_upgrade_model_id (bind_identity i models adapters) \<noteq> None"
  shows "\<forall>r \<in> set models. \<not> exact_row i r"
    and "\<exists>r \<in> set models. upgradable_row i r \<and> bi_upgrade_model_id (bind_identity i models adapters) = Some (lm_model_id r)"
    and "bi_upgrade_digest (bind_identity i models adapters) = ei_artifact_digest i"
proof -
  have d: "bi_upgrade_digest (bind_identity i models adapters) =
      (if is_adapter_bearing i \<and> (\<not> held_adapter i adapters \<or> \<not> is_bound (bind_base i models)) then None
       else bi_upgrade_digest (bind_base i models))"
    by (auto simp: bind_identity_def Let_def unmatched_binding_def held_adapter_def
        split: option.splits dest!: find_SomeD simp: find_None_iff_ex)
  show "\<forall>r \<in> set models. \<not> exact_row i r"
    using assms by (cases rule: bind_base_cases[of models i]) (auto simp: bind_identity_fields split: if_splits)
  show "\<exists>r \<in> set models. upgradable_row i r \<and> bi_upgrade_model_id (bind_identity i models adapters) = Some (lm_model_id r)"
    using assms by (cases rule: bind_base_cases[of models i]) (auto simp: bind_identity_fields split: if_splits)
  show "bi_upgrade_digest (bind_identity i models adapters) = ei_artifact_digest i"
    using assms by (cases rule: bind_base_cases[of models i]) (auto simp: bind_identity_fields d split: if_splits)
qed

lemma set_registry_of:
  "r \<in> set (registry_of rg) \<longleftrightarrow> (\<exists>m \<in> set (rg_models rg). r = \<lparr>lm_model_id = mr_id m, lm_provider_kind = mr_provider_kind m,
      lm_provider_model_name = mr_provider_model_name m, lm_artifact_digest = mr_artifact_digest m, lm_canonical_id = mr_canonical_id m\<rparr>)"
  by (auto simp: registry_of_def)

lemma exact_row_identity:
  "(\<forall>r \<in> set (registry_of rg). \<not> exact_row i r) \<longleftrightarrow>
     (ei_provider_kind i, ei_provider_model_name i, ei_artifact_digest i) \<notin> model_identity ` set (rg_models rg)"
  by (force simp: set_registry_of exact_row_def same_name_def model_identity_def)

lemma distinct_upgrade:
  assumes "distinct (map key rows)" "distinct (map ident rows)" "r \<in> set rows" "ident (f r) \<notin> ident ` set rows"
  shows "distinct (map ident (map (\<lambda>x. if key x = key r then f x else x) rows))"
proof -
  have only: "x = r" if "x \<in> set rows" "key x = key r" for x
    using that assms(1,3) by (metis distinct_map inj_on_def)
  let ?g = "\<lambda>x. if key x = key r then f x else x"
  have fresh: "ident (?g x) \<noteq> ident y" if "x \<in> set rows" "key x = key r" "y \<in> set rows" for x y
    using only[OF that(1,2)] assms(4) that(3) by auto
  have "inj_on (\<lambda>x. ident (?g x)) (set rows)"
  proof (rule inj_onI)
    fix x y assume xy: "x \<in> set rows" "y \<in> set rows" "ident (?g x) = ident (?g y)"
    consider "key x = key r" "key y = key r" | "key x = key r" "key y \<noteq> key r" | "key x \<noteq> key r" "key y = key r"
      | "key x \<noteq> key r" "key y \<noteq> key r" by blast
    then show "x = y"
    proof cases
      case 4
      then show ?thesis using xy assms(2) by (simp add: distinct_map inj_on_def)
    qed (use xy only fresh[of x y] fresh[of y x] in auto)
  qed
  moreover have "distinct rows" using assms(1) by (simp add: distinct_map)
  ultimately show ?thesis by (simp add: distinct_map comp_def)
qed

lemma upgrade_ok:
  assumes "registry_ok rg" "upgrade_model (bind_identity i (registry_of rg) adapters) c rg = Some rg'"
  shows "registry_ok rg'"
proof -
  let ?b = "bind_identity i (registry_of rg) adapters"
  from assms(2) obtain k digest m where u: "bi_upgrade_model_id ?b = Some k" "bi_upgrade_digest ?b = Some digest"
    "m \<in> set (rg_models rg)" "mr_id m = k" "mr_artifact_digest m = None"
    "rg' = rg\<lparr>rg_models := map (\<lambda>m. if mr_id m = k then upgraded_row digest c m else m) (rg_models rg)\<rparr>"
    by (rule upgrade_model_SomeD)
  from u(1) have ne: "bi_upgrade_model_id ?b \<noteq> None" by simp
  from upgrade_no_exact(2)[OF ne] u(1) obtain m' where m': "m' \<in> set (rg_models rg)" "mr_id m' = k"
    "ei_provider_kind i = mr_provider_kind m'" "ei_provider_model_name i = mr_provider_model_name m'"
    by (auto simp: set_registry_of upgradable_row_def same_name_def)
  have "m' = m" using m'(1,2) u(3,4) assms(1) by (metis registry_ok_def distinct_map inj_on_def)
  then have "model_identity (upgraded_row digest c m) \<notin> model_identity ` set (rg_models rg)"
    using upgrade_no_exact(1,3)[OF ne] u(2) m'(3,4) unfolding exact_row_identity
    by (simp add: model_identity_def upgraded_row_def)
  then have "distinct (map model_identity (rg_models rg'))"
    using distinct_upgrade[of mr_id "rg_models rg" model_identity m "upgraded_row digest c"] assms(1) u(3,4,6)
    by (simp add: registry_ok_def)
  then show ?thesis using assms(1) upgrade_keeps[OF assms(2)] by (simp add: registry_ok_def)
qed

subsection \<open>One record\<close>

lemma ids_upsert_evidence:
  "map ce_id (upsert evidence_key_of overwrite_evidence row rows) =
     (if evidence_key_of row \<in> evidence_key_of ` set rows then map ce_id rows else map ce_id rows @ [ce_id row])"
  by (simp add: upsert_def evidence_table.key_taken overwrite_evidence_def)

lemma length_upsert_evidence:
  "length (upsert evidence_key_of overwrite_evidence row rows) =
     length rows + (if evidence_key_of row \<in> evidence_key_of ` set rows then 0 else 1)"
  using arg_cong[OF ids_upsert_evidence[of row rows], of length] by simp

lemma row_values_key [simp]: "evidence_key_of (row_values ph r b src now env i) = uniqueness_key r src"
  by (simp add: row_values_def evidence_key_of_def uniqueness_key_def Let_def)

lemma row_values_id [simp]: "ce_id (row_values ph r b src now env i) = i"
  by (simp add: row_values_def Let_def)

lemma fst_uniqueness_key [simp]: "fst (uniqueness_key r src) = src"
  by (simp add: uniqueness_key_def)

lemma fst_evidence_key [simp]: "fst (evidence_key_of r) = ce_source_id r"
  by (simp add: evidence_key_of_def)

text \<open>A fresh badge is a statement about the measurement, never about the source or a bundle.\<close>

definition own_badge :: "CapabilityEvidence \<Rightarrow> bool" where
  "own_badge r \<longleftrightarrow> ce_stale_reason r \<noteq> Some ''superseded'' \<and> ce_stale_reason r \<noteq> Some ''source_unreachable''"

lemma staleness_own: "st_reason (evaluate_staleness ph t now c d False False) \<noteq> Some ''superseded''"
    "st_reason (evaluate_staleness ph t now c d False False) \<noteq> Some ''source_unreachable''"
  by (auto simp: evaluate_staleness_def Let_def split: option.splits)

lemma row_values_badge: "own_badge (row_values ph r b src now env i)"
  using staleness_own by (auto simp: own_badge_def row_values_def Let_def)

lemma refreshed_badge_own: "own_badge (refreshed_badge ph now r)"
  using staleness_own by (auto simp: own_badge_def refreshed_badge_def Let_def)

text \<open>
  The state of the loop over the records, against the tables \<open>rg1\<close> it started from:
  the indexes hold, the local copy of the models is current, every key seen is new and has its
  row, rows whose key was not seen are untouched and no row lost its primary key.
\<close>

definition import_inv :: "(nat \<Rightarrow> string) \<Rightarrow> string \<Rightarrow> Registry \<Rightarrow> import_state \<Rightarrow> bool" where
  "import_inv ulid src rg1 st \<longleftrightarrow> registry_ok (im_rg st) \<and> drawn ulid (im_rg st) \<and> im_models st = registry_of (im_rg st) \<and>
     rg_sources (im_rg st) = rg_sources rg1 \<and> rg_adapters (im_rg st) = rg_adapters rg1 \<and>
     distinct (im_seen st) \<and> (\<forall>k \<in> set (im_seen st). fst k = src) \<and>
     evidence_key_of ` set (rg_evidence (im_rg st)) = evidence_key_of ` set (rg_evidence rg1) \<union> set (im_seen st) \<and>
     (\<forall>r \<in> set (rg_evidence rg1). evidence_key_of r \<notin> set (im_seen st) \<longrightarrow> r \<in> set (rg_evidence (im_rg st))) \<and>
     (\<forall>r \<in> set (rg_evidence (im_rg st)). evidence_key_of r \<in> set (im_seen st) \<longrightarrow> own_badge r) \<and>
     ce_id ` set (rg_evidence rg1) \<subseteq> ce_id ` set (rg_evidence (im_rg st)) \<and>
     im_imported st = int (card (set (im_seen st) - evidence_key_of ` set (rg_evidence rg1))) \<and>
     im_imported st + im_updated st = int (length (im_seen st)) \<and>
     im_bound st + im_unmatched st + im_ambiguous st = int (length (im_seen st)) \<and>
     int (length (rg_evidence (im_rg st))) = int (length (rg_evidence rg1)) + im_imported st"

lemma after_upgrade:
  fixes i adapters c
  assumes "registry_ok rg" "drawn ulid rg"
  defines "rg' \<equiv> (case upgrade_model (bind_identity i (registry_of rg) adapters) c rg of None \<Rightarrow> rg | Some g \<Rightarrow> g)"
  shows "registry_ok rg'" "drawn ulid rg'" "rg_evidence rg' = rg_evidence rg" "rg_sources rg' = rg_sources rg"
    "rg_adapters rg' = rg_adapters rg" "rg_next rg' = rg_next rg" "rg_capabilities rg' = rg_capabilities rg"
    "map mr_id (rg_models rg') = map mr_id (rg_models rg)"
proof -
  consider "rg' = rg" | "upgrade_model (bind_identity i (registry_of rg) adapters) c rg = Some rg'"
    by (cases "upgrade_model (bind_identity i (registry_of rg) adapters) c rg") (simp_all add: rg'_def)
  note cases = this
  show keep: "rg_evidence rg' = rg_evidence rg" "rg_sources rg' = rg_sources rg" "rg_adapters rg' = rg_adapters rg"
    "rg_next rg' = rg_next rg" "rg_capabilities rg' = rg_capabilities rg" "map mr_id (rg_models rg') = map mr_id (rg_models rg)"
    by (cases rule: cases; simp add: upgrade_keeps)+
  show "registry_ok rg'" using cases assms(1) upgrade_ok by metis
  have "mr_id ` set (rg_models rg') = mr_id ` set (rg_models rg)"
    using arg_cong[OF keep(6), of set] by simp
  then show "drawn ulid rg'" using assms(2) keep by (simp add: drawn_def)
qed

lemma insert_evidence_ok:
  fixes row rg
  assumes "registry_ok rg" "drawn ulid rg" "inj ulid" "ce_id row = ulid (rg_next rg)"
  defines "rg' \<equiv> rg\<lparr>rg_evidence := upsert evidence_key_of overwrite_evidence row (rg_evidence rg), rg_next := rg_next rg + 1\<rparr>"
  shows "registry_ok rg'" "drawn ulid rg'"
proof -
  have fresh: "ce_id row \<notin> ce_id ` set (rg_evidence rg)" using assms(2,4) by (auto simp: drawn_def)
  have "distinct (map ce_id (rg_evidence rg'))"
    using assms(1) fresh by (auto simp: rg'_def ids_upsert_evidence registry_ok_def)
  moreover have "distinct (map evidence_key_of (rg_evidence rg'))"
    using assms(1) by (simp add: rg'_def registry_ok_def evidence_table.distinct_upsert)
  ultimately show "registry_ok rg'" using assms(1) by (simp add: registry_ok_def rg'_def)
  have "ce_id ` set (rg_evidence rg') \<subseteq> insert (ce_id row) (ce_id ` set (rg_evidence rg))"
    using arg_cong[OF ids_upsert_evidence[of row "rg_evidence rg"], of set] by (auto simp: rg'_def split: if_splits)
  then have "ulid k \<notin> ce_id ` set (rg_evidence rg')" if "k \<ge> rg_next rg + 1" for k
  proof -
    have "ulid k \<notin> ce_id ` set (rg_evidence rg)" using that assms(2) by (simp add: drawn_def)
    moreover have "ulid k \<noteq> ce_id row" using that assms(3,4) by (metis inj_eq not_less_eq_eq Suc_eq_plus1 order_refl)
    ultimately show ?thesis using \<open>_ \<subseteq> _\<close> by blast
  qed
  then show "drawn ulid rg'" using assms(2) by (simp add: drawn_def rg'_def)
qed

lemma import_record_inv:
  assumes inv: "import_inv ulid src rg1 st" and "inj ulid"
    and ex: "existing = evidence_key_of ` {r \<in> set (rg_evidence rg1). ce_source_id r = src}"
  shows "import_inv ulid src rg1 (import_record ph ulid env src (adapters_of rg1) existing now ir st)"
proof -
  obtain index r where ir: "ir = (index, r)" by (cases ir)
  let ?k = "uniqueness_key r src" and ?e1 = "evidence_key_of ` set (rg_evidence rg1)"
  show ?thesis
  proof (cases "?k \<in> set (im_seen st)")
    case True
    then show ?thesis using inv by (simp add: ir import_record_def import_inv_def)
  next
    case False
    define b where "b = bind_identity (identity_of r) (registry_of (im_rg st)) (adapters_of rg1)"
    define up where "up = upgrade_model b (rm_canonical_id (er_model r)) (im_rg st)"
    define rg where "rg = (case up of None \<Rightarrow> im_rg st | Some g \<Rightarrow> g)"
    define row where "row = row_values ph r b src now env (ulid (rg_next rg))"
    define rg' where "rg' = rg\<lparr>rg_evidence := upsert evidence_key_of overwrite_evidence row (rg_evidence rg), rg_next := rg_next rg + 1\<rparr>"
    have models: "im_models st = registry_of (im_rg st)" using inv by (simp add: import_inv_def)
    have ok: "registry_ok (im_rg st)" "drawn ulid (im_rg st)" using inv by (simp_all add: import_inv_def)
    note a = after_upgrade[OF ok, of "identity_of r" "adapters_of rg1" "rm_canonical_id (er_model r)",
        folded b_def, folded up_def, folded rg_def]
    have rk: "evidence_key_of row = ?k" "ce_id row = ulid (rg_next rg)" "own_badge row"
      by (simp_all add: row_def row_values_badge)
    note i = insert_evidence_ok[OF a(1,2) assms(2) rk(2), folded rg'_def]
    have ev: "rg_evidence rg' = upsert evidence_key_of overwrite_evidence row (rg_evidence (im_rg st))"
      by (simp add: rg'_def a(3))
    have keys: "evidence_key_of ` set (rg_evidence rg') = insert ?k (evidence_key_of ` set (rg_evidence (im_rg st)))"
      unfolding ev evidence_table.key_set_upsert rk(1) ..
    have old: "?k \<in> existing \<longleftrightarrow> ?k \<in> ?e1"
    proof
      assume "?k \<in> ?e1"
      then obtain x where "x \<in> set (rg_evidence rg1)" "?k = evidence_key_of x" by blast
      then show "?k \<in> existing" unfolding ex using fst_uniqueness_key[of r src] by (intro image_eqI[of _ _ x]) simp_all
    qed (use ex in blast)
    have taken: "?k \<in> evidence_key_of ` set (rg_evidence (im_rg st)) \<longleftrightarrow> ?k \<in> ?e1"
      using inv False by (simp add: import_inv_def)
    have ids: "ce_id ` set (rg_evidence (im_rg st)) \<subseteq> ce_id ` set (rg_evidence rg')"
      using arg_cong[OF ids_upsert_evidence[of row "rg_evidence (im_rg st)"], of set] by (auto simp: ev split: if_splits)
    have len: "length (rg_evidence rg') = length (rg_evidence (im_rg st)) + (if ?k \<in> ?e1 then 0 else 1)"
      unfolding ev length_upsert_evidence rk(1) taken ..
    have card: "card (insert ?k (set (im_seen st)) - ?e1) = card (set (im_seen st) - ?e1) + (if ?k \<in> ?e1 then 0 else 1)"
      using False by (simp add: insert_Diff_if)
    have badge: "own_badge x" if "x \<in> set (rg_evidence rg')" "evidence_key_of x \<in> insert ?k (set (im_seen st))" for x
      using that(1)[unfolded ev]
    proof (cases rule: evidence_table.set_upsert_cases)
      case 1
      then show ?thesis using inv that(2) by (auto simp: import_inv_def rk)
    next
      case 2
      then show ?thesis using rk(3) by (simp add: own_badge_def overwrite_evidence_def)
    next
      case 3
      then show ?thesis using rk(3) by simp
    qed
    have keeps: "x \<in> set (rg_evidence rg')" if "x \<in> set (rg_evidence rg1)" "evidence_key_of x \<notin> insert ?k (set (im_seen st))" for x
      unfolding ev using that inv by (intro evidence_table.upsert_keeps) (auto simp: import_inv_def rk)
    have reg: "registry_of rg' = (case up of None \<Rightarrow> registry_of (im_rg st) | Some g \<Rightarrow> registry_of g)"
      by (cases up) (simp_all add: registry_of_def rg'_def rg_def)
    have step: "import_record ph ulid env src (adapters_of rg1) existing now ir st =
      st\<lparr>im_rg := rg', im_models := registry_of rg', im_seen := im_seen st @ [?k],
         im_imported := im_imported st + (if ?k \<in> ?e1 then 0 else 1), im_updated := im_updated st + (if ?k \<in> ?e1 then 1 else 0),
         im_bound := im_bound st + (if bi_match_state b = ''bound'' then 1 else 0),
         im_unmatched := im_unmatched st + (if bi_match_state b = ''unmatched'' then 1 else 0),
         im_ambiguous := im_ambiguous st + (if bi_match_state b \<noteq> ''bound'' \<and> bi_match_state b \<noteq> ''unmatched'' then 1 else 0),
         im_upgraded := im_upgraded st + (if up = None then 0 else 1)\<rparr>"
      unfolding import_record_def ir prod.case Let_def old models b_def[symmetric]
      unfolding up_def[symmetric] rg_def[symmetric]
      unfolding row_def[symmetric]
      unfolding rg'_def[symmetric] reg using False by simp
    have inv': "rg_sources (im_rg st) = rg_sources rg1" "rg_adapters (im_rg st) = rg_adapters rg1" "distinct (im_seen st)"
      "\<forall>k \<in> set (im_seen st). fst k = src"
      "evidence_key_of ` set (rg_evidence (im_rg st)) = ?e1 \<union> set (im_seen st)"
      "ce_id ` set (rg_evidence rg1) \<subseteq> ce_id ` set (rg_evidence (im_rg st))"
      "im_imported st = int (card (set (im_seen st) - ?e1))" "im_imported st + im_updated st = int (length (im_seen st))"
      "im_bound st + im_unmatched st + im_ambiguous st = int (length (im_seen st))"
      "int (length (rg_evidence (im_rg st))) = int (length (rg_evidence rg1)) + im_imported st"
      using inv by (simp_all add: import_inv_def)
    show ?thesis
      unfolding import_inv_def step
    proof (intro conjI, goal_cases)
      case 4 show ?case using a(4) inv'(1) by (simp add: rg'_def)
    next
      case 5 show ?case using a(5) inv'(2) by (simp add: rg'_def)
    next
      case 8 show ?case using keys inv'(5) by simp
    next
      case 11 show ?case using ids inv'(6) by simp
    qed (use i card len badge keeps False inv'(3,4,7-10) in simp_all)
  qed
qed

subsection \<open>The loop over the records\<close>

lemma import_loop_inv:
  assumes "inj ulid" "existing = evidence_key_of ` {r \<in> set (rg_evidence rg1). ce_source_id r = src}" "import_inv ulid src rg1 st"
  shows "import_inv ulid src rg1 (fold (import_record ph ulid env src (adapters_of rg1) existing now) irs st)"
  using assms(3) by (induction irs arbitrary: st) (simp_all add: import_record_inv[OF _ assms(1,2)])

lemma import_record_seen:
  "set (im_seen (import_record ph ulid env src ads existing now ir st)) = insert (uniqueness_key (snd ir) src) (set (im_seen st))"
  "length (im_seen (import_record ph ulid env src ads existing now ir st)) +
     length (im_rejected (import_record ph ulid env src ads existing now ir st)) = Suc (length (im_seen st) + length (im_rejected st))"
  by (cases ir; auto simp: import_record_def Let_def)+

lemma import_loop_seen:
  "set (im_seen (fold (import_record ph ulid env src ads existing now) irs st)) =
     set (im_seen st) \<union> (\<lambda>ir. uniqueness_key (snd ir) src) ` set irs"
  "length (im_seen (fold (import_record ph ulid env src ads existing now) irs st)) +
     length (im_rejected (fold (import_record ph ulid env src ads existing now) irs st)) =
     length irs + (length (im_seen st) + length (im_rejected st))"
  by (induction irs arbitrary: st) (simp_all add: import_record_seen)

lemma validate_records_spec:
  "length (fst (validate_records api irs)) + length (snd (validate_records api irs)) = length irs"
  "r \<in> snd ` set (fst (validate_records api irs)) \<longleftrightarrow> (\<exists>raw \<in> snd ` set irs. validate_record api raw = Inr r)"
  by (induction irs rule: validate_records.induct) (auto split: prod.splits sum.splits)

subsection \<open>The row of the source\<close>

lemma map_key_same: "(\<And>x. key (f x) = key x) \<Longrightarrow> map key (map (\<lambda>x. if P x then f x else x) xs) = map key xs"
  by (induction xs) auto

lemma update_source_simps [simp]:
  "rg_evidence (update_source i f rg) = rg_evidence rg" "rg_models (update_source i f rg) = rg_models rg"
  "rg_adapters (update_source i f rg) = rg_adapters rg" "rg_capabilities (update_source i f rg) = rg_capabilities rg"
  "rg_next (update_source i f rg) = rg_next rg"
  "rg_sources (update_source i f rg) = map (\<lambda>s. if es_id s = i then f s else s) (rg_sources rg)"
  by (simp_all add: update_source_def)

lemma update_source_ok:
  assumes "registry_ok rg" "drawn ulid rg" "\<And>s. es_id (f s) = es_id s"
    and "distinct (map es_source_key (rg_sources (update_source i f rg)))"
  shows "registry_ok (update_source i f rg)" "drawn ulid (update_source i f rg)"
proof -
  have ids: "map es_id (rg_sources (update_source i f rg)) = map es_id (rg_sources rg)"
    unfolding update_source_simps by (rule map_key_same) (rule assms(3))
  then show "registry_ok (update_source i f rg)"
    using assms(1,4) by (simp add: registry_ok_def del: update_source_simps(6))
  have "es_id ` set (rg_sources (update_source i f rg)) = es_id ` set (rg_sources rg)"
    using arg_cong[OF ids, of set] by (simp del: update_source_simps(6))
  then show "drawn ulid (update_source i f rg)" using assms(2) by (simp add: drawn_def del: update_source_simps(6))
qed

lemma update_source_keyless:
  assumes "registry_ok rg" "drawn ulid rg" "\<And>s. es_id (f s) = es_id s" "\<And>s. es_source_key (f s) = es_source_key s"
  shows "registry_ok (update_source i f rg)" "drawn ulid (update_source i f rg)"
proof -
  have "map es_source_key (rg_sources (update_source i f rg)) = map es_source_key (rg_sources rg)"
    unfolding update_source_simps by (rule map_key_same) (rule assms(4))
  then have "distinct (map es_source_key (rg_sources (update_source i f rg)))" using assms(1) by (simp only: registry_ok_def)
  then show "registry_ok (update_source i f rg)" "drawn ulid (update_source i f rg)"
    using update_source_ok[OF assms(1-3)] by blast+
qed

lemma filed_source_simps [simp]:
  "es_id (filed_source key kind url v g now s) = es_id s" "es_source_key (filed_source key kind url v g now s) = key"
  by (simp_all add: filed_source_def)

lemma append_source_ok:
  assumes "registry_ok rg" "drawn ulid rg" "inj ulid" "es_id s = ulid (rg_next rg)" "es_source_key s \<notin> es_source_key ` set (rg_sources rg)"
  shows "registry_ok (rg\<lparr>rg_sources := rg_sources rg @ [s], rg_next := rg_next rg + 1\<rparr>)"
    "drawn ulid (rg\<lparr>rg_sources := rg_sources rg @ [s], rg_next := rg_next rg + 1\<rparr>)"
proof -
  have "es_id s \<notin> es_id ` set (rg_sources rg)" using assms(2,4) by (simp add: drawn_def)
  then show "registry_ok (rg\<lparr>rg_sources := rg_sources rg @ [s], rg_next := rg_next rg + 1\<rparr>)"
    using assms(1,5) by (simp add: registry_ok_def)
  have "ulid k \<noteq> ulid (rg_next rg)" if "k \<ge> Suc (rg_next rg)" for k
    using assms(3) that by (metis inj_eq not_less_eq_eq order_refl)
  then show "drawn ulid (rg\<lparr>rg_sources := rg_sources rg @ [s], rg_next := rg_next rg + 1\<rparr>)"
    using assms(2,4) by (simp add: drawn_def)
qed

lemma upsert_source_ok:
  assumes "registry_ok rg" "drawn ulid rg" "inj ulid" "upsert_source ulid key kind url v g now rg = (i, rg1)"
  shows "registry_ok rg1" "drawn ulid rg1" "rg_evidence rg1 = rg_evidence rg" "rg_models rg1 = rg_models rg"
    "rg_adapters rg1 = rg_adapters rg" "rg_capabilities rg1 = rg_capabilities rg"
    "i \<in> es_id ` set (rg_sources rg1)"
proof -
  let ?file = "filed_source key kind url v g now"
  have ids: "distinct (map es_id (rg_sources rg))" and keys: "distinct (map es_source_key (rg_sources rg))"
    using assms(1) by (simp_all add: registry_ok_def)
  consider (old) s where "s \<in> set (rg_sources rg)" "es_source_key s = key \<or> key \<notin> es_source_key ` set (rg_sources rg)"
      "i = es_id s" "rg1 = update_source (es_id s) ?file rg"
    | (new) "key \<notin> es_source_key ` set (rg_sources rg)" "i = ulid (rg_next rg)"
      "rg1 = rg\<lparr>rg_sources := rg_sources rg @ [?file (new_source i key kind url now)], rg_next := rg_next rg + 1\<rparr>"
  proof (cases "find (\<lambda>s. es_source_key s = key) (rg_sources rg)")
    case (Some s)
    then show ?thesis using assms(4) old[of s] find_SomeD[OF Some] by (auto simp: upsert_source_def)
  next
    case None
    then have fresh: "key \<notin> es_source_key ` set (rg_sources rg)" by (auto simp: find_None_iff_ex)
    show ?thesis
      using assms(4) None fresh old new
      by (auto simp: upsert_source_def Let_def split: option.splits dest!: find_SomeD)
  qed
  note cases = this
  show "rg_evidence rg1 = rg_evidence rg" "rg_models rg1 = rg_models rg" "rg_adapters rg1 = rg_adapters rg"
    "rg_capabilities rg1 = rg_capabilities rg" by (cases rule: cases; simp)+
  show "registry_ok rg1" "drawn ulid rg1" "i \<in> es_id ` set (rg_sources rg1)"
  proof (atomize(full), cases rule: cases)
    case old
    have "distinct (map es_source_key (rg_sources rg1))"
    proof (cases "es_source_key s = key")
      case True
      have "x = s" if "x \<in> set (rg_sources rg)" "es_id x = es_id s" for x
        using ids that old(1) unfolding distinct_map inj_on_def by blast
      then have "es_source_key (if es_id x = es_id s then ?file x else x) = es_source_key x" if "x \<in> set (rg_sources rg)" for x
        using that True by auto
      then have "map es_source_key (rg_sources rg1) = map es_source_key (rg_sources rg)" by (simp add: old(4))
      then show ?thesis using keys by simp
    next
      case False
      then show ?thesis
        using distinct_upgrade[OF ids keys old(1), of ?file] old(2) by (simp add: old(4) del: map_map)
    qed
    then have "registry_ok rg1 \<and> drawn ulid rg1"
      using update_source_ok[OF assms(1,2), of ?file "es_id s"] unfolding old(4) by simp
    moreover have "map es_id (rg_sources rg1) = map es_id (rg_sources rg)"
      unfolding old(4) update_source_simps by (rule map_key_same) simp
    then have "es_id ` set (rg_sources rg1) = es_id ` set (rg_sources rg)" by (metis set_map)
    ultimately show "registry_ok rg1 \<and> drawn ulid rg1 \<and> i \<in> es_id ` set (rg_sources rg1)" using old(1,3) by simp
  next
    case new
    then show "registry_ok rg1 \<and> drawn ulid rg1 \<and> i \<in> es_id ` set (rg_sources rg1)"
      using append_source_ok[OF assms(1-3), of "?file (new_source i key kind url now)"] by (simp add: new_source_def)
  qed
qed

subsection \<open>After the loop: the badges\<close>

lemma badge_maps:
  "map evidence_key_of (clear_unreachable ph now src rows) = map evidence_key_of rows"
  "map ce_id (clear_unreachable ph now src rows) = map ce_id rows"
  "map evidence_key_of (supersede existing seen rows) = map evidence_key_of rows"
  "map ce_id (supersede existing seen rows) = map ce_id rows"
  by (simp_all add: clear_unreachable_def supersede_def refreshed_badge_def Let_def evidence_key_of_def)

definition settled_badge :: "(float64 \<Rightarrow> float64) \<Rightarrow> instant \<Rightarrow> string \<Rightarrow> bool \<Rightarrow> evidence_key set \<Rightarrow> evidence_key list \<Rightarrow> CapabilityEvidence \<Rightarrow> CapabilityEvidence" where
  "settled_badge ph now src full existing seen r =
     (let r1 = (if ce_source_id r = src \<and> ce_stale_reason r = Some ''source_unreachable'' then refreshed_badge ph now r else r)
      in if full \<and> omitted existing seen r1 then r1\<lparr>ce_stale := True, ce_stale_reason := Some ''superseded''\<rparr> else r1)"

lemma settled_rows:
  "(if full then supersede existing seen (clear_unreachable ph now src rows) else clear_unreachable ph now src rows) =
     map (settled_badge ph now src full existing seen) rows"
  by (simp add: supersede_def clear_unreachable_def settled_badge_def Let_def)

lemma settled_badge_key [simp]:
  "evidence_key_of (settled_badge ph now src full existing seen r) = evidence_key_of r"
  "ce_id (settled_badge ph now src full existing seen r) = ce_id r"
  "ce_source_id (settled_badge ph now src full existing seen r) = ce_source_id r"
  by (simp_all add: settled_badge_def Let_def refreshed_badge_def evidence_key_of_def)

lemma settled_badge_other:
  assumes "ce_source_id r \<noteq> src" "\<forall>k \<in> existing. fst k = src"
  shows "settled_badge ph now src full existing seen r = r"
proof -
  have "evidence_key_of r \<notin> existing" using assms fst_evidence_key[of r] by auto
  then show ?thesis using assms(1) by (simp add: settled_badge_def omitted_def)
qed

lemma refreshed_badge_key: "evidence_key_of (refreshed_badge ph now r) = evidence_key_of r"
  by (simp add: refreshed_badge_def Let_def evidence_key_of_def)

lemma settled_badge_reason:
  assumes "ce_source_id r = src"
  shows "ce_stale_reason (settled_badge ph now src full existing seen r) \<noteq> Some ''source_unreachable''"
    and "ce_stale_reason (settled_badge ph now src full existing seen r) = Some ''superseded'' \<longleftrightarrow>
      ce_stale_reason r = Some ''superseded'' \<or> full \<and> evidence_key_of r \<in> existing - set seen"
  using refreshed_badge_own[of ph now r] assms
  by (auto simp: settled_badge_def Let_def omitted_def own_badge_def refreshed_badge_key)

lemma rewritten_evidence_ok:
  assumes "map evidence_key_of rows = map evidence_key_of (rg_evidence rg)" "map ce_id rows = map ce_id (rg_evidence rg)"
  shows "registry_ok rg \<Longrightarrow> registry_ok (rg\<lparr>rg_evidence := rows\<rparr>)" "drawn ulid rg \<Longrightarrow> drawn ulid (rg\<lparr>rg_evidence := rows\<rparr>)"
proof -
  have "ce_id ` set rows = ce_id ` set (rg_evidence rg)" by (metis assms(2) set_map)
  then show "drawn ulid rg \<Longrightarrow> drawn ulid (rg\<lparr>rg_evidence := rows\<rparr>)" by (simp add: drawn_def)
qed (simp add: registry_ok_def assms)

subsection \<open>One import\<close>

lemma write_bundle_spec:
  assumes ok: "registry_ok rg" "drawn ulid rg" "inj ulid"
    and w: "write_bundle ph ulid env validated rejected key kind url full n v g now rg = (out, rg')"
    and n: "length validated + length rejected = n"
  defines "src \<equiv> io_source_row_id out"
  defines "carried \<equiv> (\<lambda>ir. uniqueness_key (snd ir) src) ` set validated"
  shows "registry_ok rg'" "drawn ulid rg'"
    and "int n = io_imported out + io_updated out + int (length (io_rejected out))"
    and "io_imported out + io_updated out = io_bound out + io_unmatched out + io_ambiguous out"
    and "int (length (rg_evidence rg')) = int (length (rg_evidence rg)) + io_imported out"
    and "ce_id ` set (rg_evidence rg) \<subseteq> ce_id ` set (rg_evidence rg')"
    and "\<forall>r \<in> set (rg_evidence rg). ce_source_id r \<noteq> src \<longrightarrow> r \<in> set (rg_evidence rg')"
    and "carried \<subseteq> evidence_key_of ` set (rg_evidence rg')"
    and "\<forall>r \<in> set (rg_evidence rg'). ce_source_id r = src \<longrightarrow> ce_stale_reason r \<noteq> Some ''source_unreachable'' \<and>
      (ce_stale_reason r = Some ''superseded'' \<longleftrightarrow> evidence_key_of r \<notin> carried \<and>
        (full \<or> (\<exists>r0 \<in> set (rg_evidence rg). ce_id r0 = ce_id r \<and> ce_stale_reason r0 = Some ''superseded'')))"
proof -
  obtain i rg1 where u: "upsert_source ulid key kind url v g now rg = (i, rg1)" by fastforce
  note s = upsert_source_ok[OF ok u]
  define existing where "existing = evidence_key_of ` {r \<in> set (rg_evidence rg1). ce_source_id r = i}"
  define st where "st = fold (import_record ph ulid env i (adapters_of rg1) existing now) validated
    \<lparr>im_rg = rg1, im_models = registry_of rg1, im_seen = [], im_rejected = rejected, im_imported = 0, im_updated = 0,
     im_unmatched = 0, im_ambiguous = 0, im_bound = 0, im_upgraded = 0\<rparr>"
  have inv: "import_inv ulid i rg1 st"
    unfolding st_def using s by (intro import_loop_inv[OF ok(3) existing_def]) (simp add: import_inv_def)
  have seen: "set (im_seen st) = (\<lambda>ir. uniqueness_key (snd ir) i) ` set validated"
    "length (im_seen st) + length (im_rejected st) = n"
    using import_loop_seen[of ph ulid env i "adapters_of rg1" existing now validated] n by (simp_all add: st_def)
  let ?done = "settled_badge ph now i full existing (im_seen st)"
  have out: "src = i" "io_imported out = im_imported st" "io_updated out = im_updated st" "io_bound out = im_bound st"
    "io_unmatched out = im_unmatched st" "io_ambiguous out = im_ambiguous st" "io_rejected out = im_rejected st"
    and rg': "rg' = update_source i (\<lambda>s. s\<lparr>es_record_count := im_imported st + im_updated st\<rparr>)
      ((im_rg st)\<lparr>rg_evidence := map ?done (rg_evidence (im_rg st))\<rparr>)"
    using w unfolding src_def write_bundle_def u prod.case Let_def existing_def[symmetric] st_def[symmetric] settled_rows
    by auto
  have carried: "carried = set (im_seen st)" by (simp add: carried_def out(1) seen(1))
  have ev: "rg_evidence rg' = map ?done (rg_evidence (im_rg st))" by (simp add: rg')
  have kept: "map evidence_key_of (map ?done (rg_evidence (im_rg st))) = map evidence_key_of (rg_evidence (im_rg st))"
    "map ce_id (map ?done (rg_evidence (im_rg st))) = map ce_id (rg_evidence (im_rg st))" by simp_all
  have "registry_ok (im_rg st)" "drawn ulid (im_rg st)" using inv by (simp_all add: import_inv_def)
  note mid = rewritten_evidence_ok(1)[OF kept this(1)] rewritten_evidence_ok(2)[OF kept this(2)]
  show "registry_ok rg'" "drawn ulid rg'" unfolding rg' by (intro update_source_keyless[OF mid]; simp)+
  show "int n = io_imported out + io_updated out + int (length (io_rejected out))"
    using inv seen(2) by (simp add: out import_inv_def)
  show "io_imported out + io_updated out = io_bound out + io_unmatched out + io_ambiguous out"
    using inv by (simp add: out import_inv_def)
  show "int (length (rg_evidence rg')) = int (length (rg_evidence rg)) + io_imported out"
    using inv s(3) by (simp add: ev out import_inv_def)
  show "ce_id ` set (rg_evidence rg) \<subseteq> ce_id ` set (rg_evidence rg')"
    using inv s(3) by (simp add: ev import_inv_def image_image)
  show "carried \<subseteq> evidence_key_of ` set (rg_evidence rg')"
    using inv by (auto simp: ev import_inv_def image_image carried)
  have existing: "\<forall>k \<in> existing. fst k = i" by (auto simp: existing_def)
  show "\<forall>r \<in> set (rg_evidence rg). ce_source_id r \<noteq> src \<longrightarrow> r \<in> set (rg_evidence rg')"
  proof (intro ballI impI)
    fix r assume r: "r \<in> set (rg_evidence rg)" "ce_source_id r \<noteq> src"
    have "evidence_key_of r \<notin> set (im_seen st)" using inv r(2) fst_evidence_key[of r] by (auto simp: import_inv_def out(1))
    then have "r \<in> set (rg_evidence (im_rg st))" using inv r(1) s(3) by (simp add: import_inv_def)
    moreover have "?done r = r" using r(2) existing by (intro settled_badge_other) (simp_all add: out(1))
    ultimately show "r \<in> set (rg_evidence rg')" unfolding ev set_map by (metis imageI)
  qed
  show "\<forall>r \<in> set (rg_evidence rg'). ce_source_id r = src \<longrightarrow> ce_stale_reason r \<noteq> Some ''source_unreachable'' \<and>
      (ce_stale_reason r = Some ''superseded'' \<longleftrightarrow> evidence_key_of r \<notin> carried \<and>
        (full \<or> (\<exists>r0 \<in> set (rg_evidence rg). ce_id r0 = ce_id r \<and> ce_stale_reason r0 = Some ''superseded'')))"
  proof (intro ballI impI)
    fix r' assume "r' \<in> set (rg_evidence rg')" and src': "ce_source_id r' = src"
    then obtain r where r: "r \<in> set (rg_evidence (im_rg st))" "r' = ?done r" by (auto simp: ev)
    have rs: "ce_source_id r = i" using src' by (simp add: r(2) out(1))
    have own: "ce_stale_reason r \<noteq> Some ''superseded''" if "evidence_key_of r \<in> set (im_seen st)"
      using inv r(1) that by (auto simp: import_inv_def own_badge_def)
    have old: "r \<in> set (rg_evidence rg)" if nk: "evidence_key_of r \<notin> set (im_seen st)"
    proof -
      have "evidence_key_of r \<in> evidence_key_of ` set (rg_evidence rg1)" using inv r(1) nk by (auto simp: import_inv_def)
      then obtain r0 where r0: "r0 \<in> set (rg_evidence rg1)" "evidence_key_of r0 = evidence_key_of r" by auto
      then have "r0 \<in> set (rg_evidence (im_rg st))" using inv nk by (simp add: import_inv_def)
      moreover have "inj_on evidence_key_of (set (rg_evidence (im_rg st)))"
        using inv by (simp add: import_inv_def registry_ok_def distinct_map)
      ultimately have "r0 = r" using r0(2) r(1) by (simp add: inj_on_def)
      then show ?thesis using r0(1) s(3) by simp
    qed
    have same: "r0 = r" if "r \<in> set (rg_evidence rg)" "r0 \<in> set (rg_evidence rg)" "ce_id r0 = ce_id r" for r0
      using that ok(1) unfolding registry_ok_def distinct_map inj_on_def by blast
    have "evidence_key_of r \<in> existing" if "evidence_key_of r \<notin> set (im_seen st)"
      using old[OF that] s(3) rs by (auto simp: existing_def)
    then show "ce_stale_reason r' \<noteq> Some ''source_unreachable'' \<and>
      (ce_stale_reason r' = Some ''superseded'' \<longleftrightarrow> evidence_key_of r' \<notin> carried \<and>
        (full \<or> (\<exists>r0 \<in> set (rg_evidence rg). ce_id r0 = ce_id r' \<and> ce_stale_reason r0 = Some ''superseded'')))"
      using settled_badge_reason[OF rs, of ph now full existing "im_seen st"] own old same
      by (auto simp: r(2) carried)
  qed
qed

text \<open>The records a document carries, once its envelope is accepted.\<close>

definition bundle_records :: "setspec_api \<Rightarrow> document \<Rightarrow> int list \<Rightarrow> json list" where
  "bundle_records api doc majors =
     (case load_envelope api doc majors of
        Inl _ \<Rightarrow> []
      | Inr env \<Rightarrow> (case obj_field (env_payload env) ''evidence'' of JList raws \<Rightarrow> raws | _ \<Rightarrow> []))"

lemma import_bundle_InrD:
  assumes "import_bundle api ph ulid caller doc majors kind url env now rg = Inr (out, rg')"
  obtains key full v g validated rejected where
    "validate_records api (enumerate 0 (bundle_records api doc majors)) = (validated, rejected)"
    "write_bundle ph ulid env validated rejected key kind url full (length (bundle_records api doc majors)) v g now rg = (out, rg')"
    "io_complete out = full" "io_total out = length (bundle_records api doc majors)"
proof -
  obtain en where n: "negotiate api doc majors = Inr en"
    using assms by (auto simp: import_bundle_def bind_result_Inr_iff split: sum.splits)
  then have load: "load_envelope api doc majors = Inr en"
    by (auto simp: negotiate_def Let_def split: if_splits sum.splits envelope_error.splits)
  obtain payload key full raws where p: "env_payload en = JObj payload" "json_get payload ''source_id'' = JStr key"
    "json_get payload ''complete'' = JBool full"
    "(case map_of payload ''evidence'' of None \<Rightarrow> JList [] | Some v \<Rightarrow> v) = JList raws"
    using assms n by (auto simp: import_bundle_def split: sum.splits json.splits if_splits)
  have raws: "bundle_records api doc majors = raws"
    using p(4) by (auto simp: bundle_records_def load p(1) json_get_def split: option.splits)
  obtain validated rejected where v: "validate_records api (enumerate 0 raws) = (validated, rejected)" by fastforce
  have w: "write_bundle ph ulid env validated rejected key kind url full (length raws) (env_schema_version en) (env_generated_at en) now rg = (out, rg')"
    using assms n p v by (simp add: import_bundle_def split: sum.splits if_splits)
  moreover from w have "io_complete out = full" "io_total out = length raws"
    by (auto simp: write_bundle_def Let_def split: prod.splits)
  ultimately show ?thesis using that[of validated rejected key full] v by (simp add: raws)
qed

text \<open>
  C16. An import accounts for every record of the bundle: each is imported, updated or rejected by
  name, and each stored record is bound, unmatched or ambiguous. The unique indexes of the
  registry survive it, the table grows by exactly the imported records, no row is deleted or
  loses its identifier, and the rows of other sources are left as they were.
\<close>

theorem import_accounts:
  assumes "import_bundle api ph ulid caller doc majors kind url env now rg = Inr (out, rg')"
    and "registry_ok rg" "drawn ulid rg" "inj ulid"
  shows "int (io_total out) = io_imported out + io_updated out + int (length (io_rejected out)) \<and>
    io_total out = length (bundle_records api doc majors) \<and>
    io_imported out + io_updated out = io_bound out + io_unmatched out + io_ambiguous out \<and>
    registry_ok rg' \<and> drawn ulid rg' \<and>
    int (length (rg_evidence rg')) = int (length (rg_evidence rg)) + io_imported out \<and>
    ce_id ` set (rg_evidence rg) \<subseteq> ce_id ` set (rg_evidence rg') \<and>
    (\<forall>r \<in> set (rg_evidence rg). ce_source_id r \<noteq> io_source_row_id out \<longrightarrow> r \<in> set (rg_evidence rg'))"
proof -
  from assms(1) obtain key full v g validated rejected where
    val: "validate_records api (enumerate 0 (bundle_records api doc majors)) = (validated, rejected)" and
    w: "write_bundle ph ulid env validated rejected key kind url full (length (bundle_records api doc majors)) v g now rg = (out, rg')" and
    t: "io_total out = length (bundle_records api doc majors)" by (rule import_bundle_InrD)
  have n: "length validated + length rejected = length (bundle_records api doc majors)"
    using validate_records_spec(1)[of api "enumerate 0 (bundle_records api doc majors)"] by (simp add: val)
  note spec = write_bundle_spec[OF assms(2-4) w n]
  show ?thesis unfolding t by (intro conjI spec(3) refl spec(4) spec(1,2,5,6,7))
qed

text \<open>
  C29. The badges after an import: no row of the source is badged as unreachable any more; a row of
  the source is superseded exactly if no valid record of the bundle carried its key and either the
  bundle was complete or the row was superseded before. A record that fails validation therefore
  counts as omitted: a complete bundle supersedes the row it would have updated.
\<close>

theorem complete_bundle_supersedes:
  assumes "import_bundle api ph ulid caller doc majors kind url env now rg = Inr (out, rg')"
    and "registry_ok rg" "drawn ulid rg" "inj ulid"
    and "r \<in> set (rg_evidence rg')" "ce_source_id r = io_source_row_id out"
  shows "ce_stale_reason r \<noteq> Some ''source_unreachable'' \<and>
    (ce_stale_reason r = Some ''superseded'' \<longleftrightarrow>
      (\<forall>raw \<in> set (bundle_records api doc majors). \<forall>rec. validate_record api raw = Inr rec \<longrightarrow>
         evidence_key_of r \<noteq> uniqueness_key rec (io_source_row_id out)) \<and>
      (io_complete out \<or> (\<exists>r0 \<in> set (rg_evidence rg). ce_id r0 = ce_id r \<and> ce_stale_reason r0 = Some ''superseded'')))"
proof -
  let ?raws = "bundle_records api doc majors"
  from assms(1) obtain key full v g validated rejected where
    val: "validate_records api (enumerate 0 ?raws) = (validated, rejected)" and
    w: "write_bundle ph ulid env validated rejected key kind url full (length ?raws) v g now rg = (out, rg')" and
    c: "io_complete out = full" by (rule import_bundle_InrD)
  have n: "length validated + length rejected = length ?raws"
    using validate_records_spec(1)[of api "enumerate 0 ?raws"] by (simp add: val)
  have "snd ` set (enumerate 0 ?raws) = set ?raws" by (metis map_snd_enumerate set_map)
  then have "rec \<in> snd ` set validated \<longleftrightarrow> (\<exists>raw \<in> set ?raws. validate_record api raw = Inr rec)" for rec
    using validate_records_spec(2)[of rec api "enumerate 0 ?raws"] by (simp add: val)
  then have recs: "snd ` set validated = {rec. \<exists>raw \<in> set ?raws. validate_record api raw = Inr rec}" by blast
  have "(\<lambda>ir. uniqueness_key (snd ir) (io_source_row_id out)) ` set validated =
      (\<lambda>rec. uniqueness_key rec (io_source_row_id out)) ` snd ` set validated" by (simp add: image_image)
  then have "evidence_key_of r \<notin> (\<lambda>ir. uniqueness_key (snd ir) (io_source_row_id out)) ` set validated \<longleftrightarrow>
      (\<forall>raw \<in> set ?raws. \<forall>rec. validate_record api raw = Inr rec \<longrightarrow> evidence_key_of r \<noteq> uniqueness_key rec (io_source_row_id out))"
    unfolding recs by auto
  then show ?thesis using write_bundle_spec(9)[OF assms(2-4) w n] assms(5,6) c by auto
qed

subsection \<open>Signals\<close>

lemma map_of_traverse:
  assumes "traverse (\<lambda>(k, v). bind_result (f v) (\<lambda>w. Inr (k, w))) d = Inr d'"
  shows "rel_option (\<lambda>v w. f v = Inr w) (map_of d k) (map_of d' k)"
  using assms
proof (induction d arbitrary: d')
  case (Cons x xs)
  then show ?case by (auto simp: bind_result_Inr_iff split: prod.splits)
qed auto

definition describes :: "instant \<Rightarrow> CapabilityEvidence \<Rightarrow> CapabilitySignal \<Rightarrow> bool" where
  "describes now r s \<longleftrightarrow> sig_source s = ''benchmark'' \<and> sig_capability_id s = ce_capability_id r \<and> sig_score s = ce_score r \<and>
     sig_confidence s = ce_confidence r \<and> sig_runtime_profile_hash s = Some (ce_runtime_profile_hash r) \<and>
     sig_machine_fingerprint s = Some (ce_machine_fingerprint r) \<and> sig_measured_at s = Some (ce_measured_at r) \<and>
     sig_sample_count s = Some (ce_sample_count r) \<and> sig_age_days s = Some (age_days_at now (ce_measured_at r)) \<and>
     sig_stale s = ce_stale r \<and> sig_stale_reason s = ce_stale_reason r"

lemma benchmark_signal_describes:
  assumes "distinct (map ce_id rows)" "r \<in> set rows"
  shows "describes now r (benchmark_signal rows now (candidate_of cv r))"
proof -
  have "find (\<lambda>x. ce_id x = ce_id r) rows = Some r"
    using row_of_unique[OF assms] by (simp add: row_of_def)
  then show ?thesis by (simp add: describes_def benchmark_signal_def candidate_of_def Let_def)
qed

definition own_rows :: "(string, float64) dict \<Rightarrow> string \<Rightarrow> string \<Rightarrow> Registry \<Rightarrow> CapabilityEvidence set" where
  "own_rows weights m a rg = {r \<in> set (rg_evidence rg). ce_match_state r = ''bound'' \<and> ce_model_id r = Some m \<and>
     (case ce_adapter_id r of None \<Rightarrow> [] | Some x \<Rightarrow> x) = a \<and> weights_admit (ce_capability_id r) weights}"

text \<open>
  C17. A subject is scored on its own evidence. The signals read for a model and an adapter (or the
  bare base) each describe one stored row that is bound to that model and that adapter and whose
  capability the profile admits, with that row's own numbers and badge; there is one signal for
  each capability and runtime profile the subject was measured at, and a subject without such a
  row has no entry.
\<close>

theorem signals_of_own_subject:
  assumes "bound_signals_for_routing cv weights now machine rg = Inr sigs" "registry_ok rg"
  shows "(case map_of sigs (m, a) of
     None \<Rightarrow> own_rows weights m a rg = {}
   | Some ss \<Rightarrow> own_rows weights m a rg \<noteq> {} \<and> (\<forall>s \<in> set ss. \<exists>r \<in> own_rows weights m a rg. describes now r s) \<and>
       distinct (map (\<lambda>s. (sig_capability_id s, sig_runtime_profile_hash s)) ss) \<and>
       (\<lambda>s. (sig_capability_id s, sig_runtime_profile_hash s)) ` set ss =
         (\<lambda>r. (ce_capability_id r, Some (ce_runtime_profile_hash r))) ` own_rows weights m a rg)"
proof -
  define mine where "mine = own_rows weights m a rg"
  define rows where "rows = filter (scores_for weights) (rg_evidence rg)"
  have ids: "distinct (map ce_id rows)" using assms(2) by (simp add: rows_def registry_ok_def distinct_map_filter)
  let ?g = "filter (\<lambda>r. evidence_subject r = (m, a)) rows"
  have mine: "set ?g = mine" by (auto simp: mine_def own_rows_def rows_def scores_for_def evidence_subject_def)
  have ne: "(\<exists>r \<in> set rows. evidence_subject r = (m, a)) \<longleftrightarrow> mine \<noteq> {}" unfolding mine[symmetric] by auto
  let ?f = "\<lambda>v. bind_result (collapse_evidence (map (candidate_of cv) v) machine) (\<lambda>sel. Inr (map (benchmark_signal rows now) sel))"
  have "bind_result (collapse_evidence (map (candidate_of cv) v) machine) (\<lambda>sel. Inr (k, map (benchmark_signal rows now) sel)) =
      bind_result (?f v) (\<lambda>w. Inr (k, w))" for k :: "string \<times> string" and v
    by (cases "collapse_evidence (map (candidate_of cv) v) machine") simp_all
  then have "traverse (\<lambda>(k, v). bind_result (?f v) (\<lambda>w. Inr (k, w))) (group_by evidence_subject rows) = Inr sigs"
    using assms(1) by (simp add: bound_signals_for_routing_def rows_def Let_def)
  from map_of_traverse[OF this, of "(m, a)"]
  have rel: "rel_option (\<lambda>v w. ?f v = Inr w) (if mine \<noteq> {} then Some ?g else None) (map_of sigs (m, a))"
    unfolding map_of_group_by ne .
  show ?thesis
  proof (cases "mine = {}")
    case True
    then show ?thesis using rel by (simp add: mine_def)
  next
    case False
    then obtain ss where ss: "map_of sigs (m, a) = Some ss" "?f ?g = Inr ss" using rel by (auto simp: option_rel_Some1)
    then obtain sel where sel: "collapse_evidence (map (candidate_of cv) ?g) machine = Inr sel"
      "ss = map (benchmark_signal rows now) sel" by (auto simp: bind_result_Inr_iff)
    have pick: "set sel \<subseteq> candidate_of cv ` mine" "evidence_group ` set sel = evidence_group ` candidate_of cv ` mine"
      "distinct (map evidence_group sel)"
      using collapse_selects[OF sel(1)] mine by simp_all
    have d: "\<exists>r \<in> mine. describes now r (benchmark_signal rows now c)" if "c \<in> set sel" for c
      using that pick(1) benchmark_signal_describes[OF ids] mine by (metis (no_types, lifting) filter_is_subset imageE subsetD)
    have key: "(sig_capability_id (benchmark_signal rows now c), sig_runtime_profile_hash (benchmark_signal rows now c)) =
        (fst (evidence_group c), Some (snd (evidence_group c)))" for c
      by (simp add: benchmark_signal_def evidence_group_def Let_def)
    have "distinct (map (\<lambda>s. (sig_capability_id s, sig_runtime_profile_hash s)) ss)"
      using pick(3) by (simp add: sel(2) comp_def key distinct_map inj_on_def prod_eq_iff)
    moreover have "(\<lambda>s. (sig_capability_id s, sig_runtime_profile_hash s)) ` set ss =
        (\<lambda>g. (fst g, Some (snd g))) ` evidence_group ` set sel"
      by (simp add: sel(2) image_image key)
    moreover have "\<dots> = (\<lambda>r. (ce_capability_id r, Some (ce_runtime_profile_hash r))) ` mine"
      unfolding pick(2) by (simp add: image_image evidence_group_def candidate_of_def)
    ultimately show ?thesis using False ss(1) d unfolding mine_def[symmetric] by (simp add: sel(2))
  qed
qed

subsection \<open>Re-binding settles\<close>

definition rebound :: "LocalModel list \<Rightarrow> LocalAdapter list \<Rightarrow> CapabilityEvidence \<Rightarrow> CapabilityEvidence" where
  "rebound models adapters r = bound_row (bind_identity (row_identity r) models adapters) r"

lemma rebound_row:
  "(let b = bind_identity (row_identity r) models adapters in
    if ce_match_state r \<noteq> bi_match_state b \<or> ce_model_id r \<noteq> bi_model_id b \<or> ce_adapter_id r \<noteq> bi_adapter_id b
    then bound_row b r else r) = rebound models adapters r"
  by (simp add: rebound_def bound_row_def Let_def)

lemma row_identity_rebound [simp]:
  "row_identity (rebound models adapters r) = row_identity r" "ce_canonical_id (rebound models adapters r) = ce_canonical_id r"
  "evidence_key_of (rebound models adapters r) = evidence_key_of r" "ce_id (rebound models adapters r) = ce_id r"
  "rebound models adapters (rebound models' adapters r) = rebound models adapters r"
  by (simp_all add: rebound_def bound_row_def row_identity_def adapter_name_of_def evidence_key_of_def)

definition unidentified :: "Registry \<Rightarrow> nat" where
  "unidentified rg = length (filter (\<lambda>m. mr_artifact_digest m = None) (rg_models rg))"

lemma unidentified_upgrade: "upgrade_model b c rg = Some rg' \<Longrightarrow> unidentified rg' < unidentified rg"
proof (erule upgrade_model_SomeD)
  fix i digest m
  assume m: "m \<in> set (rg_models rg)" "mr_id m = i" "mr_artifact_digest m = None"
    and rg': "rg' = rg\<lparr>rg_models := map (\<lambda>m. if mr_id m = i then upgraded_row digest c m else m) (rg_models rg)\<rparr>"
  let ?f = "\<lambda>m. if mr_id m = i then upgraded_row digest c m else m"
  have "length (filter (\<lambda>m. mr_artifact_digest m = None) (map ?f ms)) \<le> length (filter (\<lambda>m. mr_artifact_digest m = None) ms)" for ms
    by (induction ms) (auto simp: upgraded_row_def)
  moreover obtain xs ys where "rg_models rg = xs @ m # ys" using m(1) by (meson split_list)
  ultimately show "unidentified rg' < unidentified rg"
    using m(2,3) by (simp add: unidentified_def rg' upgraded_row_def le_imp_less_Suc add_mono)
qed

lemma rebind_row_cases:
  "upgrade_model (bind_identity (row_identity r) (rs_models st) ads) (ce_canonical_id r) (rs_rg st) = None \<Longrightarrow>
     rs_rg (rebind_row ads r st) = rs_rg st \<and> rs_models (rebind_row ads r st) = rs_models st \<and> rs_upgraded (rebind_row ads r st) = rs_upgraded st"
  "upgrade_model (bind_identity (row_identity r) (rs_models st) ads) (ce_canonical_id r) (rs_rg st) = Some g \<Longrightarrow>
     rs_rg (rebind_row ads r st) = g \<and> rs_models (rebind_row ads r st) = registry_of g \<and> rs_upgraded (rebind_row ads r st) = rs_upgraded st + 1"
  "rs_done (rebind_row ads r st) = rs_done st @ [rebound (rs_models st) ads r]"
  using rebound_row[of r "rs_models st" ads] by (auto simp: rebind_row_def Let_def)

lemma rebind_fold_measure:
  "rs_upgraded st \<le> rs_upgraded (fold (rebind_row ads) rows st) \<and>
   int (unidentified (rs_rg (fold (rebind_row ads) rows st))) + rs_upgraded (fold (rebind_row ads) rows st) \<le>
     int (unidentified (rs_rg st)) + rs_upgraded st"
proof (induction rows arbitrary: st)
  case (Cons r rows)
  let ?st = "rebind_row ads r st"
  have "rs_upgraded st \<le> rs_upgraded ?st \<and> int (unidentified (rs_rg ?st)) + rs_upgraded ?st \<le> int (unidentified (rs_rg st)) + rs_upgraded st"
    by (cases "upgrade_model (bind_identity (row_identity r) (rs_models st) ads) (ce_canonical_id r) (rs_rg st)")
      (use rebind_row_cases(1,2)[of r st ads] unidentified_upgrade in fastforce)+
  then show ?case using Cons.IH[of ?st] by simp
qed simp

lemma rebind_fold_quiet:
  assumes "rs_upgraded (fold (rebind_row ads) rows st) = rs_upgraded st"
  shows "rs_rg (fold (rebind_row ads) rows st) = rs_rg st"
    and "rs_done (fold (rebind_row ads) rows st) = rs_done st @ map (rebound (rs_models st) ads) rows"
    and "\<forall>r \<in> set rows. upgrade_model (bind_identity (row_identity r) (rs_models st) ads) (ce_canonical_id r) (rs_rg st) = None"
  using assms
proof (atomize(full), induction rows arbitrary: st)
  case (Cons r rows)
  let ?st = "rebind_row ads r st"
  have "rs_upgraded ?st \<le> rs_upgraded (fold (rebind_row ads) rows ?st)" using rebind_fold_measure by blast
  then have none: "upgrade_model (bind_identity (row_identity r) (rs_models st) ads) (ce_canonical_id r) (rs_rg st) = None"
    using Cons.prems rebind_row_cases(2)[of r st ads] by (cases "upgrade_model (bind_identity (row_identity r) (rs_models st) ads) (ce_canonical_id r) (rs_rg st)") auto
  then show ?case using Cons.IH[of ?st] Cons.prems rebind_row_cases(1)[of r st ads] rebind_row_cases(3)[of ads r st] by simp
qed simp

definition nothing_rebound :: "nat \<Rightarrow> RebindOutcome" where
  "nothing_rebound n = \<lparr>rb_bound = 0, rb_unbound = 0, rb_upgraded_models = 0, rb_examined = n\<rparr>"

lemma rebind_fixed:
  assumes "\<forall>r \<in> set rows. rebound (rs_models st) ads r = r \<and>
      upgrade_model (bind_identity (row_identity r) (rs_models st) ads) (ce_canonical_id r) (rs_rg st) = None"
  shows "fold (rebind_row ads) rows st = st\<lparr>rs_done := rs_done st @ rows\<rparr>"
  using assms
proof (induction rows arbitrary: st)
  case (Cons r rows)
  have e: "rebound (rs_models st) ads r = r" using Cons.prems by simp
  have "ce_match_state r = bi_match_state (bind_identity (row_identity r) (rs_models st) ads)"
    "ce_model_id r = bi_model_id (bind_identity (row_identity r) (rs_models st) ads)"
    "ce_adapter_id r = bi_adapter_id (bind_identity (row_identity r) (rs_models st) ads)"
    using arg_cong[OF e, of ce_match_state] arg_cong[OF e, of ce_model_id] arg_cong[OF e, of ce_adapter_id]
    by (simp_all add: rebound_def bound_row_def)
  then have "rebind_row ads r st = st\<lparr>rs_done := rs_done st @ [r]\<rparr>" using Cons.prems by (simp add: rebind_row_def Let_def)
  then show ?case using Cons by simp
qed simp

lemma rebind_settles:
  assumes "rebind_evidence_in rg = (out, rg')" "rb_upgraded_models out = 0"
  shows "rg' = rg\<lparr>rg_evidence := map (rebound (registry_of rg) (adapters_of rg)) (rg_evidence rg)\<rparr>"
    and "rebind_evidence_in rg' = (nothing_rebound (length (rg_evidence rg)), rg')"
proof -
  let ?st = "\<lparr>rs_rg = rg, rs_models = registry_of rg, rs_done = [], rs_bound = 0, rs_unbound = 0, rs_upgraded = 0\<rparr>"
  have l: "rebind_loop rg = fold (rebind_row (adapters_of rg)) (rg_evidence rg) ?st" by (simp add: rebind_loop_def)
  have z: "rs_upgraded (fold (rebind_row (adapters_of rg)) (rg_evidence rg) ?st) = rs_upgraded ?st"
    using assms by (auto simp: rebind_evidence_in_def Let_def l)
  note q = rebind_fold_quiet[OF z]
  show rg': "rg' = rg\<lparr>rg_evidence := map (rebound (registry_of rg) (adapters_of rg)) (rg_evidence rg)\<rparr>"
    using assms(1) q(1,2) by (auto simp: rebind_evidence_in_def Let_def l)
  have same: "registry_of rg' = registry_of rg" "adapters_of rg' = adapters_of rg" "upgrade_model b c rg' = None \<longleftrightarrow> upgrade_model b c rg = None" for b c
    by (auto simp: rg' registry_of_def adapters_of_def upgrade_model_def split: option.splits)
  have ev: "rg_evidence rg' = map (rebound (registry_of rg) (adapters_of rg)) (rg_evidence rg)" by (simp add: rg')
  have "rebind_loop rg' = \<lparr>rs_rg = rg', rs_models = registry_of rg', rs_done = rg_evidence rg', rs_bound = 0, rs_unbound = 0, rs_upgraded = 0\<rparr>"
    unfolding rebind_loop_def same(1,2)
    by (subst rebind_fixed) (use q(3) in \<open>auto simp: same(3) ev\<close>)
  then show "rebind_evidence_in rg' = (nothing_rebound (length (rg_evidence rg)), rg')"
    by (simp add: rebind_evidence_in_def Let_def nothing_rebound_def) (simp add: rg')
qed

text \<open>
  C32. Re-binding reaches a fixed point. A pass that gives no model a digest sets every row to the
  binding of its identity, and the pass after it changes nothing; each pass that does give one
  leaves fewer models without a digest, so the store is settled after at most one pass more than
  there are models known by name only.
\<close>

theorem rebind_converges:
  "\<exists>k \<le> Suc (unidentified rg). \<exists>n.
     rebind_evidence_in (((snd \<circ> rebind_evidence_in) ^^ k) rg) = (nothing_rebound n, ((snd \<circ> rebind_evidence_in) ^^ k) rg)"
proof (induction "unidentified rg" arbitrary: rg rule: less_induct)
  case less
  obtain out rg' where r: "rebind_evidence_in rg = (out, rg')" by fastforce
  show ?case
  proof (cases "rb_upgraded_models out = 0")
    case True
    then show ?thesis using rebind_settles(2)[OF r] r by (intro exI[of _ 1]) auto
  next
    case False
    have "0 \<le> rb_upgraded_models out \<and> int (unidentified rg') + rb_upgraded_models out \<le> int (unidentified rg)"
      using r rebind_fold_measure[of "\<lparr>rs_rg = rg, rs_models = registry_of rg, rs_done = [], rs_bound = 0, rs_unbound = 0, rs_upgraded = 0\<rparr>"
          "adapters_of rg" "rg_evidence rg"]
      by (auto simp: rebind_evidence_in_def Let_def rebind_loop_def unidentified_def)
    then have lt: "unidentified rg' < unidentified rg" using False by linarith
    from less[OF this] obtain k n where k: "k \<le> Suc (unidentified rg')"
      "rebind_evidence_in (((snd \<circ> rebind_evidence_in) ^^ k) rg') = (nothing_rebound n, ((snd \<circ> rebind_evidence_in) ^^ k) rg')" by blast
    have "((snd \<circ> rebind_evidence_in) ^^ Suc k) rg = ((snd \<circ> rebind_evidence_in) ^^ k) rg'"
      using r by (simp add: funpow_swap1)
    then show ?thesis using k lt by (intro exI[of _ "Suc k"]) auto
  qed
qed

subsection \<open>Samples\<close>

definition named_model :: "string \<Rightarrow> string option \<Rightarrow> ModelRow" where
  "named_model i digest = \<lparr>mr_id = i, mr_provider_kind = ''ollama'', mr_provider_model_name = ''m'', mr_artifact_digest = digest,
     mr_canonical_id = ''ollama/m'', mr_identity_confidence = ''name_only'', mr_provider_name = ''box'', mr_is_remote = False,
     mr_descriptor_json = JNull, mr_max_context = Some 8192, mr_size_bytes = None, mr_quantization = None, mr_family = None,
     mr_parameter_count = None, mr_first_seen_at = 0, mr_last_seen_at = 0, mr_available = True, mr_unavailable_reason = None,
     mr_enabled = True\<rparr>"

definition sample_evidence :: "string \<Rightarrow> string option \<Rightarrow> CapabilityEvidence" where
  "sample_evidence i digest = \<lparr>ce_id = i, ce_model_id = None, ce_adapter_id = None, ce_adapter_artifact_digest = [],
     ce_provider_kind = ''ollama'', ce_provider_model_name = ''m'', ce_artifact_digest = digest, ce_canonical_id = ''ollama/'' @ i,
     ce_match_state = ''unmatched'', ce_runtime_profile_hash = ''p'', ce_machine_fingerprint = ''here'', ce_capability_id = ''coding'',
     ce_score = 1, ce_confidence = 1, ce_sample_count = 1, ce_excluded_count = 0, ce_dispersion = None,
     ce_dispersion_unavailable_reason = None, ce_benchmark_versions_json = JNull, ce_dataset_hashes_json = JNull,
     ce_prompt_subset_hashes_json = JNull, ce_contributing_metrics_json = JNull, ce_source_run_ids_json = JNull,
     ce_identity_confidence = ''digest'', ce_environment_snapshot_json = JNull, ce_goal_json = JNull, ce_measured_at = 0,
     ce_computed_at = 0, ce_imported_at = 0, ce_source_id = ''s'', ce_policy_version = ''1.0.0'', ce_vocabulary_version = ''1.1'',
     ce_stale = False, ce_stale_reason = None, ce_record_json = JNull\<rparr>"

definition sample_registry :: "CapabilityEvidence list \<Rightarrow> Registry" where
  "sample_registry rows = \<lparr>rg_models = [named_model ''1'' None], rg_capabilities = [], rg_adapters = [], rg_sources = [],
     rg_evidence = rows, rg_next = 0\<rparr>"

text \<open>
  One pass is not enough where a record with a digest follows one without: the record known by
  name only is bound to the model in the pass that then gives the model its digest, and stays
  bound, and scored, until the next pass finds it ambiguous. In the other order of the same two
  rows the first pass already calls it ambiguous.
\<close>

theorem binding_depends_on_row_order:
  "let by_name = sample_evidence ''n'' None; by_digest = sample_evidence ''d'' (Some ''sha'');
       first = snd (rebind_evidence_in (sample_registry [by_name, by_digest]));
       other = snd (rebind_evidence_in (sample_registry [by_digest, by_name]))
   in map ce_match_state (rg_evidence first) = [''bound'', ''bound''] \<and>
      rb_unbound (fst (rebind_evidence_in first)) = 1 \<and>
      map ce_match_state (rg_evidence (snd (rebind_evidence_in first))) = [''ambiguous_name_only'', ''bound''] \<and>
      map ce_match_state (rg_evidence other) = [''bound'', ''ambiguous_name_only'']"
  by code_simp

definition sample_record :: EvidenceRecord where
  "sample_record = \<lparr>er_model = \<lparr>rm_provider_kind = ''ollama'', rm_provider_model_name = ''m'', rm_artifact_digest = Some ''sha'',
       rm_canonical_id = ''ollama/d'', rm_identity_confidence = ''digest''\<rparr>, er_adapter = None, er_runtime_profile_hash = ''p'',
     er_machine_fingerprint = ''here'', er_capability_id = ''coding'', er_policy_version = ''1.0.0'', er_vocabulary_version = ''1.1'',
     er_score = 1, er_confidence = 1, er_sample_count = 1, er_excluded_count = 0, er_dispersion = None, er_contributing_metrics = [],
     er_source_run_ids = [], er_measured_at = 0, er_computed_at = 0, er_dump = []\<rparr>"

text \<open>SetSpec on two records, the second of which it refuses.\<close>

definition sample_setspec :: setspec_api where
  "sample_setspec = \<lparr>max_payload_bytes = 100,
     load_envelope = (\<lambda>_ _. Inr \<lparr>env_payload = JObj [(''source_id'', JStr ''fw''), (''complete'', JBool True),
       (''evidence'', JList [JInt 1, JInt 2])], env_schema_version = ''1.1'', env_generated_at = None\<rparr>),
     validate_record = (\<lambda>raw. if raw = JInt 1 then Inr sample_record else Inl [''score''])\<rparr>"

definition unary_ulid :: "nat \<Rightarrow> string" where "unary_ulid k = replicate k (CHR ''u'')"

lemma inj_unary_ulid: "inj unary_ulid"
  by (metis injI length_replicate unary_ulid_def)

lemma unary_ulid_neq [simp]: "x \<noteq> CHR ''u'' \<Longrightarrow> unary_ulid k \<noteq> x # xs"
  by (cases k) (auto simp: unary_ulid_def)

definition fw_source :: EvidenceSource where
  "fw_source = (new_source ''s'' ''fw'' ''file'' None 0)"

definition known_registry :: Registry where
  "known_registry = (sample_registry [sample_evidence ''x'' None])\<lparr>rg_sources := [fw_source]\<rparr>"

lemma known_registry_ok: "registry_ok known_registry" "drawn unary_ulid known_registry"
  by (simp_all add: known_registry_def sample_registry_def registry_ok_def drawn_def sample_evidence_def
      named_model_def fw_source_def new_source_def)

lemma known_import: "\<exists>out rg'. import_bundle sample_setspec (\<lambda>_. 1) unary_ulid None (Raw []) [1] ''file'' None None 5 known_registry = Inr (out, rg')"
  by (simp add: import_bundle_def authorize_def SCOPES_def negotiate_def sample_setspec_def json_get_def split: prod.splits)

theorem import_accounts_witness:
  "\<exists>out rg'. import_bundle sample_setspec (\<lambda>_. 1) unary_ulid None (Raw []) [1] ''file'' None None 5 known_registry = Inr (out, rg') \<and>
     io_imported out + io_updated out + int (length (io_rejected out)) = 2"
proof -
  from known_import obtain out rg' where
    i: "import_bundle sample_setspec (\<lambda>_. 1) unary_ulid None (Raw []) [1] ''file'' None None 5 known_registry = Inr (out, rg')" by blast
  from import_accounts[OF i known_registry_ok inj_unary_ulid] have
    "int (io_total out) = io_imported out + io_updated out + int (length (io_rejected out))"
    "io_total out = length (bundle_records sample_setspec (Raw []) [1])" by blast+
  then show ?thesis using i by (auto simp: bundle_records_def sample_setspec_def json_get_def)
qed

lemma known_import_rows:
  "(case import_bundle sample_setspec (\<lambda>_. 1) unary_ulid None (Raw []) [1] ''file'' None None 5 known_registry of
      Inl _ \<Rightarrow> False
    | Inr (out, rg') \<Rightarrow> io_source_row_id out = ''s'' \<and> io_complete out \<and>
        map (\<lambda>r. (ce_id r, ce_source_id r, ce_canonical_id r)) (rg_evidence rg') = [(''x'', ''s'', ''ollama/x''), ([], ''s'', ''ollama/d'')])"
  by code_simp

theorem complete_bundle_supersedes_witness:
  "\<exists>out rg' r. import_bundle sample_setspec (\<lambda>_. 1) unary_ulid None (Raw []) [1] ''file'' None None 5 known_registry = Inr (out, rg') \<and>
     r \<in> set (rg_evidence rg') \<and> ce_id r = ''x'' \<and> ce_stale_reason r = Some ''superseded''"
proof -
  from known_import obtain out rg' where
    i: "import_bundle sample_setspec (\<lambda>_. 1) unary_ulid None (Raw []) [1] ''file'' None None 5 known_registry = Inr (out, rg')" by blast
  with known_import_rows have src: "io_source_row_id out = ''s''" "io_complete out" and
    rows: "map (\<lambda>r. (ce_id r, ce_source_id r, ce_canonical_id r)) (rg_evidence rg') = [(''x'', ''s'', ''ollama/x''), ([], ''s'', ''ollama/d'')]"
    by simp_all
  from arg_cong[OF rows, of set] have "(''x'', ''s'', ''ollama/x'') \<in> (\<lambda>r. (ce_id r, ce_source_id r, ce_canonical_id r)) ` set (rg_evidence rg')"
    by simp
  then obtain r where r: "r \<in> set (rg_evidence rg')" "ce_id r = ''x''" "ce_source_id r = ''s''" "ce_canonical_id r = ''ollama/x''" by auto
  have "\<forall>raw \<in> set (bundle_records sample_setspec (Raw []) [1]). \<forall>rec. validate_record sample_setspec raw = Inr rec \<longrightarrow>
      evidence_key_of r \<noteq> uniqueness_key rec (io_source_row_id out)"
    using r(4) by (simp add: bundle_records_def sample_setspec_def json_get_def evidence_key_of_def uniqueness_key_def sample_record_def)
  then have "ce_stale_reason r = Some ''superseded''"
    using complete_bundle_supersedes[OF i known_registry_ok inj_unary_ulid r(1)] r(3) src by simp
  then show ?thesis using i r by blast
qed

definition plain_reading :: evidence_conversions where
  "plain_reading = \<lparr>from_iso = (\<lambda>_. None), float_of = (\<lambda>_. None), int_of = (\<lambda>_. None), str_of = (\<lambda>_. [])\<rparr>"

definition bound_registry :: Registry where
  "bound_registry = sample_registry [bound_row (bind_identity (row_identity (sample_evidence ''d'' None))
     (registry_of (sample_registry [])) []) (sample_evidence ''d'' None)]"

theorem signals_of_own_subject_witness:
  "\<exists>sigs ss. bound_signals_for_routing plain_reading [(''coding'', 1)] 5 None bound_registry = Inr sigs \<and>
     map_of sigs (''1'', []) = Some ss \<and> distinct (map (\<lambda>s. (sig_capability_id s, sig_runtime_profile_hash s)) ss) \<and>
     map_of sigs (''2'', []) = None"
proof -
  have ok: "registry_ok bound_registry"
    by (simp add: bound_registry_def sample_registry_def registry_ok_def)
  have "case bound_signals_for_routing plain_reading [(''coding'', 1)] 5 None bound_registry of
      Inl _ \<Rightarrow> False | Inr sigs \<Rightarrow> map fst sigs = [(''1'', [])]" by code_simp
  then obtain sigs where s: "bound_signals_for_routing plain_reading [(''coding'', 1)] 5 None bound_registry = Inr sigs"
    "map fst sigs = [(''1'', [])]" by (auto split: sum.splits)
  then obtain ss where ss: "map_of sigs (''1'', []) = Some ss" "map_of sigs (''2'', []) = None" by auto
  then show ?thesis using signals_of_own_subject[OF s(1) ok, of "''1''" "[]"] s(1) by auto
qed

end
