(* ===== verification/Registry.thy ===== *)
theory Registry
  imports Evidence_Correctness
begin

section \<open>Discovery of models and adapters\<close>

text \<open>
  Models \<^verbatim>\<open>src/src/loadcoach/services/models.py\<close> and \<^verbatim>\<open>src/src/loadcoach/services/adapters.py\<close>: a
  discovery pass over the registered providers, the operator's switch, the import of manual
  scores, the projection of the adapter directory and the reads of the registry. What a provider
  lists and what the directory and the TOML file hold are arguments. A pass is one transaction
  and ends by re-binding the evidence. The summaries of the models page join other tables and are
  not modelled.
\<close>

subsection \<open>Models\<close>

record ProviderRegistration =
  pr_name :: string
  pr_kind :: string
  pr_is_remote :: bool
  pr_listing :: "string + ModelDescriptor list"

record DiscoveryOutcome =
  do_added :: nat
  do_updated :: nat
  do_unavailable :: nat
  do_total :: nat
  do_checked_at :: instant
  do_unreachable :: "string list"

definition descriptor_identity :: "ModelDescriptor \<Rightarrow> string \<times> string \<times> string option" where
  "descriptor_identity d = (md_provider_kind d, md_provider_model_name d, md_artifact_digest d)"

definition identity_row :: "string \<times> string \<times> string option \<Rightarrow> Registry \<Rightarrow> ModelRow option" where
  "identity_row i rg = row_of model_identity i (rg_models rg)"

definition sighted_row :: "ModelDescriptor \<Rightarrow> instant \<Rightarrow> string \<Rightarrow> bool \<Rightarrow> ModelRow \<Rightarrow> ModelRow" where
  "sighted_row d now registration remote m =
     m\<lparr>mr_descriptor_json := JObj (descriptor_geometry d), mr_artifact_digest := md_artifact_digest d,
       mr_canonical_id := md_canonical_id d, mr_identity_confidence := md_identity_confidence d,
       mr_provider_name := registration, mr_is_remote := remote, mr_max_context := md_max_context d,
       mr_size_bytes := md_size_bytes d, mr_quantization := md_quantization d, mr_family := md_family d,
       mr_parameter_count := md_parameter_count d, mr_last_seen_at := now, mr_available := True, mr_unavailable_reason := None\<rparr>"

definition new_model :: "string \<Rightarrow> ModelDescriptor \<Rightarrow> instant \<Rightarrow> string \<Rightarrow> bool \<Rightarrow> ModelRow" where
  "new_model i d now registration remote =
     \<lparr>mr_id = i, mr_provider_kind = md_provider_kind d, mr_provider_model_name = md_provider_model_name d,
      mr_artifact_digest = md_artifact_digest d, mr_canonical_id = md_canonical_id d,
      mr_identity_confidence = md_identity_confidence d, mr_provider_name = registration, mr_is_remote = remote,
      mr_descriptor_json = JObj (descriptor_geometry d), mr_max_context = md_max_context d, mr_size_bytes = md_size_bytes d,
      mr_quantization = md_quantization d, mr_family = md_family d, mr_parameter_count = md_parameter_count d,
      mr_first_seen_at = now, mr_last_seen_at = now, mr_available = True, mr_unavailable_reason = None, mr_enabled = True\<rparr>"

text \<open>The row with this identity, else for a digest the row known by name only, else a new row.\<close>

definition upsert_model :: "(nat \<Rightarrow> string) \<Rightarrow> ModelDescriptor \<Rightarrow> instant \<Rightarrow> string \<Rightarrow> bool \<Rightarrow> Registry \<Rightarrow> string \<times> Registry" where
  "upsert_model ulid d now registration remote rg =
     (let exact = identity_row (descriptor_identity d) rg;
          existing = (if exact = None \<and> md_artifact_digest d \<noteq> None
            then identity_row (md_provider_kind d, md_provider_model_name d, None) rg else exact)
      in (case existing of
            None \<Rightarrow> (let i = ulid (rg_next rg) in
              (i, rg\<lparr>rg_models := rg_models rg @ [new_model i d now registration remote], rg_next := rg_next rg + 1\<rparr>))
          | Some m \<Rightarrow> (mr_id m, rg\<lparr>rg_models := map (\<lambda>x. if mr_id x = mr_id m then sighted_row d now registration remote x else x)
              (rg_models rg)\<rparr>)))"

definition overwrite_capability :: "ModelCapability \<Rightarrow> ModelCapability \<Rightarrow> ModelCapability" where
  "overwrite_capability old new = new"

definition sync_declared_capabilities :: "(ModelCapabilityFlag \<Rightarrow> string) \<Rightarrow> string \<Rightarrow> ModelDescriptor \<Rightarrow> instant \<Rightarrow> Registry \<Rightarrow> Registry" where
  "sync_declared_capabilities flag_value i d now rg =
     rg\<lparr>rg_capabilities := fold (\<lambda>c. upsert capability_key_of overwrite_capability
         \<lparr>mc_model_id = i, mc_capability_id = dc_capability_id c, mc_score = Some (dc_score c), mc_confidence = dc_confidence c,
          mc_source = ''declared'', mc_updated_at = now\<rparr>) (declared_capabilities_for flag_value d) (rg_capabilities rg)\<rparr>"

record discovery_state =
  ds_rg :: Registry
  ds_seen :: "string list"
  ds_added :: nat
  ds_updated :: nat

definition sight :: "(nat \<Rightarrow> string) \<Rightarrow> (ModelCapabilityFlag \<Rightarrow> string) \<Rightarrow> instant \<Rightarrow> ProviderRegistration \<times> ModelDescriptor \<Rightarrow> discovery_state \<Rightarrow> discovery_state" where
  "sight ulid flag_value now rd st =
     (case rd of (registration, d) \<Rightarrow>
       (let is_new = (identity_row (descriptor_identity d) (ds_rg st) = None) in
        (case upsert_model ulid d now (pr_name registration) (pr_is_remote registration) (ds_rg st) of (i, rg) \<Rightarrow>
          \<lparr>ds_rg = sync_declared_capabilities flag_value i d now rg, ds_seen = ds_seen st @ [md_canonical_id d],
           ds_added = ds_added st + (if is_new then 1 else 0), ds_updated = ds_updated st + (if is_new then 0 else 1)\<rparr>)))"

definition retired_row :: "string set \<Rightarrow> string set \<Rightarrow> string set \<Rightarrow> ModelRow \<Rightarrow> ModelRow" where
  "retired_row disabled seen answered_kinds m =
     (if \<not> mr_available m then m
      else if mr_provider_name m \<in> disabled then m\<lparr>mr_available := False, mr_unavailable_reason := Some ''provider_disabled''\<rparr>
      else if mr_canonical_id m \<in> seen then m
      else if mr_provider_kind m \<notin> answered_kinds then m
      else m\<lparr>mr_available := False,
             mr_unavailable_reason := Some (''not reported by the provider'' @ [char_of (39 :: nat)] @ ''s most recent discovery'')\<rparr>)"

definition listed_models :: "ProviderRegistration list \<Rightarrow> (ProviderRegistration \<times> ModelDescriptor) list" where
  "listed_models registrations =
     concat (map (\<lambda>p. case pr_listing p of Inl _ \<Rightarrow> [] | Inr ds \<Rightarrow> map (Pair p) ds) registrations)"

definition discover_models :: "(nat \<Rightarrow> string) \<Rightarrow> (ModelCapabilityFlag \<Rightarrow> string) \<Rightarrow> Principal option \<Rightarrow> ProviderRegistration list \<Rightarrow> string list \<Rightarrow>
    instant \<Rightarrow> Registry \<Rightarrow> registry_error + (DiscoveryOutcome \<times> Registry)" where
  "discover_models ulid flag_value caller registrations disabled_names now rg =
     (case authorize caller ''admin'' of
        Inl e \<Rightarrow> Inl (RegistryNotAuthorized e)
      | Inr _ \<Rightarrow>
          (let answered = filter (\<lambda>p. \<not> isl (pr_listing p)) registrations;
               failed = filter (\<lambda>p. isl (pr_listing p)) registrations
           in if answered = [] \<and> failed \<noteq> [] then Inl (ProviderError (projl (pr_listing (hd failed))))
              else
                (let st = fold (sight ulid flag_value now) (listed_models registrations)
                       \<lparr>ds_rg = rg, ds_seen = [], ds_added = 0, ds_updated = 0\<rparr>;
                     retire = retired_row (set disabled_names) (set (ds_seen st)) (pr_kind ` set answered);
                     rg1 = (ds_rg st)\<lparr>rg_models := map retire (rg_models (ds_rg st))\<rparr>
                 in Inr (\<lparr>do_added = ds_added st, do_updated = ds_updated st,
                          do_unavailable = length (filter (\<lambda>m. mr_available m \<and> \<not> mr_available (retire m)) (rg_models (ds_rg st))),
                          do_total = length (listed_models registrations), do_checked_at = now, do_unreachable = map pr_name failed\<rparr>,
                        snd (rebind_evidence_in rg1)))))"

text \<open>Only a provider's failure is swallowed; there is no principal behind the call.\<close>

definition try_discover_models :: "(nat \<Rightarrow> string) \<Rightarrow> (ModelCapabilityFlag \<Rightarrow> string) \<Rightarrow> ProviderRegistration list \<Rightarrow> string list \<Rightarrow>
    instant \<Rightarrow> Registry \<Rightarrow> registry_error + (DiscoveryOutcome option \<times> Registry)" where
  "try_discover_models ulid flag_value registrations disabled_names now rg =
     (case discover_models ulid flag_value None registrations disabled_names now rg of
        Inl (ProviderError _) \<Rightarrow> Inr (None, rg)
      | Inl e \<Rightarrow> Inl e
      | Inr (out, rg') \<Rightarrow> Inr (Some out, rg'))"

definition set_model_enabled :: "Principal option \<Rightarrow> string \<Rightarrow> bool \<Rightarrow> Registry \<Rightarrow> registry_error + Registry" where
  "set_model_enabled caller i on rg =
     (case authorize caller ''admin'' of
        Inl e \<Rightarrow> Inl (RegistryNotAuthorized e)
      | Inr _ \<Rightarrow>
          (case row_of mr_id i (rg_models rg) of
             None \<Rightarrow> Inl (ModelNotFound i)
           | Some _ \<Rightarrow> Inr (rg\<lparr>rg_models := map (\<lambda>m. if mr_id m = i then m\<lparr>mr_enabled := on\<rparr> else m) (rg_models rg)\<rparr>)))"

record RegistryEntry =
  re_row :: ModelRow
  re_declared_capabilities :: "(string, float64) dict"

definition list_registry :: "Registry \<Rightarrow> RegistryEntry list" where
  "list_registry rg =
     map (\<lambda>m. \<lparr>re_row = m, re_declared_capabilities = List.map_filter (\<lambda>c. map_option (Pair (mc_capability_id c)) (mc_score c))
         (filter (\<lambda>c. mc_model_id c = mr_id m \<and> mc_source c = ''declared'') (rg_capabilities rg))\<rparr>)
       (sort_key (\<lambda>m. - mr_last_seen_at m) (rg_models rg))"

text \<open>
  \<open>entries\<close> is the array \<open>scores\<close> of the file, \<open>None\<close> when there is no file. Every
  entry is validated before the transaction opens.
\<close>

definition manual_row :: "instant \<Rightarrow> string \<Rightarrow> ManualCapabilityScore \<Rightarrow> ModelCapability" where
  "manual_row now i e = \<lparr>mc_model_id = i, mc_capability_id = ms_capability_id e, mc_score = Some (ms_score e),
     mc_confidence = ms_confidence e, mc_source = ''manual'', mc_updated_at = now\<rparr>"

definition import_manual :: "instant \<Rightarrow> ManualCapabilityScore \<Rightarrow> nat \<times> Registry \<Rightarrow> nat \<times> Registry" where
  "import_manual now e st =
     (case st of (n, rg) \<Rightarrow>
       (case row_of mr_canonical_id (ms_canonical_id e) (rg_models rg) of
          None \<Rightarrow> (n, rg)
        | Some m \<Rightarrow> (n + 1, rg\<lparr>rg_capabilities := upsert capability_key_of overwrite_capability (manual_row now (mr_id m) e) (rg_capabilities rg)\<rparr>)))"

definition import_manual_capability_scores :: "(string \<Rightarrow> bool) \<Rightarrow> string \<Rightarrow> (string \<times> json) list list option \<Rightarrow> instant \<Rightarrow> Registry \<Rightarrow>
    registry_error + (nat \<times> Registry)" where
  "import_manual_capability_scores is_known file entries now rg =
     (case entries of
        None \<Rightarrow> Inr (0, rg)
      | Some es \<Rightarrow>
          bind_result (traverse (\<lambda>(index, raw). validate_manual_score is_known file index raw) (enumerate 0 es)) (\<lambda>validated.
            Inr (fold (import_manual now) validated (0, rg))))"

subsection \<open>Adapters\<close>

text \<open>One reviewed manifest of the directory, its artifact hashed (\<^verbatim>\<open>infrastructure/adapters/directory.py\<close>).\<close>

record AdapterEntry =
  ae_name :: string
  ae_artifact_sha256 :: string
  ae_source_sha256 :: "string option"
  ae_artifact_path :: string
  ae_manifest_path :: string
  ae_base_model_name :: string
  ae_base_artifact_digest :: "string option"
  ae_base_confidence :: string
  ae_declared_capabilities :: "string list"
  ae_data_classification :: string
  ae_payload :: json
  ae_available :: bool
  ae_unavailable_reason :: "string option"

definition adapter_row :: "string \<Rightarrow> instant \<Rightarrow> AdapterEntry \<Rightarrow> AdapterRow" where
  "adapter_row i now e =
     \<lparr>ar_id = i, ar_name = ae_name e, ar_artifact_sha256 = ae_artifact_sha256 e, ar_source_sha256 = ae_source_sha256 e,
      ar_artifact_path = ae_artifact_path e, ar_manifest_path = ae_manifest_path e, ar_base_model_name = ae_base_model_name e,
      ar_base_artifact_digest = ae_base_artifact_digest e, ar_base_identity_confidence = ae_base_confidence e,
      ar_declared_capabilities = ae_declared_capabilities e, ar_data_classification = ae_data_classification e,
      ar_adapter_format = ''gguf'', ar_manifest_json = ae_payload e, ar_created_at = now, ar_first_seen_at = now,
      ar_last_seen_at = now, ar_available = ae_available e, ar_unavailable_reason = ae_unavailable_reason e\<rparr>"

definition overwrite_adapter :: "AdapterRow \<Rightarrow> AdapterRow \<Rightarrow> AdapterRow" where
  "overwrite_adapter old new =
     new\<lparr>ar_id := ar_id old, ar_created_at := ar_created_at old, ar_first_seen_at := ar_first_seen_at old\<rparr>"

definition store_adapter :: "(nat \<Rightarrow> string) \<Rightarrow> instant \<Rightarrow> AdapterEntry \<Rightarrow> Registry \<Rightarrow> Registry" where
  "store_adapter ulid now e rg =
     rg\<lparr>rg_adapters := upsert ar_artifact_sha256 overwrite_adapter (adapter_row (ulid (rg_next rg)) now e) (rg_adapters rg),
        rg_next := rg_next rg + 1\<rparr>"

definition departed_row :: "string set \<Rightarrow> AdapterRow \<Rightarrow> AdapterRow" where
  "departed_row seen r =
     (if ar_artifact_sha256 r \<notin> seen \<and> ar_available r
      then r\<lparr>ar_available := False, ar_unavailable_reason := Some (''no reviewed manifest in the configured directory names this artifact any '' @
        ''more; the row is kept because stored decisions name it'')\<rparr>
      else r)"

definition sync_adapters :: "(nat \<Rightarrow> string) \<Rightarrow> AdapterEntry list option \<Rightarrow> instant \<Rightarrow> Registry \<Rightarrow> nat \<times> Registry" where
  "sync_adapters ulid directory now rg =
     (case directory of
        None \<Rightarrow> (0, rg)
      | Some entries \<Rightarrow>
          (let rg1 = fold (store_adapter ulid now) entries rg;
               rg2 = rg1\<lparr>rg_adapters := map (departed_row (ae_artifact_sha256 ` set entries)) (rg_adapters rg1)\<rparr>
           in (length entries, snd (rebind_evidence_in rg2))))"

definition facts_of_adapter :: "AdapterRow \<Rightarrow> AdapterFacts" where
  "facts_of_adapter r = \<lparr>adapter_id = ar_id r, adapter_name = ar_name r, adapter_artifact_digest = ar_artifact_sha256 r,
     base_model_name = ar_base_model_name r, base_artifact_digest = ar_base_artifact_digest r,
     base_confidence = ar_base_identity_confidence r, declared_capabilities = ar_declared_capabilities r,
     data_classification = ar_data_classification r\<rparr>"

definition adapter_facts_by_base_name :: "Registry \<Rightarrow> (string, AdapterFacts list) dict" where
  "adapter_facts_by_base_name rg =
     map (\<lambda>(base, rows). (base, map facts_of_adapter rows))
       (group_by ar_base_model_name (sort_key ar_name (filter ar_available (rg_adapters rg))))"

interpretation capability_table: upsert_table capability_key_of overwrite_capability
  by unfold_locales (simp_all add: overwrite_capability_def)

interpretation adapter_table: upsert_table ar_artifact_sha256 overwrite_adapter
  by unfold_locales (simp_all add: overwrite_adapter_def)

subsection \<open>What no pass ever loses\<close>

text \<open>
  A model row lives for ever: it keeps its primary key, its provider kind and name, the instant it
  was first seen and the operator's switch, and a digest once known is never forgotten. A
  preorder on the states of the registry, so it composes over the steps of a pass.
\<close>

definition keeps_row :: "ModelRow \<Rightarrow> ModelRow \<Rightarrow> bool" where
  "keeps_row m m' \<longleftrightarrow> mr_id m' = mr_id m \<and> mr_provider_kind m' = mr_provider_kind m \<and>
     mr_provider_model_name m' = mr_provider_model_name m \<and> mr_enabled m' = mr_enabled m \<and>
     mr_first_seen_at m' = mr_first_seen_at m \<and> (mr_artifact_digest m \<noteq> None \<longrightarrow> mr_artifact_digest m' = mr_artifact_digest m)"

definition keeps_models :: "Registry \<Rightarrow> Registry \<Rightarrow> bool" where
  "keeps_models rg rg' \<longleftrightarrow> (\<forall>m \<in> set (rg_models rg). \<exists>m' \<in> set (rg_models rg'). keeps_row m m')"

lemma keeps_refl: "keeps_row m m" "keeps_models rg rg"
  by (auto simp: keeps_row_def keeps_models_def)

lemma keeps_trans: "keeps_row a b \<Longrightarrow> keeps_row b c \<Longrightarrow> keeps_row a c"
    "keeps_models x y \<Longrightarrow> keeps_models y z \<Longrightarrow> keeps_models x z"
  unfolding keeps_models_def keeps_row_def by (auto, metis)

lemma keeps_map: "rg_models rg' = map f (rg_models rg) \<Longrightarrow> (\<And>m. m \<in> set (rg_models rg) \<Longrightarrow> keeps_row m (f m)) \<Longrightarrow> keeps_models rg rg'"
  by (auto simp: keeps_models_def)

text \<open>The indexes and the primary keys together.\<close>

definition sound :: "(nat \<Rightarrow> string) \<Rightarrow> Registry \<Rightarrow> bool" where
  "sound ulid rg \<longleftrightarrow> registry_ok rg \<and> drawn ulid rg"

lemma identity_rowD: "identity_row i rg = Some m \<Longrightarrow> m \<in> set (rg_models rg) \<and> model_identity m = i"
  by (auto simp: identity_row_def dest: row_of_Some)

lemma identity_row_None: "identity_row i rg = None \<longleftrightarrow> i \<notin> model_identity ` set (rg_models rg)"
  by (simp add: identity_row_def row_of_None)

lemma same_id:
  assumes "sound ulid rg" "x \<in> set (rg_models rg)" "m \<in> set (rg_models rg)" "mr_id x = mr_id m"
  shows "x = m"
proof -
  have "inj_on mr_id (set (rg_models rg))" using assms(1) by (simp add: sound_def registry_ok_def distinct_map)
  then show ?thesis using assms(2-4) by (metis inj_onD)
qed

lemma rewritten_models_sound:
  assumes "sound ulid rg" "map mr_id ms = map mr_id (rg_models rg)" "distinct (map model_identity ms)"
  shows "sound ulid (rg\<lparr>rg_models := ms\<rparr>)"
proof -
  have "mr_id ` set ms = mr_id ` set (rg_models rg)" using assms(2) by (metis set_map)
  then show ?thesis using assms by (simp add: sound_def registry_ok_def drawn_def)
qed

lemma upsert_model_cases:
  assumes "upsert_model ulid d now registration remote rg = (i, rg')"
  obtains (old) m where "m \<in> set (rg_models rg)" "i = mr_id m" "mr_provider_kind m = md_provider_kind d"
      "mr_provider_model_name m = md_provider_model_name d"
      "mr_artifact_digest m = md_artifact_digest d \<or> mr_artifact_digest m = None \<and> identity_row (descriptor_identity d) rg = None"
      "rg' = rg\<lparr>rg_models := map (\<lambda>x. if mr_id x = i then sighted_row d now registration remote x else x) (rg_models rg)\<rparr>"
  | (new) "identity_row (descriptor_identity d) rg = None" "i = ulid (rg_next rg)"
      "rg' = rg\<lparr>rg_models := rg_models rg @ [new_model i d now registration remote], rg_next := rg_next rg + 1\<rparr>"
proof (cases "identity_row (descriptor_identity d) rg")
  case (Some m)
  then show ?thesis using assms old[of m] identity_rowD[OF Some]
    by (auto simp: upsert_model_def model_identity_def descriptor_identity_def)
next
  case None
  let ?e = "if md_artifact_digest d \<noteq> None then identity_row (md_provider_kind d, md_provider_model_name d, None) rg else None"
  show ?thesis
  proof (cases ?e)
    case None': None
    then show ?thesis using assms new None by (simp add: upsert_model_def Let_def split: if_splits)
  next
    case (Some m)
    then have "identity_row (md_provider_kind d, md_provider_model_name d, None) rg = Some m" by (simp split: if_splits)
    note m = identity_rowD[OF this]
    show ?thesis using assms old[of m] None Some m
      by (auto simp: upsert_model_def Let_def model_identity_def split: if_splits)
  qed
qed

definition sighting :: "string \<Rightarrow> ModelDescriptor \<Rightarrow> string \<Rightarrow> ModelRow \<Rightarrow> bool" where
  "sighting i d registration m \<longleftrightarrow> mr_id m = i \<and> model_identity m = descriptor_identity d \<and> mr_available m \<and>
     mr_provider_name m = registration \<and> mr_canonical_id m = md_canonical_id d"

lemma upsert_model_spec:
  assumes "sound ulid rg" "inj ulid" "upsert_model ulid d now registration remote rg = (i, rg')"
  shows "sound ulid rg' \<and> keeps_models rg rg' \<and> rg_evidence rg' = rg_evidence rg \<and> rg_adapters rg' = rg_adapters rg \<and>
    (\<exists>m \<in> set (rg_models rg'). sighting i d registration m) \<and>
    (\<forall>m \<in> set (rg_models rg). m \<in> set (rg_models rg') \<or>
       mr_provider_kind m = md_provider_kind d \<and> mr_provider_model_name m = md_provider_model_name d)"
  using assms(3)
proof (cases rule: upsert_model_cases)
  case (old m)
  have only: "x = m" if "x \<in> set (rg_models rg)" "mr_id x = i" for x using same_id[OF assms(1) that(1) old(1)] that(2) old(2) by simp
  let ?f = "\<lambda>x. if mr_id x = i then sighted_row d now registration remote x else x"
  have id: "model_identity (sighted_row d now registration remote m) = descriptor_identity d"
    using old(3,4) by (simp add: model_identity_def sighted_row_def descriptor_identity_def)
  have ids: "map mr_id (rg_models rg') = map mr_id (rg_models rg)" by (simp add: old(6) sighted_row_def)
  have "distinct (map model_identity (rg_models rg'))"
  proof (cases "mr_artifact_digest m = md_artifact_digest d")
    case True
    then have "model_identity (?f x) = model_identity x" if "x \<in> set (rg_models rg)" for x
      using only[OF that] id old(3,4) by (auto simp: model_identity_def descriptor_identity_def)
    then have "map model_identity (rg_models rg') = map model_identity (rg_models rg)" by (simp add: old(6))
    then show ?thesis using assms(1) by (simp add: sound_def registry_ok_def)
  next
    case False
    then have "descriptor_identity d \<notin> model_identity ` set (rg_models rg)" using old(5) identity_row_None by blast
    then show ?thesis
      using distinct_upgrade[of mr_id "rg_models rg" model_identity m "sighted_row d now registration remote"] assms(1) old(1,2,6) id
      by (simp add: sound_def registry_ok_def)
  qed
  then have snd: "sound ulid rg'" using rewritten_models_sound[OF assms(1) ids] by (simp add: old(6))
  have keep: "keeps_models rg rg'"
    using old(5) only by (intro keeps_map[of rg' ?f]) (auto simp: old(6) keeps_row_def sighted_row_def)
  have "sighted_row d now registration remote m \<in> set (rg_models rg')" using old(1,2,6) by force
  then have here: "\<exists>m \<in> set (rg_models rg'). sighting i d registration m"
    using id old(2) by (intro bexI[of _ "sighted_row d now registration remote m"]) (simp_all add: sighted_row_def sighting_def)
  have "\<forall>x \<in> set (rg_models rg). x \<in> set (rg_models rg') \<or>
      mr_provider_kind x = md_provider_kind d \<and> mr_provider_model_name x = md_provider_model_name d"
    using only old(3,4,6) by force
  then show ?thesis
    using snd keep here by (simp add: old(6))
next
  case new
  let ?m = "new_model i d now registration remote"
  have "i \<notin> mr_id ` set (rg_models rg)" using assms(1) new(2) by (simp add: sound_def drawn_def)
  moreover have "model_identity ?m \<notin> model_identity ` set (rg_models rg)"
    using new(1) unfolding identity_row_None by (simp add: model_identity_def new_model_def descriptor_identity_def)
  moreover have "ulid k \<noteq> ulid (rg_next rg)" if "k \<ge> Suc (rg_next rg)" for k
    using assms(2) that by (metis inj_eq not_less_eq_eq order_refl)
  ultimately have "sound ulid rg'"
    using assms(1) by (simp add: sound_def registry_ok_def drawn_def new(3)) (simp add: new(2) new_model_def)
  then show ?thesis
    using keeps_refl(1) by (auto simp: new(3) keeps_models_def new_model_def model_identity_def descriptor_identity_def sighting_def)
qed

lemma sync_declared_spec:
  "rg_models (sync_declared_capabilities fv i d now rg) = rg_models rg"
  "rg_evidence (sync_declared_capabilities fv i d now rg) = rg_evidence rg"
  "rg_adapters (sync_declared_capabilities fv i d now rg) = rg_adapters rg"
  "sound ulid rg \<Longrightarrow> sound ulid (sync_declared_capabilities fv i d now rg)"
proof -
  have "distinct (map capability_key_of (fold (\<lambda>c. upsert capability_key_of overwrite_capability (f c)) cs rows))"
    if "distinct (map capability_key_of rows)" for f and cs :: "DeclaredCapability list" and rows
    using that by (induction cs arbitrary: rows) (simp_all add: capability_table.distinct_upsert)
  then show "sound ulid rg \<Longrightarrow> sound ulid (sync_declared_capabilities fv i d now rg)"
    by (simp add: sound_def registry_ok_def drawn_def sync_declared_capabilities_def)
qed (simp_all add: sync_declared_capabilities_def)

subsection \<open>Re-binding touches identities only\<close>

definition same_sighting :: "ModelRow \<Rightarrow> ModelRow \<Rightarrow> bool" where
  "same_sighting m m' \<longleftrightarrow> keeps_row m m' \<and> mr_available m' = mr_available m \<and> mr_provider_name m' = mr_provider_name m"

lemma upgrade_same_sighting:
  assumes "upgrade_model b c rg = Some rg'" "sound ulid rg"
  shows "list_all2 same_sighting (rg_models rg) (rg_models rg')"
  using assms(1)
proof (rule upgrade_model_SomeD)
  fix i digest m
  assume m: "m \<in> set (rg_models rg)" "mr_id m = i" "mr_artifact_digest m = None"
    and rg': "rg' = rg\<lparr>rg_models := map (\<lambda>m. if mr_id m = i then upgraded_row digest c m else m) (rg_models rg)\<rparr>"
  have "same_sighting x (if mr_id x = i then upgraded_row digest c x else x)" if "x \<in> set (rg_models rg)" for x
    using same_id[OF assms(2) that m(1)] m by (auto simp: same_sighting_def keeps_row_def upgraded_row_def)
  then show "list_all2 same_sighting (rg_models rg) (rg_models rg')" by (simp add: rg' list_all2_conv_all_nth)
qed

lemma same_sighting_trans: "list_all2 same_sighting xs ys \<Longrightarrow> list_all2 same_sighting ys zs \<Longrightarrow> list_all2 same_sighting xs zs"
  by (rule list_all2_trans[where ?P1.0 = same_sighting and ?P2.0 = same_sighting])
    (auto simp: same_sighting_def intro: keeps_trans(1))

definition rebind_inv :: "(nat \<Rightarrow> string) \<Rightarrow> Registry \<Rightarrow> rebind_state \<Rightarrow> bool" where
  "rebind_inv ulid rg st \<longleftrightarrow> sound ulid (rs_rg st) \<and> rs_models st = registry_of (rs_rg st) \<and>
     list_all2 same_sighting (rg_models rg) (rg_models (rs_rg st)) \<and> rg_evidence (rs_rg st) = rg_evidence rg \<and>
     rg_adapters (rs_rg st) = rg_adapters rg"

lemma rebind_row_inv: "rebind_inv ulid rg st \<Longrightarrow> rebind_inv ulid rg (rebind_row ads r st)"
proof (cases "upgrade_model (bind_identity (row_identity r) (rs_models st) ads) (ce_canonical_id r) (rs_rg st)")
  case None
  then show "rebind_inv ulid rg st \<Longrightarrow> ?thesis" using rebind_row_cases(1)[OF None] by (simp add: rebind_inv_def)
next
  case (Some g)
  assume inv: "rebind_inv ulid rg st"
  have s: "sound ulid (rs_rg st)" "rs_models st = registry_of (rs_rg st)" using inv by (simp_all add: rebind_inv_def)
  have up: "upgrade_model (bind_identity (row_identity r) (registry_of (rs_rg st)) ads) (ce_canonical_id r) (rs_rg st) = Some g"
    using Some s(2) by simp
  have "registry_ok g" using upgrade_ok[OF _ up] s(1) by (simp add: sound_def)
  moreover have "mr_id ` set (rg_models g) = mr_id ` set (rg_models (rs_rg st))" using upgrade_keeps(6)[OF up] by (metis set_map)
  ultimately have "sound ulid g" using s(1) upgrade_keeps[OF up] by (simp add: sound_def drawn_def)
  moreover have "list_all2 same_sighting (rg_models rg) (rg_models g)"
    using inv upgrade_same_sighting[OF up s(1)] same_sighting_trans by (auto simp: rebind_inv_def)
  ultimately show ?thesis
    using rebind_row_cases(2)[OF Some] inv upgrade_keeps[OF up] by (simp add: rebind_inv_def)
qed

lemma rebind_done: "map ce_id (rs_done (fold (rebind_row ads) rows st)) = map ce_id (rs_done st) @ map ce_id rows"
    "map evidence_key_of (rs_done (fold (rebind_row ads) rows st)) = map evidence_key_of (rs_done st) @ map evidence_key_of rows"
  by (induction rows arbitrary: st) (simp_all add: rebind_row_cases(3))

lemma rebind_spec:
  assumes "sound ulid rg"
  defines "rg' \<equiv> snd (rebind_evidence_in rg)"
  shows "sound ulid rg'" "list_all2 same_sighting (rg_models rg) (rg_models rg')"
    "map ce_id (rg_evidence rg') = map ce_id (rg_evidence rg)" "map evidence_key_of (rg_evidence rg') = map evidence_key_of (rg_evidence rg)"
    "rg_adapters rg' = rg_adapters rg"
proof -
  let ?st = "\<lparr>rs_rg = rg, rs_models = registry_of rg, rs_done = [], rs_bound = 0, rs_unbound = 0, rs_upgraded = 0\<rparr>"
  have "list_all2 same_sighting ms ms" for ms by (simp add: list_all2_refl same_sighting_def keeps_refl)
  then have "rebind_inv ulid rg ?st" using assms(1) by (simp add: rebind_inv_def)
  then have inv: "rebind_inv ulid rg (rebind_loop rg)"
    unfolding rebind_loop_def
    by (rule fold_invariant[where P = "rebind_inv ulid rg" and Q = "\<lambda>_. True", rotated]) (simp_all add: rebind_row_inv)
  have rg': "rg' = (rs_rg (rebind_loop rg))\<lparr>rg_evidence := rs_done (rebind_loop rg)\<rparr>"
    by (simp add: rg'_def rebind_evidence_in_def Let_def)
  have d: "map ce_id (rs_done (rebind_loop rg)) = map ce_id (rg_evidence rg)"
    "map evidence_key_of (rs_done (rebind_loop rg)) = map evidence_key_of (rg_evidence rg)"
    by (simp_all add: rebind_loop_def rebind_done)
  have e: "rg_evidence (rs_rg (rebind_loop rg)) = rg_evidence rg" using inv by (simp add: rebind_inv_def)
  show "sound ulid rg'"
    using rewritten_evidence_ok[of "rs_done (rebind_loop rg)" "rs_rg (rebind_loop rg)"] inv d e by (simp add: rg' sound_def rebind_inv_def)
  show "list_all2 same_sighting (rg_models rg) (rg_models rg')" "rg_adapters rg' = rg_adapters rg" using inv by (simp_all add: rg' rebind_inv_def)
  show "map ce_id (rg_evidence rg') = map ce_id (rg_evidence rg)" "map evidence_key_of (rg_evidence rg') = map evidence_key_of (rg_evidence rg)"
    using d by (simp_all add: rg')
qed

subsection \<open>A discovery pass\<close>

definition discovery_inv :: "(nat \<Rightarrow> string) \<Rightarrow> Registry \<Rightarrow> (ProviderRegistration \<times> ModelDescriptor) list \<Rightarrow> discovery_state \<Rightarrow> bool" where
  "discovery_inv ulid rg pds st \<longleftrightarrow> sound ulid (ds_rg st) \<and> keeps_models rg (ds_rg st) \<and>
     rg_evidence (ds_rg st) = rg_evidence rg \<and> rg_adapters (ds_rg st) = rg_adapters rg \<and>
     md_canonical_id ` snd ` set pds = set (ds_seen st) \<and> ds_added st + ds_updated st = length pds \<and>
     (\<forall>(p, d) \<in> set pds. \<exists>m \<in> set (rg_models (ds_rg st)). mr_provider_kind m = md_provider_kind d \<and>
        mr_provider_model_name m = md_provider_model_name d \<and> mr_available m \<and>
        mr_provider_name m \<in> pr_name ` fst ` set pds \<and> mr_canonical_id m \<in> set (ds_seen st)) \<and>
     (\<forall>m \<in> set (rg_models rg). mr_provider_kind m \<notin> md_provider_kind ` snd ` set pds \<longrightarrow> m \<in> set (rg_models (ds_rg st)))"

lemma sight_inv:
  assumes inv: "discovery_inv ulid rg pds st" and inj: "inj ulid"
  shows "discovery_inv ulid rg (pds @ [pd]) (sight ulid fv now pd st)"
proof -
  obtain p d where pd: "pd = (p, d)" by fastforce
  obtain i rg1 where u: "upsert_model ulid d now (pr_name p) (pr_is_remote p) (ds_rg st) = (i, rg1)" by fastforce
  have s: "sound ulid (ds_rg st)" using inv by (simp add: discovery_inv_def)
  note spec = upsert_model_spec[OF s inj u]
  let ?st = "sight ulid fv now pd st"
  have st: "rg_models (ds_rg ?st) = rg_models rg1" "rg_evidence (ds_rg ?st) = rg_evidence rg1" "rg_adapters (ds_rg ?st) = rg_adapters rg1"
    "sound ulid (ds_rg ?st)" "ds_seen ?st = ds_seen st @ [md_canonical_id d]" "ds_added ?st + ds_updated ?st = Suc (ds_added st + ds_updated st)"
    using spec by (simp_all add: sight_def pd u sync_declared_spec Let_def)
  have keep: "keeps_models rg (ds_rg ?st)"
  proof -
    have "keeps_models rg (ds_rg st)" using inv by (simp add: discovery_inv_def)
    from keeps_trans(2)[OF this] have "keeps_models rg rg1" using spec by blast
    then show ?thesis by (simp add: keeps_models_def st(1))
  qed
  obtain m where m: "m \<in> set (rg_models rg1)" "sighting i d (pr_name p) m" using spec by blast
  have here: "\<exists>m \<in> set (rg_models rg1). mr_provider_kind m = k \<and> mr_provider_model_name m = n \<and> mr_available m \<and>
      mr_provider_name m \<in> pr_name ` fst ` set (pds @ [pd]) \<and> mr_canonical_id m \<in> set (ds_seen ?st)"
    if "k = md_provider_kind d" "n = md_provider_model_name d" for k n
    using m that unfolding st(5)
    by (intro bexI[of _ m]) (auto simp: sighting_def model_identity_def descriptor_identity_def pd)
  have all: "\<exists>m \<in> set (rg_models rg1). mr_provider_kind m = md_provider_kind d' \<and> mr_provider_model_name m = md_provider_model_name d' \<and>
      mr_available m \<and> mr_provider_name m \<in> pr_name ` fst ` set (pds @ [pd]) \<and> mr_canonical_id m \<in> set (ds_seen ?st)"
    if pd': "(p', d') \<in> set (pds @ [pd])" for p' d'
  proof (cases "(p', d') = pd")
    case True
    then show ?thesis using here by (simp add: pd)
  next
    case False
    then have "(p', d') \<in> set pds" using pd' by auto
    then have "\<exists>x \<in> set (rg_models (ds_rg st)). mr_provider_kind x = md_provider_kind d' \<and>
      mr_provider_model_name x = md_provider_model_name d' \<and> mr_available x \<and> mr_provider_name x \<in> pr_name ` fst ` set pds \<and>
      mr_canonical_id x \<in> set (ds_seen st)" using inv unfolding discovery_inv_def by fast
    then obtain x where x: "x \<in> set (rg_models (ds_rg st))" "mr_provider_kind x = md_provider_kind d'"
      "mr_provider_model_name x = md_provider_model_name d'" "mr_available x" "mr_provider_name x \<in> pr_name ` fst ` set pds"
      "mr_canonical_id x \<in> set (ds_seen st)" by blast
    then consider "x \<in> set (rg_models rg1)" | "mr_provider_kind x = md_provider_kind d" "mr_provider_model_name x = md_provider_model_name d"
      using spec by blast
    then show ?thesis
    proof cases
      case 1
      then show ?thesis using x by (intro bexI[of _ x]) (auto simp: st(5))
    next
      case 2
      then show ?thesis using here x(2,3) by simp
    qed
  qed
  have spared: "x \<in> set (rg_models rg1)" if "x \<in> set (rg_models rg)" "mr_provider_kind x \<notin> md_provider_kind ` snd ` set (pds @ [pd])" for x
  proof -
    have "x \<in> set (rg_models (ds_rg st))" using inv that by (simp add: discovery_inv_def)
    moreover have "mr_provider_kind x \<noteq> md_provider_kind d" using that(2) by (auto simp: pd)
    ultimately show ?thesis using spec by blast
  qed
  have old: "rg_evidence (ds_rg st) = rg_evidence rg" "rg_adapters (ds_rg st) = rg_adapters rg"
    "md_canonical_id ` snd ` set pds = set (ds_seen st)" "ds_added st + ds_updated st = length pds"
    using inv by (simp_all add: discovery_inv_def)
  show ?thesis unfolding discovery_inv_def
  proof (intro conjI)
    show "\<forall>(p, d) \<in> set (pds @ [pd]). \<exists>m \<in> set (rg_models (ds_rg ?st)). mr_provider_kind m = md_provider_kind d \<and>
        mr_provider_model_name m = md_provider_model_name d \<and> mr_available m \<and>
        mr_provider_name m \<in> pr_name ` fst ` set (pds @ [pd]) \<and> mr_canonical_id m \<in> set (ds_seen ?st)"
      unfolding st(1) using all by blast
    show "\<forall>m \<in> set (rg_models rg). mr_provider_kind m \<notin> md_provider_kind ` snd ` set (pds @ [pd]) \<longrightarrow> m \<in> set (rg_models (ds_rg ?st))"
      unfolding st(1) using spared by blast
    show "md_canonical_id ` snd ` set (pds @ [pd]) = set (ds_seen ?st)" unfolding st(5) using old(3) by (simp add: pd)
  qed (use st keep spec old in simp_all)
qed

lemma discovery_loop_inv:
  assumes "inj ulid" "discovery_inv ulid rg pds st"
  shows "discovery_inv ulid rg (pds @ rest) (fold (sight ulid fv now) rest st)"
  using assms(2)
proof (induction rest arbitrary: pds st)
  case (Cons pd rest)
  show ?case using Cons.IH[OF sight_inv[OF Cons.prems assms(1)]] by simp
qed simp

lemma retired_row_keeps: "keeps_row m (retired_row disabled seen kinds m)" "model_identity (retired_row disabled seen kinds m) = model_identity m"
    "mr_id (retired_row disabled seen kinds m) = mr_id m"
  by (simp_all add: retired_row_def keeps_row_def model_identity_def)

lemma list_all2_image: "list_all2 R xs ys \<Longrightarrow> x \<in> set xs \<Longrightarrow> \<exists>y \<in> set ys. R x y"
  by (metis in_set_conv_nth list_all2_conv_all_nth)

text \<open>
  C18. A discovery pass loses nothing. The unique indexes survive it, every model row keeps its
  primary key, its kind and name, the instant it was first seen, a digest it had and the
  operator's switch, and every evidence row stays. Afterwards each model a registration listed is
  available under that kind and name, and a model of a kind no registration answered for keeps
  its availability unless its registration is disabled.
\<close>

theorem discovery_keeps_registry:
  assumes "discover_models ulid fv caller regs disabled now rg = Inr (out, rg')"
    and "registry_ok rg" "drawn ulid rg" "inj ulid"
    and "\<forall>p \<in> set regs. pr_name p \<notin> set disabled"
    and "\<forall>p \<in> set regs. \<forall>ds. pr_listing p = Inr ds \<longrightarrow> (\<forall>d \<in> set ds. md_provider_kind d = pr_kind p)"
  shows "registry_ok rg' \<and> drawn ulid rg' \<and> keeps_models rg rg' \<and>
    map ce_id (rg_evidence rg') = map ce_id (rg_evidence rg) \<and>
    do_added out + do_updated out = do_total out \<and>
    (\<forall>(p, d) \<in> set (listed_models regs). \<exists>m \<in> set (rg_models rg').
       mr_provider_kind m = md_provider_kind d \<and> mr_provider_model_name m = md_provider_model_name d \<and> mr_available m) \<and>
    (\<forall>m \<in> set (rg_models rg). mr_provider_name m \<notin> set disabled \<and>
       mr_provider_kind m \<notin> {pr_kind p | p. p \<in> set regs \<and> \<not> isl (pr_listing p)} \<longrightarrow>
       (\<exists>m' \<in> set (rg_models rg'). keeps_row m m' \<and> mr_available m' = mr_available m))"
proof -
  define st where "st = fold (sight ulid fv now) (listed_models regs) \<lparr>ds_rg = rg, ds_seen = [], ds_added = 0, ds_updated = 0\<rparr>"
  define retire where "retire = retired_row (set disabled) (set (ds_seen st)) (pr_kind ` set (filter (\<lambda>p. \<not> isl (pr_listing p)) regs))"
  define rg1 where "rg1 = (ds_rg st)\<lparr>rg_models := map retire (rg_models (ds_rg st))\<rparr>"
  have out: "rg' = snd (rebind_evidence_in rg1)" "do_added out = ds_added st" "do_updated out = ds_updated st"
    "do_total out = length (listed_models regs)"
    using assms(1) by (auto simp: discover_models_def st_def retire_def rg1_def Let_def split: sum.splits if_splits)
  have inv: "discovery_inv ulid rg (listed_models regs) st"
    using discovery_loop_inv[OF assms(4), of rg "[]" "\<lparr>ds_rg = rg, ds_seen = [], ds_added = 0, ds_updated = 0\<rparr>" "listed_models regs" fv now] assms(2,3)
    by (simp add: st_def discovery_inv_def sound_def keeps_refl)
  have ids: "map mr_id (map retire (rg_models (ds_rg st))) = map mr_id (rg_models (ds_rg st))"
    "map model_identity (map retire (rg_models (ds_rg st))) = map model_identity (rg_models (ds_rg st))"
    by (simp_all add: retire_def retired_row_keeps)
  have s0: "sound ulid (ds_rg st)" using inv by (simp add: discovery_inv_def)
  then have "distinct (map model_identity (map retire (rg_models (ds_rg st))))"
    unfolding ids(2) by (simp add: sound_def registry_ok_def)
  from rewritten_models_sound[OF s0 ids(1) this] have s1: "sound ulid rg1" by (simp add: rg1_def)
  note rb = rebind_spec[OF s1, folded out(1)]
  have "keeps_models (ds_rg st) rg1" by (rule keeps_map[of rg1 retire]) (simp_all add: rg1_def retire_def retired_row_keeps)
  moreover have "keeps_models rg1 rg'"
    using list_all2_image[OF rb(2)] by (fastforce simp: keeps_models_def same_sighting_def)
  ultimately have keeps: "keeps_models rg rg'" using inv keeps_trans(2) by (auto simp: discovery_inv_def)
  have names: "pr_name ` fst ` set (listed_models regs) \<inter> set disabled = {}"
    using assms(5) by (auto simp: listed_models_def split: sum.splits)
  have kinds: "md_provider_kind ` snd ` set (listed_models regs) \<subseteq> {pr_kind p | p. p \<in> set regs \<and> \<not> isl (pr_listing p)}"
  proof (intro subsetI, elim imageE)
    fix k d pd assume k: "k = md_provider_kind d" "d = snd pd" "pd \<in> set (listed_models regs)"
    then obtain p ds where p: "p \<in> set regs" "pr_listing p = Inr ds" "d \<in> set ds"
      by (auto simp: listed_models_def split: sum.splits dest: sym)
    then have "md_provider_kind d = pr_kind p" using assms(6) by blast
    then show "k \<in> {pr_kind p | p. p \<in> set regs \<and> \<not> isl (pr_listing p)}" using p k(1) by auto
  qed
  have listed: "\<exists>m \<in> set (rg_models rg'). mr_provider_kind m = md_provider_kind d \<and> mr_provider_model_name m = md_provider_model_name d \<and> mr_available m"
    if pd: "(p, d) \<in> set (listed_models regs)" for p d
  proof -
    obtain m where m: "m \<in> set (rg_models (ds_rg st))" "mr_provider_kind m = md_provider_kind d"
      "mr_provider_model_name m = md_provider_model_name d" "mr_available m" "mr_provider_name m \<in> pr_name ` fst ` set (listed_models regs)"
      "mr_canonical_id m \<in> set (ds_seen st)"
      using inv pd unfolding discovery_inv_def by fast
    have "mr_provider_name m \<notin> set disabled" using m(5) names by blast
    then have "retire m = m" using m(4,6) by (simp add: retire_def retired_row_def)
    then have "m \<in> set (rg_models rg1)" using m(1) by (force simp: rg1_def)
    from list_all2_image[OF rb(2) this] show ?thesis using m(2-4) by (auto simp: same_sighting_def keeps_row_def)
  qed
  have spared: "\<exists>m' \<in> set (rg_models rg'). keeps_row m m' \<and> mr_available m' = mr_available m"
    if m: "m \<in> set (rg_models rg)" "mr_provider_name m \<notin> set disabled"
      "mr_provider_kind m \<notin> {pr_kind p | p. p \<in> set regs \<and> \<not> isl (pr_listing p)}" for m
  proof -
    have "m \<in> set (rg_models (ds_rg st))" using inv m(1,3) kinds unfolding discovery_inv_def by blast
    moreover have "mr_provider_kind m \<notin> pr_kind ` set (filter (\<lambda>p. \<not> isl (pr_listing p)) regs)" using m(3) by auto
    then have "retire m = m" using m(2) by (simp add: retire_def retired_row_def)
    ultimately have "m \<in> set (rg_models rg1)" by (force simp: rg1_def)
    from list_all2_image[OF rb(2) this] show ?thesis by (auto simp: same_sighting_def)
  qed
  have "rg_evidence rg1 = rg_evidence rg" using inv by (simp add: rg1_def discovery_inv_def)
  then show ?thesis
    using rb(1,3) keeps listed spared inv unfolding out(2-4) by (auto simp: sound_def discovery_inv_def)
qed

subsection \<open>Where a pass surprises\<close>

definition plain_descriptor :: "string option \<Rightarrow> ModelDescriptor" where
  "plain_descriptor digest = \<lparr>md_provider_kind = ''ollama'', md_provider_model_name = ''m'', md_artifact_digest = digest,
     md_canonical_id = ''ollama/m'', md_identity_confidence = ''name_only'', md_max_context = Some 8192, md_size_bytes = None,
     md_parameter_count = None, md_quantization = None, md_family = None, md_geometry = (\<lambda>_. None), md_declared_capabilities = []\<rparr>"

definition registration :: "string \<Rightarrow> string + ModelDescriptor list \<Rightarrow> ProviderRegistration" where
  "registration name listing = \<lparr>pr_name = name, pr_kind = ''ollama'', pr_is_remote = False, pr_listing = listing\<rparr>"

definition after_discovery :: "ProviderRegistration list \<Rightarrow> Registry \<Rightarrow> Registry" where
  "after_discovery regs rg =
     (case discover_models unary_ulid (\<lambda>_. []) None regs [] 9 rg of Inl _ \<Rightarrow> rg | Inr (_, rg') \<Rightarrow> rg')"

theorem discovery_keeps_registry_witness:
  "\<exists>out rg'. discover_models unary_ulid (\<lambda>_. []) None [registration ''box'' (Inr [plain_descriptor None])] [] 9 known_registry = Inr (out, rg') \<and>
     registry_ok rg' \<and> (\<exists>m \<in> set (rg_models rg'). mr_provider_model_name m = ''m'' \<and> mr_available m)"
proof -
  let ?regs = "[registration ''box'' (Inr [plain_descriptor None])]"
  obtain out rg' where d: "discover_models unary_ulid (\<lambda>_. []) None ?regs [] 9 known_registry = Inr (out, rg')"
    by (simp add: discover_models_def authorize_def SCOPES_def registration_def Let_def)
  have "\<forall>p \<in> set ?regs. \<forall>ds. pr_listing p = Inr ds \<longrightarrow> (\<forall>x \<in> set ds. md_provider_kind x = pr_kind p)"
    by (simp add: registration_def plain_descriptor_def)
  from discovery_keeps_registry[OF d known_registry_ok inj_unary_ulid _ this]
  have "registry_ok rg'" "\<forall>(p, x) \<in> set (listed_models ?regs). \<exists>m \<in> set (rg_models rg').
       mr_provider_kind m = md_provider_kind x \<and> mr_provider_model_name m = md_provider_model_name x \<and> mr_available m" by simp_all
  then show ?thesis using d by (auto simp: listed_models_def registration_def plain_descriptor_def)
qed

text \<open>
  An unreachable registration does take models out of the registry when another registration of
  the same provider kind answers: the pass retires by kind, not by registration, and calls the
  model of the silent one not reported.
\<close>

theorem outage_retires_sibling:
  "\<exists>rg'. discover_models unary_ulid (\<lambda>_. []) None [registration ''other'' (Inr []), registration ''box'' (Inl ''connection refused'')]
       [] 9 (sample_registry []) =
     Inr (\<lparr>do_added = 0, do_updated = 0, do_unavailable = 1, do_total = 0, do_checked_at = 9, do_unreachable = [''box'']\<rparr>, rg') \<and>
     map mr_provider_name (rg_models (sample_registry [])) = [''box''] \<and> map mr_available (rg_models (sample_registry [])) = [True] \<and>
     map mr_available (rg_models rg') = [False]"
proof -
  have "case discover_models unary_ulid (\<lambda>_. []) None [registration ''other'' (Inr []), registration ''box'' (Inl ''connection refused'')]
       [] 9 (sample_registry []) of Inl _ \<Rightarrow> False
     | Inr (out, rg') \<Rightarrow> out = \<lparr>do_added = 0, do_updated = 0, do_unavailable = 1, do_total = 0, do_checked_at = 9, do_unreachable = [''box'']\<rparr> \<and>
         map mr_available (rg_models rg') = [False]" by code_simp
  then show ?thesis by (auto simp: sample_registry_def named_model_def split: sum.splits)
qed


end
