(* ===== verification/Explanation.thy ===== *)
theory Explanation
  imports Ranking Context_Budget
begin

section \<open>The explanation of a decision\<close>

text \<open>
  Models \<^verbatim>\<open>src/src/loadcoach/domain/routing/explanation.py\<close> and the renderings of the values it
  assembles: the flags of a decision, its summary of the evidence and the document that is stored
  and returned. The RFC 3339 rendering of an instant and the sentence of a reliability factor,
  which has characters outside the eight bits of a \<open>char\<close>, are the record \<open>rendering\<close>.
\<close>

record rendering =
  to_rfc3339 :: "instant \<Rightarrow> string"
  factor_sentence :: "factor_reason \<Rightarrow> string"

definition STRATEGY_VERSION :: string where "STRATEGY_VERSION = ''1.0.0''"
definition CONFIDENCE_POLICY_VERSION :: string where "CONFIDENCE_POLICY_VERSION = ''1.0.0''"

record RejectedCandidate =
  rc_subject :: ExecutionSubject
  rc_rejection :: Rejection
  rc_estimate :: "VramEstimate option"

record Explanation =
  xp_decision_id :: string
  xp_payload :: "(string \<times> json) list"
  xp_ranking :: Ranking
  xp_rejected :: "RejectedCandidate list"
  xp_flags :: "string list"

subsection \<open>Renderings\<close>

definition adapter_json :: "AdapterFacts \<Rightarrow> (string \<times> json) list" where
  "adapter_json a = [(''name'', JStr (adapter_name a)), (''artifact_digest'', JStr (adapter_artifact_digest a)),
     (''base_confidence'', JStr (base_confidence a)), (''data_classification'', JStr (data_classification a)),
     (''declared_capabilities'', JList (map JStr (declared_capabilities a)))]"

definition factor_json :: "rendering \<Rightarrow> ReliabilityFactor \<Rightarrow> (string \<times> json) list" where
  "factor_json rn f = [(''source'', JStr ''production''), (''value'', JFloat (rf_value f)), (''neutral'', JBool (rf_neutral f)),
     (''window'', of_opt_str (rf_window f)), (''attempts'', JInt (rf_attempts f)), (''minimum_samples'', JInt PRODUCTION_MINIMUM_SAMPLES),
     (''success_rate'', of_opt_float (rf_success_rate f)), (''validation_pass_rate'', of_opt_float (rf_validation_pass_rate f)),
     (''error_rate'', of_opt_float (rf_error_rate f)), (''timeout_rate'', of_opt_float (rf_timeout_rate f)),
     (''acceptance_rate'', of_opt_float (rf_acceptance_rate f)), (''feedback_count'', JInt (rf_feedback_count f)),
     (''reason'', JStr (factor_sentence rn (rf_reason f)))]"

definition residency_json :: "residency_detail \<Rightarrow> (string \<times> json) list" where
  "residency_json d = [(''level'', JStr (residency_level d)), (''resident_bases'', JList (map JStr (resident_bases d))),
     (''prefer_resident_bonus'', JFloat (detail_prefer_resident_bonus d)),
     (''base_switch_penalty'', JFloat (detail_base_switch_penalty d)), (''ignore_residency'', JBool (detail_ignore_residency d))]"

definition factors_json :: "rendering \<Rightarrow> AdjustmentFactors \<Rightarrow> (string \<times> json) list" where
  "factors_json rn f = [(''reliability'', JFloat (reliability f)), (''availability'', JFloat (availability f)),
     (''residency'', JFloat (residency f)), (''cost'', JFloat (cost f))] @
     (case factors_reliability_detail f of None \<Rightarrow> [] | Some d \<Rightarrow> [(''reliability_detail'', JObj (factor_json rn d))]) @
     (case factors_residency_detail f of None \<Rightarrow> [] | Some d \<Rightarrow> [(''residency_detail'', JObj (residency_json d))])"

definition subject_payload :: "packages \<Rightarrow> ExecutionSubject \<Rightarrow> (string \<times> json) list" where
  "subject_payload pkg s = [(''subject_canonical_id'', JStr (subject_canonical_id pkg s)),
     (''provider_name'', if provider_name (facts s) = [] then JNull else JStr (provider_name (facts s))),
     (''adapter'', case adapter s of None \<Rightarrow> JNull | Some a \<Rightarrow> JObj (adapter_json a))]"

definition selected_payload :: "packages \<Rightarrow> RankedCandidate \<Rightarrow> (string \<times> json) list" where
  "selected_payload pkg c =
     (let s = cand_subject c in
      [(''canonical_id'', JStr (canonical_id (facts s)))] @ subject_payload pkg s @
      [(''model_id'', JStr (model_id (facts s))), (''runtime_profile_hash'', JStr (runtime_profile_hash pkg s)),
       (''final_score'', JFloat (final_score c)), (''rank'', JInt (rank c)), (''served_context'', JInt (tokens (served_context s))),
       (''served_context_source'', JStr (context_source (served_context s))), (''target_gpu_index'', of_opt_int (target_gpu_index c))])"

definition candidate_payload :: "packages \<Rightarrow> rendering \<Rightarrow> RankedCandidate \<Rightarrow> (string \<times> json) list" where
  "candidate_payload pkg rn c =
     (let s = cand_subject c in
      [(''canonical_id'', JStr (canonical_id (facts s)))] @ subject_payload pkg s @
      [(''model_id'', JStr (model_id (facts s))), (''runtime_profile_hash'', JStr (runtime_profile_hash pkg s)),
       (''served_context'', JInt (tokens (served_context s))), (''served_context_source'', JStr (context_source (served_context s))),
       (''rank'', JInt (rank c)), (''task_fit'', JFloat (task_fit (fit c))), (''final_score'', JFloat (final_score c)),
       (''present_weight'', JFloat (present_weight (fit c))), (''measured_weight'', JFloat (measured_weight (fit c))),
       (''estimated_vram_bytes'', of_opt_int (estimated_vram_bytes c)), (''target_gpu_index'', of_opt_int (target_gpu_index c)),
       (''capabilities'', JList (map (JObj \<circ> score_json) (fit_capabilities (fit c)))), (''factors'', JObj (factors_json rn (factors c))),
       (''residency_detail'', case factors_residency_detail (factors c) of None \<Rightarrow> JNull | Some d \<Rightarrow> JObj (residency_json d))])"

definition rejected_payload :: "packages \<Rightarrow> RejectedCandidate \<Rightarrow> (string \<times> json) list" where
  "rejected_payload pkg r =
     (let s = rc_subject r in
      [(''canonical_id'', JStr (canonical_id (facts s)))] @ subject_payload pkg s @
      [(''model_id'', JStr (model_id (facts s))), (''runtime_profile_hash'', JStr (runtime_profile_hash pkg s)),
       (''served_context'', JInt (tokens (served_context s))), (''served_context_source'', JStr (context_source (served_context s))),
       (''reason'', JStr (reason (rc_rejection r))), (''detail'', JObj (detail (rc_rejection r)))])"

subsection \<open>The evidence behind a decision\<close>

record evidence_use =
  eu_sources :: "string list"
  eu_mismatched :: int
  eu_unbound :: int
  eu_foreign :: int
  eu_stale_used :: int

definition use_score :: "CapabilityScore \<Rightarrow> evidence_use \<Rightarrow> evidence_use" where
  "use_score s u =
     (if cs_source s = EVIDENCE_PROFILE_MISMATCH then u\<lparr>eu_mismatched := eu_mismatched u + 1\<rparr>
      else if cs_source s = EVIDENCE_FOREIGN_MACHINE then u\<lparr>eu_foreign := eu_foreign u + 1\<rparr>
      else if cs_source s = EVIDENCE_UNBOUND then u\<lparr>eu_unbound := eu_unbound u + 1\<rparr>
      else if present s then u\<lparr>eu_sources := eu_sources u @ [cs_source s], eu_stale_used := eu_stale_used u + (if cs_stale s then 1 else 0)\<rparr>
      else u)"

definition evidence_use_of :: "Ranking \<Rightarrow> evidence_use" where
  "evidence_use_of ranking = fold use_score (concat (map (\<lambda>c. fit_capabilities (fit c)) (ordered ranking)))
     \<lparr>eu_sources = [], eu_mismatched = 0, eu_unbound = 0, eu_foreign = 0, eu_stale_used = 0\<rparr>"

definition overview_json :: "rendering \<Rightarrow> EvidenceOverview \<Rightarrow> (string \<times> json) list" where
  "overview_json rn s =
     (let moment = (\<lambda>t. of_opt_str (map_option (to_rfc3339 rn) t)) in
      [(''status'', JStr (overview_status s)), (''note'', JStr (overview_note s)), (''imported_at'', moment (eo_imported_at s)),
       (''generated_at'', moment (eo_generated_at s)), (''oldest_measured_at'', moment (eo_oldest_measured_at s)),
       (''newest_measured_at'', moment (eo_newest_measured_at s)), (''bundle_schema_version'', of_opt_str (eo_bundle_schema_version s)),
       (''policy_version'', of_opt_str (eo_policy_version s)), (''vocabulary_version'', of_opt_str (eo_vocabulary_version s)),
       (''stale'', JBool (eo_stale s > 0)), (''stale_records'', JInt (eo_stale s)), (''unmatched_records'', JInt (eo_unmatched s)),
       (''ambiguous_records'', JInt (eo_ambiguous s)), (''bound_records'', JInt (eo_bound s)), (''total_records'', JInt (eo_rows s))])"

definition evidence_summary_of :: "rendering \<Rightarrow> Ranking \<Rightarrow> RejectedCandidate list \<Rightarrow> EvidenceOverview option \<Rightarrow> (string \<times> json) list" where
  "evidence_summary_of rn ranking rejected store =
     (let u = evidence_use_of ranking; sources = sorted_list_of_set (set (eu_sources u)) in
      [(''source'', JStr (if ''benchmark'' \<in> set (eu_sources u) then ''freeweight'' else ''none'')),
       (''contributing_sources'', JList (map JStr sources)), (''profile_mismatched_capabilities'', JInt (eu_mismatched u)),
       (''foreign_machine_capabilities'', JInt (eu_foreign u)), (''unbound_capabilities'', JInt (eu_unbound u)),
       (''stale_capabilities_used'', JInt (eu_stale_used u)),
       (''candidates_considered'', JInt (int (length (ordered ranking)) + int (length rejected)))] @
      (case store of None \<Rightarrow> [] | Some s \<Rightarrow> overview_json rn s))"

subsection \<open>The document\<close>

definition decision_flags :: "Ranking \<Rightarrow> ContextBudget option \<Rightarrow> float64 \<Rightarrow> bool \<Rightarrow> string list" where
  "decision_flags ranking budget min_present_weight breaker_state_unavailable =
     (case primary ranking of
        None \<Rightarrow> []
      | Some p \<Rightarrow> (if measured_weight (fit p) < min_present_weight then [''low_evidence''] else []) @
          (if context_source (served_context (cand_subject p)) = ''assumed'' then [''assumed_context''] else [])) @
     (case budget of None \<Rightarrow> [] | Some b \<Rightarrow> if reduced b then [''output_tokens_reduced''] else []) @
     (if breaker_state_unavailable then [''breaker_state_unavailable''] else [])"

record decision_facts =
  df_decision_id :: string
  df_task_profile_id :: string
  df_task_profile_version :: string
  df_strategy_name :: string
  df_requested_at :: instant
  df_duration_ms :: int

definition build_explanation :: "packages \<Rightarrow> rendering \<Rightarrow> decision_facts \<Rightarrow> Ranking \<Rightarrow> RejectedCandidate list \<Rightarrow> ContextBudget option \<Rightarrow>
    json \<Rightarrow> json \<Rightarrow> float64 \<Rightarrow> EvidenceOverview option \<Rightarrow> bool \<Rightarrow> Explanation" where
  "build_explanation pkg rn df ranking rejected budget telemetry overriding min_present_weight evidence breaker_state_unavailable =
     (let flags = decision_flags ranking budget min_present_weight breaker_state_unavailable in
      \<lparr>xp_decision_id = df_decision_id df,
       xp_payload =
         [(''decision_id'', JStr (df_decision_id df)),
          (''task_profile'', JObj [(''id'', JStr (df_task_profile_id df)), (''version'', JStr (df_task_profile_version df))]),
          (''strategy'', JObj [(''name'', JStr (df_strategy_name df)), (''version'', JStr STRATEGY_VERSION)]),
          (''confidence_policy_version'', JStr CONFIDENCE_POLICY_VERSION),
          (''requested_at'', JStr (to_rfc3339 rn (df_requested_at df))), (''duration_ms'', JInt (df_duration_ms df)),
          (''selected'', case primary ranking of None \<Rightarrow> JNull | Some p \<Rightarrow> JObj (selected_payload pkg p)),
          (''fallbacks'', JList (map (JObj \<circ> selected_payload pkg) (fallbacks ranking))),
          (''candidates'', JList (map (JObj \<circ> candidate_payload pkg rn) (ordered ranking))),
          (''rejected'', JList (map (JObj \<circ> rejected_payload pkg) rejected)), (''flags'', JList (map JStr flags)),
          (''context_budget'', case budget of None \<Rightarrow> JNull | Some b \<Rightarrow> JObj (budget_json b)),
          (''evidence_summary'', JObj (evidence_summary_of rn ranking rejected evidence)), (''telemetry_snapshot'', telemetry),
          (''overrides'', overriding)],
       xp_ranking = ranking, xp_rejected = rejected, xp_flags = flags\<rparr>)"

end
