(* ===== verification/Statistics.thy ===== *)
theory Statistics
  imports Registry Job_Queue Circuit_Breaker Explanation
begin

section \<open>Production statistics and feedback\<close>

text \<open>
  Models \<^verbatim>\<open>src/src/loadcoach/services/reliability.py\<close> and \<^verbatim>\<open>src/src/loadcoach/services/feedback.py\<close>, with the
  refreshes that the worker and the synchronous path make after an attempt: the joins over the
  attempts, jobs and feedback, the window rows of \<open>reliability_stats\<close>, the factors routing reads,
  the samples and verdicts of the circuit breakers, the report, and the feedback record. A row of
  \<open>reliability_stats\<close> holds its twenty statistics columns as one \<^typ>\<open>WindowStats\<close>; its key is the
  subject, the profile and the window. A query without an order returns the rows in table order.
  The reason of a breaker is kept as the value that is rendered.
\<close>

record FeedbackRow =
  fd_id :: string
  fd_job_id :: string
  fd_source :: string
  fd_accepted :: bool
  fd_quality_score :: "float64 option"
  fd_edited :: bool
  fd_validation_passed :: "bool option"
  fd_validation_detail :: json
  fd_notes :: "string option"
  fd_created_at :: instant
  fd_updated_at :: instant

record ReliabilityStat =
  rl_model_id :: string
  rl_adapter_id :: "string option"
  rl_adapter_key :: string
  rl_task_profile_id :: string
  rl_stats :: WindowStats
  rl_circuit_state :: BreakerState
  rl_circuit_opened_at :: "instant option"
  rl_circuit_reason :: "breaker_reason option"
  rl_updated_at :: instant

record StatsStore =
  ss_feedback :: "FeedbackRow list"
  ss_stats :: "ReliabilityStat list"
  ss_next :: nat

type_synonym stat_key = "string \<times> string \<times> string \<times> string"

definition stat_key_of :: "ReliabilityStat \<Rightarrow> stat_key" where
  "stat_key_of r = (rl_model_id r, rl_adapter_key r, rl_task_profile_id r, ws_window (rl_stats r))"

definition feedback_key_of :: "FeedbackRow \<Rightarrow> string \<times> string" where
  "feedback_key_of r = (fd_job_id r, fd_source r)"

definition stats_store_ok :: "StatsStore \<Rightarrow> bool" where
  "stats_store_ok st \<longleftrightarrow> distinct (map stat_key_of (ss_stats st)) \<and> distinct (map feedback_key_of (ss_feedback st))"

subsection \<open>The raw rows of one subject\<close>

definition coalesce :: "string option \<Rightarrow> string" where
  "coalesce x = (case x of None \<Rightarrow> [] | Some s \<Rightarrow> s)"

definition attempt_outcomes :: "string \<Rightarrow> string \<Rightarrow> string \<Rightarrow> World \<Rightarrow> Reliability.AttemptOutcome list" where
  "attempt_outcomes the_model profile akey w =
     concat (map (\<lambda>a. List.map_filter (\<lambda>j.
         if job_id j = ja_job_id a \<and> ja_model_id a = Some the_model \<and> coalesce (ja_adapter_id a) = akey \<and>
            task_profile_id j = profile
         then map_option (\<lambda>t. \<lparr>att_at = t, att_outcome = ja_outcome a, att_latency_ms = ja_provider_ms a,
                att_output_tokens = ja_output_tokens a\<rparr>) (ja_completed_at a)
         else None) (jobs w)) (job_attempts w))"

definition feedback_outcomes :: "string \<Rightarrow> string \<Rightarrow> string \<Rightarrow> World \<Rightarrow> StatsStore \<Rightarrow> FeedbackOutcome list" where
  "feedback_outcomes the_model profile akey w st =
     concat (map (\<lambda>f. List.map_filter (\<lambda>j.
         if job_id j = fd_job_id f \<and> selected_model_id j = Some the_model \<and> coalesce (selected_adapter_id j) = akey \<and>
            task_profile_id j = profile
         then Some \<lparr>fb_at = fd_updated_at f, fb_accepted = fd_accepted f, fb_quality_score = fd_quality_score f,
                fb_edited = fd_edited f, fb_validation_passed = fd_validation_passed f\<rparr>
         else None) (jobs w)) (ss_feedback st))"

subsection \<open>Recomputation\<close>

definition stat_row :: "string \<Rightarrow> string \<Rightarrow> string \<Rightarrow> instant \<Rightarrow> WindowStats \<Rightarrow> ReliabilityStat" where
  "stat_row the_model profile akey now s =
     \<lparr>rl_model_id = the_model, rl_adapter_id = (if akey = [] then None else Some akey), rl_adapter_key = akey,
      rl_task_profile_id = profile, rl_stats = s, rl_circuit_state = CLOSED, rl_circuit_opened_at = None,
      rl_circuit_reason = None, rl_updated_at = now\<rparr>"

definition overwrite_stat :: "ReliabilityStat \<Rightarrow> ReliabilityStat \<Rightarrow> ReliabilityStat" where
  "overwrite_stat r n = n\<lparr>rl_circuit_state := rl_circuit_state r, rl_circuit_opened_at := rl_circuit_opened_at r,
     rl_circuit_reason := rl_circuit_reason r\<rparr>"

definition write_windows :: "string \<Rightarrow> string \<Rightarrow> string \<Rightarrow> WindowStats list \<Rightarrow> instant \<Rightarrow> ReliabilityStat list \<Rightarrow>
    ReliabilityStat list" where
  "write_windows the_model profile akey stats now rows =
     fold (\<lambda>s. upsert stat_key_of overwrite_stat (stat_row the_model profile akey now s)) stats rows"

definition window_stats :: "string \<Rightarrow> string \<Rightarrow> string \<Rightarrow> instant \<Rightarrow> World \<Rightarrow> StatsStore \<Rightarrow> stats_error + WindowStats list" where
  "window_stats the_model profile akey now w st =
     traverse (\<lambda>window. compute_stats (attempt_outcomes the_model profile akey w)
       (feedback_outcomes the_model profile akey w st) window now) WINDOWS"

definition recompute_pair :: "string \<Rightarrow> string \<Rightarrow> string \<Rightarrow> instant \<Rightarrow> World \<Rightarrow> StatsStore \<Rightarrow>
    stats_error + (string, WindowStats) dict \<times> StatsStore" where
  "recompute_pair the_model profile akey now w st =
     bind_result (window_stats the_model profile akey now w st) (\<lambda>stats.
       Inr (zip (map window_name WINDOWS) stats,
            st\<lparr>ss_stats := write_windows the_model profile akey stats now (ss_stats st)\<rparr>))"

text \<open>Every \<open>(model_id, task_profile_id, akey)\<close> with an attempt, a verdict or a row.\<close>

definition known_pairs :: "World \<Rightarrow> StatsStore \<Rightarrow> (string \<times> string \<times> string) set" where
  "known_pairs w st =
     set (concat (map (\<lambda>a. List.map_filter (\<lambda>j. if job_id j = ja_job_id a
         then map_option (\<lambda>m. (m, task_profile_id j, coalesce (ja_adapter_id a))) (ja_model_id a) else None) (jobs w)) (job_attempts w))) \<union>
     set (concat (map (\<lambda>f. List.map_filter (\<lambda>j. if job_id j = fd_job_id f
         then map_option (\<lambda>m. (m, task_profile_id j, coalesce (selected_adapter_id j))) (selected_model_id j) else None) (jobs w)) (ss_feedback st))) \<union>
     set (map (\<lambda>r. (rl_model_id r, rl_task_profile_id r, rl_adapter_key r)) (ss_stats st))"

fun recompute_each :: "(string \<times> string \<times> string) list \<Rightarrow> instant \<Rightarrow> World \<Rightarrow> StatsStore \<Rightarrow> stats_error + StatsStore" where
  "recompute_each [] now w st = Inr st"
| "recompute_each ((m, t, a) # pairs) now w st =
     bind_result (recompute_pair m t a now w st) (\<lambda>(stats, st'). recompute_each pairs now w st')"

definition recompute_all :: "instant \<Rightarrow> World \<Rightarrow> StatsStore \<Rightarrow> stats_error + int \<times> StatsStore" where
  "recompute_all now w st =
     (let pairs = sorted_list_of_set (known_pairs w st) in
      bind_result (recompute_each pairs now w st) (\<lambda>st'. Inr (int (length pairs), st')))"

subsection \<open>What routing and the breakers read\<close>

definition windows_of :: "ReliabilityStat list \<Rightarrow> (string, WindowStats) dict" where
  "windows_of rows = fold (\<lambda>r. AList.update (ws_window (rl_stats r)) (rl_stats r)) rows []"

definition stats_for :: "string \<Rightarrow> string \<Rightarrow> string \<Rightarrow> StatsStore \<Rightarrow> (string, WindowStats) dict" where
  "stats_for the_model profile akey st =
     windows_of (filter (\<lambda>r. rl_model_id r = the_model \<and> rl_adapter_key r = akey \<and> rl_task_profile_id r = profile) (ss_stats st))"

definition factors_for_task :: "string \<Rightarrow> StatsStore \<Rightarrow> (string \<times> string, ReliabilityFactor) dict" where
  "factors_for_task profile st =
     map (\<lambda>(subject, rows). (subject, reliability_factor (windows_of rows)))
       (group_by (\<lambda>r. (rl_model_id r, rl_adapter_key r)) (filter (\<lambda>r. rl_task_profile_id r = profile) (ss_stats st)))"

definition breaker_samples_since :: "instant \<Rightarrow> World \<Rightarrow> Registry \<Rightarrow> (string, AttemptSample list) dict" where
  "breaker_samples_since since w rg =
     map (\<lambda>(subject, found). (subject, map snd found))
       (group_by fst (concat (map (\<lambda>a. List.map_filter (\<lambda>m.
          case ja_completed_at a of
            None \<Rightarrow> None
          | Some t \<Rightarrow>
              if ja_model_id a = Some (mr_id m) \<and> t > since \<and> ja_outcome a \<noteq> ''cancelled'' then
                Some (if coalesce (ja_subject_canonical_id a) = [] then mr_canonical_id m else coalesce (ja_subject_canonical_id a),
                      \<lparr>sample_at = t, succeeded = counts_as_success (ja_outcome a)\<rparr>)
              else None) (rg_models rg)) (job_attempts w))))"

definition subject_id_of :: "packages \<Rightarrow> string \<Rightarrow> AdapterRow option \<Rightarrow> string" where
  "subject_id_of pkg canonical row =
     (case row of None \<Rightarrow> canonical | Some a \<Rightarrow> canonical @ canonical_suffix pkg (ar_name a) (ar_artifact_sha256 a))"

definition adapter_of_stat :: "Registry \<Rightarrow> ReliabilityStat \<Rightarrow> AdapterRow option" where
  "adapter_of_stat rg r = find (\<lambda>a. Some (ar_id a) = rl_adapter_id r) (rg_adapters rg)"

text \<open>The subject of a row, through the join with its model; a row without one is not selected.\<close>

definition subject_of_stat :: "packages \<Rightarrow> Registry \<Rightarrow> ReliabilityStat \<Rightarrow> string option" where
  "subject_of_stat pkg rg r =
     map_option (\<lambda>m. subject_id_of pkg (mr_canonical_id m) (adapter_of_stat rg r)) (find (\<lambda>m. mr_id m = rl_model_id r) (rg_models rg))"

definition verdict_for :: "BreakerVerdict list \<Rightarrow> string option \<Rightarrow> BreakerVerdict option" where
  "verdict_for verdicts subject = find (\<lambda>v. Some (breaker_canonical_id v) = subject) (rev verdicts)"

definition record_breaker_verdicts :: "packages \<Rightarrow> Registry \<Rightarrow> BreakerVerdict list \<Rightarrow> instant \<Rightarrow> StatsStore \<Rightarrow> int \<times> StatsStore" where
  "record_breaker_verdicts pkg rg verdicts now st =
     (let verdict_of = (\<lambda>r. verdict_for verdicts (subject_of_stat pkg rg r)) in
      (int (length (filter (\<lambda>r. verdict_of r \<noteq> None) (ss_stats st))),
       st\<lparr>ss_stats := map (\<lambda>r. case verdict_of r of None \<Rightarrow> r
          | Some v \<Rightarrow> r\<lparr>rl_circuit_state := breaker_state v, rl_circuit_opened_at := opened_at v,
                       rl_circuit_reason := Some (breaker_reason v), rl_updated_at := now\<rparr>) (ss_stats st)\<rparr>))"

subsection \<open>The report\<close>

definition empty_window :: "string \<Rightarrow> WindowStats" where
  "empty_window name =
     \<lparr>ws_window = name, ws_attempts = 0, ws_successes = 0, ws_validation_passes = 0, ws_errors = 0, ws_timeouts = 0,
      ws_cancellations = 0, ws_latency_count = 0, ws_p50_latency_ms = None, ws_p95_latency_ms = None,
      ws_output_token_count = 0, ws_mean_output_tokens = None, ws_tokens_per_second_count = 0,
      ws_mean_tokens_per_second = None, ws_feedback_count = 0, ws_acceptance_rate = None, ws_quality_count = 0,
      ws_mean_quality = None\<rparr>"

record ReliabilityEntry =
  en_model_id :: string
  en_canonical_id :: string
  en_task_profile_id :: string
  en_windows :: "(string, WindowStats) dict"
  en_factor :: ReliabilityFactor
  en_regression :: RegressionVerdict
  en_circuit_state :: BreakerState
  en_circuit_opened_at :: "instant option"
  en_circuit_reason :: "breaker_reason option"
  en_updated_at :: instant
  en_subject_canonical_id :: string
  en_adapter_name :: "string option"

definition with_defaults :: "(string, WindowStats) dict \<Rightarrow> (string, WindowStats) dict" where
  "with_defaults windows =
     fold (\<lambda>w d. if map_of d (window_name w) = None then AList.update (window_name w) (empty_window (window_name w)) d else d)
       WINDOWS windows"

definition entry_of :: "(string \<times> string \<times> string \<times> string \<times> string option) \<times> ReliabilityStat list \<Rightarrow> ReliabilityEntry" where
  "entry_of = (\<lambda>((subject, profile, the_model, canonical, name), rows).
     (let windows = with_defaults (windows_of rows); latest = max_by rl_updated_at (hd rows) (List.tl rows) in
      \<lparr>en_model_id = the_model, en_canonical_id = canonical, en_task_profile_id = profile, en_windows = windows,
       en_factor = reliability_factor windows,
       en_regression = detect_regression (the (map_of windows ''7d'')) (the (map_of windows ''all'')),
       en_circuit_state = rl_circuit_state latest, en_circuit_opened_at = rl_circuit_opened_at latest,
       en_circuit_reason = rl_circuit_reason latest, en_updated_at = rl_updated_at latest,
       en_subject_canonical_id = subject, en_adapter_name = name\<rparr>))"

definition reliability_report :: "packages \<Rightarrow> Registry \<Rightarrow> string option \<Rightarrow> string option \<Rightarrow> StatsStore \<Rightarrow> ReliabilityEntry list" where
  "reliability_report pkg rg the_profile the_canonical st =
     (let joined = List.map_filter (\<lambda>r. map_option (\<lambda>m.
            ((subject_id_of pkg (mr_canonical_id m) (adapter_of_stat rg r), rl_task_profile_id r, rl_model_id r, mr_canonical_id m,
              map_option ar_name (adapter_of_stat rg r)), r)) (find (\<lambda>m. mr_id m = rl_model_id r) (rg_models rg))) (ss_stats st);
          asked = filter (\<lambda>((s, profile, m, canonical, a), r). (the_profile = None \<or> the_profile = Some profile) \<and>
            (the_canonical = None \<or> the_canonical = Some canonical)) joined
      in map entry_of (sort_key (\<lambda>((s, profile, m, canonical, a), rows). (s, profile, m))
           (map (\<lambda>(k, found). (k, map snd found)) (group_by fst asked))))"

definition regression_warnings :: "packages \<Rightarrow> Registry \<Rightarrow> StatsStore \<Rightarrow> ReliabilityEntry list" where
  "regression_warnings pkg rg st = filter (\<lambda>e. rv_status (en_regression e) = Regressed) (reliability_report pkg rg None None st)"

subsection \<open>The refreshes after an attempt\<close>

text \<open>
  The worker's \<open>_refresh_reliability\<close> and the synchronous path's: a failure to recompute is logged
  and nothing else happens. \<open>now\<close> is the clock's reading; the records are folded model by model.
\<close>

definition recomputed :: "string \<Rightarrow> string \<Rightarrow> string \<Rightarrow> instant \<Rightarrow> World \<Rightarrow> StatsStore \<Rightarrow> StatsStore" where
  "recomputed the_model profile akey now w st =
     (case recompute_pair the_model profile akey now w st of Inl e \<Rightarrow> st | Inr (stats, st') \<Rightarrow> st')"

definition refresh_after_attempt :: "AttemptRecord \<Rightarrow> string \<Rightarrow> instant \<Rightarrow> World \<Rightarrow> StatsStore \<Rightarrow> StatsStore" where
  "refresh_after_attempt record profile now w st =
     (case (rec_model_id record, rec_completed_at record) of
        (Some m, Some t) \<Rightarrow> recomputed m profile [] now w st
      | _ \<Rightarrow> st)"

definition refresh_reliability :: "AttemptRecord list \<Rightarrow> string \<Rightarrow> instant \<Rightarrow> World \<Rightarrow> StatsStore \<Rightarrow> StatsStore" where
  "refresh_reliability records profile now w st =
     fold (\<lambda>m. recomputed m profile [] now w) (remdups (List.map_filter rec_model_id records)) st"

interpretation stats_table: upsert_table stat_key_of overwrite_stat
  by unfold_locales (simp_all add: stat_key_of_def overwrite_stat_def)

subsection \<open>The incremental path and the full one agree\<close>

lemma window_names [simp]: "map window_name WINDOWS = [''7d'', ''30d'', ''all'']"
  by (simp add: WINDOWS_def WINDOW_7D_def WINDOW_30D_def WINDOW_ALL_def)

lemma compute_stats_window: "compute_stats attempts feedback window now = Inr s \<Longrightarrow> ws_window s = window_name window"
  by (auto simp: compute_stats_def Let_def bind_result_Inr_iff)

lemma traverse_total: "(\<And>x. \<exists>y. f x = Inr y) \<Longrightarrow> \<exists>ys. traverse f xs = Inr ys"
  by (induction xs) (simp, metis bind_result_simps(2) traverse.simps(2))

lemma window_stats_total:
  obtains stats where "window_stats m t a now w st = Inr stats" and "map ws_window stats = map window_name WINDOWS"
proof -
  obtain stats where s: "window_stats m t a now w st = Inr stats"
    unfolding window_stats_def using traverse_total compute_stats_total by metis
  then have "list_all2 (\<lambda>x y. ws_window y = window_name x) WINDOWS stats"
    unfolding window_stats_def traverse_Inr by (rule list_all2_mono) (rule compute_stats_window)
  then have "map ws_window stats = map window_name WINDOWS"
    by (induction rule: list_all2_induct) simp_all
  with s show ?thesis by (rule that)
qed

lemma window_stats_window:
  assumes "window_stats m t a now w st = Inr stats" and "win \<in> set WINDOWS"
  shows "map_of (zip (map window_name WINDOWS) stats) (window_name win) =
    Some (projr (compute_stats (attempt_outcomes m t a w) (feedback_outcomes m t a w st) win now))"
proof -
  obtain x y z where "stats = [x, y, z]"
    "compute_stats (attempt_outcomes m t a w) (feedback_outcomes m t a w st) WINDOW_7D now = Inr x"
    "compute_stats (attempt_outcomes m t a w) (feedback_outcomes m t a w st) WINDOW_30D now = Inr y"
    "compute_stats (attempt_outcomes m t a w) (feedback_outcomes m t a w st) WINDOW_ALL now = Inr z"
    using assms(1) by (auto simp: window_stats_def WINDOWS_def bind_result_Inr_iff)
  moreover have "win = WINDOW_7D \<or> win = WINDOW_30D \<or> win = WINDOW_ALL" using assms(2) by (auto simp: WINDOWS_def)
  ultimately show ?thesis by (elim disjE) (simp_all, simp_all add: WINDOW_7D_def WINDOW_30D_def WINDOW_ALL_def)
qed

definition column :: "stat_key \<Rightarrow> ReliabilityStat list \<Rightarrow> WindowStats option" where
  "column k rows = map_option rl_stats (row_of stat_key_of k rows)"

lemma stat_key_of_row [simp]: "stat_key_of (stat_row m t a now s) = (m, a, t, ws_window s)"
  by (simp add: stat_key_of_def stat_row_def)

lemma rl_stats_row [simp]: "rl_stats (stat_row m t a now s) = s" "rl_stats (overwrite_stat r n) = rl_stats n"
  by (simp_all add: stat_row_def overwrite_stat_def)

lemma column_upsert:
  "column k (upsert stat_key_of overwrite_stat (stat_row m t a now s) rows) =
     (if k = (m, a, t, ws_window s) then Some s else column k rows)"
  by (simp add: column_def stats_table.row_of_upsert split: option.splits)

lemma column_write:
  "column (m', a', t', x) (write_windows m t a stats now rows) =
     (if (m', t', a') = (m, t, a) \<and> x \<in> ws_window ` set stats
      then find (\<lambda>s. ws_window s = x) (rev stats) else column (m', a', t', x) rows)"
  by (induction stats rule: rev_induct) (auto simp: write_windows_def column_upsert)

lemma distinct_write: "distinct (map stat_key_of rows) \<Longrightarrow> distinct (map stat_key_of (write_windows m t a stats now rows))"
  unfolding write_windows_def by (induction stats arbitrary: rows) (simp_all add: stats_table.distinct_upsert)

lemma stats_for_column:
  assumes "distinct (map stat_key_of (ss_stats st))"
  shows "map_of (stats_for m t a st) x = column (m, a, t, x) (ss_stats st)"
proof -
  let ?rows = "filter (\<lambda>r. rl_model_id r = m \<and> rl_adapter_key r = a \<and> rl_task_profile_id r = t) (ss_stats st)"
  have "map_of (stats_for m t a st) x = map_option rl_stats (find (\<lambda>r. ws_window (rl_stats r) = x) (rev ?rows))"
    by (simp add: stats_for_def windows_of_def map_of_fold_put split: option.splits)
  also have "find (\<lambda>r. ws_window (rl_stats r) = x) (rev ?rows) = row_of stat_key_of (m, a, t, x) (ss_stats st)" (is "?f = ?r")
  proof (cases ?r)
    case None
    then have "\<forall>r \<in> set (ss_stats st). stat_key_of r \<noteq> (m, a, t, x)" by (metis image_eqI row_of_None)
    then have "?f = None" by (auto simp: find_None_iff stat_key_of_def)
    with None show ?thesis by simp
  next
    case (Some r)
    then have "r \<in> set (ss_stats st)" "stat_key_of r = (m, a, t, x)" using row_of_Some by fastforce+
    then have "?f \<noteq> None" by (auto simp: find_None_iff stat_key_of_def)
    then obtain r' where r': "?f = Some r'" by blast
    then have "r' \<in> set (ss_stats st)" "stat_key_of r' = (m, a, t, x)"
      by (auto dest!: find_SomeD simp: stat_key_of_def)
    then have "row_of stat_key_of (m, a, t, x) (ss_stats st) = Some r'" using row_of_unique[OF assms] by metis
    with r' show ?thesis by simp
  qed
  finally show ?thesis by (simp add: column_def)
qed

definition scratch :: "string \<Rightarrow> string \<Rightarrow> string \<Rightarrow> instant \<Rightarrow> World \<Rightarrow> StatsStore \<Rightarrow> Window \<Rightarrow> WindowStats" where
  "scratch m t a now w st win = projr (compute_stats (attempt_outcomes m t a w) (feedback_outcomes m t a w st) win now)"

definition circuit :: "ReliabilityStat \<Rightarrow> BreakerState \<times> instant option \<times> breaker_reason option" where
  "circuit r = (rl_circuit_state r, rl_circuit_opened_at r, rl_circuit_reason r)"

definition same_circuits :: "StatsStore \<Rightarrow> StatsStore \<Rightarrow> bool" where
  "same_circuits st st' \<longleftrightarrow> (\<forall>k r. row_of stat_key_of k (ss_stats st) = Some r \<longrightarrow>
     (\<exists>r'. row_of stat_key_of k (ss_stats st') = Some r' \<and> circuit r' = circuit r))"

lemma same_circuits_trans: "same_circuits a b \<Longrightarrow> same_circuits b c \<Longrightarrow> same_circuits a c"
  unfolding same_circuits_def by metis

lemma circuits_write:
  "row_of stat_key_of k rows = Some r \<Longrightarrow>
   \<exists>r'. row_of stat_key_of k (write_windows m t a stats now rows) = Some r' \<and> circuit r' = circuit r"
proof (induction stats arbitrary: rows r)
  case (Cons s stats)
  have "\<exists>r'. row_of stat_key_of k (upsert stat_key_of overwrite_stat (stat_row m t a now s) rows) = Some r' \<and> circuit r' = circuit r"
    using Cons.prems by (auto simp: stats_table.row_of_upsert circuit_def overwrite_stat_def)
  then show ?case using Cons.IH by (fastforce simp: write_windows_def)
qed (simp add: write_windows_def)

lemma recompute_pair_spec:
  "\<exists>d st'. recompute_pair m t a now w st = Inr (d, st') \<and> ss_feedback st' = ss_feedback st \<and>
     (distinct (map stat_key_of (ss_stats st)) \<longrightarrow> distinct (map stat_key_of (ss_stats st'))) \<and> same_circuits st st' \<and>
     (\<forall>win \<in> set WINDOWS. map_of d (window_name win) = Some (scratch m t a now w st win)) \<and>
     (\<forall>m' t' a'. \<forall>win \<in> set WINDOWS. column (m', a', t', window_name win) (ss_stats st') =
       (if (m', t', a') = (m, t, a) then Some (scratch m t a now w st win) else column (m', a', t', window_name win) (ss_stats st)))"
proof -
  obtain stats where s: "window_stats m t a now w st = Inr stats" "map ws_window stats = map window_name WINDOWS"
    by (rule window_stats_total)
  let ?st = "st\<lparr>ss_stats := write_windows m t a stats now (ss_stats st)\<rparr>"
  have d: "map_of (zip (map window_name WINDOWS) stats) (window_name win) = Some (scratch m t a now w st win)"
    if "win \<in> set WINDOWS" for win using window_stats_window[OF s(1) that] by (simp add: scratch_def)
  have "find (\<lambda>s. ws_window s = window_name win) (rev stats) = Some (scratch m t a now w st win)"
    and "window_name win \<in> ws_window ` set stats" if "win \<in> set WINDOWS" for win
  proof -
    obtain x y z where xyz: "stats = [x, y, z]" using s(2) by (auto simp: map_eq_Cons_conv)
    have "ws_window x = ''7d''" "ws_window y = ''30d''" "ws_window z = ''all''" using s(2) unfolding xyz window_names by simp_all
    then show "find (\<lambda>s. ws_window s = window_name win) (rev stats) = Some (scratch m t a now w st win)"
      and "window_name win \<in> ws_window ` set stats"
      using d[OF that] unfolding xyz window_names by (auto split: if_splits)
  qed
  then have c: "column (m', a', t', window_name win) (ss_stats ?st) =
      (if (m', t', a') = (m, t, a) then Some (scratch m t a now w st win) else column (m', a', t', window_name win) (ss_stats st))"
    if "win \<in> set WINDOWS" for m' t' a' win using that by (simp add: column_write)
  have "same_circuits st ?st" by (simp add: same_circuits_def circuits_write)
  moreover have "recompute_pair m t a now w st = Inr (zip (map window_name WINDOWS) stats, ?st)"
    by (simp add: recompute_pair_def s(1))
  ultimately show ?thesis using d c distinct_write by (intro exI[of _ "zip (map window_name WINDOWS) stats"] exI[of _ ?st]) simp
qed

lemma scratch_feedback: "ss_feedback st' = ss_feedback st \<Longrightarrow> scratch m t a now w st' win = scratch m t a now w st win"
  by (simp add: scratch_def feedback_outcomes_def)

lemma recompute_each_spec:
  assumes "distinct (map stat_key_of (ss_stats st))"
  shows "\<exists>st'. recompute_each pairs now w st = Inr st' \<and> ss_feedback st' = ss_feedback st \<and>
    distinct (map stat_key_of (ss_stats st')) \<and> same_circuits st st' \<and>
    (\<forall>m t a. \<forall>win \<in> set WINDOWS. column (m, a, t, window_name win) (ss_stats st') =
      (if (m, t, a) \<in> set pairs then Some (scratch m t a now w st win) else column (m, a, t, window_name win) (ss_stats st)))"
  using assms
proof (induction pairs arbitrary: st)
  case Nil
  show ?case using Nil by (simp add: same_circuits_def)
next
  case (Cons p pairs)
  obtain m t a where p: "p = (m, t, a)" by (cases p)
  obtain d st1 where 1: "recompute_pair m t a now w st = Inr (d, st1)" "ss_feedback st1 = ss_feedback st"
    "distinct (map stat_key_of (ss_stats st)) \<longrightarrow> distinct (map stat_key_of (ss_stats st1))" "same_circuits st st1"
    and c: "\<forall>m' t' a'. \<forall>win \<in> set WINDOWS. column (m', a', t', window_name win) (ss_stats st1) =
      (if (m', t', a') = (m, t, a) then Some (scratch m t a now w st win) else column (m', a', t', window_name win) (ss_stats st))"
    using recompute_pair_spec[of m t a now w st] by (elim exE conjE)
  have d: "distinct (map stat_key_of (ss_stats st1))" using 1(3) Cons.prems by simp
  obtain st2 where 2: "recompute_each pairs now w st1 = Inr st2" "ss_feedback st2 = ss_feedback st1"
    "distinct (map stat_key_of (ss_stats st2))" "same_circuits st1 st2"
    and e: "\<forall>m t a. \<forall>win \<in> set WINDOWS. column (m, a, t, window_name win) (ss_stats st2) =
      (if (m, t, a) \<in> set pairs then Some (scratch m t a now w st1 win) else column (m, a, t, window_name win) (ss_stats st1))"
    using Cons.IH[OF d] by (elim exE conjE)
  have "recompute_each (p # pairs) now w st = Inr st2" by (simp add: p 1(1) 2(1))
  moreover have "column (m', a', t', window_name win) (ss_stats st2) =
      (if (m', t', a') \<in> set (p # pairs) then Some (scratch m' t' a' now w st win)
       else column (m', a', t', window_name win) (ss_stats st))" if "win \<in> set WINDOWS" for m' t' a' win
    using that e c by (simp add: p scratch_feedback[OF 1(2)])
  moreover have "ss_feedback st2 = ss_feedback st" by (simp add: 2(2) 1(2))
  moreover have "same_circuits st st2" by (rule same_circuits_trans[OF 1(4) 2(4)])
  ultimately show ?case using 2(3) by (intro exI[of _ st2] conjI allI ballI)
qed

lemma finite_known_pairs: "finite (known_pairs w st)"
  by (simp add: known_pairs_def)

text \<open>
  C19. The two ways to the statistics agree, and both are the definition. A full recomputation
  always ends; for every subject and profile that has an attempt, a verdict or a row, each of the
  three windows it stores is the statistic computed from that subject's own attempts and feedback
  and from nothing else, which is also what the incremental recomputation of that pair returns
  and stores. It touches no other pair's figures, no feedback, and never the circuit breaker's
  columns.
\<close>

theorem recompute_agrees:
  assumes "distinct (map stat_key_of (ss_stats st))"
  shows "\<exists>st'. recompute_all now w st = Inr (int (card (known_pairs w st)), st') \<and> ss_feedback st' = ss_feedback st \<and>
    same_circuits st st' \<and>
    (\<forall>m t a. \<forall>win \<in> set WINDOWS.
       map_of (stats_for m t a st') (window_name win) =
         (if (m, t, a) \<in> known_pairs w st then Some (scratch m t a now w st win)
          else map_of (stats_for m t a st) (window_name win)) \<and>
       (\<exists>d st''. recompute_pair m t a now w st = Inr (d, st'') \<and> map_of d (window_name win) = Some (scratch m t a now w st win) \<and>
          map_of (stats_for m t a st'') (window_name win) = Some (scratch m t a now w st win)))"
proof -
  let ?pairs = "sorted_list_of_set (known_pairs w st)"
  obtain st' where r: "recompute_each ?pairs now w st = Inr st'" "ss_feedback st' = ss_feedback st"
    "distinct (map stat_key_of (ss_stats st'))" "same_circuits st st'"
    and c: "\<forall>m t a. \<forall>win \<in> set WINDOWS. column (m, a, t, window_name win) (ss_stats st') =
      (if (m, t, a) \<in> set ?pairs then Some (scratch m t a now w st win) else column (m, a, t, window_name win) (ss_stats st))"
    using recompute_each_spec[OF assms, of ?pairs now w] by (elim exE conjE)
  have "recompute_all now w st = Inr (int (card (known_pairs w st)), st')" by (simp add: recompute_all_def r(1))
  moreover have "map_of (stats_for m t a st') (window_name win) =
      (if (m, t, a) \<in> known_pairs w st then Some (scratch m t a now w st win)
       else map_of (stats_for m t a st) (window_name win))" if "win \<in> set WINDOWS" for m t a win
    using c that by (simp add: stats_for_column assms r(3) finite_known_pairs)
  moreover have "\<exists>d st''. recompute_pair m t a now w st = Inr (d, st'') \<and> map_of d (window_name win) = Some (scratch m t a now w st win) \<and>
      map_of (stats_for m t a st'') (window_name win) = Some (scratch m t a now w st win)" if win: "win \<in> set WINDOWS" for m t a win
  proof -
    obtain d st'' where 1: "recompute_pair m t a now w st = Inr (d, st'')" "ss_feedback st'' = ss_feedback st"
      "distinct (map stat_key_of (ss_stats st)) \<longrightarrow> distinct (map stat_key_of (ss_stats st''))" "same_circuits st st''"
      "\<forall>win \<in> set WINDOWS. map_of d (window_name win) = Some (scratch m t a now w st win)"
      "\<forall>m' t' a'. \<forall>win \<in> set WINDOWS. column (m', a', t', window_name win) (ss_stats st'') =
        (if (m', t', a') = (m, t, a) then Some (scratch m t a now w st win) else column (m', a', t', window_name win) (ss_stats st))"
      using recompute_pair_spec[of m t a now w st] by (elim exE conjE)
    then show ?thesis using win assms by (intro exI[of _ d] exI[of _ st'']) (simp add: stats_for_column)
  qed
  ultimately show ?thesis using r(2,4) by (intro exI[of _ st'] conjI allI ballI)
qed

text \<open>A job that ran on an adapter subject, its attempt, and no statistics yet.\<close>

definition no_statistics :: StatsStore where
  "no_statistics = \<lparr>ss_feedback = [], ss_stats = [], ss_next = 0\<rparr>"

definition adapter_attempt :: JobAttempt where
  "adapter_attempt =
     \<lparr>ja_job_id = ''j'', ja_attempt = 1, ja_model_id = Some ''m'', ja_adapter_id = Some ''ad'', ja_subject_canonical_id = Some ''c'',
      ja_adapter_data_classification = None, ja_effective_data_classification = None, ja_runtime_profile_hash = ''h'', ja_rank = 1,
      ja_started_at = 1, ja_completed_at = Some 2, ja_outcome = ''completed'', ja_provider_ms = Some 5, ja_ttft_ms = None,
      ja_input_tokens = None, ja_output_tokens = Some 7, ja_cache_write_tokens = None, ja_cache_read_tokens = None,
      ja_finish_reason = None, ja_error_code = None, ja_error_text = None, ja_partial_response_hash = None, ja_prompt_id = None,
      ja_prompt_version = None, ja_prompt_sha256 = None\<rparr>"

definition adapter_world :: World where
  "adapter_world = (world_of [(plain_job ''j'' COMPLETED)\<lparr>task_profile_id := ''t'', selected_model_id := Some ''m'',
      selected_adapter_id := Some ''ad''\<rparr>])\<lparr>job_attempts := [adapter_attempt]\<rparr>"

lemma adapter_world_pairs: "known_pairs adapter_world no_statistics = {(''m'', ''t'', ''ad'')}"
  by (simp add: known_pairs_def no_statistics_def adapter_world_def adapter_attempt_def world_of_def plain_job_def
      List.map_filter_simps coalesce_def)

theorem recompute_agrees_witness:
  "\<exists>st'. recompute_all 9 adapter_world no_statistics = Inr (1, st') \<and>
     map_of (stats_for ''m'' ''t'' ''ad'' st') ''7d'' = Some (scratch ''m'' ''t'' ''ad'' 9 adapter_world no_statistics WINDOW_7D) \<and>
     map_of (stats_for ''m'' ''t'' [] st') ''7d'' = None"
proof -
  have d: "distinct (map stat_key_of (ss_stats no_statistics))" by (simp add: no_statistics_def)
  have win: "WINDOW_7D \<in> set WINDOWS" "window_name WINDOW_7D = ''7d''" by (simp_all add: WINDOWS_def WINDOW_7D_def)
  have none: "stats_for ''m'' ''t'' [] no_statistics = []" by (simp add: stats_for_def windows_of_def no_statistics_def)
  from recompute_agrees[OF d, of 9 adapter_world] obtain st' where
    "recompute_all 9 adapter_world no_statistics = Inr (1, st')"
    and s: "\<forall>m t a. \<forall>win \<in> set WINDOWS. map_of (stats_for m t a st') (window_name win) =
       (if (m, t, a) \<in> known_pairs adapter_world no_statistics
        then Some (scratch m t a 9 adapter_world no_statistics win) else map_of (stats_for m t a no_statistics) (window_name win))"
    unfolding adapter_world_pairs by auto
  moreover note s[rule_format, OF win(1), of "''m''" "''t''" "''ad''"] s[rule_format, OF win(1), of "''m''" "''t''" "[]"]
  ultimately show ?thesis by (intro exI[of _ st']) (simp add: adapter_world_pairs none win(2))
qed

end
