(* ===== verification/Feedback.thy ===== *)
theory Feedback
  imports Statistics
begin

section \<open>Feedback on a job\<close>

text \<open>
  Models \<^verbatim>\<open>src/src/loadcoach/services/feedback.py\<close>: one source's verdict on one job, stored once per
  \<open>(job_id, source)\<close> and folded into the statistics in a second transaction. The texts of the
  problems are left out of a refused submission: a refusal names the fields.
\<close>

definition MAX_SOURCE_LENGTH :: int where "MAX_SOURCE_LENGTH = 64"
definition MAX_NOTES_LENGTH :: int where "MAX_NOTES_LENGTH = 4000"

record FeedbackSubmission =
  fs_source :: string
  fs_accepted :: bool
  fs_quality_score :: "float64 option"
  fs_edited :: bool
  fs_validation_passed :: "bool option"
  fs_validation_detail :: json
  fs_notes :: "string option"

record FeedbackResult =
  fo_record :: FeedbackRow
  fo_created :: bool
  fo_model_id :: "string option"
  fo_task_profile_id :: string

datatype feedback_error =
    FeedbackNotAuthorized authorization_error
  | FeedbackInvalid "string list"
  | FeedbackJobNotFound string

definition feedback_json :: "rendering \<Rightarrow> FeedbackRow \<Rightarrow> (string \<times> json) list" where
  "feedback_json rn r =
     [(''feedback_id'', JStr (fd_id r)), (''job_id'', JStr (fd_job_id r)), (''source'', JStr (fd_source r)),
      (''accepted'', JBool (fd_accepted r)), (''quality_score'', of_opt_float (fd_quality_score r)), (''edited'', JBool (fd_edited r)),
      (''validation'', JObj [(''passed'', case fd_validation_passed r of None \<Rightarrow> JNull | Some b \<Rightarrow> JBool b),
                            (''detail'', fd_validation_detail r)]),
      (''notes'', of_opt_str (fd_notes r)), (''created_at'', JStr (to_rfc3339 rn (fd_created_at r))),
      (''updated_at'', JStr (to_rfc3339 rn (fd_updated_at r)))]"

definition feedback_problems :: "FeedbackSubmission \<Rightarrow> string list" where
  "feedback_problems s =
     (if strip (fs_source s) = [] \<or> int (length (fs_source s)) > MAX_SOURCE_LENGTH then [''source''] else []) @
     (if (case fs_quality_score s of None \<Rightarrow> False | Some q \<Rightarrow> \<not> (0 \<le> q \<and> q \<le> 1)) then [''quality_score''] else []) @
     (if (case fs_notes s of None \<Rightarrow> False | Some n \<Rightarrow> int (length n) > MAX_NOTES_LENGTH) then [''notes''] else [])"

definition check_feedback :: "FeedbackSubmission \<Rightarrow> feedback_error + unit" where
  "check_feedback s = (if feedback_problems s \<noteq> [] then Inl (FeedbackInvalid (feedback_problems s)) else Inr ())"

definition write_verdict :: "FeedbackSubmission \<Rightarrow> instant \<Rightarrow> FeedbackRow \<Rightarrow> FeedbackRow" where
  "write_verdict s now r = r\<lparr>fd_accepted := fs_accepted s, fd_quality_score := fs_quality_score s, fd_edited := fs_edited s,
     fd_validation_passed := fs_validation_passed s, fd_validation_detail := fs_validation_detail s, fd_notes := fs_notes s,
     fd_updated_at := now\<rparr>"

definition new_feedback :: "string \<Rightarrow> string \<Rightarrow> FeedbackSubmission \<Rightarrow> instant \<Rightarrow> FeedbackRow" where
  "new_feedback fid job s now =
     write_verdict s now \<lparr>fd_id = fid, fd_job_id = job, fd_source = fs_source s, fd_accepted = False, fd_quality_score = None,
       fd_edited = False, fd_validation_passed = None, fd_validation_detail = JNull, fd_notes = None, fd_created_at = now,
       fd_updated_at = now\<rparr>"

text \<open>The job is refreshed as the bare base whatever ran it: \<open>_refresh_statistics\<close> passes no adapter key.\<close>

definition refresh_statistics :: "FeedbackResult \<Rightarrow> instant \<Rightarrow> World \<Rightarrow> StatsStore \<Rightarrow> StatsStore" where
  "refresh_statistics out now w st =
     (case fo_model_id out of None \<Rightarrow> st | Some m \<Rightarrow> recomputed m (fo_task_profile_id out) [] now w st)"

definition store_feedback :: "(nat \<Rightarrow> string) \<Rightarrow> Job \<Rightarrow> FeedbackSubmission \<Rightarrow> instant \<Rightarrow> StatsStore \<Rightarrow> FeedbackResult \<times> StatsStore" where
  "store_feedback ulid j s now st =
     (let found = row_of feedback_key_of (job_id j, fs_source s) (ss_feedback st);
          row = (case found of None \<Rightarrow> new_feedback (ulid (ss_next st)) (job_id j) s now | Some r \<Rightarrow> write_verdict s now r)
      in (\<lparr>fo_record = row, fo_created = (found = None), fo_model_id = selected_model_id j, fo_task_profile_id = task_profile_id j\<rparr>,
          st\<lparr>ss_feedback := (if found = None then ss_feedback st @ [row]
                else update_where (\<lambda>r. feedback_key_of r = (job_id j, fs_source s)) (write_verdict s now) (ss_feedback st)),
             ss_next := ss_next st + (if found = None then 1 else 0)\<rparr>))"

definition record_feedback :: "(nat \<Rightarrow> string) \<Rightarrow> Principal option \<Rightarrow> string \<Rightarrow> FeedbackSubmission \<Rightarrow> instant \<Rightarrow> World \<Rightarrow>
    StatsStore \<Rightarrow> feedback_error + FeedbackResult \<times> StatsStore" where
  "record_feedback ulid caller jid s now w st =
     (case authorize caller ''write'' of
        Inl e \<Rightarrow> Inl (FeedbackNotAuthorized e)
      | Inr _ \<Rightarrow>
          bind_result (check_feedback s) (\<lambda>_.
            (case get_row jid (jobs w) of
               None \<Rightarrow> Inl (FeedbackJobNotFound jid)
             | Some j \<Rightarrow>
                 (case store_feedback ulid j s now st of
                    (out, st') \<Rightarrow> Inr (out, refresh_statistics out now w st')))))"

definition feedback_for_job :: "string \<Rightarrow> StatsStore \<Rightarrow> FeedbackRow list" where
  "feedback_for_job jid st = sort_key (\<lambda>r. (fd_created_at r, fd_source r)) (filter (\<lambda>r. fd_job_id r = jid) (ss_feedback st))"

definition list_feedback :: "string \<Rightarrow> World \<Rightarrow> StatsStore \<Rightarrow> feedback_error + FeedbackRow list" where
  "list_feedback jid w st = (if get_row jid (jobs w) = None then Inl (FeedbackJobNotFound jid) else Inr (feedback_for_job jid st))"

subsection \<open>A verdict is stored once\<close>

lemma feedback_key_verdict [simp]: "feedback_key_of (write_verdict s now r) = feedback_key_of r"
  by (simp add: feedback_key_of_def write_verdict_def)

lemma feedback_key_new [simp]: "feedback_key_of (new_feedback i j s now) = (j, fs_source s)"
  by (simp add: new_feedback_def) (simp add: feedback_key_of_def)

lemma update_where_map: "update_where P f xs = map (\<lambda>x. if P x then f x else x) xs"
  by (simp add: update_where_def)

lemma store_feedback_rows:
  assumes "store_feedback ulid j s now st = (out, st')"
  shows "row_of feedback_key_of k (ss_feedback st') =
      (if k = (job_id j, fs_source s) then Some (fo_record out) else row_of feedback_key_of k (ss_feedback st)) \<and>
    (distinct (map feedback_key_of (ss_feedback st)) \<longrightarrow> distinct (map feedback_key_of (ss_feedback st'))) \<and>
    ss_stats st' = ss_stats st"
proof (cases "row_of feedback_key_of (job_id j, fs_source s) (ss_feedback st)")
  case None
  have "row_of feedback_key_of k [new_feedback i (job_id j) s now] =
      (if k = (job_id j, fs_source s) then Some (new_feedback i (job_id j) s now) else None)" for i
    by (auto simp: row_of_def)
  moreover have "(job_id j, fs_source s) \<notin> feedback_key_of ` set (ss_feedback st)" using None by (simp add: row_of_None)
  ultimately show ?thesis using assms None
    by (auto simp: store_feedback_def Let_def row_of_append split: option.splits)
next
  case (Some r)
  let ?f = "\<lambda>r. if feedback_key_of r = (job_id j, fs_source s) then write_verdict s now r else r"
  have m: "row_of feedback_key_of k (map ?f (ss_feedback st)) = map_option ?f (row_of feedback_key_of k (ss_feedback st))"
    by (rule row_of_map) simp
  have key: "feedback_key_of r = (job_id j, fs_source s)" using Some row_of_Some by fastforce
  have keys: "map feedback_key_of (map ?f (ss_feedback st)) = map feedback_key_of (ss_feedback st)" by (auto simp: comp_def)
  have out: "fo_record out = write_verdict s now r" "ss_feedback st' = map ?f (ss_feedback st)" "ss_stats st' = ss_stats st"
    using assms Some by (auto simp: store_feedback_def Let_def update_where_map)
  show ?thesis unfolding out m keys
    using Some key by (cases "row_of feedback_key_of k (ss_feedback st)") (auto dest: row_of_Some)
qed

lemma recomputed_spec:
  shows "ss_feedback (recomputed m t a now w st) = ss_feedback st" (is ?feedback)
    and "distinct (map stat_key_of (ss_stats st)) \<Longrightarrow> distinct (map stat_key_of (ss_stats (recomputed m t a now w st)))"
    and "distinct (map stat_key_of (ss_stats st)) \<Longrightarrow> win \<in> set WINDOWS \<Longrightarrow>
      map_of (stats_for m t a (recomputed m t a now w st)) (window_name win) = Some (scratch m t a now w st win)"
proof -
  obtain d st' where r: "recomputed m t a now w st = st'" "ss_feedback st' = ss_feedback st"
    "distinct (map stat_key_of (ss_stats st)) \<longrightarrow> distinct (map stat_key_of (ss_stats st'))"
    "\<forall>m' t' a'. \<forall>win \<in> set WINDOWS. column (m', a', t', window_name win) (ss_stats st') =
      (if (m', t', a') = (m, t, a) then Some (scratch m t a now w st win) else column (m', a', t', window_name win) (ss_stats st))"
    using recompute_pair_spec[of m t a now w st] unfolding recomputed_def by (elim exE conjE) simp
  from r show ?feedback and "distinct (map stat_key_of (ss_stats st)) \<Longrightarrow> distinct (map stat_key_of (ss_stats (recomputed m t a now w st)))"
    by simp_all
  from r show "distinct (map stat_key_of (ss_stats st)) \<Longrightarrow> win \<in> set WINDOWS \<Longrightarrow>
      map_of (stats_for m t a (recomputed m t a now w st)) (window_name win) = Some (scratch m t a now w st win)"
    by (simp add: stats_for_column)
qed

definition carries :: "FeedbackSubmission \<Rightarrow> instant \<Rightarrow> FeedbackRow \<Rightarrow> bool" where
  "carries s now r \<longleftrightarrow> fd_accepted r = fs_accepted s \<and> fd_quality_score r = fs_quality_score s \<and> fd_edited r = fs_edited s \<and>
     fd_validation_passed r = fs_validation_passed s \<and> fd_validation_detail r = fs_validation_detail s \<and>
     fd_notes r = fs_notes s \<and> fd_updated_at r = now"

lemma stored_row:
  assumes "store_feedback ulid j s now st = (out, st')"
  shows "carries s now (fo_record out) \<and> fo_model_id out = selected_model_id j \<and> fo_task_profile_id out = task_profile_id j \<and>
    (case row_of feedback_key_of (job_id j, fs_source s) (ss_feedback st) of
       None \<Rightarrow> fo_created out \<and> fd_created_at (fo_record out) = now
     | Some r \<Rightarrow> \<not> fo_created out \<and> fd_created_at (fo_record out) = fd_created_at r \<and> fd_id (fo_record out) = fd_id r)"
  using assms by (auto simp: store_feedback_def Let_def carries_def new_feedback_def write_verdict_def split: option.splits)


definition praise :: FeedbackSubmission where
  "praise = \<lparr>fs_source = ''app'', fs_accepted = True, fs_quality_score = Some 1, fs_edited = False, fs_validation_passed = None,
     fs_validation_detail = JNull, fs_notes = None\<rparr>"

lemma praise_checked: "check_feedback praise = Inr ()"
  by (simp add: check_feedback_def feedback_problems_def praise_def MAX_SOURCE_LENGTH_def, code_simp)

lemma praise_stored:
  "\<exists>out st'. record_feedback (\<lambda>n. ''f'') None ''j'' praise 9 adapter_world no_statistics = Inr (out, st') \<and> fo_model_id out = Some ''m'' \<and>
     fo_task_profile_id out = ''t''"
proof -
  have a: "authorize None ''write'' = Inr None" by (simp add: authorize_Inr)
  show ?thesis
    by (simp add: record_feedback_def a praise_checked adapter_world_def world_of_def get_row_def plain_job_def
        store_feedback_def Let_def no_statistics_def row_of_def)
qed


subsection \<open>The incremental paths never reach an adapter subject\<close>

lemma filter_upsert_base:
  "filter (\<lambda>r. rl_adapter_key r \<noteq> []) (upsert stat_key_of overwrite_stat (stat_row m t [] now s) rows) =
   filter (\<lambda>r. rl_adapter_key r \<noteq> []) rows"
proof -
  have "filter (\<lambda>r. rl_adapter_key r \<noteq> []) (map (\<lambda>r. if stat_key_of r = (m, [], t, ws_window s)
      then overwrite_stat r (stat_row m t [] now s) else r) xs) = filter (\<lambda>r. rl_adapter_key r \<noteq> []) xs" for xs
    by (induction xs) (auto simp: stat_key_of_def overwrite_stat_def stat_row_def)
  then show ?thesis by (simp add: upsert_def) (simp add: stat_row_def)
qed

lemma filter_recomputed:
  "filter (\<lambda>r. rl_adapter_key r \<noteq> []) (ss_stats (recomputed m t [] now w st)) = filter (\<lambda>r. rl_adapter_key r \<noteq> []) (ss_stats st)"
proof -
  have "filter (\<lambda>r. rl_adapter_key r \<noteq> []) (write_windows m t [] stats now rows) = filter (\<lambda>r. rl_adapter_key r \<noteq> []) rows" for stats rows
    by (induction stats arbitrary: rows) (simp_all add: write_windows_def filter_upsert_base)
  then show ?thesis
    by (auto simp: recomputed_def recompute_pair_def bind_result_def split: sum.splits)
qed

lemma factor_of_subject:
  "map_of (factors_for_task t st) (m, a) =
     (let rows = filter (\<lambda>r. rl_task_profile_id r = t \<and> rl_model_id r = m \<and> rl_adapter_key r = a) (ss_stats st)
      in if rows = [] then None else Some (reliability_factor (windows_of rows)))"
proof -
  have "map_of (map (\<lambda>(subject, rows). (subject, reliability_factor (windows_of rows))) d) k =
      map_option (\<lambda>rows. reliability_factor (windows_of rows)) (map_of d k)" for d :: "(string \<times> string, ReliabilityStat list) dict" and k
    by (induction d) auto
  then show ?thesis by (auto simp: factors_for_task_def map_of_group_by Let_def filter_empty_conv)
qed

lemma factor_filter:
  assumes "filter (\<lambda>r. rl_adapter_key r \<noteq> []) (ss_stats st') = filter (\<lambda>r. rl_adapter_key r \<noteq> []) (ss_stats st)" and "a \<noteq> []"
  shows "map_of (factors_for_task t st') (m, a) = map_of (factors_for_task t st) (m, a)"
proof -
  have "filter (\<lambda>r. rl_task_profile_id r = t \<and> rl_model_id r = m \<and> rl_adapter_key r = a) rows =
      filter (\<lambda>r. rl_task_profile_id r = t \<and> rl_model_id r = m \<and> rl_adapter_key r = a) (filter (\<lambda>r. rl_adapter_key r \<noteq> []) rows)" for rows
    using assms(2) by (auto intro!: filter_cong)
  from this[of "ss_stats st'"] this[of "ss_stats st"] show ?thesis by (simp only: factor_of_subject assms(1))
qed

definition incremental_effects :: "(nat \<Rightarrow> string) \<Rightarrow> Principal option \<Rightarrow> string \<Rightarrow> FeedbackSubmission \<Rightarrow> AttemptRecord \<Rightarrow>
    AttemptRecord list \<Rightarrow> string \<Rightarrow> instant \<Rightarrow> World \<Rightarrow> StatsStore \<Rightarrow> StatsStore set" where
  "incremental_effects ulid caller jid s record records profile now w st =
     {refresh_after_attempt record profile now w st, refresh_reliability records profile now w st} \<union>
     (case record_feedback ulid caller jid s now w st of Inl e \<Rightarrow> {} | Inr (out, st') \<Rightarrow> {st'})"

lemma incremental_filter:
  assumes "st' \<in> incremental_effects ulid caller jid s record records profile now w st"
  shows "filter (\<lambda>r. rl_adapter_key r \<noteq> []) (ss_stats st') = filter (\<lambda>r. rl_adapter_key r \<noteq> []) (ss_stats st)"
proof -
  let ?keep = "filter (\<lambda>r. rl_adapter_key r \<noteq> [])"
  have "?keep (ss_stats (refresh_after_attempt record profile now w st)) = ?keep (ss_stats st)"
    by (simp add: refresh_after_attempt_def filter_recomputed split: option.splits)
  moreover have "?keep (ss_stats (fold (\<lambda>m. recomputed m profile [] now w) ms st)) = ?keep (ss_stats st)" for ms
    by (induction ms arbitrary: st) (simp_all add: filter_recomputed)
  moreover have "?keep (ss_stats st') = ?keep (ss_stats st)" if r: "record_feedback ulid caller jid s now w st = Inr (out, st')" for out
  proof -
    obtain j st1 where "store_feedback ulid j s now st = (out, st1)" "st' = refresh_statistics out now w st1"
      using r by (auto simp: record_feedback_def bind_result_Inr_iff split: sum.splits option.splits prod.splits)
    then show ?thesis
      by (auto simp: refresh_statistics_def filter_recomputed dest: store_feedback_rows split: option.splits)
  qed
  ultimately show ?thesis
    using assms by (auto simp: incremental_effects_def refresh_reliability_def split: sum.splits prod.splits)
qed

text \<open>
  C35. None of the program's incremental recomputations ever reaches an adapter subject. The worker
  after an attempt, the synchronous path after a request and the feedback service after a verdict
  all recompute the pair of the bare base, whatever subject the job ran on; each leaves the rows of
  every adapter subject, and so the factor routing reads for it, exactly as they were. An adapter
  that is used is therefore never measured: the job, its attempt and its verdict below change the
  base's rows, and the adapter subject, which a full recomputation would give its first row, stays
  without one. The full recomputation is called by the tests only.
\<close>

theorem adapter_statistics_stale:
  "(\<forall>st' \<in> incremental_effects ulid caller jid s record records profile now w st. \<forall>t m a. a \<noteq> [] \<longrightarrow>
      map_of (factors_for_task t st') (m, a) = map_of (factors_for_task t st) (m, a)) \<and>
   (\<exists>out st'. record_feedback (\<lambda>n. ''f'') None ''j'' praise 9 adapter_world no_statistics = Inr (out, st') \<and>
      map_of (factors_for_task ''t'' st') (''m'', ''ad'') = None \<and> stats_for ''m'' ''t'' [] st' \<noteq> []) \<and>
   (\<exists>n st'. recompute_all 9 adapter_world no_statistics = Inr (n, st') \<and> map_of (factors_for_task ''t'' st') (''m'', ''ad'') \<noteq> None)"
proof (intro conjI)
  show "\<forall>st' \<in> incremental_effects ulid caller jid s record records profile now w st. \<forall>t m a. a \<noteq> [] \<longrightarrow>
      map_of (factors_for_task t st') (m, a) = map_of (factors_for_task t st) (m, a)"
    by (intro ballI allI impI factor_filter) (rule incremental_filter)
  have win: "WINDOW_7D \<in> set WINDOWS" by (simp add: WINDOWS_def)
  have ok: "distinct (map stat_key_of (ss_stats no_statistics))" by (simp add: no_statistics_def)
  obtain out st' where r: "record_feedback (\<lambda>n. ''f'') None ''j'' praise 9 adapter_world no_statistics = Inr (out, st')"
    "fo_model_id out = Some ''m''" "fo_task_profile_id out = ''t''" using praise_stored by blast
  have "st' \<in> incremental_effects (\<lambda>n. ''f'') None ''j'' praise undefined [] ''t'' 9 adapter_world no_statistics"
    by (simp add: incremental_effects_def r(1))
  from factor_filter[OF incremental_filter[OF this], of "''ad''" "''t''" "''m''"]
  have "map_of (factors_for_task ''t'' st') (''m'', ''ad'') = None" by (simp add: factor_of_subject no_statistics_def)
  moreover obtain j st1 where "store_feedback (\<lambda>n. ''f'') j praise 9 no_statistics = (out, st1)" "st' = refresh_statistics out 9 adapter_world st1"
    using r(1) by (auto simp: record_feedback_def bind_result_Inr_iff split: sum.splits option.splits prod.splits)
  then have "map_of (stats_for ''m'' ''t'' [] st') (window_name WINDOW_7D) \<noteq> None"
    using recomputed_spec(3)[OF _ win, of st1 "''m''" "''t''" "[]" 9 adapter_world] store_feedback_rows ok r(2,3)
    by (fastforce simp: refresh_statistics_def)
  ultimately show "\<exists>out st'. record_feedback (\<lambda>n. ''f'') None ''j'' praise 9 adapter_world no_statistics = Inr (out, st') \<and>
      map_of (factors_for_task ''t'' st') (''m'', ''ad'') = None \<and> stats_for ''m'' ''t'' [] st' \<noteq> []" using r(1) by auto
  obtain st2 where s: "recompute_each [(''m'', ''t'', ''ad'')] 9 adapter_world no_statistics = Inr st2"
    and c: "\<forall>m t a. \<forall>win \<in> set WINDOWS. column (m, a, t, window_name win) (ss_stats st2) =
      (if (m, t, a) \<in> set [(''m'', ''t'', ''ad'')] then Some (scratch m t a 9 adapter_world no_statistics win)
       else column (m, a, t, window_name win) (ss_stats no_statistics))"
    using recompute_each_spec[OF ok, of "[(''m'', ''t'', ''ad'')]" 9 adapter_world] by (elim exE conjE)
  have "column (''m'', ''ad'', ''t'', window_name WINDOW_7D) (ss_stats st2) \<noteq> None" using c win by simp
  then obtain r where "r \<in> set (ss_stats st2)" "stat_key_of r = (''m'', ''ad'', ''t'', window_name WINDOW_7D)"
    by (auto simp: column_def dest!: row_of_Some)
  then have "map_of (factors_for_task ''t'' st2) (''m'', ''ad'') \<noteq> None"
    by (auto simp: factor_of_subject Let_def filter_empty_conv stat_key_of_def)
  moreover have "recompute_all 9 adapter_world no_statistics = Inr (1, st2)"
    unfolding recompute_all_def adapter_world_pairs by (simp add: s del: recompute_each.simps)
  ultimately show "\<exists>n st'. recompute_all 9 adapter_world no_statistics = Inr (n, st') \<and>
      map_of (factors_for_task ''t'' st') (''m'', ''ad'') \<noteq> None" by blast
qed

theorem adapter_statistics_stale_witness:
  "\<exists>out st'. record_feedback (\<lambda>n. ''f'') None ''j'' praise 9 adapter_world no_statistics = Inr (out, st') \<and>
     map_of (factors_for_task ''t'' st') (''m'', ''ad'') = map_of (factors_for_task ''t'' no_statistics) (''m'', ''ad'')"
proof -
  obtain out st' where r: "record_feedback (\<lambda>n. ''f'') None ''j'' praise 9 adapter_world no_statistics = Inr (out, st')"
    using praise_stored by blast
  then have "st' \<in> incremental_effects (\<lambda>n. ''f'') None ''j'' praise undefined [] ''t'' 9 adapter_world no_statistics"
    by (simp add: incremental_effects_def)
  from adapter_statistics_stale[THEN conjunct1, rule_format, OF this] r show ?thesis by blast
qed

end
