(* ===== verification/Task_Profiles.thy ===== *)
theory Task_Profiles
  imports Job_Queue Tables
begin

section \<open>Task profiles\<close>

text \<open>
  Models \<^verbatim>\<open>src/src/loadcoach/domain/task_profile.py\<close> and the import of
  \<^verbatim>\<open>src/src/loadcoach/services/task_profiles.py\<close>: the shape of a profile, the rules a profile must meet
  before the program starts, and the table routing reads it from. Pydantic's validation of the
  parsed TOML is the argument \<open>model_validate\<close>, SetSpec's vocabulary the argument \<open>is_known\<close> and
  the file system the record \<open>schema_files\<close> (whether a reference resolves inside the directory of
  schemas, whether it is a file). The description and the creation time of a row are not kept.
\<close>

definition WEIGHT_SUM_TOLERANCE :: float64 where "WEIGHT_SUM_TOLERANCE = fl (1 / 1000000)"

record TaskProfileConstraints =
  tc_min_context_tokens :: int
  tc_requires_capabilities :: "string list"
  tc_max_latency_p95_seconds :: "float64 option"
  tc_min_capability_scores :: "(string, float64) dict"
  tc_exclude_models :: "string list"
  tc_allow_remote_providers :: bool

record TaskProfileExecution =
  te_temperature :: float64
  te_max_output_tokens :: int
  te_min_output_tokens :: "int option"
  te_response_format :: string
  te_json_schema_ref :: "string option"
  te_max_attempts :: int
  te_fallback_depth :: int
  te_think :: "bool option"

record TaskProfileValidation =
  tv_require_valid_json :: bool
  tv_require_schema :: bool
  tv_required_fields :: "string list"
  tv_max_output_chars :: int

record TaskProfile =
  tf_profile_id :: string
  tf_version :: string
  tf_weights :: "(string, float64) dict"
  tf_constraints :: TaskProfileConstraints
  tf_execution :: TaskProfileExecution
  tf_validation :: TaskProfileValidation
  tf_enabled :: bool

record schema_files =
  inside_schemas :: "string \<Rightarrow> bool"
  schema_is_file :: "string \<Rightarrow> bool"

datatype profile_problem =
    ProfileMalformed string
  | WeightsEmpty
  | WeightSum float64
  | CapabilityUnknown string
  | SchemaOutside string
  | SchemaMissing string
  | SchemaUnset
  | OutputFloor int int
  | SchemaRequired

definition profile_capabilities :: "TaskProfile \<Rightarrow> string set" where
  "profile_capabilities p = fst ` set (tf_weights p) \<union> set (tc_requires_capabilities (tf_constraints p)) \<union>
     fst ` set (tc_min_capability_scores (tf_constraints p))"

definition schema_problem :: "schema_files \<Rightarrow> TaskProfile \<Rightarrow> profile_problem option" where
  "schema_problem fs p =
     (case te_json_schema_ref (tf_execution p) of
        None \<Rightarrow> if te_response_format (tf_execution p) = ''json_schema'' then Some SchemaUnset else None
      | Some r \<Rightarrow> if \<not> inside_schemas fs r then Some (SchemaOutside r)
          else if \<not> schema_is_file fs r then Some (SchemaMissing r) else None)"

definition profile_problem_of :: "(string \<Rightarrow> bool) \<Rightarrow> schema_files \<Rightarrow> TaskProfile \<Rightarrow> profile_problem option" where
  "profile_problem_of is_known fs p =
     (let total = fsum (map snd (tf_weights p)); ex = tf_execution p in
      if tf_weights p = [] then Some WeightsEmpty
      else if \<bar>fl (total - 1)\<bar> > WEIGHT_SUM_TOLERANCE then Some (WeightSum total)
      else (case find (\<lambda>c. \<not> is_known c) (sorted_list_of_set (profile_capabilities p)) of
        Some c \<Rightarrow> Some (CapabilityUnknown c)
      | None \<Rightarrow>
        (case schema_problem fs p of
           Some e \<Rightarrow> Some e
         | None \<Rightarrow>
           (case te_min_output_tokens ex of
              Some n \<Rightarrow> if n > te_max_output_tokens ex then Some (OutputFloor n (te_max_output_tokens ex))
                else if tv_require_schema (tf_validation p) \<and> te_json_schema_ref ex \<in> {None, Some []} then Some SchemaRequired else None
            | None \<Rightarrow> if tv_require_schema (tf_validation p) \<and> te_json_schema_ref ex \<in> {None, Some []} then Some SchemaRequired else None))))"

definition validate_one :: "(string \<Rightarrow> bool) \<Rightarrow> schema_files \<Rightarrow> (string \<Rightarrow> (string \<times> json) list \<Rightarrow> string + TaskProfile) \<Rightarrow> string \<Rightarrow>
    (string \<times> json) list \<Rightarrow> (string \<times> profile_problem) + TaskProfile" where
  "validate_one is_known fs model_validate pid raw =
     (case model_validate pid raw of
        Inl e \<Rightarrow> Inl (pid, ProfileMalformed e)
      | Inr p \<Rightarrow> (case profile_problem_of is_known fs p of Some e \<Rightarrow> Inl (pid, e) | None \<Rightarrow> Inr p))"

definition load_task_profiles :: "(string \<Rightarrow> bool) \<Rightarrow> schema_files \<Rightarrow> (string \<Rightarrow> (string \<times> json) list \<Rightarrow> string + TaskProfile) \<Rightarrow>
    (string \<times> (string \<times> json) list) list \<Rightarrow> (string \<times> profile_problem) + TaskProfile list" where
  "load_task_profiles is_known fs model_validate profiles =
     traverse (\<lambda>(pid, raw). validate_one is_known fs model_validate pid raw) profiles"

subsection \<open>The stored table\<close>

definition of_opt_bool :: "bool option \<Rightarrow> json" where
  "of_opt_bool x = (case x of None \<Rightarrow> JNull | Some b \<Rightarrow> JBool b)"

definition constraints_json :: "TaskProfileConstraints \<Rightarrow> (string \<times> json) list" where
  "constraints_json c =
     [(''min_context_tokens'', JInt (tc_min_context_tokens c)),
      (''requires_capabilities'', JList (map JStr (tc_requires_capabilities c))),
      (''max_latency_p95_seconds'', of_opt_float (tc_max_latency_p95_seconds c)),
      (''min_capability_scores'', JObj (map (\<lambda>(k, v). (k, JFloat v)) (tc_min_capability_scores c))),
      (''exclude_models'', JList (map JStr (tc_exclude_models c))),
      (''allow_remote_providers'', JBool (tc_allow_remote_providers c))]"

definition execution_json :: "TaskProfileExecution \<Rightarrow> (string \<times> json) list" where
  "execution_json e =
     [(''temperature'', JFloat (te_temperature e)), (''max_output_tokens'', JInt (te_max_output_tokens e)),
      (''min_output_tokens'', of_opt_int (te_min_output_tokens e)), (''response_format'', JStr (te_response_format e)),
      (''json_schema_ref'', of_opt_str (te_json_schema_ref e)), (''max_attempts'', JInt (te_max_attempts e)),
      (''fallback_depth'', JInt (te_fallback_depth e)), (''think'', of_opt_bool (te_think e))]"

definition validation_json :: "TaskProfileValidation \<Rightarrow> (string \<times> json) list" where
  "validation_json v =
     [(''require_valid_json'', JBool (tv_require_valid_json v)), (''require_schema'', JBool (tv_require_schema v)),
      (''required_fields'', JList (map JStr (tv_required_fields v))), (''max_output_chars'', JInt (tv_max_output_chars v))]"

definition profile_row :: "TaskProfile \<Rightarrow> instant \<Rightarrow> TaskProfileRow" where
  "profile_row p now =
     \<lparr>tp_profile_id = tf_profile_id p, tp_version = tf_version p, tp_weights = map (\<lambda>(k, v). (k, JFloat v)) (tf_weights p),
      tp_constraints = constraints_json (tf_constraints p), tp_execution = execution_json (tf_execution p),
      tp_validation = validation_json (tf_validation p), tp_enabled = tf_enabled p, tp_updated_at = now\<rparr>"

definition profile_key :: "TaskProfileRow \<Rightarrow> string \<times> string" where
  "profile_key r = (tp_profile_id r, tp_version r)"

definition import_task_profiles :: "TaskProfile list \<Rightarrow> instant \<Rightarrow> World \<Rightarrow> int \<times> World" where
  "import_task_profiles profiles now w =
     (int (length profiles),
      w\<lparr>task_profiles := fold (\<lambda>p. upsert profile_key (\<lambda>_ n. n) (profile_row p now)) profiles (task_profiles w)\<rparr>)"

definition list_stored_task_profiles :: "World \<Rightarrow> TaskProfileRow list" where
  "list_stored_task_profiles w = sort_key (\<lambda>p. - tp_updated_at p) (task_profiles w)"

fun json_float :: "json \<Rightarrow> float64 option" where
  "json_float (JFloat x) = Some x"
| "json_float (JInt i) = Some (fl (of_int i))"
| "json_float _ = None"

text \<open>\<open>cast("dict[str, float]", row.weights_json)\<close>: what the row holds, read as floats.\<close>

definition weights_of :: "TaskProfileRow \<Rightarrow> (string, float64) dict" where
  "weights_of r = List.map_filter (\<lambda>(k, v). map_option (Pair k) (json_float v)) (tp_weights r)"

interpretation profile_table: upsert_table profile_key "\<lambda>_ n. n"
  by unfold_locales simp_all

subsection \<open>What starts\<close>

definition schema_ready :: "schema_files \<Rightarrow> TaskProfile \<Rightarrow> bool" where
  "schema_ready fs p \<longleftrightarrow>
     (\<forall>r. te_json_schema_ref (tf_execution p) = Some r \<longrightarrow> inside_schemas fs r \<and> schema_is_file fs r) \<and>
     (te_response_format (tf_execution p) = ''json_schema'' \<longrightarrow> te_json_schema_ref (tf_execution p) \<noteq> None) \<and>
     (tv_require_schema (tf_validation p) \<longrightarrow> (\<exists>r. te_json_schema_ref (tf_execution p) = Some r \<and> r \<noteq> []))"

definition profile_sound :: "(string \<Rightarrow> bool) \<Rightarrow> schema_files \<Rightarrow> TaskProfile \<Rightarrow> bool" where
  "profile_sound is_known fs p \<longleftrightarrow>
     tf_weights p \<noteq> [] \<and> \<bar>fl (fsum (map snd (tf_weights p)) - 1)\<bar> \<le> WEIGHT_SUM_TOLERANCE \<and>
     (\<forall>c \<in> profile_capabilities p. is_known c) \<and> schema_ready fs p \<and>
     (\<forall>n. te_min_output_tokens (tf_execution p) = Some n \<longrightarrow> n \<le> te_max_output_tokens (tf_execution p))"

lemma finite_profile_capabilities [simp]: "finite (profile_capabilities p)"
  by (simp add: profile_capabilities_def)

lemma profile_problem_None: "profile_problem_of is_known fs p = None \<longleftrightarrow> profile_sound is_known fs p"
proof -
  have k: "find (\<lambda>c. \<not> is_known c) (sorted_list_of_set (profile_capabilities p)) = None \<longleftrightarrow> (\<forall>c \<in> profile_capabilities p. is_known c)"
    by (auto simp: find_None_iff)
  show ?thesis
    unfolding profile_problem_of_def profile_sound_def schema_problem_def schema_ready_def Let_def k[symmetric]
    by (cases "te_json_schema_ref (tf_execution p)"; cases "te_min_output_tokens (tf_execution p)";
        cases "find (\<lambda>c. \<not> is_known c) (sorted_list_of_set (profile_capabilities p))")
      (auto simp: not_less)
qed

lemma hd_sort_key:
  assumes "r \<in> set xs" and "\<And>x. x \<in> set xs \<Longrightarrow> x \<noteq> r \<Longrightarrow> k r < k x"
  shows "hd (sort_key k xs) = r \<and> sort_key k xs \<noteq> []"
proof -
  have ne: "sort_key k xs \<noteq> []" using assms(1) by (metis empty_iff empty_set set_sort)
  have "hd (sort_key k xs) \<in> set xs" using ne by (metis list.set_sel(1) set_sort)
  moreover have "k (hd (sort_key k xs)) \<le> k r"
  proof -
    have "sorted (map k (sort_key k xs))" by (rule sorted_sort_key)
    moreover have "r \<in> set (sort_key k xs)" using assms(1) by simp
    ultimately show ?thesis by (cases "sort_key k xs") (auto)
  qed
  ultimately show ?thesis using assms(2) ne by force
qed

text \<open>
  Startup is refused exactly when a profile is unsound. The set loads if and only if every
  profile in it parses and is sound (it weights at least one capability, its weights add up to
  one within the tolerance, every capability it weights, requires or puts a floor under is in the
  vocabulary, its schema is a file inside the directory whenever one is named and is named whenever
  one is needed, and its output floor does not exceed its allowance), and then it loads in the
  order given; the first profile that is not is the one named.
\<close>

theorem profiles_load_exactly:
  "(load_task_profiles is_known fs model_validate profiles = Inr ps \<longleftrightarrow>
      list_all2 (\<lambda>(pid, raw) p. model_validate pid raw = Inr p \<and> profile_sound is_known fs p) profiles ps) \<and>
   (load_task_profiles is_known fs model_validate profiles = Inl (pid, e) \<longrightarrow>
      (\<exists>raw. (pid, raw) \<in> set profiles \<and>
         (case model_validate pid raw of Inl x \<Rightarrow> e = ProfileMalformed x
          | Inr p \<Rightarrow> \<not> profile_sound is_known fs p \<and> profile_problem_of is_known fs p = Some e)))"
proof
  have one: "validate_one is_known fs model_validate pid raw = Inr p \<longleftrightarrow>
      model_validate pid raw = Inr p \<and> profile_sound is_known fs p" for pid raw p
    by (auto simp: validate_one_def profile_problem_None[symmetric] split: sum.splits option.splits)
  show "load_task_profiles is_known fs model_validate profiles = Inr ps \<longleftrightarrow>
      list_all2 (\<lambda>(pid, raw) p. model_validate pid raw = Inr p \<and> profile_sound is_known fs p) profiles ps"
    by (simp add: load_task_profiles_def traverse_Inr one case_prod_unfold)
  have "\<exists>x \<in> set xs. f x = Inl e'" if "traverse f xs = Inl e'" for f :: "string \<times> (string \<times> json) list \<Rightarrow> (string \<times> profile_problem) + TaskProfile" and xs e'
    using that by (induction xs) (auto simp: bind_result_def split: sum.splits)
  then show "load_task_profiles is_known fs model_validate profiles = Inl (pid, e) \<longrightarrow>
      (\<exists>raw. (pid, raw) \<in> set profiles \<and>
         (case model_validate pid raw of Inl x \<Rightarrow> e = ProfileMalformed x
          | Inr p \<Rightarrow> \<not> profile_sound is_known fs p \<and> profile_problem_of is_known fs p = Some e))"
    by (fastforce simp: load_task_profiles_def validate_one_def profile_problem_None[symmetric] split: sum.splits option.splits)
qed

definition sample_profile :: TaskProfile where
  "sample_profile =
     \<lparr>tf_profile_id = ''t'', tf_version = ''1.0.0'', tf_weights = [(''code'', 1)],
      tf_constraints = \<lparr>tc_min_context_tokens = 0, tc_requires_capabilities = [], tc_max_latency_p95_seconds = None,
        tc_min_capability_scores = [], tc_exclude_models = [], tc_allow_remote_providers = False\<rparr>,
      tf_execution = \<lparr>te_temperature = 0, te_max_output_tokens = 1024, te_min_output_tokens = Some 2048,
        te_response_format = ''text'', te_json_schema_ref = None, te_max_attempts = 1, te_fallback_depth = 0, te_think = None\<rparr>,
      tf_validation = \<lparr>tv_require_valid_json = False, tv_require_schema = False, tv_required_fields = [], tv_max_output_chars = 1000\<rparr>,
      tf_enabled = True\<rparr>"

theorem profiles_load_exactly_witness:
  "load_task_profiles (\<lambda>c. True) \<lparr>inside_schemas = (\<lambda>r. True), schema_is_file = (\<lambda>r. True)\<rparr> (\<lambda>pid raw. Inr sample_profile)
     [(''t'', [])] = Inl (''t'', OutputFloor 2048 1024) \<and>
   \<not> profile_sound (\<lambda>c. True) \<lparr>inside_schemas = (\<lambda>r. True), schema_is_file = (\<lambda>r. True)\<rparr> sample_profile"
proof -
  have tolerated: "\<not> \<bar>fl (fsum [1] - 1)\<bar> > WEIGHT_SUM_TOLERANCE" by code_simp
  have e: "load_task_profiles (\<lambda>c. True) \<lparr>inside_schemas = (\<lambda>r. True), schema_is_file = (\<lambda>r. True)\<rparr> (\<lambda>pid raw. Inr sample_profile)
     [(''t'', [])] = Inl (''t'', OutputFloor 2048 1024)"
    using tolerated by (simp add: load_task_profiles_def validate_one_def profile_problem_of_def sample_profile_def schema_problem_def
        find_None_iff Let_def split: option.splits)
  from profiles_load_exactly[THEN conjunct2, rule_format, OF this] e show ?thesis by auto
qed

subsection \<open>What is imported is what is routed\<close>

lemma profile_key_row [simp]: "profile_key (profile_row p now) = (tf_profile_id p, tf_version p)"
  by (simp add: profile_key_def profile_row_def)

lemma imported_rows:
  "r \<in> set (fold (\<lambda>p. upsert profile_key (\<lambda>_ n. n) (profile_row p now)) ps rows) \<Longrightarrow>
     r \<in> set rows \<or> (\<exists>p \<in> set ps. r = profile_row p now)"
proof (induction ps arbitrary: rows)
  case (Cons p ps)
  then have "r \<in> set (upsert profile_key (\<lambda>_ n. n) (profile_row p now) rows) \<or> (\<exists>p \<in> set ps. r = profile_row p now)" by simp
  then show ?case by (auto elim: profile_table.set_upsert_cases)
qed simp

lemma imported_kept:
  "\<forall>p \<in> set ps. profile_key (profile_row p now) \<noteq> profile_key r \<Longrightarrow> r \<in> set rows \<Longrightarrow>
     r \<in> set (fold (\<lambda>p. upsert profile_key (\<lambda>_ n. n) (profile_row p now)) ps rows)"
proof (induction ps arbitrary: rows)
  case (Cons p ps)
  have "r \<in> set (upsert profile_key (\<lambda>_ n. n) (profile_row p now) rows)"
    using Cons.prems by (intro profile_table.upsert_keeps) (auto simp del: profile_key_row)
  then show ?case using Cons by simp
qed simp

lemma imported_present:
  "p \<in> set ps \<Longrightarrow> distinct (map tf_profile_id ps) \<Longrightarrow>
     profile_row p now \<in> set (fold (\<lambda>p. upsert profile_key (\<lambda>_ n. n) (profile_row p now)) ps rows)"
proof (induction ps arbitrary: rows)
  case (Cons q ps)
  show ?case
  proof (cases "p = q")
    case True
    have "profile_row p now \<in> set (upsert profile_key (\<lambda>_ n. n) (profile_row p now) rows)"
      by (auto simp: upsert_def image_iff)
    moreover have "\<forall>q \<in> set ps. profile_key (profile_row q now) \<noteq> profile_key (profile_row p now)"
      using Cons.prems True by (simp add: image_iff) metis
    ultimately show ?thesis using True imported_kept by simp
  qed (use Cons in simp)
qed simp



end
