(* ===== verification/Routing.thy ===== *)
theory Routing
  imports Explanation Registry Statistics Task_Profiles
begin

section \<open>The routing service\<close>

text \<open>
  Models \<^verbatim>\<open>src/src/loadcoach/services/routing.py\<close>: the policy, the request's constraints merged into the
  profile's, the candidates read from the registry with their signals, the pipeline that judges
  each of them, and the decision log. What a request is judged against is the record \<open>situation\<close>
  (the provider's facts, the telemetry, what is resident, the open breakers). Pydantic's reading of
  a stored constraints block and the packages the pure routing functions use are the record
  \<open>routing_env\<close>. Every decision is computed on one state of the database; the clock's second
  reading is the argument \<open>elapsed\<close>.
\<close>

record timed_snapshot = telemetry_snapshot +
  observed_at :: instant

record RouteRequest =
  rq_task :: string
  rq_estimated_input_tokens :: "int option"
  rq_max_output_tokens :: "int option"
  rq_constraints :: "TaskProfileConstraints option"
  rq_require_capabilities :: "string list"
  rq_think :: "bool option"
  rq_overrides :: RuntimeOverrides
  rq_data_classification :: "string option"

record RoutingPolicy =
  rp_strategy :: string
  rp_min_confidence :: float64
  rp_prefer_resident_bonus :: float64
  rp_base_switch_penalty :: float64
  rp_require_adapter_evidence :: bool
  rp_min_present_weight :: float64
  rp_remote_cost_factor :: float64
  rp_vram_headroom_bytes :: int
  rp_runtime_defaults :: RuntimeProfile
  rp_runtime_per_model :: "(string, RuntimeProfile) dict"
  rp_machine_fingerprint :: "string option"
  rp_evidence_url :: string

record routing_env =
  ro_packages :: packages
  ro_rendering :: rendering
  ro_conversions :: evidence_conversions
  ro_constraints :: "(string \<times> json) list \<Rightarrow> string + TaskProfileConstraints"

record situation =
  si_provider :: ProviderFacts
  si_providers :: "(string, ProviderFacts) dict"
  si_policy :: RoutingPolicy
  si_snapshot :: "timed_snapshot option"
  si_resident_models :: "string list"
  si_open_breakers :: "string list option"
  si_resident_devices :: "(string, int list) dict"
  si_breaker_details :: "(string, (string \<times> json) list) dict"

datatype route_error =
    RouteNotAuthorized authorization_error
  | RouteProfile queue_error
  | RouteMalformed string
  | ConstraintsNotTightening "string list"
  | RouteEvidence evidence_error
  | AdapterNotFound string "string list"
  | RouteTypeError string
  | RouteIntegrity
  | NoEligibleModel string string json

subsection \<open>Policy\<close>

record RuntimeModelOverride =
  rm_context_size :: "int option"
  rm_kv_cache_precision :: "string option"
  rm_flash_attention :: "bool option"

record RuntimeSection =
  rs_context_size :: int
  rs_kv_cache_precision :: string
  rs_flash_attention :: bool
  rs_keep_alive :: string
  rs_models :: "(string, RuntimeModelOverride) dict"

definition or_none :: "string \<Rightarrow> string option" where
  "or_none s = (if s = [] then None else Some s)"

definition runtime_layers :: "RuntimeSection \<Rightarrow> RuntimeProfile \<times> (string, RuntimeProfile) dict" where
  "runtime_layers r =
     (empty_profile\<lparr>context_size := (if rs_context_size r = 0 then None else Some (rs_context_size r)),
        kv_cache_precision := or_none (rs_kv_cache_precision r),
        flash_attention := (if rs_flash_attention r then Some True else None), keep_alive := or_none (rs_keep_alive r)\<rparr>,
      map (\<lambda>(canonical, o'). (canonical, empty_profile\<lparr>context_size := rm_context_size o',
        kv_cache_precision := rm_kv_cache_precision o', flash_attention := rm_flash_attention o'\<rparr>)) (rs_models r))"

subsection \<open>Constraints\<close>

definition merge_problems :: "TaskProfileConstraints \<Rightarrow> TaskProfileConstraints \<Rightarrow> string list" where
  "merge_problems base requested =
     (if tc_min_context_tokens requested < tc_min_context_tokens base \<and> tc_min_context_tokens requested \<noteq> 0
      then [''constraints.min_context_tokens''] else []) @
     (if tc_allow_remote_providers requested \<and> \<not> tc_allow_remote_providers base then [''constraints.allow_remote_providers''] else []) @
     (case (tc_max_latency_p95_seconds requested, tc_max_latency_p95_seconds base) of
        (Some r, Some b) \<Rightarrow> if r > b then [''constraints.max_latency_p95_seconds''] else []
      | _ \<Rightarrow> []) @
     List.map_filter (\<lambda>(capability, least).
        case map_of (tc_min_capability_scores base) capability of
          None \<Rightarrow> None
        | Some b \<Rightarrow> if least < b then Some (''constraints.min_capability_scores.'' @ capability) else None)
       (tc_min_capability_scores requested)"

definition sorted_union :: "string list \<Rightarrow> string list \<Rightarrow> string list" where
  "sorted_union xs ys = sorted_list_of_set (set xs \<union> set ys)"

definition merged_latency :: "float64 option \<Rightarrow> float64 option \<Rightarrow> float64 option" where
  "merged_latency base requested =
     (case requested of
        None \<Rightarrow> base
      | Some r \<Rightarrow> (case base of None \<Rightarrow> Some r | Some b \<Rightarrow> Some (min b r)))"

definition merged_constraints :: "TaskProfileConstraints \<Rightarrow> TaskProfileConstraints option \<Rightarrow> route_error + TaskProfileConstraints" where
  "merged_constraints base asked =
     (case asked of
        None \<Rightarrow> Inr base
      | Some requested \<Rightarrow>
          if merge_problems base requested \<noteq> [] then Inl (ConstraintsNotTightening (sort (merge_problems base requested)))
          else Inr \<lparr>tc_min_context_tokens = max (tc_min_context_tokens base) (tc_min_context_tokens requested),
            tc_requires_capabilities = sorted_union (tc_requires_capabilities base) (tc_requires_capabilities requested),
            tc_max_latency_p95_seconds = merged_latency (tc_max_latency_p95_seconds base) (tc_max_latency_p95_seconds requested),
            tc_min_capability_scores = map (\<lambda>c. (c, max (dict_get (tc_min_capability_scores base) c 0)
                (dict_get (tc_min_capability_scores requested) c 0)))
              (sorted_union (map fst (tc_min_capability_scores base)) (map fst (tc_min_capability_scores requested))),
            tc_exclude_models = sorted_union (tc_exclude_models base) (tc_exclude_models requested),
            tc_allow_remote_providers = (tc_allow_remote_providers base \<and> tc_allow_remote_providers requested)\<rparr>)"

text \<open>What the request itself needs is united with what the profile needs.\<close>

definition with_request_capabilities :: "string list \<Rightarrow> TaskProfileConstraints \<Rightarrow> TaskProfileConstraints" where
  "with_request_capabilities asked c =
     (if set asked - set (tc_requires_capabilities c) \<noteq> {}
      then c\<lparr>tc_requires_capabilities := sorted_union asked (tc_requires_capabilities c)\<rparr> else c)"

subsection \<open>Candidates\<close>

definition facts_for :: "bool \<Rightarrow> ModelRow \<Rightarrow> ModelFacts" where
  "facts_for remote m =
     \<lparr>model_id = mr_id m, canonical_id = mr_canonical_id m, provider_kind = mr_provider_kind m,
      provider_model_name = mr_provider_model_name m, artifact_digest = mr_artifact_digest m, available = mr_available m,
      unavailable_reason = mr_unavailable_reason m, enabled = mr_enabled m, max_context = mr_max_context m,
      size_bytes = mr_size_bytes m, parameter_count = mr_parameter_count m,
      layers = geometry_from_json (mr_descriptor_json m) ''layers'', kv_heads = geometry_from_json (mr_descriptor_json m) ''kv_heads'',
      head_dim = geometry_from_json (mr_descriptor_json m) ''head_dim'',
      is_remote = (if mr_provider_name m \<noteq> [] then mr_is_remote m else remote), provider_name = mr_provider_name m\<rparr>"

definition plain_signal :: "string \<Rightarrow> string \<Rightarrow> float64 \<Rightarrow> float64 \<Rightarrow> CapabilitySignal" where
  "plain_signal capability src score confidence =
     \<lparr>sig_capability_id = capability, sig_source = src, sig_score = score, sig_confidence = confidence,
      sig_runtime_profile_hash = None, sig_machine_fingerprint = None, sig_measured_at = None, sig_sample_count = None,
      sig_match_state = None, sig_age_days = None, sig_stale = False, sig_stale_reason = None, sig_calibration = None\<rparr>"

definition signals_for :: "ModelCapability list \<Rightarrow> CapabilitySignal list" where
  "signals_for rows = List.map_filter (\<lambda>r. map_option (\<lambda>s. plain_signal (mc_capability_id r) (mc_source r) s (mc_confidence r))
     (mc_score r)) rows"

definition adapter_signals :: "AdapterFacts \<Rightarrow> CapabilitySignal list" where
  "adapter_signals a = map (\<lambda>c. plain_signal c ''declared'' DECLARED_SCORE DECLARED_CONFIDENCE) (declared_capabilities a)"

type_synonym candidate = "ModelFacts \<times> ProviderFacts \<times> CapabilitySignal list \<times> AdapterFacts option"

definition subjects_of_model :: "situation \<Rightarrow> ModelCapability list \<Rightarrow> (string \<times> string, CapabilitySignal list) dict \<Rightarrow>
    (string, AdapterFacts list) dict \<Rightarrow> ModelRow \<Rightarrow> candidate list" where
  "subjects_of_model si capability_rows evidence adapters m =
     (let f = facts_for (provider_is_remote (si_provider si)) m;
          provider = dict_get (si_providers si) (mr_provider_name m) (si_provider si)
      in (f, provider, signals_for (filter (\<lambda>r. mc_model_id r = mr_id m) capability_rows) @ dict_get evidence (mr_id m, []) [], None) #
         (if adapter_hot_swap provider
          then map (\<lambda>a. (f, provider, adapter_signals a @ dict_get evidence (mr_id m, adapter_id a) [], Some a))
                 (dict_get adapters (provider_model_name f) [])
          else []))"

definition read_candidates :: "routing_env \<Rightarrow> situation \<Rightarrow> (string, float64) dict \<Rightarrow> instant \<Rightarrow> Registry \<Rightarrow> evidence_error + candidate list" where
  "read_candidates env si wts now rg =
     bind_result (bound_signals_for_routing (ro_conversions env) wts now (rp_machine_fingerprint (si_policy si)) rg) (\<lambda>evidence.
       Inr (concat (map (subjects_of_model si (rg_capabilities rg) evidence (adapter_facts_by_base_name rg))
         (sort_key mr_canonical_id (rg_models rg)))))"

definition telemetry_snapshot_json :: "rendering \<Rightarrow> timed_snapshot option \<Rightarrow> json" where
  "telemetry_snapshot_json rn snap =
     (case snap of None \<Rightarrow> JNull
      | Some s \<Rightarrow> JObj [(''timestamp'', JStr (to_rfc3339 rn (observed_at s))),
          (''ram_available_bytes'', of_opt_int (ram_available_bytes s)),
          (''gpus'', JList (map (\<lambda>g. JObj [(''index'', JInt (gpu_index g)), (''vram_total_bytes'', of_opt_int (vram_total_bytes g)),
              (''vram_used_bytes'', of_opt_int (vram_used_bytes g))]) (gpus s)))])"

definition overrides_json :: "packages \<Rightarrow> RuntimeOverrides \<Rightarrow> json" where
  "overrides_json pkg o' =
     (if override_model o' = None \<and> override_adapter o' = None \<and> override_profile o' = None \<and> \<not> disallow_fallback o' \<and>
         \<not> require_evidence o' \<and> \<not> ignore_residency o' then JNull
      else JObj [(''model'', of_opt_str (override_model o')), (''adapter'', of_opt_str (override_adapter o')),
        (''ignore_residency'', JBool (ignore_residency o')),
        (''runtime_profile_hash'', of_opt_str (map_option (profile_hash pkg) (override_profile o'))),
        (''disallow_fallback'', JBool (disallow_fallback o')), (''require_evidence'', JBool (require_evidence o'))])"

definition no_context_rejection :: "ModelFacts \<Rightarrow> Rejection" where
  "no_context_rejection f =
     \<lparr>reason = ''context_too_small'',
      detail = [(''served_context'', JNull), (''served_context_source'', JNull),
        (''problem'', JStr (''the provider reported no served context and the descriptor advertises no '' @
           ''maximum, so no context can be established for this model'')),
        (''canonical_id'', JStr (canonical_id f))]\<rparr>"

definition known_adapters :: "candidate list \<Rightarrow> string list" where
  "known_adapters candidates =
     sorted_list_of_set (set (List.map_filter (\<lambda>(f, p, sigs, a). map_option adapter_name a) candidates))"

definition refuse_unknown_adapter :: "string option \<Rightarrow> candidate list \<Rightarrow> route_error + unit" where
  "refuse_unknown_adapter pinned candidates =
     (case pinned of
        None \<Rightarrow> Inr ()
      | Some name \<Rightarrow> if name \<in> set (known_adapters candidates) then Inr () else Inl (AdapterNotFound name (known_adapters candidates)))"

definition top_weighted :: "(string, float64) dict \<Rightarrow> string option" where
  "top_weighted wts =
     (case sort (map fst wts) of [] \<Rightarrow> None | c # cs \<Rightarrow> Some (max_by (\<lambda>k. dict_get wts k 0) c cs))"

text \<open>The subject, and whether a context could be established for it; if not, it carries zero tokens.\<close>

definition build_subject :: "RoutingPolicy \<Rightarrow> RuntimeOverrides \<Rightarrow> int \<Rightarrow> candidate \<Rightarrow> bool \<times> ExecutionSubject" where
  "build_subject policy o' least = (\<lambda>(f, provider, sigs, a).
     (let profile = resolve_runtime_profile (rp_runtime_defaults policy) (map_of (rp_runtime_per_model policy) (canonical_id f))
            least (context_configurable provider) (override_profile o') (adapters_registered provider);
          subject = (\<lambda>served. \<lparr>facts = f, subject_provider = provider, runtime_profile = profile, served_context = served,
            signals = sigs, adapter = a\<rparr>)
      in (case resolve_served_context profile provider (max_context f) of
            None \<Rightarrow> (False, subject \<lparr>tokens = 0, context_source = ''assumed''\<rparr>)
          | Some served \<Rightarrow> (True, subject served))))"

subsection \<open>Judging a candidate\<close>

text \<open>What a decision holds for all of its candidates.\<close>

record decision_terms =
  dt_request :: RouteRequest
  dt_constraints :: TaskProfileConstraints
  dt_thinking :: "string option"
  dt_max_output_tokens :: int
  dt_min_output_tokens :: "int option"
  dt_fallback_depth :: int
  dt_scoring :: ScoringInputs
  dt_top_weighted :: "string option"
  dt_reliability :: "(string \<times> string, ReliabilityFactor) dict"

datatype verdict = PassedOver | Ranked RankedCandidate | Refused RejectedCandidate

definition budget_for :: "decision_terms \<Rightarrow> ServedContext \<Rightarrow> ContextBudget option" where
  "budget_for dt served =
     map_option (\<lambda>n. budget_context n (dt_max_output_tokens dt) (tokens served) (context_source served) (dt_min_output_tokens dt)
        SAFETY_MARGIN_TOKENS ''caller'' None) (rq_estimated_input_tokens (dt_request dt))"

definition inputs_for :: "situation \<Rightarrow> decision_terms \<Rightarrow> TaskFit \<Rightarrow> ContextBudget option \<Rightarrow> ConstraintInputs" where
  "inputs_for si dt task_fit' budget =
     \<lparr>min_context_tokens = tc_min_context_tokens (dt_constraints dt), requires_capabilities = tc_requires_capabilities (dt_constraints dt),
      min_capability_scores = Some (tc_min_capability_scores (dt_constraints dt)), exclude_models = tc_exclude_models (dt_constraints dt),
      allow_remote_providers = tc_allow_remote_providers (dt_constraints dt),
      required_context = (case budget of None \<Rightarrow> None | Some b \<Rightarrow> if fits b then None else Some (budget_required_context b)),
      resolved_capabilities = Some (fold (\<lambda>s. AList.update (cs_capability_id s) s) (fit_capabilities task_fit') []),
      snapshot = map_option telemetry_snapshot.truncate (si_snapshot si), vram_headroom_bytes = rp_vram_headroom_bytes (si_policy si),
      open_circuit_breakers = (case si_open_breakers si of None \<Rightarrow> [] | Some ids \<Rightarrow> ids), resident_devices = si_resident_devices si,
      circuit_breaker_details = si_breaker_details si, request_capabilities = rq_require_capabilities (dt_request dt),
      requires_thinking_control = dt_thinking dt,
      require_adapter_evidence = (rp_require_adapter_evidence (si_policy si) \<and> override_adapter (rq_overrides (dt_request dt)) = None),
      top_weighted_capability = dt_top_weighted dt, caller_data_classification = rq_data_classification (dt_request dt)\<rparr>"

definition estimate_for :: "ExecutionSubject \<Rightarrow> VramEstimate" where
  "estimate_for s =
     (let f = facts s in
      estimate_vram (size_bytes f) (tokens (served_context s)) (layers f) (kv_heads f) (head_dim f)
        (kv_cache_precision (runtime_profile s)) None LOADING_OVERHEAD_FACTOR ACTIVATION_OVERHEAD_BYTES)"

definition subject_key :: "ExecutionSubject \<Rightarrow> string \<times> string" where
  "subject_key s = (model_id (facts s), case adapter s of None \<Rightarrow> [] | Some a \<Rightarrow> adapter_id a)"

definition ranked_candidate :: "packages \<Rightarrow> situation \<Rightarrow> decision_terms \<Rightarrow> ExecutionSubject \<Rightarrow> TaskFit \<Rightarrow> int option \<Rightarrow> RankedCandidate" where
  "ranked_candidate pkg si dt s task_fit' target =
     (let p = si_policy si in
      \<lparr>cand_subject = s, fit = task_fit',
       factors = adjustment_factors s (si_resident_models si) (rp_prefer_resident_bonus p) (rp_base_switch_penalty p)
         (ignore_residency (rq_overrides (dt_request dt))) (rp_remote_cost_factor p)
         (Inr (dict_get (dt_reliability dt) (subject_key s) (neutral_factor []))) 1,
       estimated_vram_bytes = total_bytes (estimate_for s), target_gpu_index = target,
       resident = (canonical_id (facts s) \<in> set (si_resident_models si)), rank = 0\<rparr>)"

definition with_budget_detail :: "ContextBudget option \<Rightarrow> Rejection \<Rightarrow> Rejection" where
  "with_budget_detail budget r =
     (case budget of
        Some b \<Rightarrow> if reason r = ''context_limit_exceeded''
          then r\<lparr>detail := AList.update ''context_budget'' (JObj (budget_json b)) (detail r)\<rparr> else r
      | None \<Rightarrow> r)"

definition pinned_out :: "RuntimeOverrides \<Rightarrow> ExecutionSubject \<Rightarrow> bool" where
  "pinned_out o' s \<longleftrightarrow>
     (override_model o' \<noteq> None \<and> override_model o' \<noteq> Some (canonical_id (facts s))) \<or>
     (override_adapter o' \<noteq> None \<and> map_option adapter_name (adapter s) \<noteq> override_adapter o')"

definition judge_subject :: "packages \<Rightarrow> situation \<Rightarrow> decision_terms \<Rightarrow> ExecutionSubject \<Rightarrow> verdict" where
  "judge_subject pkg si dt s =
     (let estimate = estimate_for s; task_fit' = score_subject pkg s (dt_scoring dt); budget = budget_for dt (served_context s) in
      (case evaluate_constraints pkg s estimate (inputs_for si dt task_fit' budget) of
         (Some r, _) \<Rightarrow> Refused \<lparr>rc_subject = s, rc_rejection = with_budget_detail budget r, rc_estimate = Some estimate\<rparr>
       | (None, _, target) \<Rightarrow> Ranked (ranked_candidate pkg si dt s task_fit' target)))"

definition judge :: "packages \<Rightarrow> situation \<Rightarrow> decision_terms \<Rightarrow> candidate \<Rightarrow> verdict" where
  "judge pkg si dt c =
     (case build_subject (si_policy si) (rq_overrides (dt_request dt)) (tc_min_context_tokens (dt_constraints dt)) c of
        (False, placeholder) \<Rightarrow>
          Refused \<lparr>rc_subject = placeholder, rc_rejection = no_context_rejection (facts placeholder), rc_estimate = None\<rparr>
      | (True, s) \<Rightarrow> if pinned_out (rq_overrides (dt_request dt)) s then PassedOver else judge_subject pkg si dt s)"

definition ranked_of :: "verdict list \<Rightarrow> RankedCandidate list" where
  "ranked_of vs = List.map_filter (\<lambda>v. case v of Ranked c \<Rightarrow> Some c | _ \<Rightarrow> None) vs"

definition rejected_of :: "verdict list \<Rightarrow> RejectedCandidate list" where
  "rejected_of vs = List.map_filter (\<lambda>v. case v of Refused r \<Rightarrow> Some r | _ \<Rightarrow> None) vs"

subsection \<open>The decision log\<close>

record RuntimeProfileRow =
  rr_id :: string
  rr_profile_hash :: string
  rr_profile :: RuntimeProfile
  rr_created_at :: instant

record RoutingDecision =
  rd_id :: string
  rd_job_id :: "string option"
  rd_task_profile_id :: string
  rd_task_profile_version :: string
  rd_strategy_name :: string
  rd_strategy_version :: string
  rd_confidence_policy_version :: string
  rd_requested_at :: instant
  rd_duration_ms :: int
  rd_selected_model_id :: "string option"
  rd_selected_adapter_id :: "string option"
  rd_selected_subject_canonical_id :: "string option"
  rd_selected_score :: "float64 option"
  rd_selected_runtime_profile_id :: "string option"
  rd_selected_served_context :: "int option"
  rd_selected_served_context_source :: "string option"
  rd_selected_target_gpu_index :: "int option"
  rd_flags :: "string list"
  rd_evidence_summary :: json
  rd_overrides :: json
  rd_telemetry_snapshot :: json
  rd_explanation :: "(string \<times> json) list"
  rd_created_at :: instant

record RoutingCandidate =
  rk_decision_id :: string
  rk_model_id :: string
  rk_adapter_id :: "string option"
  rk_subject_canonical_id :: string
  rk_runtime_profile_id :: "string option"
  rk_served_context :: int
  rk_served_context_source :: string
  rk_target_gpu_index :: "int option"
  rk_rank :: "int option"
  rk_task_fit :: "float64 option"
  rk_final_score :: "float64 option"
  rk_estimated_vram_bytes :: "int option"
  rk_capability_breakdown :: json
  rk_factors :: json
  rk_residency_detail :: json
  rk_rejected :: bool
  rk_rejection_reason :: "string option"
  rk_rejection_detail :: json
  rk_created_at :: instant

record DecisionLog =
  dl_profiles :: "RuntimeProfileRow list"
  dl_decisions :: "RoutingDecision list"
  dl_candidates :: "RoutingCandidate list"
  dl_next :: nat

text \<open>Of the profile, the table has no column for whether adapters are registered.\<close>

definition overwrite_profile :: "RuntimeProfileRow \<Rightarrow> RuntimeProfileRow \<Rightarrow> RuntimeProfileRow" where
  "overwrite_profile r n = n\<lparr>rr_id := rr_id r, rr_created_at := rr_created_at r\<rparr>"

definition upsert_profile :: "packages \<Rightarrow> (nat \<Rightarrow> string) \<Rightarrow> instant \<Rightarrow> RuntimeProfile \<Rightarrow> DecisionLog \<Rightarrow> DecisionLog" where
  "upsert_profile pkg ulid now profile dl =
     dl\<lparr>dl_profiles := upsert rr_profile_hash overwrite_profile
          \<lparr>rr_id = ulid (dl_next dl), rr_profile_hash = profile_hash pkg profile,
           rr_profile = profile\<lparr>profile_adapters_registered := None\<rparr>, rr_created_at = now\<rparr> (dl_profiles dl),
        dl_next := dl_next dl + 1\<rparr>"

definition runtime_profile_id :: "packages \<Rightarrow> (nat \<Rightarrow> string) \<Rightarrow> instant \<Rightarrow> ExecutionSubject \<Rightarrow> (string, string) dict \<times> DecisionLog \<Rightarrow>
    (string, string) dict \<times> DecisionLog" where
  "runtime_profile_id pkg ulid now s = (\<lambda>(ids, dl).
     (let dl' = upsert_profile pkg ulid now (runtime_profile s) dl; hash = runtime_profile_hash pkg s in
      (case row_of rr_profile_hash hash (dl_profiles dl') of
         Some r \<Rightarrow> (AList.update hash (rr_id r) ids, dl') | None \<Rightarrow> (ids, dl'))))"

definition decision_row :: "packages \<Rightarrow> Explanation \<Rightarrow> TaskProfileRow \<Rightarrow> (string, string) dict \<Rightarrow> string \<Rightarrow> int \<Rightarrow> instant \<Rightarrow> RoutingDecision" where
  "decision_row pkg x profile ids strategy duration now =
     (let chosen = primary (xp_ranking x); subject = map_option cand_subject chosen in
      \<lparr>rd_id = xp_decision_id x, rd_job_id = None, rd_task_profile_id = tp_profile_id profile,
       rd_task_profile_version = tp_version profile, rd_strategy_name = strategy, rd_strategy_version = STRATEGY_VERSION,
       rd_confidence_policy_version = CONFIDENCE_POLICY_VERSION, rd_requested_at = now, rd_duration_ms = duration,
       rd_selected_model_id = map_option (model_id \<circ> facts) subject,
       rd_selected_adapter_id = Option.bind subject (\<lambda>s. map_option adapter_id (adapter s)),
       rd_selected_subject_canonical_id = map_option (subject_canonical_id pkg) subject,
       rd_selected_score = map_option final_score chosen,
       rd_selected_runtime_profile_id = Option.bind subject (\<lambda>s. map_of ids (runtime_profile_hash pkg s)),
       rd_selected_served_context = map_option (tokens \<circ> served_context) subject,
       rd_selected_served_context_source = map_option (context_source \<circ> served_context) subject,
       rd_selected_target_gpu_index = Option.bind chosen target_gpu_index, rd_flags = xp_flags x,
       rd_evidence_summary = json_get (xp_payload x) ''evidence_summary'', rd_overrides = json_get (xp_payload x) ''overrides'',
       rd_telemetry_snapshot = json_get (xp_payload x) ''telemetry_snapshot'', rd_explanation = xp_payload x, rd_created_at = now\<rparr>)"

definition candidate_row :: "packages \<Rightarrow> rendering \<Rightarrow> string \<Rightarrow> (string, string) dict \<Rightarrow> instant \<Rightarrow> RankedCandidate \<Rightarrow> RoutingCandidate" where
  "candidate_row pkg rn did ids now c =
     (let s = cand_subject c in
      \<lparr>rk_decision_id = did, rk_model_id = model_id (facts s), rk_adapter_id = map_option adapter_id (adapter s),
       rk_subject_canonical_id = subject_canonical_id pkg s, rk_runtime_profile_id = map_of ids (runtime_profile_hash pkg s),
       rk_served_context = tokens (served_context s), rk_served_context_source = context_source (served_context s),
       rk_target_gpu_index = target_gpu_index c, rk_rank = Some (rank c), rk_task_fit = Some (task_fit (fit c)),
       rk_final_score = Some (final_score c), rk_estimated_vram_bytes = estimated_vram_bytes c,
       rk_capability_breakdown = JList (map (JObj \<circ> score_json) (fit_capabilities (fit c))),
       rk_factors = JObj (factors_json rn (factors c)),
       rk_residency_detail = (case factors_residency_detail (factors c) of None \<Rightarrow> JNull | Some d \<Rightarrow> JObj (residency_json d)),
       rk_rejected = False, rk_rejection_reason = None, rk_rejection_detail = JNull, rk_created_at = now\<rparr>)"

definition rejected_row :: "packages \<Rightarrow> string \<Rightarrow> (string, string) dict \<Rightarrow> instant \<Rightarrow> RejectedCandidate \<Rightarrow> RoutingCandidate" where
  "rejected_row pkg did ids now r =
     (let s = rc_subject r in
      \<lparr>rk_decision_id = did, rk_model_id = model_id (facts s), rk_adapter_id = map_option adapter_id (adapter s),
       rk_subject_canonical_id = subject_canonical_id pkg s, rk_runtime_profile_id = map_of ids (runtime_profile_hash pkg s),
       rk_served_context = tokens (served_context s), rk_served_context_source = context_source (served_context s),
       rk_target_gpu_index = None, rk_rank = None, rk_task_fit = None, rk_final_score = None,
       rk_estimated_vram_bytes = Option.bind (rc_estimate r) total_bytes, rk_capability_breakdown = JNull, rk_factors = JNull,
       rk_residency_detail = JNull, rk_rejected = True, rk_rejection_reason = Some (reason (rc_rejection r)),
       rk_rejection_detail = JObj (detail (rc_rejection r)), rk_created_at = now\<rparr>)"

definition persist_decision :: "packages \<Rightarrow> rendering \<Rightarrow> (nat \<Rightarrow> string) \<Rightarrow> Explanation \<Rightarrow> TaskProfileRow \<Rightarrow> string \<Rightarrow> int \<Rightarrow> instant \<Rightarrow>
    DecisionLog \<Rightarrow> route_error + DecisionLog" where
  "persist_decision pkg rn ulid x profile strategy duration now dl =
     (let ranked = ordered (xp_ranking x); did = xp_decision_id x in
      if did \<in> rd_id ` set (dl_decisions dl) then Inl RouteIntegrity
      else (case fold (runtime_profile_id pkg ulid now) (map cand_subject ranked @ map rc_subject (xp_rejected x)) ([], dl) of
        (ids, dl') \<Rightarrow>
          Inr (dl'\<lparr>dl_decisions := dl_decisions dl' @ [decision_row pkg x profile ids strategy duration now],
                   dl_candidates := dl_candidates dl' @ map (candidate_row pkg rn did ids now) ranked @
                     map (rejected_row pkg did ids now) (xp_rejected x)\<rparr>)))"

subsection \<open>The pipeline\<close>

record RoutingResult =
  rt_explanation :: Explanation
  rt_task_profile :: TaskProfileRow
  rt_budget :: "ContextBudget option"

definition thinking_required_by :: "RouteRequest \<Rightarrow> (string \<times> json) list \<Rightarrow> string option" where
  "thinking_required_by request execution =
     (if rq_think request \<noteq> None then Some ''request''
      else if json_get execution ''think'' \<noteq> JNull then Some ''task_profile'' else None)"

text \<open>\<open>int(execution.get(name, otherwise))\<close>, on the integers the import writes; anything else is an error.\<close>

definition int_or :: "(string \<times> json) list \<Rightarrow> string \<Rightarrow> int \<Rightarrow> route_error + int" where
  "int_or execution name otherwise =
     (case as_int (get_or execution name (JInt otherwise)) of None \<Rightarrow> Inl (RouteTypeError name) | Some n \<Rightarrow> Inr n)"

definition output_allowance :: "RouteRequest \<Rightarrow> (string \<times> json) list \<Rightarrow> route_error + int" where
  "output_allowance request execution =
     (case rq_max_output_tokens request of
        Some n \<Rightarrow> if n \<noteq> 0 then Inr n else int_or execution ''max_output_tokens'' 1024
      | None \<Rightarrow> int_or execution ''max_output_tokens'' 1024)"

definition terms_of :: "situation \<Rightarrow> RouteRequest \<Rightarrow> TaskProfileRow \<Rightarrow> TaskProfileConstraints \<Rightarrow> int \<Rightarrow> int \<Rightarrow> candidate list \<Rightarrow>
    StatsStore \<Rightarrow> decision_terms" where
  "terms_of si request profile constraints allowance depth candidates ss =
     (let p = si_policy si; execution = tp_execution profile; wts = weights_of profile in
      \<lparr>dt_request = request, dt_constraints = constraints, dt_thinking = thinking_required_by request execution,
       dt_max_output_tokens = allowance, dt_min_output_tokens = as_int (json_get execution ''min_output_tokens''),
       dt_fallback_depth = depth,
       dt_scoring = \<lparr>weights = wts, min_confidence = rp_min_confidence p,
          parameter_priors = Some (parameter_band_priors (fold (\<lambda>(f, c). AList.update (canonical_id f) (parameter_count f)) candidates [])),
          score_require_evidence = require_evidence (rq_overrides request), scoring_machine_fingerprint = rp_machine_fingerprint p\<rparr>,
       dt_top_weighted = top_weighted wts, dt_reliability = factors_for_task (tp_profile_id profile) ss\<rparr>)"

text \<open>The prelude of a decision: the profile, its constraints with the request's, and the candidates.\<close>

definition prepare :: "routing_env \<Rightarrow> situation \<Rightarrow> RouteRequest \<Rightarrow> instant \<Rightarrow> World \<Rightarrow> Registry \<Rightarrow> StatsStore \<Rightarrow>
    route_error + (TaskProfileRow \<times> candidate list \<times> EvidenceOverview \<times> decision_terms)" where
  "prepare env si request now w rg ss =
     bind_result (map_error RouteProfile (load_task_profile (rq_task request) w)) (\<lambda>profile.
     bind_result (map_error RouteMalformed (ro_constraints env (tp_constraints profile))) (\<lambda>base.
     bind_result (merged_constraints base (rq_constraints request)) (\<lambda>merged.
     bind_result (output_allowance request (tp_execution profile)) (\<lambda>allowance.
     bind_result (int_or (tp_execution profile) ''fallback_depth'' 0) (\<lambda>depth.
     bind_result (map_error RouteEvidence (read_candidates env si (weights_of profile) now rg)) (\<lambda>candidates.
     bind_result (map_error RouteEvidence (evidence_overview (rp_evidence_url (si_policy si)) rg)) (\<lambda>overview.
     bind_result (refuse_unknown_adapter (override_adapter (rq_overrides request)) candidates) (\<lambda>_.
       Inr (profile, candidates, overview, terms_of si request profile
         (with_request_capabilities (rq_require_capabilities request) merged) allowance depth candidates ss)))))))))"

definition decide :: "packages \<Rightarrow> situation \<Rightarrow> candidate list \<Rightarrow> decision_terms \<Rightarrow> Ranking \<times> RejectedCandidate list" where
  "decide pkg si candidates dt =
     (let verdicts = map (judge pkg si dt) candidates in
      (rank_candidates (ranked_of verdicts) (dt_fallback_depth dt) (disallow_fallback (rq_overrides (dt_request dt))),
       rejected_of verdicts))"

definition explain :: "routing_env \<Rightarrow> situation \<Rightarrow> string \<Rightarrow> instant \<Rightarrow> int \<Rightarrow> TaskProfileRow \<Rightarrow> EvidenceOverview \<Rightarrow> decision_terms \<Rightarrow>
    Ranking \<times> RejectedCandidate list \<Rightarrow> ContextBudget option \<times> Explanation" where
  "explain env si did now duration profile overview dt = (\<lambda>(ranking, rejected).
     (let budget = Option.bind (primary ranking) (\<lambda>c. budget_for dt (served_context (cand_subject c))) in
      (budget, build_explanation (ro_packages env) (ro_rendering env)
         \<lparr>df_decision_id = did, df_task_profile_id = tp_profile_id profile, df_task_profile_version = tp_version profile,
          df_strategy_name = rp_strategy (si_policy si), df_requested_at = now, df_duration_ms = duration\<rparr>
         ranking rejected budget (telemetry_snapshot_json (ro_rendering env) (si_snapshot si))
         (overrides_json (ro_packages env) (rq_overrides (dt_request dt))) (rp_min_present_weight (si_policy si)) (Some overview)
         (si_open_breakers si = None))))"

text \<open>
  The answer and the log after it: a decision with no eligible model is written before it is
  refused. \<open>did\<close> is the identifier drawn for the decision.
\<close>

definition route :: "routing_env \<Rightarrow> (nat \<Rightarrow> string) \<Rightarrow> string \<Rightarrow> int \<Rightarrow> bool \<Rightarrow> situation \<Rightarrow> Principal option \<Rightarrow> RouteRequest \<Rightarrow>
    instant \<Rightarrow> World \<Rightarrow> Registry \<Rightarrow> StatsStore \<Rightarrow> DecisionLog \<Rightarrow> (route_error + RoutingResult) \<times> DecisionLog" where
  "route env ulid did elapsed persisting si caller request now w rg ss dl =
     (case authorize caller ''write'' of
        Inl e \<Rightarrow> (Inl (RouteNotAuthorized e), dl)
      | Inr _ \<Rightarrow>
          (case prepare env si request now w rg ss of
             Inl e \<Rightarrow> (Inl e, dl)
           | Inr (profile, candidates, overview, dt) \<Rightarrow>
               (let outcome = decide (ro_packages env) si candidates dt; duration = max elapsed 0 in
                (case explain env si did now duration profile overview dt outcome of
                   (budget, x) \<Rightarrow>
                     (let written = (if persisting then persist_decision (ro_packages env) (ro_rendering env) ulid x profile
                            (rp_strategy (si_policy si)) duration now dl else Inr dl)
                      in (case written of
                            Inl e \<Rightarrow> (Inl e, dl)
                          | Inr dl' \<Rightarrow>
                              if primary (fst outcome) = None then
                                (Inl (NoEligibleModel did (tp_profile_id profile) (json_get (xp_payload x) ''rejected'')), dl')
                              else (Inr \<lparr>rt_explanation = x, rt_task_profile = profile, rt_budget = budget\<rparr>, dl')))))))"

subsection \<open>Reading the log\<close>

definition read_decision :: "string \<Rightarrow> DecisionLog \<Rightarrow> (string \<times> json) list option" where
  "read_decision did dl = map_option rd_explanation (row_of rd_id did (dl_decisions dl))"

record DecisionSummary =
  dm_decision_id :: string
  dm_task_profile_id :: string
  dm_task_profile_version :: string
  dm_requested_at :: instant
  dm_duration_ms :: int
  dm_selected_canonical_id :: "string option"
  dm_selected_score :: "float64 option"
  dm_flags :: "string list"

definition summary_of_decision :: "(json \<Rightarrow> string) \<Rightarrow> RoutingDecision \<Rightarrow> DecisionSummary" where
  "summary_of_decision str row =
     \<lparr>dm_decision_id = rd_id row, dm_task_profile_id = rd_task_profile_id row, dm_task_profile_version = rd_task_profile_version row,
      dm_requested_at = rd_requested_at row, dm_duration_ms = rd_duration_ms row,
      dm_selected_canonical_id = (case json_get (rd_explanation row) ''selected'' of
         JObj chosen \<Rightarrow> Some (str (json_get chosen ''canonical_id'')) | _ \<Rightarrow> None),
      dm_selected_score = rd_selected_score row, dm_flags = rd_flags row\<rparr>"

text \<open>Newest first, the identifier breaking ties.\<close>

definition recent_decisions :: "(json \<Rightarrow> string) \<Rightarrow> nat \<Rightarrow> DecisionLog \<Rightarrow> DecisionSummary list" where
  "recent_decisions str limit dl =
     map (summary_of_decision str) (take limit (rev (sort_key (\<lambda>r. (rd_requested_at r, rd_id r)) (dl_decisions dl))))"

end
