(* ===== verification/Routing_Correctness.thy ===== *)
theory Routing_Correctness
  imports Routing
begin

section \<open>What a routing decision guarantees\<close>

text \<open>
  The selection is sound and complete with respect to the constraints, every model is accounted
  for, the log records every decision that is reached, and a request can only narrow what its
  profile allows. The theorems speak of \<open>selectable\<close>, the conditions of the constraints written out
  for the subject of a candidate.
\<close>

subsection \<open>Verdicts\<close>

definition eligible_subject :: "packages \<Rightarrow> situation \<Rightarrow> decision_terms \<Rightarrow> ExecutionSubject \<Rightarrow> bool" where
  "eligible_subject pkg si dt s \<longleftrightarrow>
     (let inputs = inputs_for si dt (score_subject pkg s (dt_scoring dt)) (budget_for dt (served_context s)) in
      eligible_identity s inputs \<and> fst (check_memory s (estimate_for s) inputs) = None \<and> eligible_policy pkg s inputs)"

lemma evaluate_None:
  "fst (evaluate_constraints pkg s e inputs) = None \<longleftrightarrow>
     eligible_identity s inputs \<and> fst (check_memory s e inputs) = None \<and> eligible_policy pkg s inputs"
proof -
  obtain r fl' t where m: "check_memory s e inputs = (r, fl', t)" by (metis surj_pair)
  show ?thesis
    unfolding check_identity_None[symmetric] check_policy_None[symmetric]
    by (cases "check_identity s inputs"; cases r; cases "check_policy pkg s inputs") (simp_all add: evaluate_constraints_def m)
qed

definition subject_of :: "situation \<Rightarrow> decision_terms \<Rightarrow> candidate \<Rightarrow> bool \<times> ExecutionSubject" where
  "subject_of si dt c = build_subject (si_policy si) (rq_overrides (dt_request dt)) (tc_min_context_tokens (dt_constraints dt)) c"

definition selectable :: "packages \<Rightarrow> situation \<Rightarrow> decision_terms \<Rightarrow> candidate \<Rightarrow> bool" where
  "selectable pkg si dt c \<longleftrightarrow> fst (subject_of si dt c) \<and> \<not> pinned_out (rq_overrides (dt_request dt)) (snd (subject_of si dt c)) \<and>
     eligible_subject pkg si dt (snd (subject_of si dt c))"

lemma judge_subject_eligible:
  "eligible_subject pkg si dt s \<longleftrightarrow> (\<exists>t. judge_subject pkg si dt s = Ranked (ranked_candidate pkg si dt s (score_subject pkg s (dt_scoring dt)) t))"
  "\<not> eligible_subject pkg si dt s \<longleftrightarrow> (\<exists>r. judge_subject pkg si dt s = Refused r \<and> rc_subject r = s)"
proof -
  let ?e = "evaluate_constraints pkg s (estimate_for s) (inputs_for si dt (score_subject pkg s (dt_scoring dt)) (budget_for dt (served_context s)))"
  obtain r d t where e: "?e = (r, d, t)" by (metis surj_pair)
  have "eligible_subject pkg si dt s \<longleftrightarrow> r = None"
    using evaluate_None[of pkg s "estimate_for s"] e by (metis eligible_subject_def fst_conv)
  moreover have "judge_subject pkg si dt s = (case r of
      Some x \<Rightarrow> Refused \<lparr>rc_subject = s, rc_rejection = with_budget_detail (budget_for dt (served_context s)) x, rc_estimate = Some (estimate_for s)\<rparr>
    | None \<Rightarrow> Ranked (ranked_candidate pkg si dt s (score_subject pkg s (dt_scoring dt)) t))"
    by (simp only: judge_subject_def Let_def e prod.case split: option.split)
  ultimately show "eligible_subject pkg si dt s \<longleftrightarrow> (\<exists>t. judge_subject pkg si dt s = Ranked (ranked_candidate pkg si dt s (score_subject pkg s (dt_scoring dt)) t))"
    and "\<not> eligible_subject pkg si dt s \<longleftrightarrow> (\<exists>r. judge_subject pkg si dt s = Refused r \<and> rc_subject r = s)"
    by (cases r; force)+
qed

lemma cand_subject_ranked [simp]: "cand_subject (ranked_candidate pkg si dt s f t) = s"
  by (simp add: ranked_candidate_def Let_def)

lemma judge_cases:
  "judge pkg si dt c =
     (if \<not> fst (subject_of si dt c) then Refused \<lparr>rc_subject = snd (subject_of si dt c),
        rc_rejection = no_context_rejection (facts (snd (subject_of si dt c))), rc_estimate = None\<rparr>
      else if pinned_out (rq_overrides (dt_request dt)) (snd (subject_of si dt c)) then PassedOver
      else judge_subject pkg si dt (snd (subject_of si dt c)))"
  by (simp add: judge_def subject_of_def split: prod.splits bool.splits)

lemma judge_Ranked:
  "(\<exists>x. judge pkg si dt c = Ranked x) \<longleftrightarrow> selectable pkg si dt c"
  "judge pkg si dt c = Ranked x \<Longrightarrow> selectable pkg si dt c \<and> cand_subject x = snd (subject_of si dt c)"
proof -
  let ?s = "snd (subject_of si dt c)"
  show "judge pkg si dt c = Ranked x \<Longrightarrow> selectable pkg si dt c \<and> cand_subject x = ?s"
    using judge_subject_eligible[of pkg si dt ?s]
    by (cases "eligible_subject pkg si dt ?s") (auto simp: judge_cases selectable_def split: if_splits)
  then show "(\<exists>x. judge pkg si dt c = Ranked x) \<longleftrightarrow> selectable pkg si dt c"
    using judge_subject_eligible[of pkg si dt ?s]
    by (cases "eligible_subject pkg si dt ?s") (auto simp: judge_cases selectable_def split: if_splits)
qed

lemma judge_Refused:
  "(\<exists>r. judge pkg si dt c = Refused r) \<longleftrightarrow> \<not> selectable pkg si dt c \<and>
     \<not> (fst (subject_of si dt c) \<and> pinned_out (rq_overrides (dt_request dt)) (snd (subject_of si dt c)))"
  "judge pkg si dt c = Refused r \<Longrightarrow> rc_subject r = snd (subject_of si dt c)"
proof -
  let ?s = "snd (subject_of si dt c)"
  show "judge pkg si dt c = Refused r \<Longrightarrow> rc_subject r = ?s"
    using judge_subject_eligible[of pkg si dt ?s]
    by (cases "eligible_subject pkg si dt ?s") (auto simp: judge_cases split: if_splits)
  show "(\<exists>r. judge pkg si dt c = Refused r) \<longleftrightarrow> \<not> selectable pkg si dt c \<and>
     \<not> (fst (subject_of si dt c) \<and> pinned_out (rq_overrides (dt_request dt)) ?s)"
    using judge_subject_eligible[of pkg si dt ?s]
    by (cases "eligible_subject pkg si dt ?s") (auto simp: judge_cases selectable_def split: if_splits)
qed

lemma in_ranked_of: "x \<in> set (ranked_of vs) \<longleftrightarrow> Ranked x \<in> set vs"
  by (induction vs) (auto simp: ranked_of_def List.map_filter_simps split: verdict.splits)

lemma in_rejected_of: "r \<in> set (rejected_of vs) \<longleftrightarrow> Refused r \<in> set vs"
  by (induction vs) (auto simp: rejected_of_def List.map_filter_simps split: verdict.splits)

lemma cand_subject_rank [simp]: "cand_subject (c\<lparr>rank := r\<rparr>) = cand_subject c" by simp

lemma subjects_ordered: "cand_subject ` set (ordered (rank_candidates cs d b)) = cand_subject ` set cs"
proof -
  have "map cand_subject (ordered (rank_candidates cs d b)) = map cand_subject (sort_key order_key cs)"
    by (rule nth_equalityI) (simp_all add: ordered_nth)
  then show ?thesis by (metis list.set_map set_sort)
qed

lemma ordered_subjects:
  "s \<in> cand_subject ` set (ordered (fst (decide pkg si candidates dt))) \<longleftrightarrow>
     (\<exists>c \<in> set candidates. selectable pkg si dt c \<and> s = snd (subject_of si dt c))"
proof -
  have "s \<in> cand_subject ` set (ordered (fst (decide pkg si candidates dt))) \<longleftrightarrow>
      (\<exists>c \<in> set candidates. \<exists>x. judge pkg si dt c = Ranked x \<and> s = cand_subject x)"
  proof -
    have "x \<in> set (ranked_of (map (judge pkg si dt) candidates)) \<longleftrightarrow> (\<exists>c \<in> set candidates. judge pkg si dt c = Ranked x)" for x
      unfolding in_ranked_of set_map image_iff by metis
    then show ?thesis unfolding decide_def Let_def fst_conv subjects_ordered image_iff by metis
  qed
  also have "\<dots> \<longleftrightarrow> (\<exists>c \<in> set candidates. selectable pkg si dt c \<and> s = snd (subject_of si dt c))"
    using judge_Ranked by metis
  finally show ?thesis .
qed

lemma rejected_subjects:
  "s \<in> rc_subject ` set (snd (decide pkg si candidates dt)) \<longleftrightarrow>
     (\<exists>c \<in> set candidates. \<not> selectable pkg si dt c \<and> s = snd (subject_of si dt c) \<and>
        \<not> (fst (subject_of si dt c) \<and> pinned_out (rq_overrides (dt_request dt)) s))"
proof -
  have "s \<in> rc_subject ` set (snd (decide pkg si candidates dt)) \<longleftrightarrow>
      (\<exists>c \<in> set candidates. \<exists>x. judge pkg si dt c = Refused x \<and> s = rc_subject x)"
  proof -
    have "x \<in> set (rejected_of (map (judge pkg si dt) candidates)) \<longleftrightarrow> (\<exists>c \<in> set candidates. judge pkg si dt c = Refused x)" for x
      unfolding in_rejected_of set_map image_iff by metis
    then show ?thesis unfolding decide_def Let_def snd_conv image_iff by metis
  qed
  also have "\<dots> \<longleftrightarrow> (\<exists>c \<in> set candidates. \<not> selectable pkg si dt c \<and> s = snd (subject_of si dt c) \<and>
        \<not> (fst (subject_of si dt c) \<and> pinned_out (rq_overrides (dt_request dt)) s))"
    using judge_Refused by metis
  finally show ?thesis .
qed

subsection \<open>The subjects of a decision\<close>

text \<open>The subjects the registry offers for a model: its bare base, and each adapter the provider can swap onto it.\<close>

definition offered :: "situation \<Rightarrow> Registry \<Rightarrow> ModelRow \<Rightarrow> AdapterFacts option set" where
  "offered si rg m = insert None (Some ` (if adapter_hot_swap (dict_get (si_providers si) (mr_provider_name m) (si_provider si))
     then set (dict_get (adapter_facts_by_base_name rg) (mr_provider_model_name m) []) else {}))"

definition candidate_of_model :: "situation \<Rightarrow> Registry \<Rightarrow> (string \<times> string, CapabilitySignal list) dict \<Rightarrow> ModelRow \<Rightarrow>
    AdapterFacts option \<Rightarrow> candidate" where
  "candidate_of_model si rg evidence m a =
     (facts_for (provider_is_remote (si_provider si)) m, dict_get (si_providers si) (mr_provider_name m) (si_provider si),
      (case a of None \<Rightarrow> signals_for (filter (\<lambda>r. mc_model_id r = mr_id m) (rg_capabilities rg)) @ dict_get evidence (mr_id m, []) []
       | Some a \<Rightarrow> adapter_signals a @ dict_get evidence (mr_id m, adapter_id a) []), a)"

lemma facts_for_name [simp]: "provider_model_name (facts_for remote m) = mr_provider_model_name m"
  by (simp add: facts_for_def)

lemma read_candidates_set:
  assumes "read_candidates env si wts now rg = Inr cs"
  shows "\<exists>ev. set cs = {candidate_of_model si rg ev m a | m a. m \<in> set (rg_models rg) \<and> a \<in> offered si rg m}"
proof -
  obtain ev where cs: "cs = concat (map (subjects_of_model si (rg_capabilities rg) ev (adapter_facts_by_base_name rg))
      (sort_key mr_canonical_id (rg_models rg)))"
    using assms by (auto simp: read_candidates_def bind_result_Inr_iff)
  have "set (subjects_of_model si (rg_capabilities rg) ev (adapter_facts_by_base_name rg) m) =
      candidate_of_model si rg ev m ` offered si rg m" for m
    by (simp add: subjects_of_model_def candidate_of_model_def offered_def image_image Let_def)
  then have "set cs = {candidate_of_model si rg ev m a | m a. m \<in> set (rg_models rg) \<and> a \<in> offered si rg m}"
    by (auto simp: cs)
  then show ?thesis by blast
qed

lemma subject_of_candidate [simp]:
  "model_id (facts (snd (subject_of si dt (candidate_of_model si rg ev m a)))) = mr_id m"
  "adapter (snd (subject_of si dt (candidate_of_model si rg ev m a))) = a"
  by (simp_all add: subject_of_def build_subject_def candidate_of_model_def facts_for_def Let_def split: option.splits)

lemma subject_established:
  "fst (subject_of si dt c) \<longleftrightarrow> (let s = snd (subject_of si dt c) in
     resolve_served_context (runtime_profile s) (subject_provider s) (max_context (facts s)) \<noteq> None)"
  by (cases c) (simp add: subject_of_def build_subject_def Let_def split: option.splits)

lemma selectable_subject:
  "snd (subject_of si dt c) = snd (subject_of si dt c') \<Longrightarrow> selectable pkg si dt c \<longleftrightarrow> selectable pkg si dt c'"
  by (simp add: selectable_def subject_established)

lemma prepare_InrD:
  assumes "prepare env si request now w rg ss = Inr (profile, candidates, overview, dt)"
  shows "dt_request dt = request" "read_candidates env si (weights_of profile) now rg = Inr candidates"
    "load_task_profile (rq_task request) w = Inr profile"
    "evidence_overview (rp_evidence_url (si_policy si)) rg = Inr overview"
  using assms by (auto simp: prepare_def bind_result_Inr_iff map_error_def terms_of_def Let_def split: sum.splits)

lemma not_passed_over:
  "override_model o' = None \<Longrightarrow> override_adapter o' = None \<Longrightarrow> \<not> pinned_out o' s"
  by (simp add: pinned_out_def)

lemma length_decide:
  "length (ordered (fst (decide pkg si cs dt))) + length (snd (decide pkg si cs dt)) +
     length (filter (\<lambda>c. judge pkg si dt c = PassedOver) cs) = length cs"
proof -
  have "length (ranked_of vs) + length (rejected_of vs) + length (filter (\<lambda>v. v = PassedOver) vs) = length vs" for vs
    by (induction vs) (auto simp: ranked_of_def rejected_of_def List.map_filter_simps split: verdict.splits)
  from this[of "map (judge pkg si dt) cs"] show ?thesis
    by (simp add: decide_def Let_def filter_map comp_def)
qed


subsection \<open>What is selected\<close>

lemma route_InrD:
  assumes "route env ulid did elapsed persisting si caller request now w rg ss dl = (Inr res, dl')"
  shows "\<exists>profile candidates overview dt. prepare env si request now w rg ss = Inr (profile, candidates, overview, dt) \<and>
    rt_task_profile res = profile \<and>
    (rt_budget res, rt_explanation res) = explain env si did now (max elapsed 0) profile overview dt (decide (ro_packages env) si candidates dt) \<and>
    primary (fst (decide (ro_packages env) si candidates dt)) \<noteq> None \<and>
    (if persisting then persist_decision (ro_packages env) (ro_rendering env) ulid (rt_explanation res) profile
       (rp_strategy (si_policy si)) (max elapsed 0) now dl else Inr dl) = Inr dl'"
  using assms
  by (auto simp: route_def Let_def split: sum.splits prod.splits if_splits)

lemma explained:
  assumes "explain env si did now d profile overview dt (ranking, rejected) = (budget, x)"
  shows "xp_ranking x = ranking" "xp_rejected x = rejected" "xp_decision_id x = did"
    "budget = Option.bind (primary ranking) (\<lambda>c. budget_for dt (served_context (cand_subject c)))"
  using assms by (auto simp: explain_def build_explanation_def Let_def)

text \<open>The evaluation of a candidate's subject, on no particular device.\<close>

definition evaluated :: "packages \<Rightarrow> situation \<Rightarrow> decision_terms \<Rightarrow> candidate \<Rightarrow> RankedCandidate" where
  "evaluated pkg si dt c =
     (let s = snd (subject_of si dt c) in ranked_candidate pkg si dt s (score_subject pkg s (dt_scoring dt)) None)"

lemma beats_target:
  "beats (ranked_candidate pkg si dt s f t) y = beats (ranked_candidate pkg si dt s f None) y"
  by (simp add: beats_def ranked_candidate_def final_score_def vram_key_def Let_def)

lemma beats_rank [simp]: "beats (x\<lparr>rank := r\<rparr>) y = beats x y" "beats y (x\<lparr>rank := r\<rparr>) = beats y x"
  by (simp_all add: beats_def final_score_def vram_key_def)

lemma ranked_evaluated:
  assumes "selectable pkg si dt c" "c \<in> set candidates"
  shows "\<exists>x \<in> set (ordered (fst (decide pkg si candidates dt))). \<forall>y. beats x y \<longleftrightarrow> beats (evaluated pkg si dt c) y"
proof -
  let ?s = "snd (subject_of si dt c)"
  let ?vs = "ranked_of (map (judge pkg si dt) candidates)"
  obtain t where "judge pkg si dt c = Ranked (ranked_candidate pkg si dt ?s (score_subject pkg ?s (dt_scoring dt)) t)" (is "_ = Ranked ?x")
    using assms(1) judge_subject_eligible(1)[of pkg si dt ?s] by (auto simp: judge_cases selectable_def)
  then have "?x \<in> set ?vs" using assms(2) by (force simp: in_ranked_of)
  then have "?x \<in> set (sort_key order_key ?vs)" by simp
  then obtain i where i: "i < length ?vs" "sort_key order_key ?vs ! i = ?x" by (metis in_set_conv_nth length_sort)
  let ?o = "ordered (fst (decide pkg si candidates dt))"
  have "?o ! i = ?x\<lparr>rank := int (i + 1)\<rparr>" "i < length ?o" using i by (simp_all add: decide_def Let_def ordered_nth)
  then have "?x\<lparr>rank := int (i + 1)\<rparr> \<in> set ?o" by (metis nth_mem)
  moreover have "beats (?x\<lparr>rank := int (i + 1)\<rparr>) y \<longleftrightarrow> beats (evaluated pkg si dt c) y" for y
    by (simp only: beats_rank evaluated_def Let_def beats_target[of pkg si dt ?s _ t])
  ultimately show ?thesis by blast
qed

lemma primary_decide:
  "primary (fst (decide pkg si candidates dt)) = None \<longleftrightarrow> (\<forall>c \<in> set candidates. \<not> selectable pkg si dt c)"
proof -
  have "primary (fst (decide pkg si candidates dt)) = None \<longleftrightarrow> ordered (fst (decide pkg si candidates dt)) = []"
    by (simp add: decide_def Let_def primary_fallbacks split: list.split)
  also have "\<dots> \<longleftrightarrow> cand_subject ` set (ordered (fst (decide pkg si candidates dt))) = {}" by simp
  also have "\<dots> \<longleftrightarrow> (\<forall>c \<in> set candidates. \<not> selectable pkg si dt c)"
    unfolding set_eq_iff ordered_subjects by blast
  finally show ?thesis .
qed

lemma first_unbeaten:
  assumes "primary (rank_candidates cs d b) = Some chosen" "x \<in> set (ordered (rank_candidates cs d b))"
  shows "\<not> beats x chosen"
proof -
  obtain rest where o: "ordered (rank_candidates cs d b) = chosen # rest"
    using assms(1) by (auto simp: primary_fallbacks split: list.splits)
  have irrefl: "\<not> beats chosen chosen" by (simp flip: order_key_less)
  show ?thesis using sorted_ordered[of cs d b] assms(2) irrefl unfolding o by auto
qed

text \<open>
  C4. What a decision selects is allowed, and nothing allowed is better. The selected subject is
  one of the candidates the registry offers, its context is established, no pin rules it out and
  it satisfies every hard constraint; and no candidate of which that is true would beat it, by
  score, confidence, residency, size and name in that order. The budget that comes with it is the
  one computed for its own context.
\<close>

theorem routing_selects_best:
  assumes "route env ulid did elapsed persisting si caller request now w rg ss dl = (Inr res, dl')"
  shows "\<exists>profile candidates overview dt chosen c.
    prepare env si request now w rg ss = Inr (profile, candidates, overview, dt) \<and> rt_task_profile res = profile \<and>
    primary (xp_ranking (rt_explanation res)) = Some chosen \<and> rank chosen = 1 \<and>
    c \<in> set candidates \<and> selectable (ro_packages env) si dt c \<and> cand_subject chosen = snd (subject_of si dt c) \<and>
    rt_budget res = budget_for dt (served_context (cand_subject chosen)) \<and>
    (\<forall>c' \<in> set candidates. selectable (ro_packages env) si dt c' \<longrightarrow> \<not> beats (evaluated (ro_packages env) si dt c') chosen)"
proof -
  let ?pkg = "ro_packages env"
  obtain profile candidates overview dt where p: "prepare env si request now w rg ss = Inr (profile, candidates, overview, dt)"
    "rt_task_profile res = profile"
    "(rt_budget res, rt_explanation res) = explain env si did now (max elapsed 0) profile overview dt (decide ?pkg si candidates dt)"
    "primary (fst (decide ?pkg si candidates dt)) \<noteq> None"
    using route_InrD[OF assms] by (elim exE conjE)
  obtain ranking rejected where d: "decide ?pkg si candidates dt = (ranking, rejected)" by fastforce
  obtain chosen where ch: "primary ranking = Some chosen" using p(4) d by auto
  note x = explained[OF p(3)[unfolded d, symmetric]]
  have r: "ranking = rank_candidates (ranked_of (map (judge ?pkg si dt) candidates)) (dt_fallback_depth dt)
      (disallow_fallback (rq_overrides (dt_request dt)))" (is "_ = rank_candidates ?vs _ _")
    using d by (simp add: decide_def Let_def)
  obtain rest where o: "ordered ranking = chosen # rest"
    using ch by (auto simp: r primary_fallbacks split: list.splits)
  have "0 < length ?vs" using o by (metis r length_ordered length_Cons zero_less_Suc)
  then have "rank chosen = 1" using ordered_nth[of 0 ?vs "dt_fallback_depth dt" "disallow_fallback (rq_overrides (dt_request dt))"] o by (simp flip: r)
  have "cand_subject chosen \<in> cand_subject ` set (ordered ranking)" by (simp add: o)
  then obtain c where c: "c \<in> set candidates" "selectable ?pkg si dt c" "cand_subject chosen = snd (subject_of si dt c)"
    using ordered_subjects[of "cand_subject chosen" ?pkg si candidates dt] d by auto
  moreover have "\<not> beats (evaluated ?pkg si dt c') chosen" if "c' \<in> set candidates" "selectable ?pkg si dt c'" for c'
    using ranked_evaluated[OF that(2,1)] first_unbeaten ch d r by (metis fst_conv)
  ultimately show ?thesis using p(1,2) x ch \<open>rank chosen = 1\<close>
    by (intro exI[of _ profile] exI[of _ candidates] exI[of _ overview] exI[of _ dt] exI[of _ chosen] exI[of _ c]) simp
qed

text \<open>
  The order is not total on subjects. The last component of the key is the model's identifier, so
  two subjects of one model that differ in the adapter alone tie when their scores do, and the one
  the registry listed first is ranked first.
\<close>

theorem adapter_subjects_tie:
  fixes a :: AdapterFacts
  defines "base \<equiv> plain_candidate ''m'' 1"
  defines "tuned \<equiv> base\<lparr>cand_subject := (cand_subject base)\<lparr>adapter := Some a\<rparr>\<rparr>"
  shows "\<not> beats base tuned \<and> \<not> beats tuned base \<and>
    map (adapter \<circ> cand_subject) (ordered (rank_candidates [base, tuned] 0 False)) = [None, Some a] \<and>
    map (adapter \<circ> cand_subject) (ordered (rank_candidates [tuned, base] 0 False)) = [Some a, None]"
proof -
  have "order_key tuned = order_key base" "adapter (cand_subject base) = None"
    by (simp_all add: base_def tuned_def order_key_def final_score_def plain_candidate_def plain_subject_def)
  then show ?thesis
    by (simp add: ordered_rank_candidates tuned_def flip: order_key_less)
qed

subsection \<open>A request narrows\<close>

lemma check_memory_terms:
  "check_memory s e (inputs_for si (dt\<lparr>dt_constraints := c\<rparr>) f b) = check_memory s e (inputs_for si dt f b)"
proof -
  let ?i = "inputs_for si (dt\<lparr>dt_constraints := c\<rparr>) f b" and ?j = "inputs_for si dt f b"
  have same: "snapshot ?i = snapshot ?j" "vram_headroom_bytes ?i = vram_headroom_bytes ?j" "resident_devices ?i = resident_devices ?j"
    by (simp_all add: inputs_for_def)
  show ?thesis unfolding check_memory_def same ..
qed

lemma eligible_under:
  "eligible_subject pkg si (dt\<lparr>dt_constraints := c\<rparr>) s \<longleftrightarrow>
     (let f = score_subject pkg s (dt_scoring dt); b = budget_for dt (served_context s) in
      eligible_identity s (inputs_for si (dt\<lparr>dt_constraints := c\<rparr>) f b) \<and>
      fst (check_memory s (estimate_for s) (inputs_for si dt f b)) = None \<and>
      eligible_policy pkg s (inputs_for si (dt\<lparr>dt_constraints := c\<rparr>) f b))"
  by (simp add: eligible_subject_def budget_for_def check_memory_terms Let_def)

definition tighter :: "TaskProfileConstraints \<Rightarrow> TaskProfileConstraints \<Rightarrow> bool" where
  "tighter c base \<longleftrightarrow>
     tc_min_context_tokens base \<le> tc_min_context_tokens c \<and>
     set (tc_requires_capabilities base) \<subseteq> set (tc_requires_capabilities c) \<and>
     (\<forall>k m. (k, m) \<in> set (tc_min_capability_scores base) \<longrightarrow> (\<exists>m' \<ge> m. (k, m') \<in> set (tc_min_capability_scores c))) \<and>
     set (tc_exclude_models base) \<subseteq> set (tc_exclude_models c) \<and>
     (tc_allow_remote_providers c \<longrightarrow> tc_allow_remote_providers base)"

lemma tighter_eligible:
  assumes "tighter c base" "eligible_subject pkg si (dt\<lparr>dt_constraints := c\<rparr>) s"
  shows "eligible_subject pkg si (dt\<lparr>dt_constraints := base\<rparr>) s"
proof -
  let ?f = "score_subject pkg s (dt_scoring dt)" and ?b = "budget_for dt (served_context s)"
  let ?i = "\<lambda>c. inputs_for si (dt\<lparr>dt_constraints := c\<rparr>) ?f ?b"
  have e: "eligible_identity s (?i c)" "fst (check_memory s (estimate_for s) (inputs_for si dt ?f ?b)) = None" "eligible_policy pkg s (?i c)"
    using assms(2) by (simp_all add: eligible_under Let_def)
  have "eligible_identity s (?i base)"
    using assms(1) e(1) by (auto simp: eligible_identity_def inputs_for_def tighter_def)
  moreover have "eligible_policy pkg s (?i base)"
  proof -
    have floors: "m \<le> x" if "(k, m) \<in> set (tc_min_capability_scores base)" "resolved_entry (?i c) k = Some en" "cs_score en = Some x" for k m en x
    proof -
      note floor = that(1)
      obtain m' where "m \<le> m'" "(k, m') \<in> set (tc_min_capability_scores c)"
        using assms(1) floor unfolding tighter_def by blast
      moreover have "m' \<le> x" using e(3) that(2,3) calculation(2) unfolding eligible_policy_def by (simp add: inputs_for_def)
      ultimately show "m \<le> x" by simp
    qed
    have fields: "min_capability_scores (?i x) = Some (tc_min_capability_scores x)" "exclude_models (?i x) = tc_exclude_models x"
      "allow_remote_providers (?i x) = tc_allow_remote_providers x" "open_circuit_breakers (?i base) = open_circuit_breakers (?i c)"
      "require_adapter_evidence (?i base) = require_adapter_evidence (?i c)"
      "top_weighted_capability (?i base) = top_weighted_capability (?i c)" "resolved_entry (?i base) k = resolved_entry (?i c) k" for x k
      by (simp_all add: inputs_for_def resolved_entry_def)
    note p = e(3)[unfolded eligible_policy_def fields option.case]
    have "canonical_id (facts s) \<notin> set (tc_exclude_models base)" "is_remote (facts s) \<longrightarrow> tc_allow_remote_providers base"
      using p assms(1) unfolding tighter_def by blast+
    then show ?thesis unfolding eligible_policy_def fields option.case using p floors by blast
  qed
  ultimately show ?thesis using e(2) by (simp add: eligible_under Let_def)
qed

lemma merged_tighter:
  assumes "merged_constraints base asked = Inr c" "distinct (map fst (tc_min_capability_scores base))"
  shows "tighter c base"
proof (cases asked)
  case None
  then show ?thesis using assms(1) by (auto simp: merged_constraints_def tighter_def)
next
  case (Some r)
  let ?floor = "\<lambda>k. max (dict_get (tc_min_capability_scores base) k 0) (dict_get (tc_min_capability_scores r) k 0)"
  have c: "c = \<lparr>tc_min_context_tokens = max (tc_min_context_tokens base) (tc_min_context_tokens r),
      tc_requires_capabilities = sorted_union (tc_requires_capabilities base) (tc_requires_capabilities r),
      tc_max_latency_p95_seconds = merged_latency (tc_max_latency_p95_seconds base) (tc_max_latency_p95_seconds r),
      tc_min_capability_scores = map (\<lambda>k. (k, ?floor k))
        (sorted_union (map fst (tc_min_capability_scores base)) (map fst (tc_min_capability_scores r))),
      tc_exclude_models = sorted_union (tc_exclude_models base) (tc_exclude_models r),
      tc_allow_remote_providers = (tc_allow_remote_providers base \<and> tc_allow_remote_providers r)\<rparr>"
    using assms(1) Some by (simp add: merged_constraints_def split: if_splits)
  have "\<exists>m' \<ge> m. (k, m') \<in> set (tc_min_capability_scores c)" if "(k, m) \<in> set (tc_min_capability_scores base)" for k m
  proof -
    have "map_of (tc_min_capability_scores base) k = Some m" using that assms(2) by simp
    then have "m \<le> ?floor k" by (simp add: dict_get_def)
    moreover have "(k, ?floor k) \<in> set (tc_min_capability_scores c)" using that by (force simp: c sorted_union_def)
    ultimately show ?thesis by blast
  qed
  then show ?thesis by (auto simp: tighter_def c sorted_union_def)
qed

lemma tighter_capabilities: "tighter c base \<Longrightarrow> tighter (with_request_capabilities caps c) base"
  by (auto simp: tighter_def with_request_capabilities_def sorted_union_def)

lemma with_request_capabilities_set:
  "set (tc_requires_capabilities (with_request_capabilities caps c)) = set caps \<union> set (tc_requires_capabilities c)"
  by (auto simp: with_request_capabilities_def sorted_union_def)


text \<open>
  C37. The latency limit decides nothing. Whatever value the constraints carry for the 95th
  percentile of the latency, the profile's own, the request's or none, the ranking and the
  rejections are the same.
\<close>

theorem latency_limit_ignored:
  "decide pkg si candidates (dt\<lparr>dt_constraints := c\<lparr>tc_max_latency_p95_seconds := limit\<rparr>\<rparr>) =
   decide pkg si candidates (dt\<lparr>dt_constraints := c\<rparr>)"
proof -
  let ?d = "dt\<lparr>dt_constraints := c\<rparr>" and ?d' = "dt\<lparr>dt_constraints := c\<lparr>tc_max_latency_p95_seconds := limit\<rparr>\<rparr>"
  have b: "budget_for ?d' sc = budget_for ?d sc" for sc by (simp add: budget_for_def)
  have i: "inputs_for si ?d' f x = inputs_for si ?d f x" for f x by (simp add: inputs_for_def)
  have r: "ranked_candidate pkg si ?d' s f t = ranked_candidate pkg si ?d s f t" for s f t
    by (simp add: ranked_candidate_def)
  have "judge_subject pkg si ?d' s = judge_subject pkg si ?d s" for s
    unfolding judge_subject_def b i r by simp
  then have "judge pkg si ?d' = judge pkg si ?d" by (intro ext) (simp add: judge_def split: prod.split bool.split)
  then show ?thesis by (simp add: decide_def)
qed

subsection \<open>The decision log\<close>

interpretation runtime_profiles: upsert_table rr_profile_hash overwrite_profile
  by unfold_locales (simp_all add: overwrite_profile_def)

definition profiles_ok :: "(nat \<Rightarrow> string) \<Rightarrow> DecisionLog \<Rightarrow> bool" where
  "profiles_ok ulid dl \<longleftrightarrow> distinct (map rr_profile_hash (dl_profiles dl)) \<and> distinct (map rr_id (dl_profiles dl)) \<and>
     (\<forall>p \<in> set (dl_profiles dl). \<exists>n < dl_next dl. rr_id p = ulid n)"

definition log_ok :: "(nat \<Rightarrow> string) \<Rightarrow> DecisionLog \<Rightarrow> bool" where
  "log_ok ulid dl \<longleftrightarrow> profiles_ok ulid dl \<and> distinct (map rd_id (dl_decisions dl)) \<and>
     (\<forall>r \<in> set (dl_candidates dl). rk_decision_id r \<in> rd_id ` set (dl_decisions dl) \<and>
        (\<exists>p \<in> set (dl_profiles dl). rk_runtime_profile_id r = Some (rr_id p))) \<and>
     (\<forall>r \<in> set (dl_decisions dl). \<forall>i. rd_selected_runtime_profile_id r = Some i \<longrightarrow> i \<in> rr_id ` set (dl_profiles dl))"

lemma ids_upsert_profile:
  "map rr_id (dl_profiles (upsert_profile pkg ulid now profile dl)) =
     (if profile_hash pkg profile \<in> rr_profile_hash ` set (dl_profiles dl) then map rr_id (dl_profiles dl)
      else map rr_id (dl_profiles dl) @ [ulid (dl_next dl)])"
  by (simp add: upsert_profile_def upsert_def overwrite_profile_def image_iff, metis)

lemma upsert_profile_ok:
  assumes "profiles_ok ulid dl" "inj ulid"
  shows "profiles_ok ulid (upsert_profile pkg ulid now profile dl)"
    "rr_id ` set (dl_profiles dl) \<subseteq> rr_id ` set (dl_profiles (upsert_profile pkg ulid now profile dl))"
    "\<exists>p \<in> set (dl_profiles (upsert_profile pkg ulid now profile dl)).
       row_of rr_profile_hash (profile_hash pkg profile) (dl_profiles (upsert_profile pkg ulid now profile dl)) = Some p"
proof -
  let ?dl = "upsert_profile pkg ulid now profile dl"
  have next_id: "dl_next ?dl = Suc (dl_next dl)" by (simp add: upsert_profile_def)
  have fresh: "ulid (dl_next dl) \<notin> rr_id ` set (dl_profiles dl)"
    using assms unfolding profiles_ok_def by (metis imageE injD less_irrefl)
  have ids: "set (map rr_id (dl_profiles ?dl)) \<subseteq> insert (ulid (dl_next dl)) (set (map rr_id (dl_profiles dl)))"
    "set (map rr_id (dl_profiles dl)) \<subseteq> set (map rr_id (dl_profiles ?dl))"
    unfolding ids_upsert_profile by auto
  have "distinct (map rr_id (dl_profiles ?dl))"
    unfolding ids_upsert_profile using fresh assms(1) by (simp add: profiles_ok_def)
  moreover have "distinct (map rr_profile_hash (dl_profiles ?dl))"
    using assms(1) runtime_profiles.distinct_upsert by (simp add: upsert_profile_def profiles_ok_def)
  moreover have "\<exists>n < Suc (dl_next dl). rr_id p = ulid n" if "p \<in> set (dl_profiles ?dl)" for p
  proof -
    have "rr_id p = ulid (dl_next dl) \<or> rr_id p \<in> rr_id ` set (dl_profiles dl)" using ids(1) that by auto
    then show ?thesis using assms(1) unfolding profiles_ok_def by (metis imageE less_Suc_eq)
  qed
  ultimately show "profiles_ok ulid ?dl" by (simp add: profiles_ok_def next_id)
  show "rr_id ` set (dl_profiles dl) \<subseteq> rr_id ` set (dl_profiles ?dl)" using ids(2) by simp
  show "\<exists>p \<in> set (dl_profiles ?dl). row_of rr_profile_hash (profile_hash pkg profile) (dl_profiles ?dl) = Some p"
  proof -
    have "row_of rr_profile_hash (profile_hash pkg profile) (dl_profiles ?dl) \<noteq> None"
      by (simp add: upsert_profile_def runtime_profiles.row_of_upsert)
    then show ?thesis using row_of_Some by (metis not_None_eq)
  qed
qed

definition ids_ok :: "(string, string) dict \<Rightarrow> DecisionLog \<Rightarrow> bool" where
  "ids_ok ids dl \<longleftrightarrow> (\<forall>h i. map_of ids h = Some i \<longrightarrow> i \<in> rr_id ` set (dl_profiles dl))"

lemma runtime_profile_id_ok:
  assumes "profiles_ok ulid dl" "ids_ok ids dl" "inj ulid"
  shows "\<exists>ids' dl'. runtime_profile_id pkg ulid now s (ids, dl) = (ids', dl') \<and> profiles_ok ulid dl' \<and> ids_ok ids' dl' \<and>
    rr_id ` set (dl_profiles dl) \<subseteq> rr_id ` set (dl_profiles dl') \<and>
    dl_decisions dl' = dl_decisions dl \<and> dl_candidates dl' = dl_candidates dl \<and>
    dom (map_of ids') = insert (runtime_profile_hash pkg s) (dom (map_of ids))"
proof -
  let ?dl = "upsert_profile pkg ulid now (runtime_profile s) dl"
  note ok = upsert_profile_ok[OF assms(1,3), of pkg now "runtime_profile s"]
  obtain p where p: "p \<in> set (dl_profiles ?dl)" "row_of rr_profile_hash (runtime_profile_hash pkg s) (dl_profiles ?dl) = Some p"
    using ok(3) by (auto simp: runtime_profile_hash_def)
  let ?ids = "AList.update (runtime_profile_hash pkg s) (rr_id p) ids"
  have "ids_ok ?ids ?dl" using assms(2) ok(2) p(1) by (auto simp: ids_ok_def update_conv' split: if_splits)
  moreover have "runtime_profile_id pkg ulid now s (ids, dl) = (?ids, ?dl)"
    by (simp add: runtime_profile_id_def p(2) Let_def)
  moreover have "dl_decisions ?dl = dl_decisions dl" "dl_candidates ?dl = dl_candidates dl"
    by (simp_all add: upsert_profile_def)
  moreover have "dom (map_of ?ids) = insert (runtime_profile_hash pkg s) (dom (map_of ids))" by (simp add: update_conv')
  ultimately show ?thesis using ok(1,2) by blast
qed

lemma runtime_profile_ids:
  assumes "profiles_ok ulid dl" "ids_ok ids dl" "inj ulid"
  shows "\<exists>ids' dl'. fold (runtime_profile_id pkg ulid now) ss (ids, dl) = (ids', dl') \<and> profiles_ok ulid dl' \<and> ids_ok ids' dl' \<and>
    rr_id ` set (dl_profiles dl) \<subseteq> rr_id ` set (dl_profiles dl') \<and>
    dl_decisions dl' = dl_decisions dl \<and> dl_candidates dl' = dl_candidates dl \<and>
    dom (map_of ids') = runtime_profile_hash pkg ` set ss \<union> dom (map_of ids)"
  using assms
proof (induction ss arbitrary: ids dl)
  case (Cons s ss)
  obtain ids1 dl1 where one: "runtime_profile_id pkg ulid now s (ids, dl) = (ids1, dl1)" "profiles_ok ulid dl1" "ids_ok ids1 dl1"
    "rr_id ` set (dl_profiles dl) \<subseteq> rr_id ` set (dl_profiles dl1)" "dl_decisions dl1 = dl_decisions dl" "dl_candidates dl1 = dl_candidates dl"
    "dom (map_of ids1) = insert (runtime_profile_hash pkg s) (dom (map_of ids))"
    using runtime_profile_id_ok[OF Cons.prems, of pkg now s] by (elim exE conjE)
  obtain ids2 dl2 where two: "fold (runtime_profile_id pkg ulid now) ss (ids1, dl1) = (ids2, dl2)" "profiles_ok ulid dl2" "ids_ok ids2 dl2"
    "rr_id ` set (dl_profiles dl1) \<subseteq> rr_id ` set (dl_profiles dl2)" "dl_decisions dl2 = dl_decisions dl1" "dl_candidates dl2 = dl_candidates dl1"
    "dom (map_of ids2) = runtime_profile_hash pkg ` set ss \<union> dom (map_of ids1)"
    using Cons.IH[OF one(2,3) assms(3)] by (elim exE conjE)
  show ?case
    by (intro exI[of _ ids2] exI[of _ dl2])
      (simp add: one(1) two(1-3) two(5-7) one(5-7) order_trans[OF one(4) two(4)])
qed simp

text \<open>The candidate rows a decision has in the log: the subject and whether it was rejected, in order.\<close>

definition logged :: "string \<Rightarrow> DecisionLog \<Rightarrow> (string \<times> bool) list" where
  "logged did dl = map (\<lambda>r. (rk_subject_canonical_id r, rk_rejected r)) (filter (\<lambda>r. rk_decision_id r = did) (dl_candidates dl))"

definition judged :: "packages \<Rightarrow> Ranking \<Rightarrow> RejectedCandidate list \<Rightarrow> (string \<times> bool) list" where
  "judged pkg ranking rejected = map (\<lambda>c. (subject_canonical_id pkg (cand_subject c), False)) (ordered ranking) @
     map (\<lambda>r. (subject_canonical_id pkg (rc_subject r), True)) rejected"

lemma row_fields [simp]:
  "rk_decision_id (candidate_row pkg rn did ids now c) = did" "rk_rejected (candidate_row pkg rn did ids now c) = False"
  "rk_subject_canonical_id (candidate_row pkg rn did ids now c) = subject_canonical_id pkg (cand_subject c)"
  "rk_runtime_profile_id (candidate_row pkg rn did ids now c) = map_of ids (runtime_profile_hash pkg (cand_subject c))"
  "rk_decision_id (rejected_row pkg did ids now r) = did" "rk_rejected (rejected_row pkg did ids now r) = True"
  "rk_subject_canonical_id (rejected_row pkg did ids now r) = subject_canonical_id pkg (rc_subject r)"
  "rk_runtime_profile_id (rejected_row pkg did ids now r) = map_of ids (runtime_profile_hash pkg (rc_subject r))"
  "rd_id (decision_row pkg x profile ids strategy d now) = xp_decision_id x"
  "rd_explanation (decision_row pkg x profile ids strategy d now) = xp_payload x"
  by (simp_all add: candidate_row_def rejected_row_def decision_row_def Let_def)

lemma persist_decision_ok:
  assumes "persist_decision pkg rn ulid x profile strategy d now dl = Inr dl'" "log_ok ulid dl" "inj ulid"
  shows "log_ok ulid dl' \<and> xp_decision_id x \<notin> rd_id ` set (dl_decisions dl) \<and>
    (\<forall>i. read_decision i dl' = (if i = xp_decision_id x then Some (xp_payload x) else read_decision i dl)) \<and>
    (\<forall>i. logged i dl' = (if i = xp_decision_id x then judged pkg (xp_ranking x) (xp_rejected x) else logged i dl))"
proof -
  let ?did = "xp_decision_id x" and ?ranked = "ordered (xp_ranking x)"
  let ?ss = "map cand_subject ?ranked @ map rc_subject (xp_rejected x)"
  have empty: "profiles_ok ulid dl" "ids_ok [] dl" using assms(2) by (simp_all add: log_ok_def ids_ok_def)
  obtain ids dl1 where f: "fold (runtime_profile_id pkg ulid now) ?ss ([], dl) = (ids, dl1)" "profiles_ok ulid dl1" "ids_ok ids dl1"
    "rr_id ` set (dl_profiles dl) \<subseteq> rr_id ` set (dl_profiles dl1)" "dl_decisions dl1 = dl_decisions dl" "dl_candidates dl1 = dl_candidates dl"
    "dom (map_of ids) = runtime_profile_hash pkg ` set ?ss \<union> dom (map_of ([] :: (string \<times> string) list))"
    using runtime_profile_ids[OF empty assms(3), of pkg now ?ss] by (elim exE conjE)
  let ?new = "map (candidate_row pkg rn ?did ids now) ?ranked @ map (rejected_row pkg ?did ids now) (xp_rejected x)"
  let ?row = "decision_row pkg x profile ids strategy d now"
  have fresh: "?did \<notin> rd_id ` set (dl_decisions dl)"
    and dl': "dl' = dl1\<lparr>dl_decisions := dl_decisions dl @ [?row], dl_candidates := dl_candidates dl @ ?new\<rparr>"
    using assms(1) by (auto simp: persist_decision_def Let_def f(1,5,6) simp del: fold_append split: if_splits)
  have dec: "dl_decisions dl' = dl_decisions dl @ [?row]" "dl_candidates dl' = dl_candidates dl @ ?new" "dl_profiles dl' = dl_profiles dl1"
    "dl_next dl' = dl_next dl1" by (simp_all add: dl')
  have stored: "\<exists>p \<in> set (dl_profiles dl1). map_of ids (runtime_profile_hash pkg s) = Some (rr_id p)" if "s \<in> set ?ss" for s
  proof -
    have "runtime_profile_hash pkg s \<in> dom (map_of ids)" using f(7) that by blast
    then show ?thesis using f(3) unfolding ids_ok_def by fastforce
  qed
  have "read_decision i dl' = (if i = ?did then Some (xp_payload x) else read_decision i dl)" for i
  proof -
    have new: "row_of rd_id i [?row] = (if i = ?did then Some ?row else None)" by (simp add: row_of_def)
    have old: "row_of rd_id ?did (dl_decisions dl) = None" using fresh by (simp add: row_of_None)
    show ?thesis unfolding read_decision_def dec(1) row_of_append new using old by (simp split: option.split)
  qed
  moreover have "logged i dl' = (if i = ?did then judged pkg (xp_ranking x) (xp_rejected x) else logged i dl)" for i
  proof -
    have "\<forall>r \<in> set (dl_candidates dl). rk_decision_id r \<noteq> ?did" using assms(2) fresh unfolding log_ok_def by metis
    then have none: "filter (\<lambda>r. rk_decision_id r = ?did) (dl_candidates dl) = []" by simp
    show ?thesis by (auto simp: logged_def judged_def dec(2) none filter_map comp_def)
  qed
  moreover have "log_ok ulid dl'"
    unfolding log_ok_def
  proof (intro conjI ballI allI impI)
    show "profiles_ok ulid dl'" using f(2) by (simp add: profiles_ok_def dec)
    show "distinct (map rd_id (dl_decisions dl'))" using assms(2) fresh by (simp add: log_ok_def dec(1))
  next
    fix r assume "r \<in> set (dl_candidates dl')"
    then consider "r \<in> set (dl_candidates dl)" | "r \<in> set ?new" by (auto simp: dec(2))
    then have "rk_decision_id r \<in> rd_id ` set (dl_decisions dl') \<and> (\<exists>p \<in> set (dl_profiles dl1). rk_runtime_profile_id r = Some (rr_id p))"
    proof cases
      case 1
      then have "rk_decision_id r \<in> rd_id ` set (dl_decisions dl)" "\<exists>i \<in> rr_id ` set (dl_profiles dl). rk_runtime_profile_id r = Some i"
        using assms(2) by (auto simp: log_ok_def)
      moreover from this(2) f(4) have "\<exists>i \<in> rr_id ` set (dl_profiles dl1). rk_runtime_profile_id r = Some i" by blast
      ultimately show ?thesis by (auto simp: dec(1))
    next
      case 2
      then have "rk_decision_id r = ?did \<and> (\<exists>s \<in> set ?ss. rk_runtime_profile_id r = map_of ids (runtime_profile_hash pkg s))" by auto
      then show ?thesis using stored by (auto simp: dec(1))
    qed
    then show "rk_decision_id r \<in> rd_id ` set (dl_decisions dl')"
      and "\<exists>p \<in> set (dl_profiles dl'). rk_runtime_profile_id r = Some (rr_id p)" by (simp_all add: dec(3))
  next
    fix r i assume r: "r \<in> set (dl_decisions dl')" "rd_selected_runtime_profile_id r = Some i"
    show "i \<in> rr_id ` set (dl_profiles dl')"
    proof (cases "r \<in> set (dl_decisions dl)")
      case True
      then show ?thesis using assms(2) r(2) f(4) unfolding log_ok_def dec(3) by blast
    next
      case False
      then have "rd_selected_runtime_profile_id ?row = Some i" using r by (simp add: dec(1))
      then obtain s where "map_of ids (runtime_profile_hash pkg s) = Some i"
        by (auto simp: decision_row_def Let_def bind_eq_Some_conv)
      then show ?thesis using f(3) by (auto simp: ids_ok_def dec(3))
    qed
  qed
  ultimately show ?thesis using fresh by blast
qed

lemma prepare_error: "prepare env si request now w rg ss \<noteq> Inl (NoEligibleModel i t r)"
  by (auto simp: prepare_def bind_result_def map_error_def merged_constraints_def output_allowance_def int_or_def
      refuse_unknown_adapter_def Let_def split: sum.splits option.splits if_splits)

text \<open>
  C15. The log records what was decided. A decision that is reached, with a model or with none
  eligible, is read back under its identifier as the explanation that was computed, and its
  candidate rows are exactly the ranked subjects in order followed by the rejected ones; earlier
  decisions and their rows stay as they were. The log's keys stay unique and every candidate row
  points to a stored decision and a stored runtime profile. Any other outcome leaves the log
  alone. When none was eligible, no candidate of the registry was.
\<close>

theorem decision_recorded:
  assumes "route env ulid did elapsed True si caller request now w rg ss dl = (answer, dl')"
    and "log_ok ulid dl" "inj ulid"
  shows "log_ok ulid dl' \<and> (\<forall>i. i \<noteq> did \<longrightarrow> read_decision i dl' = read_decision i dl \<and> logged i dl' = logged i dl) \<and>
    (case answer of
       Inr res \<Rightarrow> read_decision did dl' = Some (xp_payload (rt_explanation res)) \<and>
         logged did dl' = judged (ro_packages env) (xp_ranking (rt_explanation res)) (xp_rejected (rt_explanation res))
     | Inl (NoEligibleModel i t refused) \<Rightarrow> i = did \<and>
         (\<exists>payload profile candidates overview dt. read_decision did dl' = Some payload \<and> refused = json_get payload ''rejected'' \<and>
            prepare env si request now w rg ss = Inr (profile, candidates, overview, dt) \<and>
            (\<forall>c \<in> set candidates. \<not> selectable (ro_packages env) si dt c))
     | Inl _ \<Rightarrow> dl' = dl)"
proof (cases "(\<exists>p. authorize caller ''write'' = Inr p) \<and> (\<exists>profile candidates overview dt.
    prepare env si request now w rg ss = Inr (profile, candidates, overview, dt))")
  case False
  then have "dl' = dl \<and> (\<exists>e. answer = Inl e \<and> (\<forall>i t r. e \<noteq> NoEligibleModel i t r))"
    using assms(1) prepare_error by (auto simp: route_def split: sum.splits prod.splits)
  then show ?thesis using assms(2) by (auto split: route_error.splits)
next
  case True
  then obtain profile candidates overview dt p where a: "authorize caller ''write'' = Inr p"
    and pr: "prepare env si request now w rg ss = Inr (profile, candidates, overview, dt)" by blast
  let ?pkg = "ro_packages env" and ?d = "decide (ro_packages env) si candidates dt"
  obtain ranking rejected where d: "?d = (ranking, rejected)" by fastforce
  obtain budget x where x: "explain env si did now (max elapsed 0) profile overview dt (ranking, rejected) = (budget, x)" by fastforce
  note xs = explained[OF x]
  let ?w = "persist_decision ?pkg (ro_rendering env) ulid x profile (rp_strategy (si_policy si)) (max elapsed 0) now dl"
  have route: "(answer, dl') = (case ?w of Inl e \<Rightarrow> (Inl e, dl)
      | Inr dl' \<Rightarrow> if primary ranking = None then (Inl (NoEligibleModel did (tp_profile_id profile) (json_get (xp_payload x) ''rejected'')), dl')
          else (Inr \<lparr>rt_explanation = x, rt_task_profile = profile, rt_budget = budget\<rparr>, dl'))"
    unfolding assms(1)[symmetric] by (simp add: route_def a pr d x Let_def split: sum.split)
  show ?thesis
  proof (cases ?w)
    case (Inl e)
    then have "e = RouteIntegrity" by (auto simp: persist_decision_def Let_def split: if_splits prod.splits)
    then show ?thesis using route Inl assms(2) by simp
  next
    case (Inr dl1)
    note ok = persist_decision_ok[OF Inr assms(2,3), unfolded xs(1-3)]
    have "\<not> selectable ?pkg si dt c" if "primary ranking = None" "c \<in> set candidates" for c
      using primary_decide[of ?pkg si candidates dt] that d by simp
    then show ?thesis using route Inr ok pr xs by (auto split: if_splits)
  qed
qed

subsection \<open>A decision, computed\<close>

text \<open>Two models of one provider, the second switched off by its operator, and no evidence.\<close>

definition two_models :: Registry where
  "two_models = (sample_registry [])\<lparr>rg_models := [named_model ''1'' None,
     (named_model ''2'' None)\<lparr>mr_provider_model_name := ''n'', mr_canonical_id := ''ollama/n'', mr_enabled := False\<rparr>]\<rparr>"

definition plain_constraints :: TaskProfileConstraints where
  "plain_constraints = \<lparr>tc_min_context_tokens = 0, tc_requires_capabilities = [], tc_max_latency_p95_seconds = None,
     tc_min_capability_scores = [], tc_exclude_models = [], tc_allow_remote_providers = False\<rparr>"

definition plain_env :: routing_env where
  "plain_env = \<lparr>ro_packages = \<lparr>profile_hash = (\<lambda>_. ''h''), canonical_suffix = (\<lambda>a b. a @ b), classification_rank = (\<lambda>_. Some 0)\<rparr>,
     ro_rendering = \<lparr>to_rfc3339 = (\<lambda>_. []), factor_sentence = (\<lambda>_. [])\<rparr>, ro_conversions = plain_reading,
     ro_constraints = (\<lambda>_. Inr plain_constraints)\<rparr>"

definition plain_situation :: situation where
  "plain_situation = \<lparr>si_provider = plain_provider, si_providers = [],
     si_policy = \<lparr>rp_strategy = ''weighted_evidence'', rp_min_confidence = 0, rp_prefer_resident_bonus = 0, rp_base_switch_penalty = 0,
       rp_require_adapter_evidence = False, rp_min_present_weight = 0, rp_remote_cost_factor = 1, rp_vram_headroom_bytes = 0,
       rp_runtime_defaults = empty_profile, rp_runtime_per_model = [], rp_machine_fingerprint = None, rp_evidence_url = []\<rparr>,
     si_snapshot = None, si_resident_models = [], si_open_breakers = Some [], si_resident_devices = [], si_breaker_details = []\<rparr>"

definition plain_asking :: "string \<Rightarrow> TaskProfileConstraints option \<Rightarrow> RouteRequest" where
  "plain_asking t c = \<lparr>rq_task = t, rq_estimated_input_tokens = None, rq_max_output_tokens = None, rq_constraints = c,
     rq_require_capabilities = [], rq_think = None,
     rq_overrides = \<lparr>override_model = None, override_adapter = None, override_profile = None, disallow_fallback = False,
       require_evidence = False, ignore_residency = False\<rparr>, rq_data_classification = None\<rparr>"

definition no_decisions :: DecisionLog where
  "no_decisions = \<lparr>dl_profiles = [], dl_decisions = [], dl_candidates = [], dl_next = 0\<rparr>"


lemma sample_signals: "bound_signals_for_routing cv wts now machine two_models = Inr []"
  by (simp add: bound_signals_for_routing_def two_models_def sample_registry_def group_by_def Let_def)

lemma sample_overview: "\<exists>o'. evidence_overview [] two_models = Inr o'"
  by (simp add: evidence_overview_def two_models_def sample_registry_def greatest_version_def latest_source_def bind_result_def Let_def)

lemma sample_prepared:
  "\<exists>profile cs overview dt. prepare plain_env plain_situation (plain_asking ''chat'' None) 9 (world_of []) two_models no_statistics =
     Inr (profile, cs, overview, dt) \<and> dt_constraints dt = plain_constraints \<and> dt_thinking dt = None"
proof -
  obtain o' where "evidence_overview [] two_models = Inr o'" using sample_overview by blast
  then show ?thesis
    by (simp add: prepare_def bind_result_def load_task_profile_def world_of_def plain_env_def plain_asking_def merged_constraints_def
        output_allowance_def int_or_def get_or_def map_error_def read_candidates_def sample_signals refuse_unknown_adapter_def
        plain_situation_def terms_of_def thinking_required_by_def json_get_def with_request_capabilities_def Let_def)
qed

lemma two_models_ok: "registry_ok two_models"
  by (simp add: two_models_def sample_registry_def registry_ok_def named_model_def model_identity_def)

lemma sample_selectable:
  assumes "prepare plain_env plain_situation (plain_asking ''chat'' None) 9 (world_of []) two_models no_statistics = Inr (profile, cs, overview, dt)"
    and "dt_constraints dt = plain_constraints" "dt_thinking dt = None"
  shows "\<exists>c \<in> set cs. selectable (ro_packages plain_env) plain_situation dt c"
proof -
  obtain ev where "set cs = {candidate_of_model plain_situation two_models ev m a | m a.
      m \<in> set (rg_models two_models) \<and> a \<in> offered plain_situation two_models m}"
    using read_candidates_set[OF prepare_InrD(2)[OF assms(1)]] by blast
  moreover have "named_model ''1'' None \<in> set (rg_models two_models)" "None \<in> offered plain_situation two_models m" for m
    by (simp_all add: two_models_def offered_def)
  ultimately have "candidate_of_model plain_situation two_models ev (named_model ''1'' None) None \<in> set cs" (is "?c \<in> _") by blast
  moreover have "selectable (ro_packages plain_env) plain_situation dt ?c"
    using assms(2,3) prepare_InrD(1)[OF assms(1)]
    by (simp add: selectable_def eligible_subject_def subject_of_def build_subject_def candidate_of_model_def plain_situation_def
        dict_get_def resolve_served_context_def plain_provider_def facts_for_def named_model_def plain_asking_def pinned_out_def
        inputs_for_def plain_constraints_def budget_for_def eligible_identity_def eligible_policy_def check_memory_def Let_def
        resolve_runtime_profile_def merge_def first_of_def empty_profile_def runtime_profile_refusal_def subject_canonical_id_def
        apply_task_profile_context_def)
  ultimately show ?thesis by blast
qed

abbreviation sample_route :: "(route_error + Routing.RoutingResult) \<times> DecisionLog" where
  "sample_route \<equiv> route plain_env unary_ulid ''d1'' 3 True plain_situation None (plain_asking ''chat'' None) 9 (world_of []) two_models
     no_statistics no_decisions"

lemma no_decisions_ok: "log_ok unary_ulid no_decisions"
  by (simp add: log_ok_def profiles_ok_def no_decisions_def)

lemma sample_answer: "\<exists>res dl'. sample_route = (Inr res, dl')"
proof -
  obtain profile cs overview dt where p:
    "prepare plain_env plain_situation (plain_asking ''chat'' None) 9 (world_of []) two_models no_statistics = Inr (profile, cs, overview, dt)"
    "dt_constraints dt = plain_constraints" "dt_thinking dt = None" using sample_prepared by (elim exE conjE)
  have "primary (fst (decide (ro_packages plain_env) plain_situation cs dt)) \<noteq> None"
    unfolding primary_decide using sample_selectable[OF p] by blast
  moreover have "authorize None ''write'' = Inr None" by code_simp
  ultimately show ?thesis
    by (auto simp: route_def p(1) persist_decision_def no_decisions_def Let_def split: prod.splits)
qed


theorem routing_selects_best_witness:
  "\<exists>res dl' chosen. sample_route = (Inr res, dl') \<and> primary (xp_ranking (rt_explanation res)) = Some chosen \<and> rank chosen = 1"
proof -
  obtain res dl' where r: "sample_route = (Inr res, dl')" using sample_answer by blast
  from routing_selects_best[OF r] r show ?thesis by blast
qed

theorem decision_recorded_witness:
  "\<exists>res dl'. sample_route = (Inr res, dl') \<and> log_ok unary_ulid dl' \<and>
     read_decision ''d1'' dl' = Some (xp_payload (rt_explanation res)) \<and>
     logged ''d1'' dl' = judged (ro_packages plain_env) (xp_ranking (rt_explanation res)) (xp_rejected (rt_explanation res))"
proof -
  obtain res dl' where r: "sample_route = (Inr res, dl')" using sample_answer by blast
  from decision_recorded[OF r no_decisions_ok inj_unary_ulid] r show ?thesis by auto
qed


end
