(* ===== verification/Spec2Isabelle.thy ===== *)
theory Spec2Isabelle
  imports Retry_Policy Authorization Circuit_Breaker Admission Context_Budget Ranking Execution Worker_Loop Scheduling
    Evidence_Correctness Registry Feedback Task_Profiles Routing_Correctness
begin

section \<open>LoadCoach: a verification library\<close>

text \<open>
  LoadCoach runs LLM jobs on the models of local machines. A caller submits a task; the job is either queued or
  executed while the caller waits. Routing decides, from measured evidence, which models may and should
  serve it; workers claim queued jobs, admit them against the memory of the GPUs, call the provider, validate the
  answer and retry or fall back as a failure table says; a scheduler keeps leases alive, reclaims lost ones, ages
  priorities and wakes deferred jobs; circuit breakers take failing models out; everything is recorded in one
  database that several processes share. The sources are under \<^verbatim>\<open>src/src/loadcoach\<close>.

  \<^bold>\<open>How the code is modelled.\<close> A dataclass is a record, an enumeration a datatype, a function a HOL function with the same
  branches, and an exception a value of an error type (\<open>Inl\<close>). Python's integers are \<open>int\<close>, its floats are the rationals a
  double can hold with the rounding \<open>fl\<close> after every operation (\<open>Float64\<close>), an instant is a number of
  microseconds, a dictionary an association list, a JSON document the datatype \<open>json\<close> (\<open>Values\<close>). The database is the record
  \<open>World\<close>: a table is a list of rows, a column that may be \<open>NULL\<close> an option that no comparison selects when it is
  \<open>None\<close>, a transaction a function from \<open>World\<close> to a new \<open>World\<close> or to an error, which is the rollback. Other packages of the suite,
  the providers, hashing, \<open>json.loads\<close>, regular expressions, fresh identifiers, the clock and telemetry are parameters.

  \<^bold>\<open>The parts and their theories.\<close>
  \<^item> \<open>Prelude\<close>, \<open>Float64\<close>, \<open>Values\<close>: results and errors, lists and maps, double arithmetic, documents.
  \<^item> \<open>Queue_State\<close>, \<open>Priority\<close>, \<open>Retry_Policy\<close>, \<open>Authorization\<close>, \<open>Circuit_Breaker\<close>, \<open>Admission\<close>: the pure rules of \<^verbatim>\<open>domain/queue_state.py\<close>,
    \<^verbatim>\<open>priority.py\<close>, \<^verbatim>\<open>retry_policy.py\<close>, \<^verbatim>\<open>authorization.py\<close>, \<^verbatim>\<open>circuit_breaker.py\<close> and \<^verbatim>\<open>admission.py\<close>.
  \<^item> \<open>Subject\<close>, \<open>Evidence_Policy\<close>, \<open>Reliability\<close>, \<open>Scoring\<close>, \<open>Constraints\<close>, \<open>Context_Budget\<close>, \<open>Ranking\<close>: routing, from the facts of a
    model to the ranked candidates (\<^verbatim>\<open>domain/routing/*.py\<close>, \<^verbatim>\<open>domain/evidence_policy.py\<close>, \<^verbatim>\<open>domain/reliability.py\<close>).
  \<^item> \<open>Submission\<close>, \<open>Job_Events\<close>, \<open>Job_Queue\<close>, \<open>Queue_Correctness\<close>, \<open>Recovery\<close>: the persisted request, the event sink, the
    queue's operations and the recovery pass (\<^verbatim>\<open>services/queue.py\<close>, \<^verbatim>\<open>job_events.py\<close>, \<^verbatim>\<open>recovery.py\<close>).
  \<^item> \<open>Validation\<close>, \<open>Attempts\<close>, \<open>Execution\<close>: output validation, one attempt, the synchronous path (\<^verbatim>\<open>domain/validation.py\<close>,
    \<^verbatim>\<open>services/execution.py\<close>).
  \<^item> \<open>Worker_Store\<close>, \<open>Worker\<close>, \<open>Worker_Loop\<close>, \<open>Worker_Release\<close>: the in-flight registry, each transaction of a worker,
    \<open>Worker.process\<close> with its loop, the polling loop, and the proof that a worker lets go of its job (\<^verbatim>\<open>services/worker.py\<close>).
  \<^item> \<open>Residency\<close>, \<open>Retention\<close>, \<open>Runtime_Settings\<close>: \<^verbatim>\<open>services/residency.py\<close>, \<^verbatim>\<open>retention.py\<close>, \<^verbatim>\<open>settings.py\<close>.
  \<^item> \<open>Tables\<close>, \<open>Registry_State\<close>: rows under a unique index with the statement \<open>INSERT ... ON CONFLICT DO UPDATE\<close>, and the tables of
    models, declared capabilities, evidence and adapters (\<^verbatim>\<open>infrastructure/db/models.py\<close>).
  \<^item> \<open>Evidence_Store\<close>, \<open>Evidence_Correctness\<close>: the import of FreeWeight's evidence, its binding to the models, and the signals
    routing reads (\<^verbatim>\<open>services/evidence.py\<close>).
  \<^item> \<open>Registry\<close>: discovery of models, declared and manual capabilities, the adapters (\<^verbatim>\<open>services/models.py\<close>, \<^verbatim>\<open>adapters.py\<close>,
    \<^verbatim>\<open>domain/registry.py\<close>).
  \<^item> \<open>Statistics\<close>, \<open>Feedback\<close>: the statistics mirror, who refreshes it, and the verdicts of callers (\<^verbatim>\<open>services/reliability.py\<close>,
    \<^verbatim>\<open>feedback.py\<close>).
  \<^item> \<open>Task_Profiles\<close>: the validation and the import of task profiles (\<^verbatim>\<open>domain/task_profile.py\<close>, \<^verbatim>\<open>services/task_profiles.py\<close>).
  \<^item> \<open>Explanation\<close>, \<open>Routing\<close>, \<open>Routing_Correctness\<close>: the routing service itself, which merges a request into its profile, reads the
    candidates, judges and ranks them, explains the decision and stores it (\<^verbatim>\<open>services/routing.py\<close>,
    \<^verbatim>\<open>domain/routing/explanation.py\<close>).
  \<^item> \<open>Scheduler\<close>, \<open>Store_Steps\<close>, \<open>Scheduling\<close>: the scheduler's tick, all transactions of the program as one step relation, and what
    holds of the whole.

  \<^bold>\<open>What is shown.\<close> Over all parts together: the invariant of the store under every transaction of every part in any
  order (\<open>store_invariant\<close>); a worker always finishes with a claimed job and lets it go, with any transactions of
  the others in between (\<open>worker_lets_go\<close>, through the interface \<open>interference\<close>, a rely condition that
  \<open>store_step_rely\<close> discharges for every transaction of the program); a tick of the scheduler keeps the store sound, never takes a job from
  a running worker of its own process and ends overdue cancellations (\<open>tick_sound\<close>, \<open>lease_kept\<close>, \<open>watchdog_ends_overdue\<close>).
  Of the parts: claims take the best due job, transitions are fenced on state and owner, recovery and reaping are
  complete, keyed submissions run once, requests survive the round trip through their row, the
  ageing statement refines the pure priority rule; the validator decides conformance to the schema, the constraint filter is
  exact, the ranking is a sorted permutation and does not depend on discovery order; breakers keep their invariant, admit
  one probe and exclude nothing for ever; incremental statistics equal recomputed ones; residency evicts only what its policy
  allows; settings are typed and read back as written. An import of evidence accounts for every record and loses none, and a
  subject is scored on its own evidence only; discovery keeps what it knows; re-binding reaches a fixed point; the statistics mirror is
  what its definition computes from scratch; task profiles load exactly if they are sound, and are read as imported. The error theorems state what goes wrong on particular inputs.

  \<^bold>\<open>Interfaces.\<close> \<open>settle_rows\<close> is what the sweeps share (select rows, move each along an edge): the reaper, the recovery pass and the wait bound
  interpret it. \<open>interference\<close> is what a worker assumes of the rest of the program. \<open>rounding\<close> is what the
  numeric proofs use of the rounding of doubles, \<open>dictionary\<close> what the clients of an insertion-ordered dictionary use of its operations, \<open>upsert_table\<close> what an
  upsert promises about a table under its unique index, interpreted for the tables of evidence, capabilities, adapters,
  statistics and task profiles. Each is interpreted on
  the model's own definitions.

  \<^bold>\<open>Loops.\<close> The worker's two nested loops are one \<open>partial_function\<close> over a position, in which not returning would be
  \<open>None\<close>; \<open>worker_terminates\<close> shows it returns, whatever the environment does, with a bound on the provider calls. The loops of the
  synchronous path recurse on the attempts left and the candidates left. No definition uses fuel that could run out.

  \<^bold>\<open>Concurrency.\<close> A run of a worker is a sequence of atomic accesses; before each the others do anything that the transactions of the program
  allow (\<open>with_others\<close>). Each operation of the queue is one transaction, which is what SQLite's single writer gives the
  code; the two readers of the code that act on stale rows (the watchdog, the re-evaluation) are protected by the fence, and their refusals are modelled.

  \<^bold>\<open>Not modelled.\<close> Parsing and rendering of requests (web, command line), the declarations and layering of the configuration, database set-up and
  migrations, the HTTP client of FreeWeight and the rebuilding of its envelopes, the reading of the adapter directory, the construction of
  providers, diagnostics, logging and the streams to the browser: input, output and glue over the parts above, or code
  whose behaviour is that of the packages it calls. The routing service is a theory of its own and its outcome a parameter of the
  worker and of the synchronous path, so that what they show holds whatever routing answers; the refresh of the
  statistics mirror after an attempt touches neither job tables nor control flow and is modelled in \<open>Statistics\<close>.
\<close>

end
